(* ===== verification/Prelude.thy ===== *)
theory Prelude
  imports Complex_Main "HOL-Library.AList" "HOL-Library.Char_ord" "HOL-Library.List_Lexorder"
    "HOL-Library.Product_Lexorder"
begin

text \<open>
  Shared vocabulary of the development.  A Python \<open>dict\<close> is an association list with
  distinct keys in insertion order: \<open>d[k] = v\<close> is \<^const>\<open>AList.update\<close>, which replaces in
  place or appends, and \<open>d.get(k)\<close> is \<^const>\<open>map_of\<close>.  A computation that may raise is a
  value of a sum type, \<open>Inl\<close> for the exception; \<open>rbind\<close> sequences two such
  computations.  The collections below gather the facts that proofs about
  dictionaries (\<open>dict_simps\<close>) and results (\<open>result_simps\<close>) share.
\<close>

named_theorems dict_simps \<open>rewriting of dictionary operations\<close>
named_theorems result_simps \<open>rewriting of computations that may raise\<close>

type_synonym ('k, 'v) dict = "('k \<times> 'v) list"

abbreviation keys :: "('k, 'v) dict \<Rightarrow> 'k list" where
  "keys d \<equiv> map fst d"

abbreviation dict_ok :: "('k, 'v) dict \<Rightarrow> bool" where
  "dict_ok d \<equiv> distinct (keys d)"

subsection \<open>Computations that may raise\<close>

definition rbind :: "'e + 'a \<Rightarrow> ('a \<Rightarrow> 'e + 'b) \<Rightarrow> 'e + 'b" where
  "rbind m f = (case m of Inl e \<Rightarrow> Inl e | Inr x \<Rightarrow> f x)"

definition require_that :: "bool \<Rightarrow> 'e \<Rightarrow> 'e + unit" where
  "require_that b e = (if b then Inr () else Inl e)"

lemma rbind_simps [simp, result_simps]:
  "rbind (Inl e) f = Inl e"
  "rbind (Inr x) f = f x"
  by (simp_all add: rbind_def)

lemma rbind_Inr_iff [result_simps]:
  "rbind m f = Inr y \<longleftrightarrow> (\<exists>x. m = Inr x \<and> f x = Inr y)"
  by (cases m) simp_all

lemma rbind_Inl_iff [result_simps]:
  "rbind m f = Inl e \<longleftrightarrow> m = Inl e \<or> (\<exists>x. m = Inr x \<and> f x = Inl e)"
  by (cases m) simp_all

lemma require_that_iff [simp, result_simps]:
  "require_that b e = Inr u \<longleftrightarrow> b"
  "require_that b e = Inl e' \<longleftrightarrow> \<not> b \<and> e' = e"
  by (auto simp: require_that_def)

lemma require_that_simps [simp]:
  "require_that True e = Inr ()"
  "require_that False e = Inl e"
  by (simp_all add: require_that_def)


subsection \<open>Dictionaries\<close>

lemma keys_update_in: "k \<in> set (keys d) \<Longrightarrow> keys (AList.update k v d) = keys d"
  by (induction d) auto

lemma keys_update_notin: "k \<notin> set (keys d) \<Longrightarrow> AList.update k v d = d @ [(k, v)]"
  by (induction d) auto

lemma image_fst_update [simp, dict_simps]: "fst ` set (AList.update k v d) = insert k (fst ` set d)"
  by (simp add: dom_update)

lemma set_keys_update: "set (keys (AList.update k v d)) = insert k (set (keys d))"
  by simp

lemma dict_ok_update [simp, dict_simps]: "dict_ok d \<Longrightarrow> dict_ok (AList.update k v d)"
  by (cases "k \<in> set (keys d)") (auto simp: keys_update_in keys_update_notin)

lemma length_update [dict_simps]:
  "length (AList.update k v d) = (if k \<in> set (keys d) then length d else Suc (length d))"
proof (cases "k \<in> set (keys d)")
  case True
  then have "length (keys (AList.update k v d)) = length (keys d)" by (simp only: keys_update_in)
  with True show ?thesis by simp
qed (simp add: keys_update_notin)

lemma set_update [dict_simps]:
  "dict_ok d \<Longrightarrow> set (AList.update k v d) = insert (k, v) {p \<in> set d. fst p \<noteq> k}"
proof (induction d)
  case (Cons p d)
  then show ?case by (cases "fst p = k") (auto simp: image_iff)
qed simp

lemma map_of_update [simp, dict_simps]:
  "map_of (AList.update k v d) k' = (if k' = k then Some v else map_of d k')"
  by (simp add: update_conv')

lemma map_of_filter_key [dict_simps]:
  "map_of (filter (\<lambda>(k, v). P k) d) k = (if P k then map_of d k else None)"
  by (induction d) auto

lemma dict_ok_filter [simp, dict_simps]: "dict_ok d \<Longrightarrow> dict_ok (filter P d)"
  by (rule distinct_map_filter)

lemma in_dict_iff [dict_simps]: "dict_ok d \<Longrightarrow> (k, v) \<in> set d \<longleftrightarrow> map_of d k = Some v"
  by (simp add: Some_eq_map_of_iff eq_commute)

lemma notin_keys_iff [dict_simps]: "map_of d k = None \<longleftrightarrow> k \<notin> set (keys d)"
  by (simp add: map_of_eq_None_iff)

subsection \<open>Lists\<close>

lemma filter_length_eq: "\<not> length (filter P xs) < length xs \<Longrightarrow> filter P xs = xs"
  by (metis filter_id_conv length_filter_less)

lemma sorted_map_filter: "sorted (map f xs) \<Longrightarrow> sorted (map f (filter P xs))"
  by (induction xs) auto

lemma sorted_map_drop: "sorted (map f xs) \<Longrightarrow> sorted (map f (drop n xs))"
  by (metis drop_map sorted_wrt_drop)

lemma distinct_find_iff:
  "distinct (map f xs) \<Longrightarrow> find (\<lambda>x. f x = i) xs = Some x \<longleftrightarrow> x \<in> set xs \<and> f x = i"
  by (induction xs) (auto simp: image_iff)

lemma find_None_iff_image: "find (\<lambda>x. f x = i) xs = None \<longleftrightarrow> i \<notin> f ` set xs"
  by (auto simp: find_None_iff)

lemma sum_list_bound: "(\<And>x. x \<in> set xs \<Longrightarrow> f x \<le> n) \<Longrightarrow> sum_list (map f xs) \<le> length xs * (n::nat)"
proof (induction xs)
  case (Cons x xs)
  then have "f x \<le> n" "sum_list (map f xs) \<le> length xs * n" by simp_all
  then show ?case by simp
qed simp

end
