(* ===== verification/Pyfloat.thy ===== *)
theory Pyfloat
  imports Prelude
begin

text \<open>
  Python's \<open>float\<close> is an IEEE 754 binary64 value and its \<open>+ - * /\<close> and \<open>math.sqrt\<close> round
  the exact result to the nearest such value, ties to even.  A float is modelled by the rational it
  denotes and every operation by the exact rational operation followed by \<open>fl\<close>, the
  rounding itself, gradual underflow included.  Overflow, infinities and NaN are left out:
  the service's inputs are bounded (latencies by \<open>8.64e7\<close>, counters by \<open>1e9\<close>, timestamps by the range of
  \<open>datetime\<close>), so no operation of the program gets near \<open>2 ^ 1024\<close>.
\<close>

type_synonym pyfloat = rat

subsection \<open>Rounding to an integer, ties to even\<close>

definition round_half_even :: "rat \<Rightarrow> int" where
  "round_half_even x =
     (let n = \<lfloor>x\<rfloor>; d = x - of_int n
      in if d < 1/2 then n else if 1/2 < d then n + 1 else if even n then n else n + 1)"

lemma round_half_even_bounds: "\<lfloor>x\<rfloor> \<le> round_half_even x" "round_half_even x \<le> \<lfloor>x\<rfloor> + 1"
  by (simp_all add: round_half_even_def Let_def)

lemma round_half_even_of_int [simp]: "round_half_even (of_int n) = n"
  by (simp add: round_half_even_def)

lemma round_half_even_mono:
  assumes "x \<le> y"
  shows "round_half_even x \<le> round_half_even y"
proof (cases "\<lfloor>x\<rfloor> = \<lfloor>y\<rfloor>")
  case True
  with assms show ?thesis by (auto simp: round_half_even_def Let_def)
next
  case False
  with assms have "\<lfloor>x\<rfloor> + 1 \<le> \<lfloor>y\<rfloor>" by (meson add1_zle_eq floor_mono order_le_imp_less_or_eq)
  with round_half_even_bounds(2) [of x] round_half_even_bounds(1) [of y] show ?thesis by linarith
qed

lemma round_half_even_le_int: "x \<le> of_int n \<Longrightarrow> round_half_even x \<le> n"
  using round_half_even_mono [of x "of_int n"] by simp

lemma int_le_round_half_even: "of_int n \<le> x \<Longrightarrow> n \<le> round_half_even x"
  using round_half_even_mono [of "of_int n" x] by simp

lemma round_half_even_eqI:
  assumes "\<bar>x - of_int n\<bar> < 1/2"
  shows "round_half_even x = n"
proof (cases "of_int n \<le> x")
  case True
  with assms have "\<lfloor>x\<rfloor> = n" by (intro floor_unique) linarith+
  with assms True show ?thesis by (simp add: round_half_even_def)
next
  case False
  with assms have "\<lfloor>x\<rfloor> = n - 1" by (intro floor_unique) (auto simp: abs_if)
  with assms False show ?thesis by (simp add: round_half_even_def)
qed

subsection \<open>The binary exponent\<close>

text \<open>\<open>ilog2 x\<close> is the exponent of the leading bit of a positive \<open>x\<close>.\<close>

function ilog2 :: "rat \<Rightarrow> int" where
  "ilog2 x =
     (if x \<le> 0 then 0
      else if 2 \<le> x then ilog2 (x / 2) + 1
      else if x < 1 then ilog2 (2 * x) - 1
      else 0)"
  by pat_completeness auto
termination
proof (relation "measure (\<lambda>x::rat. if 1 \<le> x then nat \<lfloor>x\<rfloor> else nat \<lceil>1 / x\<rceil>)")
  fix x :: rat
  assume "\<not> x \<le> 0" and two: "2 \<le> x"
  have "\<lfloor>x / 2\<rfloor> < \<lfloor>x\<rfloor>"
    using two by linarith
  with two show "(x / 2, x) \<in> measure (\<lambda>x. if 1 \<le> x then nat \<lfloor>x\<rfloor> else nat \<lceil>1 / x\<rceil>)"
    by auto
next
  fix x :: rat
  assume pos: "\<not> x \<le> 0" and lt: "x < 1"
  define y where "y = 1 / x"
  have half: "1 / (2 * x) = y / 2" by (simp add: y_def)
  from pos lt have "1 < y" by (simp add: y_def field_simps)
  then have ge: "2 \<le> \<lceil>y\<rceil>" by linarith
  then have "y / 2 \<le> of_int (\<lceil>y\<rceil> - 1)" using le_of_int_ceiling [of y] by linarith
  then have less: "\<lceil>y / 2\<rceil> < \<lceil>y\<rceil>" using ceiling_le [of "y / 2" "\<lceil>y\<rceil> - 1"] by linarith
  have "\<lfloor>2 * x\<rfloor> < \<lceil>y\<rceil>" using lt ge by linarith
  with ge less have "(if 1 \<le> 2 * x then nat \<lfloor>2 * x\<rfloor> else nat \<lceil>1 / (2 * x)\<rceil>) < nat \<lceil>y\<rceil>"
    unfolding half by (simp add: nat_less_iff)
  with lt y_def show "(2 * x, x) \<in> measure (\<lambda>x. if 1 \<le> x then nat \<lfloor>x\<rfloor> else nat \<lceil>1 / x\<rceil>)"
    by simp
qed simp

declare ilog2.simps [simp del]

lemma ilog2_bounds:
  assumes "0 < x"
  shows "2 powi (ilog2 x) \<le> x \<and> x < 2 powi (ilog2 x + 1)"
  using assms
proof (induction x rule: ilog2.induct)
  case (1 x)
  consider "2 \<le> x" | "x < 1" | "1 \<le> x" "x < 2" by linarith
  then show ?case
  proof cases
    case 1
    with "1.IH"(1) "1.prems" have "2 powi (ilog2 (x/2)) \<le> x/2 \<and> x/2 < 2 powi (ilog2 (x/2) + 1)" by simp
    with 1 show ?thesis by (simp add: ilog2.simps [of x] power_int_add)
  next
    case 2
    with "1.IH"(2) "1.prems" have "2 powi (ilog2 (2*x)) \<le> 2*x \<and> 2*x < 2 powi (ilog2 (2*x) + 1)" by simp
    with 2 "1.prems" show ?thesis by (simp add: ilog2.simps [of x] power_int_add power_int_diff)
  next
    case 3
    then show ?thesis by (simp add: ilog2.simps [of x])
  qed
qed

lemma powi_two_less_iff [simp]: "(2::rat) powi m < 2 powi n \<longleftrightarrow> m < n"
  by (meson not_less one_less_numeral_iff power_int_increasing power_int_strict_increasing
      semiring_norm(76) one_le_numeral)

lemma powi_two_le_iff [simp]: "(2::rat) powi m \<le> 2 powi n \<longleftrightarrow> m \<le> n"
  using powi_two_less_iff [of n m] by (simp only: flip: not_less)

lemma powi_two_of_int: "0 \<le> k \<Longrightarrow> (2::rat) powi k = of_int (2 ^ nat k)"
  by (simp add: power_int_def)

lemma ilog2_unique:
  assumes "2 powi n \<le> x" "x < 2 powi (n + 1)"
  shows "ilog2 x = n"
proof -
  have pos: "0 < x" using assms(1) by (rule less_le_trans [rotated]) simp
  note b = ilog2_bounds [OF pos]
  have "(2::rat) powi n < 2 powi (ilog2 x + 1)" using assms(1) b by linarith
  then have 1: "n < ilog2 x + 1" by simp
  have "(2::rat) powi (ilog2 x) < 2 powi (n + 1)" using assms(2) b by linarith
  then have 2: "ilog2 x < n + 1" by simp
  from 1 2 show ?thesis by simp
qed

lemma ilog2_mono:
  assumes "0 < x" "x \<le> y"
  shows "ilog2 x \<le> ilog2 y"
proof -
  have "(2::rat) powi (ilog2 x) < 2 powi (ilog2 y + 1)"
    using assms ilog2_bounds [of x] ilog2_bounds [of y] by linarith
  then show ?thesis by simp
qed

subsection \<open>Rounding to binary64\<close>

text \<open>
  A positive value with leading exponent \<open>e\<close> is rounded to a multiple of \<open>2 powi (e - 52)\<close>,
  and to a multiple of \<open>2 powi (- 1074)\<close> in the subnormal range.
\<close>

definition grid :: "rat \<Rightarrow> int" where
  "grid x = max (ilog2 x - 52) (- 1074)"

definition fl_pos :: "rat \<Rightarrow> pyfloat" where
  "fl_pos x = of_int (round_half_even (x * 2 powi (- grid x))) * 2 powi grid x"

definition fl :: "rat \<Rightarrow> pyfloat" where
  "fl x = (if x = 0 then 0 else if x < 0 then - fl_pos (- x) else fl_pos x)"

definition fadd :: "pyfloat \<Rightarrow> pyfloat \<Rightarrow> pyfloat" where "fadd x y = fl (x + y)"
definition fsub :: "pyfloat \<Rightarrow> pyfloat \<Rightarrow> pyfloat" where "fsub x y = fl (x - y)"
definition fmul :: "pyfloat \<Rightarrow> pyfloat \<Rightarrow> pyfloat" where "fmul x y = fl (x * y)"
definition fdiv :: "pyfloat \<Rightarrow> pyfloat \<Rightarrow> pyfloat" where "fdiv x y = fl (x / y)"

lemma grid_mono: "0 < x \<Longrightarrow> x \<le> y \<Longrightarrow> grid x \<le> grid y"
  using ilog2_mono [of x y] by (simp add: grid_def)

lemma powi_grid_cancel: "(2::rat) powi (- k) * 2 powi k = 1" "(2::rat) powi k * 2 powi (- k) = 1"
  by (simp_all add: power_int_minus)

lemma fl_pos_nonneg: "0 \<le> x \<Longrightarrow> 0 \<le> fl_pos x"
  using int_le_round_half_even [of 0 "x * 2 powi (- grid x)"] by (simp add: fl_pos_def)

text \<open>A power of two on the grid of \<open>x\<close> bounds the rounding of whatever it bounds.\<close>

lemma fl_pos_le_powi:
  assumes "x \<le> 2 powi n" "grid x \<le> n"
  shows "fl_pos x \<le> 2 powi n"
proof -
  have int: "(2::rat) powi (n - grid x) = of_int (2 ^ nat (n - grid x))"
    using assms(2) by (simp only: powi_two_of_int)
  have "x * 2 powi (- grid x) \<le> 2 powi n * 2 powi (- grid x)"
    using assms(1) by (intro mult_right_mono) auto
  also have "\<dots> = 2 powi (n - grid x)"
    by (simp flip: power_int_add)
  also note int
  finally have "round_half_even (x * 2 powi (- grid x)) \<le> 2 ^ nat (n - grid x)"
    by (rule round_half_even_le_int)
  then have "of_int (round_half_even (x * 2 powi (- grid x))) \<le> (2::rat) powi (n - grid x)"
    using int by (metis of_int_le_iff)
  then have "fl_pos x \<le> 2 powi (n - grid x) * 2 powi grid x"
    unfolding fl_pos_def by (intro mult_right_mono) auto
  then show ?thesis by (simp flip: power_int_add)
qed

lemma powi_le_fl_pos:
  assumes "2 powi n \<le> x" "grid x \<le> n"
  shows "2 powi n \<le> fl_pos x"
proof -
  have int: "(2::rat) powi (n - grid x) = of_int (2 ^ nat (n - grid x))"
    using assms(2) by (simp only: powi_two_of_int)
  have "of_int (2 ^ nat (n - grid x)) = (2::rat) powi n * 2 powi (- grid x)"
    unfolding int [symmetric] by (simp flip: power_int_add)
  also have "\<dots> \<le> x * 2 powi (- grid x)"
    using assms(1) by (intro mult_right_mono) auto
  finally have "2 ^ nat (n - grid x) \<le> round_half_even (x * 2 powi (- grid x))"
    by (rule int_le_round_half_even)
  then have "(2::rat) powi (n - grid x) \<le> of_int (round_half_even (x * 2 powi (- grid x)))"
    using int by (metis of_int_le_iff)
  then have "2 powi (n - grid x) * 2 powi grid x \<le> fl_pos x"
    unfolding fl_pos_def by (intro mult_right_mono) auto
  then show ?thesis by (simp flip: power_int_add)
qed

lemma fl_pos_mono:
  assumes "0 < x" "x \<le> y"
  shows "fl_pos x \<le> fl_pos y"
proof (cases "grid x = grid y")
  case True
  have "x * 2 powi (- grid x) \<le> y * 2 powi (- grid x)"
    using assms(2) by (intro mult_right_mono) auto
  then have "round_half_even (x * 2 powi (- grid x)) \<le> round_half_even (y * 2 powi (- grid x))"
    by (rule round_half_even_mono)
  then show ?thesis
    unfolding fl_pos_def True by (intro mult_right_mono) (simp_all add: True)
next
  case False
  with grid_mono [OF assms] have lt: "grid x < grid y" by simp
  then have gy: "grid y = ilog2 y - 52" and gx: "ilog2 x < ilog2 y"
    by (auto simp: grid_def split: if_splits)
  have y: "0 < y" using assms by simp
  have "x < 2 powi (ilog2 x + 1)" using ilog2_bounds [OF assms(1)] by simp
  also have "\<dots> \<le> 2 powi ilog2 y" using gx by (intro power_int_increasing) auto
  finally have "fl_pos x \<le> 2 powi ilog2 y" using lt gy by (intro fl_pos_le_powi) auto
  also have "\<dots> \<le> fl_pos y" using ilog2_bounds [OF y] gy by (intro powi_le_fl_pos) auto
  finally show ?thesis .
qed

lemma fl_0 [simp]: "fl 0 = 0"
  by (simp add: fl_def)

lemma fl_minus: "fl (- x) = - fl x"
  by (simp add: fl_def)

lemma fl_nonneg: "0 \<le> x \<Longrightarrow> 0 \<le> fl x"
  by (simp add: fl_def fl_pos_nonneg)

lemma fl_nonpos: "x \<le> 0 \<Longrightarrow> fl x \<le> 0"
  by (simp add: fl_def fl_pos_nonneg)

lemma fl_mono:
  assumes "x \<le> y"
  shows "fl x \<le> fl y"
proof -
  consider "0 < x" | "y < 0" | "x \<le> 0" "0 \<le> y" by linarith
  then show ?thesis
  proof cases
    case 1
    with assms show ?thesis by (simp add: fl_def fl_pos_mono)
  next
    case 2
    with assms fl_pos_mono [of "- y" "- x"] show ?thesis by (simp add: fl_def)
  next
    case 3
    with fl_nonpos [of x] fl_nonneg [of y] show ?thesis by linarith
  qed
qed


subsection \<open>Exact results\<close>

text \<open>A product of a 53-bit integer and a power of two in range is a float, so it is not changed.\<close>

lemma grid_le:
  assumes "0 < m" "m < 2 ^ 53" "- 1074 \<le> k"
  shows "grid (of_int m * 2 powi k) \<le> k"
proof -
  let ?x = "(of_int m :: rat) * 2 powi k"
  have pos: "0 < ?x" using assms(1) by simp
  have "2 powi ilog2 ?x \<le> ?x" using ilog2_bounds [OF pos] by simp
  also have "?x < of_int (2 ^ 53) * 2 powi k"
    using assms(2) by (intro mult_strict_right_mono) (simp_all only: of_int_less_iff zero_less_power_int zero_less_numeral)
  also have "of_int (2 ^ 53) * 2 powi k = (2::rat) ^ 53 * 2 powi k" by simp
  also have "(2::rat) ^ 53 * 2 powi k = 2 powi (53 + k)"
    by (simp add: power_int_add)
  finally have "ilog2 ?x < 53 + k" by simp
  with assms(3) show ?thesis by (simp add: grid_def)
qed

lemma fl_exact_pos:
  assumes "0 < m" "m < 2 ^ 53" "- 1074 \<le> k"
  shows "fl (of_int m * 2 powi k) = of_int m * 2 powi k"
proof -
  let ?x = "(of_int m :: rat) * 2 powi k"
  have "?x * 2 powi (- grid ?x) = of_int m * 2 powi (k - grid ?x)"
    by (simp add: power_int_add power_int_diff power_int_minus divide_simps)
  also have "\<dots> = of_int (m * 2 ^ nat (k - grid ?x))"
    using grid_le [OF assms] by (simp add: powi_two_of_int)
  finally have "of_int (round_half_even (?x * 2 powi (- grid ?x))) = ?x * 2 powi (- grid ?x)"
    by (simp only: round_half_even_of_int)
  then have "fl_pos ?x = ?x * (2 powi (- grid ?x) * 2 powi grid ?x)"
    by (simp only: fl_pos_def mult.assoc)
  then have "fl_pos ?x = ?x" by (simp only: powi_grid_cancel mult_1_right)
  moreover have "0 < ?x" using assms(1) by simp
  ultimately show ?thesis by (simp only: fl_def) simp
qed

lemma fl_of_int [simp]:
  assumes "\<bar>n\<bar> < 2 ^ 53"
  shows "fl (of_int n) = of_int n"
proof -
  consider "n = 0" | "0 < n" | "0 < - n" by linarith
  then show ?thesis
  proof cases
    case 2
    with assms fl_exact_pos [of n 0] show ?thesis by simp
  next
    case 3
    with assms fl_exact_pos [of "- n" 0] fl_minus [of "of_int n"] show ?thesis by simp
  qed simp
qed

lemma fl_of_nat: "n < 2 ^ 53 \<Longrightarrow> fl (of_nat n) = of_nat n"
  using fl_of_int [of "int n"] by simp

lemma fl_1 [simp]: "fl 1 = 1"
  using fl_of_int [of 1] by simp

lemma fl_one_half [simp]: "fl (1/2) = 1/2"
  using fl_exact_pos [of 1 "- 1"] by (simp add: power_int_def)

lemma fl_le_1: "x \<le> 1 \<Longrightarrow> fl x \<le> 1"
  using fl_mono [of x 1] by simp

lemma fl_ge_1: "1 \<le> x \<Longrightarrow> 1 \<le> fl x"
  using fl_mono [of 1 x] by simp

lemma fl_eqI:
  assumes "2 powi (k + 52) \<le> x" "x < 2 powi (k + 53)" "- 1074 \<le> k"
    and "\<bar>x * 2 powi (- k) - of_int m\<bar> < 1/2"
  shows "fl x = of_int m * 2 powi k"
proof -
  have pos: "0 < x" using assms(1) by (rule less_le_trans [rotated]) simp
  have "k + 53 = (k + 52) + 1" by simp
  with assms(1,2) have "ilog2 x = k + 52" by (intro ilog2_unique) simp_all
  with assms(3) have "grid x = k" by (simp add: grid_def)
  with assms(4) pos show ?thesis by (simp add: fl_def fl_pos_def round_half_even_eqI)
qed

text \<open>Halving is exact as long as the result is not subnormal.\<close>

lemma fl_half:
  assumes "2 powi (- 1021) \<le> x"
  shows "fl (x / 2) = fl x / 2"
proof -
  have pos: "0 < x" using assms by (rule less_le_trans [rotated]) simp
  have "(2::rat) powi (- 1021) < 2 powi (ilog2 x + 1)" using assms ilog2_bounds [OF pos] by linarith
  then have ge: "- 1021 \<le> ilog2 x" by (simp only: powi_two_less_iff)
  have "ilog2 (x / 2) = ilog2 x - 1"
    using ilog2_bounds [OF pos] by (intro ilog2_unique) (simp_all add: power_int_add power_int_diff field_simps)
  with ge have g: "grid (x / 2) = grid x - 1" by (simp add: grid_def)
  have "x / 2 * 2 powi (- (grid x - 1)) = x * 2 powi (- grid x)"
    by (simp add: power_int_diff power_int_minus power_int_add field_simps)
  with pos show ?thesis
    by (simp add: fl_def fl_pos_def g) (simp add: power_int_diff)
qed

corollary fl_half_normal: "1 \<le> x \<Longrightarrow> fl (x / 2) = fl x / 2"
proof -
  assume "1 \<le> x"
  moreover have "(2::rat) powi (- 1021) \<le> 2 powi 0" by (simp only: powi_two_le_iff)
  ultimately show ?thesis by (intro fl_half) simp
qed

subsection \<open>Square root\<close>

text \<open>
  The integer square root fixes enough leading bits of the root (at least 55) that only its
  being exact or not still matters for the rounding to 53 bits: an inexact root is replaced by
  the midpoint of its integer interval, on which no rounding boundary lies.
\<close>

function isqrt :: "int \<Rightarrow> int" where
  "isqrt n =
     (if n \<le> 0 then 0
      else let r = 2 * isqrt (n div 4) in if (r + 1) * (r + 1) \<le> n then r + 1 else r)"
  by pat_completeness auto
termination
  by (relation "measure nat") auto

declare isqrt.simps [simp del]

definition fsqrt :: "pyfloat \<Rightarrow> pyfloat" where
  "fsqrt x =
     (if x \<le> 0 then 0
      else let k = nat (55 - ilog2 x div 2); n = isqrt \<lfloor>x * 4 ^ k\<rfloor>;
               s = (if of_int (n * n) = x * 4 ^ k then of_int n else of_int n + 1/2)
           in fl (s / 2 ^ k))"

lemma isqrt_spec:
  "0 \<le> n \<Longrightarrow> 0 \<le> isqrt n \<and> isqrt n * isqrt n \<le> n \<and> n < (isqrt n + 1) * (isqrt n + 1)"
proof (induction n rule: isqrt.induct)
  case (1 n)
  show ?case
  proof (cases "n = 0")
    case True
    then show ?thesis by (simp add: isqrt.simps)
  next
    case False
    define q where "q = isqrt (n div 4)"
    have ih: "0 \<le> q" "q * q \<le> n div 4" "n div 4 < (q + 1) * (q + 1)"
      using 1 False by (auto simp: q_def)
    have lo: "(2 * q) * (2 * q) \<le> n" using ih(2) by linarith
    have "n div 4 + 1 \<le> (q + 1) * (q + 1)" using ih(3) by simp
    then have hi: "n < (2 * q + 2) * (2 * q + 2)" by (simp add: algebra_simps)
    have "isqrt n = (if (2 * q + 1) * (2 * q + 1) \<le> n then 2 * q + 1 else 2 * q)"
      using 1(2) False by (subst isqrt.simps) (simp add: q_def Let_def)
    with ih(1) lo hi show ?thesis by (auto simp: algebra_simps)
  qed
qed

lemma fsqrt_nonneg: "0 \<le> fsqrt x"
  using isqrt_spec [of "\<lfloor>x * 4 ^ nat (55 - ilog2 x div 2)\<rfloor>"]
  by (auto simp: fsqrt_def Let_def intro!: fl_nonneg)

subsection \<open>\<open>round(x, d)\<close>\<close>

text \<open>The decimal nearest to the exact value, ties to even, read back as a float.\<close>

definition round_dec :: "nat \<Rightarrow> pyfloat \<Rightarrow> pyfloat" where
  "round_dec d x = fl (of_int (round_half_even (x * 10 ^ d)) / 10 ^ d)"

lemma round_dec_mono: "x \<le> y \<Longrightarrow> round_dec d x \<le> round_dec d y"
  unfolding round_dec_def
  by (intro fl_mono divide_right_mono) (auto intro: round_half_even_mono)

lemma round_dec_0 [simp]: "round_dec d 0 = 0"
  using round_half_even_of_int [of 0] by (simp add: round_dec_def)

lemma round_dec_1 [simp]: "round_dec d 1 = 1"
  using round_half_even_of_int [of "10 ^ d"] by (simp add: round_dec_def)

lemma round_dec_bounds: "0 \<le> x \<Longrightarrow> 0 \<le> round_dec d x" "x \<le> 1 \<Longrightarrow> round_dec d x \<le> 1"
  using round_dec_mono [of 0 x d] round_dec_mono [of x 1 d] by auto

end
