(* ===== verification/Json.thy ===== *)
theory Json
  imports Pyfloat
begin

text \<open>
  JSON values as \<open>json.loads\<close> returns them (objects are dictionaries in member order) and
  their compact ASCII encoding \<open>json.dumps(value, separators=(",", ":"))\<close>, on which the
  canonical hashes, the stored tenant state and its size limits rest.  Strings are lists of
  code points below 256.  A \<open>runtime\<close> holds what the program takes from outside this
  repository and the theorems keep as a parameter: SHA-256 (as a hexadecimal digest), the shortest
  decimal spelling of a float, and the conversions between instants and ISO 8601 text.
\<close>

datatype json =
    JNull
  | JBool bool
  | JInt int
  | JFloat pyfloat
  | JStr string
  | JArr "json list"
  | JObj "(string \<times> json) list"

datatype pydatetime =
    Naive
  | Aware int \<comment> \<open>the instant, in microseconds since the Unix epoch\<close>

record runtime =
  sha256_hex :: "string \<Rightarrow> string"
  float_repr :: "pyfloat \<Rightarrow> string"
  dump_instant :: "int \<Rightarrow> string"
  fromisoformat :: "string \<Rightarrow> pydatetime option"

subsection \<open>Characters and numerals\<close>

definition code :: "char \<Rightarrow> nat" where
  "code c = of_char c"

definition char_in :: "char \<Rightarrow> char \<Rightarrow> char \<Rightarrow> bool" where
  "char_in lo hi c \<longleftrightarrow> code lo \<le> code c \<and> code c \<le> code hi"

definition is_digit :: "char \<Rightarrow> bool" where
  "is_digit c \<longleftrightarrow> char_in (CHR ''0'') (CHR ''9'') c"

definition is_lower :: "char \<Rightarrow> bool" where
  "is_lower c \<longleftrightarrow> char_in (CHR ''a'') (CHR ''z'') c"

definition is_alnum :: "char \<Rightarrow> bool" where
  "is_alnum c \<longleftrightarrow> char_in (CHR ''A'') (CHR ''Z'') c \<or> is_lower c \<or> is_digit c"

definition is_hex :: "char \<Rightarrow> bool" where
  "is_hex c \<longleftrightarrow> is_digit c \<or> char_in (CHR ''a'') (CHR ''f'') c"

definition digit_char :: "nat \<Rightarrow> char" where
  "digit_char d = ''0123456789abcdef'' ! d"

fun show_nat :: "nat \<Rightarrow> string" where
  "show_nat n = (if n < 10 then [digit_char n] else show_nat (n div 10) @ [digit_char (n mod 10)])"

declare show_nat.simps [simp del]

definition show_int :: "int \<Rightarrow> string" where
  "show_int i = (if i < 0 then CHR ''-'' # show_nat (nat (- i)) else show_nat (nat i))"

subsection \<open>Encoding\<close>

definition escape_char :: "char \<Rightarrow> string" where
  "escape_char c =
     (if c = CHR 0x22 then [CHR 0x5C, CHR 0x22]
      else if c = CHR 0x5C then [CHR 0x5C, CHR 0x5C]
      else if c = CHR 0x0A then [CHR 0x5C, CHR ''n'']
      else if c = CHR 0x0D then [CHR 0x5C, CHR ''r'']
      else if c = CHR 0x09 then [CHR 0x5C, CHR ''t'']
      else if c = CHR 0x0C then [CHR 0x5C, CHR ''f'']
      else if c = CHR 0x08 then [CHR 0x5C, CHR ''b'']
      else if char_in (CHR '' '') (CHR ''~'') c then [c]
      else [CHR 0x5C, CHR ''u'', CHR ''0'', CHR ''0'',
            digit_char (code c div 16), digit_char (code c mod 16)])"

definition dump_string :: "string \<Rightarrow> string" where
  "dump_string s = CHR 0x22 # concat (map escape_char s) @ [CHR 0x22]"

fun join :: "string list \<Rightarrow> string" where
  "join [] = []"
| "join [s] = s"
| "join (s # t # ss) = s @ CHR '','' # join (t # ss)"

fun dumps :: "runtime \<Rightarrow> json \<Rightarrow> string" where
  "dumps R JNull = ''null''"
| "dumps R (JBool b) = (if b then ''true'' else ''false'')"
| "dumps R (JInt i) = show_int i"
| "dumps R (JFloat x) = float_repr R x"
| "dumps R (JStr s) = dump_string s"
| "dumps R (JArr vs) = CHR ''['' # join (map (dumps R) vs) @ '']''"
| "dumps R (JObj ms) =
     CHR ''{'' # join (map (\<lambda>(k, v). dump_string k @ CHR '':'' # dumps R v) ms) @ ''}''"

text \<open>\<open>sort_keys=True\<close> orders the members of every object by their names.\<close>

fun sort_members :: "json \<Rightarrow> json" where
  "sort_members (JArr vs) = JArr (map sort_members vs)"
| "sort_members (JObj ms) = JObj (sort_key fst (map (\<lambda>(k, v). (k, sort_members v)) ms))"
| "sort_members v = v"

text \<open>An optional value as JSON.\<close>

definition json_opt :: "('a \<Rightarrow> json) \<Rightarrow> 'a option \<Rightarrow> json" where
  "json_opt f x = (case x of None \<Rightarrow> JNull | Some y \<Rightarrow> f y)"

end
