(* ===== verification/Protocol.thy ===== *)
theory Protocol
  imports Json "HOL-Library.Monad_Syntax"
begin

text \<open>
  The reliability-event contract of \<open>protocol.py\<close>: the validated event, strict validation of
  a decoded JSON object into one (\<open>extra="forbid"\<close>, \<open>strict=True\<close>), the canonical hash,
  version metadata and the public failure fingerprint.
\<close>

datatype operation = Agent | Model | Tool | Validation

datatype outcome = Success | Failure

datatype failure_type =
    Agent_error | Model_error | Tool_error | Malformed_output | Validation_failure | Timeout
  | Retry_exhausted | Retry_explosion | Loop_detected | Fallback_activated | Task_incomplete | Unknown

datatype version_field =
    V_provider | V_model | V_model_version | V_framework | V_framework_version | V_sdk
  | V_sdk_version | V_tool | V_tool_version | V_prompt_version | V_agent_version

fun operation_name :: "operation \<Rightarrow> string" where
  "operation_name Agent = ''agent''"
| "operation_name Model = ''model''"
| "operation_name Tool = ''tool''"
| "operation_name Validation = ''validation''"

fun outcome_name :: "outcome \<Rightarrow> string" where
  "outcome_name Success = ''success''"
| "outcome_name Failure = ''failure''"

fun failure_name :: "failure_type \<Rightarrow> string" where
  "failure_name Agent_error = ''agent_error''"
| "failure_name Model_error = ''model_error''"
| "failure_name Tool_error = ''tool_error''"
| "failure_name Malformed_output = ''malformed_output''"
| "failure_name Validation_failure = ''validation_failure''"
| "failure_name Timeout = ''timeout''"
| "failure_name Retry_exhausted = ''retry_exhausted''"
| "failure_name Retry_explosion = ''retry_explosion''"
| "failure_name Loop_detected = ''loop_detected''"
| "failure_name Fallback_activated = ''fallback_activated''"
| "failure_name Task_incomplete = ''task_incomplete''"
| "failure_name Unknown = ''unknown''"

fun version_name :: "version_field \<Rightarrow> string" where
  "version_name V_provider = ''provider''"
| "version_name V_model = ''model''"
| "version_name V_model_version = ''model_version''"
| "version_name V_framework = ''framework''"
| "version_name V_framework_version = ''framework_version''"
| "version_name V_sdk = ''sdk''"
| "version_name V_sdk_version = ''sdk_version''"
| "version_name V_tool = ''tool''"
| "version_name V_tool_version = ''tool_version''"
| "version_name V_prompt_version = ''prompt_version''"
| "version_name V_agent_version = ''agent_version''"

definition all_operations :: "operation list" where
  "all_operations = [Agent, Model, Tool, Validation]"

definition all_outcomes :: "outcome list" where
  "all_outcomes = [Success, Failure]"

definition all_failures :: "failure_type list" where
  "all_failures =
     [Agent_error, Model_error, Tool_error, Malformed_output, Validation_failure, Timeout,
      Retry_exhausted, Retry_explosion, Loop_detected, Fallback_activated, Task_incomplete, Unknown]"

definition VERSION_FIELDS :: "version_field list" where
  "VERSION_FIELDS =
     [V_provider, V_model, V_model_version, V_framework, V_framework_version, V_sdk,
      V_sdk_version, V_tool, V_tool_version, V_prompt_version, V_agent_version]"

text \<open>\<open>VERSION_FIELDS[:-2]\<close>: the customer's prompt and agent versions are left out.\<close>

definition PUBLIC_COMPONENT_FIELDS :: "version_field list" where
  "PUBLIC_COMPONENT_FIELDS = take (length VERSION_FIELDS - 2) VERSION_FIELDS"

text \<open>
  \<open>ev_label e f\<close> is the optional identifier \<open>getattr(event, f)\<close> of the eleven version fields; the
  timestamp is the UTC instant in microseconds.
\<close>

record event =
  ev_event_id :: string
  ev_timestamp :: int
  ev_deployment_id :: string
  ev_agent_id :: string
  ev_operation :: operation
  ev_outcome :: outcome
  ev_failure_type :: "failure_type option"
  ev_latency_ms :: "pyfloat option"
  ev_input_tokens :: "int option"
  ev_output_tokens :: "int option"
  ev_retry_count :: "int option"
  ev_label :: "version_field \<Rightarrow> string option"
  ev_synthetic :: bool

subsection \<open>Canonical hash, version metadata, fingerprint\<close>

definition canonical_hash :: "runtime \<Rightarrow> json \<Rightarrow> string" where
  "canonical_hash R value = sha256_hex R (dumps R (sort_members value))"

definition version_metadata :: "event \<Rightarrow> (string, string) dict" where
  "version_metadata e =
     concat (map (\<lambda>f. case ev_label e f of None \<Rightarrow> [] | Some v \<Rightarrow> [(version_name f, v)]) VERSION_FIELDS)"

definition str_members :: "(string, string) dict \<Rightarrow> (string, json) dict" where
  "str_members d = map (\<lambda>(k, v). (k, JStr v)) d"

text \<open>
  The public labels enter the object after the three fixed members; they are kept when truthy,
  that is neither \<open>None\<close> nor empty.
\<close>

definition failure_fingerprint :: "runtime \<Rightarrow> event \<Rightarrow> string option" where
  "failure_fingerprint R e =
     (if ev_outcome e \<noteq> Failure then None
      else Some (canonical_hash R (JObj
        ([(''fingerprint_version'', JStr ''1.0''), (''operation'', JStr (operation_name (ev_operation e))),
          (''failure_type'', json_opt (\<lambda>t. JStr (failure_name t)) (ev_failure_type e))]
         @ concat (map (\<lambda>f. case ev_label e f of
                              None \<Rightarrow> []
                            | Some v \<Rightarrow> if v = [] then [] else [(version_name f, JStr v)])
                       PUBLIC_COMPONENT_FIELDS)))))"

text \<open>\<open>event.model_dump(mode="json")\<close>: every field in declaration order.\<close>

definition model_dump :: "runtime \<Rightarrow> event \<Rightarrow> json" where
  "model_dump R e = JObj
     ([(''schema_version'', JStr ''1.0''),
       (''event_id'', JStr (ev_event_id e)),
       (''timestamp'', JStr (dump_instant R (ev_timestamp e))),
       (''deployment_id'', JStr (ev_deployment_id e)),
       (''agent_id'', JStr (ev_agent_id e)),
       (''operation'', JStr (operation_name (ev_operation e))),
       (''outcome'', JStr (outcome_name (ev_outcome e))),
       (''failure_type'', json_opt (\<lambda>t. JStr (failure_name t)) (ev_failure_type e)),
       (''latency_ms'', json_opt JFloat (ev_latency_ms e)),
       (''input_tokens'', json_opt JInt (ev_input_tokens e)),
       (''output_tokens'', json_opt JInt (ev_output_tokens e)),
       (''retry_count'', json_opt JInt (ev_retry_count e))]
      @ map (\<lambda>f. (version_name f, json_opt JStr (ev_label e f))) VERSION_FIELDS
      @ [(''synthetic'', JBool (ev_synthetic e))])"


subsection \<open>Strict validation of a decoded JSON object\<close>

text \<open>
  Validation yields \<open>None\<close> where pydantic raises \<open>ValidationError\<close> (the service answers 422
  whatever the reason).  Strict mode takes no conversions but the one from an integer literal to a float
  field; \<open>bool\<close> is not an integer.
\<close>

definition identifier_char :: "char \<Rightarrow> bool" where
  "identifier_char c \<longleftrightarrow> is_alnum c \<or> c \<in> set ''._:/-''"

definition identifier_ok :: "string \<Rightarrow> bool" where
  "identifier_ok s =
     (case s of [] \<Rightarrow> False | c # cs \<Rightarrow> is_alnum c \<and> length cs \<le> 63 \<and> list_all identifier_char cs)"

text \<open>The 8-4-4-4-12 pattern; a string that matches it is its own canonical \<open>str(UUID(value))\<close>.\<close>

definition event_id_ok :: "string \<Rightarrow> bool" where
  "event_id_ok s \<longleftrightarrow> length s = 36 \<and>
     list_all (\<lambda>(i, c). if i \<in> {8, 13, 18, 23} then c = CHR ''-'' else is_hex c) (zip [0..<36] s)"

text \<open>\<open>value.astimezone(UTC)\<close> overflows outside the years 1 to 9999.\<close>

definition datetime_range :: "int \<Rightarrow> bool" where
  "datetime_range us \<longleftrightarrow> - 62135596800000000 \<le> us \<and> us \<le> 253402300799999999"

definition replace_Z :: "string \<Rightarrow> string" where
  "replace_Z s = concat (map (\<lambda>c. if c = CHR ''Z'' then ''+00:00'' else [c]) s)"

definition aware_timestamp :: "runtime \<Rightarrow> json \<Rightarrow> int option" where
  "aware_timestamp R v =
     (case v of
        JStr s \<Rightarrow>
          if 40 < length s \<or> CHR ''T'' \<notin> set s then None
          else (case fromisoformat R (replace_Z s) of
                  Some (Aware us) \<Rightarrow> if datetime_range us then Some us else None
                | _ \<Rightarrow> None)
      | _ \<Rightarrow> None)"

definition str_where :: "(string \<Rightarrow> bool) \<Rightarrow> json \<Rightarrow> string option" where
  "str_where P v = (case v of JStr s \<Rightarrow> if P s then Some s else None | _ \<Rightarrow> None)"

definition int_within :: "int \<Rightarrow> int \<Rightarrow> json \<Rightarrow> int option" where
  "int_within lo hi v = (case v of JInt i \<Rightarrow> if lo \<le> i \<and> i \<le> hi then Some i else None | _ \<Rightarrow> None)"

definition float_within :: "pyfloat \<Rightarrow> pyfloat \<Rightarrow> json \<Rightarrow> pyfloat option" where
  "float_within lo hi v =
     (let check = (\<lambda>x. if lo \<le> x \<and> x \<le> hi then Some x else None)
      in case v of JFloat x \<Rightarrow> check x | JInt i \<Rightarrow> check (fl (of_int i)) | _ \<Rightarrow> None)"

definition literal_of :: "('a \<Rightarrow> string) \<Rightarrow> 'a list \<Rightarrow> json \<Rightarrow> 'a option" where
  "literal_of name xs v = (case v of JStr s \<Rightarrow> find (\<lambda>x. name x = s) xs | _ \<Rightarrow> None)"

definition json_bool :: "json \<Rightarrow> bool option" where
  "json_bool v = (case v of JBool b \<Rightarrow> Some b | _ \<Rightarrow> None)"

definition field :: "(string, json) dict \<Rightarrow> string \<Rightarrow> (json \<Rightarrow> 'a option) \<Rightarrow> 'a option" where
  "field ms k p = (case map_of ms k of None \<Rightarrow> None | Some v \<Rightarrow> p v)"

definition field_default :: "(string, json) dict \<Rightarrow> string \<Rightarrow> 'a \<Rightarrow> (json \<Rightarrow> 'a option) \<Rightarrow> 'a option" where
  "field_default ms k d p = (case map_of ms k of None \<Rightarrow> Some d | Some v \<Rightarrow> p v)"

text \<open>\<open>T | None = None\<close>.\<close>

definition field_opt :: "(string, json) dict \<Rightarrow> string \<Rightarrow> (json \<Rightarrow> 'a option) \<Rightarrow> 'a option option" where
  "field_opt ms k p =
     field_default ms k None (\<lambda>v. case v of JNull \<Rightarrow> Some None | _ \<Rightarrow> map_option Some (p v))"

definition EVENT_FIELDS :: "string list" where
  "EVENT_FIELDS =
     [''schema_version'', ''event_id'', ''timestamp'', ''deployment_id'', ''agent_id'', ''operation'',
      ''outcome'', ''failure_type'', ''latency_ms'', ''input_tokens'', ''output_tokens'', ''retry_count'']
     @ map version_name VERSION_FIELDS @ [''synthetic'']"

definition labels_of :: "(string, json) dict \<Rightarrow> (version_field \<times> string option) list option" where
  "labels_of ms =
     those (map (\<lambda>f. map_option (Pair f) (field_opt ms (version_name f) (str_where identifier_ok)))
       VERSION_FIELDS)"

definition event_of_json :: "runtime \<Rightarrow> json \<Rightarrow> event option" where
  "event_of_json R v =
     (case v of
        JObj ms \<Rightarrow>
          if \<not> list_all (\<lambda>k. k \<in> set EVENT_FIELDS) (keys ms) then None
          else do {
            field_default ms ''schema_version'' ''1.0'' (str_where (\<lambda>s. s = ''1.0''));
            event_id \<leftarrow> field ms ''event_id'' (str_where event_id_ok);
            timestamp \<leftarrow> field ms ''timestamp'' (aware_timestamp R);
            deployment \<leftarrow> field ms ''deployment_id'' (str_where identifier_ok);
            agent \<leftarrow> field ms ''agent_id'' (str_where identifier_ok);
            operation \<leftarrow> field ms ''operation'' (literal_of operation_name all_operations);
            outcome \<leftarrow> field ms ''outcome'' (literal_of outcome_name all_outcomes);
            failure \<leftarrow> field_opt ms ''failure_type'' (literal_of failure_name all_failures);
            latency \<leftarrow> field_opt ms ''latency_ms'' (float_within 0 86400000);
            input_tokens \<leftarrow> field_opt ms ''input_tokens'' (int_within 0 1000000000);
            output_tokens \<leftarrow> field_opt ms ''output_tokens'' (int_within 0 1000000000);
            retries \<leftarrow> field_opt ms ''retry_count'' (int_within 0 1000000);
            labels \<leftarrow> labels_of ms;
            synthetic \<leftarrow> field_default ms ''synthetic'' False json_bool;
            if (outcome = Failure) \<noteq> (failure \<noteq> None) then None
            else Some \<lparr>ev_event_id = event_id, ev_timestamp = timestamp, ev_deployment_id = deployment,
              ev_agent_id = agent, ev_operation = operation, ev_outcome = outcome,
              ev_failure_type = failure, ev_latency_ms = latency, ev_input_tokens = input_tokens,
              ev_output_tokens = output_tokens, ev_retry_count = retries,
              ev_label = (\<lambda>f. Option.bind (map_of labels f) id), ev_synthetic = synthetic\<rparr>
          }
      | _ \<Rightarrow> None)"

text \<open>\<open>EventBatch\<close>: a single member \<open>events\<close> with one to a hundred events.\<close>

definition batch_of_json :: "runtime \<Rightarrow> json \<Rightarrow> event list option" where
  "batch_of_json R v =
     (case v of
        JObj ms \<Rightarrow>
          if \<not> list_all (\<lambda>k. k = ''events'') (keys ms) then None
          else field ms ''events'' (\<lambda>w. case w of
                 JArr vs \<Rightarrow> if 1 \<le> length vs \<and> length vs \<le> 100 then those (map (event_of_json R) vs)
                            else None
               | _ \<Rightarrow> None)
      | _ \<Rightarrow> None)"

end
