(* ===== verification/Statistics.thy ===== *)
theory Statistics
  imports Protocol
begin

text \<open>
  The numerical part of \<open>detection.py\<close>: retained samples, Wilson intervals, window
  statistics, the signals raised by a pair of windows and the recovery test, each computed with the
  binary64 operations of the theory \<open>Pyfloat\<close> in the order the code applies them.
\<close>

definition WINDOW :: nat where "WINDOW = 50"

text \<open>The compact sample \<open>[TS, FAILED, LATENCY, TOKENS, VERSION, FAILURE, RETRIES]\<close>.\<close>

record sample =
  sm_ts :: pyfloat
  sm_failed :: int
  sm_latency :: "pyfloat option"
  sm_tokens :: "int option"
  sm_version :: string
  sm_failure :: "failure_type option"
  sm_retries :: "int option"

datatype metric = LATENCY | TOKENS | RETRIES

fun metric_of :: "metric \<Rightarrow> sample \<Rightarrow> pyfloat option" where
  "metric_of LATENCY r = sm_latency r"
| "metric_of TOKENS r = map_option of_int (sm_tokens r)"
| "metric_of RETRIES r = map_option of_int (sm_retries r)"

definition known :: "metric \<Rightarrow> sample list \<Rightarrow> pyfloat list" where
  "known m rows = List.map_filter (metric_of m) rows"

subsection \<open>Wilson score interval\<close>

definition wilson_z :: pyfloat where
  "wilson_z = fl (1959963984540054 / 10 ^ 15)"

definition wilson_interval :: "int \<Rightarrow> nat \<Rightarrow> pyfloat \<times> pyfloat" where
  "wilson_interval failures count =
     (if count = 0 then (0, 1)
      else
        let n = of_nat count;
            z = wilson_z;
            rate = fdiv (of_int failures) n;
            denominator = fadd 1 (fdiv (fmul z z) n);
            center = fdiv (fadd rate (fdiv (fmul z z) (2 * n))) denominator;
            radius = fdiv (fmul z (fsqrt (fadd (fdiv (fmul rate (fsub 1 rate)) n)
                                               (fdiv (fmul z z) (4 * n * n))))) denominator
        in (if failures = 0 then 0 else max 0 (fsub center radius),
            if failures = int count then 1 else min 1 (fadd center radius)))"

subsection \<open>Window statistics\<close>

text \<open>\<open>statistics.median\<close>: the middle element, or the mean of the two middle ones.\<close>

definition median :: "pyfloat list \<Rightarrow> pyfloat" where
  "median xs =
     (let ys = sort xs; n = length ys
      in if odd n then ys ! (n div 2) else fdiv (fadd (ys ! (n div 2 - 1)) (ys ! (n div 2))) 2)"

definition median_opt :: "pyfloat list \<Rightarrow> pyfloat option" where
  "median_opt xs = (if xs = [] then None else Some (median xs))"

record stats =
  st_count :: nat
  st_failures :: int
  st_failure_rate :: "pyfloat option"
  st_interval :: "pyfloat \<times> pyfloat"
  st_latency_samples :: nat
  st_median_latency_ms :: "pyfloat option"
  st_token_samples :: nat
  st_median_total_tokens :: "pyfloat option"
  st_retry_samples :: nat
  st_median_retry_count :: "pyfloat option"
  st_first_timestamp :: "pyfloat option"
  st_last_timestamp :: "pyfloat option"
  st_version_counts :: "(string, nat) dict"

text \<open>\<open>Counter\<close>: occurrences in order of first appearance.\<close>

fun counter :: "'a list \<Rightarrow> ('a, nat) dict \<Rightarrow> ('a, nat) dict" where
  "counter [] d = d"
| "counter (x # xs) d =
     counter xs (AList.update x (case map_of d x of None \<Rightarrow> 1 | Some c \<Rightarrow> Suc c) d)"

definition window_stats :: "sample list \<Rightarrow> stats" where
  "window_stats rows =
     (let failed = sum_list (map sm_failed rows);
          (low, high) = wilson_interval failed (length rows)
      in \<lparr>st_count = length rows,
          st_failures = failed,
          st_failure_rate = (if rows = [] then None else Some (fdiv (of_int failed) (of_nat (length rows)))),
          st_interval = (round_dec 6 low, round_dec 6 high),
          st_latency_samples = length (known LATENCY rows),
          st_median_latency_ms = median_opt (known LATENCY rows),
          st_token_samples = length (known TOKENS rows),
          st_median_total_tokens = median_opt (known TOKENS rows),
          st_retry_samples = length (known RETRIES rows),
          st_median_retry_count = median_opt (known RETRIES rows),
          st_first_timestamp = (if rows = [] then None else Some (sm_ts (hd rows))),
          st_last_timestamp = (if rows = [] then None else Some (sm_ts (last rows))),
          st_version_counts = sort_key fst (counter (map sm_version rows) [])\<rparr>)"

lemma window_stats_fields:
  "st_count (window_stats rows) = length rows"
  "st_failures (window_stats rows) = sum_list (map sm_failed rows)"
  "st_failure_rate (window_stats rows) =
     (if rows = [] then None else Some (fdiv (of_int (sum_list (map sm_failed rows))) (of_nat (length rows))))"
  "st_interval (window_stats rows) =
     map_prod (round_dec 6) (round_dec 6) (wilson_interval (sum_list (map sm_failed rows)) (length rows))"
  "st_latency_samples (window_stats rows) = length (known LATENCY rows)"
  "st_median_latency_ms (window_stats rows) = median_opt (known LATENCY rows)"
  "st_token_samples (window_stats rows) = length (known TOKENS rows)"
  "st_median_total_tokens (window_stats rows) = median_opt (known TOKENS rows)"
  "st_retry_samples (window_stats rows) = length (known RETRIES rows)"
  "st_median_retry_count (window_stats rows) = median_opt (known RETRIES rows)"
  by (simp_all add: window_stats_def Let_def split_def map_prod_def)

text \<open>The sample count and the median of a metric, the \<open>sample_key\<close> and \<open>median_key\<close> of the code.\<close>

fun st_samples :: "stats \<Rightarrow> metric \<Rightarrow> nat" where
  "st_samples s LATENCY = st_latency_samples s"
| "st_samples s TOKENS = st_token_samples s"
| "st_samples s RETRIES = st_retry_samples s"

fun st_median :: "stats \<Rightarrow> metric \<Rightarrow> pyfloat option" where
  "st_median s LATENCY = st_median_latency_ms s"
| "st_median s TOKENS = st_median_total_tokens s"
| "st_median s RETRIES = st_median_retry_count s"

subsection \<open>Signals\<close>

datatype signal =
    High_failure_rate
  | Failure_rate_regression
  | Degradation metric

datatype evidence =
    Interval_evidence "pyfloat \<times> pyfloat"
  | Rate_evidence pyfloat pyfloat "pyfloat \<times> pyfloat" "pyfloat \<times> pyfloat"
      \<comment> \<open>baseline and current rate, baseline and current interval\<close>
  | Metric_evidence pyfloat pyfloat pyfloat "pyfloat \<times> pyfloat" "pyfloat \<times> pyfloat"
      \<comment> \<open>threshold, baseline and current median, baseline and current elevated interval\<close>

type_synonym signals = "(signal, evidence) dict"

definition p95_index :: "nat \<Rightarrow> nat" where
  "p95_index n = nat (\<lceil>fmul (fl (95 / 100)) (of_nat n)\<rceil> - 1)"

definition count_above :: "pyfloat \<Rightarrow> pyfloat list \<Rightarrow> nat" where
  "count_above t xs = length (filter (\<lambda>v. t < v) xs)"

definition metric_signal :: "sample list \<Rightarrow> sample list \<Rightarrow> metric \<Rightarrow> pyfloat \<Rightarrow> evidence option" where
  "metric_signal baseline current m minimum_delta =
     (let before = known m baseline; after = known m current
      in if min (length before) (length after) < 40 then None
         else
           let base_median = median before; current_median = median after;
               threshold = max (max (sort before ! p95_index (length before)) (fmul base_median (3/2)))
                               (fadd base_median minimum_delta);
               base_interval = wilson_interval (int (count_above threshold before)) (length before);
               current_interval = wilson_interval (int (count_above threshold after)) (length after)
           in if threshold < current_median \<and> snd base_interval < fst current_interval
              then Some (Metric_evidence threshold base_median current_median base_interval current_interval)
              else None)"

text \<open>The minimum meaningful change of each metric, and the smaller one used for recovery.\<close>

fun minimum_delta :: "metric \<Rightarrow> pyfloat" where
  "minimum_delta LATENCY = 50"
| "minimum_delta TOKENS = 100"
| "minimum_delta RETRIES = 2"

fun recovery_delta :: "metric \<Rightarrow> pyfloat" where
  "recovery_delta LATENCY = 25"
| "recovery_delta TOKENS = 50"
| "recovery_delta RETRIES = 1"

definition all_metrics :: "metric list" where
  "all_metrics = [LATENCY, TOKENS, RETRIES]"

definition high_failure_signal :: "sample list \<Rightarrow> signals" where
  "high_failure_signal current =
     (let observed = window_stats current
      in if 25 \<le> length current \<and> 1/2 < fst (st_interval observed)
         then [(High_failure_rate, Interval_evidence (st_interval observed))] else [])"

definition regression_signal :: "sample list \<Rightarrow> sample list \<Rightarrow> signals" where
  "regression_signal baseline current =
     (let base = window_stats baseline; observed = window_stats current
      in case (st_failure_rate base, st_failure_rate observed) of
           (Some b, Some c) \<Rightarrow>
             if fl (15 / 100) \<le> fsub c b \<and> snd (st_interval base) < fst (st_interval observed)
             then [(Failure_rate_regression, Rate_evidence b c (st_interval base) (st_interval observed))]
             else []
         | _ \<Rightarrow> [])"

definition degradation_signals :: "sample list \<Rightarrow> sample list \<Rightarrow> signals" where
  "degradation_signals baseline current =
     concat (map (\<lambda>m. case metric_signal baseline current m (minimum_delta m) of
                        None \<Rightarrow> []
                      | Some e \<Rightarrow> [(Degradation m, e)]) all_metrics)"

definition window_signals :: "sample list \<Rightarrow> sample list \<Rightarrow> signals" where
  "window_signals baseline current =
     (if length baseline < WINDOW \<or> length current < WINDOW
      then high_failure_signal current
      else high_failure_signal current @ regression_signal baseline current
           @ degradation_signals baseline current)"

subsection \<open>Recovery\<close>

text \<open>
  \<open>None\<close> stands for the \<open>TypeError\<close> of arithmetic on a missing statistic (\<open>None * 1.25\<close>, \<open>None + 0.05\<close>);
  the invariant of the theory \<open>Detection_Inv\<close> excludes it.
\<close>

definition regression_recovered :: "stats \<Rightarrow> stats \<Rightarrow> bool option" where
  "regression_recovered base current =
     (case (st_failure_rate base, st_failure_rate current) of
        (Some b, Some c) \<Rightarrow> Some (\<not> fadd b (fl (5 / 100)) < c)
      | _ \<Rightarrow> None)"

definition metric_recovered :: "stats \<Rightarrow> stats \<Rightarrow> metric \<Rightarrow> bool option" where
  "metric_recovered base current m =
     (if st_samples current m < 40 then Some False
      else case (st_median base m, st_median current m) of
             (Some b, Some c) \<Rightarrow> Some (\<not> max (fmul b (5/4)) (fadd b (recovery_delta m)) < c)
           | _ \<Rightarrow> None)"

fun metrics_recovered :: "stats \<Rightarrow> stats \<Rightarrow> signal list \<Rightarrow> metric list \<Rightarrow> bool option" where
  "metrics_recovered base current kinds [] = Some True"
| "metrics_recovered base current kinds (m # ms) =
     (if Degradation m \<notin> set kinds then metrics_recovered base current kinds ms
      else case metric_recovered base current m of
             None \<Rightarrow> None
           | Some False \<Rightarrow> Some False
           | Some True \<Rightarrow> metrics_recovered base current kinds ms)"

definition recovered :: "sample list \<Rightarrow> sample list \<Rightarrow> signal list \<Rightarrow> bool option" where
  "recovered baseline current kinds =
     (if length current < WINDOW then Some False
      else
        let base = window_stats baseline; now = window_stats current
        in if High_failure_rate \<in> set kinds \<and> 1/4 \<le> snd (st_interval now) then Some False
           else if Failure_rate_regression \<in> set kinds then
             (case regression_recovered base now of
                None \<Rightarrow> None
              | Some False \<Rightarrow> Some False
              | Some True \<Rightarrow> metrics_recovered base now kinds all_metrics)
           else metrics_recovered base now kinds all_metrics)"


subsection \<open>Facts about the interval\<close>

lemma wilson_z_bounds: "1 \<le> wilson_z" "wilson_z \<le> 2"
proof -
  have "fl 1 \<le> wilson_z" unfolding wilson_z_def by (intro fl_mono) simp
  then show "1 \<le> wilson_z" by simp
  have "wilson_z \<le> fl (of_int 2)" unfolding wilson_z_def by (intro fl_mono) simp
  then show "wilson_z \<le> 2" by (subst (asm) fl_of_int) simp_all
qed

lemmas fop_defs = fadd_def fsub_def fmul_def fdiv_def

lemma zz_ge_1: "1 \<le> fmul wilson_z wilson_z"
  unfolding fmul_def using mult_mono [of 1 wilson_z 1 wilson_z] wilson_z_bounds by (intro fl_ge_1) simp

text \<open>The centre and the radius of the interval, named for the proofs below.\<close>

definition wilson_rate :: "int \<Rightarrow> nat \<Rightarrow> pyfloat" where
  "wilson_rate f c = fdiv (of_int f) (of_nat c)"

definition wilson_shift :: "nat \<Rightarrow> pyfloat" where
  "wilson_shift c = fdiv (fmul wilson_z wilson_z) (2 * of_nat c)"

definition wilson_den :: "nat \<Rightarrow> pyfloat" where
  "wilson_den c = fadd 1 (fdiv (fmul wilson_z wilson_z) (of_nat c))"

definition wilson_center :: "int \<Rightarrow> nat \<Rightarrow> pyfloat" where
  "wilson_center f c = fdiv (fadd (wilson_rate f c) (wilson_shift c)) (wilson_den c)"

definition wilson_radius :: "int \<Rightarrow> nat \<Rightarrow> pyfloat" where
  "wilson_radius f c =
     fdiv (fmul wilson_z (fsqrt (fadd (fdiv (fmul (wilson_rate f c) (fsub 1 (wilson_rate f c))) (of_nat c))
                                      (fdiv (fmul wilson_z wilson_z) (4 * of_nat c * of_nat c)))))
          (wilson_den c)"

lemma wilson_interval_eq:
  "wilson_interval f c =
     (if c = 0 then (0, 1)
      else (if f = 0 then 0 else max 0 (fsub (wilson_center f c) (wilson_radius f c)),
            if f = int c then 1 else min 1 (fadd (wilson_center f c) (wilson_radius f c))))"
  by (simp add: wilson_interval_def wilson_center_def wilson_radius_def wilson_rate_def
      wilson_shift_def wilson_den_def Let_def)

lemma wilson_den_ge_1: "1 \<le> wilson_den c"
  unfolding wilson_den_def fadd_def
  using zz_ge_1 by (intro fl_ge_1) (simp add: fdiv_def fl_nonneg)

lemma wilson_shift_nonneg: "0 \<le> wilson_shift c"
  using zz_ge_1 by (simp add: wilson_shift_def fdiv_def fl_nonneg)

lemma wilson_rate_bounds:
  assumes "0 \<le> f" "f \<le> int c" "0 < c"
  shows "0 \<le> wilson_rate f c" "wilson_rate f c \<le> 1"
proof -
  have "(of_int f :: rat) \<le> of_nat c" using assms(2) by (metis of_int_le_iff of_int_of_nat_eq)
  with assms show "0 \<le> wilson_rate f c" "wilson_rate f c \<le> 1"
    by (auto simp: wilson_rate_def fdiv_def intro!: fl_nonneg fl_le_1)
qed

lemma wilson_radius_nonneg: "0 \<le> wilson_radius f c"
  using wilson_den_ge_1 [of c] wilson_z_bounds fsqrt_nonneg
  by (auto simp: wilson_radius_def fdiv_def fmul_def intro!: fl_nonneg mult_nonneg_nonneg divide_nonneg_nonneg)

lemma wilson_center_bounds:
  assumes "0 \<le> f" "f \<le> int c" "0 < c"
  shows "0 \<le> wilson_center f c" "wilson_center f c \<le> 1"
proof -
  note r = wilson_rate_bounds [OF assms] and d = wilson_den_ge_1 [of c]
  show "0 \<le> wilson_center f c"
    using r d wilson_shift_nonneg [of c]
    by (auto simp: wilson_center_def fdiv_def fadd_def intro!: fl_nonneg divide_nonneg_nonneg)
  have "wilson_shift c \<le> fdiv (fmul wilson_z wilson_z) (of_nat c)"
    unfolding wilson_shift_def fdiv_def
    using zz_ge_1 assms(3) by (intro fl_mono divide_left_mono) auto
  with r(2) have "fadd (wilson_rate f c) (wilson_shift c) \<le> wilson_den c"
    unfolding wilson_den_def fadd_def by (intro fl_mono) simp
  with d show "wilson_center f c \<le> 1"
    by (auto simp: wilson_center_def fdiv_def intro!: fl_le_1)
qed

lemma wilson_interval_bounds:
  assumes "0 \<le> f" "f \<le> int c"
  shows "0 \<le> fst (wilson_interval f c)" "fst (wilson_interval f c) \<le> snd (wilson_interval f c)"
    "snd (wilson_interval f c) \<le> 1"
proof -
  show "0 \<le> fst (wilson_interval f c)" "snd (wilson_interval f c) \<le> 1"
    by (simp_all add: wilson_interval_eq)
  show "fst (wilson_interval f c) \<le> snd (wilson_interval f c)"
  proof (cases "c = 0")
    case False
    then have c: "0 < c" by simp
    note ctr = wilson_center_bounds [OF assms c] and rad = wilson_radius_nonneg [of f c]
    have lo: "fsub (wilson_center f c) (wilson_radius f c) \<le> 1"
      using ctr rad by (auto simp: fsub_def intro!: fl_le_1)
    have hi: "0 \<le> fadd (wilson_center f c) (wilson_radius f c)"
      using ctr rad by (auto simp: fadd_def intro!: fl_nonneg)
    have mid: "fsub (wilson_center f c) (wilson_radius f c) \<le> fadd (wilson_center f c) (wilson_radius f c)"
      using rad by (auto simp: fsub_def fadd_def intro!: fl_mono)
    from lo hi mid c show ?thesis
      by (cases "f = 0"; cases "f = int c") (auto simp: wilson_interval_eq)
  qed (simp add: wilson_interval_eq)
qed

text \<open>
  A failure rate of at most one half keeps the lower bound at or below one half, exactly: halving is exact in binary
  arithmetic, so the rounded centre does not pass the middle.
\<close>

lemma wilson_center_le_half:
  assumes "0 \<le> f" "2 * f \<le> int c" "0 < c" "c < 2 ^ 53"
  shows "wilson_center f c \<le> 1/2"
proof -
  let ?a = "fdiv (fmul wilson_z wilson_z) (of_nat c)"
  have "of_int (2 * f) \<le> (of_int (int c) :: rat)" using assms(2) by (simp only: of_int_le_iff)
  then have "of_int f / of_nat c \<le> (1/2 :: rat)" using assms(3) by (simp add: field_simps)
  then have rate: "wilson_rate f c \<le> 1/2"
    unfolding wilson_rate_def fdiv_def using fl_mono [of _ "1/2"] by fastforce
  have "(2::rat) powi (- 1021) \<le> 2 powi (- 53)" by (simp only: powi_two_le_iff)
  also have "(2::rat) powi (- 53) = 1 / 2 ^ 53"
    by (simp only: power_int_minus power_int_numeral inverse_eq_divide)
  also have "(1::rat) / 2 ^ 53 \<le> 1 / of_nat c"
  proof (rule divide_left_mono)
    have "of_nat c \<le> (of_nat (2 ^ 53) :: rat)" using assms(4) by (simp only: of_nat_le_iff less_imp_le)
    then show "of_nat c \<le> (2::rat) ^ 53" by simp
  qed (use assms(3) in simp_all)
  also have "\<dots> \<le> fmul wilson_z wilson_z / of_nat c"
    using zz_ge_1 by (intro divide_right_mono) auto
  finally have "fl (fmul wilson_z wilson_z / of_nat c / 2) = ?a / 2"
    unfolding fdiv_def by (rule fl_half)
  then have shift: "wilson_shift c = ?a / 2"
    by (simp add: wilson_shift_def fdiv_def mult.commute)
  have a: "0 \<le> ?a" using zz_ge_1 by (simp add: fdiv_def fl_nonneg)
  have "fadd (wilson_rate f c) (wilson_shift c) \<le> fl ((1 + ?a) / 2)"
    using rate shift by (auto simp: fadd_def intro!: fl_mono)
  also have "\<dots> = wilson_den c / 2"
    unfolding wilson_den_def fadd_def using a by (intro fl_half_normal) simp
  finally have "fadd (wilson_rate f c) (wilson_shift c) / wilson_den c \<le> 1/2"
    using wilson_den_ge_1 [of c] by (simp add: field_simps)
  then show ?thesis
    unfolding wilson_center_def fdiv_def using fl_mono [of _ "1/2"] by fastforce
qed

lemma wilson_low_majority:
  assumes "0 \<le> f" "0 < c" "c < 2 ^ 53" "1/2 < fst (wilson_interval f c)"
  shows "int c < 2 * f"
proof (rule ccontr)
  assume "\<not> int c < 2 * f"
  then have "wilson_center f c \<le> 1/2" using assms by (intro wilson_center_le_half) auto
  then have "wilson_center f c - wilson_radius f c \<le> 1/2"
    using wilson_radius_nonneg [of f c] by linarith
  then have "fsub (wilson_center f c) (wilson_radius f c) \<le> 1/2"
    unfolding fsub_def using fl_mono [of _ "1/2"] by fastforce
  then show False using assms(2,4) by (simp add: wilson_interval_eq split: if_splits)
qed

end
