(* ===== verification/Detection.thy ===== *)
theory Detection
  imports Statistics
begin

text \<open>
  The tenant-local detection engine of \<open>detection.py\<close>: the state of a tenant, retention
  (\<open>_prune\<close>), incident opening and recovery (\<open>_evaluate\<close>) and the transaction callback
  \<open>process_events\<close>; the read side is in \<open>Summary\<close>.  The code mutates one private deep copy of the state and drops it
  when it raises; the model passes the state explicitly and an exception is \<open>Inl\<close>.
\<close>

definition MAX_STREAMS :: nat where "MAX_STREAMS = 16"
definition MAX_VERSIONS :: nat where "MAX_VERSIONS = 8"
definition MAX_DEDUP :: nat where "MAX_DEDUP = 2048"
definition MAX_INCIDENTS :: nat where "MAX_INCIDENTS = 32"
definition MAX_STATE_BYTES :: nat where "MAX_STATE_BYTES = 650000"
definition RETENTION_SECONDS :: pyfloat where "RETENTION_SECONDS = 7 * 24 * 3600"
definition FUTURE_SECONDS :: pyfloat where "FUTURE_SECONDS = 300"

text \<open>
  \<open>DetectionError\<close> carries a public code.  \<open>StopIteration\<close> (\<open>next\<close> without a match),
  \<open>KeyError\<close> and \<open>TypeError\<close> are what the code would raise on an inconsistent state.
\<close>

datatype det_error = DetectionError string | StopIteration | KeyError | TypeError

datatype status = Open | Resolved | Expired

datatype resolution = By_recovery | By_baseline_expiry

record dimensions =
  dm_deployment_id :: string
  dm_agent_id :: string
  dm_operation :: operation
  dm_synthetic :: bool

record stream =
  sr_dimensions :: dimensions
  sr_baseline :: "sample list"
  sr_current :: "sample list"
  sr_versions :: "(string, (string, string) dict) dict"
  sr_active :: "string option"
  sr_last_timestamp :: pyfloat

record incident =
  in_id :: string
  in_stream_id :: string
  in_status :: status
  in_opened_at :: pyfloat
  in_resolved_at :: "pyfloat option"
  in_resolution :: "resolution option"
  in_synthetic :: bool
  in_signals :: signals
  in_baseline :: stats
  in_current :: stats

text \<open>
  \<open>ds_dedup\<close> maps an event ID to its digest and timestamp; \<open>ds_usage\<close> is the daily usage
  (\<open>day\<close>, \<open>events\<close>) that the API keeps in the same document.  The empty document \<open>{}\<close> of a new
  tenant is \<open>None\<close>.
\<close>

record det_state =
  ds_streams :: "(string, stream) dict"
  ds_dedup :: "(string, string \<times> pyfloat) dict"
  ds_incidents :: "incident list"
  ds_replay_floor :: pyfloat
  ds_accepted :: int
  ds_duplicates :: int
  ds_usage :: "(int \<times> int) option"

type_synonym tenant_state = "det_state option"

definition empty_state :: det_state where
  "empty_state = \<lparr>ds_streams = [], ds_dedup = [], ds_incidents = [], ds_replay_floor = 0,
     ds_accepted = 0, ds_duplicates = 0, ds_usage = None\<rparr>"

text \<open>\<open>datetime.timestamp()\<close>: microseconds divided by \<open>10^6\<close>, correctly rounded.\<close>

definition epoch_seconds :: "int \<Rightarrow> pyfloat" where
  "epoch_seconds us = fl (of_int us / 1000000)"

definition epoch :: "pydatetime \<Rightarrow> det_error + pyfloat" where
  "epoch now = (case now of Naive \<Rightarrow> Inl (DetectionError ''aware_now_required'')
                          | Aware us \<Rightarrow> Inr (epoch_seconds us))"

subsection \<open>Retention\<close>

text \<open>\<open>update_first\<close> writes through the reference that \<open>next(item for item in ...)\<close> returns.\<close>

fun update_first :: "('a \<Rightarrow> bool) \<Rightarrow> ('a \<Rightarrow> 'a) \<Rightarrow> 'a list \<Rightarrow> 'a list" where
  "update_first P f [] = []"
| "update_first P f (x # xs) = (if P x then f x # xs else x # update_first P f xs)"

definition used_versions :: "stream \<Rightarrow> string list" where
  "used_versions s = map sm_version (sr_baseline s @ sr_current s)"

definition trim_versions :: "stream \<Rightarrow> stream" where
  "trim_versions s =
     s\<lparr>sr_versions := filter (\<lambda>(k, v). k \<in> set (used_versions s)) (sr_versions s)\<rparr>"

definition has_incident :: "incident list \<Rightarrow> string \<Rightarrow> bool" where
  "has_incident incs i \<longleftrightarrow> list_ex (\<lambda>x. in_id x = i) incs"

definition retained :: "pyfloat \<Rightarrow> sample list \<Rightarrow> sample list" where
  "retained cutoff rows = filter (\<lambda>r. cutoff < sm_ts r) rows"

definition last_window :: "sample list \<Rightarrow> sample list" where
  "last_window rows = drop (length rows - WINDOW) rows"

text \<open>One iteration of the loop over the streams; \<open>None\<close> deletes the stream.\<close>

definition prune_stream :: "pyfloat \<Rightarrow> incident list \<Rightarrow> stream \<Rightarrow> incident list \<times> stream option" where
  "prune_stream cutoff incs s =
     (if sr_last_timestamp s \<le> cutoff then (incs, None)
      else
        let baseline = retained cutoff (sr_baseline s);
            current = retained cutoff (sr_current s);
            active = (case sr_active s of
                        None \<Rightarrow> None
                      | Some i \<Rightarrow> if has_incident incs i then Some i else None)
        in if length baseline < length (sr_baseline s) then
             let expiry = fadd (sm_ts (hd (sr_baseline s))) RETENTION_SECONDS;
                 incs' = (case active of
                            None \<Rightarrow> incs
                          | Some i \<Rightarrow> update_first (\<lambda>x. in_id x = i)
                              (\<lambda>x. x\<lparr>in_status := Expired, in_resolved_at := Some expiry,
                                     in_resolution := Some By_baseline_expiry\<rparr>) incs);
                 rows = baseline @ current
             in (incs', Some (trim_versions (s\<lparr>
                   sr_baseline := (if WINDOW \<le> length rows then take WINDOW rows else []),
                   sr_current := (if WINDOW \<le> length rows then drop WINDOW rows else rows),
                   sr_active := None\<rparr>)))
           else (incs, Some (trim_versions (s\<lparr>
                   sr_baseline := baseline, sr_current := current, sr_active := active\<rparr>))))"

fun prune_streams ::
    "pyfloat \<Rightarrow> incident list \<Rightarrow> (string, stream) dict \<Rightarrow> incident list \<times> (string, stream) dict" where
  "prune_streams cutoff incs [] = (incs, [])"
| "prune_streams cutoff incs ((k, s) # rest) =
     (let (incs1, r) = prune_stream cutoff incs s;
          (incs2, rest') = prune_streams cutoff incs1 rest
      in (incs2, case r of None \<Rightarrow> rest' | Some s' \<Rightarrow> (k, s') # rest'))"

definition prune :: "tenant_state \<Rightarrow> pyfloat \<Rightarrow> det_state" where
  "prune state now =
     (let st = (case state of None \<Rightarrow> empty_state | Some s \<Rightarrow> s);
          cutoff = fsub now RETENTION_SECONDS;
          dedup = filter (\<lambda>(k, h, t). cutoff < t) (ds_dedup st);
          incs = filter (\<lambda>x. cutoff < in_opened_at x) (ds_incidents st);
          (incs', streams) = prune_streams cutoff incs (ds_streams st)
      in st\<lparr>ds_streams := streams, ds_dedup := dedup, ds_incidents := incs'\<rparr>)"

subsection \<open>Opening and closing incidents\<close>

definition dict_merge :: "('k, 'v) dict \<Rightarrow> ('k, 'v) dict \<Rightarrow> ('k, 'v) dict" where
  "dict_merge d e = foldl (\<lambda>d (k, v). AList.update k v d) d e"

text \<open>Keep every open incident; evict the oldest closed one once the history is full.\<close>

definition make_room :: "incident list \<Rightarrow> incident list" where
  "make_room incs =
     (if length incs < MAX_INCIDENTS then incs
      else case find (\<lambda>x. in_status x \<noteq> Open) incs of
             None \<Rightarrow> incs
           | Some x \<Rightarrow> remove1 x incs)"

definition onset_id :: "runtime \<Rightarrow> string \<Rightarrow> string \<Rightarrow> string" where
  "onset_id R stream_id event_id =
     canonical_hash R (JObj [(''stream_id'', JStr stream_id), (''onset_event'', JStr event_id)])"

definition evaluate ::
    "runtime \<Rightarrow> incident list \<Rightarrow> string \<Rightarrow> stream \<Rightarrow> event \<Rightarrow> det_error + incident list \<times> stream" where
  "evaluate R incs stream_id s e =
     (let signals = window_signals (sr_baseline s) (sr_current s) in
      case sr_active s of
        Some i \<Rightarrow>
          (case find (\<lambda>x. in_id x = i) incs of
             None \<Rightarrow> Inl StopIteration
           | Some x \<Rightarrow>
               let x' = x\<lparr>in_signals := dict_merge (in_signals x) signals,
                          in_current := window_stats (sr_current s)\<rparr>
               in case recovered (sr_baseline s) (sr_current s) (keys (in_signals x')) of
                    None \<Rightarrow> Inl TypeError
                  | Some ok \<Rightarrow>
                      if ok \<and> signals = [] then
                        Inr (update_first (\<lambda>x. in_id x = i)
                               (\<lambda>_. x'\<lparr>in_status := Resolved,
                                      in_resolved_at := Some (epoch_seconds (ev_timestamp e)),
                                      in_resolution := Some By_recovery\<rparr>) incs,
                             s\<lparr>sr_active := None, sr_baseline := last_window (sr_current s),
                               sr_current := []\<rparr>)
                      else Inr (update_first (\<lambda>x. in_id x = i) (\<lambda>_. x') incs, s))
      | None \<Rightarrow>
          if signals = [] then Inr (incs, s)
          else
            let i = onset_id R stream_id (ev_event_id e)
            in Inr (make_room incs @
                      [\<lparr>in_id = i, in_stream_id = stream_id, in_status = Open,
                        in_opened_at = epoch_seconds (ev_timestamp e), in_resolved_at = None,
                        in_resolution = None, in_synthetic = ev_synthetic e, in_signals = signals,
                        in_baseline = window_stats (sr_baseline s),
                        in_current = window_stats (sr_current s)\<rparr>],
                    s\<lparr>sr_active := Some i\<rparr>))"

subsection \<open>Ingestion\<close>

definition event_digest :: "runtime \<Rightarrow> event \<Rightarrow> string" where
  "event_digest R e = canonical_hash R (model_dump R e)"

definition event_dimensions :: "event \<Rightarrow> dimensions" where
  "event_dimensions e = \<lparr>dm_deployment_id = ev_deployment_id e, dm_agent_id = ev_agent_id e,
     dm_operation = ev_operation e, dm_synthetic = ev_synthetic e\<rparr>"

definition stream_id_of :: "runtime \<Rightarrow> dimensions \<Rightarrow> string" where
  "stream_id_of R d = canonical_hash R (JObj
     [(''deployment_id'', JStr (dm_deployment_id d)), (''agent_id'', JStr (dm_agent_id d)),
      (''operation'', JStr (operation_name (dm_operation d))), (''synthetic'', JBool (dm_synthetic d))])"

definition version_id_of :: "runtime \<Rightarrow> event \<Rightarrow> string" where
  "version_id_of R e = canonical_hash R (JObj (str_members (version_metadata e)))"

definition total_tokens :: "event \<Rightarrow> int option" where
  "total_tokens e =
     (case (ev_input_tokens e, ev_output_tokens e) of (Some a, Some b) \<Rightarrow> Some (a + b) | _ \<Rightarrow> None)"

definition sample_of :: "runtime \<Rightarrow> event \<Rightarrow> sample" where
  "sample_of R e = \<lparr>sm_ts = epoch_seconds (ev_timestamp e),
     sm_failed = (if ev_outcome e = Failure then 1 else 0), sm_latency = ev_latency_ms e,
     sm_tokens = total_tokens e, sm_version = version_id_of R e, sm_failure = ev_failure_type e,
     sm_retries = ev_retry_count e\<rparr>"

definition new_stream :: "event \<Rightarrow> stream" where
  "new_stream e = \<lparr>sr_dimensions = event_dimensions e, sr_baseline = [], sr_current = [],
     sr_versions = [], sr_active = None, sr_last_timestamp = epoch_seconds (ev_timestamp e)\<rparr>"

text \<open>The windows roll by one sample; an active incident freezes the baseline.\<close>

definition push_sample :: "sample \<Rightarrow> stream \<Rightarrow> stream" where
  "push_sample r s =
     (let s' = (if length (sr_current s) = WINDOW then
                  let oldest = hd (sr_current s); rest = tl (sr_current s)
                  in if sr_active s = None \<and> sr_baseline s \<noteq> []
                     then s\<lparr>sr_current := rest, sr_baseline := last_window (sr_baseline s @ [oldest])\<rparr>
                     else s\<lparr>sr_current := rest\<rparr>
                else s)
      in s'\<lparr>sr_current := sr_current s' @ [r], sr_last_timestamp := sm_ts r\<rparr>)"

definition promote_baseline :: "stream \<Rightarrow> stream" where
  "promote_baseline s =
     (if sr_baseline s = [] \<and> length (sr_current s) = WINDOW \<and> sr_active s = None
      then s\<lparr>sr_baseline := sr_current s, sr_current := []\<rparr> else s)"

definition admit_version :: "runtime \<Rightarrow> event \<Rightarrow> stream \<Rightarrow> det_error + stream" where
  "admit_version R e s =
     (let s' = trim_versions s; v = version_id_of R e
      in if v \<notin> set (keys (sr_versions s')) \<and> MAX_VERSIONS \<le> length (sr_versions s')
         then Inl (DetectionError ''version_limit_exceeded'')
         else Inr (s'\<lparr>sr_versions := AList.update v (version_metadata e) (sr_versions s')\<rparr>))"

definition open_stream :: "string \<Rightarrow> event \<Rightarrow> (string, stream) dict \<Rightarrow> det_error + stream" where
  "open_stream k e streams =
     (case map_of streams k of
        Some s \<Rightarrow> Inr s
      | None \<Rightarrow> if MAX_STREAMS \<le> length streams then Inl (DetectionError ''stream_limit_exceeded'')
                else Inr (new_stream e))"

text \<open>The part of the loop body after the duplicate and replay checks.\<close>

definition accept_event :: "runtime \<Rightarrow> event \<Rightarrow> det_state \<Rightarrow> det_error + det_state" where
  "accept_event R e st =
     (let ts = epoch_seconds (ev_timestamp e); k = stream_id_of R (event_dimensions e)
      in rbind (open_stream k e (ds_streams st)) (\<lambda>s.
         rbind (require_that (\<not> ts < sr_last_timestamp s) (DetectionError ''late_event'')) (\<lambda>_.
         rbind (admit_version R e s) (\<lambda>s1.
         rbind (evaluate R (ds_incidents st) k (push_sample (sample_of R e) s1) e) (\<lambda>(incs, s2).
           Inr (st\<lparr>ds_streams := AList.update k (promote_baseline s2) (ds_streams st),
                   ds_incidents := incs,
                   ds_dedup := AList.update (ev_event_id e) (event_digest R e, ts) (ds_dedup st)\<rparr>))))))"

text \<open>One event; the flag says whether it was accepted or counted as a duplicate.\<close>

definition ingest_event :: "runtime \<Rightarrow> pyfloat \<Rightarrow> event \<Rightarrow> det_state \<Rightarrow> det_error + det_state \<times> bool" where
  "ingest_event R now e st =
     (let ts = epoch_seconds (ev_timestamp e) in
      if ts \<le> fsub now RETENTION_SECONDS then Inl (DetectionError ''event_expired'')
      else if fadd now FUTURE_SECONDS < ts then Inl (DetectionError ''event_in_future'')
      else case map_of (ds_dedup st) (ev_event_id e) of
             Some (digest, _) \<Rightarrow>
               if digest \<noteq> event_digest R e then Inl (DetectionError ''event_id_conflict'')
               else Inr (st, False)
           | None \<Rightarrow>
               if ts \<le> ds_replay_floor st then Inl (DetectionError ''stale_replay'')
               else rbind (accept_event R e st) (\<lambda>st'. Inr (st', True)))"

fun ingest_all ::
    "runtime \<Rightarrow> pyfloat \<Rightarrow> event list \<Rightarrow> det_state \<Rightarrow> nat \<Rightarrow> nat \<Rightarrow> det_error + det_state \<times> nat \<times> nat" where
  "ingest_all R now [] st acc dup = Inr (st, acc, dup)"
| "ingest_all R now (e # es) st acc dup =
     rbind (ingest_event R now e st) (\<lambda>(st', new).
       if new then ingest_all R now es st' (Suc acc) dup else ingest_all R now es st' acc (Suc dup))"

text \<open>Eviction of the oldest duplicate-detection entries raises the replay floor past them.\<close>

definition evict_dedup :: "det_state \<Rightarrow> det_state" where
  "evict_dedup st =
     (let ordered = sort_key (\<lambda>(k, h, t). (t, k)) (ds_dedup st);
          victims = take (length (ds_dedup st) - MAX_DEDUP) ordered
      in if MAX_DEDUP < length (ds_dedup st)
         then st\<lparr>ds_dedup := foldl (\<lambda>d (k, h, t). AList.delete k d) (ds_dedup st) victims,
                 ds_replay_floor := foldl (\<lambda>f (k, h, t). max f t) (ds_replay_floor st) victims\<rparr>
         else st)"

definition event_order :: "event \<Rightarrow> int \<times> string" where
  "event_order e = (ev_timestamp e, ev_event_id e)"

record metrics =
  mt_accepted :: nat
  mt_duplicates :: nat

text \<open>
  \<open>size_of\<close> is \<open>len(json.dumps(result, separators=(",", ":")).encode())\<close>, the length of the
  serialised state.
\<close>

definition process_events ::
    "runtime \<Rightarrow> (det_state \<Rightarrow> nat) \<Rightarrow> tenant_state \<Rightarrow> event list \<Rightarrow> pydatetime \<Rightarrow> det_error + det_state \<times> metrics" where
  "process_events R size_of state events now =
     rbind (epoch now) (\<lambda>server_time.
     rbind (require_that (1 \<le> length events \<and> length events \<le> 100)
              (DetectionError ''batch_size_exceeded'')) (\<lambda>_.
     rbind (ingest_all R server_time (sort_key event_order events) (prune state server_time) 0 0)
       (\<lambda>(st, acc, dup).
        let st1 = evict_dedup st;
            st2 = st1\<lparr>ds_accepted := ds_accepted st1 + int acc, ds_duplicates := ds_duplicates st1 + int dup\<rparr>
        in if MAX_STATE_BYTES < size_of st2 then Inl (DetectionError ''state_capacity_exceeded'')
           else Inr (st2, \<lparr>mt_accepted = acc, mt_duplicates = dup\<rparr>))))"

end
