(* ===== verification/Retention.thy ===== *)
theory Retention
  imports Detection
begin

text \<open>
  Facts about retention (\<open>_prune\<close>): what it keeps, that it is idempotent, and its effect on
  the incident list described without the sequential loop over the streams.
\<close>

subsection \<open>Writing through the first matching incident\<close>

lemma update_first_map:
  "distinct (map f xs) \<Longrightarrow>
   update_first (\<lambda>x. f x = i) g xs = map (\<lambda>x. if f x = i then g x else x) xs"
proof (induction xs)
  case (Cons x xs)
  have "\<forall>y \<in> set xs. f y \<noteq> f x" using Cons.prems by (auto simp: image_iff)
  then have "map (\<lambda>y. if f y = f x then g y else y) xs = xs" by (intro map_idI) auto
  with Cons show ?case by auto
qed simp

lemma map_update_first:
  "(\<And>x. P x \<Longrightarrow> f (g x) = f x) \<Longrightarrow> map f (update_first P g xs) = map f xs"
  by (induction xs) auto

lemma length_update_first [simp]: "length (update_first P g xs) = length xs"
  by (induction xs) auto

lemma has_incident_iff: "has_incident incs i \<longleftrightarrow> i \<in> in_id ` set incs"
  by (auto simp: has_incident_def list_ex_iff)

subsection \<open>One stream\<close>

lemma retained_le [simp]: "length (retained c rows) \<le> length rows"
  by (simp add: retained_def)

lemma retained_same: "\<not> length (retained c rows) < length rows \<Longrightarrow> retained c rows = rows"
  by (auto simp: retained_def dest: filter_length_eq)

lemma retained_twice [simp]: "retained c (retained c rows) = retained c rows"
  by (simp add: retained_def)

lemma retained_id: "\<forall>r \<in> set rows. c < sm_ts r \<Longrightarrow> retained c rows = rows"
  by (simp add: retained_def)

lemma set_retained [simp]: "set (retained c rows) = {r \<in> set rows. c < sm_ts r}"
  by (auto simp: retained_def)

lemma trim_versions_twice [simp]: "trim_versions (trim_versions s) = trim_versions s"
  by (simp add: trim_versions_def used_versions_def conj_comms cong: conj_cong)

lemma trim_versions_fields [simp]:
  "sr_dimensions (trim_versions s) = sr_dimensions s"
  "sr_baseline (trim_versions s) = sr_baseline s"
  "sr_current (trim_versions s) = sr_current s"
  "sr_active (trim_versions s) = sr_active s"
  "sr_last_timestamp (trim_versions s) = sr_last_timestamp s"
  "used_versions (trim_versions s) = used_versions s"
  by (simp_all add: trim_versions_def used_versions_def)

text \<open>The incident that the loop marks as expired for a stream, with its expiry time.\<close>

definition expiring :: "pyfloat \<Rightarrow> incident list \<Rightarrow> stream \<Rightarrow> string option" where
  "expiring cutoff incs s =
     (if sr_last_timestamp s \<le> cutoff \<or> \<not> length (retained cutoff (sr_baseline s)) < length (sr_baseline s)
      then None
      else case sr_active s of None \<Rightarrow> None | Some i \<Rightarrow> if has_incident incs i then Some i else None)"

definition survivor :: "pyfloat \<Rightarrow> incident list \<Rightarrow> stream \<Rightarrow> stream option" where
  "survivor cutoff incs s = snd (prune_stream cutoff incs s)"

lemma prune_stream_ids [simp]: "map in_id (fst (prune_stream cutoff incs s)) = map in_id incs"
  by (auto simp: prune_stream_def Let_def split: option.splits intro!: map_update_first)

lemma has_incident_cong: "map in_id incs = map in_id incs' \<Longrightarrow> has_incident incs i = has_incident incs' i"
  by (simp add: has_incident_iff flip: set_map)

lemma survivor_cong:
  assumes "map in_id incs = map in_id incs'"
  shows "survivor cutoff incs s = survivor cutoff incs' s" "expiring cutoff incs s = expiring cutoff incs' s"
  using has_incident_cong [OF assms]
  by (auto simp: survivor_def expiring_def prune_stream_def Let_def split: option.splits)

text \<open>An incident after the pass: unchanged, or the same incident marked expired.\<close>

definition same_core :: "incident \<Rightarrow> incident \<Rightarrow> bool" where
  "same_core x y \<longleftrightarrow> in_id x = in_id y \<and> in_stream_id x = in_stream_id y \<and>
     in_opened_at x = in_opened_at y \<and> in_synthetic x = in_synthetic y \<and> in_signals x = in_signals y \<and>
     in_baseline x = in_baseline y \<and> in_current x = in_current y"

lemma same_core_refl [simp]: "same_core x x"
  by (simp add: same_core_def)

lemma same_core_trans: "same_core x y \<Longrightarrow> same_core y z \<Longrightarrow> same_core x z"
  by (simp add: same_core_def)

definition expired_or_same :: "bool \<Rightarrow> incident \<Rightarrow> incident \<Rightarrow> bool" where
  "expired_or_same hit x y \<longleftrightarrow>
     (if hit then same_core x y \<and> in_status y = Expired \<and> in_resolved_at y \<noteq> None \<and>
                  in_resolution y = Some By_baseline_expiry
      else y = x)"

lemma prune_stream_incidents:
  assumes "distinct (map in_id incs)"
  shows "list_all2 (\<lambda>x y. expired_or_same (expiring cutoff incs s = Some (in_id x)) x y)
           incs (fst (prune_stream cutoff incs s))"
  using assms
  by (auto simp: prune_stream_def expiring_def Let_def update_first_map list.rel_map
      expired_or_same_def same_core_def split: option.splits intro!: list.rel_refl_strong)

subsection \<open>All streams\<close>

lemma prune_streams_ids [simp]: "map in_id (fst (prune_streams cutoff incs streams)) = map in_id incs"
proof (induction streams arbitrary: incs)
  case (Cons p streams)
  then show ?case by (cases p) (simp add: split_def Let_def)
qed simp

lemma prune_streams_snd:
  "snd (prune_streams cutoff incs streams) =
   List.map_filter (\<lambda>(k, s). map_option (Pair k) (survivor cutoff incs s)) streams"
proof (induction streams arbitrary: incs)
  case (Cons p streams)
  obtain k s where p: "p = (k, s)" by (cases p)
  let ?incs1 = "fst (prune_stream cutoff incs s)"
  have "survivor cutoff ?incs1 t = survivor cutoff incs t" for t
    by (rule survivor_cong) simp
  with Cons [of ?incs1] show ?case
    by (simp add: p split_def Let_def survivor_def List.map_filter_simps split: option.splits)
qed (simp add: List.map_filter_simps)

lemma expired_or_same_trans:
  "expired_or_same a x y \<Longrightarrow> expired_or_same b y z \<Longrightarrow> expired_or_same (a \<or> b) x z"
  by (auto simp: expired_or_same_def intro: same_core_trans split: if_splits)

lemma expired_or_same_id: "expired_or_same a x y \<Longrightarrow> in_id y = in_id x"
  by (auto simp: expired_or_same_def same_core_def split: if_splits)

lemma prune_streams_incidents:
  assumes "distinct (map in_id incs)"
  shows "list_all2 (\<lambda>x y. expired_or_same (\<exists>(k, s) \<in> set streams. expiring cutoff incs s = Some (in_id x)) x y)
           incs (fst (prune_streams cutoff incs streams))"
  using assms
proof (induction streams arbitrary: incs)
  case Nil
  then show ?case by (auto simp: expired_or_same_def intro!: list.rel_refl_strong)
next
  case (Cons p streams)
  obtain k s where p: "p = (k, s)" by (cases p)
  let ?incs1 = "fst (prune_stream cutoff incs s)"
  have e: "expiring cutoff ?incs1 t = expiring cutoff incs t" for t
    by (rule survivor_cong) simp
  have d: "distinct (map in_id ?incs1)" using Cons.prems by simp
  have 1: "list_all2 (\<lambda>x y. expired_or_same (expiring cutoff incs s = Some (in_id x)) x y) incs ?incs1"
    using Cons.prems by (rule prune_stream_incidents)
  have 2: "list_all2 (\<lambda>x y. expired_or_same (\<exists>(k, s) \<in> set streams. expiring cutoff incs s = Some (in_id x)) x y)
      ?incs1 (fst (prune_streams cutoff ?incs1 streams))"
    using Cons.IH [OF d] by (simp add: e)
  have "list_all2 (\<lambda>x z. expired_or_same (expiring cutoff incs s = Some (in_id x) \<or>
            (\<exists>(k, s) \<in> set streams. expiring cutoff incs s = Some (in_id x))) x z)
      incs (fst (prune_streams cutoff ?incs1 streams))"
  proof (rule list_all2_trans [OF _ 1 2])
    fix x y z
    assume xy: "expired_or_same (expiring cutoff incs s = Some (in_id x)) x y"
      and yz: "expired_or_same (\<exists>(k, s) \<in> set streams. expiring cutoff incs s = Some (in_id y)) y z"
    from expired_or_same_trans [OF xy yz]
    show "expired_or_same (expiring cutoff incs s = Some (in_id x) \<or>
            (\<exists>(k, s) \<in> set streams. expiring cutoff incs s = Some (in_id x))) x z"
      by (simp add: expired_or_same_id [OF xy])
  qed
  then show ?case by (simp add: p split_def Let_def)
qed


lemma in_prune_streams:
  "(k, s') \<in> set (snd (prune_streams cutoff incs streams)) \<longleftrightarrow>
   (\<exists>s. (k, s) \<in> set streams \<and> survivor cutoff incs s = Some s')"
  unfolding prune_streams_snd
  by (induction streams) (auto simp: List.map_filter_simps split: option.splits)

lemma keys_prune_streams: "set (keys (snd (prune_streams cutoff incs streams))) \<subseteq> set (keys streams)"
  by (force simp: in_prune_streams)

lemma dict_ok_prune_streams: "dict_ok streams \<Longrightarrow> dict_ok (snd (prune_streams cutoff incs streams))"
  unfolding prune_streams_snd
proof (induction streams)
  case (Cons p streams)
  obtain k s where p: "p = (k, s)" by (cases p)
  let ?rest = "List.map_filter (\<lambda>(k, s). map_option (Pair k) (survivor cutoff incs s)) streams"
  have "set (keys ?rest) \<subseteq> set (keys streams)"
    using keys_prune_streams [of cutoff incs streams] by (simp only: prune_streams_snd)
  moreover have "k \<notin> set (keys streams)" using Cons.prems p by simp
  ultimately have "k \<notin> set (keys ?rest)" by blast
  moreover have "dict_ok ?rest" using Cons by simp
  ultimately show ?case
    by (cases "survivor cutoff incs s") (simp_all add: p List.map_filter_simps)
qed (simp add: List.map_filter_simps)

lemma length_prune_streams: "length (snd (prune_streams cutoff incs streams)) \<le> length streams"
  unfolding prune_streams_snd
  by (induction streams) (auto simp: List.map_filter_simps split: option.splits)

lemma survivor_SomeD:
  assumes "survivor cutoff incs s = Some s'"
  shows "cutoff < sr_last_timestamp s" "sr_last_timestamp s' = sr_last_timestamp s"
    "sr_dimensions s' = sr_dimensions s" "trim_versions s' = s'"
    "sr_active s' = Some i \<Longrightarrow> sr_active s = Some i \<and> has_incident incs i"
    "set (sr_baseline s' @ sr_current s') \<subseteq> {r \<in> set (sr_baseline s @ sr_current s). cutoff < sm_ts r}"
  using assms
  by (auto simp: survivor_def prune_stream_def Let_def split: if_splits option.splits
      dest!: in_set_takeD in_set_dropD)

lemma survivor_stable:
  assumes "survivor cutoff incs s = Some s'" "map in_id incs' = map in_id incs"
  shows "prune_stream cutoff incs' s' = (incs', Some s')"
proof -
  note d = survivor_SomeD [OF assms(1)]
  have rows: "retained cutoff (sr_baseline s') = sr_baseline s'" "retained cutoff (sr_current s') = sr_current s'"
    using d(6) by (auto intro!: retained_id)
  have act: "(case sr_active s' of None \<Rightarrow> None | Some i \<Rightarrow> if has_incident incs' i then Some i else None) = sr_active s'"
    using d(5) has_incident_cong [OF assms(2)] by (auto split: option.splits)
  have "s'\<lparr>sr_baseline := sr_baseline s', sr_current := sr_current s', sr_active := sr_active s'\<rparr> = s'" by simp
  with d show ?thesis by (simp add: prune_stream_def Let_def rows act)
qed

lemma prune_streams_stable:
  "\<forall>(k, s) \<in> set streams. prune_stream cutoff incs s = (incs, Some s) \<Longrightarrow>
   prune_streams cutoff incs streams = (incs, streams)"
  by (induction streams) auto

subsection \<open>The whole state\<close>

definition base_state :: "tenant_state \<Rightarrow> det_state" where
  "base_state state = (case state of None \<Rightarrow> empty_state | Some s \<Rightarrow> s)"

definition cutoff_at :: "pyfloat \<Rightarrow> pyfloat" where
  "cutoff_at now = fsub now RETENTION_SECONDS"

definition live_incidents :: "tenant_state \<Rightarrow> pyfloat \<Rightarrow> incident list" where
  "live_incidents state now = filter (\<lambda>x. cutoff_at now < in_opened_at x) (ds_incidents (base_state state))"

lemma prune_fields:
  "ds_streams (prune state now) =
     snd (prune_streams (cutoff_at now) (live_incidents state now) (ds_streams (base_state state)))"
  "ds_incidents (prune state now) =
     fst (prune_streams (cutoff_at now) (live_incidents state now) (ds_streams (base_state state)))"
  "ds_dedup (prune state now) = filter (\<lambda>(k, h, t). cutoff_at now < t) (ds_dedup (base_state state))"
  "ds_replay_floor (prune state now) = ds_replay_floor (base_state state)"
  "ds_accepted (prune state now) = ds_accepted (base_state state)"
  "ds_duplicates (prune state now) = ds_duplicates (base_state state)"
  "ds_usage (prune state now) = ds_usage (base_state state)"
  by (simp_all add: prune_def live_incidents_def cutoff_at_def base_state_def Let_def split_def)

lemma list_all2_set2: "list_all2 P xs ys \<Longrightarrow> y \<in> set ys \<Longrightarrow> \<exists>x \<in> set xs. P x y"
  by (induction rule: list_all2_induct) auto

lemma list_all2_set1: "list_all2 P xs ys \<Longrightarrow> x \<in> set xs \<Longrightarrow> \<exists>y \<in> set ys. P x y"
  by (induction rule: list_all2_induct) auto

lemma prune_stream_opened:
  "map in_opened_at (fst (prune_stream cutoff incs s)) = map in_opened_at incs"
  by (auto simp: prune_stream_def Let_def split: option.splits intro!: map_update_first)

lemma prune_streams_opened:
  "map in_opened_at (fst (prune_streams cutoff incs streams)) = map in_opened_at incs"
proof (induction streams arbitrary: incs)
  case (Cons p streams)
  then show ?case by (cases p) (simp add: split_def Let_def prune_stream_opened)
qed simp

lemma prune_dedup_live: "(k, h, t) \<in> set (ds_dedup (prune state now)) \<Longrightarrow> cutoff_at now < t"
  by (auto simp: prune_fields)

lemma prune_incidents_live:
  assumes "x \<in> set (ds_incidents (prune state now))"
  shows "cutoff_at now < in_opened_at x"
proof -
  have "in_opened_at x \<in> set (map in_opened_at (ds_incidents (prune state now)))" using assms by simp
  then show ?thesis by (simp add: prune_fields prune_streams_opened) (auto simp: live_incidents_def)
qed

lemma prune_streams_live:
  assumes "(k, s) \<in> set (ds_streams (prune state now))"
  shows "cutoff_at now < sr_last_timestamp s" "r \<in> set (sr_baseline s @ sr_current s) \<Longrightarrow> cutoff_at now < sm_ts r"
proof -
  obtain s0 where "survivor (cutoff_at now) (live_incidents state now) s0 = Some s"
    using assms by (auto simp: prune_fields in_prune_streams)
  from survivor_SomeD [OF this]
  show "cutoff_at now < sr_last_timestamp s" "r \<in> set (sr_baseline s @ sr_current s) \<Longrightarrow> cutoff_at now < sm_ts r"
    by auto
qed

lemma prune_idem: "prune (Some (prune state now)) now = prune state now"
proof -
  let ?p = "prune state now" and ?c = "cutoff_at now"
  have b: "base_state (Some ?p) = ?p" by (simp add: base_state_def)
  have live: "live_incidents (Some ?p) now = ds_incidents ?p"
    using prune_incidents_live by (auto simp: live_incidents_def b)
  have "prune_stream ?c (ds_incidents ?p) s = (ds_incidents ?p, Some s)" if "(k, s) \<in> set (ds_streams ?p)" for k s
  proof -
    obtain s0 where "survivor ?c (live_incidents state now) s0 = Some s"
      using \<open>(k, s) \<in> _\<close> by (auto simp: prune_fields in_prune_streams)
    then show ?thesis by (rule survivor_stable) (simp add: prune_fields)
  qed
  then have st: "prune_streams ?c (ds_incidents ?p) (ds_streams ?p) = (ds_incidents ?p, ds_streams ?p)"
    by (intro prune_streams_stable) auto
  show ?thesis
    by (rule det_state.equality)
      (simp_all only: prune_fields(1-7) [of "Some ?p"] b live st fst_conv snd_conv det_state.select_convs,
       simp_all add: prune_fields)
qed

text \<open>The identifiers that survive, in their old order.\<close>

lemma survivor_None: "survivor cutoff incs s = None \<longleftrightarrow> sr_last_timestamp s \<le> cutoff"
  by (simp add: survivor_def prune_stream_def Let_def)

lemma keys_prune_streams_eq:
  "keys (snd (prune_streams cutoff incs streams)) = keys (filter (\<lambda>p. cutoff < sr_last_timestamp (snd p)) streams)"
  unfolding prune_streams_snd
proof (induction streams)
  case (Cons p streams)
  then show ?case
    using survivor_None [of cutoff incs "snd p"]
    by (cases p; cases "survivor cutoff incs (snd p)") (auto simp: List.map_filter_simps)
qed (simp add: List.map_filter_simps)

lemma prune_kept_keys:
  "keys (ds_dedup (prune state now)) = keys (filter (\<lambda>p. cutoff_at now < snd (snd p)) (ds_dedup (base_state state)))"
  "map in_id (ds_incidents (prune state now)) =
     map in_id (filter (\<lambda>x. cutoff_at now < in_opened_at x) (ds_incidents (base_state state)))"
  "keys (ds_streams (prune state now)) =
     keys (filter (\<lambda>p. cutoff_at now < sr_last_timestamp (snd p)) (ds_streams (base_state state)))"
  by (simp_all add: prune_fields keys_prune_streams_eq split_def live_incidents_def)

end
