(* ===== verification/Detection_Inv.thy ===== *)
theory Detection_Inv
  imports Retention
begin

text \<open>
  The well-formedness invariant of a tenant's detection state and its preservation by
  every step of \<open>process_events\<close>.  Beyond the resource bounds it says how streams and incidents refer to
  each other: an active stream names exactly one open incident of its own and every open incident is
  the active one of its stream.  From it follow the bound on the incident history and the absence of the
  internal exceptions \<open>StopIteration\<close> and \<open>TypeError\<close>.
\<close>

subsection \<open>The invariant\<close>

definition stream_ok :: "stream \<Rightarrow> bool" where
  "stream_ok s \<longleftrightarrow>
     (sr_baseline s = [] \<or> length (sr_baseline s) = WINDOW) \<and> length (sr_current s) \<le> WINDOW \<and>
     sorted (map sm_ts (sr_baseline s @ sr_current s)) \<and>
     (\<forall>r \<in> set (sr_baseline s @ sr_current s). sm_ts r \<le> sr_last_timestamp s \<and> sm_failed r \<in> {0, 1}) \<and>
     dict_ok (sr_versions s) \<and> length (sr_versions s) \<le> MAX_VERSIONS \<and>
     set (used_versions s) \<subseteq> set (keys (sr_versions s))"

text \<open>The baseline still holds the measurements that the signals of an incident compare with.\<close>

definition supported :: "sample list \<Rightarrow> signal set \<Rightarrow> bool" where
  "supported baseline kinds \<longleftrightarrow>
     (Failure_rate_regression \<in> kinds \<longrightarrow> baseline \<noteq> []) \<and>
     (\<forall>m. Degradation m \<in> kinds \<longrightarrow> 40 \<le> length (known m baseline))"

definition owns :: "string \<Rightarrow> stream \<Rightarrow> incident \<Rightarrow> bool" where
  "owns k s x \<longleftrightarrow> in_stream_id x = k \<and> in_status x = Open \<and> in_opened_at x \<le> sr_last_timestamp s \<and>
     supported (sr_baseline s) (set (keys (in_signals x)))"

definition link_ok :: "incident list \<Rightarrow> string \<Rightarrow> stream \<Rightarrow> bool" where
  "link_ok incs k s \<longleftrightarrow>
     (case sr_active s of None \<Rightarrow> True | Some i \<Rightarrow> \<exists>x \<in> set incs. in_id x = i \<and> owns k s x)"

definition open_ok :: "(string, stream) dict \<Rightarrow> incident \<Rightarrow> bool" where
  "open_ok streams x \<longleftrightarrow>
     in_status x = Open \<longrightarrow> (\<exists>s. (in_stream_id x, s) \<in> set streams \<and> sr_active s = Some (in_id x))"

definition closed_ok :: "incident \<Rightarrow> bool" where
  "closed_ok x \<longleftrightarrow>
     (in_status x = Open \<longleftrightarrow> in_resolved_at x = None) \<and>
     in_resolution x = (case in_status x of Open \<Rightarrow> None | Resolved \<Rightarrow> Some By_recovery
                                          | Expired \<Rightarrow> Some By_baseline_expiry)"

definition core_inv :: "det_state \<Rightarrow> bool" where
  "core_inv st \<longleftrightarrow>
     dict_ok (ds_streams st) \<and> length (ds_streams st) \<le> MAX_STREAMS \<and>
     dict_ok (ds_dedup st) \<and>
     distinct (map in_id (ds_incidents st)) \<and> length (ds_incidents st) \<le> MAX_INCIDENTS \<and>
     (\<forall>(k, s) \<in> set (ds_streams st). stream_ok s \<and> link_ok (ds_incidents st) k s) \<and>
     (\<forall>x \<in> set (ds_incidents st). open_ok (ds_streams st) x \<and> closed_ok x)"

definition det_inv :: "det_state \<Rightarrow> bool" where
  "det_inv st \<longleftrightarrow> core_inv st \<and> length (ds_dedup st) \<le> MAX_DEDUP"

definition tenant_inv :: "tenant_state \<Rightarrow> bool" where
  "tenant_inv state \<longleftrightarrow> (case state of None \<Rightarrow> True | Some st \<Rightarrow> det_inv st)"

lemma core_invD:
  assumes "core_inv st"
  shows "dict_ok (ds_streams st)" "length (ds_streams st) \<le> MAX_STREAMS" "dict_ok (ds_dedup st)"
    "distinct (map in_id (ds_incidents st))" "length (ds_incidents st) \<le> MAX_INCIDENTS"
    "(k, s) \<in> set (ds_streams st) \<Longrightarrow> stream_ok s"
    "(k, s) \<in> set (ds_streams st) \<Longrightarrow> link_ok (ds_incidents st) k s"
    "x \<in> set (ds_incidents st) \<Longrightarrow> open_ok (ds_streams st) x"
    "x \<in> set (ds_incidents st) \<Longrightarrow> closed_ok x"
  using assms unfolding core_inv_def by blast+

lemma det_inv_empty: "det_inv empty_state"
  by (simp add: det_inv_def core_inv_def empty_state_def)

lemma distinct_id_eq:
  "distinct (map in_id incs) \<Longrightarrow> x \<in> set incs \<Longrightarrow> y \<in> set incs \<Longrightarrow> in_id x = in_id y \<Longrightarrow> x = y"
  by (auto simp: distinct_map inj_on_def)

subsection \<open>Retention keeps the invariant\<close>

lemma used_versions_set: "set (used_versions s) = sm_version ` set (sr_baseline s @ sr_current s)"
  by (simp add: used_versions_def image_Un)

lemma stream_ok_trim:
  assumes "dict_ok (sr_versions s)" "length (sr_versions s) \<le> MAX_VERSIONS"
    "set (used_versions s) \<subseteq> set (keys (sr_versions s))"
  shows "dict_ok (sr_versions (trim_versions s)) \<and> length (sr_versions (trim_versions s)) \<le> MAX_VERSIONS \<and>
    set (used_versions s) = set (keys (sr_versions (trim_versions s)))"
proof -
  have "set (used_versions s) \<subseteq> set (keys (sr_versions (trim_versions s)))"
    using assms(3) by (force simp: trim_versions_def)
  moreover have "set (keys (sr_versions (trim_versions s))) \<subseteq> set (used_versions s)"
    by (auto simp: trim_versions_def)
  moreover have "length (sr_versions (trim_versions s)) \<le> MAX_VERSIONS"
    using le_trans [OF length_filter_le assms(2)] by (simp add: trim_versions_def)
  moreover have "dict_ok (sr_versions (trim_versions s))" using assms(1) by (simp add: trim_versions_def)
  ultimately show ?thesis by blast
qed

text \<open>Replacing the windows by samples from them that are still in order.\<close>

lemma stream_ok_shrink:
  assumes ok: "stream_ok s"
    and rows: "set (b @ c) \<subseteq> set (sr_baseline s @ sr_current s)" "sorted (map sm_ts (b @ c))"
    and len: "b = [] \<or> length b = WINDOW" "length c \<le> WINDOW"
  shows "stream_ok (trim_versions (s\<lparr>sr_baseline := b, sr_current := c, sr_active := a\<rparr>))"
proof -
  let ?s = "s\<lparr>sr_baseline := b, sr_current := c, sr_active := a\<rparr>"
  have "set (used_versions ?s) \<subseteq> set (used_versions s)" using rows(1) by (auto simp: used_versions_def)
  with ok have "set (used_versions ?s) \<subseteq> set (keys (sr_versions ?s))" by (auto simp: stream_ok_def)
  then have "dict_ok (sr_versions (trim_versions ?s)) \<and> length (sr_versions (trim_versions ?s)) \<le> MAX_VERSIONS \<and>
      set (used_versions ?s) = set (keys (sr_versions (trim_versions ?s)))"
    using ok by (intro stream_ok_trim) (auto simp: stream_ok_def)
  moreover have "\<forall>r \<in> set (b @ c). sm_ts r \<le> sr_last_timestamp s \<and> sm_failed r \<in> {0, 1}"
    using ok rows(1) unfolding stream_ok_def by blast
  ultimately show ?thesis using rows(2) len by (simp add: stream_ok_def)
qed

lemma sorted_rows_retained:
  "sorted (map sm_ts (b @ c)) \<Longrightarrow> sorted (map sm_ts (retained k b @ retained k c))"
  using sorted_map_filter [of sm_ts "b @ c"] by (simp add: retained_def)

lemma survivor_ok:
  assumes ok: "stream_ok s" and sv: "survivor cutoff incs s = Some s'"
  shows "stream_ok s'"
proof -
  let ?b = "retained cutoff (sr_baseline s)" and ?c = "retained cutoff (sr_current s)"
  let ?rows = "?b @ ?c"
  have len: "length (sr_baseline s) \<le> WINDOW" "length ?c \<le> WINDOW"
    using ok retained_le [of cutoff "sr_current s"] by (auto simp: stream_ok_def simp del: retained_le)
  have sorted: "sorted (map sm_ts ?rows)"
    using ok by (intro sorted_rows_retained) (simp add: stream_ok_def)
  show ?thesis
  proof (cases "length ?b < length (sr_baseline s)")
    case True
    let ?nb = "if WINDOW \<le> length ?rows then take WINDOW ?rows else []"
    let ?nc = "if WINDOW \<le> length ?rows then drop WINDOW ?rows else ?rows"
    have nbc: "?nb @ ?nc = ?rows" by (simp only: append_take_drop_id append.left_neutral split: if_split) simp
    have s': "s' = trim_versions (s\<lparr>sr_baseline := ?nb, sr_current := ?nc, sr_active := None\<rparr>)"
      using sv True by (simp add: survivor_def prune_stream_def Let_def split: if_splits)
    have "length ?b \<le> WINDOW" using len(1) retained_le [of cutoff "sr_baseline s"] by linarith
    then have "length ?nc \<le> WINDOW" using len(2) by auto
    then show ?thesis
      unfolding s' using sorted nbc by (intro stream_ok_shrink [OF ok]) (auto simp: nbc)
  next
    case False
    then have b: "?b = sr_baseline s" by (rule retained_same)
    obtain a where s': "s' = trim_versions (s\<lparr>sr_baseline := sr_baseline s, sr_current := ?c, sr_active := a\<rparr>)"
      using sv b by (auto simp: survivor_def prune_stream_def Let_def split: if_splits)
    show ?thesis
      unfolding s' using ok sorted len b by (intro stream_ok_shrink [OF ok]) (auto simp: stream_ok_def)
  qed
qed


lemma survivor_active:
  assumes "survivor cutoff incs s = Some s'" "sr_active s' = Some i"
  shows "sr_baseline s' = sr_baseline s" "expiring cutoff incs s = None"
  using assms
  by (auto simp: survivor_def prune_stream_def expiring_def Let_def retained_same split: if_splits)

lemma active_survivor:
  assumes "cutoff < sr_last_timestamp s" "sr_active s = Some i" "has_incident incs i"
    "expiring cutoff incs s \<noteq> Some i"
  obtains s' where "survivor cutoff incs s = Some s'" "sr_active s' = Some i"
  using assms by (auto simp: survivor_def prune_stream_def expiring_def Let_def split: if_splits)

text \<open>The incident an active stream names is its own.\<close>

lemma core_inv_owner:
  assumes inv: "core_inv st" and s: "(k, s) \<in> set (ds_streams st)" "sr_active s = Some (in_id x)"
    and x: "x \<in> set (ds_incidents st)"
  shows "owns k s x"
proof -
  obtain y where "y \<in> set (ds_incidents st)" "in_id y = in_id x" "owns k s y"
    using core_invD(7) [OF inv s(1)] s(2) by (auto simp: link_ok_def)
  with distinct_id_eq [OF core_invD(4) [OF inv]] x show ?thesis by blast
qed

lemma core_inv_owner_unique:
  assumes inv: "core_inv st" and x: "x \<in> set (ds_incidents st)"
    and s: "(k, s) \<in> set (ds_streams st)" "sr_active s = Some (in_id x)"
    and t: "(l, t) \<in> set (ds_streams st)" "sr_active t = Some (in_id x)"
  shows "s = t"
proof -
  have "k = l" using core_inv_owner [OF inv s x] core_inv_owner [OF inv t x] by (simp add: owns_def)
  with s t core_invD(1) [OF inv] show ?thesis by (auto dest: eq_key_imp_eq_value)
qed

text \<open>The incidents that the pass over the streams marks as expired.\<close>

definition hit :: "pyfloat \<Rightarrow> incident list \<Rightarrow> (string, stream) dict \<Rightarrow> incident \<Rightarrow> bool" where
  "hit c incs streams x \<longleftrightarrow> (\<exists>(k, s) \<in> set streams. expiring c incs s = Some (in_id x))"

definition newer :: "pyfloat \<Rightarrow> incident list \<Rightarrow> incident list" where
  "newer c incs = filter (\<lambda>x. c < in_opened_at x) incs"

lemma expiring_active: "expiring c incs s = Some i \<Longrightarrow> sr_active s = Some i"
  by (auto simp: expiring_def split: option.splits if_splits)

lemma hitD: "hit c incs streams x \<Longrightarrow>
   \<exists>k s. (k, s) \<in> set streams \<and> sr_active s = Some (in_id x) \<and> expiring c incs s = Some (in_id x)"
  using expiring_active by (fastforce simp: hit_def)

lemma newer_facts:
  assumes "core_inv st"
  shows "distinct (map in_id (newer c (ds_incidents st)))" "length (newer c (ds_incidents st)) \<le> MAX_INCIDENTS"
    "x \<in> set (newer c (ds_incidents st)) \<longleftrightarrow> x \<in> set (ds_incidents st) \<and> c < in_opened_at x"
  using core_invD(4) [OF assms] le_trans [OF length_filter_le core_invD(5) [OF assms]]
  by (auto simp: newer_def distinct_map_filter)

lemma pruned_incidents_rel:
  assumes "core_inv st"
  shows "list_all2 (\<lambda>x y. expired_or_same (hit c (newer c (ds_incidents st)) (ds_streams st) x) x y)
     (newer c (ds_incidents st)) (fst (prune_streams c (newer c (ds_incidents st)) (ds_streams st)))"
  unfolding hit_def by (rule prune_streams_incidents [OF newer_facts(1) [OF assms]])

lemma pruned_link_ok:
  assumes inv: "core_inv st" and ks: "(k, s) \<in> set (ds_streams st)"
    and sv: "survivor c (newer c (ds_incidents st)) s = Some s'"
  shows "link_ok (fst (prune_streams c (newer c (ds_incidents st)) (ds_streams st))) k s'"
proof (cases "sr_active s'")
  case (Some i)
  let ?incs = "newer c (ds_incidents st)"
  have act: "sr_active s = Some i" and has: "has_incident ?incs i"
    using survivor_SomeD(5) [OF sv] Some by auto
  from has obtain x where x: "x \<in> set ?incs" "in_id x = i" by (auto simp: has_incident_iff)
  then have xin: "x \<in> set (ds_incidents st)" using newer_facts(3) [OF inv] by simp
  have own: "owns k s x" using core_inv_owner [OF inv ks _ xin] act x by simp
  have "\<not> hit c ?incs (ds_streams st) x"
  proof
    assume "hit c ?incs (ds_streams st) x"
    then obtain l t where "(l, t) \<in> set (ds_streams st)" "sr_active t = Some (in_id x)"
      and e: "expiring c ?incs t = Some (in_id x)" using hitD by blast
    then have "t = s" using core_inv_owner_unique [OF inv xin] ks act x by blast
    with e survivor_active(2) [OF sv Some] show False by simp
  qed
  then have "x \<in> set (fst (prune_streams c ?incs (ds_streams st)))"
    using list_all2_set1 [OF pruned_incidents_rel [OF inv] x(1)] by (auto simp: expired_or_same_def)
  moreover have "owns k s' x"
    using own survivor_active(1) [OF sv Some] survivor_SomeD(2) [OF sv] by (simp add: owns_def)
  ultimately show ?thesis using Some x by (auto simp: link_ok_def)
qed (simp add: link_ok_def)

lemma pruned_open_ok:
  assumes inv: "core_inv st" and x: "x \<in> set (newer c (ds_incidents st))"
    and nohit: "\<not> hit c (newer c (ds_incidents st)) (ds_streams st) x"
  shows "open_ok (snd (prune_streams c (newer c (ds_incidents st)) (ds_streams st))) x"
proof (unfold open_ok_def, intro impI)
  let ?incs = "newer c (ds_incidents st)"
  assume op: "in_status x = Open"
  have xin: "x \<in> set (ds_incidents st)" and late: "c < in_opened_at x"
    using x newer_facts(3) [OF inv] by auto
  obtain s where s: "(in_stream_id x, s) \<in> set (ds_streams st)" "sr_active s = Some (in_id x)"
    using core_invD(8) [OF inv xin] op by (auto simp: open_ok_def)
  have "c < sr_last_timestamp s"
    using core_inv_owner [OF inv s xin] late by (simp add: owns_def)
  moreover have "has_incident ?incs (in_id x)" using x by (simp add: has_incident_iff)
  moreover have "expiring c ?incs s \<noteq> Some (in_id x)" using nohit s by (auto simp: hit_def)
  ultimately obtain s' where "survivor c ?incs s = Some s'" "sr_active s' = Some (in_id x)"
    using active_survivor s(2) by blast
  with s show "\<exists>s. (in_stream_id x, s) \<in> set (snd (prune_streams c ?incs (ds_streams st))) \<and> sr_active s = Some (in_id x)"
    by (auto simp: in_prune_streams)
qed

lemma pruned_incident_ok:
  assumes inv: "core_inv st"
    and y: "y \<in> set (fst (prune_streams c (newer c (ds_incidents st)) (ds_streams st)))"
  shows "open_ok (snd (prune_streams c (newer c (ds_incidents st)) (ds_streams st))) y \<and> closed_ok y"
proof -
  let ?incs = "newer c (ds_incidents st)"
  obtain x where x: "x \<in> set ?incs" "expired_or_same (hit c ?incs (ds_streams st) x) x y"
    using list_all2_set2 [OF pruned_incidents_rel [OF inv] y] by blast
  show ?thesis
  proof (cases "hit c ?incs (ds_streams st) x")
    case True
    with x(2) show ?thesis by (auto simp: expired_or_same_def open_ok_def closed_ok_def)
  next
    case False
    with x(2) have "y = x" by (simp add: expired_or_same_def)
    with pruned_open_ok [OF inv x(1) False] core_invD(9) [OF inv] x(1) newer_facts(3) [OF inv]
    show ?thesis by simp
  qed
qed

lemma prune_core_inv:
  assumes inv: "core_inv st"
  shows "core_inv (prune (Some st) now)"
proof -
  let ?c = "cutoff_at now"
  let ?r = "prune_streams ?c (newer ?c (ds_incidents st)) (ds_streams st)"
  have fields: "ds_streams (prune (Some st) now) = snd ?r" "ds_incidents (prune (Some st) now) = fst ?r"
    "ds_dedup (prune (Some st) now) = filter (\<lambda>(k, h, t). ?c < t) (ds_dedup st)"
    by (simp_all add: prune_fields base_state_def live_incidents_def newer_def)
  have "length (fst ?r) \<le> MAX_INCIDENTS"
    using list_all2_lengthD [OF pruned_incidents_rel [OF inv, of ?c]] newer_facts(2) [OF inv, of ?c] by simp
  moreover have "distinct (map in_id (fst ?r))" using newer_facts(1) [OF inv] by simp
  moreover have "dict_ok (snd ?r)" "length (snd ?r) \<le> MAX_STREAMS"
    using core_invD(1,2) [OF inv] dict_ok_prune_streams le_trans [OF length_prune_streams] by auto
  moreover have "stream_ok s' \<and> link_ok (fst ?r) k s'" if "(k, s') \<in> set (snd ?r)" for k s'
  proof -
    obtain s where "(k, s) \<in> set (ds_streams st)" "survivor ?c (newer ?c (ds_incidents st)) s = Some s'"
      using \<open>(k, s') \<in> _\<close> by (auto simp: in_prune_streams)
    then show ?thesis using pruned_link_ok [OF inv] survivor_ok core_invD(6) [OF inv] by blast
  qed
  ultimately show ?thesis
    unfolding core_inv_def fields using core_invD(3) [OF inv] pruned_incident_ok [OF inv] by auto
qed

lemma prune_det_inv:
  assumes "tenant_inv state"
  shows "det_inv (prune state now)"
proof (cases state)
  case None
  then have "prune state now = prune (Some empty_state) now" by (simp add: prune_def)
  moreover have "core_inv (prune (Some empty_state) now)"
    using det_inv_empty by (intro prune_core_inv) (simp add: det_inv_def)
  ultimately show ?thesis using None by (simp add: det_inv_def prune_fields base_state_def empty_state_def)
next
  case (Some st)
  then have "det_inv st" using assms by (simp add: tenant_inv_def)
  then show ?thesis
    using Some prune_core_inv [of st now]
    by (auto simp: det_inv_def prune_fields base_state_def intro: le_trans [OF length_filter_le])
qed

end
