(* ===== verification/Ingestion_Inv.thy ===== *)
theory Ingestion_Inv
  imports Detection_Inv
begin

text \<open>
  Every accepted event keeps the invariant, and on a well-formed state the only errors of
  \<open>process_events\<close> are the public \<open>DetectionError\<close> codes.
\<close>

subsection \<open>Signals and recovery\<close>

lemma high_failure_keys: "set (keys (high_failure_signal c)) \<subseteq> {High_failure_rate}"
  by (auto simp: high_failure_signal_def Let_def split: if_splits)

lemma regression_keys: "set (keys (regression_signal b c)) \<subseteq> {Failure_rate_regression}"
  by (auto simp: regression_signal_def Let_def split: option.splits if_splits)

lemma metric_signal_known: "metric_signal b c m d = Some ev \<Longrightarrow> 40 \<le> length (known m b) \<and> 40 \<le> length (known m c)"
  by (auto simp: metric_signal_def Let_def split: if_splits)

lemma degradation_keys:
  "Degradation m \<in> set (keys (degradation_signals b c)) \<Longrightarrow> 40 \<le> length (known m b)"
  "sg \<in> set (keys (degradation_signals b c)) \<Longrightarrow> \<exists>m. sg = Degradation m"
  by (auto simp: degradation_signals_def split: option.splits dest: metric_signal_known sym [THEN metric_signal_known])

lemma signals_supported: "supported b (set (keys (window_signals b c)))"
proof (cases "length b < WINDOW \<or> length c < WINDOW")
  case True
  then show ?thesis using high_failure_keys [of c] by (auto simp: window_signals_def supported_def)
next
  case False
  then have "b \<noteq> []" by (auto simp: WINDOW_def)
  moreover have "40 \<le> length (known m b)" if "Degradation m \<in> set (keys (window_signals b c))" for m
  proof -
    have "Degradation m \<in> set (keys (degradation_signals b c))"
      using that False high_failure_keys [of c] regression_keys [of b c] by (auto simp: window_signals_def)
    then show ?thesis by (rule degradation_keys)
  qed
  ultimately show ?thesis by (simp add: supported_def)
qed

lemma keys_dict_merge: "set (keys (dict_merge d e)) = set (keys d) \<union> set (keys e)"
  unfolding dict_merge_def
proof (induction e arbitrary: d)
  case (Cons p e)
  then show ?case by (cases p) auto
qed simp

lemma supported_Un: "supported b (K \<union> L) \<longleftrightarrow> supported b K \<and> supported b L"
  by (auto simp: supported_def)

lemma known_nonempty: "40 \<le> length (known m b) \<Longrightarrow> known m b \<noteq> []"
  by auto

lemma st_samples_window: "st_samples (window_stats rows) m = length (known m rows)"
  by (cases m) (simp_all add: window_stats_fields)

lemma st_median_window: "st_median (window_stats rows) m = median_opt (known m rows)"
  by (cases m) (simp_all add: window_stats_fields)

lemma st_rate_window: "rows \<noteq> [] \<Longrightarrow> st_failure_rate (window_stats rows) \<noteq> None"
  by (simp add: window_stats_fields)

lemma metric_recovered_defined:
  assumes "40 \<le> length (known m b)"
  shows "metric_recovered (window_stats b) (window_stats c) m \<noteq> None"
proof (cases "length (known m c) < 40")
  case True
  then show ?thesis by (simp add: metric_recovered_def st_samples_window)
next
  case False
  then have "known m c \<noteq> []" by auto
  with False assms known_nonempty [of m b] show ?thesis
    by (simp add: metric_recovered_def st_samples_window st_median_window median_opt_def)
qed

lemma metrics_recovered_defined:
  assumes "supported b (set kinds)"
  shows "metrics_recovered (window_stats b) (window_stats c) kinds ms \<noteq> None"
proof (induction ms)
  case (Cons m ms)
  have "Degradation m \<in> set kinds \<Longrightarrow> metric_recovered (window_stats b) (window_stats c) m \<noteq> None"
    using assms metric_recovered_defined by (auto simp: supported_def)
  with Cons show ?case by (auto split: option.splits bool.splits)
qed simp

lemma recovered_defined:
  assumes "supported b (set kinds)"
  shows "recovered b c kinds \<noteq> None"
proof (cases "length c < WINDOW")
  case False
  then have c: "c \<noteq> []" by (auto simp: WINDOW_def)
  have "Failure_rate_regression \<in> set kinds \<Longrightarrow> regression_recovered (window_stats b) (window_stats c) \<noteq> None"
    using assms st_rate_window [of b] st_rate_window [OF c]
    by (auto simp: supported_def regression_recovered_def split: option.splits)
  with False metrics_recovered_defined [OF assms, of c all_metrics] show ?thesis
    by (auto simp: recovered_def Let_def split: option.splits bool.splits)
qed (simp add: recovered_def)

lemma recovered_full: "recovered b c kinds = Some True \<Longrightarrow> WINDOW \<le> length c"
  by (auto simp: recovered_def split: if_splits)

subsection \<open>The steps on one stream\<close>

lemma used_versions_update [simp]:
  "used_versions (s\<lparr>sr_versions := v\<rparr>) = used_versions s" "used_versions (s\<lparr>sr_active := a\<rparr>) = used_versions s"
  by (simp_all add: used_versions_def)

lemma new_stream_ok: "stream_ok (new_stream e)"
  by (simp add: stream_ok_def new_stream_def used_versions_def)

lemma admit_version_ok:
  assumes "stream_ok s" "admit_version R e s = Inr s1"
  shows "stream_ok s1 \<and> version_id_of R e \<in> set (keys (sr_versions s1)) \<and>
    sr_active s1 = sr_active s \<and> sr_baseline s1 = sr_baseline s \<and> sr_current s1 = sr_current s \<and>
    sr_last_timestamp s1 = sr_last_timestamp s"
proof -
  let ?t = "trim_versions s"
  have t: "dict_ok (sr_versions ?t)" "length (sr_versions ?t) \<le> MAX_VERSIONS"
    "set (used_versions s) = set (keys (sr_versions ?t))"
    using stream_ok_trim [of s] assms(1) by (auto simp: stream_ok_def)
  have s1: "s1 = ?t\<lparr>sr_versions := AList.update (version_id_of R e) (version_metadata e) (sr_versions ?t)\<rparr>"
    and room: "version_id_of R e \<in> set (keys (sr_versions ?t)) \<or> length (sr_versions ?t) < MAX_VERSIONS"
    using assms(2) by (auto simp: admit_version_def Let_def split: if_splits)
  have used: "used_versions s1 = used_versions s" by (simp add: s1)
  have "length (sr_versions s1) \<le> MAX_VERSIONS"
    using room t(2) by (auto simp: s1 length_update)
  with t assms(1) show ?thesis
    unfolding stream_ok_def used by (auto simp: s1)
qed

lemma last_window_sub: "set (last_window rows) \<subseteq> set rows"
  by (auto simp: last_window_def dest: in_set_dropD)

lemma last_window_id: "length rows \<le> WINDOW \<Longrightarrow> last_window rows = rows"
  by (simp add: last_window_def)

lemma last_window_snoc: "length b = WINDOW \<Longrightarrow> last_window (b @ [r]) = tl b @ [r]"
  by (cases b) (simp_all add: last_window_def WINDOW_def)

lemma push_sample_fields:
  "sr_active (push_sample r s) = sr_active s" "sr_last_timestamp (push_sample r s) = sm_ts r"
  "sr_versions (push_sample r s) = sr_versions s" "sr_dimensions (push_sample r s) = sr_dimensions s"
  "sr_active s \<noteq> None \<Longrightarrow> sr_baseline (push_sample r s) = sr_baseline s"
  by (auto simp: push_sample_def Let_def)

text \<open>The rows after a push are the old rows, less at most the oldest of each window, and the new one.\<close>

lemma push_sample_rows:
  assumes "stream_ok s"
  obtains rows where "sr_baseline (push_sample r s) @ sr_current (push_sample r s) = rows @ [r]"
    "sorted (map sm_ts rows)" "set rows \<subseteq> set (sr_baseline s @ sr_current s)"
proof -
  let ?b = "sr_baseline s" and ?c = "sr_current s"
  have sorted: "sorted (map sm_ts (?b @ ?c))" using assms by (simp add: stream_ok_def)
  consider "length ?c \<noteq> WINDOW" | "length ?c = WINDOW" "sr_active s = None" "?b \<noteq> []"
    | "length ?c = WINDOW" "\<not> (sr_active s = None \<and> ?b \<noteq> [])" by auto
  then show thesis
  proof cases
    case 1
    then show ?thesis using that [of "?b @ ?c"] sorted by (simp add: push_sample_def)
  next
    case 2
    then obtain o1 c' where c: "?c = o1 # c'" by (cases ?c) (auto simp: WINDOW_def)
    have "length ?b = WINDOW" using assms 2(3) by (auto simp: stream_ok_def)
    then have "sr_baseline (push_sample r s) @ sr_current (push_sample r s) = (tl ?b @ ?c) @ [r]"
      using 2 c by (simp add: push_sample_def last_window_snoc)
    moreover obtain b1 b' where "?b = b1 # b'" using 2(3) by (cases ?b) auto
    ultimately show ?thesis using that [of "tl ?b @ ?c"] sorted by auto
  next
    case 3
    then obtain o1 c' where c: "?c = o1 # c'" by (cases ?c) (auto simp: WINDOW_def)
    have "sr_baseline (push_sample r s) @ sr_current (push_sample r s) = (?b @ c') @ [r]"
      using 3 c by (auto simp: push_sample_def)
    then show ?thesis using that [of "?b @ c'"] sorted c by (auto simp: sorted_append)
  qed
qed

lemma push_sample_lengths:
  assumes "stream_ok s"
  shows "sr_baseline (push_sample r s) = [] \<or> length (sr_baseline (push_sample r s)) = WINDOW"
    "length (sr_current (push_sample r s)) \<le> WINDOW"
  using assms by (auto simp: stream_ok_def push_sample_def Let_def last_window_def WINDOW_def)

lemma push_sample_ok:
  assumes ok: "stream_ok s" and late: "sr_last_timestamp s \<le> sm_ts r" and f: "sm_failed r \<in> {0, 1}"
    and v: "sm_version r \<in> set (keys (sr_versions s))"
  shows "stream_ok (push_sample r s)"
proof -
  obtain rows where rows: "sr_baseline (push_sample r s) @ sr_current (push_sample r s) = rows @ [r]"
    "sorted (map sm_ts rows)" "set rows \<subseteq> set (sr_baseline s @ sr_current s)"
    using push_sample_rows [OF ok] by blast
  have old: "\<forall>q \<in> set rows. sm_ts q \<le> sm_ts r \<and> sm_failed q \<in> {0, 1}"
    using ok late rows(3) unfolding stream_ok_def by (meson order_trans subsetD)
  have "sorted (map sm_ts (rows @ [r]))" using rows(2) old by (auto simp: sorted_append)
  moreover have "sm_version ` set rows \<subseteq> set (keys (sr_versions s))"
    using ok image_mono [OF rows(3), of sm_version] unfolding stream_ok_def used_versions_set by blast
  then have "set (used_versions (push_sample r s)) \<subseteq> set (keys (sr_versions s))"
    using v unfolding used_versions_set rows(1) by auto
  ultimately show ?thesis
    using ok old f push_sample_lengths [OF ok, of r] unfolding stream_ok_def rows(1) push_sample_fields by auto
qed

lemma promote_baseline_fields [simp]:
  "sr_active (promote_baseline s) = sr_active s"
  "sr_last_timestamp (promote_baseline s) = sr_last_timestamp s"
  "sr_active s \<noteq> None \<Longrightarrow> sr_baseline (promote_baseline s) = sr_baseline s"
  by (auto simp: promote_baseline_def)

lemma promote_baseline_ok: "stream_ok s \<Longrightarrow> stream_ok (promote_baseline s)"
  by (auto simp: promote_baseline_def stream_ok_def used_versions_def)


subsection \<open>Opening and closing incidents\<close>

text \<open>\<open>refreshed\<close>: the same incident with newer evidence; \<open>closed_by\<close>: after its recovery.\<close>

definition refreshed :: "incident \<Rightarrow> signals \<Rightarrow> sample list \<Rightarrow> incident" where
  "refreshed x sg current = x\<lparr>in_signals := dict_merge (in_signals x) sg, in_current := window_stats current\<rparr>"

definition recovered_at :: "pyfloat \<Rightarrow> incident \<Rightarrow> incident" where
  "recovered_at t x = x\<lparr>in_status := Resolved, in_resolved_at := Some t, in_resolution := Some By_recovery\<rparr>"

lemma refreshed_fields [simp]:
  "in_id (refreshed x sg c) = in_id x" "in_stream_id (refreshed x sg c) = in_stream_id x"
  "in_status (refreshed x sg c) = in_status x" "in_opened_at (refreshed x sg c) = in_opened_at x"
  "in_resolved_at (refreshed x sg c) = in_resolved_at x" "in_resolution (refreshed x sg c) = in_resolution x"
  "in_signals (refreshed x sg c) = dict_merge (in_signals x) sg"
  by (simp_all add: refreshed_def)

lemma recovered_at_fields [simp]:
  "in_id (recovered_at t x) = in_id x" "in_stream_id (recovered_at t x) = in_stream_id x"
  "in_status (recovered_at t x) = Resolved" "in_opened_at (recovered_at t x) = in_opened_at x"
  "in_resolved_at (recovered_at t x) = Some t" "in_resolution (recovered_at t x) = Some By_recovery"
  by (simp_all add: recovered_at_def)

lemma evaluate_cases:
  assumes "evaluate R incs k s e = Inr (incs', s')"
  obtains (quiet) "sr_active s = None" "incs' = incs" "s' = s"
  | (opened) x where "sr_active s = None" "incs' = make_room incs @ [x]" "s' = s\<lparr>sr_active := Some (in_id x)\<rparr>"
      "in_id x = onset_id R k (ev_event_id e)" "in_stream_id x = k" "in_status x = Open" "in_resolved_at x = None"
      "in_resolution x = None" "in_opened_at x = epoch_seconds (ev_timestamp e)"
      "in_signals x = window_signals (sr_baseline s) (sr_current s)"
  | (updated) i x where "sr_active s = Some i" "find (\<lambda>x. in_id x = i) incs = Some x" "s' = s"
      "incs' = update_first (\<lambda>x. in_id x = i)
         (\<lambda>_. refreshed x (window_signals (sr_baseline s) (sr_current s)) (sr_current s)) incs"
  | (resolved) i x where "sr_active s = Some i" "find (\<lambda>x. in_id x = i) incs = Some x"
      "s' = s\<lparr>sr_active := None, sr_baseline := last_window (sr_current s), sr_current := []\<rparr>"
      "WINDOW \<le> length (sr_current s)" "window_signals (sr_baseline s) (sr_current s) = []"
      "incs' = update_first (\<lambda>x. in_id x = i)
         (\<lambda>_. recovered_at (epoch_seconds (ev_timestamp e)) (refreshed x [] (sr_current s))) incs"
proof (cases "sr_active s")
  case None
  with assms quiet opened show thesis by (auto simp: evaluate_def Let_def split: if_splits)
next
  case (Some i)
  with assms obtain x where x: "find (\<lambda>x. in_id x = i) incs = Some x"
    by (auto simp: evaluate_def Let_def split: option.splits)
  let ?sg = "window_signals (sr_baseline s) (sr_current s)"
  obtain ok where ok: "recovered (sr_baseline s) (sr_current s) (keys (dict_merge (in_signals x) ?sg)) = Some ok"
    using assms Some x by (auto simp: evaluate_def Let_def split: option.splits)
  show thesis
  proof (cases "ok \<and> ?sg = []")
    case True
    with assms Some x ok show thesis
      using recovered_full [of "sr_baseline s" "sr_current s"]
      by (intro resolved [of i x]) (auto simp: evaluate_def recovered_at_def refreshed_def)
  next
    case False
    with assms Some x ok show thesis
      by (intro updated [of i x]) (auto simp: evaluate_def Let_def refreshed_def)
  qed
qed

lemma evaluate_stream_ok:
  assumes "stream_ok s" "evaluate R incs k s e = Inr (incs', s')"
  shows "stream_ok s' \<and> sr_last_timestamp s' = sr_last_timestamp s"
  using assms(2)
proof (cases rule: evaluate_cases)
  case (resolved i x)
  then have w: "last_window (sr_current s) = sr_current s" "length (sr_current s) = WINDOW"
    using assms(1) by (auto simp: stream_ok_def last_window_id)
  then have "set (used_versions s') \<subseteq> set (used_versions s)" using resolved(3) by (auto simp: used_versions_def)
  with assms(1) w show ?thesis by (auto simp: resolved(3) stream_ok_def sorted_append)
qed (use assms(1) in \<open>auto simp: stream_ok_def\<close>)

text \<open>The incident history never loses an open incident, and keeps within its bound.\<close>

lemma make_room_facts:
  assumes "distinct (map in_id incs)"
  shows "set (make_room incs) \<subseteq> set incs" "distinct (map in_id (make_room incs))"
    "x \<in> set incs \<Longrightarrow> in_status x = Open \<Longrightarrow> x \<in> set (make_room incs)"
proof -
  have d: "distinct incs" using assms by (simp add: distinct_map)
  show "set (make_room incs) \<subseteq> set incs"
    by (auto simp: make_room_def split: option.splits dest: notin_set_remove1 [THEN contrapos_pn])
      (meson set_remove1_subset subsetD)+
  show "distinct (map in_id (make_room incs))"
    using assms d set_remove1_subset [of _ incs]
    by (auto simp: make_room_def distinct_map split: option.splits intro: inj_on_subset)
  show "x \<in> set (make_room incs)" if "x \<in> set incs" "in_status x = Open"
    using that d by (auto simp: make_room_def find_Some_iff split: option.splits)
qed

lemma open_incidents_bound:
  assumes "distinct (map in_id incs)" "\<forall>x \<in> set incs. open_ok streams x"
  shows "length (filter (\<lambda>x. in_status x = Open) incs) \<le> length streams"
proof -
  let ?open = "filter (\<lambda>x. in_status x = Open) incs"
  have "Some ` in_id ` set ?open \<subseteq> sr_active ` snd ` set streams"
    using assms(2) by (force simp: open_ok_def)
  then have "card (Some ` in_id ` set ?open) \<le> card (sr_active ` snd ` set streams)"
    by (intro card_mono) auto
  also have "\<dots> \<le> length streams"
    by (meson card_image_le card_length finite_imageI finite_set le_trans)
  also have "card (Some ` in_id ` set ?open) = card (set (map in_id ?open))"
    by (simp add: card_image)
  also have "\<dots> = length ?open" using assms(1) by (metis distinct_card distinct_map_filter length_map)
  finally show ?thesis .
qed

lemma make_room_length:
  assumes "distinct (map in_id incs)" "\<forall>x \<in> set incs. open_ok streams x" "length streams \<le> MAX_STREAMS"
    "length incs \<le> MAX_INCIDENTS"
  shows "length (make_room incs) < MAX_INCIDENTS"
proof (cases "length incs < MAX_INCIDENTS")
  case False
  then have full: "length incs = MAX_INCIDENTS" using assms(4) by simp
  have "find (\<lambda>x. in_status x \<noteq> Open) incs \<noteq> None"
  proof
    assume "find (\<lambda>x. in_status x \<noteq> Open) incs = None"
    then have "filter (\<lambda>x. in_status x = Open) incs = incs" by (auto simp: find_None_iff)
    then show False
      using open_incidents_bound [OF assms(1,2)] assms(3) full by (simp add: MAX_STREAMS_def MAX_INCIDENTS_def)
  qed
  then obtain x where "find (\<lambda>x. in_status x \<noteq> Open) incs = Some x" by auto
  moreover from this have "x \<in> set incs" by (auto simp: find_Some_iff)
  ultimately show ?thesis
    using full by (simp add: make_room_def length_remove1 MAX_INCIDENTS_def)
qed (simp add: make_room_def)


subsection \<open>One accepted event\<close>

definition event_stream :: "runtime \<Rightarrow> event \<Rightarrow> string" where
  "event_stream R e = stream_id_of R (event_dimensions e)"

text \<open>The stream as \<open>_evaluate\<close> finds it: the old stream or a new one, with the event's sample pushed.\<close>

lemma accept_event_elim:
  assumes "accept_event R e st = Inr st'"
  obtains s0 s1 incs s2 where "open_stream (event_stream R e) e (ds_streams st) = Inr s0"
    "sr_last_timestamp s0 \<le> epoch_seconds (ev_timestamp e)" "admit_version R e s0 = Inr s1"
    "evaluate R (ds_incidents st) (event_stream R e) (push_sample (sample_of R e) s1) e = Inr (incs, s2)"
    "st' = st\<lparr>ds_streams := AList.update (event_stream R e) (promote_baseline s2) (ds_streams st),
       ds_incidents := incs,
       ds_dedup := AList.update (ev_event_id e) (event_digest R e, epoch_seconds (ev_timestamp e)) (ds_dedup st)\<rparr>"
  using assms
  by (auto simp: accept_event_def event_stream_def Let_def rbind_Inr_iff not_less split: prod.splits)

lemma open_stream_cases:
  assumes "open_stream k e streams = Inr s"
  obtains (old) "map_of streams k = Some s"
  | (new) "map_of streams k = None" "length streams < MAX_STREAMS" "s = new_stream e"
  using assms by (auto simp: open_stream_def split: option.splits if_splits)

text \<open>\<open>ready\<close> collects what is known of the stream just before \<open>_evaluate\<close>.\<close>

definition ready :: "(string, stream) dict \<Rightarrow> string \<Rightarrow> stream \<Rightarrow> bool" where
  "ready streams k s \<longleftrightarrow> stream_ok s \<and> length (AList.update k s streams) \<le> MAX_STREAMS \<and>
     (case map_of streams k of
        None \<Rightarrow> sr_active s = None
      | Some s0 \<Rightarrow> sr_active s = sr_active s0 \<and> sr_last_timestamp s0 \<le> sr_last_timestamp s \<and>
                  (sr_active s \<noteq> None \<longrightarrow> sr_baseline s = sr_baseline s0))"

lemma ready_pushed:
  assumes inv: "core_inv st" and o: "open_stream k e (ds_streams st) = Inr s0"
    and late: "sr_last_timestamp s0 \<le> epoch_seconds (ev_timestamp e)" and a: "admit_version R e s0 = Inr s1"
  shows "ready (ds_streams st) k (push_sample (sample_of R e) s1)"
proof -
  have ok: "stream_ok s0"
    using o
  proof (cases rule: open_stream_cases)
    case old
    then show ?thesis using core_invD(6) [OF inv] by (auto dest: map_of_SomeD)
  qed (simp add: new_stream_ok)
  note s1 = admit_version_ok [OF ok a]
  have "stream_ok (push_sample (sample_of R e) s1)"
    using s1 late by (intro push_sample_ok) (auto simp: sample_of_def)
  then have base: "stream_ok (push_sample (sample_of R e) s1)" .
  from o show ?thesis
  proof (cases rule: open_stream_cases)
    case old
    then have "k \<in> set (keys (ds_streams st))" by (metis notin_keys_iff option.distinct(1))
    with base old s1 late core_invD(2) [OF inv] show ?thesis
      by (auto simp: ready_def push_sample_fields length_update sample_of_def)
  next
    case new
    with base s1 show ?thesis
      by (simp add: ready_def push_sample_fields length_update new_stream_def)
  qed
qed

text \<open>What holds of the other streams and incidents after the stream under \<open>k\<close> is replaced.\<close>

lemma other_link_ok:
  assumes inv: "core_inv st" and s: "(l, t) \<in> set (ds_streams st)"
    and keep: "\<And>x. x \<in> set (ds_incidents st) \<Longrightarrow> in_status x = Open \<Longrightarrow> in_stream_id x = l \<Longrightarrow> x \<in> set incs"
  shows "link_ok incs l t"
proof (cases "sr_active t")
  case (Some i)
  then obtain x where "x \<in> set (ds_incidents st)" "in_id x = i" "owns l t x"
    using core_invD(7) [OF inv s] by (auto simp: link_ok_def)
  with keep Some show ?thesis by (auto simp: link_ok_def owns_def)
qed (simp add: link_ok_def)

lemma other_open_ok:
  assumes inv: "core_inv st" and x: "x \<in> set (ds_incidents st)"
    and other: "\<And>s0. map_of (ds_streams st) k = Some s0 \<Longrightarrow> sr_active s0 \<noteq> Some (in_id x)"
  shows "open_ok (AList.update k s (ds_streams st)) x"
proof (unfold open_ok_def, intro impI)
  assume "in_status x = Open"
  then obtain t where t: "(in_stream_id x, t) \<in> set (ds_streams st)" "sr_active t = Some (in_id x)"
    using core_invD(8) [OF inv x] by (auto simp: open_ok_def)
  have "map_of (ds_streams st) (in_stream_id x) = Some t"
    using t(1) core_invD(1) [OF inv] by (simp only: in_dict_iff)
  then have "in_stream_id x \<noteq> k" using other [of t] t(2) by auto
  then have "(in_stream_id x, t) \<in> set (AList.update k s (ds_streams st))"
    using t(1) set_update [OF core_invD(1) [OF inv]] by simp
  with t(2) show "\<exists>s'. (in_stream_id x, s') \<in> set (AList.update k s (ds_streams st)) \<and> sr_active s' = Some (in_id x)"
    by blast
qed

lemma replace_core_inv:
  assumes inv: "core_inv st" and rd: "length (AList.update k s (ds_streams st)) \<le> MAX_STREAMS"
    and s: "stream_ok s" "link_ok incs k s"
    and d: "distinct (map in_id incs)" "length incs \<le> MAX_INCIDENTS"
    and keep: "\<And>x. x \<in> set (ds_incidents st) \<Longrightarrow> in_status x = Open \<Longrightarrow> in_stream_id x \<noteq> k \<Longrightarrow> x \<in> set incs"
    and x: "\<And>x. x \<in> set incs \<Longrightarrow> open_ok (AList.update k s (ds_streams st)) x \<and> closed_ok x"
  shows "core_inv (st\<lparr>ds_streams := AList.update k s (ds_streams st), ds_incidents := incs,
                      ds_dedup := AList.update i v (ds_dedup st)\<rparr>)"
proof -
  have "stream_ok t \<and> link_ok incs l t" if "(l, t) \<in> set (AList.update k s (ds_streams st))" for l t
  proof (cases "l = k")
    case True
    then show ?thesis using that s core_invD(1) [OF inv] by (auto simp: set_update)
  next
    case False
    then have "(l, t) \<in> set (ds_streams st)" using that core_invD(1) [OF inv] by (auto simp: set_update)
    then show ?thesis using core_invD(6) [OF inv] other_link_ok [OF inv] keep False by blast
  qed
  then show ?thesis
    using rd d x core_invD(1,3) [OF inv] by (auto simp: core_inv_def)
qed


lemma set_update_found:
  assumes "distinct (map in_id incs)" "find (\<lambda>x. in_id x = i) incs = Some x"
  shows "set (update_first (\<lambda>x. in_id x = i) (\<lambda>_. y) incs) = insert y {z \<in> set incs. in_id z \<noteq> i}"
proof -
  have "x \<in> set incs" "in_id x = i" using assms by (auto simp: distinct_find_iff)
  then show ?thesis unfolding update_first_map [OF assms(1)] by auto
qed

lemma ids_update_found:
  assumes "in_id y = i"
  shows "map in_id (update_first (\<lambda>x. in_id x = i) (\<lambda>_. y) incs) = map in_id incs"
  using assms by (intro map_update_first) auto

text \<open>Rewriting the incident of an active stream: the obligations common to an update and to a recovery.\<close>

lemma active_update_core_inv:
  assumes inv: "core_inv st" and rd: "ready (ds_streams st) k s" and act: "sr_active s = Some i"
    and x: "find (\<lambda>x. in_id x = i) (ds_incidents st) = Some x" and y: "in_id y = i"
    and s': "stream_ok s'" "owns k s x \<Longrightarrow> link_ok [y] k s'"
    and yok: "closed_ok x \<Longrightarrow> in_status x = Open \<Longrightarrow> closed_ok y"
      "in_status y = Open \<Longrightarrow> in_stream_id y = in_stream_id x \<and> sr_active s' = Some i"
  shows "core_inv (st\<lparr>ds_streams := AList.update k s' (ds_streams st),
           ds_incidents := update_first (\<lambda>x. in_id x = i) (\<lambda>_. y) (ds_incidents st),
           ds_dedup := AList.update j v (ds_dedup st)\<rparr>)"
proof -
  let ?incs' = "update_first (\<lambda>x. in_id x = i) (\<lambda>_. y) (ds_incidents st)"
  note dist = core_invD(4) [OF inv]
  have xin: "x \<in> set (ds_incidents st)" "in_id x = i" using x dist by (auto simp: distinct_find_iff)
  obtain s0 where s0: "map_of (ds_streams st) k = Some s0" "sr_active s0 = Some i"
    "sr_last_timestamp s0 \<le> sr_last_timestamp s" "sr_baseline s = sr_baseline s0"
    using rd act by (auto simp: ready_def split: option.splits)
  then have own0: "owns k s0 x"
    using core_inv_owner [OF inv map_of_SomeD _ xin(1)] xin(2) by simp
  with s0 have own: "owns k s x" by (auto simp: owns_def)
  have set': "set ?incs' = insert y {z \<in> set (ds_incidents st). in_id z \<noteq> i}"
    by (rule set_update_found [OF dist x])
  have link: "link_ok ?incs' k s'"
    using s'(2) [OF own] set' by (auto simp: link_ok_def split: option.splits)
  have keep: "z \<in> set ?incs'" if z: "z \<in> set (ds_incidents st)" "in_stream_id z \<noteq> k" for z
    using z own xin distinct_id_eq [OF dist z(1) xin(1)] set' by (auto simp: owns_def)
  have member: "open_ok (AList.update k s' (ds_streams st)) z \<and> closed_ok z" if "z \<in> set ?incs'" for z
  proof (cases "z = y")
    case True
    then show ?thesis
      using yok own core_invD(9) [OF inv xin(1)] y set_update [OF core_invD(1) [OF inv]]
      by (auto simp: open_ok_def owns_def)
  next
    case False
    then have z: "z \<in> set (ds_incidents st)" "in_id z \<noteq> i" using that set' by auto
    then show ?thesis using other_open_ok [OF inv z(1), of k s'] s0 core_invD(9) [OF inv z(1)] by auto
  qed
  have "length (AList.update k s' (ds_streams st)) \<le> MAX_STREAMS"
    using rd by (simp add: ready_def length_update)
  then show ?thesis
    using s'(1) link keep member core_invD(4,5) [OF inv]
    by (intro replace_core_inv [OF inv]) (simp_all add: ids_update_found [OF y])
qed

lemma promote_link: "link_ok incs k (promote_baseline s) = link_ok incs k s"
  by (auto simp: link_ok_def owns_def split: option.splits)

lemma evaluate_core_inv:
  assumes inv: "core_inv st" and rd: "ready (ds_streams st) k s"
    and ts: "epoch_seconds (ev_timestamp e) \<le> sr_last_timestamp s"
    and ev: "evaluate R (ds_incidents st) k s e = Inr (incs', s2)"
    and fresh: "onset_id R k (ev_event_id e) \<notin> in_id ` set (ds_incidents st)"
  shows "core_inv (st\<lparr>ds_streams := AList.update k (promote_baseline s2) (ds_streams st),
           ds_incidents := incs', ds_dedup := AList.update j v (ds_dedup st)\<rparr>)"
proof -
  have ok: "stream_ok s" using rd by (simp add: ready_def)
  have ok2: "stream_ok (promote_baseline s2)" using evaluate_stream_ok [OF ok ev] promote_baseline_ok by blast
  have len: "length (AList.update k (promote_baseline s2) (ds_streams st)) \<le> MAX_STREAMS"
    using rd by (simp add: ready_def length_update)
  note dist = core_invD(4) [OF inv] and bound = core_invD(5) [OF inv]
  have idle: "sr_active s0 \<noteq> Some (in_id x)" if "sr_active s = None" "map_of (ds_streams st) k = Some s0" for s0 x
    using rd that by (simp add: ready_def)
  from ev show ?thesis
  proof (cases rule: evaluate_cases)
    case quiet
    have "open_ok (AList.update k (promote_baseline s2) (ds_streams st)) x" if "x \<in> set (ds_incidents st)" for x
      using other_open_ok [OF inv that] idle [OF quiet(1)] by blast
    with quiet show ?thesis
      using ok2 len dist bound core_invD(9) [OF inv]
      by (intro replace_core_inv [OF inv]) (simp_all add: promote_link link_ok_def)
  next
    case (opened x)
    note room = make_room_facts [OF dist]
    have link: "link_ok incs' k (promote_baseline s2)"
      unfolding promote_link using opened ts signals_supported [of "sr_baseline s" "sr_current s"]
      by (simp add: link_ok_def owns_def)
    have new: "in_id x \<notin> in_id ` set (make_room (ds_incidents st))" using fresh opened(4) room(1) by auto
    have "length incs' \<le> MAX_INCIDENTS"
      using make_room_length [OF dist _ core_invD(2) [OF inv] bound] core_invD(8) [OF inv] opened(2) by simp
    moreover have "open_ok (AList.update k (promote_baseline s2) (ds_streams st)) z \<and> closed_ok z"
      if "z \<in> set incs'" for z
    proof (cases "z = x")
      case True
      then show ?thesis
        using opened set_update [OF core_invD(1) [OF inv]] by (auto simp: open_ok_def closed_ok_def)
    next
      case False
      then have "z \<in> set (ds_incidents st)" using that opened(2) room(1) by auto
      then show ?thesis using other_open_ok [OF inv] idle [OF opened(1)] core_invD(9) [OF inv] by blast
    qed
    ultimately show ?thesis
      using ok2 len link new room opened(2) by (intro replace_core_inv [OF inv]) auto
  next
    case (updated i x)
    let ?y = "refreshed x (window_signals (sr_baseline s) (sr_current s)) (sr_current s)"
    have "in_id x = i" using updated(2) dist by (simp add: distinct_find_iff)
    moreover have "link_ok [?y] k (promote_baseline s2)" if "owns k s x"
      unfolding promote_link using that updated \<open>in_id x = i\<close> signals_supported [of "sr_baseline s" "sr_current s"]
      by (simp add: link_ok_def owns_def keys_dict_merge [unfolded set_map] supported_Un)
    ultimately show ?thesis
      unfolding updated(4) using updated ok2
      by (intro active_update_core_inv [OF inv rd updated(1,2)]) (auto simp: closed_ok_def)
  next
    case (resolved i x)
    have "in_id x = i" using resolved(2) dist by (simp add: distinct_find_iff)
    then show ?thesis
      unfolding resolved(6) using resolved ok2
      by (intro active_update_core_inv [OF inv rd resolved(1,2)]) (auto simp: closed_ok_def link_ok_def)
  qed
qed

lemma accept_event_core_inv:
  assumes inv: "core_inv st" and acc: "accept_event R e st = Inr st'"
    and fresh: "onset_id R (event_stream R e) (ev_event_id e) \<notin> in_id ` set (ds_incidents st)"
  shows "core_inv st'"
  using acc
proof (cases rule: accept_event_elim)
  case (1 s0 s1 incs s2)
  have "ready (ds_streams st) (event_stream R e) (push_sample (sample_of R e) s1)"
    using 1 by (intro ready_pushed [OF inv])
  then show ?thesis
    unfolding 1(5) using 1 fresh
    by (intro evaluate_core_inv [OF inv]) (auto simp: push_sample_fields sample_of_def)
qed

end
