(* ===== verification/Batch.thy ===== *)
theory Batch
  imports Ingestion_Inv "HOL-Library.Multiset"
begin

text \<open>
  Whole batches: the loop over the sorted events, the eviction of duplicate-detection entries and
  \<open>process_events\<close> itself.
\<close>

subsection \<open>Fresh incident identifiers\<close>

text \<open>
  An incident is named by the hash of its stream and of the event that opened it.  A name can recur
  only if the hash collides or if an event ID is used again after its duplicate-detection entry was
  dropped; \<open>fresh_batch\<close> excludes both for one batch.
\<close>

definition onset :: "runtime \<Rightarrow> event \<Rightarrow> string" where
  "onset R e = onset_id R (event_stream R e) (ev_event_id e)"

definition fresh_batch :: "runtime \<Rightarrow> det_state \<Rightarrow> event list \<Rightarrow> bool" where
  "fresh_batch R st es \<longleftrightarrow>
     (\<forall>e \<in> set es. ev_event_id e \<notin> set (keys (ds_dedup st)) \<longrightarrow> onset R e \<notin> in_id ` set (ds_incidents st)) \<and>
     (\<forall>e \<in> set es. \<forall>e' \<in> set es. onset R e = onset R e' \<longrightarrow> ev_event_id e = ev_event_id e')"

lemma make_room_subset: "set (make_room incs) \<subseteq> set incs"
  using set_remove1_subset [of _ incs] by (auto simp: make_room_def split: option.splits dest: subsetD)

lemma in_id_update_first:
  "in_id y = i \<Longrightarrow> in_id ` set (update_first (\<lambda>x. in_id x = i) (\<lambda>_. y) incs) = in_id ` set incs"
  using ids_update_found [of y i incs] by (metis list.set_map)

lemma evaluate_ids:
  assumes "evaluate R incs k s e = Inr (incs', s')"
  shows "in_id ` set incs' \<subseteq> insert (onset_id R k (ev_event_id e)) (in_id ` set incs)"
  using assms
proof (cases rule: evaluate_cases)
  case (opened x)
  then show ?thesis using make_room_subset [of incs] by auto
next
  case (updated i x)
  then have "in_id x = i" by (auto simp: find_Some_iff)
  then show ?thesis unfolding updated(4) by (simp add: in_id_update_first subset_insertI)
next
  case (resolved i x)
  then have "in_id x = i" by (auto simp: find_Some_iff)
  then show ?thesis unfolding resolved(6) by (simp add: in_id_update_first subset_insertI)
qed auto

lemma accept_event_ids:
  assumes "accept_event R e st = Inr st'"
  shows "in_id ` set (ds_incidents st') \<subseteq> insert (onset R e) (in_id ` set (ds_incidents st))"
  using assms
proof (cases rule: accept_event_elim)
  case (1 s0 s1 incs s2)
  then show ?thesis using evaluate_ids by (simp add: onset_def)
qed

lemma accept_event_dedup:
  assumes "accept_event R e st = Inr st'"
  shows "ds_dedup st' = AList.update (ev_event_id e) (event_digest R e, epoch_seconds (ev_timestamp e)) (ds_dedup st)"
    "ds_replay_floor st' = ds_replay_floor st" "ds_accepted st' = ds_accepted st"
    "ds_duplicates st' = ds_duplicates st" "ds_usage st' = ds_usage st"
  using assms by (elim accept_event_elim; simp)+

lemma ingest_event_cases:
  assumes "ingest_event R now e st = Inr (st', new)"
  obtains (duplicate) t where "map_of (ds_dedup st) (ev_event_id e) = Some (event_digest R e, t)" "st' = st" "\<not> new"
  | (accepted) "map_of (ds_dedup st) (ev_event_id e) = None" "accept_event R e st = Inr st'" "new"
      "ds_replay_floor st < epoch_seconds (ev_timestamp e)"
proof (cases "map_of (ds_dedup st) (ev_event_id e)")
  case None
  then have "accept_event R e st = Inr st' \<and> new \<and> ds_replay_floor st < epoch_seconds (ev_timestamp e)"
    using assms by (simp add: ingest_event_def Let_def rbind_Inr_iff not_le split: if_splits)
  with None accepted show thesis by blast
next
  case (Some p)
  moreover obtain d t where "p = (d, t)" by (cases p)
  moreover from calculation have "d = event_digest R e \<and> st' = st \<and> \<not> new"
    using assms by (simp add: ingest_event_def Let_def split: if_splits)
  ultimately show thesis using duplicate by blast
qed

lemma fresh_batchI:
  assumes "\<And>e. e \<in> set es \<Longrightarrow> ev_event_id e \<notin> set (keys (ds_dedup st)) \<Longrightarrow> onset R e \<notin> in_id ` set (ds_incidents st)"
    "\<And>e e'. e \<in> set es \<Longrightarrow> e' \<in> set es \<Longrightarrow> onset R e = onset R e' \<Longrightarrow> ev_event_id e = ev_event_id e'"
  shows "fresh_batch R st es"
  unfolding fresh_batch_def using assms by blast

lemma fresh_batchD:
  assumes "fresh_batch R st es"
  shows "e \<in> set es \<Longrightarrow> ev_event_id e \<notin> set (keys (ds_dedup st)) \<Longrightarrow> onset R e \<notin> in_id ` set (ds_incidents st)"
    "e \<in> set es \<Longrightarrow> e' \<in> set es \<Longrightarrow> onset R e = onset R e' \<Longrightarrow> ev_event_id e = ev_event_id e'"
  using assms unfolding fresh_batch_def by blast+

lemma fresh_batch_step:
  assumes f: "fresh_batch R st (e # es)" and i: "ingest_event R now e st = Inr (st', new)"
  shows "fresh_batch R st' es"
proof (rule fresh_batchI)
  fix e' assume e': "e' \<in> set es" "ev_event_id e' \<notin> set (keys (ds_dedup st'))"
  from i show "onset R e' \<notin> in_id ` set (ds_incidents st')"
  proof (cases rule: ingest_event_cases)
    case (duplicate t)
    then show ?thesis using fresh_batchD(1) [OF f, of e'] e' by simp
  next
    case accepted
    have ne: "ev_event_id e' \<noteq> ev_event_id e" "ev_event_id e' \<notin> set (keys (ds_dedup st))"
      using e'(2) accept_event_dedup(1) [OF accepted(2)] by auto
    then have "onset R e' \<noteq> onset R e" using fresh_batchD(2) [OF f, of e' e] e'(1) by auto
    moreover have "onset R e' \<notin> in_id ` set (ds_incidents st)"
      using fresh_batchD(1) [OF f, of e'] ne e'(1) by simp
    ultimately show ?thesis using accept_event_ids [OF accepted(2)] by auto
  qed
next
  show "ev_event_id e' = ev_event_id e''" if "e' \<in> set es" "e'' \<in> set es" "onset R e' = onset R e''" for e' e''
    using fresh_batchD(2) [OF f, of e' e''] that by simp
qed

subsection \<open>The loop\<close>

lemma ingest_event_core_inv:
  assumes "core_inv st" "ingest_event R now e st = Inr (st', new)" "fresh_batch R st (e # es)"
  shows "core_inv st'"
  using assms(2)
proof (cases rule: ingest_event_cases)
  case accepted
  then have "ev_event_id e \<notin> set (keys (ds_dedup st))" by (simp add: notin_keys_iff)
  then have "onset_id R (event_stream R e) (ev_event_id e) \<notin> in_id ` set (ds_incidents st)"
    using fresh_batchD(1) [OF assms(3), of e] by (simp add: onset_def)
  then show ?thesis using accept_event_core_inv assms(1) accepted(2) by blast
qed (use assms(1) in simp)

lemma ingest_all_core_inv:
  "core_inv st \<Longrightarrow> fresh_batch R st es \<Longrightarrow> ingest_all R now es st a d = Inr (st', a', d') \<Longrightarrow> core_inv st'"
proof (induction es arbitrary: st a d)
  case (Cons e es)
  then obtain st1 new where i: "ingest_event R now e st = Inr (st1, new)"
    by (auto simp: rbind_Inr_iff)
  note step = ingest_event_core_inv [OF Cons.prems(1) i Cons.prems(2)] fresh_batch_step [OF Cons.prems(2) i]
  show ?case using Cons.prems(3) i by (auto intro: Cons.IH [OF step] split: if_splits)
qed simp

text \<open>The loop counts every event once.\<close>

lemma ingest_all_counts:
  "ingest_all R now es st a d = Inr (st', a', d') \<Longrightarrow> a' + d' = a + d + length es \<and> a \<le> a' \<and> d \<le> d'"
proof (induction es arbitrary: st a d)
  case (Cons e es)
  then obtain st1 new where "ingest_event R now e st = Inr (st1, new)" by (auto simp: rbind_Inr_iff)
  with Cons.prems show ?case by (auto dest!: Cons.IH split: if_splits)
qed simp

lemma ingest_all_frame:
  "ingest_all R now es st a d = Inr (st', a', d') \<Longrightarrow>
   ds_replay_floor st' = ds_replay_floor st \<and> ds_accepted st' = ds_accepted st \<and>
   ds_duplicates st' = ds_duplicates st \<and> ds_usage st' = ds_usage st"
proof (induction es arbitrary: st a d)
  case (Cons e es)
  then obtain st1 new where i: "ingest_event R now e st = Inr (st1, new)" by (auto simp: rbind_Inr_iff)
  then have "ds_replay_floor st1 = ds_replay_floor st \<and> ds_accepted st1 = ds_accepted st \<and>
      ds_duplicates st1 = ds_duplicates st \<and> ds_usage st1 = ds_usage st"
    by (cases rule: ingest_event_cases) (auto dest: accept_event_dedup)
  moreover obtain a1 d1 where "ingest_all R now es st1 a1 d1 = Inr (st', a', d')"
    using Cons.prems i by (auto split: if_splits)
  ultimately show ?case using Cons.IH by fastforce
qed simp

subsection \<open>Eviction\<close>

definition evicted :: "(string, string \<times> pyfloat) dict \<Rightarrow> (string \<times> string \<times> pyfloat) list" where
  "evicted d = take (length d - MAX_DEDUP) (sort_key (\<lambda>(k, h, t). (t, k)) d)"

lemma foldl_delete: "foldl (\<lambda>d (k, h, t). AList.delete k d) d vs = filter (\<lambda>p. fst p \<notin> set (keys vs)) d"
proof (induction vs arbitrary: d)
  case (Cons v vs)
  then show ?case by (cases v) (auto simp: AList.delete_eq split_def intro!: filter_cong)
qed simp

lemma foldl_max_ge: "(f :: pyfloat) \<le> foldl (\<lambda>f (k, h, t). max f t) f vs"
proof (induction vs arbitrary: f)
  case (Cons v vs)
  obtain k h t where "v = (k, h, t)" by (cases v)
  then show ?case using Cons [of "max f t"] by (simp add: split_def max.bounded_iff)
qed simp

lemma foldl_max_bound: "(k, h, t) \<in> set vs \<Longrightarrow> (t :: pyfloat) \<le> foldl (\<lambda>f (k, h, t). max f t) f vs"
proof (induction vs arbitrary: f)
  case (Cons v vs)
  then show ?case using foldl_max_ge [of "max f t" vs] by (cases v) (auto simp: split_def max.bounded_iff)
qed simp

lemma set_evicted: "set (evicted d) \<subseteq> set d"
  by (auto simp: evicted_def dest: in_set_takeD)

lemma evict_dedup_fields:
  "ds_dedup (evict_dedup st) = filter (\<lambda>p. fst p \<notin> set (keys (evicted (ds_dedup st)))) (ds_dedup st)"
  "ds_replay_floor (evict_dedup st) = foldl (\<lambda>f (k, h, t). max f t) (ds_replay_floor st) (evicted (ds_dedup st))"
  "ds_streams (evict_dedup st) = ds_streams st" "ds_incidents (evict_dedup st) = ds_incidents st"
  "ds_accepted (evict_dedup st) = ds_accepted st" "ds_duplicates (evict_dedup st) = ds_duplicates st"
  "ds_usage (evict_dedup st) = ds_usage st"
  by (simp_all add: evict_dedup_def evicted_def foldl_delete Let_def)

lemma evict_dedup_length:
  assumes "dict_ok (ds_dedup st)"
  shows "length (ds_dedup (evict_dedup st)) \<le> MAX_DEDUP"
proof -
  let ?d = "ds_dedup st" and ?v = "evicted (ds_dedup st)"
  have dv: "distinct (keys ?v)"
  proof -
    have "mset (sort_key (\<lambda>(k, h, t). (t, k)) ?d) = mset ?d" by simp
    then have "mset (keys (sort_key (\<lambda>(k, h, t). (t, k)) ?d)) = mset (keys ?d)" by (metis mset_map)
    then have "distinct (keys (sort_key (\<lambda>(k, h, t). (t, k)) ?d))" using assms by (metis mset_eq_imp_distinct_iff)
    then show ?thesis by (simp add: evicted_def take_map [symmetric])
  qed
  have sub: "set (keys ?v) \<subseteq> set (keys ?d)" using set_evicted by auto
  have "length (filter (\<lambda>p. fst p \<notin> set (keys ?v)) ?d) = length (filter (\<lambda>k. k \<notin> set (keys ?v)) (keys ?d))"
    by (simp add: filter_map o_def)
  also have "\<dots> = card (set (keys ?d) - set (keys ?v))"
    using assms by (subst distinct_card [symmetric]) (auto intro: arg_cong [where f = card])
  also have "\<dots> = card (set (keys ?d)) - card (set (keys ?v))" using sub by (intro card_Diff_subset) auto
  also have "card (set (keys ?d)) = length ?d" using assms by (metis distinct_card length_map)
  also have "card (set (keys ?v)) = length ?v" using dv by (metis distinct_card length_map)
  also have "length ?v = length ?d - MAX_DEDUP" by (simp add: evicted_def)
  finally show ?thesis by (simp add: evict_dedup_fields)
qed

lemma evict_dedup_det_inv: "core_inv st \<Longrightarrow> det_inv (evict_dedup st)"
  using evict_dedup_length [OF core_invD(3)]
  by (auto simp: det_inv_def core_inv_def evict_dedup_fields)

end
