(* ===== verification/Process.thy ===== *)
theory Process
  imports Batch
begin

text \<open>
  The transaction callback \<open>process_events\<close> as a whole: what a committed batch keeps, counts and
  remembers, which errors it can raise, and how retries and replays are absorbed.
\<close>

subsection \<open>Anatomy of a committed call\<close>

lemma process_events_elim:
  assumes "process_events R size_of state es now = Inr (st', m)"
  obtains t st1 where "epoch now = Inr t" "1 \<le> length es" "length es \<le> 100"
    "ingest_all R t (sort_key event_order es) (prune state t) 0 0 = Inr (st1, mt_accepted m, mt_duplicates m)"
    "st' = evict_dedup st1\<lparr>ds_accepted := ds_accepted st1 + int (mt_accepted m),
                          ds_duplicates := ds_duplicates st1 + int (mt_duplicates m)\<rparr>"
    "size_of st' \<le> MAX_STATE_BYTES"
  using assms
  by (auto simp: process_events_def rbind_Inr_iff Let_def evict_dedup_fields not_less split: if_splits prod.splits)

lemma fresh_batch_sort: "fresh_batch R st (sort_key f es) = fresh_batch R st es"
  by (simp add: fresh_batch_def)

lemma det_inv_totals: "det_inv (st\<lparr>ds_accepted := a, ds_duplicates := d\<rparr>) = det_inv st"
  by (simp add: det_inv_def core_inv_def)

lemma process_events_det_inv:
  assumes "tenant_inv state" "epoch now = Inr t" "fresh_batch R (prune state t) es"
    "process_events R size_of state es now = Inr (st', m)"
  shows "det_inv st'"
  using assms(4)
proof (cases rule: process_events_elim)
  case (1 t' st1)
  then have "core_inv (prune state t')" using prune_det_inv [OF assms(1)] by (simp add: det_inv_def)
  moreover have "fresh_batch R (prune state t') (sort_key event_order es)"
    using assms(2,3) 1(1) by (simp add: fresh_batch_sort)
  ultimately have "core_inv st1" using ingest_all_core_inv 1(4) by blast
  then show ?thesis using evict_dedup_det_inv by (simp add: 1(5) det_inv_totals)
qed

lemma process_events_counts:
  assumes "process_events R size_of state es now = Inr (st', m)"
  shows "mt_accepted m + mt_duplicates m = length es"
    "ds_accepted st' = ds_accepted (base_state state) + int (mt_accepted m)"
    "ds_duplicates st' = ds_duplicates (base_state state) + int (mt_duplicates m)"
    "ds_usage st' = ds_usage (base_state state)"
proof -
  obtain t st1 where "ingest_all R t (sort_key event_order es) (prune state t) 0 0 = Inr (st1, mt_accepted m, mt_duplicates m)"
    and st': "st' = evict_dedup st1\<lparr>ds_accepted := ds_accepted st1 + int (mt_accepted m),
                          ds_duplicates := ds_duplicates st1 + int (mt_duplicates m)\<rparr>"
    using assms by (rule process_events_elim)
  note loop = ingest_all_counts [OF this(1)] ingest_all_frame [OF this(1)]
  from loop show "mt_accepted m + mt_duplicates m = length es" by simp
  from loop show "ds_accepted st' = ds_accepted (base_state state) + int (mt_accepted m)"
    "ds_duplicates st' = ds_duplicates (base_state state) + int (mt_duplicates m)"
    "ds_usage st' = ds_usage (base_state state)"
    by (simp_all add: st' prune_fields evict_dedup_fields)
qed

subsection \<open>Errors\<close>

definition INGEST_CODES :: "string set" where
  "INGEST_CODES = {''event_expired'', ''event_in_future'', ''event_id_conflict'', ''stale_replay'',
     ''stream_limit_exceeded'', ''late_event'', ''version_limit_exceeded''}"

definition PROCESS_CODES :: "string set" where
  "PROCESS_CODES = INGEST_CODES \<union> {''aware_now_required'', ''batch_size_exceeded'', ''state_capacity_exceeded''}"

lemma evaluate_total:
  assumes inv: "core_inv st" and rd: "ready (ds_streams st) k s"
  shows "\<exists>r. evaluate R (ds_incidents st) k s e = Inr r"
proof (cases "sr_active s")
  case None
  then show ?thesis by (simp add: evaluate_def Let_def)
next
  case (Some i)
  then obtain s0 where s0: "map_of (ds_streams st) k = Some s0" "sr_active s0 = Some i"
    "sr_baseline s = sr_baseline s0"
    using rd by (auto simp: ready_def split: option.splits)
  then obtain x where x: "x \<in> set (ds_incidents st)" "in_id x = i" "owns k s0 x"
    using core_invD(7) [OF inv map_of_SomeD [OF s0(1)]] by (auto simp: link_ok_def)
  let ?sg = "window_signals (sr_baseline s) (sr_current s)"
  have find: "find (\<lambda>x. in_id x = i) (ds_incidents st) = Some x"
    using x core_invD(4) [OF inv] by (simp add: distinct_find_iff)
  have "supported (sr_baseline s) (set (keys (dict_merge (in_signals x) ?sg)))"
    using x(3) s0(3) signals_supported [of "sr_baseline s" "sr_current s"]
    unfolding keys_dict_merge supported_Un by (simp add: owns_def)
  then have "recovered (sr_baseline s) (sr_current s) (keys (dict_merge (in_signals x) ?sg)) \<noteq> None"
    by (rule recovered_defined)
  then show ?thesis using Some find by (auto simp: evaluate_def Let_def)
qed

lemma accept_event_error:
  assumes inv: "core_inv st" and err: "accept_event R e st = Inl err"
  shows "\<exists>code \<in> INGEST_CODES. err = DetectionError code"
proof -
  let ?k = "event_stream R e"
  consider (capacity) "open_stream ?k e (ds_streams st) = Inl err"
    | (late) "err = DetectionError ''late_event''"
    | (versions) s0 where "admit_version R e s0 = Inl err"
    | (evaluation) s0 s1 where "open_stream ?k e (ds_streams st) = Inr s0"
        "sr_last_timestamp s0 \<le> epoch_seconds (ev_timestamp e)" "admit_version R e s0 = Inr s1"
        "evaluate R (ds_incidents st) ?k (push_sample (sample_of R e) s1) e = Inl err"
    using err
    by (auto simp: accept_event_def event_stream_def Let_def rbind_Inl_iff not_less split: prod.splits)
  then show ?thesis
  proof cases
    case capacity
    then show ?thesis by (auto simp: open_stream_def INGEST_CODES_def split: option.splits if_splits)
  next
    case late
    then show ?thesis by (simp add: INGEST_CODES_def)
  next
    case versions
    then show ?thesis by (auto simp: admit_version_def Let_def INGEST_CODES_def split: if_splits)
  next
    case evaluation
    then have "ready (ds_streams st) ?k (push_sample (sample_of R e) s1)" by (intro ready_pushed [OF inv])
    from evaluate_total [OF inv this, of R e] evaluation(4) show ?thesis by auto
  qed
qed

lemma ingest_event_error:
  assumes inv: "core_inv st" and err: "ingest_event R now e st = Inl err"
  shows "\<exists>code \<in> INGEST_CODES. err = DetectionError code"
proof (cases "accept_event R e st = Inl err")
  case False
  then show ?thesis
    using err by (auto simp: ingest_event_def Let_def INGEST_CODES_def rbind_Inl_iff split: if_splits option.splits)
qed (use accept_event_error [OF inv] in blast)

lemma ingest_all_error:
  "core_inv st \<Longrightarrow> fresh_batch R st es \<Longrightarrow> ingest_all R now es st a d = Inl err \<Longrightarrow>
   \<exists>code \<in> INGEST_CODES. err = DetectionError code"
proof (induction es arbitrary: st a d)
  case (Cons e es)
  show ?case
  proof (cases "ingest_event R now e st")
    case (Inl err')
    then show ?thesis using Cons.prems ingest_event_error [OF Cons.prems(1)] by simp
  next
    case (Inr p)
    obtain st1 new where p: "p = (st1, new)" by (cases p)
    note step = ingest_event_core_inv [OF Cons.prems(1) Inr [unfolded p] Cons.prems(2)]
      fresh_batch_step [OF Cons.prems(2) Inr [unfolded p]]
    show ?thesis using Cons.prems(3) Inr p Cons.IH [OF step] by (auto split: if_splits)
  qed
qed simp

lemma epoch_error: "epoch now = Inl err \<Longrightarrow> err = DetectionError ''aware_now_required''"
  by (auto simp: epoch_def split: pydatetime.splits)

lemma process_events_error:
  assumes inv: "tenant_inv state" and fresh: "\<And>t. epoch now = Inr t \<Longrightarrow> fresh_batch R (prune state t) es"
    and err: "process_events R size_of state es now = Inl err"
  shows "\<exists>code \<in> PROCESS_CODES. err = DetectionError code"
proof (cases "epoch now")
  case (Inl e)
  then show ?thesis using err epoch_error by (auto simp: process_events_def PROCESS_CODES_def)
next
  case (Inr t)
  let ?r = "ingest_all R t (sort_key event_order es) (prune state t) 0 0"
  have "core_inv (prune state t)" using prune_det_inv [OF inv] by (simp add: det_inv_def)
  then have loop: "?r = Inl e \<Longrightarrow> \<exists>code \<in> INGEST_CODES. e = DetectionError code" for e
    using ingest_all_error fresh [OF Inr] by (metis fresh_batch_sort)
  have "err = DetectionError ''batch_size_exceeded'' \<or> ?r = Inl err \<or> err = DetectionError ''state_capacity_exceeded''"
    using err Inr
    by (auto simp: process_events_def rbind_Inl_iff Let_def split: if_splits prod.splits)
  then show ?thesis using loop by (auto simp: PROCESS_CODES_def)
qed

end
