(* ===== verification/Replay.thy ===== *)
theory Replay
  imports Process
begin

text \<open>
  At-most-once ingestion.  An event that a committed call has seen stays \<open>covered\<close>: its
  duplicate-detection entry is there, or the replay floor has risen past its timestamp, or retention has
  expired it.  A covered event is never accepted again.
\<close>

subsection \<open>Covered events\<close>

definition covered :: "det_state \<Rightarrow> pyfloat \<Rightarrow> string \<times> pyfloat \<Rightarrow> bool" where
  "covered st now p \<longleftrightarrow>
     (\<exists>h. (fst p, h, snd p) \<in> set (ds_dedup st)) \<or> snd p \<le> ds_replay_floor st \<or> snd p \<le> cutoff_at now"

definition event_key :: "event \<Rightarrow> string \<times> pyfloat" where
  "event_key e = (ev_event_id e, epoch_seconds (ev_timestamp e))"

definition dedup_ok :: "det_state \<Rightarrow> bool" where
  "dedup_ok st \<longleftrightarrow> dict_ok (ds_dedup st)"

lemma cutoff_at_mono: "now \<le> now' \<Longrightarrow> cutoff_at now \<le> cutoff_at now'"
  by (simp add: cutoff_at_def fsub_def fl_mono)

lemma covered_later: "covered st now p \<Longrightarrow> now \<le> now' \<Longrightarrow> covered st now' p"
  using cutoff_at_mono by (fastforce simp: covered_def)

lemma covered_prune: "covered (base_state state) now p \<Longrightarrow> covered (prune state now) now p"
  by (auto simp: covered_def prune_fields)

lemma dedup_ok_prune: "dedup_ok (base_state state) \<Longrightarrow> dedup_ok (prune state now)"
  by (simp add: dedup_ok_def prune_fields)

lemma covered_ingest_event:
  assumes "ingest_event R now e st = Inr (st', new)" "dedup_ok st"
  shows "dedup_ok st'" "covered st now p \<Longrightarrow> covered st' now p"
proof -
  have "dedup_ok st' \<and> (covered st now p \<longrightarrow> covered st' now p)"
    using assms(1)
  proof (cases rule: ingest_event_cases)
    case accepted
    note d = accept_event_dedup [OF accepted(2)]
    have "ev_event_id e \<notin> fst ` set (ds_dedup st)" using accepted(1) by (simp add: map_of_eq_None_iff)
    then show ?thesis using d assms(2) by (force simp: covered_def dedup_ok_def set_update)
  qed (use assms(2) in simp)
  then show "dedup_ok st'" "covered st now p \<Longrightarrow> covered st' now p" by auto
qed

text \<open>A covered event is a duplicate or an error.\<close>

lemma covered_not_new:
  assumes "ingest_event R now e st = Inr (st', new)" "covered st now (event_key e)"
  shows "\<not> new"
proof
  assume new
  with assms(1) have "map_of (ds_dedup st) (ev_event_id e) = None"
    "ds_replay_floor st < epoch_seconds (ev_timestamp e)"
    by (auto elim: ingest_event_cases)
  moreover have "cutoff_at now < epoch_seconds (ev_timestamp e)"
    using assms(1) by (auto simp: ingest_event_def cutoff_at_def Let_def split: if_splits)
  ultimately show False
    using assms(2) by (force simp: covered_def event_key_def map_of_eq_None_iff)
qed

lemma accepted_covered:
  assumes "ingest_event R now e st = Inr (st', True)" "dedup_ok st"
  shows "covered st' now (event_key e)"
  using assms(1)
proof (cases rule: ingest_event_cases)
  case accepted
  then show ?thesis
    using accept_event_dedup [OF accepted(2)] assms(2)
    by (auto simp: covered_def event_key_def set_update dedup_ok_def)
qed auto

text \<open>The events a loop accepts, in the order in which it accepts them.\<close>

fun accepted_events :: "runtime \<Rightarrow> pyfloat \<Rightarrow> event list \<Rightarrow> det_state \<Rightarrow> event list" where
  "accepted_events R now [] st = []"
| "accepted_events R now (e # es) st =
     (case ingest_event R now e st of
        Inl err \<Rightarrow> []
      | Inr (st', new) \<Rightarrow> (if new then [e] else []) @ accepted_events R now es st')"

lemma ingest_all_covered:
  "ingest_all R now es st a d = Inr (st', a', d') \<Longrightarrow> dedup_ok st \<Longrightarrow>
   dedup_ok st' \<and> a' = a + length (accepted_events R now es st) \<and>
   (\<forall>p. covered st now p \<longrightarrow> covered st' now p) \<and>
   (\<forall>e \<in> set (accepted_events R now es st). \<not> covered st now (event_key e) \<and> covered st' now (event_key e)) \<and>
   distinct (map event_key (accepted_events R now es st))"
proof (induction es arbitrary: st a d)
  case (Cons e es)
  then obtain st1 new where i: "ingest_event R now e st = Inr (st1, new)" by (auto simp: rbind_Inr_iff)
  note ok = covered_ingest_event [OF i Cons.prems(2)]
  obtain a1 d1 where loop: "ingest_all R now es st1 a1 d1 = Inr (st', a', d')"
    and a1: "a1 = (if new then Suc a else a)"
    using Cons.prems(1) i by (auto split: if_splits)
  note IH = Cons.IH [OF loop ok(1)]
  have old: "covered st now p \<longrightarrow> covered st' now p" for p using IH ok(2) by blast
  have rest: "\<forall>e' \<in> set (accepted_events R now es st1).
      \<not> covered st now (event_key e') \<and> covered st' now (event_key e')"
    using IH ok(2) by blast
  have head: "\<not> covered st now (event_key e) \<and> covered st1 now (event_key e)" if new
    using covered_not_new [OF i] accepted_covered [OF _ Cons.prems(2)] i that by auto
  have "event_key e \<notin> event_key ` set (accepted_events R now es st1)" if new
    using head [OF that] IH by auto
  moreover have now: "covered st' now (event_key e)" if new using head [OF that] IH by blast
  moreover have "a' = a1 + length (accepted_events R now es st1)" "dedup_ok st'"
    "distinct (map event_key (accepted_events R now es st1))" using IH by blast+
  ultimately show ?case using rest head old i a1 by (cases new) simp_all
qed simp

lemma evict_dedup_covered:
  assumes "covered st now p" "dedup_ok st"
  shows "covered (evict_dedup st) now p"
proof -
  have floor: "ds_replay_floor st \<le> ds_replay_floor (evict_dedup st)"
    unfolding evict_dedup_fields by (rule foldl_max_ge)
  consider h where "(fst p, h, snd p) \<in> set (ds_dedup st)" | "snd p \<le> ds_replay_floor st" | "snd p \<le> cutoff_at now"
    using assms(1) by (auto simp: covered_def)
  then show ?thesis
  proof cases
    case 1
    show ?thesis
    proof (cases "fst p \<in> set (keys (evicted (ds_dedup st)))")
      case True
      then obtain h' t where v: "(fst p, h', t) \<in> set (evicted (ds_dedup st))" by force
      then have "(fst p, h', t) \<in> set (ds_dedup st)" using set_evicted by blast
      with 1 assms(2) have "t = snd p" by (auto simp: dedup_ok_def dest: eq_key_imp_eq_value)
      then have "snd p \<le> ds_replay_floor (evict_dedup st)"
        using foldl_max_bound [OF v] by (simp add: evict_dedup_fields)
      then show ?thesis by (simp add: covered_def)
    next
      case False
      with 1 show ?thesis by (auto simp: covered_def evict_dedup_fields)
    qed
  qed (use floor in \<open>auto simp: covered_def\<close>)
qed

lemma evict_dedup_ok: "dedup_ok st \<Longrightarrow> dedup_ok (evict_dedup st)"
  by (simp add: dedup_ok_def evict_dedup_fields)

subsection \<open>Histories\<close>

text \<open>
  The life of one tenant: calls at nondecreasing server times, each committed or rejected (a rejected
  call leaves the stored state alone), and the API's updates of the usage counter in the same document.
  \<open>seen\<close> lists every event accepted so far.
\<close>

definition accepted_by :: "runtime \<Rightarrow> tenant_state \<Rightarrow> event list \<Rightarrow> pyfloat \<Rightarrow> event list" where
  "accepted_by R state es t = accepted_events R t (sort_key event_order es) (prune state t)"

inductive history :: "runtime \<Rightarrow> (det_state \<Rightarrow> nat) \<Rightarrow> tenant_state \<Rightarrow> pyfloat \<Rightarrow> event list \<Rightarrow> bool"
  for R :: runtime and size_of :: "det_state \<Rightarrow> nat" where
  start: "history R size_of None t []"
| commit: "history R size_of state t seen \<Longrightarrow> epoch now = Inr t' \<Longrightarrow> t \<le> t' \<Longrightarrow>
     process_events R size_of state es now = Inr (st', m) \<Longrightarrow>
     history R size_of (Some st') t' (seen @ accepted_by R state es t')"
| reject: "history R size_of state t seen \<Longrightarrow> process_events R size_of state es now = Inl err \<Longrightarrow>
     history R size_of state t seen"
| usage: "history R size_of (Some st) t seen \<Longrightarrow> history R size_of (Some (st\<lparr>ds_usage := u\<rparr>)) t seen"

inductive_cases history_SomeE: "history R size_of (Some st) t seen"

lemma covered_process_events:
  assumes call: "process_events R size_of state es now = Inr (st', m)" "epoch now = Inr t"
    and ok: "dedup_ok (base_state state)"
  shows "dedup_ok st'" "mt_accepted m = length (accepted_by R state es t)"
    "covered (base_state state) t p \<Longrightarrow> covered st' t p"
    "e \<in> set (accepted_by R state es t) \<Longrightarrow> \<not> covered (base_state state) t (event_key e) \<and> covered st' t (event_key e)"
    "distinct (map event_key (accepted_by R state es t))"
proof -
  obtain st1 where loop: "ingest_all R t (sort_key event_order es) (prune state t) 0 0 = Inr (st1, mt_accepted m, mt_duplicates m)"
    and st': "st' = evict_dedup st1\<lparr>ds_accepted := ds_accepted st1 + int (mt_accepted m),
                          ds_duplicates := ds_duplicates st1 + int (mt_duplicates m)\<rparr>"
    using call by (auto elim: process_events_elim)
  have same: "covered st' t q = covered (evict_dedup st1) t q" "dedup_ok st' = dedup_ok (evict_dedup st1)" for q
    by (simp_all add: st' covered_def dedup_ok_def)
  note L = ingest_all_covered [OF loop dedup_ok_prune [OF ok], folded accepted_by_def]
  then show "dedup_ok st'" using evict_dedup_ok same by blast
  show "mt_accepted m = length (accepted_by R state es t)" using L by simp
  show "covered (base_state state) t p \<Longrightarrow> covered st' t p"
    using L covered_prune evict_dedup_covered same by blast
  show "e \<in> set (accepted_by R state es t) \<Longrightarrow> \<not> covered (base_state state) t (event_key e) \<and> covered st' t (event_key e)"
    using L covered_prune evict_dedup_covered same by blast
  show "distinct (map event_key (accepted_by R state es t))" using L by blast
qed

lemma base_state_Some [simp]: "base_state (Some st) = st" and base_state_None [simp]: "base_state None = empty_state"
  by (simp_all add: base_state_def)

lemma history_inv:
  "history R size_of state t seen \<Longrightarrow>
   dedup_ok (base_state state) \<and> (\<forall>e \<in> set seen. covered (base_state state) t (event_key e)) \<and>
   distinct (map event_key seen) \<and> ds_accepted (base_state state) = int (length seen)"
proof (induction rule: history.induct)
  case (start t)
  then show ?case by (simp add: dedup_ok_def empty_state_def)
next
  case (commit state t seen now t' es st' m)
  note C = covered_process_events [OF commit.hyps(4,2)]
  have "event_key ` set seen \<inter> event_key ` set (accepted_by R state es t') = {}"
    using C(4) commit.IH covered_later [OF _ commit.hyps(3)] by fastforce
  moreover have "\<forall>e \<in> set (seen @ accepted_by R state es t'). covered st' t' (event_key e)"
    using C(3,4) commit.IH covered_later [OF _ commit.hyps(3)] unfolding set_append by blast
  moreover have "ds_accepted st' = int (length (seen @ accepted_by R state es t'))"
    using process_events_counts(2) [OF commit.hyps(4)] C(2) commit.IH by simp
  ultimately show ?case using C(1,5) commit.IH by simp
next
  case (usage st t seen u)
  then show ?case by (simp add: dedup_ok_def covered_def)
qed simp

end
