(* ===== verification/Retry.thy ===== *)
theory Retry
  imports Replay
begin

text \<open>
  Retries and ordering: a committed batch sent again is recognised event by event and changes nothing
  but the duplicate counter, and the order in which a client lists its events is immaterial.
\<close>

subsection \<open>Recognised events\<close>

definition remembered :: "runtime \<Rightarrow> det_state \<Rightarrow> event \<Rightarrow> bool" where
  "remembered R st e \<longleftrightarrow> (\<exists>t. map_of (ds_dedup st) (ev_event_id e) = Some (event_digest R e, t))"

definition all_live :: "pyfloat \<Rightarrow> det_state \<Rightarrow> bool" where
  "all_live now st \<longleftrightarrow> (\<forall>(k, h, t) \<in> set (ds_dedup st). cutoff_at now < t)"

definition in_time :: "pyfloat \<Rightarrow> event \<Rightarrow> bool" where
  "in_time now e \<longleftrightarrow> cutoff_at now < epoch_seconds (ev_timestamp e) \<and>
     epoch_seconds (ev_timestamp e) \<le> fadd now FUTURE_SECONDS"

lemma ingest_event_in_time: "ingest_event R now e st = Inr r \<Longrightarrow> in_time now e"
  by (auto simp: ingest_event_def in_time_def cutoff_at_def Let_def split: if_splits)

lemma ingest_remembered:
  assumes "in_time now e" "remembered R st e"
  shows "ingest_event R now e st = Inr (st, False)"
  using assms by (auto simp: ingest_event_def in_time_def cutoff_at_def remembered_def Let_def)

lemma ingest_event_remembered:
  assumes "ingest_event R now e st = Inr (st', new)" "dedup_ok st" "all_live now st"
  shows "remembered R st' e" "dedup_ok st'" "all_live now st'"
    "remembered R st e' \<Longrightarrow> remembered R st' e'" "length (ds_dedup st') \<le> Suc (length (ds_dedup st))"
proof -
  have "remembered R st' e \<and> dedup_ok st' \<and> all_live now st' \<and> (remembered R st e' \<longrightarrow> remembered R st' e') \<and>
      length (ds_dedup st') \<le> Suc (length (ds_dedup st))"
    using assms(1)
  proof (cases rule: ingest_event_cases)
    case (duplicate t)
    then show ?thesis using assms(2,3) by (simp add: remembered_def)
  next
    case accepted
    have "cutoff_at now < epoch_seconds (ev_timestamp e)"
      using ingest_event_in_time [OF assms(1)] by (simp add: in_time_def)
    then show ?thesis
      using assms(2,3) accepted(1) accept_event_dedup(1) [OF accepted(2)]
      by (auto simp: remembered_def dedup_ok_def all_live_def set_update length_update)
  qed
  then show "remembered R st' e" "dedup_ok st'" "all_live now st'"
    "remembered R st e' \<Longrightarrow> remembered R st' e'" "length (ds_dedup st') \<le> Suc (length (ds_dedup st))"
    by simp_all
qed

lemma ingest_all_remembered:
  "ingest_all R now es st a d = Inr (st', a', d') \<Longrightarrow> dedup_ok st \<Longrightarrow> all_live now st \<Longrightarrow>
   (\<forall>e \<in> set es. remembered R st' e \<and> in_time now e) \<and> (\<forall>e. remembered R st e \<longrightarrow> remembered R st' e) \<and>
   dedup_ok st' \<and> all_live now st' \<and> length (ds_dedup st') \<le> length (ds_dedup st) + length es"
proof (induction es arbitrary: st a d)
  case (Cons e es)
  then obtain st1 new where i: "ingest_event R now e st = Inr (st1, new)" by (auto simp: rbind_Inr_iff)
  obtain a1 d1 where loop: "ingest_all R now es st1 a1 d1 = Inr (st', a', d')"
    using Cons.prems(1) i by (auto split: if_splits)
  note step = ingest_event_remembered [OF i Cons.prems(2,3)]
  have "remembered R st1 e' \<longrightarrow> remembered R st' e'" for e' using Cons.IH [OF loop step(2,3)] by blast
  with Cons.IH [OF loop step(2,3)] step ingest_event_in_time [OF i] show ?case
    by (auto intro: le_trans)
qed simp

lemma ingest_all_duplicates:
  "\<forall>e \<in> set es. remembered R st e \<and> in_time now e \<Longrightarrow>
   ingest_all R now es st a d = Inr (st, a, d + length es)"
  by (induction es arbitrary: d) (simp_all add: ingest_remembered)

lemma evict_dedup_id: "length (ds_dedup st) \<le> MAX_DEDUP \<Longrightarrow> evict_dedup st = st"
  by (simp add: evict_dedup_def)

lemma process_events_unfold:
  assumes "epoch now = Inr t" "1 \<le> length es" "length es \<le> 100"
    "ingest_all R t (sort_key event_order es) (prune state t) 0 0 = Inr (st, a, d)"
  shows "process_events R size_of state es now =
    (let st2 = evict_dedup st\<lparr>ds_accepted := ds_accepted st + int a, ds_duplicates := ds_duplicates st + int d\<rparr>
     in if MAX_STATE_BYTES < size_of st2 then Inl (DetectionError ''state_capacity_exceeded'')
        else Inr (st2, \<lparr>mt_accepted = a, mt_duplicates = d\<rparr>))"
  using assms by (simp add: process_events_def evict_dedup_fields)

lemma remembered_prune:
  assumes "remembered R st e" "all_live now st"
  shows "remembered R (prune (Some st) now) e"
proof -
  have "filter (\<lambda>(k, h, t). cutoff_at now < t) (ds_dedup st) = ds_dedup st"
    using assms(2) by (auto simp: all_live_def)
  then show ?thesis using assms(1) by (simp add: remembered_def prune_fields)
qed

lemma prune_dedup_facts:
  assumes "dedup_ok (base_state state)"
  shows "dedup_ok (prune state now)" "all_live now (prune state now)"
    "length (ds_dedup (prune state now)) \<le> length (ds_dedup (base_state state))"
  using assms by (auto simp: dedup_ok_def all_live_def prune_fields)

lemma retry_all_duplicates:
  assumes call: "process_events R size_of state es now = Inr (st', m)" "epoch now = Inr t"
    and ok: "dedup_ok (base_state state)" and room: "length (ds_dedup (base_state state)) + length es \<le> MAX_DEDUP"
  shows "ingest_all R t (sort_key event_order es) (prune (Some st') t) 0 0 =
    Inr (prune (Some st') t, 0, length es)"
    "length (ds_dedup (prune (Some st') t)) \<le> MAX_DEDUP" "1 \<le> length es" "length es \<le> 100"
proof -
  obtain st1 where loop: "ingest_all R t (sort_key event_order es) (prune state t) 0 0 = Inr (st1, mt_accepted m, mt_duplicates m)"
    and len: "1 \<le> length es" "length es \<le> 100"
    and st': "st' = evict_dedup st1\<lparr>ds_accepted := ds_accepted st1 + int (mt_accepted m),
                          ds_duplicates := ds_duplicates st1 + int (mt_duplicates m)\<rparr>"
    using call by (auto elim: process_events_elim)
  note P = prune_dedup_facts [OF ok, of t]
  note L = ingest_all_remembered [OF loop P(1,2)]
  have small: "length (ds_dedup st1) \<le> MAX_DEDUP" using L P(3) room by simp
  then have d: "ds_dedup st' = ds_dedup st1" by (simp add: st' evict_dedup_id)
  then have "\<forall>e \<in> set es. remembered R st' e" "all_live t st'"
    using L by (simp_all add: remembered_def all_live_def)
  then have "\<forall>e \<in> set (sort_key event_order es). remembered R (prune (Some st') t) e \<and> in_time t e"
    using L remembered_prune by simp
  from ingest_all_duplicates [OF this]
  show "ingest_all R t (sort_key event_order es) (prune (Some st') t) 0 0 = Inr (prune (Some st') t, 0, length es)"
    by simp
  show "length (ds_dedup (prune (Some st') t)) \<le> MAX_DEDUP"
    using small d by (auto simp: prune_fields intro: le_trans [OF length_filter_le])
qed (use call in \<open>auto elim: process_events_elim\<close>)

lemma retry_state:
  "prune (Some st) t\<lparr>ds_accepted := ds_accepted st, ds_duplicates := d\<rparr> = prune (Some st) t\<lparr>ds_duplicates := d\<rparr>"
  by (rule det_state.equality) (simp_all add: prune_fields)

subsection \<open>Order\<close>

lemma process_events_permutation:
  assumes "mset es = mset es'" "inj_on event_order (set es)"
  shows "process_events R size_of state es now = process_events R size_of state es' now"
proof -
  have "sort_key event_order es = sort_key event_order es'"
    using assms by (intro sort_key_inj_key_eq) simp_all
  then show ?thesis using mset_eq_length [OF assms(1)] by (simp add: process_events_def)
qed

end
