(* ===== verification/Lifecycle.thy ===== *)
theory Lifecycle
  imports Retry
begin

text \<open>
  The life cycle of an incident: opened once, refreshed while open, closed once (by
  recovery or by the expiry of its baseline) and never rewritten afterwards; open incidents leave the
  history only by retention.
\<close>

definition evolves :: "incident \<Rightarrow> incident \<Rightarrow> bool" where
  "evolves x y \<longleftrightarrow>
     in_id y = in_id x \<and> in_stream_id y = in_stream_id x \<and> in_opened_at y = in_opened_at x \<and>
     in_synthetic y = in_synthetic x \<and> in_baseline y = in_baseline x \<and>
     set (keys (in_signals x)) \<subseteq> set (keys (in_signals y)) \<and> (in_status x \<noteq> Open \<longrightarrow> y = x)"

lemma evolves_refl [simp]: "evolves x x"
  by (simp add: evolves_def)

lemma evolves_trans: "evolves x y \<Longrightarrow> evolves y z \<Longrightarrow> evolves x z"
  by (auto simp: evolves_def)

lemma evolves_refreshed: "in_status x = Open \<Longrightarrow> evolves x (refreshed x sg c)"
  unfolding evolves_def refreshed_fields keys_dict_merge by (auto simp: refreshed_def)

lemma evolves_closed: "evolves x y \<Longrightarrow> in_status x = Open \<Longrightarrow> evolves x (recovered_at t y)"
  unfolding evolves_def by (auto simp: recovered_at_def)

subsection \<open>Retention\<close>

lemma expiring_open:
  assumes inv: "core_inv st" and x: "x \<in> set (ds_incidents st)"
    and h: "hit c incs (ds_streams st) x"
  shows "in_status x = Open"
  using hitD [OF h] core_inv_owner [OF inv _ _ x] by (auto simp: owns_def)

lemma prune_evolves:
  assumes inv: "core_inv st"
  shows "y \<in> set (ds_incidents (prune (Some st) now)) \<Longrightarrow> \<exists>x \<in> set (ds_incidents st). evolves x y"
    "x \<in> set (ds_incidents st) \<Longrightarrow> cutoff_at now < in_opened_at x \<Longrightarrow>
     \<exists>y \<in> set (ds_incidents (prune (Some st) now)). evolves x y"
proof -
  let ?c = "cutoff_at now"
  let ?incs = "newer ?c (ds_incidents st)"
  have incs: "ds_incidents (prune (Some st) now) = fst (prune_streams ?c ?incs (ds_streams st))"
    by (simp add: prune_fields live_incidents_def newer_def)
  note rel = pruned_incidents_rel [OF inv, of ?c]
  have step: "evolves x y" if "x \<in> set (ds_incidents st)" "expired_or_same (hit ?c ?incs (ds_streams st) x) x y" for x y
    using that expiring_open [OF inv that(1)]
    by (auto simp: expired_or_same_def same_core_def evolves_def split: if_splits)
  show "\<exists>x \<in> set (ds_incidents st). evolves x y" if y: "y \<in> set (ds_incidents (prune (Some st) now))"
    using list_all2_set2 [OF rel y [unfolded incs]] step newer_facts(3) [OF inv] by blast
  show "\<exists>y \<in> set (ds_incidents (prune (Some st) now)). evolves x y"
    if x: "x \<in> set (ds_incidents st)" "?c < in_opened_at x"
    using list_all2_set1 [OF rel, of x] step [OF x(1)] x newer_facts(3) [OF inv] unfolding incs by blast
qed

subsection \<open>One event\<close>

lemma active_open:
  assumes inv: "core_inv st" and rd: "ready (ds_streams st) k s" and act: "sr_active s = Some i"
    and x: "find (\<lambda>x. in_id x = i) (ds_incidents st) = Some x"
  shows "x \<in> set (ds_incidents st)" "in_id x = i" "in_status x = Open"
proof -
  show xin: "x \<in> set (ds_incidents st)" "in_id x = i"
    using x core_invD(4) [OF inv] by (auto simp: distinct_find_iff)
  obtain s0 where "map_of (ds_streams st) k = Some s0" "sr_active s0 = Some i"
    using rd act by (auto simp: ready_def split: option.splits)
  then show "in_status x = Open"
    using core_inv_owner [OF inv map_of_SomeD _ xin(1)] xin(2) by (simp add: owns_def)
qed

lemma evaluate_evolves:
  assumes inv: "core_inv st" and rd: "ready (ds_streams st) k s"
    and ev: "evaluate R (ds_incidents st) k s e = Inr (incs', s')"
  shows "y \<in> set incs' \<Longrightarrow> (\<exists>x \<in> set (ds_incidents st). evolves x y) \<or>
           in_id y = onset_id R k (ev_event_id e) \<and> in_status y = Open"
    "x \<in> set (ds_incidents st) \<Longrightarrow> in_status x = Open \<Longrightarrow> \<exists>y \<in> set incs'. evolves x y"
proof -
  note dist = core_invD(4) [OF inv]
  have "(\<forall>y \<in> set incs'. (\<exists>x \<in> set (ds_incidents st). evolves x y) \<or>
           in_id y = onset_id R k (ev_event_id e) \<and> in_status y = Open) \<and>
        (\<forall>x \<in> set (ds_incidents st). in_status x = Open \<longrightarrow> (\<exists>y \<in> set incs'. evolves x y))"
    using ev
  proof (cases rule: evaluate_cases)
    case quiet
    then show ?thesis using evolves_refl by blast
  next
    case (opened x)
    then show ?thesis
      unfolding opened(2) using make_room_facts [OF dist] evolves_refl by fastforce
  next
    case (updated i x)
    note x = active_open [OF inv rd updated(1,2)]
    let ?y = "refreshed x (window_signals (sr_baseline s) (sr_current s)) (sr_current s)"
    have "set incs' = insert ?y {z \<in> set (ds_incidents st). in_id z \<noteq> i}"
      unfolding updated(4) by (rule set_update_found [OF dist updated(2)])
    moreover have "evolves x ?y" by (rule evolves_refreshed [OF x(3)])
    moreover have "z = x" if "z \<in> set (ds_incidents st)" "in_id z = i" for z
      using distinct_id_eq [OF dist that(1) x(1)] that(2) x(2) by simp
    ultimately show ?thesis using x(1) evolves_refl by (metis (mono_tags, lifting) insert_iff mem_Collect_eq)
  next
    case (resolved i x)
    note x = active_open [OF inv rd resolved(1,2)]
    let ?y = "recovered_at (epoch_seconds (ev_timestamp e)) (refreshed x [] (sr_current s))"
    have "set incs' = insert ?y {z \<in> set (ds_incidents st). in_id z \<noteq> i}"
      unfolding resolved(6) by (rule set_update_found [OF dist resolved(2)])
    moreover have "evolves x ?y" by (rule evolves_closed [OF evolves_refreshed [OF x(3)] x(3)])
    moreover have "z = x" if "z \<in> set (ds_incidents st)" "in_id z = i" for z
      using distinct_id_eq [OF dist that(1) x(1)] that(2) x(2) by simp
    ultimately show ?thesis using x(1) evolves_refl by (metis (mono_tags, lifting) insert_iff mem_Collect_eq)
  qed
  then show "y \<in> set incs' \<Longrightarrow> (\<exists>x \<in> set (ds_incidents st). evolves x y) \<or>
           in_id y = onset_id R k (ev_event_id e) \<and> in_status y = Open"
    "x \<in> set (ds_incidents st) \<Longrightarrow> in_status x = Open \<Longrightarrow> \<exists>y \<in> set incs'. evolves x y"
    by blast+
qed

lemma accept_event_evolves:
  assumes inv: "core_inv st" and acc: "accept_event R e st = Inr st'"
  shows "y \<in> set (ds_incidents st') \<Longrightarrow> (\<exists>x \<in> set (ds_incidents st). evolves x y) \<or>
           in_id y = onset R e \<and> in_status y = Open"
    "x \<in> set (ds_incidents st) \<Longrightarrow> in_status x = Open \<Longrightarrow> \<exists>y \<in> set (ds_incidents st'). evolves x y"
proof -
  obtain s0 s1 incs s2 where 1: "open_stream (event_stream R e) e (ds_streams st) = Inr s0"
    "sr_last_timestamp s0 \<le> epoch_seconds (ev_timestamp e)" "admit_version R e s0 = Inr s1"
    "evaluate R (ds_incidents st) (event_stream R e) (push_sample (sample_of R e) s1) e = Inr (incs, s2)"
    "ds_incidents st' = incs"
    using acc by (auto elim: accept_event_elim)
  note E = evaluate_evolves [OF inv ready_pushed [OF inv 1(1-3)] 1(4)]
  show "y \<in> set (ds_incidents st') \<Longrightarrow> (\<exists>x \<in> set (ds_incidents st). evolves x y) \<or>
           in_id y = onset R e \<and> in_status y = Open"
    using E(1) 1(5) by (simp add: onset_def)
  show "x \<in> set (ds_incidents st) \<Longrightarrow> in_status x = Open \<Longrightarrow> \<exists>y \<in> set (ds_incidents st'). evolves x y"
    using E(2) 1(5) by simp
qed

subsection \<open>A batch\<close>

definition new_onsets :: "runtime \<Rightarrow> det_state \<Rightarrow> event list \<Rightarrow> string set" where
  "new_onsets R st es = onset R ` {e \<in> set es. ev_event_id e \<notin> set (keys (ds_dedup st))}"

lemma ingest_event_evolves:
  assumes inv: "core_inv st" and i: "ingest_event R now e st = Inr (st', new)"
    and y: "y \<in> set (ds_incidents st')"
  shows "(\<exists>x \<in> set (ds_incidents st). evolves x y) \<or> in_id y \<in> new_onsets R st (e # es)"
  using i
proof (cases rule: ingest_event_cases)
  case duplicate
  then show ?thesis using y evolves_refl by blast
next
  case accepted
  then show ?thesis
    using accept_event_evolves(1) [OF inv accepted(2) y] by (auto simp: new_onsets_def map_of_eq_None_iff)
qed

lemma new_onsets_step:
  assumes "ingest_event R now e st = Inr (st', new)"
  shows "new_onsets R st' es \<subseteq> new_onsets R st (e # es)"
  using assms by (cases rule: ingest_event_cases) (auto simp: new_onsets_def dest: accept_event_dedup)

lemma ingest_all_evolves:
  "core_inv st \<Longrightarrow> fresh_batch R st es \<Longrightarrow> ingest_all R now es st a d = Inr (st', a', d') \<Longrightarrow>
   y \<in> set (ds_incidents st') \<Longrightarrow>
   (\<exists>x \<in> set (ds_incidents st). evolves x y) \<or> in_id y \<in> new_onsets R st es"
proof (induction es arbitrary: st a d)
  case Nil
  then have "y \<in> set (ds_incidents st)" by simp
  then show ?case using evolves_refl by blast
next
  case (Cons e es)
  then obtain st1 new where i: "ingest_event R now e st = Inr (st1, new)" by (auto simp: rbind_Inr_iff)
  obtain a1 d1 where loop: "ingest_all R now es st1 a1 d1 = Inr (st', a', d')"
    using Cons.prems(3) i by (auto split: if_splits)
  note step = ingest_event_core_inv [OF Cons.prems(1) i Cons.prems(2)] fresh_batch_step [OF Cons.prems(2) i]
  consider x1 where "x1 \<in> set (ds_incidents st1)" "evolves x1 y" | "in_id y \<in> new_onsets R st1 es"
    using Cons.IH [OF step loop Cons.prems(4)] by blast
  then show ?case
  proof cases
    case 1
    have "in_id x1 = in_id y" using 1(2) by (simp add: evolves_def)
    then show ?thesis
      using ingest_event_evolves [OF Cons.prems(1) i 1(1), of es] evolves_trans [OF _ 1(2)] by auto
  next
    case 2
    then show ?thesis using new_onsets_step [OF i] by blast
  qed
qed

lemma process_events_evolves:
  assumes inv: "tenant_inv (Some st)" and now: "epoch now = Inr t" and fresh: "fresh_batch R (prune (Some st) t) es"
    and call: "process_events R size_of (Some st) es now = Inr (st', m)"
    and x: "x \<in> set (ds_incidents st)" "cutoff_at t < in_opened_at x"
    and y: "y \<in> set (ds_incidents st')" "in_id y = in_id x"
  shows "evolves x y"
proof -
  let ?p = "prune (Some st) t"
  obtain st1 where loop: "ingest_all R t (sort_key event_order es) ?p 0 0 = Inr (st1, mt_accepted m, mt_duplicates m)"
    and st': "st' = evict_dedup st1\<lparr>ds_accepted := ds_accepted st1 + int (mt_accepted m),
                          ds_duplicates := ds_duplicates st1 + int (mt_duplicates m)\<rparr>"
    using call now by (auto elim: process_events_elim)
  have core: "core_inv st" "core_inv ?p"
    using inv prune_det_inv [OF inv, of t] by (simp_all add: tenant_inv_def det_inv_def)
  obtain z where z: "z \<in> set (ds_incidents ?p)" "evolves x z" using prune_evolves(2) [OF core(1) x] by blast
  have same: "in_id z = in_id y" using z(2) y(2) by (simp add: evolves_def)
  have "y \<in> set (ds_incidents st1)" using y(1) by (simp add: st' evict_dedup_fields)
  then consider w where "w \<in> set (ds_incidents ?p)" "evolves w y" | "in_id y \<in> new_onsets R ?p (sort_key event_order es)"
    using ingest_all_evolves [OF core(2) _ loop] fresh by (auto simp: fresh_batch_sort)
  then show ?thesis
  proof cases
    case 1
    then have "w = z" using distinct_id_eq [OF core_invD(4) [OF core(2)] 1(1) z(1)] same by (simp add: evolves_def)
    with 1 z show ?thesis using evolves_trans by blast
  next
    case 2
    then obtain e where "e \<in> set es" "ev_event_id e \<notin> set (keys (ds_dedup ?p))" "in_id y = onset R e"
      by (auto simp: new_onsets_def)
    then have "in_id y \<notin> in_id ` set (ds_incidents ?p)" using fresh_batchD(1) [OF fresh] by metis
    with z(1) same show ?thesis by (metis imageI)
  qed
qed

end
