(* ===== verification/Summary.thy ===== *)
theory Summary
  imports Lifecycle
begin

text \<open>
  The read side: failure fingerprints of the current window and the tenant summary
  (\<open>_fingerprints\<close>, \<open>summarize\<close>), which never raises on a well-formed state and shows only live data.
\<close>

subsection \<open>Fingerprints\<close>

record fingerprint =
  fp_fingerprint :: string
  fp_count :: nat
  fp_failure_type :: "failure_type option"

definition row_fingerprint :: "runtime \<Rightarrow> operation \<Rightarrow> (string, string) dict \<Rightarrow> sample \<Rightarrow> string" where
  "row_fingerprint R op metadata r = canonical_hash R (JObj
     ([(''fingerprint_version'', JStr ''1.0''), (''operation'', JStr (operation_name op)),
       (''failure_type'', json_opt (\<lambda>t. JStr (failure_name t)) (sm_failure r))]
      @ concat (map (\<lambda>f. case map_of metadata (version_name f) of
                           None \<Rightarrow> [] | Some v \<Rightarrow> [(version_name f, JStr v)]) PUBLIC_COMPONENT_FIELDS)))"

definition bump :: "'a \<Rightarrow> ('a, nat) dict \<Rightarrow> ('a, nat) dict" where
  "bump k d = AList.update k (case map_of d k of None \<Rightarrow> 1 | Some c \<Rightarrow> Suc c) d"

text \<open>The loop over the current window; \<open>stream["versions"][row[VERSION]]\<close> may raise \<open>KeyError\<close>.\<close>

fun count_fingerprints ::
    "runtime \<Rightarrow> stream \<Rightarrow> sample list \<Rightarrow> (string, nat) dict \<Rightarrow> (string, failure_type option) dict \<Rightarrow>
     det_error + (string, nat) dict \<times> (string, failure_type option) dict" where
  "count_fingerprints R s [] counts classes = Inr (counts, classes)"
| "count_fingerprints R s (r # rows) counts classes =
     (if sm_failed r = 0 then count_fingerprints R s rows counts classes
      else case map_of (sr_versions s) (sm_version r) of
             None \<Rightarrow> Inl KeyError
           | Some metadata \<Rightarrow>
               let v = row_fingerprint R (dm_operation (sr_dimensions s)) metadata r
               in count_fingerprints R s rows (bump v counts) (AList.update v (sm_failure r) classes))"

definition fingerprints :: "runtime \<Rightarrow> stream \<Rightarrow> det_error + fingerprint list" where
  "fingerprints R s =
     rbind (count_fingerprints R s (sr_current s) [] []) (\<lambda>(counts, classes).
       Inr (map (\<lambda>(k, c). \<lparr>fp_fingerprint = k, fp_count = c,
                           fp_failure_type = (case map_of classes k of None \<Rightarrow> None | Some t \<Rightarrow> t)\<rparr>)
              (take 16 (sort_key (\<lambda>(k, c). (- int c, k)) counts))))"

subsection \<open>The summary\<close>

datatype view_status = Degraded | Warming | Observed

record stream_view =
  sv_stream_id :: string
  sv_dimensions :: dimensions
  sv_status :: view_status
  sv_warmup :: bool
  sv_baseline :: stats
  sv_current :: stats
  sv_active :: "string option"
  sv_versions :: "(string, (string, string) dict) dict"
  sv_fingerprints :: "fingerprint list"

record summary =
  sy_accepted :: int
  sy_duplicates :: int
  sy_streams :: "stream_view list"
  sy_incidents :: "incident list"
  sy_limits :: "(string, nat) dict"

definition view_stream :: "runtime \<Rightarrow> string \<Rightarrow> stream \<Rightarrow> det_error + stream_view" where
  "view_stream R k s =
     (let warmup = length (sr_baseline s) < WINDOW \<or> length (sr_current s) < WINDOW
      in rbind (fingerprints R s) (\<lambda>fps.
         Inr \<lparr>sv_stream_id = k, sv_dimensions = sr_dimensions s,
              sv_status = (if sr_active s \<noteq> None then Degraded else if warmup then Warming else Observed),
              sv_warmup = warmup, sv_baseline = window_stats (sr_baseline s),
              sv_current = window_stats (sr_current s), sv_active = sr_active s,
              sv_versions = sr_versions s, sv_fingerprints = fps\<rparr>))"

fun view_streams :: "runtime \<Rightarrow> (string, stream) dict \<Rightarrow> det_error + stream_view list" where
  "view_streams R [] = Inr []"
| "view_streams R ((k, s) # rest) =
     rbind (view_stream R k s) (\<lambda>v. rbind (view_streams R rest) (\<lambda>vs. Inr (v # vs)))"

definition summary_limits :: "(string, nat) dict" where
  "summary_limits =
     [(''streams'', MAX_STREAMS), (''window_samples'', WINDOW), (''versions_per_stream'', MAX_VERSIONS),
      (''dedup_entries'', MAX_DEDUP), (''incident_history'', MAX_INCIDENTS),
      (''retention_seconds'', nat \<lfloor>RETENTION_SECONDS\<rfloor>), (''max_state_bytes'', MAX_STATE_BYTES)]"

definition summarize :: "runtime \<Rightarrow> tenant_state \<Rightarrow> pydatetime \<Rightarrow> det_error + summary" where
  "summarize R state now =
     rbind (epoch now) (\<lambda>t.
       let view = prune state t
       in rbind (view_streams R (sort_key fst (ds_streams view))) (\<lambda>vs.
          Inr \<lparr>sy_accepted = ds_accepted view, sy_duplicates = ds_duplicates view, sy_streams = vs,
               sy_incidents = ds_incidents view, sy_limits = summary_limits\<rparr>))"

subsection \<open>Counting\<close>

lemma sum_bump: "sum_list (map snd (bump k d)) = Suc (sum_list (map snd d))"
  unfolding bump_def by (induction d) auto

lemma bump_positive: "\<forall>(k, c) \<in> set d. 0 < c \<Longrightarrow> dict_ok d \<Longrightarrow> \<forall>(k, c) \<in> set (bump v d). 0 < c"
  by (auto simp: bump_def set_update split: option.splits)

definition failed_rows :: "sample list \<Rightarrow> nat" where
  "failed_rows rows = length (filter (\<lambda>r. sm_failed r \<noteq> 0) rows)"

lemma failed_rows_simps [simp]:
  "failed_rows [] = 0"
  "failed_rows (r # rows) = (if sm_failed r = 0 then 0 else 1) + failed_rows rows"
  by (simp_all add: failed_rows_def)

lemma count_fingerprints_inv:
  "count_fingerprints R s rows counts classes = Inr (counts', classes') \<Longrightarrow>
   dict_ok counts \<Longrightarrow> \<forall>(k, c) \<in> set counts. 0 < c \<Longrightarrow> set (keys counts) \<subseteq> set (keys classes) \<Longrightarrow>
   dict_ok counts' \<and> (\<forall>(k, c) \<in> set counts'. 0 < c) \<and> set (keys counts') \<subseteq> set (keys classes') \<and>
   sum_list (map snd counts') = sum_list (map snd counts) + failed_rows rows"
proof (induction rows arbitrary: counts classes)
  case (Cons r rows)
  show ?case
  proof (cases "sm_failed r = 0")
    case True
    with Cons.prems Cons.IH [of counts classes] show ?thesis by simp
  next
    case False
    then obtain metadata where m: "map_of (sr_versions s) (sm_version r) = Some metadata"
      using Cons.prems(1) by (auto split: option.splits)
    let ?v = "row_fingerprint R (dm_operation (sr_dimensions s)) metadata r"
    let ?cl = "AList.update ?v (sm_failure r) classes"
    have "count_fingerprints R s rows (bump ?v counts) ?cl = Inr (counts', classes')"
      using Cons.prems(1) False m by (simp add: Let_def)
    moreover have "dict_ok (bump ?v counts)" using Cons.prems(2) by (simp add: bump_def)
    moreover have "\<forall>(k, c) \<in> set (bump ?v counts). 0 < c" using Cons.prems by (intro bump_positive)
    moreover have "set (keys (bump ?v counts)) \<subseteq> set (keys ?cl)" using Cons.prems(4) by (auto simp: bump_def)
    ultimately show ?thesis using Cons.IH [of "bump ?v counts" ?cl] False by (simp add: sum_bump)
  qed
qed simp

lemma count_fingerprints_total:
  "set (map sm_version rows) \<subseteq> set (keys (sr_versions s)) \<Longrightarrow>
   \<exists>p. count_fingerprints R s rows counts classes = Inr p"
proof (induction rows arbitrary: counts classes)
  case (Cons r rows)
  then have "map_of (sr_versions s) (sm_version r) \<noteq> None" by (simp add: map_of_eq_None_iff)
  with Cons show ?case by (auto simp: Let_def)
qed simp

lemma fingerprints_elim:
  assumes "fingerprints R s = Inr fps"
  obtains counts classes where "count_fingerprints R s (sr_current s) [] [] = Inr (counts, classes)"
    "map (\<lambda>f. (fp_fingerprint f, fp_count f)) fps = take 16 (sort_key (\<lambda>(k, c). (- int c, k)) counts)"
  using assms by (auto simp: fingerprints_def rbind_Inr_iff o_def split_def)

lemma sum_list_take_le: "sum_list (take n xs) \<le> sum_list (xs :: nat list)"
proof -
  have "sum_list xs = sum_list (take n xs) + sum_list (drop n xs)"
    by (metis append_take_drop_id sum_list_append)
  then show ?thesis by simp
qed

lemma sum_list_sort: "sum_list (map f (sort_key g xs)) = sum_list (map (f :: 'a \<Rightarrow> nat) xs)"
  by (metis mset_map mset_sort sum_mset_sum_list)

lemma fingerprints_facts:
  assumes "fingerprints R s = Inr fps"
  shows "length fps \<le> 16" "\<forall>f \<in> set fps. 0 < fp_count f" "distinct (map fp_fingerprint fps)"
    "sorted (map (\<lambda>f. - int (fp_count f)) fps)"
    "sum_list (map fp_count fps) \<le> failed_rows (sr_current s)"
    "length fps < 16 \<Longrightarrow> sum_list (map fp_count fps) = failed_rows (sr_current s)"
proof -
  obtain counts classes where c: "count_fingerprints R s (sr_current s) [] [] = Inr (counts, classes)"
    and fps: "map (\<lambda>f. (fp_fingerprint f, fp_count f)) fps = take 16 (sort_key (\<lambda>(k, c). (- int c, k)) counts)"
    using assms by (rule fingerprints_elim)
  let ?sorted = "sort_key (\<lambda>(k, c). (- int c, k)) counts"
  note inv = count_fingerprints_inv [OF c, simplified]
  have len: "length fps = length (take 16 ?sorted)" using arg_cong [OF fps, of length] by simp
  then show "length fps \<le> 16" by simp
  have names: "map fp_fingerprint fps = take 16 (map fst ?sorted)"
    using arg_cong [OF fps, of "map fst"] by (simp add: o_def take_map)
  have nums: "map fp_count fps = take 16 (map snd ?sorted)"
    using arg_cong [OF fps, of "map snd"] by (simp add: o_def take_map)
  have "set (map fp_count fps) \<subseteq> snd ` set counts"
    using set_take_subset [of 16 "map snd ?sorted"] unfolding nums by simp
  with inv show "\<forall>f \<in> set fps. 0 < fp_count f" by fastforce
  have "distinct (map fst ?sorted)"
    using inv by (metis mset_eq_imp_distinct_iff mset_map mset_sort)
  then show "distinct (map fp_fingerprint fps)" by (simp add: names)
  have "sorted (map (\<lambda>(k, c). (- int c, k)) ?sorted)" by simp
  then have "sorted_wrt (\<lambda>p q. - int (snd p) \<le> - int (snd q)) ?sorted"
    unfolding sorted_map by (rule sorted_wrt_mono_rel [rotated]) (auto simp: less_eq_prod_def)
  then have "sorted (map (\<lambda>c. - int c) (map snd ?sorted))" by (simp add: sorted_map sorted_wrt_map)
  then have "sorted (take 16 (map (\<lambda>c. - int c) (map snd ?sorted)))" by (rule sorted_wrt_take)
  moreover have "map (\<lambda>f. - int (fp_count f)) fps = take 16 (map (\<lambda>c. - int c) (map snd ?sorted))"
    using arg_cong [OF nums, of "map (\<lambda>c. - int c)"] by (simp add: o_def take_map)
  ultimately show "sorted (map (\<lambda>f. - int (fp_count f)) fps)" by simp
  have total: "sum_list (map snd ?sorted) = failed_rows (sr_current s)"
    using inv by (simp add: sum_list_sort)
  then show "sum_list (map fp_count fps) \<le> failed_rows (sr_current s)"
    unfolding nums using sum_list_take_le by metis
  show "sum_list (map fp_count fps) = failed_rows (sr_current s)" if "length fps < 16"
    unfolding nums using that len total by simp
qed

subsection \<open>Views of a well-formed state\<close>

lemma fingerprints_total:
  assumes "stream_ok s"
  shows "\<exists>fps. fingerprints R s = Inr fps"
proof -
  have "set (map sm_version (sr_current s)) \<subseteq> set (keys (sr_versions s))"
    using assms by (auto simp: stream_ok_def used_versions_def)
  then obtain p where "count_fingerprints R s (sr_current s) [] [] = Inr p"
    using count_fingerprints_total by blast
  then show ?thesis by (cases p) (simp add: fingerprints_def)
qed

lemma view_stream_total: "stream_ok s \<Longrightarrow> \<exists>v. view_stream R k s = Inr v"
  using fingerprints_total [of s R] by (auto simp: view_stream_def Let_def)

lemma view_streams_total: "\<forall>(k, s) \<in> set streams. stream_ok s \<Longrightarrow> \<exists>vs. view_streams R streams = Inr vs"
proof (induction streams)
  case (Cons p streams)
  obtain k s where "p = (k, s)" by (cases p)
  with Cons view_stream_total [of s R k] show ?case by auto
qed simp

lemma view_streams_all2:
  "view_streams R streams = Inr vs \<Longrightarrow> list_all2 (\<lambda>(k, s) v. view_stream R k s = Inr v) streams vs"
proof (induction streams arbitrary: vs)
  case (Cons p streams)
  then show ?case by (cases p) (auto simp: rbind_Inr_iff)
qed simp

lemma view_stream_fields:
  assumes "view_stream R k s = Inr v"
  shows "sv_stream_id v = k" "sv_active v = sr_active s" "sv_status v = Degraded \<longleftrightarrow> sr_active s \<noteq> None"
    "sv_baseline v = window_stats (sr_baseline s)" "sv_current v = window_stats (sr_current s)"
    "fingerprints R s = Inr (sv_fingerprints v)" "sv_versions v = sr_versions s"
  using assms by (auto simp: view_stream_def Let_def rbind_Inr_iff split: if_splits)

lemma summarize_elim:
  assumes "summarize R state now = Inr v"
  obtains t where "epoch now = Inr t"
    "list_all2 (\<lambda>(k, s) w. view_stream R k s = Inr w) (sort_key fst (ds_streams (prune state t))) (sy_streams v)"
    "sy_incidents v = ds_incidents (prune state t)" "sy_accepted v = ds_accepted (base_state state)"
    "sy_duplicates v = ds_duplicates (base_state state)"
  using assms by (auto simp: summarize_def Let_def rbind_Inr_iff prune_fields dest: view_streams_all2)

lemma summary_stream:
  assumes "summarize R state now = Inr v" "epoch now = Inr t" "w \<in> set (sy_streams v)"
  obtains k s where "(k, s) \<in> set (ds_streams (prune state t))" "view_stream R k s = Inr w"
proof -
  have "list_all2 (\<lambda>(k, s) w. view_stream R k s = Inr w) (sort_key fst (ds_streams (prune state t))) (sy_streams v)"
    using assms(1,2) by (auto elim: summarize_elim)
  from list_all2_set2 [OF this assms(3)] that show thesis by auto
qed

lemma summarize_total:
  assumes "tenant_inv state" "epoch now = Inr t"
  shows "\<exists>v. summarize R state now = Inr v"
proof -
  have "core_inv (prune state t)" using prune_det_inv [OF assms(1)] by (simp add: det_inv_def)
  then have "\<forall>(k, s) \<in> set (sort_key fst (ds_streams (prune state t))). stream_ok s"
    by (auto dest: core_invD(6))
  with view_streams_total [OF this, of R] assms(2) show ?thesis
    by (auto simp: summarize_def Let_def)
qed

lemma summarize_after_prune:
  "epoch now = Inr t \<Longrightarrow> summarize R (Some (prune state t)) now = summarize R state now"
  by (simp add: summarize_def prune_idem)

lemma summary_degraded:
  assumes inv: "tenant_inv state" and v: "summarize R state now = Inr v" and w: "w \<in> set (sy_streams v)"
  shows "sv_status w = Degraded \<longleftrightarrow>
    (\<exists>x \<in> set (sy_incidents v). in_status x = Open \<and> in_stream_id x = sv_stream_id w)"
proof -
  obtain t where t: "epoch now = Inr t" "sy_incidents v = ds_incidents (prune state t)"
    using v by (auto elim: summarize_elim)
  let ?p = "prune state t"
  have core: "core_inv ?p" using prune_det_inv [OF inv] by (simp add: det_inv_def)
  obtain k s where s: "(k, s) \<in> set (ds_streams ?p)" "view_stream R k s = Inr w"
    using summary_stream [OF v t(1) w] by blast
  note f = view_stream_fields [OF s(2)]
  have "\<exists>x \<in> set (ds_incidents ?p). in_status x = Open \<and> in_stream_id x = k" if "sr_active s \<noteq> None"
    using core_invD(7) [OF core s(1)] that by (auto simp: link_ok_def owns_def)
  moreover have "sr_active s \<noteq> None" if x: "x \<in> set (ds_incidents ?p)" "in_status x = Open" "in_stream_id x = k" for x
  proof -
    obtain s' where "(k, s') \<in> set (ds_streams ?p)" "sr_active s' = Some (in_id x)"
      using core_invD(8) [OF core x(1)] x by (auto simp: open_ok_def)
    moreover from this s(1) core_invD(1) [OF core] have "s' = s" by (auto dest: eq_key_imp_eq_value)
    ultimately show ?thesis by simp
  qed
  ultimately show ?thesis unfolding f(1,3) t(2) by blast
qed

text \<open>The numbers of failures in the window statistics and in the fingerprints agree.\<close>

lemma failed_rows_sum:
  "\<forall>r \<in> set rows. sm_failed r \<in> {0, 1} \<Longrightarrow> int (failed_rows rows) = sum_list (map sm_failed rows)"
  by (induction rows) auto

lemma summary_fingerprints:
  assumes inv: "tenant_inv state" and v: "summarize R state now = Inr v" and w: "w \<in> set (sy_streams v)"
  shows "length (sv_fingerprints w) \<le> 16"
    "int (sum_list (map fp_count (sv_fingerprints w))) \<le> st_failures (sv_current w)"
    "length (sv_fingerprints w) < 16 \<Longrightarrow>
     int (sum_list (map fp_count (sv_fingerprints w))) = st_failures (sv_current w)"
proof -
  obtain t where t: "epoch now = Inr t" using v by (auto elim: summarize_elim)
  obtain k s where s: "(k, s) \<in> set (ds_streams (prune state t))" "view_stream R k s = Inr w"
    using summary_stream [OF v t w] by blast
  have "stream_ok s" using prune_det_inv [OF inv, of t] s(1) by (auto simp: det_inv_def dest: core_invD(6))
  then have "int (failed_rows (sr_current s)) = st_failures (sv_current w)"
    using view_stream_fields(5) [OF s(2)] failed_rows_sum [of "sr_current s"]
    by (auto simp: stream_ok_def window_stats_fields)
  note F = fingerprints_facts [OF view_stream_fields(6) [OF s(2)]] this
  show "length (sv_fingerprints w) \<le> 16" by (rule F(1))
  show "int (sum_list (map fp_count (sv_fingerprints w))) \<le> st_failures (sv_current w)"
    using F(5,7) by linarith
  show "int (sum_list (map fp_count (sv_fingerprints w))) = st_failures (sv_current w)"
    if "length (sv_fingerprints w) < 16" using F(6) [OF that] F(7) by simp
qed

subsection \<open>One fingerprint for events and samples\<close>

lemma distinct_version_names: "distinct (map version_name VERSION_FIELDS)"
  by (simp add: VERSION_FIELDS_def)

lemma map_of_labels:
  "distinct (map version_name fs) \<Longrightarrow> f \<in> set fs \<Longrightarrow>
   map_of (concat (map (\<lambda>f. case g f of None \<Rightarrow> [] | Some v \<Rightarrow> [(version_name f, v)]) fs)) (version_name f) = g f"
proof (induction fs)
  case (Cons a fs)
  let ?rest = "concat (map (\<lambda>f. case g f of None \<Rightarrow> [] | Some v \<Rightarrow> [(version_name f, v)]) fs)"
  have "fst ` set ?rest \<subseteq> version_name ` set fs" by (auto split: option.splits)
  then have "version_name a \<notin> fst ` set ?rest" using Cons.prems(1) by auto
  then have "map_of ?rest (version_name a) = None" by (simp add: map_of_eq_None_iff)
  moreover have "f \<in> set fs \<Longrightarrow> version_name f \<in> version_name ` set fs" by simp
  then have "f = a \<or> f \<in> set fs \<and> version_name f \<noteq> version_name a"
    using Cons.prems by (metis distinct.simps(2) list.simps(9) list.set_map set_ConsD)
  ultimately show ?case using Cons.IH Cons.prems(1) by (auto split: option.splits)
qed simp

lemma map_of_version_metadata: "map_of (version_metadata e) (version_name f) = ev_label e f"
  unfolding version_metadata_def
  by (rule map_of_labels [OF distinct_version_names]) (cases f; simp add: VERSION_FIELDS_def)

lemma row_fingerprint_event:
  assumes "ev_outcome e = Failure" "\<And>f. ev_label e f \<noteq> Some []"
  shows "failure_fingerprint R e =
    Some (row_fingerprint R (ev_operation e) (version_metadata e) (sample_of R e))"
proof -
  have "(case ev_label e f of None \<Rightarrow> [] | Some v \<Rightarrow> if v = [] then [] else [(version_name f, JStr v)]) =
      (case map_of (version_metadata e) (version_name f) of None \<Rightarrow> [] | Some v \<Rightarrow> [(version_name f, JStr v)])" for f
    using assms(2) [of f] by (auto simp: map_of_version_metadata split: option.splits)
  then show ?thesis
    using assms(1) by (simp add: failure_fingerprint_def row_fingerprint_def sample_of_def)
qed

end
