(* ===== verification/Store.thy ===== *)
theory Store
  imports Protocol
begin

text \<open>
  The SQLite tenant store of \<open>storage.py\<close>.  The three tables are lists of rows with the declared
  primary keys, unique constraint and cascading foreign keys; an operation runs inside one transaction,
  which an exception rolls back.  Instants are microseconds in UTC (the columns hold their ISO 8601 text, which
  sorts in the same order), \<open>_now()\<close> is an argument, and the tenant state is a value of a type
  variable whose encoding \<open>encode\<close> is \<open>None\<close> where \<open>json.dumps\<close> raises.
\<close>

definition STORE_STATE_BYTES :: nat where "STORE_STATE_BYTES = 800000"
definition MAX_ACTIVE_KEYS :: nat where "MAX_ACTIVE_KEYS = 16"
definition RETENTION_US :: int where "RETENTION_US = (7 * 86400 + 5 * 60) * 1000000"
definition SCHEMA_VERSION :: int where "SCHEMA_VERSION = 1"

text \<open>\<open>sorted(SCOPES)\<close>.\<close>

definition SCOPES :: "string list" where
  "SCOPES = [''ingest'', ''manage'', ''read'']"

datatype 'e store_error =
    StorageError | StorageLimit | TenantMissing | TenantExists | KeyConflict
  | ValueError | IntegrityError | OverflowError | Callback 'e

subsection \<open>Argument checks\<close>

definition utc :: "pydatetime \<Rightarrow> 'e store_error + int" where
  "utc now = (case now of Naive \<Rightarrow> Inl ValueError | Aware us \<Rightarrow> Inr us)"

definition tenant_char :: "char \<Rightarrow> bool" where
  "tenant_char c \<longleftrightarrow> is_alnum c \<or> c = CHR ''_'' \<or> c = CHR ''-''"

definition tenant_id_ok :: "string \<Rightarrow> bool" where
  "tenant_id_ok s \<longleftrightarrow> 1 \<le> length s \<and> length s \<le> 128 \<and> list_all tenant_char s"

definition digest_ok :: "string \<Rightarrow> bool" where
  "digest_ok s \<longleftrightarrow> length s = 64 \<and> list_all is_hex s"

definition key_selector_ok :: "string \<Rightarrow> bool" where
  "key_selector_ok s \<longleftrightarrow> (length s = 12 \<or> length s = 64) \<and> list_all is_hex s"

definition check_tenant_id :: "string \<Rightarrow> 'e store_error + string" where
  "check_tenant_id s = (if tenant_id_ok s then Inr s else Inl ValueError)"

definition check_digest :: "string \<Rightarrow> 'e store_error + string" where
  "check_digest s = (if digest_ok s then Inr s else Inl ValueError)"

definition check_selector :: "string \<Rightarrow> 'e store_error + string" where
  "check_selector s = (if key_selector_ok s then Inr s else Inl ValueError)"

definition scopes_ok :: "string list \<Rightarrow> bool" where
  "scopes_ok values \<longleftrightarrow> values \<noteq> [] \<and> length values \<le> length SCOPES \<and>
     list_all (\<lambda>v. v \<in> set SCOPES) values \<and> distinct values"

definition check_scopes :: "string list \<Rightarrow> 'e store_error + string list" where
  "check_scopes values = (if scopes_ok values then Inr (sort values) else Inl ValueError)"

definition add_retention :: "int \<Rightarrow> 'e store_error + int" where
  "add_retention us = (if datetime_range (us + RETENTION_US) then Inr (us + RETENTION_US) else Inl OverflowError)"

definition serialize :: "('s \<Rightarrow> string option) \<Rightarrow> 's \<Rightarrow> 'e store_error + string" where
  "serialize encode state =
     (case encode state of
        None \<Rightarrow> Inl ValueError
      | Some text \<Rightarrow> if STORE_STATE_BYTES \<le> length text then Inl StorageLimit else Inr text)"

subsection \<open>Tables\<close>

record tenant_row =
  tr_tenant_id :: string
  tr_created_at :: int

record key_row =
  kr_hash :: string
  kr_tenant :: string
  kr_key_id :: string
  kr_scopes :: "string list"
  kr_created_at :: int

record 's state_row =
  sw_tenant :: string
  sw_state :: 's
  sw_updated_at :: int
  sw_expires_at :: int

record 's db =
  db_tenants :: "tenant_row list"
  db_keys :: "key_row list"
  db_states :: "'s state_row list"

record key_listing =
  ki_key_id :: string
  ki_scopes :: "string list"
  ki_active :: bool
  ki_created_at :: int

record key_info = key_listing +
  ki_tenant :: string

definition key_record :: "string \<Rightarrow> string \<Rightarrow> string list \<Rightarrow> int \<Rightarrow> key_info" where
  "key_record tenant key_hash scopes now =
     \<lparr>ki_key_id = take 12 key_hash, ki_scopes = scopes, ki_active = True, ki_created_at = now, ki_tenant = tenant\<rparr>"

definition empty_db :: "'s db" where
  "empty_db = \<lparr>db_tenants = [], db_keys = [], db_states = []\<rparr>"

definition has_tenant :: "'s db \<Rightarrow> string \<Rightarrow> bool" where
  "has_tenant db t \<longleftrightarrow> t \<in> tr_tenant_id ` set (db_tenants db)"

definition find_key :: "'s db \<Rightarrow> string \<Rightarrow> key_row option" where
  "find_key db h = find (\<lambda>k. kr_hash k = h) (db_keys db)"

definition find_state :: "'s db \<Rightarrow> string \<Rightarrow> 's state_row option" where
  "find_state db t = find (\<lambda>w. sw_tenant w = t) (db_states db)"

definition tenant_keys :: "'s db \<Rightarrow> string \<Rightarrow> key_row list" where
  "tenant_keys db t = filter (\<lambda>k. kr_tenant k = t) (db_keys db)"

text \<open>Inserts check the declared constraints.\<close>

definition insert_tenant :: "tenant_row \<Rightarrow> 's db \<Rightarrow> 'e store_error + 's db" where
  "insert_tenant r db =
     (if has_tenant db (tr_tenant_id r) then Inl IntegrityError
      else Inr (db\<lparr>db_tenants := db_tenants db @ [r]\<rparr>))"

definition insert_key :: "key_row \<Rightarrow> 's db \<Rightarrow> 'e store_error + 's db" where
  "insert_key k db =
     (if find_key db (kr_hash k) \<noteq> None \<or> \<not> has_tenant db (kr_tenant k) \<or>
         list_ex (\<lambda>k'. kr_tenant k' = kr_tenant k \<and> kr_key_id k' = kr_key_id k) (db_keys db)
      then Inl IntegrityError
      else Inr (db\<lparr>db_keys := db_keys db @ [k]\<rparr>))"

text \<open>\<open>INSERT ... ON CONFLICT(tenant_id) DO UPDATE\<close>.\<close>

definition upsert_state :: "'s state_row \<Rightarrow> 's db \<Rightarrow> 'e store_error + 's db" where
  "upsert_state w db =
     (if find_state db (sw_tenant w) \<noteq> None
      then Inr (db\<lparr>db_states := map (\<lambda>w'. if sw_tenant w' = sw_tenant w then w else w') (db_states db)\<rparr>)
      else if \<not> has_tenant db (sw_tenant w) then Inl IntegrityError
      else Inr (db\<lparr>db_states := db_states db @ [w]\<rparr>))"

definition insert_state :: "'s state_row \<Rightarrow> 's db \<Rightarrow> 'e store_error + 's db" where
  "insert_state w db =
     (if find_state db (sw_tenant w) \<noteq> None \<or> \<not> has_tenant db (sw_tenant w) then Inl IntegrityError
      else Inr (db\<lparr>db_states := db_states db @ [w]\<rparr>))"

text \<open>Deleting a tenant row cascades to its keys and its state.\<close>

definition remove_tenant :: "string \<Rightarrow> 's db \<Rightarrow> 's db" where
  "remove_tenant t db =
     \<lparr>db_tenants = filter (\<lambda>r. tr_tenant_id r \<noteq> t) (db_tenants db),
      db_keys = filter (\<lambda>k. kr_tenant k \<noteq> t) (db_keys db),
      db_states = filter (\<lambda>w. sw_tenant w \<noteq> t) (db_states db)\<rparr>"

subsection \<open>Transactions\<close>

text \<open>The \<open>_connection\<close> context: an exception rolls back, a return keeps what was committed.\<close>

definition transaction :: "'s db \<Rightarrow> ('s db \<Rightarrow> 'e store_error + 'a \<times> 's db) \<Rightarrow> ('e store_error + 'a) \<times> 's db" where
  "transaction db body = (case body db of Inl e \<Rightarrow> (Inl e, db) | Inr (x, db') \<Rightarrow> (Inr x, db'))"

definition open_db :: "int \<Rightarrow> 's db \<Rightarrow> 'e store_error + int \<times> 's db" where
  "open_db version db =
     (if version \<noteq> 0 \<and> version \<noteq> SCHEMA_VERSION then Inl StorageError else Inr (SCHEMA_VERSION, db))"

definition require_tenant :: "'s db \<Rightarrow> string \<Rightarrow> 'e store_error + unit" where
  "require_tenant db t = require_that (has_tenant db t) TenantMissing"

definition require_key :: "'s db \<Rightarrow> string \<Rightarrow> string option \<Rightarrow> 'e store_error + unit" where
  "require_key db t expected =
     (case expected of
        None \<Rightarrow> Inr ()
      | Some h \<Rightarrow> rbind (check_digest h) (\<lambda>h.
          require_that (list_ex (\<lambda>k. kr_tenant k = t \<and> kr_hash k = h) (db_keys db)) TenantMissing))"

subsection \<open>Operations\<close>

definition create_tenant ::
    "'s \<Rightarrow> string \<Rightarrow> string \<Rightarrow> pydatetime \<Rightarrow> 's db \<Rightarrow> ('e store_error + unit) \<times> 's db" where
  "create_tenant blank tenant key_hash now db = transaction db (\<lambda>db.
     rbind (check_tenant_id tenant) (\<lambda>t. rbind (check_digest key_hash) (\<lambda>h. rbind (utc now) (\<lambda>us.
     rbind (require_that (\<not> has_tenant db t) TenantExists) (\<lambda>_.
     rbind (require_that (find_key db h = None) KeyConflict) (\<lambda>_.
     rbind (insert_tenant \<lparr>tr_tenant_id = t, tr_created_at = us\<rparr> db) (\<lambda>db1.
     rbind (insert_key \<lparr>kr_hash = h, kr_tenant = t, kr_key_id = take 12 h, kr_scopes = SCOPES,
                        kr_created_at = us\<rparr> db1) (\<lambda>db2.
     rbind (add_retention us) (\<lambda>expires.
     rbind (insert_state \<lparr>sw_tenant = t, sw_state = blank, sw_updated_at = us,
                          sw_expires_at = expires\<rparr> db2) (\<lambda>db3.
       Inr ((), db3)))))))))))"

definition authenticate :: "string \<Rightarrow> 's db \<Rightarrow> 'e store_error + key_info option" where
  "authenticate key_hash db =
     rbind (check_digest key_hash) (\<lambda>h.
       Inr (case find_key db h of
              None \<Rightarrow> None
            | Some k \<Rightarrow> if has_tenant db (kr_tenant k)
                        then Some (key_record (kr_tenant k) h (kr_scopes k) (kr_created_at k)) else None))"

definition add_key ::
    "string \<Rightarrow> string \<Rightarrow> string list \<Rightarrow> pydatetime \<Rightarrow> string option \<Rightarrow> 's db \<Rightarrow> ('e store_error + unit) \<times> 's db" where
  "add_key tenant key_hash scopes now expected db = transaction db (\<lambda>db.
     rbind (check_tenant_id tenant) (\<lambda>t. rbind (check_digest key_hash) (\<lambda>h.
     rbind (check_scopes scopes) (\<lambda>sc. rbind (utc now) (\<lambda>us.
     rbind (require_tenant db t) (\<lambda>_.
     rbind (require_key db t expected) (\<lambda>_.
     rbind (require_that (length (tenant_keys db t) < MAX_ACTIVE_KEYS) StorageLimit) (\<lambda>_.
       (case insert_key \<lparr>kr_hash = h, kr_tenant = t, kr_key_id = take 12 h, kr_scopes = sc,
                         kr_created_at = us\<rparr> db of
          Inl e \<Rightarrow> Inl (if e = IntegrityError then KeyConflict else e)
        | Inr db1 \<Rightarrow> Inr ((), db1))))))))))"

definition revoke_key ::
    "string \<Rightarrow> string \<Rightarrow> string option \<Rightarrow> 's db \<Rightarrow> ('e store_error + bool) \<times> 's db" where
  "revoke_key tenant selector expected db = transaction db (\<lambda>db.
     rbind (check_tenant_id tenant) (\<lambda>t. rbind (check_selector selector) (\<lambda>sel.
     rbind (require_key db t expected) (\<lambda>_.
       let hit = (\<lambda>k. kr_tenant k = t \<and> (kr_hash k = sel \<or> kr_key_id k = sel))
       in Inr (list_ex hit (db_keys db), db\<lparr>db_keys := filter (\<lambda>k. \<not> hit k) (db_keys db)\<rparr>)))))"

definition list_keys :: "string \<Rightarrow> string option \<Rightarrow> 's db \<Rightarrow> ('e store_error + key_listing list) \<times> 's db" where
  "list_keys tenant expected db = transaction db (\<lambda>db.
     rbind (check_tenant_id tenant) (\<lambda>t.
     rbind (require_key db t expected) (\<lambda>_.
       let rows = take MAX_ACTIVE_KEYS (sort_key (\<lambda>k. (kr_created_at k, kr_key_id k)) (tenant_keys db t))
       in Inr (map (\<lambda>k. \<lparr>ki_key_id = kr_key_id k, ki_scopes = kr_scopes k, ki_active = True,
                         ki_created_at = kr_created_at k\<rparr>) rows, db))))"

text \<open>The state a callback or reader sees: \<open>{}\<close> without a row and after its expiry.\<close>

definition current_state :: "'s \<Rightarrow> int \<Rightarrow> 's db \<Rightarrow> string \<Rightarrow> 's" where
  "current_state blank now db t =
     (case find_state db t of None \<Rightarrow> blank | Some w \<Rightarrow> if now < sw_expires_at w then sw_state w else blank)"

definition transact ::
    "'s \<Rightarrow> ('s \<Rightarrow> string option) \<Rightarrow> int \<Rightarrow> string \<Rightarrow> ('s \<Rightarrow> 'e + 's \<times> 'a) \<Rightarrow> string option \<Rightarrow> 's db \<Rightarrow>
     ('e store_error + 'a) \<times> 's db" where
  "transact blank encode now tenant callback expected db = transaction db (\<lambda>db.
     rbind (check_tenant_id tenant) (\<lambda>t.
     rbind (require_tenant db t) (\<lambda>_.
     rbind (require_key db t expected) (\<lambda>_.
       (case callback (current_state blank now db t) of
          Inl e \<Rightarrow> Inl (Callback e)
        | Inr (state, result) \<Rightarrow>
            rbind (serialize encode state) (\<lambda>_.
            rbind (add_retention now) (\<lambda>expires.
            rbind (upsert_state \<lparr>sw_tenant = t, sw_state = state, sw_updated_at = now,
                                 sw_expires_at = expires\<rparr> db) (\<lambda>db1.
              Inr (result, db1)))))))))"

definition read_state ::
    "'s \<Rightarrow> int \<Rightarrow> string \<Rightarrow> string option \<Rightarrow> 's db \<Rightarrow> ('e store_error + 's option) \<times> 's db" where
  "read_state blank now tenant expected db = transaction db (\<lambda>db.
     rbind (check_tenant_id tenant) (\<lambda>t.
     rbind (require_key db t expected) (\<lambda>_.
       if \<not> has_tenant db t then Inr (None, db)
       else case find_state db t of
              None \<Rightarrow> Inr (Some blank, db)
            | Some w \<Rightarrow>
                if sw_expires_at w \<le> now
                then Inr (Some blank, db\<lparr>db_states := filter (\<lambda>w. sw_tenant w \<noteq> t) (db_states db)\<rparr>)
                else Inr (Some (sw_state w), db))))"

definition delete_tenant :: "string \<Rightarrow> string option \<Rightarrow> 's db \<Rightarrow> ('e store_error + bool) \<times> 's db" where
  "delete_tenant tenant expected db = transaction db (\<lambda>db.
     rbind (check_tenant_id tenant) (\<lambda>t.
     rbind (require_key db t expected) (\<lambda>_.
       Inr (has_tenant db t, remove_tenant t db))))"

text \<open>\<open>LIMIT 100\<close> takes the expired rows in the order \<open>plan\<close> in which SQLite visits them.\<close>

definition purge_expired ::
    "('s state_row list \<Rightarrow> 's state_row list) \<Rightarrow> int \<Rightarrow> 's db \<Rightarrow> ('e store_error + nat) \<times> 's db" where
  "purge_expired plan now db = transaction db (\<lambda>db.
     let victims = map sw_tenant (take 100 (filter (\<lambda>w. sw_expires_at w \<le> now) (plan (db_states db))));
         kept = filter (\<lambda>w. sw_tenant w \<notin> set victims) (db_states db)
     in Inr (length (db_states db) - length kept, db\<lparr>db_states := kept\<rparr>))"

end
