(* ===== verification/Store_Inv.thy ===== *)
theory Store_Inv
  imports Store
begin

text \<open>
  The integrity of the tenant store: the declared constraints and the bounds hold after
  every operation of the SQLite store.
\<close>

subsection \<open>Transactions\<close>

lemma transaction_iff [simp]:
  "transaction db body = (Inr x, db') \<longleftrightarrow> body db = Inr (x, db')"
  "transaction db body = (Inl e, db') \<longleftrightarrow> body db = Inl e \<and> db' = db"
  by (auto simp: transaction_def split: sum.splits)

lemma transaction_snd: "snd (transaction db body) = (case body db of Inl e \<Rightarrow> db | Inr p \<Rightarrow> snd p)"
  by (simp add: transaction_def split: sum.splits prod.splits)

lemma check_iff [simp]:
  "check_tenant_id t = Inr u \<longleftrightarrow> tenant_id_ok t \<and> u = t"
  "check_digest h = Inr g \<longleftrightarrow> digest_ok h \<and> g = h"
  "check_selector s = Inr r \<longleftrightarrow> key_selector_ok s \<and> r = s"
  "check_scopes v = Inr w \<longleftrightarrow> scopes_ok v \<and> w = sort v"
  by (auto simp: check_tenant_id_def check_digest_def check_selector_def check_scopes_def)

lemma require_tenant_iff [simp]: "require_tenant db t = Inr u \<longleftrightarrow> has_tenant db t"
  by (simp add: require_tenant_def)

definition holds_key :: "'s db \<Rightarrow> string \<Rightarrow> string \<Rightarrow> bool" where
  "holds_key db t h \<longleftrightarrow> (\<exists>k \<in> set (db_keys db). kr_tenant k = t \<and> kr_hash k = h)"

lemma require_key_iff [simp]:
  "require_key db t expected = Inr u \<longleftrightarrow> (\<forall>h. expected = Some h \<longrightarrow> digest_ok h \<and> holds_key db t h)"
  by (cases expected) (auto simp: require_key_def rbind_Inr_iff holds_key_def list_ex_iff)

subsection \<open>Integrity\<close>

definition key_row_ok :: "key_row \<Rightarrow> bool" where
  "key_row_ok k \<longleftrightarrow> digest_ok (kr_hash k) \<and> kr_key_id k = take 12 (kr_hash k) \<and> scopes_ok (kr_scopes k)"

definition db_ok :: "'s db \<Rightarrow> bool" where
  "db_ok db \<longleftrightarrow>
     distinct (map tr_tenant_id (db_tenants db)) \<and>
     distinct (map kr_hash (db_keys db)) \<and>
     distinct (map (\<lambda>k. (kr_tenant k, kr_key_id k)) (db_keys db)) \<and>
     (\<forall>k \<in> set (db_keys db). has_tenant db (kr_tenant k) \<and> key_row_ok k) \<and>
     (\<forall>t. length (tenant_keys db t) \<le> MAX_ACTIVE_KEYS) \<and>
     distinct (map sw_tenant (db_states db)) \<and>
     (\<forall>w \<in> set (db_states db). has_tenant db (sw_tenant w))"

lemma has_tenant_cong [simp]:
  "has_tenant (db\<lparr>db_keys := ks\<rparr>) t = has_tenant db t"
  "has_tenant (db\<lparr>db_states := ws\<rparr>) t = has_tenant db t"
  by (simp_all add: has_tenant_def)

lemma tenant_keys_cong [simp]:
  "tenant_keys (db\<lparr>db_states := ws\<rparr>) t = tenant_keys db t"
  "tenant_keys (db\<lparr>db_tenants := ts\<rparr>) t = tenant_keys db t"
  by (simp_all add: tenant_keys_def)

lemma find_key_None: "find_key db h = None \<longleftrightarrow> h \<notin> kr_hash ` set (db_keys db)"
  by (auto simp: find_key_def find_None_iff_image)

lemma find_key_Some:
  "db_ok db \<Longrightarrow> find_key db h = Some k \<longleftrightarrow> k \<in> set (db_keys db) \<and> kr_hash k = h"
  by (simp add: find_key_def distinct_find_iff db_ok_def)

lemma find_state_None: "find_state db t = None \<longleftrightarrow> t \<notin> sw_tenant ` set (db_states db)"
  by (auto simp: find_state_def find_None_iff_image)

lemma empty_db_ok: "db_ok empty_db"
  by (simp add: db_ok_def empty_db_def tenant_keys_def)

lemma insert_tenant_ok:
  assumes "db_ok db" "insert_tenant r db = Inr db'"
  shows "db_ok db'" "db_keys db' = db_keys db" "db_states db' = db_states db"
    "has_tenant db' t \<longleftrightarrow> t = tr_tenant_id r \<or> has_tenant db t"
  using assms by (auto simp: insert_tenant_def db_ok_def has_tenant_def tenant_keys_def split: if_splits)

lemma insert_key_ok:
  assumes "db_ok db" "insert_key k db = Inr db'" "length (tenant_keys db (kr_tenant k)) < MAX_ACTIVE_KEYS" "key_row_ok k"
  shows "db_ok db'"
proof -
  have db': "db' = db\<lparr>db_keys := db_keys db @ [k]\<rparr>" and new: "find_key db (kr_hash k) = None" "has_tenant db (kr_tenant k)"
    "\<forall>k' \<in> set (db_keys db). \<not> (kr_tenant k' = kr_tenant k \<and> kr_key_id k' = kr_key_id k)"
    using assms(2) by (auto simp: insert_key_def list_ex_iff split: if_splits)
  have "length (tenant_keys db' t) \<le> MAX_ACTIVE_KEYS" for t
    using assms(1,3) by (auto simp: db' tenant_keys_def db_ok_def)
  with assms(1,4) new show ?thesis by (auto simp: db' db_ok_def find_key_None)
qed

lemma state_rows_ok:
  assumes "db_ok db" "distinct (map sw_tenant ws)" "\<forall>w \<in> set ws. has_tenant db (sw_tenant w)"
  shows "db_ok (db\<lparr>db_states := ws\<rparr>)"
  using assms by (simp add: db_ok_def)

lemma insert_state_ok:
  assumes "db_ok db" "insert_state w db = Inr db'"
  shows "db_ok db'"
  using assms
  by (auto simp: insert_state_def find_state_None db_ok_def split: if_splits intro!: state_rows_ok)

lemma upsert_state_ok:
  assumes "db_ok db" "upsert_state w db = Inr db'"
  shows "db_ok db'"
proof (cases "find_state db (sw_tenant w) = None")
  case True
  with assms show ?thesis
    by (auto simp: upsert_state_def find_state_None db_ok_def split: if_splits intro!: state_rows_ok)
next
  case False
  let ?ws = "map (\<lambda>w'. if sw_tenant w' = sw_tenant w then w else w') (db_states db)"
  have "map sw_tenant ?ws = map sw_tenant (db_states db)" by auto
  moreover have "\<forall>v \<in> set ?ws. has_tenant db (sw_tenant v)" using assms(1) by (auto simp: db_ok_def)
  ultimately have "db_ok (db\<lparr>db_states := ?ws\<rparr>)"
    using assms(1) by (intro state_rows_ok) (auto simp: db_ok_def simp del: map_map)
  with assms(2) False show ?thesis by (auto simp: upsert_state_def)
qed

lemma filter_filter_le: "length (filter P (filter Q xs)) \<le> length (filter P xs)"
  by (induction xs) auto

lemma filter_keys_ok:
  assumes "db_ok db"
  shows "db_ok (db\<lparr>db_keys := filter P (db_keys db)\<rparr>)"
proof -
  have "length (tenant_keys (db\<lparr>db_keys := filter P (db_keys db)\<rparr>) t) \<le> length (tenant_keys db t)" for t
    by (simp add: tenant_keys_def filter_filter_le del: filter_filter)
  then have "length (tenant_keys (db\<lparr>db_keys := filter P (db_keys db)\<rparr>) t) \<le> MAX_ACTIVE_KEYS" for t
    using assms by (meson db_ok_def le_trans)
  then show ?thesis using assms by (auto simp: db_ok_def distinct_map_filter)
qed

lemma filter_states_ok: "db_ok db \<Longrightarrow> db_ok (db\<lparr>db_states := filter P (db_states db)\<rparr>)"
  by (rule state_rows_ok) (auto simp: db_ok_def distinct_map_filter)

lemma has_tenant_remove: "has_tenant (remove_tenant t db) t' \<longleftrightarrow> t' \<noteq> t \<and> has_tenant db t'"
  by (auto simp: has_tenant_def remove_tenant_def)

lemma remove_tenant_ok:
  assumes "db_ok db"
  shows "db_ok (remove_tenant t db)"
proof -
  have "length (tenant_keys (remove_tenant t db) t') \<le> length (tenant_keys db t')" for t'
    by (simp add: tenant_keys_def remove_tenant_def filter_filter_le del: filter_filter)
  then have "length (tenant_keys (remove_tenant t db) t') \<le> MAX_ACTIVE_KEYS" for t'
    using assms by (meson db_ok_def le_trans)
  moreover have "db_tenants (remove_tenant t db) = filter (\<lambda>r. tr_tenant_id r \<noteq> t) (db_tenants db)"
    "db_keys (remove_tenant t db) = filter (\<lambda>k. kr_tenant k \<noteq> t) (db_keys db)"
    "db_states (remove_tenant t db) = filter (\<lambda>w. sw_tenant w \<noteq> t) (db_states db)"
    by (simp_all add: remove_tenant_def)
  ultimately show ?thesis
    using assms unfolding db_ok_def has_tenant_remove by (auto simp: distinct_map_filter)
qed

end
