(* ===== verification/Store_Runs.thy ===== *)
theory Store_Runs
  imports Store_Inv
begin

text \<open>
  Runs of store operations.  \<open>store_op\<close> is one call of the store's interface with its
  arguments; the locale \<open>tenant_store\<close> states what its clients rely on, and its lemmas lift the laws from
  one call to any interleaving of calls.
\<close>

subsection \<open>The interface\<close>

locale tenant_store =
  fixes ok :: "'d \<Rightarrow> bool"
    and exec :: "'op \<Rightarrow> 'd \<Rightarrow> 'd"
    and holder :: "'d \<Rightarrow> string \<Rightarrow> string option" \<comment> \<open>the tenant an active key digest belongs to\<close>
    and view :: "'d \<Rightarrow> string \<Rightarrow> 'v" \<comment> \<open>all rows of a tenant\<close>
    and subject :: "'op \<Rightarrow> string option" \<comment> \<open>the tenant an operation addresses\<close>
    and registers :: "'op \<Rightarrow> string option" \<comment> \<open>the key digest an operation may register\<close>
  assumes exec_ok: "ok d \<Longrightarrow> ok (exec p d)"
    and exec_holder: "ok d \<Longrightarrow> holder d h = None \<Longrightarrow> registers p \<noteq> Some h \<Longrightarrow> holder (exec p d) h = None"
    and exec_view: "ok d \<Longrightarrow> subject p = Some t' \<Longrightarrow> t' \<noteq> t \<Longrightarrow> view (exec p d) t = view d t"
begin

lemma run_ok: "ok d \<Longrightarrow> ok (fold exec ops d)"
  by (induction ops arbitrary: d) (auto intro: exec_ok)

lemma run_lockout:
  "ok d \<Longrightarrow> holder d h = None \<Longrightarrow> \<forall>p \<in> set ops. registers p \<noteq> Some h \<Longrightarrow> holder (fold exec ops d) h = None"
proof (induction ops arbitrary: d)
  case (Cons p ops)
  then have "ok (exec p d)" "holder (exec p d) h = None" using exec_ok exec_holder by simp_all
  with Cons show ?case by simp
qed simp

lemma run_isolation:
  "ok d \<Longrightarrow> \<forall>p \<in> set ops. \<exists>t'. subject p = Some t' \<and> t' \<noteq> t \<Longrightarrow> view (fold exec ops d) t = view d t"
proof (induction ops arbitrary: d)
  case (Cons p ops)
  then obtain t' where "subject p = Some t'" "t' \<noteq> t" by auto
  with Cons show ?case using exec_ok exec_view by auto
qed simp

end

subsection \<open>The calls\<close>

datatype ('s, 'e, 'a) store_op =
    Create string string pydatetime
  | Add_Key string string "string list" pydatetime "string option"
  | Revoke string string "string option"
  | List_Keys string "string option"
  | Transact int string "'s \<Rightarrow> 'e + 's \<times> 'a" "string option"
  | Read_State int string "string option"
  | Delete string "string option"
  | Purge int

text \<open>The outcome of a call, with its value dropped, and the database it leaves.\<close>

definition outcome_of :: "('e store_error + 'a) \<times> 'd \<Rightarrow> ('e store_error + unit) \<times> 'd" where
  "outcome_of r = (map_sum id (\<lambda>_. ()) (fst r), snd r)"

fun call_op ::
    "'s \<Rightarrow> ('s \<Rightarrow> string option) \<Rightarrow> ('s state_row list \<Rightarrow> 's state_row list) \<Rightarrow> ('s, 'e, 'a) store_op \<Rightarrow> 's db \<Rightarrow>
     ('e store_error + unit) \<times> 's db" where
  "call_op blank encode plan (Create t h now) db = create_tenant blank t h now db"
| "call_op blank encode plan (Add_Key t h scopes now ex) db = add_key t h scopes now ex db"
| "call_op blank encode plan (Revoke t sel ex) db = outcome_of (revoke_key t sel ex db)"
| "call_op blank encode plan (List_Keys t ex) db = outcome_of (list_keys t ex db)"
| "call_op blank encode plan (Transact now t f ex) db = outcome_of (transact blank encode now t f ex db)"
| "call_op blank encode plan (Read_State now t ex) db = outcome_of (read_state blank now t ex db)"
| "call_op blank encode plan (Delete t ex) db = outcome_of (delete_tenant t ex db)"
| "call_op blank encode plan (Purge now) db = outcome_of (purge_expired plan now db)"

definition exec_op ::
    "'s \<Rightarrow> ('s \<Rightarrow> string option) \<Rightarrow> ('s state_row list \<Rightarrow> 's state_row list) \<Rightarrow> ('s, 'e, 'a) store_op \<Rightarrow> 's db \<Rightarrow> 's db" where
  "exec_op blank encode plan p db = snd (call_op blank encode plan p db)"

fun op_tenant :: "('s, 'e, 'a) store_op \<Rightarrow> string option" where
  "op_tenant (Create t h now) = Some t"
| "op_tenant (Add_Key t h scopes now ex) = Some t"
| "op_tenant (Revoke t sel ex) = Some t"
| "op_tenant (List_Keys t ex) = Some t"
| "op_tenant (Transact now t f ex) = Some t"
| "op_tenant (Read_State now t ex) = Some t"
| "op_tenant (Delete t ex) = Some t"
| "op_tenant (Purge now) = None"

fun op_registers :: "('s, 'e, 'a) store_op \<Rightarrow> string option" where
  "op_registers (Create t h now) = Some h"
| "op_registers (Add_Key t h scopes now ex) = Some h"
| "op_registers _ = None"

fun op_expects :: "('s, 'e, 'a) store_op \<Rightarrow> string option" where
  "op_expects (Add_Key t h scopes now ex) = ex"
| "op_expects (Revoke t sel ex) = ex"
| "op_expects (List_Keys t ex) = ex"
| "op_expects (Transact now t f ex) = ex"
| "op_expects (Read_State now t ex) = ex"
| "op_expects (Delete t ex) = ex"
| "op_expects _ = None"

definition key_holder :: "'s db \<Rightarrow> string \<Rightarrow> string option" where
  "key_holder db h = map_option kr_tenant (find_key db h)"

definition tenant_view :: "'s db \<Rightarrow> string \<Rightarrow> tenant_row list \<times> key_row list \<times> 's state_row list" where
  "tenant_view db t =
     (filter (\<lambda>r. tr_tenant_id r = t) (db_tenants db), tenant_keys db t,
      filter (\<lambda>w. sw_tenant w = t) (db_states db))"

subsection \<open>Committed calls\<close>

lemma outcome_iff [simp]:
  "outcome_of r = (Inr u, db') \<longleftrightarrow> (\<exists>x. r = (Inr x, db'))"
  "outcome_of r = (Inl e, db') \<longleftrightarrow> r = (Inl e, db')"
  by (cases r; cases "fst r"; auto simp: outcome_of_def)+

definition tenant_at :: "string \<Rightarrow> int \<Rightarrow> tenant_row" where
  "tenant_at t us = \<lparr>tr_tenant_id = t, tr_created_at = us\<rparr>"

definition key_at :: "string \<Rightarrow> string \<Rightarrow> string list \<Rightarrow> int \<Rightarrow> key_row" where
  "key_at t h scopes us =
     \<lparr>kr_hash = h, kr_tenant = t, kr_key_id = take 12 h, kr_scopes = scopes, kr_created_at = us\<rparr>"

definition state_at :: "string \<Rightarrow> 's \<Rightarrow> int \<Rightarrow> 's state_row" where
  "state_at t s us =
     \<lparr>sw_tenant = t, sw_state = s, sw_updated_at = us, sw_expires_at = us + RETENTION_US\<rparr>"

lemma row_fields [simp]:
  "tr_tenant_id (tenant_at t us) = t" "kr_hash (key_at t h sc us) = h" "kr_tenant (key_at t h sc us) = t"
  "kr_key_id (key_at t h sc us) = take 12 h" "kr_scopes (key_at t h sc us) = sc"
  "sw_tenant (state_at t s us) = t" "sw_state (state_at t s us) = s"
  "sw_expires_at (state_at t s us) = us + RETENTION_US"
  by (simp_all add: tenant_at_def key_at_def state_at_def)

lemma create_tenant_elim:
  assumes "create_tenant blank t h now db = (Inr u, db')"
  obtains us where "tenant_id_ok t" "digest_ok h" "now = Aware us" "\<not> has_tenant db t" "find_key db h = None"
    "db' = \<lparr>db_tenants = db_tenants db @ [tenant_at t us], db_keys = db_keys db @ [key_at t h SCOPES us],
           db_states = db_states db @ [state_at t blank us]\<rparr>"
  using assms
  by (auto simp: create_tenant_def rbind_Inr_iff utc_def add_retention_def insert_tenant_def insert_key_def
      insert_state_def tenant_at_def key_at_def state_at_def split: pydatetime.splits if_splits)

lemma insert_key_Inr:
  "insert_key k db = Inr db' \<longleftrightarrow>
     find_key db (kr_hash k) = None \<and> has_tenant db (kr_tenant k) \<and>
     \<not> list_ex (\<lambda>k'. kr_tenant k' = kr_tenant k \<and> kr_key_id k' = kr_key_id k) (db_keys db) \<and>
     db' = db\<lparr>db_keys := db_keys db @ [k]\<rparr>"
  by (auto simp: insert_key_def)

lemma add_key_elim:
  assumes "add_key t h scopes now ex db = ((Inr u :: 'e store_error + unit), db')"
  obtains us where "tenant_id_ok t" "digest_ok h" "scopes_ok scopes" "now = Aware us" "has_tenant db t"
    "\<And>g. ex = Some g \<Longrightarrow> digest_ok g \<and> holds_key db t g" "length (tenant_keys db t) < MAX_ACTIVE_KEYS"
    "insert_key (key_at t h (sort scopes) us) db = (Inr db' :: unit store_error + _)"
    "db' = db\<lparr>db_keys := db_keys db @ [key_at t h (sort scopes) us]\<rparr>" "find_key db h = None"
proof -
  let ?row = "\<lambda>us. key_at t h (sort scopes) us"
  obtain us where us: "now = Aware us" and ok: "tenant_id_ok t" "digest_ok h" "scopes_ok scopes" "has_tenant db t"
    "\<And>g. ex = Some g \<Longrightarrow> digest_ok g \<and> holds_key db t g" "length (tenant_keys db t) < MAX_ACTIVE_KEYS"
    and ins: "(case insert_key (?row us) db of Inl e \<Rightarrow> Inl (if e = IntegrityError then KeyConflict else e)
                 | Inr db1 \<Rightarrow> Inr ((), db1)) = (Inr (u, db') :: 'e store_error + _)"
    using assms
    by (simp add: add_key_def rbind_Inr_iff utc_def key_at_def [symmetric] split: pydatetime.splits)
  from ins have i: "insert_key (?row us) db = (Inr db' :: 'e store_error + _)" by (auto split: sum.splits)
  then have "insert_key (?row us) db = (Inr db' :: unit store_error + _)" unfolding insert_key_Inr .
  with i us ok that [of us] show thesis by (simp add: insert_key_Inr)
qed

lemma revoke_key_elim:
  assumes "revoke_key t sel ex db = (Inr b, db')"
  obtains "tenant_id_ok t" "key_selector_ok sel" "\<And>g. ex = Some g \<Longrightarrow> digest_ok g \<and> holds_key db t g"
    "b \<longleftrightarrow> (\<exists>k \<in> set (db_keys db). kr_tenant k = t \<and> (kr_hash k = sel \<or> kr_key_id k = sel))"
    "db' = db\<lparr>db_keys := filter (\<lambda>k. \<not> (kr_tenant k = t \<and> (kr_hash k = sel \<or> kr_key_id k = sel))) (db_keys db)\<rparr>"
  using assms by (auto simp: revoke_key_def rbind_Inr_iff Let_def list_ex_iff)

lemma list_keys_elim:
  assumes "list_keys t ex db = (Inr ks, db')"
  obtains "db' = db" "tenant_id_ok t" "\<And>g. ex = Some g \<Longrightarrow> digest_ok g \<and> holds_key db t g"
    "ks = map (\<lambda>k. \<lparr>ki_key_id = kr_key_id k, ki_scopes = kr_scopes k, ki_active = True, ki_created_at = kr_created_at k\<rparr>)
      (take MAX_ACTIVE_KEYS (sort_key (\<lambda>k. (kr_created_at k, kr_key_id k)) (tenant_keys db t)))"
  using assms by (auto simp: list_keys_def rbind_Inr_iff Let_def)

lemma transact_elim:
  assumes "transact blank encode now t f ex db = (Inr x, db')"
  obtains s enc where "tenant_id_ok t" "has_tenant db t" "\<And>g. ex = Some g \<Longrightarrow> digest_ok g \<and> holds_key db t g"
    "f (current_state blank now db t) = Inr (s, x)" "encode s = Some enc" "length enc < STORE_STATE_BYTES"
    "upsert_state (state_at t s now) db = (Inr db' :: unit store_error + _)"
  using assms
  by (auto simp: transact_def rbind_Inr_iff serialize_def add_retention_def upsert_state_def state_at_def
      split: sum.splits option.splits if_splits)

lemma read_state_elim:
  assumes "read_state blank now t ex db = (Inr x, db')"
  obtains "tenant_id_ok t" "\<And>g. ex = Some g \<Longrightarrow> digest_ok g \<and> holds_key db t g"
    "x = (if has_tenant db t then Some (current_state blank now db t) else None)"
    "db' = db \<or> db' = db\<lparr>db_states := filter (\<lambda>w. sw_tenant w \<noteq> t) (db_states db)\<rparr>"
  using assms
  by (auto simp: read_state_def current_state_def rbind_Inr_iff split: option.splits if_splits)

lemma delete_tenant_elim:
  assumes "delete_tenant t ex db = (Inr b, db')"
  obtains "tenant_id_ok t" "\<And>g. ex = Some g \<Longrightarrow> digest_ok g \<and> holds_key db t g"
    "b \<longleftrightarrow> has_tenant db t" "db' = remove_tenant t db"
  using assms by (auto simp: delete_tenant_def rbind_Inr_iff)

lemma purge_expired_elim:
  assumes "purge_expired plan now db = (Inr n, db')"
  obtains V where "db' = db\<lparr>db_states := filter (\<lambda>w. sw_tenant w \<notin> V) (db_states db)\<rparr>"
    "V = sw_tenant ` set (take 100 (filter (\<lambda>w. sw_expires_at w \<le> now) (plan (db_states db))))"
    "n = length (db_states db) - length (db_states db')"
  using assms by (auto simp: purge_expired_def Let_def)

subsection \<open>Every call keeps the integrity of the store\<close>

lemma SCOPES_ok: "scopes_ok SCOPES"
  by (simp add: scopes_ok_def SCOPES_def)

lemma scopes_ok_sort: "scopes_ok scopes \<Longrightarrow> scopes_ok (sort scopes)"
  by (simp add: scopes_ok_def list_all_iff) (metis length_0_conv length_sort)

lemma create_tenant_db_ok:
  assumes ok: "db_ok db" and c: "create_tenant blank t h now db = (Inr u, db')"
  shows "db_ok db'"
  using c
proof (rule create_tenant_elim)
  fix us
  assume new: "digest_ok h" "\<not> has_tenant db t" "find_key db h = None"
    and db': "db' = \<lparr>db_tenants = db_tenants db @ [tenant_at t us], db_keys = db_keys db @ [key_at t h SCOPES us],
           db_states = db_states db @ [state_at t blank us]\<rparr>"
  have has: "has_tenant db' t' \<longleftrightarrow> t' = t \<or> has_tenant db t'" for t'
    by (auto simp: db' has_tenant_def)
  have none: "\<forall>k \<in> set (db_keys db). kr_tenant k \<noteq> t" "\<forall>w \<in> set (db_states db). sw_tenant w \<noteq> t"
    using ok new(2) by (auto simp: db_ok_def)
  then have "tenant_keys db t = []" by (simp add: tenant_keys_def filter_empty_conv)
  then have "length (tenant_keys db' t') \<le> MAX_ACTIVE_KEYS" for t'
    using ok by (auto simp: db' tenant_keys_def db_ok_def MAX_ACTIVE_KEYS_def)
  moreover have "key_row_ok (key_at t h SCOPES us)" using new(1) SCOPES_ok by (simp add: key_row_ok_def)
  ultimately show "db_ok db'"
    using ok new none unfolding db_ok_def has by (auto simp: db' find_key_None has_tenant_def)
qed

lemma add_key_db_ok:
  assumes ok: "db_ok db" and c: "add_key t h scopes now ex db = (Inr u, db')"
  shows "db_ok db'"
  using c
proof (rule add_key_elim)
  fix us
  assume a: "digest_ok h" "scopes_ok scopes" "length (tenant_keys db t) < MAX_ACTIVE_KEYS"
    and i: "insert_key (key_at t h (sort scopes) us) db = (Inr db' :: unit store_error + _)"
  show "db_ok db'"
    by (rule insert_key_ok [OF ok i]) (use a in \<open>simp_all add: key_row_ok_def scopes_ok_sort\<close>)
qed

lemma call_op_ok:
  assumes ok: "db_ok db" and c: "call_op blank encode plan p db = (Inr u, db')"
  shows "db_ok db'"
proof (cases p)
  case (Create t h now)
  with ok c show ?thesis by (auto intro: create_tenant_db_ok)
next
  case (Add_Key t h scopes now ex)
  with ok c show ?thesis by (auto intro: add_key_db_ok)
next
  case (Revoke t sel ex)
  with ok c show ?thesis by (auto elim!: revoke_key_elim intro: filter_keys_ok)
next
  case (List_Keys t ex)
  with ok c show ?thesis by (auto elim!: list_keys_elim)
next
  case (Transact now t f ex)
  with c obtain x where "transact blank encode now t f ex db = (Inr x, db')" by auto
  then show ?thesis by (rule transact_elim) (rule upsert_state_ok [OF ok])
next
  case (Read_State now t ex)
  with ok c show ?thesis by (auto elim!: read_state_elim intro: filter_states_ok)
next
  case (Delete t ex)
  with ok c show ?thesis by (auto elim!: delete_tenant_elim intro: remove_tenant_ok)
next
  case (Purge now)
  with ok c show ?thesis by (auto elim!: purge_expired_elim intro: filter_states_ok)
qed

text \<open>A call that raises leaves the database as it was.\<close>

lemma transaction_rollback: "isl (fst (transaction db body)) \<Longrightarrow> snd (transaction db body) = db"
  by (auto simp: transaction_def split: sum.splits)

lemma outcome_rollback: "isl (fst (outcome_of r)) \<longleftrightarrow> isl (fst r)" "snd (outcome_of r) = snd r"
  by (cases "fst r"; simp add: outcome_of_def)+

lemmas op_defs = create_tenant_def add_key_def revoke_key_def list_keys_def transact_def read_state_def
  delete_tenant_def purge_expired_def

lemma call_op_rollback:
  "call_op blank encode plan p db = (Inl e, db') \<Longrightarrow> db' = db"
  by (cases p) (simp_all add: op_defs)

lemma exec_op_cases:
  obtains (rolled_back) "exec_op blank encode plan p db = db"
  | (committed) "call_op blank encode plan p db = (Inr (), exec_op blank encode plan p db)"
proof (cases "call_op blank encode plan p db")
  case (Pair r db')
  then show thesis
    using call_op_rollback [of blank encode plan p db] rolled_back committed
    by (cases r) (auto simp: exec_op_def)
qed

lemma exec_op_ok: "db_ok db \<Longrightarrow> db_ok (exec_op blank encode plan p db)"
  by (cases rule: exec_op_cases [of blank encode plan p db]) (auto dest: call_op_ok)

subsection \<open>The laws of the interface\<close>

lemma key_holder_None: "key_holder db h = None \<longleftrightarrow> h \<notin> kr_hash ` set (db_keys db)"
  by (simp add: key_holder_def find_key_None)

lemma upsert_state_fields:
  assumes "upsert_state w db = Inr db'"
  shows "db_keys db' = db_keys db" "db_tenants db' = db_tenants db"
  using assms by (auto simp: upsert_state_def split: if_splits)

lemma call_op_keys:
  assumes "call_op blank encode plan p db = (Inr u, db')"
  shows "set (db_keys db') \<subseteq> set (db_keys db) \<union> {k. op_registers p = Some (kr_hash k)}"
proof (cases p)
  case (Transact now t f ex)
  with assms obtain x where "transact blank encode now t f ex db = (Inr x, db')" by auto
  then show ?thesis by (rule transact_elim) (simp add: upsert_state_fields(1))
qed (use assms in \<open>auto elim!: create_tenant_elim add_key_elim revoke_key_elim list_keys_elim
    read_state_elim delete_tenant_elim purge_expired_elim simp: remove_tenant_def\<close>)

lemma exec_op_holder:
  assumes "key_holder db h = None" "op_registers p \<noteq> Some h"
  shows "key_holder (exec_op blank encode plan p db) h = None"
proof (cases rule: exec_op_cases [of blank encode plan p db])
  case committed
  from call_op_keys [OF this] assms show ?thesis by (auto simp: key_holder_None)
qed (simp add: assms)

lemma filter_map_other:
  "sw_tenant w \<noteq> t \<Longrightarrow>
   filter (\<lambda>v. sw_tenant v = t) (map (\<lambda>v. if sw_tenant v = sw_tenant w then w else v) ws) =
   filter (\<lambda>v. sw_tenant v = t) ws"
  by (induction ws) auto

lemma filter_filter_other: "(\<And>x. P x \<Longrightarrow> Q x) \<Longrightarrow> filter P (filter Q xs) = filter P xs"
  by (induction xs) auto

lemma upsert_state_view:
  assumes "upsert_state w db = Inr db'" "sw_tenant w \<noteq> t"
  shows "tenant_view db' t = tenant_view db t"
  using assms filter_map_other [OF assms(2)]
  by (auto simp: upsert_state_def tenant_view_def tenant_keys_def split: if_splits)

lemma remove_tenant_view: "t' \<noteq> t \<Longrightarrow> tenant_view (remove_tenant t' db) t = tenant_view db t"
  by (auto simp: tenant_view_def tenant_keys_def remove_tenant_def intro!: filter_filter_other simp del: filter_filter)

lemma keys_view:
  "(\<And>k. k \<in> set (db_keys db) \<Longrightarrow> kr_tenant k = t \<Longrightarrow> P k) \<Longrightarrow>
   tenant_view (db\<lparr>db_keys := filter P (db_keys db)\<rparr>) t = tenant_view db t"
  by (auto simp: tenant_view_def tenant_keys_def intro!: filter_cong)

lemma states_view:
  "t' \<noteq> t \<Longrightarrow> tenant_view (db\<lparr>db_states := filter (\<lambda>w. sw_tenant w \<noteq> t') (db_states db)\<rparr>) t = tenant_view db t"
  by (auto simp: tenant_view_def tenant_keys_def intro!: filter_cong)

lemma call_op_view:
  assumes c: "call_op blank encode plan p db = (Inr u, db')" and t: "op_tenant p = Some t'" "t' \<noteq> t"
  shows "tenant_view db' t = tenant_view db t"
proof (cases p)
  case (Create s h now)
  with c t show ?thesis by (auto elim!: create_tenant_elim simp: tenant_view_def tenant_keys_def)
next
  case (Add_Key s h scopes now ex)
  with c t show ?thesis by (auto elim!: add_key_elim simp: tenant_view_def tenant_keys_def)
next
  case (Revoke s sel ex)
  with c t show ?thesis by (auto elim!: revoke_key_elim intro!: keys_view)
next
  case (List_Keys s ex)
  with c show ?thesis by (auto elim!: list_keys_elim)
next
  case (Transact now s f ex)
  with c obtain x where "transact blank encode now s f ex db = (Inr x, db')" by auto
  then show ?thesis by (rule transact_elim) (use t Transact in \<open>auto elim: upsert_state_view\<close>)
next
  case (Read_State now s ex)
  with c t show ?thesis by (auto elim!: read_state_elim simp: states_view)
next
  case (Delete s ex)
  with c t show ?thesis by (auto elim!: delete_tenant_elim simp: remove_tenant_view)
qed (use t in simp)

lemma exec_op_view:
  assumes "op_tenant p = Some t'" "t' \<noteq> t"
  shows "tenant_view (exec_op blank encode plan p db) t = tenant_view db t"
  by (cases rule: exec_op_cases [of blank encode plan p db]) (auto dest: call_op_view [OF _ assms])

interpretation sqlite: tenant_store db_ok "exec_op blank encode plan" key_holder tenant_view op_tenant op_registers
  for blank :: 's and encode and plan
  by unfold_locales (auto intro: exec_op_ok exec_op_holder exec_op_view)

end
