(* ===== verification/Store_Spec.thy ===== *)
theory Store_Spec
  imports Store_Runs "HOL-Library.Multiset"
begin

text \<open>
  What the tenant store promises, as maps instead of tables, and the proof that the SQLite
  operations implement it; then the guarantees that a client sees: the binding of a call to a live credential,
  visibility of committed state until it expires, complete listings, deletion and purging.
\<close>

subsection \<open>The abstract store\<close>

record 's spec =
  sp_tenants :: "string set"
  sp_keys :: "string \<Rightarrow> (string \<times> string list) option"
  sp_state :: "string \<Rightarrow> ('s \<times> int) option"

definition spec_of :: "'s db \<Rightarrow> 's spec" where
  "spec_of db =
     \<lparr>sp_tenants = {t. has_tenant db t},
      sp_keys = (\<lambda>h. map_option (\<lambda>k. (kr_tenant k, kr_scopes k)) (find_key db h)),
      sp_state = (\<lambda>t. map_option (\<lambda>w. (sw_state w, sw_expires_at w)) (find_state db t))\<rparr>"

definition spec_state :: "'s \<Rightarrow> int \<Rightarrow> 's spec \<Rightarrow> string \<Rightarrow> 's" where
  "spec_state blank now sp t =
     (case sp_state sp t of None \<Rightarrow> blank | Some (s, expires) \<Rightarrow> if now < expires then s else blank)"

fun instant :: "pydatetime \<Rightarrow> int" where
  "instant (Aware us) = us"
| "instant Naive = 0"

text \<open>The effect of a committed call; a purge depends on the query plan and is stated separately.\<close>

fun spec_op :: "'s \<Rightarrow> ('s, 'e, 'a) store_op \<Rightarrow> 's spec \<Rightarrow> 's spec" where
  "spec_op blank (Create t h now) sp =
     \<lparr>sp_tenants = insert t (sp_tenants sp), sp_keys = (sp_keys sp)(h \<mapsto> (t, SCOPES)),
      sp_state = (sp_state sp)(t \<mapsto> (blank, instant now + RETENTION_US))\<rparr>"
| "spec_op blank (Add_Key t h scopes now ex) sp = sp\<lparr>sp_keys := (sp_keys sp)(h \<mapsto> (t, sort scopes))\<rparr>"
| "spec_op blank (Revoke t sel ex) sp =
     sp\<lparr>sp_keys := (\<lambda>h. case sp_keys sp h of
          None \<Rightarrow> None
        | Some (t', sc) \<Rightarrow> if t' = t \<and> (h = sel \<or> take 12 h = sel) then None else Some (t', sc))\<rparr>"
| "spec_op blank (Transact now t f ex) sp =
     sp\<lparr>sp_state := (case f (spec_state blank now sp t) of
          Inl e \<Rightarrow> sp_state sp
        | Inr (s, x) \<Rightarrow> (sp_state sp)(t \<mapsto> (s, now + RETENTION_US)))\<rparr>"
| "spec_op blank (Read_State now t ex) sp =
     sp\<lparr>sp_state := (case sp_state sp t of
          None \<Rightarrow> sp_state sp
        | Some (s, expires) \<Rightarrow> if t \<in> sp_tenants sp \<and> expires \<le> now then (sp_state sp)(t := None) else sp_state sp)\<rparr>"
| "spec_op blank (Delete t ex) sp =
     \<lparr>sp_tenants = sp_tenants sp - {t},
      sp_keys = (\<lambda>h. case sp_keys sp h of None \<Rightarrow> None | Some (t', sc) \<Rightarrow> if t' = t then None else Some (t', sc)),
      sp_state = (sp_state sp)(t := None)\<rparr>"
| "spec_op blank _ sp = sp"

subsection \<open>Lookups in the tables\<close>

lemma find_append: "find P (xs @ ys) = (case find P xs of None \<Rightarrow> find P ys | Some x \<Rightarrow> Some x)"
  by (induction xs) auto

lemma find_filter_key:
  "distinct (map f xs) \<Longrightarrow>
   find (\<lambda>x. f x = i) (filter P xs) = (case find (\<lambda>x. f x = i) xs of None \<Rightarrow> None | Some x \<Rightarrow> if P x then Some x else None)"
proof (induction xs)
  case (Cons x xs)
  have none: "find (\<lambda>y. f y = f x) (filter Q xs) = None" for Q
    using Cons.prems by (auto simp: find_None_iff_image)
  show ?case
  proof (cases "f x = i")
    case True
    then show ?thesis using none [of P] by auto
  next
    case False
    then show ?thesis using Cons by auto
  qed
qed simp

lemma find_map_replace:
  "f y = i \<Longrightarrow> find (\<lambda>x. f x = j) (map (\<lambda>x. if f x = i then y else x) xs) =
   (if i = j then (if find (\<lambda>x. f x = j) xs = None then None else Some y) else find (\<lambda>x. f x = j) xs)"
  by (induction xs) auto

lemma spec_of_simps [simp]:
  "sp_tenants (spec_of db) = {t. has_tenant db t}"
  "sp_keys (spec_of db) h = map_option (\<lambda>k. (kr_tenant k, kr_scopes k)) (find_key db h)"
  "sp_state (spec_of db) t = map_option (\<lambda>w. (sw_state w, sw_expires_at w)) (find_state db t)"
  by (simp_all add: spec_of_def)

lemma spec_eqI:
  "sp_tenants x = sp_tenants y \<Longrightarrow> (\<And>h. sp_keys x h = sp_keys y h) \<Longrightarrow> (\<And>t. sp_state x t = sp_state y t) \<Longrightarrow> x = y"
  for x y :: "'s spec"
  by (rule spec.equality) auto

lemma db_ok_distinct:
  "db_ok db \<Longrightarrow> distinct (map kr_hash (db_keys db))" "db_ok db \<Longrightarrow> distinct (map sw_tenant (db_states db))"
  by (auto simp: db_ok_def)

lemma key_row_id: "db_ok db \<Longrightarrow> k \<in> set (db_keys db) \<Longrightarrow> kr_key_id k = take 12 (kr_hash k)"
  by (simp add: db_ok_def key_row_ok_def)

lemma current_state_spec: "current_state blank now db t = spec_state blank now (spec_of db) t"
  by (simp add: current_state_def spec_state_def split: option.splits)

lemma find_state_upsert:
  assumes "upsert_state w db = Inr db'"
  shows "find_state db' t = (if t = sw_tenant w then Some w else find_state db t)"
  using assms
  by (auto simp: upsert_state_def find_state_def find_map_replace find_append split: if_splits option.splits)

subsection \<open>Refinement\<close>

lemma create_refines:
  assumes "create_tenant blank t h now db = (Inr u, db')" "db_ok db"
  shows "spec_of db' = spec_op blank (Create t h now) (spec_of db)"
  using assms(1)
proof (rule create_tenant_elim)
  fix us
  assume us: "now = Aware us" and new: "\<not> has_tenant db t" "find_key db h = None"
    and db': "db' = \<lparr>db_tenants = db_tenants db @ [tenant_at t us], db_keys = db_keys db @ [key_at t h SCOPES us],
           db_states = db_states db @ [state_at t blank us]\<rparr>"
  have "find_state db t = None" using new(1) assms(2) by (auto simp: find_state_None db_ok_def)
  with new us show ?thesis
    by (intro spec_eqI)
      (auto simp: db' has_tenant_def find_key_def find_state_def find_append split: option.splits)
qed

lemma add_key_refines:
  assumes "add_key t h scopes now ex db = (Inr u, db')"
  shows "spec_of db' = spec_op blank (Add_Key t h scopes now ex) (spec_of db)"
  using assms
proof (rule add_key_elim)
  fix us
  assume "db' = db\<lparr>db_keys := db_keys db @ [key_at t h (sort scopes) us]\<rparr>" "find_key db h = None"
  then show ?thesis
    by (intro spec_eqI) (auto simp: has_tenant_def find_key_def find_state_def find_append split: option.splits)
qed

lemma key_select: "db_keys (db\<lparr>db_keys := ks\<rparr>) = ks"
  by simp

lemma revoke_refines:
  assumes "revoke_key t sel ex db = (Inr b, db')" "db_ok db"
  shows "spec_of db' = spec_op blank (Revoke t sel ex) (spec_of db)"
  using assms(1)
proof (rule revoke_key_elim)
  let ?hit = "\<lambda>k. kr_tenant k = t \<and> (kr_hash k = sel \<or> kr_key_id k = sel)"
  assume db': "db' = db\<lparr>db_keys := filter (\<lambda>k. \<not> ?hit k) (db_keys db)\<rparr>"
  have find: "find_key db' h = (case find_key db h of None \<Rightarrow> None | Some k \<Rightarrow> if \<not> ?hit k then Some k else None)" for h
    unfolding db' find_key_def key_select find_filter_key [OF db_ok_distinct(1) [OF assms(2)]] ..
  show ?thesis
  proof (rule spec_eqI)
    show "sp_keys (spec_of db') h = sp_keys (spec_op blank (Revoke t sel ex) (spec_of db)) h" for h
    proof (cases "find_key db h")
      case (Some k)
      then have "k \<in> set (db_keys db)" "kr_hash k = h" using find_key_Some [OF assms(2)] by auto
      with Some find [of h] key_row_id [OF assms(2)] show ?thesis by simp
    qed (simp add: find)
  qed (auto simp: db' has_tenant_def find_state_def)
qed

lemma delete_refines:
  assumes "delete_tenant t ex db = (Inr b, db')" "db_ok db"
  shows "spec_of db' = spec_op blank (Delete t ex) (spec_of db)"
  using assms(1)
proof (rule delete_tenant_elim)
  assume db': "db' = remove_tenant t db"
  have "find_key db' h = (case find_key db h of None \<Rightarrow> None | Some k \<Rightarrow> if kr_tenant k \<noteq> t then Some k else None)" for h
    unfolding db' find_key_def remove_tenant_def using find_filter_key [OF db_ok_distinct(1) [OF assms(2)]] by simp
  moreover have "find_state db' s = (case find_state db s of None \<Rightarrow> None | Some w \<Rightarrow> if sw_tenant w \<noteq> t then Some w else None)" for s
    unfolding db' find_state_def remove_tenant_def using find_filter_key [OF db_ok_distinct(2) [OF assms(2)]] by simp
  moreover have "find_state db s = Some w \<Longrightarrow> sw_tenant w = s" for s w
    by (auto simp: find_state_def find_Some_iff)
  ultimately show ?thesis
    by (intro spec_eqI) (auto simp: db' has_tenant_remove split: option.splits)
qed

lemma transact_refines:
  assumes "transact blank encode now t f ex db = (Inr x, db')"
  shows "spec_of db' = spec_op blank (Transact now t f ex) (spec_of db)"
  using assms
proof (rule transact_elim)
  fix s enc
  assume f: "f (current_state blank now db t) = Inr (s, x)"
    and up: "upsert_state (state_at t s now) db = (Inr db' :: unit store_error + _)"
  from find_state_upsert [OF up] upsert_state_fields [OF up] f show ?thesis
    by (intro spec_eqI) (auto simp: has_tenant_def find_key_def current_state_spec)
qed

lemma find_state_drop:
  assumes "db_ok db"
  shows "find_state (db\<lparr>db_states := filter P (db_states db)\<rparr>) t =
    (case find_state db t of None \<Rightarrow> None | Some w \<Rightarrow> if P w then Some w else None)"
proof -
  have "find_state (db\<lparr>db_states := filter P (db_states db)\<rparr>) t = find (\<lambda>w. sw_tenant w = t) (filter P (db_states db))"
    by (simp add: find_state_def)
  also have "\<dots> = (case find_state db t of None \<Rightarrow> None | Some w \<Rightarrow> if P w then Some w else None)"
    unfolding find_state_def by (rule find_filter_key [OF db_ok_distinct(2) [OF assms]])
  finally show ?thesis .
qed

lemma find_state_tenant: "find_state db t = Some w \<Longrightarrow> sw_tenant w = t"
  by (auto simp: find_state_def find_Some_iff)

lemma read_state_drops:
  assumes "read_state blank now t ex db = (Inr x, db')"
  shows "db' = (case find_state db t of
      None \<Rightarrow> db
    | Some w \<Rightarrow> if has_tenant db t \<and> sw_expires_at w \<le> now
                then db\<lparr>db_states := filter (\<lambda>w. sw_tenant w \<noteq> t) (db_states db)\<rparr> else db)"
  using assms by (auto simp: read_state_def rbind_Inr_iff split: option.splits if_splits)

lemma read_refines:
  assumes "read_state blank now t ex db = (Inr x, db')" "db_ok db"
  shows "spec_of db' = spec_op blank (Read_State now t ex) (spec_of db)"
proof -
  note db' = read_state_drops [OF assms(1)]
  have "find_state db' s = (if s = t then (case find_state db t of None \<Rightarrow> None | Some w \<Rightarrow>
      if has_tenant db t \<and> sw_expires_at w \<le> now then None else Some w) else find_state db s)" for s
    using find_state_tenant [of db s]
    by (cases "find_state db t")
      (auto simp: db' find_state_drop [OF assms(2)] find_state_tenant split: option.splits)
  moreover have "has_tenant db' s = has_tenant db s" "find_key db' h = find_key db h" for s h
    by (auto simp: db' find_key_def split: option.splits)
  ultimately show ?thesis
    by (intro spec_eqI) (auto split: option.splits)
qed

lemma call_op_refines:
  fixes p :: "('s, 'e, 'a) store_op"
  assumes ok: "db_ok db" and c: "call_op blank encode plan p db = (Inr u, db')" and p: "op_tenant p \<noteq> None"
  shows "spec_of db' = spec_op blank p (spec_of db)"
proof (cases p)
  case (Create t h now)
  with ok c show ?thesis using create_refines by simp
next
  case (Add_Key t h scopes now ex)
  with c show ?thesis using add_key_refines by simp
next
  case (Revoke t sel ex)
  with c obtain x where "revoke_key t sel ex db = ((Inr x :: 'e store_error + _), db')" by auto
  then show ?thesis unfolding Revoke by (rule revoke_refines [OF _ ok])
next
  case (List_Keys t ex)
  with c show ?thesis by (auto elim!: list_keys_elim)
next
  case (Transact now t f ex)
  with c obtain x where "transact blank encode now t f ex db = ((Inr x :: 'e store_error + _), db')" by auto
  then show ?thesis unfolding Transact by (rule transact_refines)
next
  case (Read_State now t ex)
  with c obtain x where "read_state blank now t ex db = ((Inr x :: 'e store_error + _), db')" by auto
  then show ?thesis unfolding Read_State by (rule read_refines [OF _ ok])
next
  case (Delete t ex)
  with c obtain x where "delete_tenant t ex db = ((Inr x :: 'e store_error + _), db')" by auto
  then show ?thesis unfolding Delete by (rule delete_refines [OF _ ok])
qed (use p in simp)

subsection \<open>Guarantees\<close>

lemma holds_key_holder: "db_ok db \<Longrightarrow> holds_key db t h \<longleftrightarrow> key_holder db h = Some t"
  by (auto simp: holds_key_def key_holder_def find_key_Some)

lemma call_op_bound:
  assumes "call_op blank encode plan p db = (Inr u, db')" "op_expects p = Some g" "op_tenant p = Some t"
  shows "holds_key db t g"
proof (cases p)
  case (Transact now s f ex)
  with assms(1) obtain x where "transact blank encode now s f ex db = (Inr x, db')" by auto
  then show ?thesis by (rule transact_elim) (use assms(2,3) Transact in auto)
qed (use assms in \<open>auto elim!: add_key_elim revoke_key_elim list_keys_elim read_state_elim delete_tenant_elim\<close>)

lemma authenticate_holder:
  assumes "db_ok db" "digest_ok h"
  shows "\<exists>r. authenticate h db = Inr r \<and> map_option ki_tenant r = key_holder db h \<and>
    (\<forall>i. r = Some i \<longrightarrow> ki_active i \<and> ki_key_id i = take 12 h \<and> scopes_ok (ki_scopes i))"
proof (cases "find_key db h")
  case None
  then show ?thesis using assms(2) by (simp add: authenticate_def check_digest_def key_holder_def)
next
  case (Some k)
  then have "k \<in> set (db_keys db)" by (simp add: find_key_Some [OF assms(1)])
  then have "has_tenant db (kr_tenant k)" "key_row_ok k" using assms(1) by (auto simp: db_ok_def)
  with Some show ?thesis
    using assms(2) by (simp add: authenticate_def check_digest_def key_holder_def key_record_def key_row_ok_def)
qed

lemma key_unique:
  assumes "db_ok db" "k \<in> set (db_keys db)" "k' \<in> set (db_keys db)" "kr_hash k' = kr_hash k"
  shows "k' = k"
  using assms find_key_Some [OF assms(1)] by (metis option.inject)

lemma key_holder_row:
  assumes "db_ok db" "key_holder db h = Some t"
  obtains k where "k \<in> set (db_keys db)" "kr_hash k = h" "kr_tenant k = t"
  using assms by (auto simp: key_holder_def find_key_Some)

lemma revoked_digest:
  assumes "db_ok db" "revoke_key t h ex db = (Inr b, db')" "key_holder db h = Some t"
  shows "b" "key_holder db' h = None"
proof -
  obtain k where k: "k \<in> set (db_keys db)" "kr_hash k = h" "kr_tenant k = t"
    using assms(1,3) by (rule key_holder_row)
  have gone: "h \<notin> kr_hash ` set (filter (\<lambda>k. \<not> (kr_tenant k = t \<and> (kr_hash k = h \<or> kr_key_id k = h))) (db_keys db))"
  proof
    assume "h \<in> kr_hash ` set (filter (\<lambda>k. \<not> (kr_tenant k = t \<and> (kr_hash k = h \<or> kr_key_id k = h))) (db_keys db))"
    then obtain k' where k': "k' \<in> set (db_keys db)" "kr_hash k' = h" "kr_tenant k' \<noteq> t" by auto
    then have "k' = k" using key_unique [OF assms(1) k(1)] k(2) by metis
    with k' k show False by simp
  qed
  show "b" using assms(2) k by (auto elim: revoke_key_elim)
  show "key_holder db' h = None"
    using assms(2) by (rule revoke_key_elim) (simp only: key_holder_None key_select gone not_False_eq_True)
qed

lemma read_after_transact:
  assumes "transact blank encode now t f ex db = (Inr x, db')" "f (current_state blank now db t) = Inr (s, x)"
    "\<And>g. ex' = Some g \<Longrightarrow> digest_ok g \<and> holds_key db t g"
  shows "fst (read_state blank now' t ex' db') = (Inr (Some (if now' < now + RETENTION_US then s else blank)) :: 'e2 store_error + 's option)"
  using assms(1)
proof (rule transact_elim)
  fix s' enc
  assume t: "tenant_id_ok t" "has_tenant db t" and f: "f (current_state blank now db t) = Inr (s', x)"
    and up: "upsert_state (state_at t s' now) db = (Inr db' :: unit store_error + _)"
  note F = upsert_state_fields [OF up]
  have "find_state db' t = Some (state_at t s now)" using find_state_upsert [OF up] f assms(2) by simp
  moreover have "has_tenant db' t" using t(2) F(2) by (simp add: has_tenant_def)
  moreover have "\<forall>g. ex' = Some g \<longrightarrow> digest_ok g \<and> holds_key db' t g"
    using assms(3) F(1) by (simp add: holds_key_def)
  ultimately have "read_state blank now' t ex' db' =
      ((Inr (Some (if now' < now + RETENTION_US then s else blank)) :: 'e2 store_error + 's option),
       if now' < now + RETENTION_US then db' else db'\<lparr>db_states := filter (\<lambda>w. sw_tenant w \<noteq> t) (db_states db')\<rparr>)"
    using t(1) by (simp add: read_state_def rbind_Inr_iff)
  then show ?thesis by simp
qed

lemma list_keys_complete:
  assumes "db_ok db" "list_keys t ex db = (Inr ks, db')"
  shows "mset (map ki_key_id ks) = mset (map kr_key_id (tenant_keys db t))" "length ks \<le> MAX_ACTIVE_KEYS"
    "distinct (map ki_key_id ks)" "sorted (map (\<lambda>k. (ki_created_at k, ki_key_id k)) ks)"
proof -
  let ?key = "\<lambda>k. (kr_created_at k, kr_key_id k)"
  let ?rows = "sort_key ?key (tenant_keys db t)"
  have bound: "length (tenant_keys db t) \<le> MAX_ACTIVE_KEYS" using assms(1) by (simp add: db_ok_def)
  then have ks: "ks = map (\<lambda>k. \<lparr>ki_key_id = kr_key_id k, ki_scopes = kr_scopes k, ki_active = True, ki_created_at = kr_created_at k\<rparr>) ?rows"
    using assms(2) by (auto elim!: list_keys_elim)
  then have ids: "map ki_key_id ks = map kr_key_id ?rows" by (simp add: o_def)
  then show m: "mset (map ki_key_id ks) = mset (map kr_key_id (tenant_keys db t))"
    by (simp only: mset_map mset_sort)
  show "length ks \<le> MAX_ACTIVE_KEYS" using bound by (simp add: ks)
  have "distinct (map (\<lambda>k. (kr_tenant k, kr_key_id k)) (tenant_keys db t))"
    using assms(1) by (simp add: db_ok_def tenant_keys_def distinct_map_filter)
  then have "distinct (map kr_key_id (tenant_keys db t))"
    by (auto simp: tenant_keys_def distinct_map inj_on_def)
  then show "distinct (map ki_key_id ks)" using m by (metis mset_eq_imp_distinct_iff)
  have "map (\<lambda>k. (ki_created_at k, ki_key_id k)) ks = map ?key ?rows" by (simp add: ks o_def)
  then show "sorted (map (\<lambda>k. (ki_created_at k, ki_key_id k)) ks)" by (simp only: sorted_sort_key)
qed

lemma deleted_tenant:
  assumes "delete_tenant t ex db = (Inr b, db')"
  shows "tenant_view db' t = ([], [], [])" "key_holder db h = Some t \<Longrightarrow> db_ok db \<Longrightarrow> key_holder db' h = None"
proof -
  have db': "db' = remove_tenant t db" using assms by (auto elim: delete_tenant_elim)
  show "tenant_view db' t = ([], [], [])"
    by (simp add: db' tenant_view_def tenant_keys_def remove_tenant_def)
  show "key_holder db' h = None" if k: "key_holder db h = Some t" and ok: "db_ok db"
  proof -
    obtain r where r: "r \<in> set (db_keys db)" "kr_hash r = h" "kr_tenant r = t"
      using ok k by (rule key_holder_row)
    have "h \<notin> kr_hash ` set (filter (\<lambda>k. kr_tenant k \<noteq> t) (db_keys db))"
    proof
      assume "h \<in> kr_hash ` set (filter (\<lambda>k. kr_tenant k \<noteq> t) (db_keys db))"
      then obtain k' where k': "k' \<in> set (db_keys db)" "kr_hash k' = h" "kr_tenant k' \<noteq> t" by auto
      then have "k' = r" using key_unique [OF ok r(1)] r(2) by metis
      with k' r show False by simp
    qed
    then show ?thesis by (simp only: db' remove_tenant_def key_holder_None db.select_convs not_False_eq_True)
  qed
qed

lemma insert_key_error: "insert_key k db = Inl e \<Longrightarrow> e = IntegrityError"
  by (auto simp: insert_key_def split: if_splits)

text \<open>Expired rows are purged, at most a hundred at a time.\<close>

lemma length_filter_notin:
  assumes "distinct (map f xs)" "V \<subseteq> f ` set xs"
  shows "length xs - length (filter (\<lambda>x. f x \<notin> V) xs) = card V"
proof -
  have "length (filter (\<lambda>x. f x \<notin> V) xs) = card (f ` set (filter (\<lambda>x. f x \<notin> V) xs))"
    using assms(1) by (metis distinct_card distinct_map_filter length_map list.set_map)
  also have "f ` set (filter (\<lambda>x. f x \<notin> V) xs) = f ` set xs - V" by auto
  also have "card \<dots> = card (f ` set xs) - card V"
    using assms(2) by (intro card_Diff_subset) (auto intro: finite_subset)
  also have "card (f ` set xs) = length xs" using assms(1) by (metis distinct_card length_map list.set_map)
  finally have "length (filter (\<lambda>x. f x \<notin> V) xs) = length xs - card V" .
  moreover have "card V \<le> length xs"
    using assms(2) by (metis List.finite_set card_length card_mono finite_imageI length_map list.set_map le_trans)
  ultimately show ?thesis by simp
qed

lemma purge_expired_effect:
  assumes ok: "db_ok db" and plan: "mset (plan (db_states db)) = mset (db_states db)"
    and c: "purge_expired plan now db = (Inr n, db')"
  shows "n = min 100 (length (filter (\<lambda>w. sw_expires_at w \<le> now) (db_states db)))"
    "w \<in> set (db_states db) \<Longrightarrow> now < sw_expires_at w \<Longrightarrow> w \<in> set (db_states db')"
    "length (filter (\<lambda>w. sw_expires_at w \<le> now) (db_states db)) \<le> 100 \<Longrightarrow>
     w \<in> set (db_states db') \<Longrightarrow> now < sw_expires_at w"
proof -
  let ?old = "\<lambda>w. sw_expires_at w \<le> now"
  let ?hits = "take 100 (filter ?old (plan (db_states db)))"
  obtain V where db': "db' = db\<lparr>db_states := filter (\<lambda>w. sw_tenant w \<notin> V) (db_states db)\<rparr>"
    and V: "V = sw_tenant ` set ?hits" and n: "n = length (db_states db) - length (db_states db')"
    using c by (rule purge_expired_elim)
  have dist: "distinct (map sw_tenant (db_states db))" using ok by (simp add: db_ok_def)
  have same: "set (plan (db_states db)) = set (db_states db)" using plan by (rule mset_eq_setD)
  have "mset (map sw_tenant (plan (db_states db))) = mset (map sw_tenant (db_states db))" using plan by simp
  then have "distinct (map sw_tenant (plan (db_states db)))" using dist by (metis mset_eq_imp_distinct_iff)
  then have "distinct (map sw_tenant ?hits)" by (simp add: distinct_map_filter take_map [symmetric] distinct_take)
  then have "card V = length ?hits" unfolding V by (metis distinct_card length_map list.set_map)
  moreover have "length (filter ?old (plan (db_states db))) = length (filter ?old (db_states db))"
    using plan by (metis mset_filter size_mset)
  moreover have "set ?hits \<subseteq> set (filter ?old (plan (db_states db)))" by (rule set_take_subset)
  then have hits: "set ?hits \<subseteq> {w \<in> set (db_states db). ?old w}" by (simp only: set_filter same)
  then have "V \<subseteq> sw_tenant ` set (db_states db)" by (auto simp: V)
  ultimately show "n = min 100 (length (filter ?old (db_states db)))"
    using length_filter_notin [OF dist] by (simp add: n db' min.commute)
  have inj: "w = w'" if "w \<in> set (db_states db)" "w' \<in> set (db_states db)" "sw_tenant w = sw_tenant w'" for w w'
    using dist that by (auto simp: distinct_map inj_on_def)
  show "w \<in> set (db_states db')" if w: "w \<in> set (db_states db)" "now < sw_expires_at w"
  proof -
    have "sw_tenant w \<notin> V"
    proof
      assume "sw_tenant w \<in> V"
      then obtain w' where "w' \<in> set ?hits" "sw_tenant w = sw_tenant w'" by (auto simp: V)
      with hits inj [OF w(1)] w(2) show False by fastforce
    qed
    with w(1) show ?thesis by (simp add: db')
  qed
  show "now < sw_expires_at w"
    if few: "length (filter ?old (db_states db)) \<le> 100" and w: "w \<in> set (db_states db')"
  proof (rule ccontr)
    assume "\<not> now < sw_expires_at w"
    then have "w \<in> set (filter ?old (plan (db_states db)))" using w same by (auto simp: db')
    moreover have "length (filter ?old (plan (db_states db))) \<le> 100"
      using few plan by (metis mset_filter size_mset)
    ultimately have "sw_tenant w \<in> V" unfolding V by simp
    with w show False by (simp add: db')
  qed
qed

end
