(* ===== verification/Limiter.thy ===== *)
theory Limiter
  imports Json
begin

text \<open>
  The rate limiter and key helpers of \<open>security.py\<close>: a fixed window per identifier, kept in an
  ordered dictionary of bounded size from which the least recently admitted identifiers fall out.  The clock
  reading \<open>time.monotonic()\<close> and the random token of \<open>secrets\<close> are arguments.
\<close>

subsection \<open>Keys\<close>

definition new_key :: "string \<Rightarrow> string" where
  "new_key token = ''rm_'' @ token"

definition digest_key :: "runtime \<Rightarrow> string \<Rightarrow> string" where
  "digest_key R key = sha256_hex R key"

subsection \<open>The limiter\<close>

record limiter =
  lm_limit :: nat
  lm_seconds :: pyfloat
  lm_capacity :: nat
  lm_buckets :: "(string, pyfloat \<times> nat) dict"

definition new_limiter :: "nat \<Rightarrow> pyfloat \<Rightarrow> nat \<Rightarrow> limiter" where
  "new_limiter limit seconds capacity =
     \<lparr>lm_limit = limit, lm_seconds = seconds, lm_capacity = capacity, lm_buckets = []\<rparr>"

definition move_to_end :: "string \<Rightarrow> (string, 'a) dict \<Rightarrow> (string, 'a) dict" where
  "move_to_end k d = AList.delete k d @ (case map_of d k of None \<Rightarrow> [] | Some v \<Rightarrow> [(k, v)])"

text \<open>\<open>while len(buckets) > capacity: buckets.popitem(last=False)\<close>.\<close>

function pop_oldest :: "nat \<Rightarrow> (string, 'a) dict \<Rightarrow> (string, 'a) dict" where
  "pop_oldest capacity d = (if capacity < length d then pop_oldest capacity (tl d) else d)"
  by pat_completeness auto
termination by (relation "measure (\<lambda>(c, d). length d)") auto

declare pop_oldest.simps [simp del]

text \<open>The window and count that apply to an identifier at a clock reading.\<close>

definition bucket_at :: "limiter \<Rightarrow> string \<Rightarrow> pyfloat \<Rightarrow> pyfloat \<times> nat" where
  "bucket_at l k now =
     (let (start, count) = (case map_of (lm_buckets l) k of None \<Rightarrow> (now, 0) | Some b \<Rightarrow> b)
      in if lm_seconds l \<le> fsub now start then (now, 0) else (start, count))"

definition allow :: "limiter \<Rightarrow> string \<Rightarrow> pyfloat \<Rightarrow> limiter \<times> bool" where
  "allow l k now =
     (let (start, count) = bucket_at l k now
      in if lm_limit l \<le> count then (l, False)
         else (l\<lparr>lm_buckets := pop_oldest (lm_capacity l)
                   (move_to_end k (AList.update k (start, count + 1) (lm_buckets l)))\<rparr>, True))"

subsection \<open>The bounded dictionary\<close>

lemma pop_oldest_drop: "pop_oldest c d = drop (length d - c) d"
proof (induction c d rule: pop_oldest.induct)
  case (1 c d)
  show ?case
  proof (cases "c < length d")
    case True
    then have "Suc (length (tl d) - c) = length d - c" by auto
    moreover have "drop (length (tl d) - c) (tl d) = drop (Suc (length (tl d) - c)) d" by (simp only: drop_Suc)
    ultimately show ?thesis using True 1 by (subst pop_oldest.simps) simp
  qed (simp add: pop_oldest.simps)
qed

lemma move_to_end_update:
  "move_to_end k (AList.update k v d) = AList.delete k d @ [(k, v)]"
  by (simp add: move_to_end_def AList.delete_update_same)

definition bucket_keys :: "limiter \<Rightarrow> string set" where
  "bucket_keys l = set (keys (lm_buckets l))"

definition limiter_ok :: "limiter \<Rightarrow> bool" where
  "limiter_ok l \<longleftrightarrow> dict_ok (lm_buckets l) \<and> length (lm_buckets l) \<le> lm_capacity l \<and>
     (\<forall>(k, start, count) \<in> set (lm_buckets l). count \<le> lm_limit l)"

lemma new_limiter_ok: "limiter_ok (new_limiter limit seconds capacity)"
  by (simp add: limiter_ok_def new_limiter_def)

lemma bucket_at_cases:
  obtains (fresh) "bucket_at l k now = (now, 0)"
  | (running) start count where "map_of (lm_buckets l) k = Some (start, count)" "bucket_at l k now = (start, count)"
      "fsub now start < lm_seconds l"
proof (cases "map_of (lm_buckets l) k")
  case None
  then show thesis by (intro fresh) (simp add: bucket_at_def)
next
  case (Some p)
  moreover obtain start count where "p = (start, count)" by (cases p)
  ultimately show thesis
    using fresh running by (cases "lm_seconds l \<le> fsub now start") (auto simp: bucket_at_def not_le)
qed

lemma delete_dict_ok: "dict_ok d \<Longrightarrow> dict_ok (AList.delete k d)"
  by (rule AList.distinct_delete)

lemma allow_fields:
  "lm_limit (fst (allow l k now)) = lm_limit l" "lm_seconds (fst (allow l k now)) = lm_seconds l"
  "lm_capacity (fst (allow l k now)) = lm_capacity l"
  by (simp_all add: allow_def Let_def split: prod.splits)

lemma allow_denied: "\<not> snd (allow l k now) \<Longrightarrow> fst (allow l k now) = l"
  by (auto simp: allow_def Let_def split: prod.splits if_splits)

lemma allow_buckets:
  assumes "snd (allow l k now)" "bucket_at l k now = (start, count)"
  shows "count < lm_limit l"
    "lm_buckets (fst (allow l k now)) = pop_oldest (lm_capacity l) (AList.delete k (lm_buckets l) @ [(k, start, count + 1)])"
  using assms by (auto simp: allow_def Let_def move_to_end_update split: if_splits)

lemma allow_ok:
  assumes "limiter_ok l"
  shows "limiter_ok (fst (allow l k now))"
proof (cases "snd (allow l k now)")
  case True
  obtain start count where b: "bucket_at l k now = (start, count)" by (cases "bucket_at l k now")
  note A = allow_buckets [OF True b]
  let ?d = "AList.delete k (lm_buckets l) @ [(k, start, count + 1)]"
  have ok: "dict_ok (lm_buckets l)" "\<forall>(k, start, count) \<in> set (lm_buckets l). count \<le> lm_limit l"
    using assms by (auto simp: limiter_ok_def)
  have "dict_ok ?d" using ok(1) by (simp add: delete_dict_ok AList.delete_notin_dom)
  then have "dict_ok (pop_oldest (lm_capacity l) ?d)"
    unfolding pop_oldest_drop by (simp only: drop_map [symmetric] distinct_drop)
  moreover have "\<forall>(k, start, count) \<in> set ?d. count \<le> lm_limit l"
    using ok(2) A(1) by (auto simp: AList.delete_eq)
  then have "\<forall>(k, start, count) \<in> set (pop_oldest (lm_capacity l) ?d). count \<le> lm_limit l"
    unfolding pop_oldest_drop by (blast dest: in_set_dropD)
  ultimately show ?thesis
    by (simp add: limiter_ok_def allow_fields A(2)) (simp add: pop_oldest_drop)
qed (simp add: assms allow_denied)

subsection \<open>Admissions in a window\<close>

fun allow_all :: "limiter \<Rightarrow> (string \<times> pyfloat) list \<Rightarrow> limiter \<times> bool list" where
  "allow_all l [] = (l, [])"
| "allow_all l ((k, t) # calls) =
     (let (l1, ok) = allow l k t; (l2, oks) = allow_all l1 calls in (l2, ok # oks))"

definition admitted :: "string \<Rightarrow> (string \<times> pyfloat) list \<Rightarrow> bool list \<Rightarrow> nat" where
  "admitted k calls oks = length (filter (\<lambda>((k', t), ok). k' = k \<and> ok) (zip calls oks))"

text \<open>How many more calls of \<open>k\<close> can pass in a span that begins at \<open>T\<close> and is shorter than the window.\<close>

definition budget :: "limiter \<Rightarrow> pyfloat \<Rightarrow> string \<Rightarrow> nat" where
  "budget l T k =
     (case map_of (lm_buckets l) k of
        None \<Rightarrow> lm_limit l
      | Some (start, count) \<Rightarrow> (lm_limit l - count) + (if T \<le> start then 0 else lm_limit l))"

lemma budget_le: "budget l T k \<le> 2 * lm_limit l"
  by (auto simp: budget_def split: option.splits)

lemma keys_delete: "set (keys (AList.delete k d)) = set (keys d) - {k}"
  by (auto simp: AList.delete_eq)

lemma allow_room:
  assumes ok: "limiter_ok l" and room: "card (insert k (bucket_keys l)) \<le> lm_capacity l"
    and t: "snd (allow l k now)" "bucket_at l k now = (start, count)"
  shows "lm_buckets (fst (allow l k now)) = AList.delete k (lm_buckets l) @ [(k, start, count + 1)]"
proof -
  let ?d = "AList.delete k (lm_buckets l) @ [(k, start, count + 1)]"
  have "dict_ok (lm_buckets l)" using ok by (simp add: limiter_ok_def)
  then have "dict_ok ?d" by (simp add: delete_dict_ok AList.delete_notin_dom)
  then have "length ?d = card (set (keys ?d))" by (metis distinct_card length_map)
  also have "set (keys ?d) = insert k (bucket_keys l)"
    by (simp only: map_append set_append keys_delete bucket_keys_def) auto
  finally have "length ?d \<le> lm_capacity l" using room by (simp only:)
  then show ?thesis unfolding allow_buckets(2) [OF t] pop_oldest_drop by simp
qed

lemma allow_map_of:
  assumes "limiter_ok l" "card (insert k (bucket_keys l)) \<le> lm_capacity l" "snd (allow l k now)"
    "bucket_at l k now = (start, count)"
  shows "map_of (lm_buckets (fst (allow l k now))) k' =
    (if k' = k then Some (start, count + 1) else map_of (lm_buckets l) k')"
proof -
  have "map_of (AList.delete k (lm_buckets l) @ [(k, start, count + 1)]) k' =
      (if k' = k then Some (start, count + 1) else map_of (lm_buckets l) k')"
    by (auto simp: map_add_def AList.delete_conv' split: option.splits)
  then show ?thesis unfolding allow_room [OF assms] .
qed

lemma allow_keys: "bucket_keys (fst (allow l k now)) \<subseteq> insert k (bucket_keys l)"
proof (cases "snd (allow l k now)")
  case True
  obtain start count where b: "bucket_at l k now = (start, count)" by (cases "bucket_at l k now")
  let ?d = "AList.delete k (lm_buckets l) @ [(k, start, count + 1)]"
  have "set (keys (pop_oldest (lm_capacity l) ?d)) \<subseteq> set (keys ?d)"
    unfolding pop_oldest_drop set_map by (intro image_mono set_drop_subset)
  also have "\<dots> \<subseteq> insert k (bucket_keys l)"
    by (simp only: map_append set_append keys_delete bucket_keys_def) auto
  finally show ?thesis by (simp only: bucket_keys_def allow_buckets(2) [OF True b])
qed (auto simp: allow_denied)

lemma budget_step:
  assumes ok: "limiter_ok l" and room: "card (insert k (bucket_keys l)) \<le> lm_capacity l"
    and time: "T \<le> now" "now \<le> T'" and short: "fsub T' T < lm_seconds l"
  shows "budget (fst (allow l k now)) T k' + (if k' = k \<and> snd (allow l k now) then 1 else 0) \<le> budget l T k'"
proof (cases "snd (allow l k now)")
  case True
  obtain start count where b: "bucket_at l k now = (start, count)" by (cases "bucket_at l k now")
  note m = allow_map_of [OF ok room True b] and c = allow_buckets(1) [OF True b]
  show ?thesis
  proof (cases "k' = k")
    case k: True
    show ?thesis
    proof (cases "map_of (lm_buckets l) k")
      case None
      with b have "count = 0" "start = now" by (auto simp: bucket_at_def split: if_splits)
      then show ?thesis using True k c m None time by (simp add: budget_def allow_fields)
    next
      case (Some p)
      obtain s0 c0 where p: "p = (s0, c0)" by (cases p)
      then have eq: "(start, count) = (if lm_seconds l \<le> fsub now s0 then (now, 0) else (s0, c0))"
        using b Some by (simp add: bucket_at_def)
      show ?thesis
      proof (cases "T \<le> s0")
        case early: True
        then have "fsub now s0 \<le> fsub T' T" using time by (auto simp: fsub_def intro!: fl_mono)
        then have "start = s0" "count = c0" using eq short by auto
        then show ?thesis using True k c m Some p early
          by (simp add: budget_def allow_fields Suc_diff_Suc)
      next
        case False
        then show ?thesis using True k c m Some p eq time by (auto simp: budget_def allow_fields split: if_splits)
      qed
    qed
  next
    case False
    then show ?thesis using m by (simp add: budget_def allow_fields split: option.split)
  qed
qed (simp add: allow_denied)

lemma allow_all_budget:
  assumes "limiter_ok l" "card (fst ` set calls \<union> bucket_keys l) \<le> lm_capacity l"
    "\<forall>(i, t) \<in> set calls. T \<le> t \<and> t \<le> T'" "fsub T' T < lm_seconds l"
  shows "admitted k calls (snd (allow_all l calls)) \<le> budget l T k"
  using assms
proof (induction calls arbitrary: l)
  case (Cons c calls)
  obtain i t where c: "c = (i, t)" by (cases c)
  let ?l = "fst (allow l i t)"
  have fin: "finite (fst ` set (c # calls) \<union> bucket_keys l)" by (simp add: bucket_keys_def)
  have sub: "insert i (bucket_keys l) \<subseteq> fst ` set (c # calls) \<union> bucket_keys l" using c by auto
  have "fst ` set calls \<union> bucket_keys ?l \<subseteq> fst ` set (c # calls) \<union> bucket_keys l"
    using allow_keys [of l i t] c by auto
  from card_mono [OF fin this] have "card (fst ` set calls \<union> bucket_keys ?l) \<le> lm_capacity ?l"
    using Cons.prems(2) by (simp only: allow_fields)
  then have IH: "admitted k calls (snd (allow_all ?l calls)) \<le> budget ?l T k"
    using Cons.prems by (intro Cons.IH allow_ok) (simp_all add: allow_fields)
  have "card (insert i (bucket_keys l)) \<le> lm_capacity l"
    using card_mono [OF fin sub] Cons.prems(2) by linarith
  then have "budget ?l T k + (if k = i \<and> snd (allow l i t) then 1 else 0) \<le> budget l T k"
    using Cons.prems c by (intro budget_step) auto
  moreover have "admitted k (c # calls) (snd (allow_all l (c # calls))) =
      (if k = i \<and> snd (allow l i t) then 1 else 0) + admitted k calls (snd (allow_all ?l calls))"
    by (auto simp: c admitted_def Let_def split_def)
  ultimately show ?case using IH by linarith
qed (simp add: admitted_def)

text \<open>The first calls of an identifier inside a window pass, up to the limit.\<close>

lemma allow_under_limit: "snd (bucket_at l k now) < lm_limit l \<Longrightarrow> snd (allow l k now)"
  by (simp add: allow_def Let_def split_def)

lemma allow_over_limit: "lm_limit l \<le> snd (bucket_at l k now) \<Longrightarrow> allow l k now = (l, False)"
  by (simp add: allow_def Let_def split_def)

end
