(* ===== verification/Pytext.thy ===== *)
theory Pytext
  imports Json
begin

text \<open>
  The pieces of Python's standard library that read and write text for this program: white space, the
  canonical text of a UUID (\<open>str(UUID(value))\<close>), and \<open>datetime.isoformat()\<close> of an instant in UTC.
\<close>

definition is_space :: "char \<Rightarrow> bool" where
  "is_space c \<longleftrightarrow> c \<in> {CHR '' '', CHR 0x09, CHR 0x0A, CHR 0x0B, CHR 0x0C, CHR 0x0D, CHR 0x1C, CHR 0x1D, CHR 0x1E, CHR 0x1F,
     CHR 0x85, CHR 0xA0}"

definition strip_where :: "(char \<Rightarrow> bool) \<Rightarrow> string \<Rightarrow> string" where
  "strip_where P s = rev (dropWhile P (rev (dropWhile P s)))"

definition strip :: "string \<Rightarrow> string" where
  "strip s = strip_where is_space s"

lemma strip_where_solid: "\<forall>c \<in> set s. \<not> P c \<Longrightarrow> strip_where P s = s"
proof -
  assume s: "\<forall>c \<in> set s. \<not> P c"
  have "dropWhile P xs = xs" if "\<forall>c \<in> set xs. \<not> P c" for xs
    using that by (cases xs) simp_all
  from this [of s] this [of "rev s"] s show ?thesis by (simp add: strip_where_def)
qed

lemma strip_solid: "\<forall>c \<in> set s. \<not> is_space c \<Longrightarrow> strip s = s"
  by (simp add: strip_def strip_where_solid)

subsection \<open>UUID\<close>

text \<open>\<open>s.replace(pattern, "")\<close>.\<close>

function remove_sub :: "string \<Rightarrow> string \<Rightarrow> string" where
  "remove_sub pattern [] = []"
| "remove_sub pattern (c # cs) =
     (if take (length pattern) (c # cs) = pattern then remove_sub pattern (drop (length pattern - 1) cs)
      else c # remove_sub pattern cs)"
  by pat_completeness auto
termination by (relation "measure (\<lambda>(p, s). length s)") auto

definition hex_value :: "char \<Rightarrow> nat option" where
  "hex_value c =
     (if is_digit c then Some (code c - 48)
      else if char_in (CHR ''a'') (CHR ''f'') c then Some (code c - 87)
      else if char_in (CHR ''A'') (CHR ''F'') c then Some (code c - 55)
      else None)"

text \<open>Digits with single underscores between them; the flag says whether an underscore may follow.\<close>

fun parse_hex :: "string \<Rightarrow> bool \<Rightarrow> nat \<Rightarrow> nat option" where
  "parse_hex [] d n = (if d then Some n else None)"
| "parse_hex (c # cs) d n =
     (case hex_value c of
        Some v \<Rightarrow> parse_hex cs True (16 * n + v)
      | None \<Rightarrow> if c = CHR ''_'' \<and> d then parse_hex cs False n else None)"

text \<open>\<open>int(text, 16)\<close> of a text without a minus sign.\<close>

definition py_int16 :: "string \<Rightarrow> nat option" where
  "py_int16 text =
     (let s = strip text; t = (if s \<noteq> [] \<and> hd s = CHR ''+'' then tl s else s)
      in if take 2 t \<in> {''0x'', ''0X''} then (if length t = 2 then None else parse_hex (drop 2 t) True 0)
         else parse_hex t False 0)"

text \<open>The 32 hexadecimal digits of a UUID, in groups of 8, 4, 4, 4 and 12.\<close>

definition hex_digits :: "nat \<Rightarrow> nat \<Rightarrow> string" where
  "hex_digits k n = map (\<lambda>i. digit_char (n div 16 ^ (k - Suc i) mod 16)) [0..<k]"

definition dashed :: "string \<Rightarrow> string" where
  "dashed h = take 8 h @ ''-'' @ take 4 (drop 8 h) @ ''-'' @ take 4 (drop 12 h) @ ''-'' @ take 4 (drop 16 h) @ ''-'' @ drop 20 h"

definition uuid_text :: "string \<Rightarrow> string option" where
  "uuid_text value =
     (let h = filter (\<lambda>c. c \<noteq> CHR ''-'')
                (strip_where (\<lambda>c. c \<in> {CHR ''{'', CHR ''}''}) (remove_sub ''uuid:'' (remove_sub ''urn:'' value)))
      in if length h \<noteq> 32 then None
         else case py_int16 h of
                None \<Rightarrow> None
              | Some n \<Rightarrow> if n < 2 ^ 128 then Some (dashed (hex_digits 32 n)) else None)"

subsection \<open>Instants\<close>

text \<open>Decimal digits of a fixed width.\<close>

definition pad :: "nat \<Rightarrow> nat \<Rightarrow> string" where
  "pad k n = map (\<lambda>i. digit_char (n div 10 ^ (k - Suc i) mod 10)) [0..<k]"

definition is_leap :: "nat \<Rightarrow> bool" where
  "is_leap y \<longleftrightarrow> y mod 4 = 0 \<and> (y mod 100 \<noteq> 0 \<or> y mod 400 = 0)"

definition month_lengths :: "nat \<Rightarrow> nat list" where
  "month_lengths y = [31, if is_leap y then 29 else 28, 31, 30, 31, 30, 31, 31, 30, 31, 30, 31]"

text \<open>Month and day from the day of the year, counted from zero.\<close>

fun month_day :: "nat list \<Rightarrow> nat \<Rightarrow> nat \<Rightarrow> nat \<times> nat" where
  "month_day [] m d = (m, Suc d)"
| "month_day (l # ls) m d = (if d < l then (m, Suc d) else month_day ls (Suc m) (d - l))"

text \<open>Year, month and day from the number of days since 0001-01-01.\<close>

definition civil :: "nat \<Rightarrow> nat \<times> nat \<times> nat" where
  "civil n =
     (let n400 = n div 146097; a = n mod 146097;
          n100 = min 3 (a div 36524); b = a - 36524 * n100;
          n4 = b div 1461; c = b mod 1461;
          n1 = min 3 (c div 365); d = c - 365 * n1;
          y = 400 * n400 + 100 * n100 + 4 * n4 + n1 + 1;
          (m, day) = month_day (month_lengths y) 1 d
      in (y, m, day))"

definition EPOCH_US :: int where "EPOCH_US = 62135596800000000"

definition isoformat :: "int \<Rightarrow> string" where
  "isoformat us =
     (let t = nat (us + EPOCH_US);
          (y, m, d) = civil (t div 86400000000);
          s = t mod 86400000000 div 1000000; f = t mod 1000000
      in pad 4 y @ ''-'' @ pad 2 m @ ''-'' @ pad 2 d @ ''T'' @ pad 2 (s div 3600) @ '':'' @ pad 2 (s div 60 mod 60)
         @ '':'' @ pad 2 (s mod 60) @ (if f = 0 then [] else ''.'' @ pad 6 f) @ ''+00:00'')"

subsection \<open>Shapes\<close>

lemma digit_char_hex: "n < 16 \<Longrightarrow> is_hex (digit_char n)"
proof -
  assume "n < 16"
  then have "n \<in> set [0..<16]" by simp
  moreover have "\<forall>n \<in> set [0..<16]. is_hex (digit_char n)" by code_simp
  ultimately show ?thesis by blast
qed

lemma length_hex_digits [simp]: "length (hex_digits k n) = k"
  by (simp add: hex_digits_def)

lemma length_pad [simp]: "length (pad k n) = k"
  by (simp add: pad_def)

lemma hex_digits_hex: "list_all is_hex (hex_digits k n)"
  by (simp add: hex_digits_def list_all_iff digit_char_hex)

lemma pad_hex: "list_all is_hex (pad k n)"
proof -
  have "m mod 10 < 16" for m :: nat using mod_less_divisor [of 10 m] by linarith
  then show ?thesis by (simp add: pad_def list_all_iff digit_char_hex)
qed

lemma isoformat_shape:
  "length (isoformat us) \<le> 32" "CHR ''T'' \<in> set (isoformat us)" "CHR ''Z'' \<notin> set (isoformat us)"
proof -
  have Z: "CHR ''Z'' \<notin> set (pad k n)" for k n
  proof
    assume "CHR ''Z'' \<in> set (pad k n)"
    then have "is_hex (CHR ''Z'')" using pad_hex by (auto simp: list_all_iff)
    then show False by (simp add: is_hex_def is_digit_def char_in_def code_def)
  qed
  show "length (isoformat us) \<le> 32" "CHR ''T'' \<in> set (isoformat us)" "CHR ''Z'' \<notin> set (isoformat us)"
    by (simp_all add: isoformat_def Let_def split_def Z)
qed

end
