(* ===== verification/Config.thy ===== *)
theory Config
  imports Store Pytext
begin

text \<open>
  The service settings of \<open>config.py\<close>: explicit, validated when built, with the defaults of
  \<open>Settings\<close> and the environment variables of \<open>from_env\<close>.
\<close>

record settings =
  cf_store :: string
  cf_sqlite_path :: string
  cf_project :: string
  cf_database :: string
  cf_admin_hash :: string
  cf_max_body_bytes :: int
  cf_daily_events :: int
  cf_requests_per_minute :: int
  cf_global_requests_per_second :: int

definition default_settings :: settings where
  "default_settings = \<lparr>cf_store = ''sqlite'', cf_sqlite_path = ''.local/reliamesh.db'', cf_project = ''reliamesh'',
     cf_database = ''(default)'', cf_admin_hash = [], cf_max_body_bytes = 131072, cf_daily_events = 10000,
     cf_requests_per_minute = 120, cf_global_requests_per_second = 10\<rparr>"

datatype config_error = Bad_Store | Bad_Project | Bad_Admin_Hash | Bad_Daily_Limit | Bad_Integer

text \<open>\<open>__post_init__\<close>.\<close>

definition check_settings :: "settings \<Rightarrow> config_error + settings" where
  "check_settings c =
     (if cf_store c \<noteq> ''sqlite'' \<and> cf_store c \<noteq> ''firestore'' then Inl Bad_Store
      else if cf_store c = ''firestore'' \<and> cf_project c \<noteq> ''reliamesh'' then Inl Bad_Project
      else if cf_admin_hash c \<noteq> [] \<and> \<not> digest_ok (cf_admin_hash c) then Inl Bad_Admin_Hash
      else if \<not> (1 \<le> cf_daily_events c \<and> cf_daily_events c \<le> 100000) then Inl Bad_Daily_Limit
      else Inr c)"

text \<open>
  \<open>int(text)\<close> on ASCII text: surrounding white space, an optional sign, digits with single
  underscores between them.
\<close>

definition digit_value :: "char \<Rightarrow> int" where
  "digit_value c = int (code c) - 48"

text \<open>The flag says whether the last character was a digit.\<close>

fun parse_digits :: "string \<Rightarrow> bool \<Rightarrow> int \<Rightarrow> int option" where
  "parse_digits [] d n = (if d then Some n else None)"
| "parse_digits (c # cs) d n =
     (if is_digit c then parse_digits cs True (10 * n + digit_value c)
      else if c = CHR ''_'' \<and> d then parse_digits cs False n
      else None)"

definition py_int :: "string \<Rightarrow> int option" where
  "py_int text =
     (case strip text of
        [] \<Rightarrow> None
      | c # cs \<Rightarrow>
          if c = CHR ''-'' then map_option uminus (parse_digits cs False 0)
          else if c = CHR ''+'' then parse_digits cs False 0
          else parse_digits (c # cs) False 0)"

definition getenv :: "(string \<Rightarrow> string option) \<Rightarrow> string \<Rightarrow> string \<Rightarrow> string" where
  "getenv env name dflt = (case env name of None \<Rightarrow> dflt | Some v \<Rightarrow> v)"

definition from_env :: "(string \<Rightarrow> string option) \<Rightarrow> config_error + settings" where
  "from_env env =
     (case py_int (getenv env ''RM_DAILY_EVENTS'' ''10000'') of
        None \<Rightarrow> Inl Bad_Integer
      | Some n \<Rightarrow> check_settings (default_settings\<lparr>
          cf_store := getenv env ''RM_STORE'' ''sqlite'',
          cf_sqlite_path := getenv env ''RM_SQLITE_PATH'' ''.local/reliamesh.db'',
          cf_project := getenv env ''RM_GCP_PROJECT'' ''reliamesh'',
          cf_database := getenv env ''RM_DATABASE'' ''(default)'',
          cf_admin_hash := getenv env ''RM_ADMIN_HASH'' [],
          cf_daily_events := n\<rparr>))"

lemma check_settings_iff:
  "check_settings c = Inr c' \<longleftrightarrow>
     c' = c \<and> cf_store c \<in> {''sqlite'', ''firestore''} \<and> (cf_store c = ''firestore'' \<longrightarrow> cf_project c = ''reliamesh'') \<and>
     (cf_admin_hash c = [] \<or> digest_ok (cf_admin_hash c)) \<and> 1 \<le> cf_daily_events c \<and> cf_daily_events c \<le> 100000"
  by (auto simp: check_settings_def)

lemma from_env_checked:
  assumes "from_env env = Inr c"
  shows "check_settings c = Inr c" "cf_max_body_bytes c = 131072" "cf_requests_per_minute c = 120"
    "cf_global_requests_per_second c = 10"
  using assms by (auto simp: from_env_def check_settings_iff default_settings_def split: option.splits)

lemma from_env_default: "from_env (\<lambda>_. None) = Inr default_settings"
proof -
  have "py_int ''10000'' = Some 10000"
    by (simp add: py_int_def strip_def strip_where_def is_space_def is_digit_def char_in_def code_def digit_value_def)
  then show ?thesis by (simp add: from_env_def getenv_def check_settings_def default_settings_def)
qed

text \<open>\<open>int(str(n))\<close> is \<open>n\<close>: a decimal limit in the environment is read back exactly.\<close>

lemma digit_char_facts:
  "d < 10 \<Longrightarrow> is_digit (digit_char d) \<and> digit_value (digit_char d) = int d"
proof -
  assume "d < 10"
  then have "d \<in> {0, 1, 2, 3, 4, 5, 6, 7, 8, 9}" by auto
  then show ?thesis
    by (elim insertE) (simp_all add: digit_char_def is_digit_def char_in_def code_def digit_value_def)
qed

lemma parse_digits_app:
  "parse_digits (show_nat m @ cs) d n = parse_digits cs True (n * 10 ^ length (show_nat m) + int m)"
proof (induction m arbitrary: cs d n rule: show_nat.induct)
  case (1 m)
  show ?case
  proof (cases "m < 10")
    case True
    then show ?thesis using digit_char_facts [of m] by (simp add: show_nat.simps [of m] mult.commute)
  next
    case False
    have "parse_digits (show_nat m @ cs) d n =
        parse_digits (digit_char (m mod 10) # cs) True (n * 10 ^ length (show_nat (m div 10)) + int (m div 10))"
      using 1 [OF False, of "digit_char (m mod 10) # cs" d n] False by (simp add: show_nat.simps [of m])
    moreover have "int m = 10 * int (m div 10) + int (m mod 10)"
      by (simp add: zdiv_int zmod_int)
    ultimately show ?thesis
      using False digit_char_facts [of "m mod 10"] by (simp add: show_nat.simps [of m] algebra_simps)
  qed
qed

lemma digit_not_space: "is_digit c \<Longrightarrow> \<not> is_space c"
  by (auto simp: is_digit_def char_in_def code_def is_space_def)

lemma show_nat_digits: "c \<in> set (show_nat m) \<Longrightarrow> is_digit c"
proof (induction m rule: show_nat.induct)
  case (1 m)
  then show ?case
    using digit_char_facts by (cases "m < 10") (auto simp: show_nat.simps [of m])
qed

lemma show_nat_nonempty: "show_nat m \<noteq> []"
  by (simp add: show_nat.simps [of m])

lemma py_int_show_nat: "py_int (show_nat m) = Some (int m)"
proof -
  obtain c cs where c: "show_nat m = c # cs" using show_nat_nonempty by (cases "show_nat m") auto
  then have d: "is_digit c" using show_nat_digits [of c m] by simp
  have "strip (show_nat m) = show_nat m" using show_nat_digits digit_not_space by (intro strip_solid) blast
  moreover have "c \<noteq> CHR ''-''" "c \<noteq> CHR ''+''" using d by (auto simp: is_digit_def char_in_def code_def)
  moreover have "parse_digits (show_nat m) False 0 = Some (int m)"
    using parse_digits_app [of m "[]" False 0] by simp
  ultimately show ?thesis by (simp add: py_int_def c)
qed

end
