(* ===== verification/Api.thy ===== *)
theory Api
  imports Summary Store_Spec Limiter Config
begin

text \<open>
  The HTTP handlers of \<open>api.py\<close>: bearer authentication, scopes, the tenant rate limit, and the
  operations on the tenant store.  The framework has parsed and validated a request before a handler runs; a handler is a
  function from the service state to a reply and the new state.  Clocks and random tokens are arguments.
\<close>

subsection \<open>Replies and the service state\<close>

datatype api_error = HTTP nat string \<comment> \<open>status and public error code\<close>

datatype update_error = Detection det_error | Quota

type_synonym tenant_db = "tenant_state db"

record service =
  svc_db :: tenant_db
  svc_limiter :: limiter

record principal =
  pr_tenant :: string
  pr_scopes :: "string list"
  pr_key_hash :: string

definition unavailable :: api_error where
  "unavailable = HTTP 503 ''temporarily_unavailable''"

text \<open>The exception handlers; every other exception becomes the middleware's 503.\<close>

fun detection_reply :: "det_error \<Rightarrow> api_error" where
  "detection_reply (DetectionError c) = HTTP 409 c"
| "detection_reply _ = unavailable"

fun store_reply :: "update_error store_error \<Rightarrow> api_error" where
  "store_reply StorageLimit = HTTP 409 ''storage_limit''"
| "store_reply TenantMissing = HTTP 401 ''invalid_credentials''"
| "store_reply (Callback (Detection e)) = detection_reply e"
| "store_reply (Callback Quota) = HTTP 429 ''daily_event_quota''"
| "store_reply _ = unavailable"

definition store_result :: "(update_error store_error + 'a) \<times> tenant_db \<Rightarrow> (api_error + 'a) \<times> tenant_db" where
  "store_result r = (map_sum store_reply id (fst r), snd r)"

subsection \<open>Authentication\<close>

text \<open>\<open>Bearer rm_[A-Za-z0-9_-]{43}\<close>.\<close>

definition bearer_ok :: "string \<Rightarrow> bool" where
  "bearer_ok h \<longleftrightarrow> length h = 53 \<and> take 10 h = ''Bearer rm_'' \<and> list_all tenant_char (drop 10 h)"

definition bearer :: "runtime \<Rightarrow> string option \<Rightarrow> api_error + string" where
  "bearer R header =
     (let h = (case header of None \<Rightarrow> [] | Some h \<Rightarrow> h)
      in if bearer_ok h then Inr (digest_key R (drop 7 h)) else Inl (HTTP 401 ''invalid_credentials''))"

definition require :: "runtime \<Rightarrow> string \<Rightarrow> string option \<Rightarrow> pyfloat \<Rightarrow> service \<Rightarrow> (api_error + principal) \<times> service" where
  "require R scope header clock svc =
     (case bearer R header of
        Inl e \<Rightarrow> (Inl e, svc)
      | Inr h \<Rightarrow>
         (case authenticate h (svc_db svc) of
            Inl e \<Rightarrow> (Inl (store_reply e), svc)
          | Inr None \<Rightarrow> (Inl (HTTP 401 ''invalid_credentials''), svc)
          | Inr (Some info) \<Rightarrow>
              if \<not> ki_active info then (Inl (HTTP 401 ''invalid_credentials''), svc)
              else if scope \<notin> set (ki_scopes info) then (Inl (HTTP 403 ''insufficient_scope''), svc)
              else let (limiter, ok) = allow (svc_limiter svc) (ki_tenant info) clock
                   in if \<not> ok then (Inl (HTTP 429 ''rate_limited''), svc)
                      else (Inr \<lparr>pr_tenant = ki_tenant info, pr_scopes = ki_scopes info, pr_key_hash = h\<rparr>,
                            svc\<lparr>svc_limiter := limiter\<rparr>)))"

definition admin :: "runtime \<Rightarrow> settings \<Rightarrow> string option \<Rightarrow> api_error + unit" where
  "admin R cfg header =
     rbind (bearer R header) (\<lambda>candidate.
       require_that (cf_admin_hash cfg \<noteq> [] \<and> candidate = cf_admin_hash cfg) (HTTP 401 ''invalid_credentials''))"

text \<open>A handler behind \<open>require(scope)\<close>.\<close>

definition with_principal ::
    "runtime \<Rightarrow> string \<Rightarrow> string option \<Rightarrow> pyfloat \<Rightarrow> service \<Rightarrow>
     (principal \<Rightarrow> tenant_db \<Rightarrow> (api_error + 'a) \<times> tenant_db) \<Rightarrow> (api_error + 'a) \<times> service" where
  "with_principal R scope header clock svc f =
     (case require R scope header clock svc of
        (Inl e, svc1) \<Rightarrow> (Inl e, svc1)
      | (Inr p, svc1) \<Rightarrow> (let (r, db) = f p (svc_db svc1) in (r, svc1\<lparr>svc_db := db\<rparr>)))"

subsection \<open>Handlers\<close>

definition ready_handler :: "runtime \<Rightarrow> bool \<Rightarrow> string option \<Rightarrow> pyfloat \<Rightarrow> service \<Rightarrow> (api_error + unit) \<times> service" where
  "ready_handler R healthy header clock svc =
     with_principal R ''read'' header clock svc (\<lambda>p db.
       (if healthy then Inr () else Inl (HTTP 503 ''storage_unavailable''), db))"

record credential =
  cr_tenant :: string
  cr_key :: string
  cr_scopes :: "string list"

definition create_tenant_handler ::
    "runtime \<Rightarrow> settings \<Rightarrow> string option \<Rightarrow> string \<Rightarrow> string \<Rightarrow> int \<Rightarrow> service \<Rightarrow> (api_error + credential) \<times> service" where
  "create_tenant_handler R cfg header tenant token now svc =
     (case admin R cfg header of
        Inl e \<Rightarrow> (Inl e, svc)
      | Inr _ \<Rightarrow>
          let key = new_key token;
              (r, db) = create_tenant None tenant (digest_key R key) (Aware now) (svc_db svc)
          in ((case r of
                 Inl TenantExists \<Rightarrow> Inl (HTTP 409 ''tenant_exists'')
               | Inl e \<Rightarrow> Inl (store_reply e)
               | Inr _ \<Rightarrow> Inr \<lparr>cr_tenant = tenant, cr_key = key,
                                cr_scopes = [''ingest'', ''read'', ''manage'']\<rparr>),
              svc\<lparr>svc_db := db\<rparr>))"

definition day_of :: "int \<Rightarrow> int" where
  "day_of us = us div 86400000000"

definition used_today :: "int \<Rightarrow> tenant_state \<Rightarrow> int" where
  "used_today now state =
     (case state of
        None \<Rightarrow> 0
      | Some st \<Rightarrow> (case ds_usage st of Some (day, n) \<Rightarrow> if day = day_of now then n else 0 | None \<Rightarrow> 0))"

text \<open>The transaction callback of \<open>ingest\<close>: detection and the daily quota.\<close>

definition ingest_update ::
    "runtime \<Rightarrow> (det_state \<Rightarrow> nat) \<Rightarrow> settings \<Rightarrow> event list \<Rightarrow> int \<Rightarrow> tenant_state \<Rightarrow>
     update_error + tenant_state \<times> metrics" where
  "ingest_update R size_of cfg events now state =
     (let used = used_today now state in
      case process_events R size_of state events (Aware now) of
        Inl e \<Rightarrow> Inl (Detection e)
      | Inr (st, m) \<Rightarrow>
          if cf_daily_events cfg < used + int (mt_accepted m) then Inl Quota
          else Inr (Some (st\<lparr>ds_usage := Some (day_of now, used + int (mt_accepted m))\<rparr>), m))"

definition ingest_handler ::
    "runtime \<Rightarrow> (det_state \<Rightarrow> nat) \<Rightarrow> (tenant_state \<Rightarrow> string option) \<Rightarrow> settings \<Rightarrow> string option \<Rightarrow> event list \<Rightarrow>
     pyfloat \<Rightarrow> int \<Rightarrow> service \<Rightarrow> (api_error + metrics) \<times> service" where
  "ingest_handler R size_of encode cfg header events clock now svc =
     with_principal R ''ingest'' header clock svc (\<lambda>p db.
       store_result (transact None encode now (pr_tenant p) (ingest_update R size_of cfg events now)
                       (Some (pr_key_hash p)) db))"

definition summary_of_state :: "runtime \<Rightarrow> int \<Rightarrow> principal \<Rightarrow> tenant_db \<Rightarrow> (api_error + summary) \<times> tenant_db" where
  "summary_of_state R now p db =
     (case read_state None now (pr_tenant p) (Some (pr_key_hash p)) db of
        (Inl e, db') \<Rightarrow> (Inl (store_reply e), db')
      | (Inr None, db') \<Rightarrow> (Inl (HTTP 401 ''invalid_credentials''), db')
      | (Inr (Some state), db') \<Rightarrow> (map_sum detection_reply id (summarize R state (Aware now)), db'))"

definition summary_handler ::
    "runtime \<Rightarrow> string option \<Rightarrow> pyfloat \<Rightarrow> int \<Rightarrow> service \<Rightarrow> (api_error + summary) \<times> service" where
  "summary_handler R header clock now svc =
     with_principal R ''read'' header clock svc (summary_of_state R now)"

definition incidents_handler ::
    "runtime \<Rightarrow> string option \<Rightarrow> pyfloat \<Rightarrow> int \<Rightarrow> service \<Rightarrow> (api_error + incident list) \<times> service" where
  "incidents_handler R header clock now svc =
     with_principal R ''read'' header clock svc (\<lambda>p db.
       map_prod (map_sum id sy_incidents) id (summary_of_state R now p db))"

definition keys_handler :: "runtime \<Rightarrow> string option \<Rightarrow> pyfloat \<Rightarrow> service \<Rightarrow> (api_error + key_listing list) \<times> service" where
  "keys_handler R header clock svc =
     with_principal R ''manage'' header clock svc (\<lambda>p db.
       store_result (list_keys (pr_tenant p) (Some (pr_key_hash p)) db))"

record key_grant =
  kg_key :: string
  kg_key_id :: string
  kg_scopes :: "string list"

definition add_key_handler ::
    "runtime \<Rightarrow> string option \<Rightarrow> string list \<Rightarrow> string \<Rightarrow> pyfloat \<Rightarrow> int \<Rightarrow> service \<Rightarrow> (api_error + key_grant) \<times> service" where
  "add_key_handler R header scopes token clock now svc =
     with_principal R ''manage'' header clock svc (\<lambda>p db.
       if \<not> set scopes \<subseteq> set (pr_scopes p) then (Inl (HTTP 403 ''scope_escalation''), db)
       else
         let key = new_key token;
             (r, db') = store_result (add_key (pr_tenant p) (digest_key R key) (sort (remdups scopes)) (Aware now)
                                        (Some (pr_key_hash p)) db)
         in (map_sum id (\<lambda>_. \<lparr>kg_key = key, kg_key_id = take 12 (digest_key R key), kg_scopes = scopes\<rparr>) r, db'))"

definition key_id_ok :: "string \<Rightarrow> bool" where
  "key_id_ok s \<longleftrightarrow> length s = 12 \<and> list_all is_hex s"

definition revoke_key_handler ::
    "runtime \<Rightarrow> string option \<Rightarrow> string \<Rightarrow> pyfloat \<Rightarrow> service \<Rightarrow> (api_error + unit) \<times> service" where
  "revoke_key_handler R header key_id clock svc =
     with_principal R ''manage'' header clock svc (\<lambda>p db.
       if \<not> key_id_ok key_id then (Inl (HTTP 422 ''invalid_key_id''), db)
       else
         let (r, db') = store_result (revoke_key (pr_tenant p) key_id (Some (pr_key_hash p)) db)
         in (rbind r (\<lambda>removed. require_that removed (HTTP 404 ''key_not_found'')), db'))"

definition delete_tenant_handler ::
    "runtime \<Rightarrow> string option \<Rightarrow> string option \<Rightarrow> pyfloat \<Rightarrow> service \<Rightarrow> (api_error + unit) \<times> service" where
  "delete_tenant_handler R header confirm clock svc =
     with_principal R ''manage'' header clock svc (\<lambda>p db.
       if confirm \<noteq> Some (pr_tenant p) then (Inl (HTTP 400 ''tenant_confirmation_required''), db)
       else
         let (r, db') = store_result (delete_tenant (pr_tenant p) (Some (pr_key_hash p)) db)
         in (map_sum id (\<lambda>_. ()) r, db'))"

end
