(* ===== verification/Api_Inv.thy ===== *)
theory Api_Inv
  imports Api
begin

text \<open>
  What the handlers guarantee together with the store, the limiter and the detection engine: only a live key with
  the required scope reaches a handler, a handler touches only its caller's tenant, failed ingestion leaves the database
  alone, and the daily quota holds.
\<close>

subsection \<open>Authentication\<close>

lemma require_elim:
  assumes "require R scope header clock svc = (Inr p, svc1)"
  obtains h info where "header = Some h" "bearer_ok h" "pr_key_hash p = digest_key R (drop 7 h)"
    "authenticate (pr_key_hash p) (svc_db svc) = (Inr (Some info) :: update_error store_error + _)"
    "pr_tenant p = ki_tenant info" "pr_scopes p = ki_scopes info" "scope \<in> set (ki_scopes info)"
    "allow (svc_limiter svc) (pr_tenant p) clock = (svc_limiter svc1, True)" "svc_db svc1 = svc_db svc"
proof -
  obtain b where b: "bearer R header = Inr b" using assms by (auto simp: require_def split: sum.splits)
  then obtain h where h: "header = Some h" "bearer_ok h" "b = digest_key R (drop 7 h)"
    by (cases header) (auto simp: bearer_def Let_def bearer_ok_def split: if_splits)
  obtain info where i: "authenticate b (svc_db svc) = (Inr (Some info) :: update_error store_error + _)"
    using assms b by (auto simp: require_def split: sum.splits option.splits)
  then have r: "scope \<in> set (ki_scopes info)" "allow (svc_limiter svc) (ki_tenant info) clock = (svc_limiter svc1, True)"
    "p = \<lparr>pr_tenant = ki_tenant info, pr_scopes = ki_scopes info, pr_key_hash = b\<rparr>" "svc_db svc1 = svc_db svc"
    using assms b by (auto simp: require_def Let_def split: if_splits prod.splits)
  show thesis by (rule that [of h info]) (use h i r in simp_all)
qed

lemma require_holder:
  assumes "require R scope header clock svc = (Inr p, svc1)" "db_ok (svc_db svc)"
  shows "key_holder (svc_db svc) (pr_key_hash p) = Some (pr_tenant p)" "digest_ok (pr_key_hash p)"
    "scope \<in> set (pr_scopes p)" "scopes_ok (pr_scopes p)" "svc_db svc1 = svc_db svc"
proof -
  obtain info where i: "authenticate (pr_key_hash p) (svc_db svc) = (Inr (Some info) :: update_error store_error + _)"
    "pr_tenant p = ki_tenant info" "pr_scopes p = ki_scopes info" "scope \<in> set (ki_scopes info)" "svc_db svc1 = svc_db svc"
    using assms(1) by (rule require_elim)
  then show d: "digest_ok (pr_key_hash p)" by (auto simp: authenticate_def rbind_Inr_iff)
  obtain r where r: "authenticate (pr_key_hash p) (svc_db svc) = (Inr r :: update_error store_error + _)"
    "map_option ki_tenant r = key_holder (svc_db svc) (pr_key_hash p)" "\<forall>i. r = Some i \<longrightarrow> scopes_ok (ki_scopes i)"
    using authenticate_holder [OF assms(2) d] by blast
  have "r = Some info" using r(1) i(1) by (simp only: sum.inject)
  with r i show "key_holder (svc_db svc) (pr_key_hash p) = Some (pr_tenant p)" "scopes_ok (pr_scopes p)" by simp_all
  show "scope \<in> set (pr_scopes p)" "svc_db svc1 = svc_db svc" using i by simp_all
qed

text \<open>A failed authentication changes nothing.\<close>

lemma require_error: "require R scope header clock svc = (Inl e, svc1) \<Longrightarrow> svc1 = svc"
  by (auto simp: require_def Let_def split: sum.splits option.splits if_splits prod.splits)

lemma with_principal_cases:
  assumes "with_principal R scope header clock svc f = (r, svc')"
  obtains (refused) e where "r = Inl e" "svc' = svc"
  | (admitted) p svc1 db where "require R scope header clock svc = (Inr p, svc1)" "svc_db svc1 = svc_db svc"
      "f p (svc_db svc) = (r, db)" "svc' = svc1\<lparr>svc_db := db\<rparr>"
proof (cases "require R scope header clock svc")
  case (Pair q svc1)
  show thesis
  proof (cases q)
    case (Inl e)
    with Pair assms refused require_error [of R scope header clock svc e svc1] show thesis
      by (auto simp: with_principal_def)
  next
    case (Inr p)
    with Pair have req: "require R scope header clock svc = (Inr p, svc1)" by simp
    then have same: "svc_db svc1 = svc_db svc" by (rule require_elim)
    obtain r' db where "f p (svc_db svc) = (r', db)" by (cases "f p (svc_db svc)")
    with assms req same show thesis using admitted by (auto simp: with_principal_def)
  qed
qed

subsection \<open>Requests\<close>

datatype request =
    Ready bool
  | Ingest "event list"
  | Summary_Of
  | Incidents
  | Keys
  | Grant "string list" string
  | Revoke_Key string
  | Delete_Tenant "string option"

fun request_scope :: "request \<Rightarrow> string" where
  "request_scope (Ready _) = ''read''"
| "request_scope (Ingest _) = ''ingest''"
| "request_scope Summary_Of = ''read''"
| "request_scope Incidents = ''read''"
| "request_scope Keys = ''manage''"
| "request_scope (Grant _ _) = ''manage''"
| "request_scope (Revoke_Key _) = ''manage''"
| "request_scope (Delete_Tenant _) = ''manage''"

text \<open>The dispatch to the handlers, with the value of a success dropped.\<close>

definition drop_value :: "(api_error + 'a) \<times> service \<Rightarrow> (api_error + unit) \<times> service" where
  "drop_value r = (map_sum id (\<lambda>_. ()) (fst r), snd r)"

fun serve ::
    "runtime \<Rightarrow> (det_state \<Rightarrow> nat) \<Rightarrow> (tenant_state \<Rightarrow> string option) \<Rightarrow> settings \<Rightarrow> request \<Rightarrow> string option \<Rightarrow>
     pyfloat \<Rightarrow> int \<Rightarrow> service \<Rightarrow> (api_error + unit) \<times> service" where
  "serve R size_of encode cfg (Ready healthy) header clock now svc = ready_handler R healthy header clock svc"
| "serve R size_of encode cfg (Ingest es) header clock now svc =
     drop_value (ingest_handler R size_of encode cfg header es clock now svc)"
| "serve R size_of encode cfg Summary_Of header clock now svc = drop_value (summary_handler R header clock now svc)"
| "serve R size_of encode cfg Incidents header clock now svc = drop_value (incidents_handler R header clock now svc)"
| "serve R size_of encode cfg Keys header clock now svc = drop_value (keys_handler R header clock svc)"
| "serve R size_of encode cfg (Grant scopes token) header clock now svc =
     drop_value (add_key_handler R header scopes token clock now svc)"
| "serve R size_of encode cfg (Revoke_Key key_id) header clock now svc = revoke_key_handler R header key_id clock svc"
| "serve R size_of encode cfg (Delete_Tenant confirm) header clock now svc =
     delete_tenant_handler R header confirm clock svc"

text \<open>Every request runs at most one store operation, bound to its caller's credential and tenant.\<close>

definition bound_step :: "principal \<Rightarrow> tenant_db \<Rightarrow> tenant_db \<Rightarrow> bool" where
  "bound_step p db db' \<longleftrightarrow> db' = db \<or>
     (\<exists>encode (op :: (tenant_state, update_error, metrics) store_op) u.
        call_op None encode id op db = (Inr u, db') \<and> op_tenant op = Some (pr_tenant p) \<and>
        op_expects op = Some (pr_key_hash p))"

lemma bound_stepI:
  assumes "call_op None encode id (op :: (tenant_state, update_error, metrics) store_op) db = (Inr u, db')"
    "op_tenant op = Some (pr_tenant p)" "op_expects op = Some (pr_key_hash p)"
  shows "bound_step p db db'"
  using assms unfolding bound_step_def by blast

lemma transact_step:
  fixes r :: "api_error + metrics"
  assumes "store_result (transact None encode now (pr_tenant p) f (Some (pr_key_hash p)) db) = (r, db')"
  shows "bound_step p db db'" "isl r \<Longrightarrow> db' = db"
proof -
  obtain q where q: "transact None encode now (pr_tenant p) f (Some (pr_key_hash p)) db = (q, db')" "r = map_sum store_reply id q"
    using assms by (auto simp: store_result_def prod_eq_iff)
  show "db' = db" if "isl r" using that q by (cases q) (auto simp: transact_def)
  show "bound_step p db db'"
  proof (cases q)
    case (Inl e)
    with q show ?thesis by (simp add: transact_def bound_step_def)
  next
    case (Inr x)
    with q show ?thesis
      by (intro bound_stepI [where op = "Transact now (pr_tenant p) f (Some (pr_key_hash p))" and encode = encode]) auto
  qed
qed

lemma unit_steps:
  "list_keys (pr_tenant p) (Some (pr_key_hash p)) db = (q1 :: update_error store_error + _, db') \<Longrightarrow> db' = db"
  "add_key (pr_tenant p) h scopes now (Some (pr_key_hash p)) db = (q2 :: update_error store_error + _, db') \<Longrightarrow> bound_step p db db'"
  "revoke_key (pr_tenant p) sel (Some (pr_key_hash p)) db = (q3 :: update_error store_error + _, db') \<Longrightarrow> bound_step p db db'"
  "delete_tenant (pr_tenant p) (Some (pr_key_hash p)) db = (q4 :: update_error store_error + _, db') \<Longrightarrow> bound_step p db db'"
  "read_state None us (pr_tenant p) (Some (pr_key_hash p)) db = (q5 :: update_error store_error + _, db') \<Longrightarrow> bound_step p db db'"
proof -
  let ?t = "pr_tenant p" and ?x = "Some (pr_key_hash p)"
  show "db' = db" if "list_keys ?t ?x db = (q1 :: update_error store_error + _, db')"
    using that by (cases q1) (auto simp: list_keys_def rbind_Inr_iff Let_def)
  show "bound_step p db db'" if "add_key ?t h scopes now ?x db = (q2 :: update_error store_error + _, db')"
  proof (cases q2)
    case (Inr u)
    with that show ?thesis by (intro bound_stepI [where op = "Add_Key ?t h scopes now ?x"]) auto
  qed (use that in \<open>simp add: add_key_def bound_step_def\<close>)
  show "bound_step p db db'" if "revoke_key ?t sel ?x db = (q3 :: update_error store_error + _, db')"
  proof (cases q3)
    case (Inr u)
    with that show ?thesis by (intro bound_stepI [where op = "Revoke ?t sel ?x"]) auto
  qed (use that in \<open>simp add: revoke_key_def bound_step_def\<close>)
  show "bound_step p db db'" if "delete_tenant ?t ?x db = (q4 :: update_error store_error + _, db')"
  proof (cases q4)
    case (Inr u)
    with that show ?thesis by (intro bound_stepI [where op = "Delete ?t ?x"]) auto
  qed (use that in \<open>simp add: delete_tenant_def bound_step_def\<close>)
  show "bound_step p db db'" if "read_state None us ?t ?x db = (q5 :: update_error store_error + _, db')"
  proof (cases q5)
    case (Inr u)
    with that show ?thesis by (intro bound_stepI [where op = "Read_State us ?t ?x"]) auto
  qed (use that in \<open>simp add: read_state_def bound_step_def\<close>)
qed

lemma summary_step:
  assumes "summary_of_state R now p db = (r, db')"
  shows "bound_step p db db'"
proof -
  obtain q where "read_state None now (pr_tenant p) (Some (pr_key_hash p)) db = (q :: update_error store_error + _, db')"
    using assms by (auto simp: summary_of_state_def split: prod.splits sum.splits option.splits)
  then show ?thesis by (rule unit_steps)
qed

subsection \<open>Every request\<close>

lemma drop_value_eq: "drop_value x = (r, svc') \<longleftrightarrow> (\<exists>q. x = (q, svc') \<and> r = map_sum id (\<lambda>_. ()) q)"
  by (auto simp: drop_value_def prod_eq_iff)

text \<open>An admitted request runs one bound store step for its principal; a refused one changes nothing.\<close>

definition admitted_step :: "runtime \<Rightarrow> string \<Rightarrow> string option \<Rightarrow> pyfloat \<Rightarrow> service \<Rightarrow> service \<Rightarrow> bool" where
  "admitted_step R scope header clock svc svc' \<longleftrightarrow>
     (\<exists>p svc1. require R scope header clock svc = (Inr p, svc1) \<and> svc_limiter svc' = svc_limiter svc1 \<and>
        bound_step p (svc_db svc) (svc_db svc'))"

lemma with_principal_step:
  assumes "with_principal R scope header clock svc f = (r, svc')"
    "\<And>p db r db'. f p db = (r, db') \<Longrightarrow> bound_step p db db'"
  shows "isl r \<and> svc' = svc \<or> admitted_step R scope header clock svc svc'"
  using assms(1)
proof (cases rule: with_principal_cases)
  case (admitted p svc1 db)
  then show ?thesis using assms(2) by (auto simp: admitted_step_def)
qed simp

lemma bound_step_refl [simp]: "bound_step p db db"
  by (simp add: bound_step_def)

lemma handler_step:
  assumes "with_principal R scope header clock svc f = (r, svc')" "\<And>p db. bound_step p db (snd (f p db))"
  shows "isl r \<and> svc' = svc \<or> admitted_step R scope header clock svc svc'"
  using assms(1) by (rule with_principal_step) (metis assms(2) snd_conv)

lemma value_step:
  assumes "drop_value x = (r, svc')"
    "\<And>q. x = (q, svc') \<Longrightarrow> isl q \<and> svc' = svc \<or> admitted_step R scope header clock svc svc'"
  shows "isl r \<and> svc' = svc \<or> admitted_step R scope header clock svc svc'"
  using assms by (auto simp: drop_value_eq isl_map_sum)

lemma store_steps:
  "bound_step p db (snd (store_result (transact None encode now (pr_tenant p) f (Some (pr_key_hash p)) db :: _ \<times> _) ::
     (api_error + metrics) \<times> tenant_db))"
  "bound_step p db (snd (store_result (list_keys (pr_tenant p) (Some (pr_key_hash p)) db)))"
  "bound_step p db (snd (store_result (add_key (pr_tenant p) h sc us (Some (pr_key_hash p)) db)))"
  "bound_step p db (snd (store_result (revoke_key (pr_tenant p) sel (Some (pr_key_hash p)) db)))"
  "bound_step p db (snd (store_result (delete_tenant (pr_tenant p) (Some (pr_key_hash p)) db)))"
  "bound_step p db (snd (summary_of_state R now p db))"
proof -
  let ?x = "Some (pr_key_hash p)"
  show "bound_step p db (snd (store_result (transact None encode now (pr_tenant p) f ?x db) ::
      (api_error + metrics) \<times> tenant_db))"
    using transact_step(1) by (metis prod.collapse)
  show "bound_step p db (snd (store_result (list_keys (pr_tenant p) ?x db)))"
    by (cases "list_keys (pr_tenant p) ?x db :: (update_error store_error + _) \<times> _")
      (auto simp: store_result_def dest!: unit_steps(1))
  show "bound_step p db (snd (store_result (add_key (pr_tenant p) h sc us ?x db)))"
    using unit_steps(2) by (cases "add_key (pr_tenant p) h sc us ?x db :: (update_error store_error + _) \<times> _") (auto simp: store_result_def)
  show "bound_step p db (snd (store_result (revoke_key (pr_tenant p) sel ?x db)))"
    using unit_steps(3) by (cases "revoke_key (pr_tenant p) sel ?x db :: (update_error store_error + _) \<times> _") (auto simp: store_result_def)
  show "bound_step p db (snd (store_result (delete_tenant (pr_tenant p) ?x db)))"
    using unit_steps(4) by (cases "delete_tenant (pr_tenant p) ?x db :: (update_error store_error + _) \<times> _") (auto simp: store_result_def)
  show "bound_step p db (snd (summary_of_state R now p db))"
    using summary_step by (metis prod.collapse)
qed

lemma serve_step:
  assumes "serve R size_of encode cfg q header clock now svc = (r, svc')"
  shows "isl r \<and> svc' = svc \<or> admitted_step R (request_scope q) header clock svc svc'"
proof (cases q)
  case (Ready healthy)
  with assms have "with_principal R ''read'' header clock svc
      (\<lambda>p db. (if healthy then Inr () else Inl (HTTP 503 ''storage_unavailable''), db)) = (r, svc')"
    by (simp add: ready_handler_def)
  then show ?thesis unfolding Ready request_scope.simps by (rule handler_step) simp
next
  case (Ingest es)
  with assms have "drop_value (ingest_handler R size_of encode cfg header es clock now svc) = (r, svc')" by simp
  then show ?thesis unfolding Ingest request_scope.simps ingest_handler_def
    by (rule value_step) (erule handler_step, rule store_steps)
next
  case Summary_Of
  with assms have "drop_value (summary_handler R header clock now svc) = (r, svc')" by simp
  then show ?thesis unfolding Summary_Of request_scope.simps summary_handler_def
    by (rule value_step) (erule handler_step, rule store_steps)
next
  case Incidents
  with assms have "drop_value (incidents_handler R header clock now svc) = (r, svc')" by simp
  then show ?thesis unfolding Incidents request_scope.simps incidents_handler_def
    by (rule value_step) (erule handler_step, simp add: store_steps)
next
  case Keys
  with assms have "drop_value (keys_handler R header clock svc) = (r, svc')" by simp
  then show ?thesis unfolding Keys request_scope.simps keys_handler_def
    by (rule value_step) (erule handler_step, rule store_steps)
next
  case (Grant scopes token)
  with assms have "drop_value (add_key_handler R header scopes token clock now svc) = (r, svc')" by simp
  then show ?thesis unfolding Grant request_scope.simps add_key_handler_def
    by (rule value_step) (erule handler_step, simp add: Let_def split_def store_steps)
next
  case (Revoke_Key key_id)
  with assms have "revoke_key_handler R header key_id clock svc = (r, svc')" by simp
  then show ?thesis unfolding Revoke_Key request_scope.simps revoke_key_handler_def
    by (rule handler_step) (simp add: Let_def split_def store_steps)
next
  case (Delete_Tenant confirm)
  with assms have "delete_tenant_handler R header confirm clock svc = (r, svc')" by simp
  then show ?thesis unfolding Delete_Tenant request_scope.simps delete_tenant_handler_def
    by (rule handler_step) (simp add: Let_def split_def store_steps)
qed

definition service_ok :: "service \<Rightarrow> bool" where
  "service_ok svc \<longleftrightarrow> db_ok (svc_db svc) \<and> limiter_ok (svc_limiter svc)"

lemma bound_step_ok:
  assumes "bound_step p db db'" "db_ok db"
  shows "db_ok db'"
  using assms(1) unfolding bound_step_def
proof (elim disjE exE conjE)
  fix encode op u
  assume "call_op None encode id (op :: (tenant_state, update_error, metrics) store_op) db = (Inr u, db')"
  then show ?thesis by (rule call_op_ok [OF assms(2)])
qed (use assms(2) in simp)

lemma bound_step_view:
  assumes "bound_step p db db'" "pr_tenant p \<noteq> t"
  shows "tenant_view db' t = tenant_view db t"
  using assms(1) unfolding bound_step_def
proof (elim disjE exE conjE)
  fix encode op u
  assume "call_op None encode id (op :: (tenant_state, update_error, metrics) store_op) db = (Inr u, db')"
    "op_tenant op = Some (pr_tenant p)"
  then show ?thesis using assms(2) by (rule call_op_view)
qed simp

lemma require_limiter:
  assumes "require R scope header clock svc = (Inr p, svc1)" "limiter_ok (svc_limiter svc)"
  shows "limiter_ok (svc_limiter svc1)"
proof -
  have "allow (svc_limiter svc) (pr_tenant p) clock = (svc_limiter svc1, True)"
    using assms(1) by (rule require_elim)
  with allow_ok [OF assms(2), of "pr_tenant p" clock] show ?thesis by simp
qed

lemma serve_ok:
  assumes "service_ok svc" "serve R size_of encode cfg q header clock now svc = (r, svc')"
  shows "service_ok svc'"
  using serve_step [OF assms(2)] assms(1) bound_step_ok require_limiter
  by (auto simp: service_ok_def admitted_step_def)

lemma serve_authenticated:
  assumes "serve R size_of encode cfg q header clock now svc = (Inr u, svc')"
  shows "\<exists>p svc1. require R (request_scope q) header clock svc = (Inr p, svc1)"
  using serve_step [OF assms] by (auto simp: admitted_step_def)

lemma serve_isolation:
  assumes "serve R size_of encode cfg q header clock now svc = (r, svc')"
    "\<And>p svc1. require R (request_scope q) header clock svc = (Inr p, svc1) \<Longrightarrow> pr_tenant p \<noteq> t"
  shows "tenant_view (svc_db svc') t = tenant_view (svc_db svc) t"
  using serve_step [OF assms(1)] assms(2) bound_step_view by (auto simp: admitted_step_def)

subsection \<open>Ingestion and the daily quota\<close>

lemma ingest_rollback:
  assumes "ingest_handler R size_of encode cfg header es clock now svc = (Inl e, svc')"
  shows "svc_db svc' = svc_db svc"
  using assms unfolding ingest_handler_def
proof (cases rule: with_principal_cases)
  case (admitted p svc1 db)
  then show ?thesis using transact_step(2) [of encode now p _ "svc_db svc" "Inl e" db] by simp
qed simp

definition usage_ok :: "settings \<Rightarrow> tenant_state \<Rightarrow> bool" where
  "usage_ok cfg state \<longleftrightarrow>
     (\<forall>st day n. state = Some st \<longrightarrow> ds_usage st = Some (day, n) \<longrightarrow> 0 \<le> n \<and> n \<le> cf_daily_events cfg)"

lemma used_today_nonneg: "usage_ok cfg state \<Longrightarrow> 0 \<le> used_today now state"
  by (auto simp: used_today_def usage_ok_def split: option.splits)

lemma ingest_update_elim:
  assumes "ingest_update R size_of cfg es now state = Inr (state', m)"
  obtains st where "process_events R size_of state es (Aware now) = Inr (st, m)"
    "state' = Some (st\<lparr>ds_usage := Some (day_of now, used_today now state + int (mt_accepted m))\<rparr>)"
    "used_today now state + int (mt_accepted m) \<le> cf_daily_events cfg"
  using assms by (auto simp: ingest_update_def Let_def split: sum.splits if_splits prod.splits)

lemma ingest_update_usage:
  assumes "ingest_update R size_of cfg es now state = Inr (state', m)" "usage_ok cfg state"
  shows "usage_ok cfg state'" "used_today now state' = used_today now state + int (mt_accepted m)"
    "used_today now state' \<le> cf_daily_events cfg"
  using assms(1) used_today_nonneg [OF assms(2), of now]
  by (auto elim!: ingest_update_elim simp: usage_ok_def used_today_def)

end
