(* ===== verification/Api_Flows.thy ===== *)
theory Api_Flows
  imports Api_Inv
begin

text \<open>
  Flows over several requests: provisioning a tenant and using the returned key, granting keys
  without escalation, revoking a key and deleting a tenant.
\<close>

subsection \<open>Requests with a known key\<close>

definition token_ok :: "string \<Rightarrow> bool" where
  "token_ok token \<longleftrightarrow> length token = 43 \<and> list_all tenant_char token"

definition key_header :: "string \<Rightarrow> string" where
  "key_header key = ''Bearer '' @ key"

lemma bearer_token:
  assumes "token_ok token"
  shows "bearer R (Some (key_header (new_key token))) = Inr (digest_key R (new_key token))"
  using assms by (simp add: bearer_def bearer_ok_def key_header_def new_key_def token_ok_def tenant_char_def is_alnum_def
      char_in_def code_def)

lemma require_live_key:
  assumes "token_ok token" "db_ok (svc_db svc)" "digest_ok (digest_key R (new_key token))"
    "find_key (svc_db svc) (digest_key R (new_key token)) = Some k" "scope \<in> set (kr_scopes k)"
    "snd (allow (svc_limiter svc) (kr_tenant k) clock)"
  shows "\<exists>p svc1. require R scope (Some (key_header (new_key token))) clock svc = (Inr p, svc1) \<and> pr_tenant p = kr_tenant k"
proof -
  have "k \<in> set (db_keys (svc_db svc))" using assms(2,4) by (simp add: find_key_Some)
  then have "has_tenant (svc_db svc) (kr_tenant k)" using assms(2) by (auto simp: db_ok_def)
  then have "authenticate (digest_key R (new_key token)) (svc_db svc) =
      (Inr (Some (key_record (kr_tenant k) (digest_key R (new_key token)) (kr_scopes k) (kr_created_at k))) :: update_error store_error + _)"
    using assms(3,4) by (simp add: authenticate_def check_digest_def)
  with assms show ?thesis
    by (simp add: require_def bearer_token key_record_def Let_def split_def)
qed

lemma require_unknown_key:
  assumes "bearer R header = Inr h" "digest_ok h" "key_holder db h = None" "svc_db svc = db"
  shows "require R scope header clock svc = (Inl (HTTP 401 ''invalid_credentials''), svc)"
proof -
  have "find_key db h = None" using assms(3) by (simp add: key_holder_def)
  then have "authenticate h db = (Inr None :: update_error store_error + _)"
    using assms(2) by (simp add: authenticate_def check_digest_def)
  with assms show ?thesis by (simp add: require_def)
qed

subsection \<open>Provisioning\<close>

lemma create_tenant_handler_elim:
  assumes "create_tenant_handler R cfg header tenant token now svc = (Inr c, svc')"
  obtains "cr_key c = new_key token" "cr_tenant c = tenant" "svc_limiter svc' = svc_limiter svc"
    "create_tenant None tenant (digest_key R (new_key token)) (Aware now) (svc_db svc) =
       (Inr () :: update_error store_error + unit, svc_db svc')"
  using assms
  by (auto simp: create_tenant_handler_def Let_def split: sum.splits prod.splits store_error.splits)

lemma provisioned_key_works:
  assumes c: "create_tenant_handler R cfg header tenant token now svc = (Inr c, svc')"
    and ok: "db_ok (svc_db svc)" and tok: "token_ok token" and s: "scope \<in> set SCOPES"
    and l: "snd (allow (svc_limiter svc') tenant clock)"
  shows "\<exists>p svc1. require R scope (Some (key_header (cr_key c))) clock svc' = (Inr p, svc1) \<and> pr_tenant p = tenant"
  using c
proof (rule create_tenant_handler_elim)
  let ?h = "digest_key R (new_key token)"
  assume key: "cr_key c = new_key token"
    and st: "create_tenant None tenant ?h (Aware now) (svc_db svc) = (Inr () :: update_error store_error + unit, svc_db svc')"
  have ok': "db_ok (svc_db svc')" by (rule create_tenant_db_ok [OF ok st])
  from st have "find_key (svc_db svc') ?h = Some (key_at tenant ?h SCOPES now)" "digest_ok ?h"
    by (auto elim!: create_tenant_elim simp: find_key_def find_append)
  with require_live_key [OF tok ok'] s l key show ?thesis by fastforce
qed

subsection \<open>Granting keys\<close>

lemma grant_elim:
  assumes "add_key_handler R header scopes token clock now svc = (Inr g, svc')"
  obtains p svc1 where "require R ''manage'' header clock svc = (Inr p, svc1)" "set scopes \<subseteq> set (pr_scopes p)"
    "kg_key g = new_key token" "kg_key_id g = take 12 (digest_key R (new_key token))"
    "add_key (pr_tenant p) (digest_key R (new_key token)) (sort (remdups scopes)) (Aware now) (Some (pr_key_hash p)) (svc_db svc) =
       (Inr () :: update_error store_error + unit, svc_db svc')"
  using assms unfolding add_key_handler_def
proof (cases rule: with_principal_cases)
  case (admitted p svc1 db)
  let ?a = "add_key (pr_tenant p) (digest_key R (new_key token)) (sort (remdups scopes)) (Aware now) (Some (pr_key_hash p))
      (svc_db svc) :: (update_error store_error + unit) \<times> tenant_db"
  obtain q d where a: "?a = (q, d)" by (cases ?a)
  show thesis
    by (rule that [OF admitted(1)])
      (use admitted(3,4) a in \<open>auto simp: Let_def split_def store_result_def split: if_splits\<close>,
       (cases q; auto)+)
qed simp

lemma granted_key:
  assumes g: "add_key_handler R header scopes token clock now svc = (Inr g, svc')" and ok: "db_ok (svc_db svc)"
  shows "\<exists>p svc1 k. require R ''manage'' header clock svc = (Inr p, svc1) \<and> set scopes \<subseteq> set (pr_scopes p) \<and>
    find_key (svc_db svc') (digest_key R (kg_key g)) = Some k \<and> kr_tenant k = pr_tenant p \<and> set (kr_scopes k) = set scopes"
  using g
proof (rule grant_elim)
  fix p svc1
  let ?h = "digest_key R (new_key token)"
  assume p: "require R ''manage'' header clock svc = (Inr p, svc1)" "set scopes \<subseteq> set (pr_scopes p)" "kg_key g = new_key token"
    and a: "add_key (pr_tenant p) ?h (sort (remdups scopes)) (Aware now) (Some (pr_key_hash p)) (svc_db svc) =
       (Inr () :: update_error store_error + unit, svc_db svc')"
  from a obtain k where "find_key (svc_db svc') ?h = Some k" "kr_tenant k = pr_tenant p" "set (kr_scopes k) = set scopes"
    by (rule add_key_elim) (auto simp: find_key_def find_append)
  with p show ?thesis by auto
qed

subsection \<open>Revocation and deletion\<close>

lemma revoke_elim:
  assumes "revoke_key_handler R header key_id clock svc = (Inr u, svc')"
  obtains p svc1 where "require R ''manage'' header clock svc = (Inr p, svc1)" "key_id_ok key_id"
    "revoke_key (pr_tenant p) key_id (Some (pr_key_hash p)) (svc_db svc) =
       (Inr True :: update_error store_error + bool, svc_db svc')"
  using assms unfolding revoke_key_handler_def
proof (cases rule: with_principal_cases)
  case (admitted p svc1 db)
  let ?a = "revoke_key (pr_tenant p) key_id (Some (pr_key_hash p)) (svc_db svc) :: (update_error store_error + bool) \<times> tenant_db"
  obtain q d where a: "?a = (q, d)" by (cases ?a)
  show thesis
    by (rule that [OF admitted(1)])
      (use admitted(3,4) a in \<open>auto simp: Let_def split_def store_result_def rbind_Inr_iff split: if_splits\<close>,
       (cases q; auto)+)
qed simp

lemma revoked_key_locked_out:
  assumes r: "revoke_key_handler R header key_id clock svc = (Inr u, svc')" and ok: "db_ok (svc_db svc)"
    and b: "bearer R other = Inr h" "digest_ok h" "take 12 h = key_id"
    and p: "require R ''manage'' header clock svc = (Inr p, svc1)" "key_holder (svc_db svc) h = Some (pr_tenant p)"
  shows "require R scope other clock' svc' = (Inl (HTTP 401 ''invalid_credentials''), svc')"
  using r
proof (rule revoke_elim)
  fix p' svc2
  assume "require R ''manage'' header clock svc = (Inr p', svc2)"
    and rev: "revoke_key (pr_tenant p') key_id (Some (pr_key_hash p')) (svc_db svc) =
       (Inr True :: update_error store_error + bool, svc_db svc')"
  with p(1) have p': "p' = p" by simp
  obtain k where k: "k \<in> set (db_keys (svc_db svc))" "kr_hash k = h" "kr_tenant k = pr_tenant p"
    using ok p(2) by (rule key_holder_row)
  then have id: "kr_key_id k = key_id" using key_row_id [OF ok k(1)] b(3) by simp
  from rev have keys: "db_keys (svc_db svc') =
      filter (\<lambda>k. \<not> (kr_tenant k = pr_tenant p' \<and> (kr_hash k = key_id \<or> kr_key_id k = key_id))) (db_keys (svc_db svc))"
    by (rule revoke_key_elim) simp
  have "h \<notin> kr_hash ` set (db_keys (svc_db svc'))"
  proof
    assume "h \<in> kr_hash ` set (db_keys (svc_db svc'))"
    then obtain k' where k': "k' \<in> set (db_keys (svc_db svc))" "kr_hash k' = h"
      "\<not> (kr_tenant k' = pr_tenant p \<and> kr_key_id k' = key_id)" unfolding keys p' by auto
    then have "k' = k" using key_unique [OF ok k(1)] k(2) by metis
    with k' k id show False by simp
  qed
  then have "key_holder (svc_db svc') h = None" by (simp add: key_holder_None)
  then show ?thesis using require_unknown_key [OF b(1,2)] by simp
qed

lemma deleted_tenant_locked_out:
  assumes d: "delete_tenant_handler R header confirm clock svc = (Inr u, svc')" and ok: "db_ok (svc_db svc)"
    and b: "bearer R other = Inr h" "digest_ok h"
    and p: "require R ''manage'' header clock svc = (Inr p, svc1)" "key_holder (svc_db svc) h = Some (pr_tenant p)"
  shows "confirm = Some (pr_tenant p) \<and> tenant_view (svc_db svc') (pr_tenant p) = ([], [], []) \<and>
    require R scope other clock' svc' = (Inl (HTTP 401 ''invalid_credentials''), svc')"
  using d unfolding delete_tenant_handler_def
proof (cases rule: with_principal_cases)
  case (admitted p' svc2 db)
  then have p': "p' = p" using p(1) by simp
  let ?a = "delete_tenant (pr_tenant p) (Some (pr_key_hash p)) (svc_db svc) :: (update_error store_error + bool) \<times> tenant_db"
  obtain q e where a: "?a = (q, e)" by (cases ?a)
  have conf: "confirm = Some (pr_tenant p)" and "\<exists>x. ?a = (Inr x, svc_db svc')"
    using admitted(3,4) a unfolding p' by (auto simp: Let_def split_def store_result_def split: if_splits) (cases q; auto)+
  then obtain x where x: "?a = (Inr x, svc_db svc')" by blast
  from deleted_tenant [OF x] p(2) ok conf require_unknown_key [OF b _ refl] show ?thesis by simp
qed simp

subsection \<open>Ingestion\<close>

lemma ingest_elim:
  assumes "ingest_handler R size_of encode cfg header es clock now svc = (Inr m, svc')"
  obtains p svc1 where "require R ''ingest'' header clock svc = (Inr p, svc1)"
    "transact None encode now (pr_tenant p) (ingest_update R size_of cfg es now) (Some (pr_key_hash p)) (svc_db svc) =
       (Inr m :: update_error store_error + metrics, svc_db svc')"
  using assms unfolding ingest_handler_def
proof (cases rule: with_principal_cases)
  case (admitted p svc1 db)
  let ?a = "transact None encode now (pr_tenant p) (ingest_update R size_of cfg es now) (Some (pr_key_hash p)) (svc_db svc)"
  obtain q d where a: "?a = (q, d)" by (cases ?a)
  show thesis
    by (rule that [OF admitted(1)]) (use admitted(3,4) a in \<open>cases q; auto simp: store_result_def\<close>)
qed simp

text \<open>The stored state after a successful ingestion, with its usage.\<close>

lemma ingested_state:
  assumes i: "ingest_handler R size_of encode cfg header es clock now svc = (Inr m, svc')"
    and u: "\<And>t. usage_ok cfg (current_state None now (svc_db svc) t)"
  shows "\<exists>p svc1 w st. require R ''ingest'' header clock svc = (Inr p, svc1) \<and>
    find_state (svc_db svc') (pr_tenant p) = Some w \<and> sw_state w = Some st \<and>
    sw_expires_at w = now + RETENTION_US \<and>
    used_today now (sw_state w) = used_today now (current_state None now (svc_db svc) (pr_tenant p)) + int (mt_accepted m) \<and>
    used_today now (sw_state w) \<le> cf_daily_events cfg \<and> mt_accepted m + mt_duplicates m = length es"
  using i
proof (rule ingest_elim)
  fix p svc1
  assume req: "require R ''ingest'' header clock svc = (Inr p, svc1)"
    and tr: "transact None encode now (pr_tenant p) (ingest_update R size_of cfg es now) (Some (pr_key_hash p)) (svc_db svc) =
       (Inr m :: update_error store_error + metrics, svc_db svc')"
  let ?old = "current_state None now (svc_db svc) (pr_tenant p)"
  from tr obtain s where up: "ingest_update R size_of cfg es now ?old = Inr (s, m)"
    and row: "find_state (svc_db svc') (pr_tenant p) = Some (state_at (pr_tenant p) s now)"
    by (rule transact_elim) (auto simp: find_state_upsert)
  from up obtain st where st: "process_events R size_of ?old es (Aware now) = Inr (st, m)"
    "s = Some (st\<lparr>ds_usage := Some (day_of now, used_today now ?old + int (mt_accepted m))\<rparr>)"
    by (rule ingest_update_elim)
  note U = ingest_update_usage [OF up u]
  show ?thesis
    by (intro exI conjI, rule req, rule row)
      (use U st process_events_counts(1) [OF st(1)] in simp_all)
qed

end
