(* ===== verification/Alarms.thy ===== *)
theory Alarms
  imports Ingestion_Inv
begin

text \<open>
  When the failure alarms fire and when they clear, in the binary64 arithmetic of the code: bounds
  of the Wilson interval for windows that fail throughout or not at all, and from them the opening and the recovery
  of a failure incident.
\<close>

subsection \<open>Dyadic bounds\<close>

lemma fl_dyadic:
  assumes "0 < m" "m < 2 ^ 53" "j \<le> 1074"
  shows "fl (of_int m / 2 ^ j) = of_int m / 2 ^ j"
  using fl_exact_pos [of m "- int j"] assms by (simp add: power_int_minus divide_inverse)

lemma fl_dyadics:
  "fl (5/4) = 5/4" "fl (3/4) = 3/4" "fl (1/8) = 1/8" "fl (1/16) = 1/16" "fl (5/8) = 5/8" "fl 4 = 4"
  using fl_dyadic [of 5 2] fl_dyadic [of 3 2] fl_dyadic [of 1 3] fl_dyadic [of 1 4] fl_dyadic [of 5 3] fl_of_int [of 4]
  by simp_all

lemma fl_upper: "x \<le> y \<Longrightarrow> fl y = y \<Longrightarrow> fl x \<le> y"
  using fl_mono [of x y] by simp

lemma fl_lower: "y \<le> x \<Longrightarrow> fl y = y \<Longrightarrow> y \<le> fl x"
  using fl_mono [of y x] by simp

lemma ilog2_le_0: "0 < x \<Longrightarrow> x \<le> 1 \<Longrightarrow> ilog2 x \<le> 0"
  using ilog2_mono [of x 1] by (simp add: ilog2.simps [of 1])

lemma fsqrt_le:
  assumes "x \<le> 1 / 4 ^ j" "j \<le> 50"
  shows "fsqrt x \<le> 1 / 2 ^ j"
proof (cases "x \<le> 0")
  case True
  then show ?thesis by (simp add: fsqrt_def)
next
  case False
  let ?k = "nat (55 - ilog2 x div 2)"
  let ?y = "x * 4 ^ ?k"
  let ?n = "isqrt \<lfloor>?y\<rfloor>"
  let ?s = "if of_int (?n * ?n) = ?y then of_int ?n else of_int ?n + 1/2 :: rat"
  have "(1::rat) \<le> 4 ^ j" by simp
  then have "x \<le> 1" using assms(1) by (meson divide_le_eq_1 le_less_trans less_eq_rat_def not_less order_trans zero_less_one)
  then have "ilog2 x \<le> 0" using False by (intro ilog2_le_0) simp_all
  then have "ilog2 x div 2 \<le> 0" by simp
  then have k: "j \<le> ?k" using assms(2) by linarith
  have y0: "0 \<le> \<lfloor>?y\<rfloor>" using False by simp
  note spec = isqrt_spec [OF y0]
  define q :: int where "q = 2 ^ (?k - j)"
  have q: "0 \<le> q" by (simp add: q_def)
  have "?y \<le> 1 / 4 ^ j * 4 ^ ?k" using assms(1) by (intro mult_right_mono) simp_all
  also have "(1::rat) / 4 ^ j * 4 ^ ?k = 4 ^ (?k - j)" using k by (simp add: power_diff)
  also have "(4::rat) ^ (?k - j) = of_int (q * q)"
    by (simp add: q_def flip: power_mult_distrib)
  finally have yq: "?y \<le> of_int (q * q)" .
  have ny: "of_int (?n * ?n) \<le> ?y" using spec by (meson le_floor_iff)
  have "?s \<le> of_int q"
  proof (cases "of_int (?n * ?n) = ?y")
    case True
    then have "(of_int (?n * ?n) :: rat) \<le> of_int (q * q)" using yq by simp
    then have "?n * ?n \<le> q * q" by (simp only: of_int_le_iff)
    then have "?n \<le> q" using q spec by (meson mult_strict_mono not_le order_le_less_trans)
    then show ?thesis using True by simp
  next
    case False
    then have "(of_int (?n * ?n) :: rat) < of_int (q * q)" using yq ny by linarith
    then have "?n * ?n < q * q" by (simp only: of_int_less_iff)
    then have "?n < q" using q spec by (meson mult_mono not_le)
    then have "(of_int ?n :: rat) + 1 \<le> of_int q" by (metis of_int_1 of_int_add of_int_le_iff zless_imp_add1_zle)
    then show ?thesis using False by simp
  qed
  then have "?s / 2 ^ ?k \<le> of_int q / 2 ^ ?k" by (intro divide_right_mono) simp_all
  also have "(of_int q :: rat) = 2 ^ ?k / 2 ^ j"
    unfolding q_def of_int_power of_int_numeral using k by (intro power_diff) simp_all
  also have "(2 :: rat) ^ ?k / 2 ^ j / 2 ^ ?k = 1 / 2 ^ j" by simp
  finally have "fl (?s / 2 ^ ?k) \<le> 1 / 2 ^ j"
    using fl_dyadic [of 1 j] assms(2) by (intro fl_upper) simp_all
  moreover have "fsqrt x = fl (?s / 2 ^ ?k)" using False by (simp add: fsqrt_def Let_def)
  ultimately show ?thesis by simp
qed

subsection \<open>Wilson intervals of uniform windows\<close>

lemma zz_le_4: "fmul wilson_z wilson_z \<le> 4"
  unfolding fmul_def
  using mult_mono [of wilson_z 2 wilson_z 2] wilson_z_bounds fl_dyadics(6) by (intro fl_upper) simp_all

lemma zz_div_le: "0 < a \<Longrightarrow> a \<le> b \<Longrightarrow> fmul wilson_z wilson_z / b \<le> 4 / a"
  using zz_le_4 zz_ge_1 by (intro frac_le) simp_all

lemma wilson_radius_uniform:
  assumes c: "25 \<le> c" and r: "wilson_rate f c \<in> {0, 1}" and j: "j \<le> 6"
    and n: "1 / of_nat c ^ 2 \<le> (1 :: rat) / 4 ^ (j + 1)"
  shows "wilson_radius f c \<le> 1 / 2 ^ j"
proof -
  let ?w = "fmul wilson_z wilson_z / (4 * of_nat c * of_nat c)"
  let ?u = "fdiv (fmul (wilson_rate f c) (fsub 1 (wilson_rate f c))) (of_nat c)"
  let ?v = "fadd ?u (fdiv (fmul wilson_z wilson_z) (4 * of_nat c * of_nat c))"
  have u: "?u = 0" using r by (auto simp: fmul_def fsub_def fdiv_def)
  have dy: "fl (1 / 4 ^ (j + 1)) = 1 / 4 ^ (j + 1)"
    using fl_dyadic [of 1 "2 * (j + 1)"] j by (simp add: power_mult)
  have "?w \<le> 4 / (4 * of_nat c * of_nat c)"
    using zz_le_4 c by (intro divide_right_mono) simp_all
  also have "\<dots> = 1 / of_nat c ^ 2" using c by (simp add: power2_eq_square)
  finally have "fl ?w \<le> 1 / 4 ^ (j + 1)" using n dy by (intro fl_upper) simp_all
  moreover have "?v = fl (fl ?w)" by (simp only: u fadd_def add_0) (simp only: fdiv_def)
  ultimately have "?v \<le> 1 / 4 ^ (j + 1)" using dy fl_upper by metis
  then have s: "fsqrt ?v \<le> 1 / 2 ^ (j + 1)" using j by (intro fsqrt_le) simp_all
  have dj: "fl (1 / 2 ^ j) = 1 / 2 ^ j" using fl_dyadic [of 1 j] j by simp
  have "wilson_z * fsqrt ?v \<le> 2 * (1 / 2 ^ (j + 1))"
    using wilson_z_bounds s fsqrt_nonneg by (intro mult_mono) simp_all
  then have m: "fmul wilson_z (fsqrt ?v) \<le> 1 / 2 ^ j"
    unfolding fmul_def using dj by (intro fl_upper) simp_all
  have "0 \<le> fmul wilson_z (fsqrt ?v)"
    unfolding fmul_def using wilson_z_bounds fsqrt_nonneg by (intro fl_nonneg mult_nonneg_nonneg) simp_all
  then have "fmul wilson_z (fsqrt ?v) / wilson_den c \<le> fmul wilson_z (fsqrt ?v) / 1"
    using wilson_den_ge_1 [of c] by (intro divide_left_mono) simp_all
  then show ?thesis
    unfolding wilson_radius_def fdiv_def [of _ "wilson_den c"] using m dj by (intro fl_upper) simp_all
qed

lemma wilson_rate_uniform:
  "0 < c \<Longrightarrow> wilson_rate 0 c = 0" "0 < c \<Longrightarrow> wilson_rate (int c) c = 1"
  by (simp_all add: wilson_rate_def fdiv_def)

lemma wilson_all_failed:
  assumes "25 \<le> c"
  shows "5/8 \<le> fst (wilson_interval (int c) c)" "snd (wilson_interval (int c) c) = 1"
proof -
  have c: "0 < c" "(25 :: rat) \<le> of_nat c" using assms of_nat_mono [OF assms, where 'a = rat] by simp_all
  have "(25::rat) ^ 2 \<le> of_nat c ^ 2" using c(2) by (intro power_mono) simp_all
  then have "1 / of_nat c ^ 2 \<le> (1 :: rat) / 4 ^ (3 + 1)" using c(1) by (intro divide_left_mono) simp_all
  then have r: "wilson_radius (int c) c \<le> 1 / 8"
    using wilson_radius_uniform [OF assms, of "int c" 3] wilson_rate_uniform(2) [OF c(1)] by simp
  have "fmul wilson_z wilson_z / of_nat c \<le> 4 / 25" using c(2) by (intro zz_div_le) simp_all
  then have "fdiv (fmul wilson_z wilson_z) (of_nat c) \<le> 1/4"
    unfolding fdiv_def using fl_dyadic [of 1 2] by (intro fl_upper) simp_all
  then have d: "wilson_den c \<le> 5/4"
    unfolding wilson_den_def fadd_def using fl_dyadics(1) by (intro fl_upper) simp_all
  have one: "1 \<le> fadd (wilson_rate (int c) c) (wilson_shift c)"
    unfolding fadd_def wilson_rate_uniform(2) [OF c(1)] using wilson_shift_nonneg [of c] by (intro fl_ge_1) simp
  have "3/4 \<le> 1 / wilson_den c" using d wilson_den_ge_1 [of c] by (simp add: field_simps)
  also have "\<dots> \<le> fadd (wilson_rate (int c) c) (wilson_shift c) / wilson_den c"
    using one wilson_den_ge_1 [of c] by (intro divide_right_mono) simp_all
  finally have "3/4 \<le> wilson_center (int c) c"
    unfolding wilson_center_def fdiv_def using fl_dyadics(2) by (intro fl_lower)
  then have "5/8 \<le> fsub (wilson_center (int c) c) (wilson_radius (int c) c)"
    unfolding fsub_def using r fl_dyadics(5) by (intro fl_lower) simp_all
  then show "5/8 \<le> fst (wilson_interval (int c) c)" using c(1) by (simp add: wilson_interval_eq)
  show "snd (wilson_interval (int c) c) = 1" using c(1) by (simp add: wilson_interval_eq)
qed

lemma wilson_none_failed:
  assumes "50 \<le> c"
  shows "fst (wilson_interval 0 c) = 0" "snd (wilson_interval 0 c) \<le> 1/8"
proof -
  have c: "0 < c" "(50 :: rat) \<le> of_nat c" using assms of_nat_mono [OF assms, where 'a = rat] by simp_all
  have "(50::rat) ^ 2 \<le> of_nat c ^ 2" using c(2) by (intro power_mono) simp_all
  then have "1 / of_nat c ^ 2 \<le> (1 :: rat) / 4 ^ (4 + 1)" using c(1) by (intro divide_left_mono) simp_all
  then have r: "wilson_radius 0 c \<le> 1 / 16"
    using wilson_radius_uniform [of c 0 4] assms wilson_rate_uniform(1) [OF c(1)] by simp
  have "fmul wilson_z wilson_z / (2 * of_nat c) \<le> 4 / 100" using c(2) by (intro zz_div_le) simp_all
  then have sh: "wilson_shift c \<le> 1/16"
    unfolding wilson_shift_def fdiv_def using fl_dyadics(4) by (intro fl_upper) simp_all
  then have s: "fadd (wilson_rate 0 c) (wilson_shift c) \<le> 1/16"
    unfolding fadd_def wilson_rate_uniform(1) [OF c(1)] using fl_dyadics(4) by (intro fl_upper) simp_all
  have "0 \<le> fadd (wilson_rate 0 c) (wilson_shift c)"
    unfolding fadd_def wilson_rate_uniform(1) [OF c(1)] using wilson_shift_nonneg [of c] by (intro fl_nonneg) simp
  then have "fadd (wilson_rate 0 c) (wilson_shift c) / wilson_den c \<le> fadd (wilson_rate 0 c) (wilson_shift c) / 1"
    using wilson_den_ge_1 [of c] by (intro divide_left_mono) simp_all
  with s have "fadd (wilson_rate 0 c) (wilson_shift c) / wilson_den c \<le> 1/16" by linarith
  then have "wilson_center 0 c \<le> 1/16"
    unfolding wilson_center_def fdiv_def by (rule fl_upper) (rule fl_dyadics(4))
  then have "fadd (wilson_center 0 c) (wilson_radius 0 c) \<le> 1/8"
    unfolding fadd_def using r fl_dyadics(3) by (intro fl_upper) simp_all
  then show "snd (wilson_interval 0 c) \<le> 1/8" using c(1) by (simp add: wilson_interval_eq)
  show "fst (wilson_interval 0 c) = 0" using c(1) by (simp add: wilson_interval_eq)
qed

subsection \<open>Windows\<close>

definition all_failed :: "sample list \<Rightarrow> bool" where
  "all_failed rows \<longleftrightarrow> (\<forall>r \<in> set rows. sm_failed r = 1)"

definition none_failed :: "sample list \<Rightarrow> bool" where
  "none_failed rows \<longleftrightarrow> (\<forall>r \<in> set rows. sm_failed r = 0)"

lemma failures_uniform:
  "all_failed rows \<Longrightarrow> sum_list (map sm_failed rows) = int (length rows)"
  "none_failed rows \<Longrightarrow> sum_list (map sm_failed rows) = 0"
  by (induction rows) (auto simp: all_failed_def none_failed_def)

lemma round_dec_eighths: "round_dec 6 (5/8) = 5/8" "round_dec 6 (1/8) = 1/8"
  using round_half_even_of_int [of 625000] round_half_even_of_int [of 125000] fl_dyadics
  by (simp_all add: round_dec_def)

lemma all_failed_interval:
  assumes "all_failed rows" "25 \<le> length rows"
  shows "5/8 \<le> fst (st_interval (window_stats rows))" "snd (st_interval (window_stats rows)) = 1"
  using wilson_all_failed [OF assms(2)] failures_uniform(1) [OF assms(1)] round_dec_mono [of "5/8" _ 6]
  by (auto simp: window_stats_fields round_dec_eighths)

lemma none_failed_interval:
  assumes "none_failed rows"
  shows "fst (st_interval (window_stats rows)) = 0"
    "50 \<le> length rows \<Longrightarrow> snd (st_interval (window_stats rows)) \<le> 1/8"
proof -
  have f: "sum_list (map sm_failed rows) = 0" by (rule failures_uniform(2) [OF assms])
  show "fst (st_interval (window_stats rows)) = 0"
    unfolding window_stats_fields f by (simp add: wilson_interval_eq)
  show "snd (st_interval (window_stats rows)) \<le> 1/8" if "50 \<le> length rows"
    unfolding window_stats_fields f
    using round_dec_mono [OF wilson_none_failed(2) [OF that], of 6] by (simp add: round_dec_eighths)
qed

lemma uniform_rates:
  assumes "rows \<noteq> []"
  shows "all_failed rows \<Longrightarrow> st_failure_rate (window_stats rows) = Some 1"
    "none_failed rows \<Longrightarrow> st_failure_rate (window_stats rows) = Some 0"
  using assms failures_uniform [of rows] by (simp_all add: window_stats_fields fdiv_def)

lemma outage_raises_high_failure:
  assumes "all_failed current" "25 \<le> length current"
  shows "High_failure_rate \<in> set (keys (window_signals baseline current))"
proof -
  have "High_failure_rate \<in> set (keys (high_failure_signal current))"
    using all_failed_interval(1) [OF assms] assms(2) by (simp add: high_failure_signal_def Let_def)
  then show ?thesis by (auto simp: window_signals_def)
qed

lemma outage_raises_regression:
  assumes "none_failed baseline" "length baseline = WINDOW" "all_failed current" "length current = WINDOW"
  shows "Failure_rate_regression \<in> set (keys (window_signals baseline current))"
proof -
  have b: "baseline \<noteq> []" "50 \<le> length baseline" and c: "current \<noteq> []" "25 \<le> length current"
    using assms(2,4) by (auto simp: WINDOW_def)
  have "fl (15 / 100) \<le> 1" by (rule fl_le_1) simp
  then have "Failure_rate_regression \<in> set (keys (regression_signal baseline current))"
    using uniform_rates(2) [OF b(1) assms(1)] uniform_rates(1) [OF c(1) assms(3)]
      none_failed_interval(2) [OF assms(1) b(2)] all_failed_interval(1) [OF assms(3) c(2)]
    by (simp add: regression_signal_def Let_def fsub_def)
  then show ?thesis using assms(2,4) by (auto simp: window_signals_def)
qed

lemma healthy_no_failure_signal:
  assumes "none_failed current"
  shows "High_failure_rate \<notin> set (keys (window_signals baseline current))"
    "(\<forall>r \<in> set baseline. sm_failed r \<in> {0, 1}) \<Longrightarrow>
     Failure_rate_regression \<notin> set (keys (window_signals baseline current))"
proof -
  have high: "high_failure_signal current = []"
    using none_failed_interval(1) [OF assms] by (simp add: high_failure_signal_def Let_def)
  have deg: "Degradation m \<noteq> High_failure_rate" "Degradation m \<noteq> Failure_rate_regression" for m by simp_all
  show "High_failure_rate \<notin> set (keys (window_signals baseline current))"
    using high regression_keys [of baseline current] degradation_keys(2) [of High_failure_rate baseline current]
    by (auto simp: window_signals_def)
  show "Failure_rate_regression \<notin> set (keys (window_signals baseline current))"
    if b: "\<forall>r \<in> set baseline. sm_failed r \<in> {0, 1}"
  proof -
    let ?f = "sum_list (map sm_failed baseline)"
    have "0 \<le> ?f" "?f \<le> int (length baseline)" using b by (induction baseline) auto
    then have "0 \<le> snd (wilson_interval ?f (length baseline))"
      using wilson_interval_bounds [of ?f "length baseline"] by linarith
    then have "0 \<le> snd (st_interval (window_stats baseline))"
      using round_dec_bounds(1) by (simp add: window_stats_fields)
    then have "regression_signal baseline current = []"
      using none_failed_interval(1) [OF assms]
      by (auto simp: regression_signal_def Let_def split: option.splits)
    then show ?thesis
      using high degradation_keys(2) [of Failure_rate_regression baseline current]
      by (auto simp: window_signals_def)
  qed
qed

subsection \<open>Recovery\<close>

definition failure_kinds :: "signal set" where
  "failure_kinds = {High_failure_rate, Failure_rate_regression}"

lemma metrics_recovered_none:
  "(\<And>m. Degradation m \<notin> set kinds) \<Longrightarrow> metrics_recovered b c kinds ms = Some True"
  by (induction ms) simp_all

lemma healthy_window_recovers:
  assumes c: "none_failed current" "length current = WINDOW" and k: "set kinds \<subseteq> failure_kinds"
    and b: "Failure_rate_regression \<in> set kinds \<longrightarrow> baseline \<noteq> []"
      "\<forall>r \<in> set baseline. sm_failed r \<in> {0, 1}"
  shows "recovered baseline current kinds = Some True"
proof -
  have c0: "current \<noteq> []" "50 \<le> length current" using c(2) by (auto simp: WINDOW_def)
  have hi: "\<not> 1/4 \<le> snd (st_interval (window_stats current))"
    using none_failed_interval(2) [OF c(1) c0(2)] by simp
  have m: "metrics_recovered (window_stats baseline) (window_stats current) kinds all_metrics = Some True"
    using k by (intro metrics_recovered_none) (auto simp: failure_kinds_def)
  have reg: "regression_recovered (window_stats baseline) (window_stats current) = Some True" if bn: "baseline \<noteq> []"
  proof -
    let ?f = "sum_list (map sm_failed baseline)"
    have "0 \<le> ?f" using b(2) by (induction baseline) auto
    then have "0 \<le> fadd (fdiv (of_int ?f) (of_nat (length baseline))) (fl (5 / 100))"
      unfolding fadd_def fdiv_def by (intro fl_nonneg add_nonneg_nonneg) simp_all
    then show ?thesis
      using uniform_rates(2) [OF c0(1) c(1)] bn by (simp add: regression_recovered_def window_stats_fields)
  qed
  show ?thesis
    using c(2) hi m reg b(1) by (auto simp: recovered_def Let_def)
qed

subsection \<open>Evaluation\<close>

lemma outage_opens:
  assumes "sr_active s = None" "all_failed (sr_current s)" "25 \<le> length (sr_current s)"
  shows "\<exists>x. evaluate R incs k s e =
      Inr (make_room incs @ [x], s\<lparr>sr_active := Some (onset_id R k (ev_event_id e))\<rparr>) \<and>
    in_id x = onset_id R k (ev_event_id e) \<and> in_status x = Open \<and> in_stream_id x = k \<and>
    High_failure_rate \<in> set (keys (in_signals x))"
proof -
  have sg: "High_failure_rate \<in> set (keys (window_signals (sr_baseline s) (sr_current s)))"
    by (rule outage_raises_high_failure [OF assms(2,3)])
  then have "window_signals (sr_baseline s) (sr_current s) \<noteq> []" by auto
  with sg assms(1) show ?thesis by (simp add: evaluate_def Let_def)
qed

lemma recovery_resolves:
  assumes act: "sr_active s = Some i" and x: "find (\<lambda>x. in_id x = i) incs = Some x"
    and k: "set (keys (in_signals x)) \<subseteq> failure_kinds"
    and sup: "supported (sr_baseline s) (set (keys (in_signals x)))"
    and b: "\<forall>r \<in> set (sr_baseline s). sm_failed r \<in> {0, 1}"
    and c: "none_failed (sr_current s)" "length (sr_current s) = WINDOW"
    and quiet: "window_signals (sr_baseline s) (sr_current s) = []"
  shows "evaluate R incs sid s e =
    Inr (update_first (\<lambda>x. in_id x = i)
           (\<lambda>_. recovered_at (epoch_seconds (ev_timestamp e)) (refreshed x [] (sr_current s))) incs,
         s\<lparr>sr_active := None, sr_baseline := sr_current s, sr_current := []\<rparr>)"
proof -
  have "recovered (sr_baseline s) (sr_current s) (keys (in_signals x)) = Some True"
    using sup by (intro healthy_window_recovers [OF c k _ b]) (simp add: supported_def)
  moreover have "last_window (sr_current s) = sr_current s" using c(2) by (simp add: last_window_id)
  ultimately show ?thesis
    using act x quiet by (simp add: evaluate_def dict_merge_def recovered_at_def refreshed_def)
qed

end
