(* ===== verification/Protocol_Facts.thy ===== *)
theory Protocol_Facts
  imports Protocol
begin

text \<open>
  What the strict validation of \<open>protocol.py\<close> guarantees of an accepted event, and that a valid event
  survives serialisation and validation unchanged.
\<close>

definition opt_between :: "'a::linorder \<Rightarrow> 'a \<Rightarrow> 'a option \<Rightarrow> bool" where
  "opt_between lo hi v \<longleftrightarrow> (\<forall>x. v = Some x \<longrightarrow> lo \<le> x \<and> x \<le> hi)"

definition event_ok :: "event \<Rightarrow> bool" where
  "event_ok e \<longleftrightarrow>
     event_id_ok (ev_event_id e) \<and> datetime_range (ev_timestamp e) \<and>
     identifier_ok (ev_deployment_id e) \<and> identifier_ok (ev_agent_id e) \<and>
     (ev_outcome e = Failure \<longleftrightarrow> ev_failure_type e \<noteq> None) \<and>
     opt_between 0 86400000 (ev_latency_ms e) \<and> opt_between 0 1000000000 (ev_input_tokens e) \<and>
     opt_between 0 1000000000 (ev_output_tokens e) \<and> opt_between 0 1000000 (ev_retry_count e) \<and>
     (\<forall>f s. ev_label e f = Some s \<longrightarrow> identifier_ok s)"

subsection \<open>Fields\<close>

lemma str_where_Some: "str_where P v = Some s \<longleftrightarrow> v = JStr s \<and> P s"
  by (auto simp: str_where_def split: json.splits)

lemma int_within_Some: "int_within lo hi v = Some i \<longleftrightarrow> v = JInt i \<and> lo \<le> i \<and> i \<le> hi"
  by (auto simp: int_within_def split: json.splits)

lemma float_within_bounds: "float_within lo hi v = Some x \<Longrightarrow> lo \<le> x \<and> x \<le> hi"
  by (auto simp: float_within_def Let_def split: json.splits if_splits)

lemma field_Some: "field ms k p = Some x \<longleftrightarrow> (\<exists>v. map_of ms k = Some v \<and> p v = Some x)"
  by (auto simp: field_def split: option.splits)

lemma field_opt_Some:
  assumes "field_opt ms k p = Some (Some x)"
  shows "\<exists>v. map_of ms k = Some v \<and> p v = Some x"
  using assms by (auto simp: field_opt_def field_default_def split: option.splits json.splits)

lemma field_opt_within:
  assumes "field_opt ms k p = Some r" "\<And>v x. p v = Some x \<Longrightarrow> lo \<le> x \<and> x \<le> hi"
  shows "opt_between lo hi r"
  unfolding opt_between_def using assms(2) field_opt_Some [of ms k p] assms(1) by blast

lemma aware_timestamp_range: "aware_timestamp R v = Some us \<Longrightarrow> datetime_range us"
  by (auto simp: aware_timestamp_def split: json.splits if_splits option.splits pydatetime.splits)

lemma those_Some: "those xs = Some ys \<longleftrightarrow> xs = map Some ys"
proof (induction xs arbitrary: ys)
  case (Cons x xs)
  then show ?case by (cases x; cases ys) (auto simp: Cons)
qed auto

lemma labels_of_valid:
  assumes "labels_of ms = Some labels" "Option.bind (map_of labels f) id = Some s"
  shows "identifier_ok s"
proof -
  have m: "map (\<lambda>f. map_option (Pair f) (field_opt ms (version_name f) (str_where identifier_ok))) VERSION_FIELDS =
      map Some labels"
    using assms(1) by (simp add: labels_of_def those_Some)
  have "(f, Some s) \<in> set labels" using assms(2) by (auto dest: map_of_SomeD split: bind_splits)
  then have "Some (f, Some s) \<in> set (map Some labels)" by simp
  then obtain g where "map_option (Pair g) (field_opt ms (version_name g) (str_where identifier_ok)) = Some (f, Some s)"
    unfolding m [symmetric] by (auto simp del: map_option_eq_Some)
  then have "field_opt ms (version_name g) (str_where identifier_ok) = Some (Some s)"
    by (cases "field_opt ms (version_name g) (str_where identifier_ok)") auto
  from field_opt_Some [OF this] show ?thesis by (auto simp: str_where_Some)
qed

lemma event_of_json_ok:
  assumes "event_of_json R v = Some e"
  shows "event_ok e"
proof -
  obtain ms where v: "v = JObj ms" using assms by (auto simp: event_of_json_def split: json.splits)
  obtain event_id timestamp deployment agent operation outcome failure latency input_tokens output_tokens retries labels synthetic
    where id: "field ms ''event_id'' (str_where event_id_ok) = Some event_id"
      and ts: "field ms ''timestamp'' (aware_timestamp R) = Some timestamp"
      and d: "field ms ''deployment_id'' (str_where identifier_ok) = Some deployment"
      and a: "field ms ''agent_id'' (str_where identifier_ok) = Some agent"
      and l: "field_opt ms ''latency_ms'' (float_within 0 86400000) = Some latency"
      and it: "field_opt ms ''input_tokens'' (int_within 0 1000000000) = Some input_tokens"
      and ot: "field_opt ms ''output_tokens'' (int_within 0 1000000000) = Some output_tokens"
      and rc: "field_opt ms ''retry_count'' (int_within 0 1000000) = Some retries"
      and lb: "labels_of ms = Some labels"
      and f: "(outcome = Failure) = (failure \<noteq> None)"
      and e: "e = \<lparr>ev_event_id = event_id, ev_timestamp = timestamp, ev_deployment_id = deployment,
              ev_agent_id = agent, ev_operation = operation, ev_outcome = outcome,
              ev_failure_type = failure, ev_latency_ms = latency, ev_input_tokens = input_tokens,
              ev_output_tokens = output_tokens, ev_retry_count = retries,
              ev_label = (\<lambda>f. Option.bind (map_of labels f) id), ev_synthetic = synthetic\<rparr>"
    using assms unfolding v
    by (simp add: event_of_json_def bind_eq_Some_conv split: if_splits) blast
  have "event_id_ok event_id" using id by (auto simp: field_Some str_where_Some)
  moreover have "datetime_range timestamp" using ts aware_timestamp_range by (auto simp: field_Some)
  moreover have "identifier_ok deployment" "identifier_ok agent"
    using d a by (auto simp: field_Some str_where_Some)
  moreover have "opt_between 0 86400000 latency"
    using l by (rule field_opt_within) (rule float_within_bounds)
  moreover have "opt_between 0 1000000000 input_tokens" "opt_between 0 1000000000 output_tokens" "opt_between 0 1000000 retries"
    by (rule field_opt_within [OF it] field_opt_within [OF ot] field_opt_within [OF rc]; simp add: int_within_Some)+
  ultimately show ?thesis
    unfolding e event_ok_def using f labels_of_valid [OF lb] by simp
qed

subsection \<open>Round trip\<close>

lemma literal_of_name:
  "literal_of operation_name all_operations (JStr (operation_name op)) = Some op"
  "literal_of outcome_name all_outcomes (JStr (outcome_name oc)) = Some oc"
  "literal_of failure_name all_failures (JStr (failure_name ft)) = Some ft"
proof -
  show "literal_of operation_name all_operations (JStr (operation_name op)) = Some op"
    by (cases op) (simp_all add: literal_of_def all_operations_def)
  show "literal_of outcome_name all_outcomes (JStr (outcome_name oc)) = Some oc"
    by (cases oc) (simp_all add: literal_of_def all_outcomes_def)
  show "literal_of failure_name all_failures (JStr (failure_name ft)) = Some ft"
    by (cases ft) (simp_all add: literal_of_def all_failures_def)
qed

lemma field_opt_json_opt:
  assumes "map_of ms k = Some (json_opt f x)" "\<And>y. x = Some y \<Longrightarrow> p (f y) = Some y" "\<And>y. f y \<noteq> JNull"
  shows "field_opt ms k p = Some x"
proof (cases x)
  case None
  then show ?thesis using assms(1) by (simp add: field_opt_def field_default_def json_opt_def)
next
  case (Some y)
  moreover have "(case f y of JNull \<Rightarrow> Some None | _ \<Rightarrow> map_option Some (p (f y))) = map_option Some (p (f y))"
    using assms(3) [of y] by (cases "f y") simp_all
  ultimately show ?thesis using assms(1,2) by (simp add: field_opt_def field_default_def json_opt_def)
qed

definition dump_members :: "runtime \<Rightarrow> event \<Rightarrow> (string, json) dict" where
  "dump_members R e = (case model_dump R e of JObj ms \<Rightarrow> ms | _ \<Rightarrow> [])"

lemma model_dump_members: "model_dump R e = JObj (dump_members R e)"
  by (simp add: dump_members_def model_dump_def)

lemma dump_fields:
  "map_of (dump_members R e) ''schema_version'' = Some (JStr ''1.0'')"
  "map_of (dump_members R e) ''event_id'' = Some (JStr (ev_event_id e))"
  "map_of (dump_members R e) ''timestamp'' = Some (JStr (dump_instant R (ev_timestamp e)))"
  "map_of (dump_members R e) ''deployment_id'' = Some (JStr (ev_deployment_id e))"
  "map_of (dump_members R e) ''agent_id'' = Some (JStr (ev_agent_id e))"
  "map_of (dump_members R e) ''operation'' = Some (JStr (operation_name (ev_operation e)))"
  "map_of (dump_members R e) ''outcome'' = Some (JStr (outcome_name (ev_outcome e)))"
  "map_of (dump_members R e) ''failure_type'' = Some (json_opt (\<lambda>t. JStr (failure_name t)) (ev_failure_type e))"
  "map_of (dump_members R e) ''latency_ms'' = Some (json_opt JFloat (ev_latency_ms e))"
  "map_of (dump_members R e) ''input_tokens'' = Some (json_opt JInt (ev_input_tokens e))"
  "map_of (dump_members R e) ''output_tokens'' = Some (json_opt JInt (ev_output_tokens e))"
  "map_of (dump_members R e) ''retry_count'' = Some (json_opt JInt (ev_retry_count e))"
  "map_of (dump_members R e) ''synthetic'' = Some (JBool (ev_synthetic e))"
  by (simp_all add: dump_members_def model_dump_def VERSION_FIELDS_def)

lemma dump_labels: "map_of (dump_members R e) (version_name f) = Some (json_opt JStr (ev_label e f))"
  by (cases f) (simp_all add: dump_members_def model_dump_def VERSION_FIELDS_def)

lemma dump_keys: "keys (dump_members R e) = EVENT_FIELDS"
  by (simp add: dump_members_def model_dump_def EVENT_FIELDS_def VERSION_FIELDS_def)

lemma in_VERSION_FIELDS: "f \<in> set VERSION_FIELDS"
  by (cases f) (simp_all add: VERSION_FIELDS_def)

lemma labels_of_dump:
  assumes "\<And>f s. ev_label e f = Some s \<Longrightarrow> identifier_ok s"
  shows "labels_of (dump_members R e) = Some (map (\<lambda>f. (f, ev_label e f)) VERSION_FIELDS)"
proof -
  have "field_opt (dump_members R e) (version_name f) (str_where identifier_ok) = Some (ev_label e f)" for f
    by (rule field_opt_json_opt [OF dump_labels]) (use assms in \<open>auto simp: str_where_Some\<close>)
  then show ?thesis by (simp add: labels_of_def those_Some)
qed

lemma map_of_all_labels: "Option.bind (map_of (map (\<lambda>f. (f, g f)) VERSION_FIELDS) f) id = g f"
  using in_VERSION_FIELDS [of f] by (simp add: map_of_map_restrict restrict_map_def)

lemma event_roundtrip_dump:
  assumes ok: "event_ok e" and iso: "aware_timestamp R (JStr (dump_instant R (ev_timestamp e))) = Some (ev_timestamp e)"
  shows "event_of_json R (model_dump R e) = Some e"
proof -
  let ?ms = "dump_members R e"
  have o: "field_opt ?ms ''failure_type'' (literal_of failure_name all_failures) = Some (ev_failure_type e)"
    "field_opt ?ms ''latency_ms'' (float_within 0 86400000) = Some (ev_latency_ms e)"
    "field_opt ?ms ''input_tokens'' (int_within 0 1000000000) = Some (ev_input_tokens e)"
    "field_opt ?ms ''output_tokens'' (int_within 0 1000000000) = Some (ev_output_tokens e)"
    "field_opt ?ms ''retry_count'' (int_within 0 1000000) = Some (ev_retry_count e)"
    using ok
    by (auto intro!: field_opt_json_opt dump_fields simp: literal_of_name float_within_def int_within_def event_ok_def opt_between_def)
  have lab: "labels_of ?ms = Some (map (\<lambda>f. (f, ev_label e f)) VERSION_FIELDS)"
    using ok by (intro labels_of_dump) (simp add: event_ok_def)
  have f: "field ?ms ''event_id'' (str_where event_id_ok) = Some (ev_event_id e)"
    "field ?ms ''timestamp'' (aware_timestamp R) = Some (ev_timestamp e)"
    "field ?ms ''deployment_id'' (str_where identifier_ok) = Some (ev_deployment_id e)"
    "field ?ms ''agent_id'' (str_where identifier_ok) = Some (ev_agent_id e)"
    "field ?ms ''operation'' (literal_of operation_name all_operations) = Some (ev_operation e)"
    "field ?ms ''outcome'' (literal_of outcome_name all_outcomes) = Some (ev_outcome e)"
    "field_default ?ms ''schema_version'' ''1.0'' (str_where (\<lambda>s. s = ''1.0'')) = Some ''1.0''"
    "field_default ?ms ''synthetic'' False json_bool = Some (ev_synthetic e)"
    using ok iso
    by (simp_all add: field_def field_default_def dump_fields str_where_def literal_of_name json_bool_def event_ok_def)
  have k: "list_all (\<lambda>k. k \<in> set EVENT_FIELDS) (keys ?ms)" by (simp add: dump_keys list_all_iff)
  have c: "(ev_outcome e = Failure) = (ev_failure_type e \<noteq> None)" using ok by (simp add: event_ok_def)
  show ?thesis
    unfolding model_dump_members event_of_json_def json.case
    using k c by (simp add: f o lab map_of_all_labels)
qed

end
