(* ===== verification/Demo.thy ===== *)
theory Demo
  imports Summary Alarms Protocol_Facts
begin

text \<open>
  A concrete tenant for the witnesses of the properties: one runtime, one event and the states
  that follow from it.  \<open>first_call\<close> computes, for any runtime, the outcome of the first event of a stream.
\<close>

subsection \<open>The first event of a stream\<close>

definition first_stream :: "runtime \<Rightarrow> event \<Rightarrow> stream" where
  "first_stream R e =
     \<lparr>sr_dimensions = event_dimensions e, sr_baseline = [], sr_current = [sample_of R e],
      sr_versions = [(version_id_of R e, version_metadata e)], sr_active = None,
      sr_last_timestamp = epoch_seconds (ev_timestamp e)\<rparr>"

definition first_state :: "runtime \<Rightarrow> event \<Rightarrow> det_state \<Rightarrow> det_state" where
  "first_state R e st =
     st\<lparr>ds_streams := ds_streams st @ [(event_stream R e, first_stream R e)],
        ds_dedup := AList.update (ev_event_id e) (event_digest R e, epoch_seconds (ev_timestamp e)) (ds_dedup st)\<rparr>"

lemma short_window_signals: "length c < 25 \<Longrightarrow> window_signals b c = []"
  by (simp add: window_signals_def high_failure_signal_def Let_def WINDOW_def)

lemma accept_first:
  assumes "event_stream R e \<notin> set (keys (ds_streams st))" "length (ds_streams st) < MAX_STREAMS"
  shows "accept_event R e st = Inr (first_state R e st)"
proof -
  let ?s1 = "(new_stream e)\<lparr>sr_versions := [(version_id_of R e, version_metadata e)]\<rparr>"
  have "map_of (ds_streams st) (event_stream R e) = None" using assms(1) by (simp only: notin_keys_iff not_False_eq_True)
  then have o: "open_stream (event_stream R e) e (ds_streams st) = Inr (new_stream e)"
    using assms(2) by (simp add: open_stream_def)
  have a: "admit_version R e (new_stream e) = Inr ?s1"
    by (simp add: admit_version_def trim_versions_def new_stream_def used_versions_def MAX_VERSIONS_def)
  have p: "push_sample (sample_of R e) ?s1 = first_stream R e"
    by (simp add: push_sample_def new_stream_def first_stream_def WINDOW_def sample_of_def)
  have ev: "evaluate R incs (event_stream R e) (first_stream R e) e = Inr (incs, first_stream R e)" for incs
    by (simp add: evaluate_def first_stream_def short_window_signals)
  have pr: "promote_baseline (first_stream R e) = first_stream R e"
    by (simp add: promote_baseline_def first_stream_def WINDOW_def)
  have ts: "sr_last_timestamp (new_stream e) = epoch_seconds (ev_timestamp e)" by (simp add: new_stream_def)
  have "accept_event R e st = Inr (st\<lparr>ds_streams := AList.update (event_stream R e) (first_stream R e) (ds_streams st),
      ds_incidents := ds_incidents st,
      ds_dedup := AList.update (ev_event_id e) (event_digest R e, epoch_seconds (ev_timestamp e)) (ds_dedup st)\<rparr>)"
    by (simp add: accept_event_def event_stream_def [symmetric] Let_def o a p ev pr ts)
  then show ?thesis unfolding keys_update_notin [OF assms(1)] by (cases st) (simp add: first_state_def)
qed

lemma first_call:
  assumes "epoch now = Inr t" "prune state t = st" "ds_streams st = []" "ds_dedup st = []"
    "in_time t e" "ds_replay_floor st < epoch_seconds (ev_timestamp e)"
    "size_of (first_state R e st\<lparr>ds_accepted := ds_accepted st + 1\<rparr>) \<le> MAX_STATE_BYTES"
  shows "process_events R size_of state [e] now =
    Inr (first_state R e st\<lparr>ds_accepted := ds_accepted st + 1\<rparr>, \<lparr>mt_accepted = 1, mt_duplicates = 0\<rparr>)"
proof -
  have "ingest_event R t e st = Inr (first_state R e st, True)"
    using assms(3-6) accept_first [of R e st]
    by (simp add: ingest_event_def Let_def in_time_def cutoff_at_def MAX_STREAMS_def)
  then have loop: "ingest_all R t (sort_key event_order [e]) (prune state t) 0 0 = Inr (first_state R e st, 1, 0)"
    by (simp add: assms(2))
  have "evict_dedup (first_state R e st) = first_state R e st"
    using assms(4) by (simp add: evict_dedup_def first_state_def MAX_DEDUP_def)
  with process_events_unfold [OF assms(1) _ _ loop, of size_of] assms(7) show ?thesis
    by (simp add: Let_def first_state_def)
qed

lemma fresh_single:
  "ds_incidents st = [] \<Longrightarrow> fresh_batch R st [e]"
  by (simp add: fresh_batch_def)

subsection \<open>A runtime, an event, a clock\<close>

text \<open>
  The stand-in for SHA-256 is the identity on the hashed text, which is injective.
\<close>

definition demo_runtime :: runtime where
  "demo_runtime = \<lparr>sha256_hex = (\<lambda>s. s), float_repr = (\<lambda>x. show_int \<lfloor>x\<rfloor>), dump_instant = (\<lambda>us. ''2001-09-09T01:46:40Z''),
     fromisoformat = (\<lambda>s. Some (Aware 1000000000000000))\<rparr>"

definition demo_event :: event where
  "demo_event = \<lparr>ev_event_id = ''00000000-0000-4000-8000-000000000001'', ev_timestamp = 1000000000000000,
     ev_deployment_id = ''d'', ev_agent_id = ''a'', ev_operation = Agent, ev_outcome = Failure,
     ev_failure_type = Some Timeout, ev_latency_ms = None, ev_input_tokens = None, ev_output_tokens = None,
     ev_retry_count = None, ev_label = (\<lambda>f. None), ev_synthetic = False\<rparr>"

definition demo_now :: pydatetime where
  "demo_now = Aware 1000000000000000"

definition demo_state :: det_state where
  "demo_state = first_state demo_runtime demo_event empty_state\<lparr>ds_accepted := 1\<rparr>"

lemma demo_times:
  "epoch_seconds 1000000000000000 = 1000000000" "epoch demo_now = Inr 1000000000"
  "cutoff_at 1000000000 = 999395200" "fadd 1000000000 FUTURE_SECONDS = 1000000300"
proof -
  have f: "fl 1000000000 = 1000000000" "fl 999395200 = 999395200" "fl 1000000300 = 1000000300"
    using fl_of_int [of 1000000000] fl_of_int [of 999395200] fl_of_int [of 1000000300] by simp_all
  show e: "epoch_seconds 1000000000000000 = 1000000000" by (simp add: epoch_seconds_def f)
  show "epoch demo_now = Inr 1000000000" by (simp add: epoch_def demo_now_def e)
  show "cutoff_at 1000000000 = 999395200" by (simp add: cutoff_at_def RETENTION_SECONDS_def fsub_def f)
  show "fadd 1000000000 FUTURE_SECONDS = 1000000300" by (simp add: fadd_def FUTURE_SECONDS_def f)
qed

lemma demo_in_time: "in_time 1000000000 demo_event"
  by (simp add: in_time_def demo_event_def demo_times)

lemma prune_no_streams:
  assumes "ds_streams st = []" "ds_dedup st = []" "\<forall>x \<in> set (ds_incidents st). cutoff_at now < in_opened_at x"
  shows "prune (Some st) now = st"
  using assms by (simp add: prune_def Let_def cutoff_at_def)

lemma prune_None: "prune None now = empty_state"
  by (simp add: prune_def empty_state_def)

lemma demo_call:
  "process_events demo_runtime (\<lambda>_. 0) None [demo_event] demo_now =
   Inr (demo_state, \<lparr>mt_accepted = 1, mt_duplicates = 0\<rparr>)"
proof -
  have "process_events demo_runtime (\<lambda>_. 0) None [demo_event] demo_now =
      Inr (first_state demo_runtime demo_event empty_state\<lparr>ds_accepted := ds_accepted empty_state + 1\<rparr>,
           \<lparr>mt_accepted = 1, mt_duplicates = 0\<rparr>)"
    by (rule first_call [OF demo_times(2) prune_None _ _ demo_in_time])
      (simp_all add: empty_state_def demo_event_def demo_times)
  then show ?thesis by (simp add: demo_state_def empty_state_def)
qed

lemma demo_fresh: "fresh_batch demo_runtime (prune None t) [demo_event]"
  by (rule fresh_single) (simp add: prune_None empty_state_def)

lemma demo_inv: "tenant_inv (Some demo_state)"
  using process_events_det_inv [OF _ demo_times(2) demo_fresh demo_call]
  by (simp add: tenant_inv_def)

text \<open>A tenant whose only trace is an incident that has already recovered.\<close>

definition demo_incident :: incident where
  "demo_incident = \<lparr>in_id = ''i'', in_stream_id = ''s'', in_status = Resolved, in_opened_at = 999999000,
     in_resolved_at = Some 999999500, in_resolution = Some By_recovery, in_synthetic = False,
     in_signals = [(High_failure_rate, Interval_evidence (1, 1))], in_baseline = window_stats [],
     in_current = window_stats []\<rparr>"

definition demo_closed :: det_state where
  "demo_closed = empty_state\<lparr>ds_incidents := [demo_incident]\<rparr>"

lemma demo_closed_inv: "tenant_inv (Some demo_closed)"
  by (simp add: tenant_inv_def det_inv_def core_inv_def demo_closed_def empty_state_def demo_incident_def
      open_ok_def closed_ok_def MAX_INCIDENTS_def)

lemma demo_closed_prune: "prune (Some demo_closed) 1000000000 = demo_closed"
  by (rule prune_no_streams) (simp_all add: demo_closed_def empty_state_def demo_incident_def demo_times)

lemma demo_closed_fresh: "fresh_batch demo_runtime (prune (Some demo_closed) 1000000000) [demo_event]"
proof -
  have "onset demo_runtime demo_event \<noteq> ''i''"
    by (simp add: onset_def onset_id_def canonical_hash_def demo_runtime_def)
  then show ?thesis
    unfolding demo_closed_prune by (simp add: fresh_batch_def demo_closed_def demo_incident_def)
qed

lemma demo_closed_call:
  "process_events demo_runtime (\<lambda>_. 0) (Some demo_closed) [demo_event] demo_now =
   Inr (first_state demo_runtime demo_event demo_closed\<lparr>ds_accepted := 1\<rparr>, \<lparr>mt_accepted = 1, mt_duplicates = 0\<rparr>)"
proof -
  have "process_events demo_runtime (\<lambda>_. 0) (Some demo_closed) [demo_event] demo_now =
      Inr (first_state demo_runtime demo_event demo_closed\<lparr>ds_accepted := ds_accepted demo_closed + 1\<rparr>,
           \<lparr>mt_accepted = 1, mt_duplicates = 0\<rparr>)"
    by (rule first_call [OF demo_times(2) demo_closed_prune _ _ demo_in_time])
      (simp_all add: demo_closed_def empty_state_def demo_event_def demo_times)
  then show ?thesis by (simp add: demo_closed_def empty_state_def)
qed

text \<open>A tenant with an open incident on a stream of its own.\<close>

definition demo_alarm :: incident where
  "demo_alarm = demo_incident\<lparr>in_status := Open, in_resolved_at := None, in_resolution := None\<rparr>"

definition demo_open :: det_state where
  "demo_open = empty_state\<lparr>
     ds_streams := [(''s'', (first_stream demo_runtime demo_event)\<lparr>sr_active := Some ''i''\<rparr>)],
     ds_incidents := [demo_alarm]\<rparr>"

lemma demo_stream_ok: "stream_ok ((first_stream demo_runtime demo_event)\<lparr>sr_active := a\<rparr>)"
  by (simp add: stream_ok_def first_stream_def sample_of_def used_versions_def WINDOW_def MAX_VERSIONS_def)

lemma demo_open_inv: "det_inv demo_open"
proof -
  have "link_ok [demo_alarm] ''s'' ((first_stream demo_runtime demo_event)\<lparr>sr_active := Some ''i''\<rparr>)"
    by (simp add: link_ok_def owns_def demo_alarm_def demo_incident_def first_stream_def demo_event_def demo_times supported_def)
  then show ?thesis
    using demo_stream_ok
    by (simp add: det_inv_def core_inv_def demo_open_def empty_state_def open_ok_def closed_ok_def demo_alarm_def
        demo_incident_def MAX_INCIDENTS_def MAX_STREAMS_def)
qed

lemma demo_open_accept: "accept_event demo_runtime demo_event demo_open = Inr (first_state demo_runtime demo_event demo_open)"
  by (rule accept_first)
    (simp_all add: demo_open_def empty_state_def event_stream_def stream_id_of_def canonical_hash_def demo_runtime_def
      MAX_STREAMS_def)

lemma demo_open_summary:
  obtains v w where "summarize demo_runtime (Some demo_open) demo_now = Inr v" "w \<in> set (sy_streams v)"
proof -
  obtain v where v: "summarize demo_runtime (Some demo_open) demo_now = Inr v"
    using summarize_total [OF _ demo_times(2), of "Some demo_open"] demo_open_inv by (auto simp: tenant_inv_def)
  have "keys (ds_streams (prune (Some demo_open) 1000000000)) = [''s'']"
    by (simp add: prune_kept_keys demo_open_def first_stream_def demo_event_def demo_times)
  then have "ds_streams (prune (Some demo_open) 1000000000) \<noteq> []" by auto
  moreover have "list_all2 (\<lambda>(k, s) w. view_stream demo_runtime k s = Inr w)
      (sort_key fst (ds_streams (prune (Some demo_open) 1000000000))) (sy_streams v)"
    using v by (rule summarize_elim) (simp add: demo_times)
  then have "length (sy_streams v) = length (ds_streams (prune (Some demo_open) 1000000000))"
    by (auto dest: list_all2_lengthD)
  ultimately have "sy_streams v \<noteq> []" by auto
  then obtain w where "w \<in> set (sy_streams v)" by (cases "sy_streams v") auto
  then show thesis by (rule that [OF v])
qed

text \<open>Windows of an outage and of a recovery.\<close>

definition outage_stream :: stream where
  "outage_stream = (first_stream demo_runtime demo_event)\<lparr>sr_current := replicate 25 (sample_of demo_runtime demo_event)\<rparr>"

definition recovery_stream :: stream where
  "recovery_stream = (first_stream demo_runtime demo_event)\<lparr>
     sr_current := replicate WINDOW (sample_of demo_runtime (demo_event\<lparr>ev_outcome := Success, ev_failure_type := None\<rparr>)),
     sr_active := Some ''i''\<rparr>"

lemma recovery_stream_facts:
  "sr_active recovery_stream = Some ''i''" "sr_baseline recovery_stream = []"
  "none_failed (sr_current recovery_stream)" "length (sr_current recovery_stream) = WINDOW"
  "window_signals [] (sr_current recovery_stream) = []"
proof -
  show n: "none_failed (sr_current recovery_stream)"
    by (simp add: recovery_stream_def none_failed_def sample_of_def)
  have "high_failure_signal (sr_current recovery_stream) = []"
    using none_failed_interval(1) [OF n] by (simp add: high_failure_signal_def Let_def)
  then show "window_signals [] (sr_current recovery_stream) = []"
    by (simp add: window_signals_def WINDOW_def)
qed (simp_all add: recovery_stream_def first_stream_def)

lemma demo_iso: "aware_timestamp demo_runtime (JStr (dump_instant demo_runtime (ev_timestamp demo_event))) = Some (ev_timestamp demo_event)"
  by (simp add: aware_timestamp_def demo_runtime_def demo_event_def datetime_range_def)

lemma demo_event_ok: "event_ok demo_event"
proof -
  have "event_id_ok ''00000000-0000-4000-8000-000000000001''" by code_simp
  moreover have "identifier_ok ''d''" "identifier_ok ''a''" by code_simp+
  ultimately show ?thesis by (simp add: event_ok_def demo_event_def datetime_range_def opt_between_def)
qed

lemma demo_event_accepted: "event_of_json demo_runtime (model_dump demo_runtime demo_event) = Some demo_event"
  by (rule event_roundtrip_dump [OF demo_event_ok demo_iso])

end
