(* ===== verification/Demo_Service.thy ===== *)
theory Demo_Service
  imports Api_Flows Demo
begin

text \<open>
  A concrete service for the witnesses of the store and API properties: one provisioned tenant, its
  first key and an empty detection state.
\<close>

definition service_runtime :: runtime where
  "service_runtime = demo_runtime\<lparr>sha256_hex :=
     (\<lambda>s. replicate 64 (if s \<noteq> [] \<and> last s = CHR ''1'' then CHR ''1'' else CHR ''0''))\<rparr>"

definition token0 :: string where "token0 = replicate 43 (CHR ''0'')"
definition token1 :: string where "token1 = replicate 43 (CHR ''1'')"
definition digest0 :: string where "digest0 = replicate 64 (CHR ''0'')"
definition digest1 :: string where "digest1 = replicate 64 (CHR ''1'')"

definition demo_db :: tenant_db where
  "demo_db = \<lparr>db_tenants = [tenant_at ''acme'' 0], db_keys = [key_at ''acme'' digest0 SCOPES 0],
     db_states = [state_at ''acme'' None 0]\<rparr>"

lemma demo_digests:
  "digest_key service_runtime (new_key token0) = digest0" "digest_key service_runtime (new_key token1) = digest1"
  by (simp_all add: digest_key_def service_runtime_def new_key_def token0_def token1_def digest0_def digest1_def)

lemma demo_names_ok:
  "tenant_id_ok ''acme''" "digest_ok digest0" "digest_ok digest1" "token_ok token0" "token_ok token1"
  by (simp_all add: tenant_id_ok_def digest_ok_def token_ok_def digest0_def digest1_def token0_def token1_def
      tenant_char_def is_alnum_def is_lower_def is_digit_def is_hex_def char_in_def code_def list_all_iff)

lemma digest_neq: "digest0 \<noteq> digest1" "take 12 digest0 \<noteq> take 12 digest1"
  by (simp_all add: digest0_def digest1_def)

lemma demo_create: "create_tenant None ''acme'' digest0 (Aware 0) empty_db = (Inr (), demo_db)"
  by (simp add: create_tenant_def rbind_Inr_iff utc_def demo_names_ok has_tenant_def empty_db_def find_key_def
      insert_tenant_def insert_key_def insert_state_def find_state_def add_retention_def datetime_range_def
      RETENTION_US_def demo_db_def tenant_at_def key_at_def state_at_def)

lemma demo_db_ok: "db_ok demo_db"
  using demo_create by (rule create_tenant_db_ok [OF empty_db_ok, where h = digest0])

lemma demo_holder: "key_holder demo_db digest0 = Some ''acme''" "key_holder demo_db digest1 = None"
  using digest_neq by (simp_all add: key_holder_def find_key_def demo_db_def)

definition demo_service :: service where
  "demo_service = \<lparr>svc_db = demo_db, svc_limiter = new_limiter 120 60 4096\<rparr>"

lemma demo_service_ok: "service_ok demo_service"
  by (simp add: service_ok_def demo_service_def demo_db_ok new_limiter_ok)

definition demo_header :: "string option" where
  "demo_header = Some (key_header (new_key token0))"

definition demo_principal :: principal where
  "demo_principal = \<lparr>pr_tenant = ''acme'', pr_scopes = SCOPES, pr_key_hash = digest0\<rparr>"

definition admitted_service :: service where
  "admitted_service = demo_service\<lparr>svc_limiter := fst (allow (svc_limiter demo_service) ''acme'' 0)\<rparr>"

lemma demo_bearer: "bearer service_runtime demo_header = Inr digest0"
  by (simp add: demo_header_def bearer_token demo_names_ok demo_digests)

lemma demo_allow: "snd (allow (svc_limiter demo_service) ''acme'' 0)"
  by (simp add: allow_def demo_service_def new_limiter_def bucket_at_def fsub_def)

lemma demo_require:
  assumes "scope \<in> set SCOPES"
  shows "require service_runtime scope demo_header 0 demo_service = (Inr demo_principal, admitted_service)"
proof -
  have "authenticate digest0 (svc_db demo_service) =
      (Inr (Some (key_record ''acme'' digest0 SCOPES 0)) :: update_error store_error + _)"
    by (simp add: authenticate_def check_digest_def demo_names_ok find_key_def demo_service_def demo_db_def has_tenant_def
        key_at_def)
  then show ?thesis
    using assms demo_allow
    by (simp add: require_def demo_bearer key_record_def Let_def split_def admitted_service_def demo_principal_def)
qed

lemma scope_names: "''read'' \<in> set SCOPES" "''ingest'' \<in> set SCOPES" "''manage'' \<in> set SCOPES"
  by (simp_all add: SCOPES_def)

lemma demo_handler:
  assumes "scope \<in> set SCOPES" "f demo_principal demo_db = (r, db)"
  shows "with_principal service_runtime scope demo_header 0 demo_service f = (r, admitted_service\<lparr>svc_db := db\<rparr>)"
  using assms demo_require [OF assms(1)]
  by (simp add: with_principal_def admitted_service_def demo_service_def)

lemma demo_bound: "require_key demo_db ''acme'' (Some digest0) = (Inr () :: 'e store_error + unit)"
  by (simp add: demo_names_ok holds_key_def demo_db_def)

text \<open>Ingestion of one event.\<close>

definition demo_settings :: settings where
  "demo_settings = default_settings\<lparr>cf_admin_hash := digest0\<rparr>"

lemma demo_service_call:
  "process_events service_runtime (\<lambda>_. 0) None [demo_event] (Aware 1000000000000000) =
   Inr (first_state service_runtime demo_event empty_state\<lparr>ds_accepted := 1\<rparr>, \<lparr>mt_accepted = 1, mt_duplicates = 0\<rparr>)"
proof -
  have "process_events service_runtime (\<lambda>_. 0) None [demo_event] demo_now =
      Inr (first_state service_runtime demo_event empty_state\<lparr>ds_accepted := ds_accepted empty_state + 1\<rparr>,
           \<lparr>mt_accepted = 1, mt_duplicates = 0\<rparr>)"
    by (rule first_call [OF demo_times(2) prune_None _ _ demo_in_time])
      (simp_all add: empty_state_def demo_event_def demo_times)
  then show ?thesis by (simp add: demo_now_def empty_state_def)
qed

definition ingested_db :: tenant_db where
  "ingested_db = demo_db\<lparr>db_states := [state_at ''acme''
     (Some (first_state service_runtime demo_event empty_state\<lparr>ds_accepted := 1, ds_usage := Some (11574, 1)\<rparr>))
     1000000000000000]\<rparr>"

lemma demo_transact:
  "transact None (\<lambda>_. Some []) 1000000000000000 ''acme''
     (ingest_update service_runtime (\<lambda>_. 0) demo_settings [demo_event] 1000000000000000) (Some digest0) demo_db =
   (Inr \<lparr>mt_accepted = 1, mt_duplicates = 0\<rparr> :: update_error store_error + metrics, ingested_db)"
proof -
  have s: "find_state demo_db ''acme'' = Some (state_at ''acme'' None 0)"
    by (simp add: find_state_def demo_db_def)
  have "ingest_update service_runtime (\<lambda>_. 0) demo_settings [demo_event] 1000000000000000
      (current_state None 1000000000000000 demo_db ''acme'') =
      Inr (Some (first_state service_runtime demo_event empty_state\<lparr>ds_accepted := 1, ds_usage := Some (11574, 1)\<rparr>),
           \<lparr>mt_accepted = 1, mt_duplicates = 0\<rparr>)"
    by (simp add: ingest_update_def current_state_def s used_today_def demo_service_call day_of_def demo_settings_def
        default_settings_def RETENTION_US_def)
  then show ?thesis
    using s by (simp add: transact_def rbind_Inr_iff demo_names_ok holds_key_def has_tenant_def serialize_def
        STORE_STATE_BYTES_def add_retention_def datetime_range_def RETENTION_US_def upsert_state_def ingested_db_def
        demo_db_def state_at_def)
qed

lemma demo_ingest:
  "ingest_handler service_runtime (\<lambda>_. 0) (\<lambda>_. Some []) demo_settings demo_header [demo_event] 0 1000000000000000 demo_service =
   (Inr \<lparr>mt_accepted = 1, mt_duplicates = 0\<rparr>, admitted_service\<lparr>svc_db := ingested_db\<rparr>)"
  unfolding ingest_handler_def
  by (rule demo_handler [OF scope_names(2)]) (simp add: demo_principal_def demo_transact store_result_def)

text \<open>A granted key, a revocation, a deletion.\<close>

definition granted_db :: tenant_db where
  "granted_db = demo_db\<lparr>db_keys := db_keys demo_db @ [key_at ''acme'' digest1 [''read''] 0]\<rparr>"

lemma demo_grant:
  "add_key_handler service_runtime demo_header [''read''] token1 0 0 demo_service =
   (Inr \<lparr>kg_key = new_key token1, kg_key_id = take 12 digest1, kg_scopes = [''read'']\<rparr>,
    admitted_service\<lparr>svc_db := granted_db\<rparr>)"
proof -
  have sc: "scopes_ok [''read'']" by (simp add: scopes_ok_def SCOPES_def)
  have row: "insert_key (key_at ''acme'' digest1 [''read''] 0) demo_db = (Inr granted_db :: update_error store_error + _)"
    using digest_neq
    by (simp add: insert_key_def find_key_def demo_db_def has_tenant_def granted_db_def)
  have "add_key ''acme'' digest1 [''read''] (Aware 0) (Some digest0) demo_db = (Inr () :: update_error store_error + unit, granted_db)"
    using sc row [unfolded key_at_def] demo_names_ok
    by (simp add: add_key_def rbind_Inr_iff utc_def holds_key_def has_tenant_def tenant_keys_def demo_db_def
        MAX_ACTIVE_KEYS_def)
  then show ?thesis
    unfolding add_key_handler_def
    by (intro demo_handler scope_names) (simp add: demo_principal_def demo_digests store_result_def SCOPES_def)
qed

lemma demo_revoke:
  "revoke_key_handler service_runtime demo_header (take 12 digest0) 0 demo_service =
   (Inr (), admitted_service\<lparr>svc_db := demo_db\<lparr>db_keys := []\<rparr>\<rparr>)"
proof -
  have sel: "key_selector_ok (take 12 digest0)" "key_id_ok (take 12 digest0)"
    using demo_names_ok(2)
    by (simp_all add: key_selector_ok_def key_id_ok_def digest_ok_def list_all_iff) (meson in_set_takeD)+
  have "revoke_key ''acme'' (take 12 digest0) (Some digest0) demo_db =
      (Inr True :: update_error store_error + bool, demo_db\<lparr>db_keys := []\<rparr>)"
    using sel demo_names_ok by (simp add: revoke_key_def rbind_Inr_iff holds_key_def demo_db_def Let_def)
  then show ?thesis
    unfolding revoke_key_handler_def
    by (intro demo_handler scope_names) (simp add: demo_principal_def sel store_result_def)
qed

lemma demo_delete:
  "delete_tenant_handler service_runtime demo_header (Some ''acme'') 0 demo_service =
   (Inr (), admitted_service\<lparr>svc_db := empty_db\<rparr>)"
proof -
  have "delete_tenant ''acme'' (Some digest0) demo_db = (Inr True :: update_error store_error + bool, empty_db)"
    using demo_names_ok
    by (simp add: delete_tenant_def rbind_Inr_iff holds_key_def demo_db_def has_tenant_def remove_tenant_def empty_db_def)
  then show ?thesis
    unfolding delete_tenant_handler_def
    by (intro demo_handler scope_names) (simp add: demo_principal_def store_result_def)
qed

end
