(* ===== verification/Sdk_Events.thy ===== *)
theory Sdk_Events
  imports Protocol Pytext
begin

text \<open>
  The event side of the Python SDK, \<open>reliamesh_sdk/events.py\<close>: local validation of an event, its
  construction from keyword arguments, and the whitelist mapping of OpenTelemetry attributes.  A mapping is the
  member list of a JSON object; \<open>None\<close> stands for the \<open>ValueError\<close> of every rejection.
\<close>

type_synonym members = "(string, json) dict"

definition OPERATIONS :: "string list" where
  "OPERATIONS = [''agent'', ''model'', ''tool'', ''validation'']"

definition FAILURE_TYPES :: "string list" where
  "FAILURE_TYPES =
     [''agent_error'', ''model_error'', ''tool_error'', ''malformed_output'', ''validation_failure'',
      ''timeout'', ''retry_exhausted'', ''retry_explosion'', ''loop_detected'', ''fallback_activated'',
      ''task_incomplete'', ''unknown'']"

definition IDENTIFIERS :: "string list" where
  "IDENTIFIERS =
     [''deployment_id'', ''agent_id'', ''provider'', ''model'', ''model_version'', ''framework'',
      ''framework_version'', ''sdk'', ''sdk_version'', ''tool'', ''tool_version'', ''prompt_version'', ''agent_version'']"

definition COUNTERS :: "(string, int) dict" where
  "COUNTERS = [(''input_tokens'', 10 ^ 9), (''output_tokens'', 10 ^ 9), (''retry_count'', 10 ^ 6)]"

definition REQUIRED :: "string list" where
  "REQUIRED =
     [''schema_version'', ''event_id'', ''timestamp'', ''deployment_id'', ''agent_id'', ''operation'', ''outcome'']"

definition FIELDS :: "string list" where
  "FIELDS = REQUIRED @ IDENTIFIERS @ keys COUNTERS @ [''failure_type'', ''latency_ms'', ''synthetic'']"

subsection \<open>Validation\<close>

definition sdk_event_id :: "json \<Rightarrow> string option" where
  "sdk_event_id v = (case v of JStr s \<Rightarrow> uuid_text s | _ \<Rightarrow> None)"

definition sdk_timestamp :: "runtime \<Rightarrow> json \<Rightarrow> string option" where
  "sdk_timestamp R v =
     (case v of
        JStr s \<Rightarrow>
          (case fromisoformat R s of
             Some (Aware us) \<Rightarrow> if datetime_range us then Some (isoformat us) else None
           | _ \<Rightarrow> None)
      | _ \<Rightarrow> None)"

text \<open>A check of the value under a key, where there is one.\<close>

definition checked :: "members \<Rightarrow> string \<Rightarrow> (json \<Rightarrow> bool) \<Rightarrow> bool" where
  "checked ms k P = (case map_of ms k of None \<Rightarrow> True | Some v \<Rightarrow> P v)"

definition str_in :: "string list \<Rightarrow> json \<Rightarrow> bool" where
  "str_in xs v = (case v of JStr s \<Rightarrow> s \<in> set xs | _ \<Rightarrow> False)"

definition identifier_json :: "json \<Rightarrow> bool" where
  "identifier_json v = (case v of JStr s \<Rightarrow> identifier_ok s | _ \<Rightarrow> False)"

definition counter_json :: "int \<Rightarrow> json \<Rightarrow> bool" where
  "counter_json maximum v = (case v of JInt i \<Rightarrow> 0 \<le> i \<and> i \<le> maximum | _ \<Rightarrow> False)"

definition latency_json :: "json \<Rightarrow> bool" where
  "latency_json v =
     (case v of JInt i \<Rightarrow> 0 \<le> i \<and> i \<le> 86400000 | JFloat x \<Rightarrow> 0 \<le> x \<and> x \<le> 86400000 | _ \<Rightarrow> False)"

definition failure_checked :: "members \<Rightarrow> bool" where
  "failure_checked ms =
     (if map_of ms ''outcome'' = Some (JStr ''failure'')
      then (case map_of ms ''failure_type'' of Some v \<Rightarrow> str_in FAILURE_TYPES v | None \<Rightarrow> False)
      else (case map_of ms ''failure_type'' of None \<Rightarrow> True | Some v \<Rightarrow> v = JNull))"

definition validate_event :: "runtime \<Rightarrow> json \<Rightarrow> members option" where
  "validate_event R value =
     (case value of
        JObj ms \<Rightarrow>
          if \<not> list_all (\<lambda>k. k \<in> set FIELDS) (keys ms) \<or> \<not> list_all (\<lambda>k. k \<in> set (keys ms)) REQUIRED then None
          else if map_of ms ''schema_version'' \<noteq> Some (JStr ''1.0'') then None
          else do {
            event_id \<leftarrow> Option.bind (map_of ms ''event_id'') sdk_event_id;
            let ms1 = AList.update ''event_id'' (JStr event_id) ms;
            timestamp \<leftarrow> Option.bind (map_of ms1 ''timestamp'') (sdk_timestamp R);
            let ms2 = AList.update ''timestamp'' (JStr timestamp) ms1;
            if \<not> list_all (\<lambda>k. checked ms2 k identifier_json) IDENTIFIERS then None
            else if \<not> checked ms2 ''operation'' (str_in OPERATIONS) then None
            else if map_of ms2 ''outcome'' \<noteq> Some (JStr ''success'') \<and> map_of ms2 ''outcome'' \<noteq> Some (JStr ''failure'') then None
            else if \<not> failure_checked ms2 then None
            else if \<not> list_all (\<lambda>(k, maximum). checked ms2 k (counter_json maximum)) COUNTERS then None
            else if \<not> checked ms2 ''latency_ms'' latency_json then None
            else if \<not> checked ms2 ''synthetic'' (\<lambda>v. json_bool v \<noteq> None) then None
            else Some ms2
          }
      | _ \<Rightarrow> None)"

subsection \<open>Construction\<close>

text \<open>
  The keyword arguments of \<open>event\<close>; \<open>fresh\<close> is \<open>str(uuid4())\<close> and \<open>now\<close> the clock.  A datetime
  without timezone has an ISO text without offset, which the validation rejects.
\<close>

record event_args =
  ea_deployment_id :: json
  ea_agent_id :: json
  ea_operation :: json
  ea_outcome :: json
  ea_failure_type :: "json option"
  ea_timestamp :: "pydatetime option"
  ea_event_id :: "string option"
  ea_synthetic :: json
  ea_measurements :: members

definition chosen_id :: "string option \<Rightarrow> string \<Rightarrow> string" where
  "chosen_id given fresh = (case given of None \<Rightarrow> fresh | Some s \<Rightarrow> if s = [] then fresh else s)"

definition event_members :: "string \<Rightarrow> int \<Rightarrow> event_args \<Rightarrow> members" where
  "event_members fresh us a =
     [(''schema_version'', JStr ''1.0''), (''event_id'', JStr (chosen_id (ea_event_id a) fresh)),
      (''timestamp'', JStr (isoformat us)), (''deployment_id'', ea_deployment_id a), (''agent_id'', ea_agent_id a),
      (''operation'', ea_operation a), (''outcome'', ea_outcome a), (''synthetic'', ea_synthetic a)]
     @ (case ea_failure_type a of None \<Rightarrow> [] | Some f \<Rightarrow> [(''failure_type'', f)])"

definition sdk_event :: "runtime \<Rightarrow> string \<Rightarrow> int \<Rightarrow> event_args \<Rightarrow> members option" where
  "sdk_event R fresh now a =
     (case (case ea_timestamp a of None \<Rightarrow> Aware now | Some t \<Rightarrow> t) of
        Naive \<Rightarrow> None
      | Aware us \<Rightarrow>
          (let result = event_members fresh us a
           in if list_ex (\<lambda>k. k \<in> set (keys result)) (keys (ea_measurements a)) then None
              else validate_event R (JObj (result @ ea_measurements a))))"

definition OTEL_FIELDS :: "(string, string) dict" where
  "OTEL_FIELDS =
     [(''gen_ai.provider.name'', ''provider''), (''gen_ai.request.model'', ''model''),
      (''gen_ai.usage.input_tokens'', ''input_tokens''), (''gen_ai.usage.output_tokens'', ''output_tokens''),
      (''telemetry.sdk.name'', ''sdk''), (''telemetry.sdk.version'', ''sdk_version''),
      (''reliamesh.model.version'', ''model_version''), (''reliamesh.prompt.version'', ''prompt_version''),
      (''reliamesh.agent.version'', ''agent_version''), (''reliamesh.framework.name'', ''framework''),
      (''reliamesh.framework.version'', ''framework_version''), (''reliamesh.tool.name'', ''tool''),
      (''reliamesh.tool.version'', ''tool_version'')]"

definition OTEL_OPERATIONS :: "(string, string) dict" where
  "OTEL_OPERATIONS =
     [(''chat'', ''model''), (''text_completion'', ''model''), (''generate_content'', ''model''),
      (''embeddings'', ''model''), (''invoke_agent'', ''agent''), (''execute_tool'', ''tool'')]"

definition otel_selected :: "members \<Rightarrow> json option \<Rightarrow> members" where
  "otel_selected attributes latency =
     concat (map (\<lambda>(source, target). case map_of attributes source of None \<Rightarrow> [] | Some v \<Rightarrow> [(target, v)]) OTEL_FIELDS)
     @ (case latency of None \<Rightarrow> [] | Some v \<Rightarrow> [(''latency_ms'', v)])"

definition from_otel_attributes ::
    "runtime \<Rightarrow> string \<Rightarrow> int \<Rightarrow> members \<Rightarrow> json \<Rightarrow> json \<Rightarrow> json \<Rightarrow> json option \<Rightarrow> json option \<Rightarrow> json \<Rightarrow> members option" where
  "from_otel_attributes R fresh now attributes deployment agent outcome failure latency synthetic =
     (case map_of attributes ''gen_ai.operation.name'' of
        Some (JStr name) \<Rightarrow>
          (case map_of OTEL_OPERATIONS name of
             None \<Rightarrow> None
           | Some operation \<Rightarrow>
               sdk_event R fresh now
                 \<lparr>ea_deployment_id = deployment, ea_agent_id = agent, ea_operation = JStr operation, ea_outcome = outcome,
                  ea_failure_type = failure, ea_timestamp = None, ea_event_id = None, ea_synthetic = synthetic,
                  ea_measurements = otel_selected attributes latency\<rparr>)
      | _ \<Rightarrow> None)"

end
