(* ===== verification/Uuid_Facts.thy ===== *)
theory Uuid_Facts
  imports Pytext Protocol
begin

text \<open>
  The canonical text of a UUID: what \<open>uuid_text\<close> returns has the 8-4-4-4-12 form the server requires, and a
  text of that form is its own canonical text.
\<close>

lemma index_split:
  "[0..<36] = [0..<8] @ [8] @ [9..<13] @ [13] @ [14..<18] @ [18] @ [19..<23] @ [23] @ [24..<36]"
  by code_simp

definition at_index :: "nat \<times> char \<Rightarrow> bool" where
  "at_index p = (if fst p \<in> {8, 13, 18, 23} then snd p = CHR ''-'' else is_hex (snd p))"

lemma event_id_ok_alt: "event_id_ok s \<longleftrightarrow> length s = 36 \<and> list_all at_index (zip [0..<36] s)"
  by (simp add: event_id_ok_def at_index_def [abs_def] split_def)

lemma at_index_group:
  assumes "list_all is_hex xs" "\<And>i. a \<le> i \<Longrightarrow> i < b \<Longrightarrow> i \<notin> {8, 13, 18, 23}"
  shows "list_all at_index (zip [a..<b] xs)"
  using assms by (auto simp: list_all_iff at_index_def dest!: set_zip_leftD set_zip_rightD elim!: in_set_zipE)

lemma dashed_ok:
  assumes "length h = 32" "list_all is_hex h"
  shows "event_id_ok (dashed h)"
proof -
  have part: "list_all is_hex (take n (drop m h))" "list_all is_hex (drop m h)" for n m
    using assms(2) by (auto simp: list_all_iff dest: in_set_takeD in_set_dropD)
  have groups: "list_all at_index (zip [0..<8] (take 8 (drop 0 h)))" "list_all at_index (zip [9..<13] (take 4 (drop 8 h)))"
    "list_all at_index (zip [14..<18] (take 4 (drop 12 h)))" "list_all at_index (zip [19..<23] (take 4 (drop 16 h)))"
    "list_all at_index (zip [24..<36] (drop 20 h))"
    by (rule at_index_group [OF part(1)] at_index_group [OF part(2)]; auto)+
  show ?thesis
    unfolding event_id_ok_alt index_split dashed_def
    using assms(1) groups by (simp add: zip_append1 at_index_def del: upt_Suc upt_rec_numeral)
qed

lemma uuid_text_ok: "uuid_text v = Some s \<Longrightarrow> event_id_ok s"
  by (auto simp: uuid_text_def Let_def dashed_ok hex_digits_hex split: if_splits option.splits)

subsection \<open>Canonical texts are fixed points\<close>

lemma remove_sub_absent: "c \<notin> set s \<Longrightarrow> remove_sub (c # p) s = s"
  by (induction s) auto

definition hex_val :: "string \<Rightarrow> nat" where
  "hex_val h = foldl (\<lambda>n c. 16 * n + the (hex_value c)) 0 h"

lemma hex_value_hex: "is_hex c \<Longrightarrow> \<exists>v. hex_value c = Some v \<and> v < 16 \<and> digit_char v = c"
proof -
  assume "is_hex c"
  then have "code c \<in> set ([48..<58] @ [97..<103])"
    by (auto simp: is_hex_def is_digit_def char_in_def code_def simp del: upt_rec_numeral)
  then have "char_of (code c) \<in> set (map char_of ([48..<58] @ [97..<103 :: nat]))"
    unfolding set_map by (rule imageI)
  then have "c \<in> set (map char_of ([48..<58] @ [97..<103 :: nat]))" by (simp only: code_def char_of_char)
  moreover have "\<forall>c \<in> set (map char_of ([48..<58] @ [97..<103 :: nat])).
      case hex_value c of None \<Rightarrow> False | Some v \<Rightarrow> v < 16 \<and> digit_char v = c"
    by code_simp
  ultimately show ?thesis by (force split: option.splits)
qed

lemma hex_value_the: "is_hex c \<Longrightarrow> hex_value c = Some (the (hex_value c)) \<and> the (hex_value c) < 16 \<and> digit_char (the (hex_value c)) = c"
  using hex_value_hex by force

lemma hex_val_snoc: "hex_val (h @ [c]) = 16 * hex_val h + the (hex_value c)"
  by (simp add: hex_val_def)

lemma hex_val_bound: "list_all is_hex h \<Longrightarrow> hex_val h < 16 ^ length h"
proof (induction h rule: rev_induct)
  case (snoc c h)
  then have "hex_val h + 1 \<le> 16 ^ length h" "the (hex_value c) < 16" using hex_value_the by auto
  then show ?case by (simp add: hex_val_snoc)
qed (simp add: hex_val_def)

lemma hex_digits_Suc: "v < 16 \<Longrightarrow> hex_digits (Suc k) (16 * n + v) = hex_digits k n @ [digit_char v]"
proof -
  assume v: "v < 16"
  have "(16 * n + v) div 16 ^ (k - i) = n div 16 ^ (k - Suc i)" if "i < k" for i
  proof -
    have "(16 * n + v) div 16 ^ (k - i) = (16 * n + v) div 16 div 16 ^ (k - Suc i)"
      using that by (metis Suc_diff_Suc div_mult2_eq power_Suc)
    then show ?thesis using v by simp
  qed
  with v show ?thesis by (simp add: hex_digits_def)
qed

lemma hex_digits_val: "list_all is_hex h \<Longrightarrow> hex_digits (length h) (hex_val h) = h"
proof (induction h rule: rev_induct)
  case (snoc c h)
  then show ?case using hex_value_the [of c] by (simp add: hex_val_snoc hex_digits_Suc)
qed (simp add: hex_digits_def)

lemma parse_hex_val:
  "list_all is_hex h \<Longrightarrow> parse_hex h d n =
    (if h = [] \<and> \<not> d then None else Some (foldl (\<lambda>n c. 16 * n + the (hex_value c)) n h))"
proof (induction h arbitrary: d n)
  case (Cons c h)
  then obtain v where "hex_value c = Some v" using hex_value_the [of c] by auto
  with Cons show ?case by simp
qed simp

lemma hex_not: "is_hex c \<Longrightarrow> c \<noteq> CHR ''u'' \<and> c \<noteq> CHR ''-'' \<and> c \<noteq> CHR ''{'' \<and> c \<noteq> CHR ''}'' \<and> c \<noteq> CHR ''+'' \<and>
    c \<noteq> CHR ''x'' \<and> c \<noteq> CHR ''X'' \<and> \<not> is_space c"
  by (auto simp: is_hex_def is_digit_def char_in_def code_def is_space_def)

lemma py_int16_hex:
  assumes "list_all is_hex h" "h \<noteq> []"
  shows "py_int16 h = Some (hex_val h)"
proof -
  have "strip h = h" using assms(1) hex_not by (intro strip_solid) (auto simp: list_all_iff)
  moreover have "hd h \<noteq> CHR ''+''" using assms hex_not by (auto simp: list_all_iff)
  moreover have "take 2 h \<noteq> [CHR ''0'', c]" if "\<not> is_hex c" for c
  proof
    assume "take 2 h = [CHR ''0'', c]"
    then have "c \<in> set h" using in_set_takeD [of c 2 h] by simp
    with that assms(1) show False by (simp add: list_all_iff)
  qed
  then have "take 2 h \<noteq> ''0x''" "take 2 h \<noteq> ''0X''" using hex_not by blast+
  ultimately show ?thesis using assms parse_hex_val [OF assms(1), of False 0] by (simp add: py_int16_def Let_def hex_val_def)
qed

lemma split_at: "n + m < length s \<Longrightarrow> drop n s = take m (drop n s) @ s ! (n + m) # drop (Suc (n + m)) s"
  by (simp add: Cons_nth_drop_Suc add.commute flip: drop_drop)

lemma list_all_part:
  "m + n \<le> length s \<Longrightarrow> (\<And>i. m \<le> i \<Longrightarrow> i < m + n \<Longrightarrow> P (s ! i)) \<Longrightarrow> list_all P (take n (drop m s))"
  by (simp add: list_all_length)

lemma event_id_parts:
  assumes "event_id_ok s"
  shows "\<exists>h. length h = 32 \<and> list_all is_hex h \<and> s = dashed h"
proof -
  have l: "length s = 36" using assms by (simp add: event_id_ok_def)
  have at: "at_index (i, s ! i)" if "i < 36" for i
    using assms that unfolding event_id_ok_alt list_all_length by force
  have hex: "is_hex (s ! i)" if "i < 36" "i \<notin> {8, 13, 18, 23}" for i
    using at [OF that(1)] that(2) by (simp add: at_index_def)
  have dash: "s ! 8 = CHR ''-''" "s ! 13 = CHR ''-''" "s ! 18 = CHR ''-''" "s ! 23 = CHR ''-''"
    using at [of 8] at [of 13] at [of 18] at [of 23] by (simp_all add: at_index_def)
  define A where "A = take 8 (drop 0 s)"
  define B where "B = take 4 (drop 9 s)"
  define C where "C = take 4 (drop 14 s)"
  define D where "D = take 4 (drop 19 s)"
  define E where "E = take 12 (drop 24 s)"
  note defs = A_def B_def C_def D_def E_def
  have len: "length A = 8" "length B = 4" "length C = 4" "length D = 4" "length E = 12"
    using l by (simp_all add: defs)
  have "list_all is_hex A" "list_all is_hex B" "list_all is_hex C" "list_all is_hex D" "list_all is_hex E"
    unfolding defs by (rule list_all_part; use l in \<open>auto intro!: hex\<close>)+
  then have all: "list_all is_hex (A @ B @ C @ D @ E)" by simp
  have s: "s = A @ CHR ''-'' # drop 9 s" "drop 9 s = B @ CHR ''-'' # drop 14 s"
    "drop 14 s = C @ CHR ''-'' # drop 19 s" "drop 19 s = D @ CHR ''-'' # drop 24 s" "drop 24 s = E"
    using split_at [of 0 8 s] split_at [of 9 4 s] split_at [of 14 4 s] split_at [of 19 4 s] l
    by (simp_all add: defs dash)
  have "s = A @ CHR ''-'' # B @ CHR ''-'' # C @ CHR ''-'' # D @ CHR ''-'' # E"
    using s by metis
  also have "\<dots> = dashed (A @ B @ C @ D @ E)" by (simp add: dashed_def len)
  finally have "s = dashed (A @ B @ C @ D @ E)" .
  moreover have "length (A @ B @ C @ D @ E) = 32" by (simp add: len)
  ultimately show ?thesis using all by blast
qed

lemma undash:
  assumes "length h = 32" "CHR ''-'' \<notin> set h"
  shows "filter (\<lambda>c. c \<noteq> CHR ''-'') (dashed h) = h"
proof -
  have keep: "filter (\<lambda>c. c \<noteq> CHR ''-'') (take n (drop m h)) = take n (drop m h)"
    "filter (\<lambda>c. c \<noteq> CHR ''-'') (drop m h) = drop m h" "filter (\<lambda>c. c \<noteq> CHR ''-'') (take m h) = take m h" for n m
    using assms(2) by (auto simp: filter_id_conv dest: in_set_takeD in_set_dropD)
  have join: "take n (drop m h) @ drop (n + m) h = drop m h" for n m
    by (simp flip: drop_drop)
  have "filter (\<lambda>c. c \<noteq> CHR ''-'') (dashed h) = take 8 h @ take 4 (drop 8 h) @ take 4 (drop 12 h) @ take 4 (drop 16 h) @ drop 20 h"
    by (simp add: dashed_def keep)
  also have "\<dots> = h"
    using join [of 4 16] join [of 4 12] join [of 4 8] by simp
  finally show ?thesis .
qed

lemma uuid_text_fixed:
  assumes "event_id_ok s"
  shows "uuid_text s = Some s"
proof -
  obtain h where h: "length h = 32" "list_all is_hex h" "s = dashed h" using event_id_parts [OF assms] by blast
  have "set s \<subseteq> insert (CHR ''-'') (set h)"
    by (auto simp: h(3) dashed_def dest: in_set_takeD in_set_dropD)
  then have chars: "is_hex c \<or> c = CHR ''-''" if "c \<in> set s" for c
    using that h(2) by (auto simp: list_all_iff)
  have "CHR ''u'' \<notin> set s" using chars [of "CHR ''u''"] hex_not by auto
  then have rm: "remove_sub ''uuid:'' (remove_sub ''urn:'' s) = s" by (simp add: remove_sub_absent)
  have st: "strip_where (\<lambda>c. c \<in> {CHR ''{'', CHR ''}''}) s = s"
    by (rule strip_where_solid) (use chars hex_not in fastforce)
  have fl: "filter (\<lambda>c. c \<noteq> CHR ''-'') s = h"
    unfolding h(3) by (rule undash) (use h hex_not in \<open>auto simp: list_all_iff\<close>)
  have "hex_val h < 2 ^ 128" using hex_val_bound [OF h(2)] by (simp add: h(1))
  moreover have "py_int16 h = Some (hex_val h)" using h by (intro py_int16_hex) auto
  moreover have "hex_digits 32 (hex_val h) = h" using hex_digits_val [OF h(2)] by (simp add: h(1))
  ultimately show ?thesis
    unfolding uuid_text_def Let_def rm st fl by (simp add: h(1,3))
qed

end
