(* ===== verification/Sdk_Facts.thy ===== *)
theory Sdk_Facts
  imports Sdk_Events Uuid_Facts Protocol_Facts
begin

text \<open>
  The SDK against the server: what the local validation returns is a fixed point of it and is accepted by the
  server's validation, and the OpenTelemetry mapping looks at nothing but its whitelist.
\<close>

subsection \<open>Validated events\<close>

definition sdk_valid :: "members \<Rightarrow> bool" where
  "sdk_valid ms \<longleftrightarrow>
     list_all (\<lambda>k. k \<in> set FIELDS) (keys ms) \<and> list_all (\<lambda>k. k \<in> set (keys ms)) REQUIRED \<and>
     map_of ms ''schema_version'' = Some (JStr ''1.0'') \<and>
     (\<exists>s. map_of ms ''event_id'' = Some (JStr s) \<and> event_id_ok s) \<and>
     (\<exists>us. map_of ms ''timestamp'' = Some (JStr (isoformat us)) \<and> datetime_range us) \<and>
     list_all (\<lambda>k. checked ms k identifier_json) IDENTIFIERS \<and> checked ms ''operation'' (str_in OPERATIONS) \<and>
     (map_of ms ''outcome'' = Some (JStr ''success'') \<or> map_of ms ''outcome'' = Some (JStr ''failure'')) \<and>
     failure_checked ms \<and> list_all (\<lambda>(k, maximum). checked ms k (counter_json maximum)) COUNTERS \<and>
     checked ms ''latency_ms'' latency_json \<and> checked ms ''synthetic'' (\<lambda>v. json_bool v \<noteq> None)"

text \<open>\<open>isoformat\<close> and \<open>fromisoformat\<close> are inverse to each other.\<close>

definition iso_inverse :: "runtime \<Rightarrow> bool" where
  "iso_inverse R \<longleftrightarrow> (\<forall>us. datetime_range us \<longrightarrow> fromisoformat R (isoformat us) = Some (Aware us))"

lemma update_same: "map_of d k = Some v \<Longrightarrow> AList.update k v d = d"
  by (induction d) (auto split: if_splits)

lemma sdk_timestamp_Some:
  "sdk_timestamp R v = Some t \<Longrightarrow> \<exists>us. t = isoformat us \<and> datetime_range us"
  by (auto simp: sdk_timestamp_def split: json.splits option.splits pydatetime.splits if_splits)

lemma validate_event_valid:
  assumes "validate_event R v = Some ms"
  shows "sdk_valid ms"
proof -
  obtain ms0 where v: "v = JObj ms0" using assms by (auto simp: validate_event_def split: json.splits)
  have k: "list_all (\<lambda>k. k \<in> set FIELDS) (keys ms0)" "list_all (\<lambda>k. k \<in> set (keys ms0)) REQUIRED"
    "map_of ms0 ''schema_version'' = Some (JStr ''1.0'')"
    using assms by (auto simp: validate_event_def v split: if_splits)
  obtain w id u t where w: "map_of ms0 ''event_id'' = Some w" "sdk_event_id w = Some id"
    and u: "map_of ms0 ''timestamp'' = Some u" "sdk_timestamp R u = Some t"
    and ms: "ms = AList.update ''timestamp'' (JStr t) (AList.update ''event_id'' (JStr id) ms0)"
    and rest: "list_all (\<lambda>k. checked ms k identifier_json) IDENTIFIERS" "checked ms ''operation'' (str_in OPERATIONS)"
     "map_of ms ''outcome'' = Some (JStr ''success'') \<or> map_of ms ''outcome'' = Some (JStr ''failure'')"
     "failure_checked ms" "list_all (\<lambda>(k, maximum). checked ms k (counter_json maximum)) COUNTERS"
     "checked ms ''latency_ms'' latency_json" "checked ms ''synthetic'' (\<lambda>v. json_bool v \<noteq> None)"
    using assms k unfolding v validate_event_def by (auto simp: Let_def bind_eq_Some_conv split: if_splits)
  have "event_id_ok id" using w(2) uuid_text_ok by (auto simp: sdk_event_id_def split: json.splits)
  moreover have "set (keys ms) = set (keys ms0)" using k(2) by (auto simp: ms REQUIRED_def)
  ultimately show ?thesis
    unfolding sdk_valid_def using k rest sdk_timestamp_Some [OF u(2)] by (auto simp: ms list_all_iff)
qed

lemma sdk_valid_fixed:
  assumes "sdk_valid ms" "iso_inverse R"
  shows "validate_event R (JObj ms) = Some ms"
proof -
  obtain s where s: "map_of ms ''event_id'' = Some (JStr s)" "event_id_ok s" using assms(1) by (auto simp: sdk_valid_def)
  obtain us where us: "map_of ms ''timestamp'' = Some (JStr (isoformat us))" "datetime_range us"
    using assms(1) by (auto simp: sdk_valid_def)
  have "sdk_event_id (JStr s) = Some s" using s(2) by (simp add: sdk_event_id_def uuid_text_fixed)
  moreover have "sdk_timestamp R (JStr (isoformat us)) = Some (isoformat us)"
    using us(2) assms(2) by (simp add: sdk_timestamp_def iso_inverse_def)
  ultimately show ?thesis
    using assms(1) unfolding validate_event_def sdk_valid_def
    by (simp add: s(1) us(1) update_same [OF s(1)] update_same [OF us(1)] Let_def)
qed

subsection \<open>The server accepts them\<close>

lemma those_map: "(\<And>x. x \<in> set xs \<Longrightarrow> \<exists>y. f x = Some y) \<Longrightarrow> \<exists>ys. those (map f xs) = Some ys"
proof (induction xs)
  case (Cons x xs)
  then obtain y ys where "f x = Some y" "those (map f xs) = Some ys" by force
  then show ?case by simp
qed simp

lemma literal_of_member:
  "s \<in> set (map name xs) \<Longrightarrow> \<exists>x. literal_of name xs (JStr s) = Some x"
proof -
  assume "s \<in> set (map name xs)"
  then have "find (\<lambda>x. name x = s) xs \<noteq> None" by (auto simp: find_None_iff)
  then show ?thesis by (auto simp: literal_of_def)
qed

lemma name_lists:
  "OPERATIONS = map operation_name all_operations" "FAILURE_TYPES = map failure_name all_failures"
  "[''success'', ''failure''] = map outcome_name all_outcomes"
  by (simp_all add: OPERATIONS_def all_operations_def FAILURE_TYPES_def all_failures_def all_outcomes_def)

lemma FIELDS_EVENT_FIELDS: "set FIELDS = set EVENT_FIELDS"
  by (auto simp: FIELDS_def REQUIRED_def IDENTIFIERS_def COUNTERS_def EVENT_FIELDS_def VERSION_FIELDS_def)

lemma field_opt_checked:
  assumes "checked ms k P" "\<And>v. P v \<Longrightarrow> v \<noteq> JNull \<and> (\<exists>x. p v = Some x)"
  shows "\<exists>x. field_opt ms k p = Some x"
proof (cases "map_of ms k")
  case None
  then show ?thesis by (simp add: field_opt_def field_default_def)
next
  case (Some v)
  then have "P v" using assms(1) by (simp add: checked_def)
  from assms(2) [OF this] show ?thesis
    using Some by (cases v) (auto simp: field_opt_def field_default_def)
qed

lemma float_within_latency: "latency_json v \<Longrightarrow> v \<noteq> JNull \<and> (\<exists>x. float_within 0 86400000 v = Some x)"
proof (cases v)
  case (JInt i)
  moreover assume "latency_json v"
  ultimately have "0 \<le> i" "i \<le> 86400000" by (simp_all add: latency_json_def)
  then have "fl (of_int i) = of_int i" by (intro fl_of_int) simp
  with \<open>0 \<le> i\<close> \<open>i \<le> 86400000\<close> JInt show ?thesis
    by (simp add: float_within_def)
qed (simp_all add: latency_json_def float_within_def)

lemma sdk_valid_required: "sdk_valid ms \<Longrightarrow> k \<in> set REQUIRED \<Longrightarrow> \<exists>v. map_of ms k = Some v"
  by (auto simp: sdk_valid_def list_all_iff weak_map_of_SomeI)

lemma sdk_valid_identifier: "sdk_valid ms \<Longrightarrow> k \<in> set IDENTIFIERS \<Longrightarrow> checked ms k identifier_json"
  by (simp add: sdk_valid_def list_all_iff)

lemma sdk_valid_name:
  assumes "sdk_valid ms" "k \<in> {''deployment_id'', ''agent_id''}"
  shows "\<exists>d. field ms k (str_where identifier_ok) = Some d"
proof -
  obtain v where v: "map_of ms k = Some v"
    using sdk_valid_required [OF assms(1), of k] assms(2) by (auto simp: REQUIRED_def)
  then have "identifier_json v"
    using sdk_valid_identifier [OF assms(1), of k] assms(2) by (auto simp: checked_def IDENTIFIERS_def)
  with v show ?thesis by (auto simp: field_def str_where_def identifier_json_def split: json.splits)
qed

lemma sdk_valid_operation:
  assumes "sdk_valid ms"
  shows "\<exists>op. field ms ''operation'' (literal_of operation_name all_operations) = Some op"
proof -
  obtain v where v: "map_of ms ''operation'' = Some v"
    using sdk_valid_required [OF assms, of "''operation''"] by (auto simp: REQUIRED_def)
  moreover have "checked ms ''operation'' (str_in OPERATIONS)" using assms by (simp add: sdk_valid_def)
  ultimately obtain n where "v = JStr n" "n \<in> set (map operation_name all_operations)"
    by (auto simp: checked_def str_in_def name_lists split: json.splits)
  then show ?thesis using literal_of_member [of n operation_name all_operations] v by (auto simp: field_def)
qed

lemma sdk_valid_outcome:
  assumes "sdk_valid ms"
  shows "\<exists>oc ft. field ms ''outcome'' (literal_of outcome_name all_outcomes) = Some oc \<and>
    field_opt ms ''failure_type'' (literal_of failure_name all_failures) = Some ft \<and> (oc = Failure) = (ft \<noteq> None)"
proof (cases "map_of ms ''outcome'' = Some (JStr ''failure'')")
  case True
  then have "field ms ''outcome'' (literal_of outcome_name all_outcomes) = Some Failure"
    using literal_of_name(2) [of Failure] by (simp add: field_def)
  moreover obtain n where n: "map_of ms ''failure_type'' = Some (JStr n)" "n \<in> set (map failure_name all_failures)"
    using assms True by (auto simp: sdk_valid_def failure_checked_def str_in_def name_lists split: option.splits json.splits)
  moreover obtain f where "literal_of failure_name all_failures (JStr n) = Some f"
    using literal_of_member [OF n(2)] by blast
  ultimately show ?thesis by (auto simp: field_opt_def field_default_def)
next
  case False
  then have o: "map_of ms ''outcome'' = Some (JStr ''success'')" using assms by (auto simp: sdk_valid_def)
  then have "field ms ''outcome'' (literal_of outcome_name all_outcomes) = Some Success"
    using literal_of_name(2) [of Success] by (simp add: field_def)
  moreover have "map_of ms ''failure_type'' \<in> {None, Some JNull}"
    using assms o by (auto simp: sdk_valid_def failure_checked_def split: option.splits)
  ultimately show ?thesis by (auto simp: field_opt_def field_default_def)
qed

lemma sdk_valid_counters:
  assumes "sdk_valid ms"
  shows "\<exists>x. field_opt ms ''input_tokens'' (int_within 0 1000000000) = Some x"
    "\<exists>x. field_opt ms ''output_tokens'' (int_within 0 1000000000) = Some x"
    "\<exists>x. field_opt ms ''retry_count'' (int_within 0 1000000) = Some x"
proof -
  have "\<exists>x. field_opt ms k (int_within 0 maximum) = Some x" if "(k, maximum) \<in> set COUNTERS" for k maximum
  proof (rule field_opt_checked)
    show "checked ms k (counter_json maximum)" using assms that by (auto simp: sdk_valid_def list_all_iff)
  qed (auto simp: counter_json_def int_within_def split: json.splits)
  then show "\<exists>x. field_opt ms ''input_tokens'' (int_within 0 1000000000) = Some x"
    "\<exists>x. field_opt ms ''output_tokens'' (int_within 0 1000000000) = Some x"
    "\<exists>x. field_opt ms ''retry_count'' (int_within 0 1000000) = Some x"
    by (simp_all add: COUNTERS_def)
qed

lemma version_name_identifier: "version_name f \<in> set IDENTIFIERS"
  by (cases f) (simp_all add: IDENTIFIERS_def)

lemma sdk_valid_labels:
  assumes "sdk_valid ms"
  shows "\<exists>lb. labels_of ms = Some lb"
  unfolding labels_of_def
proof (rule those_map)
  fix f
  have "\<exists>y. field_opt ms (version_name f) (str_where identifier_ok) = Some y"
    by (rule field_opt_checked [OF sdk_valid_identifier [OF assms version_name_identifier]])
      (auto simp: identifier_json_def str_where_def split: json.splits)
  then show "\<exists>y. map_option (Pair f) (field_opt ms (version_name f) (str_where identifier_ok)) = Some y" by auto
qed

lemma sdk_valid_timestamp:
  assumes "sdk_valid ms" "iso_inverse R"
  shows "\<exists>us. field ms ''timestamp'' (aware_timestamp R) = Some us \<and> map_of ms ''timestamp'' = Some (JStr (isoformat us))"
proof -
  obtain us where us: "map_of ms ''timestamp'' = Some (JStr (isoformat us))" "datetime_range us"
    using assms(1) by (auto simp: sdk_valid_def)
  have "concat (map (\<lambda>c. if c = CHR ''Z'' then ''+00:00'' else [c]) xs) = xs" if "CHR ''Z'' \<notin> set xs" for xs
    using that by (induction xs) auto
  then have "replace_Z (isoformat us) = isoformat us" using isoformat_shape(3) by (simp add: replace_Z_def)
  moreover have "\<not> 40 < length (isoformat us)" using isoformat_shape(1) [of us] by linarith
  ultimately have "aware_timestamp R (JStr (isoformat us)) = Some us"
    using us(2) assms(2) isoformat_shape(2) [of us] by (simp add: aware_timestamp_def iso_inverse_def)
  with us(1) show ?thesis by (auto simp: field_def)
qed

lemma sdk_valid_accepted:
  assumes "sdk_valid ms" "iso_inverse R"
  shows "\<exists>e. event_of_json R (JObj ms) = Some e \<and> map_of ms ''event_id'' = Some (JStr (ev_event_id e)) \<and>
    map_of ms ''timestamp'' = Some (JStr (isoformat (ev_timestamp e)))"
proof -
  have fields: "list_all (\<lambda>k. k \<in> set EVENT_FIELDS) (keys ms)"
    using assms(1) by (simp add: sdk_valid_def FIELDS_EVENT_FIELDS)
  have schema: "field_default ms ''schema_version'' ''1.0'' (str_where (\<lambda>s. s = ''1.0'')) = Some ''1.0''"
    using assms(1) by (simp add: sdk_valid_def field_default_def str_where_def)
  obtain s where s: "map_of ms ''event_id'' = Some (JStr s)" "field ms ''event_id'' (str_where event_id_ok) = Some s"
    using assms(1) by (auto simp: sdk_valid_def field_def str_where_def)
  obtain us where us: "field ms ''timestamp'' (aware_timestamp R) = Some us"
    "map_of ms ''timestamp'' = Some (JStr (isoformat us))"
    using sdk_valid_timestamp [OF assms] by blast
  obtain d a where da: "field ms ''deployment_id'' (str_where identifier_ok) = Some d"
    "field ms ''agent_id'' (str_where identifier_ok) = Some a"
    using sdk_valid_name [OF assms(1), of "''deployment_id''"] sdk_valid_name [OF assms(1), of "''agent_id''"] by auto
  obtain op where op: "field ms ''operation'' (literal_of operation_name all_operations) = Some op"
    using sdk_valid_operation [OF assms(1)] by blast
  obtain oc ft where oc: "field ms ''outcome'' (literal_of outcome_name all_outcomes) = Some oc"
    "field_opt ms ''failure_type'' (literal_of failure_name all_failures) = Some ft" "(oc = Failure) = (ft \<noteq> None)"
    using sdk_valid_outcome [OF assms(1)] by blast
  obtain it ot rc where counters: "field_opt ms ''input_tokens'' (int_within 0 1000000000) = Some it"
    "field_opt ms ''output_tokens'' (int_within 0 1000000000) = Some ot" "field_opt ms ''retry_count'' (int_within 0 1000000) = Some rc"
    using sdk_valid_counters [OF assms(1)] by blast
  have "checked ms ''latency_ms'' latency_json" using assms(1) by (simp add: sdk_valid_def)
  then obtain l where l: "field_opt ms ''latency_ms'' (float_within 0 86400000) = Some l"
    using field_opt_checked float_within_latency by blast
  obtain sy where sy: "field_default ms ''synthetic'' False json_bool = Some sy"
    using assms(1) by (auto simp: sdk_valid_def checked_def field_default_def split: option.splits)
  obtain lb where lb: "labels_of ms = Some lb" using sdk_valid_labels [OF assms(1)] by blast
  let ?e = "\<lparr>ev_event_id = s, ev_timestamp = us, ev_deployment_id = d, ev_agent_id = a, ev_operation = op, ev_outcome = oc,
    ev_failure_type = ft, ev_latency_ms = l, ev_input_tokens = it, ev_output_tokens = ot, ev_retry_count = rc,
    ev_label = (\<lambda>f. Option.bind (map_of lb f) id), ev_synthetic = sy\<rparr>"
  have "event_of_json R (JObj ms) = Some ?e"
    unfolding event_of_json_def json.case fields schema us(1) s(2) da op oc(1,2) counters l lb sy Option.bind.bind_lunit
    by (simp only: fields oc(3) not_True_eq_False if_False simp_thms)
  then show ?thesis using s(1) us(2) by (intro exI [of _ ?e]) (simp only: event.simps simp_thms)
qed

lemma validate_event_accepted:
  assumes "validate_event R v = Some ms" "iso_inverse R"
  shows "\<exists>e. event_of_json R (JObj ms) = Some e \<and> map_of ms ''event_id'' = Some (JStr (ev_event_id e)) \<and>
    map_of ms ''timestamp'' = Some (JStr (isoformat (ev_timestamp e)))"
  by (rule sdk_valid_accepted [OF validate_event_valid [OF assms(1)] assms(2)])

subsection \<open>OpenTelemetry\<close>

lemma otel_whitelist:
  assumes "\<And>k. k \<in> insert ''gen_ai.operation.name'' (set (keys OTEL_FIELDS)) \<Longrightarrow> map_of attributes k = map_of attributes' k"
  shows "from_otel_attributes R fresh now attributes deployment agent outcome failure latency synthetic =
    from_otel_attributes R fresh now attributes' deployment agent outcome failure latency synthetic"
proof -
  have "(case map_of attributes source of None \<Rightarrow> [] | Some v \<Rightarrow> [(target, v)]) =
      (case map_of attributes' source of None \<Rightarrow> [] | Some v \<Rightarrow> [(target, v)])"
    if "(source, target) \<in> set OTEL_FIELDS" for source target
    using assms [of source] that by (force simp: image_iff)
  then have "otel_selected attributes latency = otel_selected attributes' latency"
    unfolding otel_selected_def by (simp add: split_def cong: map_cong)
  moreover have "map_of attributes ''gen_ai.operation.name'' = map_of attributes' ''gen_ai.operation.name''"
    by (rule assms) simp
  ultimately show ?thesis by (simp only: from_otel_attributes_def)
qed

end
