(* ===== verification/Attestation.thy ===== *)
theory Attestation
  imports Summary Pytext
begin

text \<open>
  The opt-in reports of \<open>attestation.py\<close>: the count-only projection of a tenant summary, the strict
  validation of a report and of the salted bundle around it, their canonical bytes, and the commitment.
  \<open>None\<close> is the \<open>ValueError\<close> or \<open>ValidationError\<close> of a rejection.
\<close>

definition DEVNET_GENESIS :: string where
  "DEVNET_GENESIS = ''EtWTRABZaYq6iMfeYKouRu166VU2xqa1wcaWoxPkrZBG''"

definition MAX_DOCUMENT_BYTES :: nat where "MAX_DOCUMENT_BYTES = 16384"

subsection \<open>Reports\<close>

record window_report =
  wr_server_version :: string
  wr_generated_at :: string
  wr_synthetic :: bool
  wr_stream_count :: int
  wr_baseline_samples :: int
  wr_baseline_failures :: int
  wr_current_samples :: int
  wr_current_failures :: int
  wr_open_incidents :: int
  wr_resolved_incidents :: int
  wr_expired_incidents :: int

fun split_on :: "char \<Rightarrow> string \<Rightarrow> string list" where
  "split_on d [] = [[]]"
| "split_on d (c # cs) = (if c = d then [] # split_on d cs
                          else case split_on d cs of [] \<Rightarrow> [[c]] | w # ws \<Rightarrow> (c # w) # ws)"

definition version_ok :: "string \<Rightarrow> bool" where
  "version_ok s \<longleftrightarrow> length (split_on (CHR ''.'') s) = 3 \<and>
     list_all (\<lambda>p. 1 \<le> length p \<and> length p \<le> 4 \<and> list_all is_digit p) (split_on (CHR ''.'') s)"

text \<open>\<open>isoformat(timespec="microseconds").replace("+00:00", "Z")\<close> of an instant in UTC.\<close>

definition stamp :: "int \<Rightarrow> string" where
  "stamp us =
     (let t = nat (us + EPOCH_US);
          (y, m, d) = civil (t div 86400000000);
          s = t mod 86400000000 div 1000000
      in pad 4 y @ ''-'' @ pad 2 m @ ''-'' @ pad 2 d @ ''T'' @ pad 2 (s div 3600) @ '':'' @ pad 2 (s div 60 mod 60)
         @ '':'' @ pad 2 (s mod 60) @ ''.'' @ pad 6 (t mod 1000000) @ ''Z'')"

definition stamp_ok :: "runtime \<Rightarrow> string \<Rightarrow> bool" where
  "stamp_ok R value =
     (case fromisoformat R value of Some (Aware us) \<Rightarrow> datetime_range us \<and> value = stamp us | _ \<Rightarrow> False)"

definition count_ok :: "int \<Rightarrow> int \<Rightarrow> bool" where
  "count_ok maximum n \<longleftrightarrow> 0 \<le> n \<and> n \<le> maximum"

text \<open>The field constraints, the validator of \<open>generated_at\<close>, and the cross-field validator.\<close>

definition counts_consistent :: "window_report \<Rightarrow> bool" where
  "counts_consistent r \<longleftrightarrow>
     \<not> (wr_baseline_failures r > wr_baseline_samples r \<or> wr_current_failures r > wr_current_samples r) \<and>
     \<not> (max (wr_baseline_samples r) (wr_current_samples r) > wr_stream_count r * 50) \<and>
     \<not> (wr_open_incidents r + wr_resolved_incidents r + wr_expired_incidents r > 32)"

definition check_report :: "runtime \<Rightarrow> window_report \<Rightarrow> window_report option" where
  "check_report R r =
     (if version_ok (wr_server_version r) \<and> stamp_ok R (wr_generated_at r) \<and> count_ok 16 (wr_stream_count r) \<and>
         count_ok 800 (wr_baseline_samples r) \<and> count_ok 800 (wr_baseline_failures r) \<and>
         count_ok 800 (wr_current_samples r) \<and> count_ok 800 (wr_current_failures r) \<and>
         count_ok 32 (wr_open_incidents r) \<and> count_ok 32 (wr_resolved_incidents r) \<and> count_ok 32 (wr_expired_incidents r) \<and>
         counts_consistent r
      then Some r else None)"

text \<open>\<open>report_from_summary\<close>.\<close>

definition chosen_streams :: "bool \<Rightarrow> summary \<Rightarrow> stream_view list" where
  "chosen_streams synthetic v = filter (\<lambda>s. dm_synthetic (sv_dimensions s) = synthetic) (sy_streams v)"

definition chosen_incidents :: "bool \<Rightarrow> summary \<Rightarrow> incident list" where
  "chosen_incidents synthetic v =
     filter (\<lambda>i. in_synthetic i = synthetic \<and> in_stream_id i \<in> set (map sv_stream_id (chosen_streams synthetic v)))
       (sy_incidents v)"

definition with_status :: "status \<Rightarrow> incident list \<Rightarrow> int" where
  "with_status st xs = int (length (filter (\<lambda>i. in_status i = st) xs))"

definition report_from_summary ::
    "runtime \<Rightarrow> summary \<Rightarrow> bool \<Rightarrow> string \<Rightarrow> pydatetime \<Rightarrow> window_report option" where
  "report_from_summary R v synthetic version generated_at =
     (case generated_at of
        Naive \<Rightarrow> None
      | Aware us \<Rightarrow>
          (let streams = chosen_streams synthetic v; incidents = chosen_incidents synthetic v
           in check_report R
                \<lparr>wr_server_version = version, wr_generated_at = stamp us, wr_synthetic = synthetic,
                 wr_stream_count = int (length streams),
                 wr_baseline_samples = int (sum_list (map (\<lambda>s. st_count (sv_baseline s)) streams)),
                 wr_baseline_failures = sum_list (map (\<lambda>s. st_failures (sv_baseline s)) streams),
                 wr_current_samples = int (sum_list (map (\<lambda>s. st_count (sv_current s)) streams)),
                 wr_current_failures = sum_list (map (\<lambda>s. st_failures (sv_current s)) streams),
                 wr_open_incidents = with_status Open incidents,
                 wr_resolved_incidents = with_status Resolved incidents,
                 wr_expired_incidents = with_status Expired incidents\<rparr>))"

subsection \<open>Reports as JSON\<close>

definition REPORT_SCHEMA :: string where "REPORT_SCHEMA = ''reliamesh-window-report/v1''"

definition report_json :: "window_report \<Rightarrow> json" where
  "report_json r = JObj
     [(''schema_version'', JStr REPORT_SCHEMA), (''telemetry_schema'', JStr ''1.0''),
      (''server_version'', JStr (wr_server_version r)), (''generated_at'', JStr (wr_generated_at r)),
      (''synthetic'', JBool (wr_synthetic r)), (''stream_count'', JInt (wr_stream_count r)),
      (''baseline_samples'', JInt (wr_baseline_samples r)), (''baseline_failures'', JInt (wr_baseline_failures r)),
      (''current_samples'', JInt (wr_current_samples r)), (''current_failures'', JInt (wr_current_failures r)),
      (''open_incidents'', JInt (wr_open_incidents r)), (''resolved_incidents'', JInt (wr_resolved_incidents r)),
      (''expired_incidents'', JInt (wr_expired_incidents r))]"

definition REPORT_FIELDS :: "string list" where
  "REPORT_FIELDS =
     [''schema_version'', ''telemetry_schema'', ''server_version'', ''generated_at'', ''synthetic'', ''stream_count'',
      ''baseline_samples'', ''baseline_failures'', ''current_samples'', ''current_failures'', ''open_incidents'',
      ''resolved_incidents'', ''expired_incidents'']"

definition json_int :: "json \<Rightarrow> int option" where
  "json_int v = (case v of JInt i \<Rightarrow> Some i | _ \<Rightarrow> None)"

text \<open>\<open>WindowReport.model_validate\<close>.\<close>

definition report_of_json :: "runtime \<Rightarrow> json \<Rightarrow> window_report option" where
  "report_of_json R v =
     (case v of
        JObj ms \<Rightarrow>
          if \<not> list_all (\<lambda>k. k \<in> set REPORT_FIELDS) (keys ms) then None
          else do {
            field_default ms ''schema_version'' REPORT_SCHEMA (str_where (\<lambda>s. s = REPORT_SCHEMA));
            field_default ms ''telemetry_schema'' ''1.0'' (str_where (\<lambda>s. s = ''1.0''));
            version \<leftarrow> field ms ''server_version'' (str_where version_ok);
            generated \<leftarrow> field ms ''generated_at'' (str_where (stamp_ok R));
            synthetic \<leftarrow> field ms ''synthetic'' json_bool;
            streams \<leftarrow> field ms ''stream_count'' json_int;
            bs \<leftarrow> field ms ''baseline_samples'' json_int;
            bf \<leftarrow> field ms ''baseline_failures'' json_int;
            cs \<leftarrow> field ms ''current_samples'' json_int;
            cf \<leftarrow> field ms ''current_failures'' json_int;
            opened \<leftarrow> field ms ''open_incidents'' json_int;
            resolved \<leftarrow> field ms ''resolved_incidents'' json_int;
            expired \<leftarrow> field ms ''expired_incidents'' json_int;
            check_report R
              \<lparr>wr_server_version = version, wr_generated_at = generated, wr_synthetic = synthetic,
               wr_stream_count = streams, wr_baseline_samples = bs, wr_baseline_failures = bf,
               wr_current_samples = cs, wr_current_failures = cf, wr_open_incidents = opened,
               wr_resolved_incidents = resolved, wr_expired_incidents = expired\<rparr>
          }
      | _ \<Rightarrow> None)"

subsection \<open>Bundles and commitments\<close>

record commitment_bundle =
  bn_expected_signer :: string
  bn_salt_hex :: string
  bn_report :: window_report

definition base58_char :: "char \<Rightarrow> bool" where
  "base58_char c \<longleftrightarrow> char_in (CHR ''1'') (CHR ''9'') c \<or> char_in (CHR ''A'') (CHR ''H'') c \<or> char_in (CHR ''J'') (CHR ''N'') c \<or>
     char_in (CHR ''P'') (CHR ''Z'') c \<or> char_in (CHR ''a'') (CHR ''k'') c \<or> char_in (CHR ''m'') (CHR ''z'') c"

definition signer_ok :: "string \<Rightarrow> bool" where
  "signer_ok s \<longleftrightarrow> 32 \<le> length s \<and> length s \<le> 44 \<and> list_all base58_char s"

definition hex64 :: "string \<Rightarrow> bool" where
  "hex64 s \<longleftrightarrow> length s = 64 \<and> list_all is_hex s"

text \<open>\<open>prepare\<close>; the salt is \<open>secrets.token_hex(32)\<close>.\<close>

definition prepare :: "runtime \<Rightarrow> string \<Rightarrow> json \<Rightarrow> string \<Rightarrow> commitment_bundle option" where
  "prepare R salt report signer =
     (case report_of_json R report of
        None \<Rightarrow> None
      | Some r \<Rightarrow>
          if signer_ok signer \<and> hex64 salt
          then Some \<lparr>bn_expected_signer = signer, bn_salt_hex = salt, bn_report = r\<rparr> else None)"

definition bundle_json :: "commitment_bundle \<Rightarrow> json" where
  "bundle_json b = JObj
     [(''schema_version'', JStr ''reliamesh-devnet-commitment/v1''), (''network'', JStr ''solana-devnet''),
      (''genesis_hash'', JStr DEVNET_GENESIS), (''expected_signer'', JStr (bn_expected_signer b)),
      (''salt_hex'', JStr (bn_salt_hex b)), (''report'', report_json (bn_report b))]"

definition canonical_bytes :: "runtime \<Rightarrow> commitment_bundle \<Rightarrow> string" where
  "canonical_bytes R b = dumps R (sort_members (bundle_json b))"

definition commitment :: "runtime \<Rightarrow> commitment_bundle \<Rightarrow> string" where
  "commitment R b = sha256_hex R (''ReliaMesh Devnet commitment v1'' @ [CHR 0x00] @ canonical_bytes R b)"

subsection \<open>Documents\<close>

text \<open>The object hook of \<open>json.loads\<close> rejects a repeated member at any depth.\<close>

fun unique_members :: "json \<Rightarrow> bool" where
  "unique_members (JArr vs) = list_all unique_members vs"
| "unique_members (JObj ms) = (dict_ok ms \<and> list_all (\<lambda>p. unique_members (snd p)) ms)"
| "unique_members _ = True"

definition read_document :: "(string \<Rightarrow> json option) \<Rightarrow> nat \<Rightarrow> string \<Rightarrow> json option" where
  "read_document loads max_bytes content =
     (if max_bytes < length content then None
      else case loads content of
        Some (JObj ms) \<Rightarrow> if unique_members (JObj ms) then Some (JObj ms) else None
      | _ \<Rightarrow> None)"

subsection \<open>A report of a well-formed state is valid\<close>

lemma view_streams_length: "view_streams R streams = Inr vs \<Longrightarrow> length vs = length streams"
  by (drule view_streams_all2) (auto dest: list_all2_lengthD)

lemma failures_bounds: "\<forall>r \<in> set rows. sm_failed r \<in> {0, 1} \<Longrightarrow>
    0 \<le> sum_list (map sm_failed rows) \<and> sum_list (map sm_failed rows) \<le> int (length rows)"
  by (induction rows) auto

lemma sum_list_int_bounds:
  "(\<And>x. x \<in> set xs \<Longrightarrow> 0 \<le> f x \<and> f x \<le> int (g x)) \<Longrightarrow>
   0 \<le> sum_list (map f xs) \<and> sum_list (map f xs) \<le> int (sum_list (map g xs))"
proof (induction xs)
  case (Cons x xs)
  then have "0 \<le> f x \<and> f x \<le> int (g x)" "0 \<le> sum_list (map f xs) \<and> sum_list (map f xs) \<le> int (sum_list (map g xs))"
    by simp_all
  then show ?case by simp
qed simp

lemma window_stats_bounds:
  assumes "length rows \<le> WINDOW" "\<forall>r \<in> set rows. sm_failed r \<in> {0, 1}"
  shows "st_count (window_stats rows) \<le> 50" "0 \<le> st_failures (window_stats rows)"
    "st_failures (window_stats rows) \<le> int (st_count (window_stats rows))"
  using assms failures_bounds [OF assms(2)] by (simp_all add: window_stats_fields WINDOW_def)

lemma summary_bounds:
  assumes "tenant_inv state" "summarize R state now = Inr v"
  shows "length (sy_streams v) \<le> 16" "length (sy_incidents v) \<le> 32"
    "\<And>w. w \<in> set (sy_streams v) \<Longrightarrow> st_count (sv_baseline w) \<le> 50 \<and> 0 \<le> st_failures (sv_baseline w) \<and>
      st_failures (sv_baseline w) \<le> int (st_count (sv_baseline w)) \<and> st_count (sv_current w) \<le> 50 \<and>
      0 \<le> st_failures (sv_current w) \<and> st_failures (sv_current w) \<le> int (st_count (sv_current w))"
proof -
  obtain t where t: "epoch now = Inr t"
    "list_all2 (\<lambda>(k, s) w. view_stream R k s = Inr w) (sort_key fst (ds_streams (prune state t))) (sy_streams v)"
    "sy_incidents v = ds_incidents (prune state t)"
    using assms(2) by (rule summarize_elim)
  have inv: "core_inv (prune state t)" using prune_det_inv [OF assms(1)] by (simp add: det_inv_def)
  show "length (sy_streams v) \<le> 16"
    using list_all2_lengthD [OF t(2)] inv by (simp add: core_inv_def MAX_STREAMS_def)
  show "length (sy_incidents v) \<le> 32" using inv by (simp add: t(3) core_inv_def MAX_INCIDENTS_def)
  fix w assume "w \<in> set (sy_streams v)"
  with assms(2) t(1) obtain k s where "(k, s) \<in> set (ds_streams (prune state t))" "view_stream R k s = Inr w"
    by (rule summary_stream)
  moreover from this have ok: "stream_ok s" using inv by (auto dest: core_invD(6))
  have "length (sr_baseline s) \<le> WINDOW" "length (sr_current s) \<le> WINDOW"
    "\<forall>r \<in> set (sr_baseline s). sm_failed r \<in> {0, 1}" "\<forall>r \<in> set (sr_current s). sm_failed r \<in> {0, 1}"
    using ok by (auto simp: stream_ok_def)
  note bounds = window_stats_bounds [OF this(1,3)] window_stats_bounds [OF this(2,4)]
  ultimately show "st_count (sv_baseline w) \<le> 50 \<and> 0 \<le> st_failures (sv_baseline w) \<and>
      st_failures (sv_baseline w) \<le> int (st_count (sv_baseline w)) \<and> st_count (sv_current w) \<le> 50 \<and>
      0 \<le> st_failures (sv_current w) \<and> st_failures (sv_current w) \<le> int (st_count (sv_current w))"
    using bounds by (simp add: view_stream_fields)
qed

lemma with_status_sum:
  "with_status Open xs + with_status Resolved xs + with_status Expired xs = int (length xs)"
proof (induction xs)
  case (Cons x xs)
  then show ?case by (cases "in_status x") (simp_all add: with_status_def)
qed (simp add: with_status_def)

lemma with_status_nonneg: "0 \<le> with_status st xs"
  by (simp add: with_status_def)

lemma report_total:
  assumes "tenant_inv state" "summarize R state now = Inr v" "version_ok version" "stamp_ok R (stamp us)"
  shows "\<exists>r. report_from_summary R v synthetic version (Aware us) = Some r \<and> counts_consistent r \<and>
    wr_stream_count r = int (length (chosen_streams synthetic v)) \<and>
    wr_current_failures r = sum_list (map (\<lambda>s. st_failures (sv_current s)) (chosen_streams synthetic v)) \<and>
    wr_open_incidents r + wr_resolved_incidents r + wr_expired_incidents r = int (length (chosen_incidents synthetic v))"
proof -
  let ?ss = "chosen_streams synthetic v"
  let ?is = "chosen_incidents synthetic v"
  note b = summary_bounds [OF assms(1,2)]
  have ss: "set ?ss \<subseteq> set (sy_streams v)" "length ?ss \<le> 16" "length ?is \<le> 32"
    using b(1,2) order_trans [OF length_filter_le] by (auto simp: chosen_streams_def chosen_incidents_def)
  have stream: "w \<in> set ?ss \<Longrightarrow> st_count (sv_baseline w) \<le> 50 \<and> st_count (sv_current w) \<le> 50 \<and>
      0 \<le> st_failures (sv_baseline w) \<and> st_failures (sv_baseline w) \<le> int (st_count (sv_baseline w)) \<and>
      0 \<le> st_failures (sv_current w) \<and> st_failures (sv_current w) \<le> int (st_count (sv_current w))" for w
    using b(3) ss(1) by blast
  have samples: "sum_list (map (\<lambda>s. st_count (sv_baseline s)) ?ss) \<le> length ?ss * 50"
    "sum_list (map (\<lambda>s. st_count (sv_current s)) ?ss) \<le> length ?ss * 50"
    by (rule sum_list_bound; use stream in blast)+
  have "length ?ss * 50 \<le> 800" using ss(2) by simp
  note samples800 = order_trans [OF samples(1) this] order_trans [OF samples(2) this]
  have failures: "0 \<le> sum_list (map (\<lambda>s. st_failures (sv_baseline s)) ?ss) \<and>
      sum_list (map (\<lambda>s. st_failures (sv_baseline s)) ?ss) \<le> int (sum_list (map (\<lambda>s. st_count (sv_baseline s)) ?ss))"
    "0 \<le> sum_list (map (\<lambda>s. st_failures (sv_current s)) ?ss) \<and>
      sum_list (map (\<lambda>s. st_failures (sv_current s)) ?ss) \<le> int (sum_list (map (\<lambda>s. st_count (sv_current s)) ?ss))"
    by (rule sum_list_int_bounds; use stream in blast)+
  note statuses = with_status_sum [of ?is] with_status_nonneg [of Open ?is] with_status_nonneg [of Resolved ?is]
    with_status_nonneg [of Expired ?is]
  show ?thesis
    using samples samples800 failures statuses ss(2,3) assms(3,4)
    by (simp add: report_from_summary_def Let_def check_report_def count_ok_def counts_consistent_def)
qed

lemma report_roundtrip:
  assumes "check_report R r = Some r"
  shows "report_of_json R (report_json r) = Some r"
proof -
  have "version_ok (wr_server_version r)" "stamp_ok R (wr_generated_at r)"
    using assms by (simp_all add: check_report_def split: if_splits)
  with assms show ?thesis
    by (cases r) (simp add: report_of_json_def report_json_def REPORT_FIELDS_def field_def field_default_def str_where_def json_bool_def json_int_def)
qed

end
