(* ===== verification/Iso.thy ===== *)
theory Iso
  imports Sdk_Facts Attestation
begin

text \<open>
  The calendar arithmetic behind \<open>isoformat\<close> is exact: year, month and day determine the day again, and a
  reader of the printed form recovers the instant.  The reader instantiates the parameter
  \<open>fromisoformat\<close> of a runtime on the texts that the program itself prints.
\<close>

subsection \<open>Digits\<close>

definition decimal :: "string \<Rightarrow> nat" where
  "decimal s = foldl (\<lambda>n c. 10 * n + (code c - 48)) 0 s"

lemma digit_char_code: "d < 10 \<Longrightarrow> code (digit_char d) - 48 = d"
proof -
  assume "d < 10"
  then have "d \<in> set [0..<10]" by simp
  moreover have "\<forall>d \<in> set [0..<10]. code (digit_char d) - 48 = d" by code_simp
  ultimately show ?thesis by blast
qed

lemma pad_Suc: "pad (Suc k) n = digit_char (n div 10 ^ k mod 10) # pad k n"
  by (simp add: pad_def upt_conv_Cons map_Suc_upt [symmetric] comp_def del: upt_Suc)

lemma foldl_pad: "foldl (\<lambda>n c. 10 * n + (code c - 48)) a (pad k n) = a * 10 ^ k + n mod 10 ^ k"
proof (induction k arbitrary: a)
  case 0
  then show ?case by (simp add: pad_def)
next
  case (Suc k)
  have "n mod 10 ^ Suc k = 10 ^ k * (n div 10 ^ k mod 10) + n mod 10 ^ k"
    using mod_mult2_eq [of n "10 ^ k" 10] by (simp add: mult.commute)
  moreover have "code (digit_char (n div 10 ^ k mod 10)) - 48 = n div 10 ^ k mod 10" by (simp add: digit_char_code)
  ultimately show ?case by (simp add: pad_Suc Suc add_mult_distrib)
qed

lemma decimal_pad: "n < 10 ^ k \<Longrightarrow> decimal (pad k n) = n"
  by (simp add: decimal_def foldl_pad)

subsection \<open>The calendar\<close>

definition days_before_year :: "nat \<Rightarrow> nat" where
  "days_before_year y = 365 * (y - 1) + (y - 1) div 4 + (y - 1) div 400 - (y - 1) div 100"

definition ordinal :: "nat \<Rightarrow> nat \<Rightarrow> nat \<Rightarrow> nat" where
  "ordinal y m d = days_before_year y + sum_list (take (m - 1) (month_lengths y)) + (d - 1)"

lemma month_day_sum:
  assumes "month_day ls m d = (m', day)" "d < sum_list ls"
  shows "m \<le> m' \<and> m' < m + length ls \<and> 1 \<le> day \<and> day \<le> Max (insert 0 (set ls)) \<and>
    sum_list (take (m' - m) ls) + (day - 1) = d"
  using assms
proof (induction ls m d rule: month_day.induct)
  case (2 l ls m d)
  show ?case
  proof (cases "d < l")
    case True
    then have "Suc d \<le> Max (insert 0 (set (l # ls)))" by (simp add: Max_ge_iff)
    with True 2(2) show ?thesis by auto
  next
    case False
    then have "month_day ls (Suc m) (d - l) = (m', day)" "d - l < sum_list ls" using 2 by simp_all
    from 2(1) [OF False this] have ih: "Suc m \<le> m'" "m' < Suc m + length ls" "1 \<le> day"
      "day \<le> Max (insert 0 (set ls))" "sum_list (take (m' - Suc m) ls) + (day - 1) = d - l" by simp_all
    have "Max (insert 0 (set ls)) \<le> Max (insert 0 (set (l # ls)))" by (rule Max_mono) auto
    then have "day \<le> Max (insert 0 (set (l # ls)))" using ih(4) by linarith
    moreover have "m' - m = Suc (m' - Suc m)" using ih(1) by simp
    then have "sum_list (take (m' - m) (l # ls)) = l + sum_list (take (m' - Suc m) ls)" by simp
    ultimately show ?thesis using ih(1-3,5) False by (simp only: list.size) arith
  qed
qed simp

lemma year_days: "sum_list (month_lengths y) = (if is_leap y then 366 else 365)"
  by (simp add: month_lengths_def)

definition year_and_rest :: "nat \<Rightarrow> nat \<times> nat" where
  "year_and_rest n =
     (let n400 = n div 146097; a = n mod 146097;
          n100 = min 3 (a div 36524); b = a - 36524 * n100;
          n4 = b div 1461; c = b mod 1461;
          n1 = min 3 (c div 365)
      in (400 * n400 + 100 * n100 + 4 * n4 + n1 + 1, c - 365 * n1))"

lemma civil_year:
  "civil n = (case year_and_rest n of (y, r) \<Rightarrow> (y, month_day (month_lengths y) 1 r))"
  unfolding civil_def year_and_rest_def Let_def split_def prod.collapse fst_conv snd_conv ..

lemma div_mod_rest: "x = r + d * k \<Longrightarrow> r < d \<Longrightarrow> x div d = k \<and> x mod d = r" for x r d k :: nat
  by auto

text \<open>The division of a day count into 400, 100, 4 and 1 years.\<close>

lemma year_split:
  fixes n :: nat
  defines "q \<equiv> n div 146097" and "a \<equiv> n mod 146097"
  defines "h \<equiv> min 3 (a div 36524)" defines "b \<equiv> a - 36524 * h"
  defines "f \<equiv> b div 1461" and "c \<equiv> b mod 1461"
  defines "u \<equiv> min 3 (c div 365)" defines "d \<equiv> c - 365 * u"
  defines "y \<equiv> 400 * q + 100 * h + 4 * f + u + 1"
  shows "days_before_year y + d = n" "d < (if is_leap y then 366 else 365)"
    "n \<le> 3652058 \<Longrightarrow> y \<le> 9999"
proof -
  have n: "n = 146097 * q + a" "a < 146097" by (simp_all add: q_def a_def)
  have h: "h \<le> 3" "a = 36524 * h + b" "h < 3 \<Longrightarrow> b < 36524" "b \<le> 36524"
    using n(2) by (auto simp: h_def b_def min_def split: if_splits)
  have f: "b = 1461 * f + c" "c < 1461" "f \<le> 24" using h(4) by (auto simp: f_def c_def)
  have u: "u \<le> 3" "c = 365 * u + d" "u < 3 \<Longrightarrow> d < 365" "d \<le> 365"
    using f(2) by (auto simp: u_def d_def min_def split: if_splits)
  have y: "y - 1 = 400 * q + 100 * h + 4 * f + u" by (simp add: y_def)
  have "y - 1 = u + 4 * (100 * q + 25 * h + f)" "y - 1 = (4 * f + u) + 100 * (4 * q + h)" "y - 1 = (100 * h + 4 * f + u) + 400 * q"
    unfolding y by simp_all
  note parts = div_mod_rest [OF this(1)] div_mod_rest [OF this(2)] div_mod_rest [OF this(3)]
  have "u < 4" "4 * f + u < 100" "100 * h + 4 * f + u < 400" using h(1) f(3) u(1) by linarith+
  then have div: "(y - 1) div 4 = 100 * q + 25 * h + f" "(y - 1) div 100 = 4 * q + h" "(y - 1) div 400 = q"
    using parts by blast+
  show "days_before_year y + d = n"
    unfolding days_before_year_def div unfolding y n(1) h(2) f(1) u(2) by simp
  show "d < (if is_leap y then 366 else 365)"
  proof (cases "d = 365")
    case True
    then have u3: "u = 3" using u(1,3) by linarith
    then have y4: "y = 400 * q + 100 * h + 4 * (f + 1)" by (simp add: y_def)
    have "is_leap y"
    proof (cases "h < 3")
      case True
      then have "f < 24" using h(3) f(1) u(2) u3 \<open>d = 365\<close> by linarith
      then have "4 * (f + 1) < 100" by simp
      moreover have "y = 4 * (f + 1) + 100 * (4 * q + h)" "y = 0 + 4 * (100 * q + 25 * h + (f + 1))" by (simp_all add: y4)
      ultimately have "y mod 100 = 4 * (f + 1)" "y mod 4 = 0" using div_mod_rest [of y "4 * (f + 1)" 100] div_mod_rest [of y 0 4] by fastforce+
      then show ?thesis by (simp add: is_leap_def)
    next
      case False
      then have h3: "h = 3" using h(1) by simp
      show ?thesis
      proof (cases "f < 24")
        case True
        then have "4 * (f + 1) < 100" by simp
        moreover have "y = 4 * (f + 1) + 100 * (4 * q + h)" "y = 0 + 4 * (100 * q + 25 * h + (f + 1))" by (simp_all add: y4)
        ultimately have "y mod 100 = 4 * (f + 1)" "y mod 4 = 0" using div_mod_rest [of y "4 * (f + 1)" 100] div_mod_rest [of y 0 4] by fastforce+
        then show ?thesis by (simp add: is_leap_def)
      next
        case False
        then have "y = 400 * (q + 1)" using f(3) by (simp add: y4 h3)
        then show ?thesis by (simp add: is_leap_def)
      qed
    qed
    with True show ?thesis by simp
  next
    case False
    then have "d < 365" using u(4) by simp
    then show ?thesis by simp
  qed
  show "n \<le> 3652058 \<Longrightarrow> y \<le> 9999"
    using n(1) h(1,2) f(1,3) u(1,2) unfolding y_def by linarith
qed

lemma civil_ordinal:
  assumes "civil n = (y, m, d)"
  shows "ordinal y m d = n" "1 \<le> m" "m \<le> 12" "d \<le> 31" "n \<le> 3652058 \<Longrightarrow> y \<le> 9999"
proof -
  obtain r where yr: "year_and_rest n = (y, r)" and md: "month_day (month_lengths y) 1 r = (m, d)"
    using assms unfolding civil_year by (auto split: prod.splits)
  have y: "days_before_year y + r = n" "r < sum_list (month_lengths y)" "n \<le> 3652058 \<Longrightarrow> y \<le> 9999"
    using year_split [of n] yr [symmetric] unfolding year_and_rest_def Let_def prod.inject year_days by blast+
  note s = month_day_sum [OF md y(2)]
  show "ordinal y m d = n" using s y(1) unfolding ordinal_def by linarith
  show "1 \<le> m" "m \<le> 12" using s by (simp_all add: month_lengths_def)
  have "Max (insert 0 (set (month_lengths y))) \<le> 31" by (simp add: month_lengths_def)
  with s show "d \<le> 31" by linarith
  show "n \<le> 3652058 \<Longrightarrow> y \<le> 9999" by (rule y(3))
qed

subsection \<open>Reading\<close>

text \<open>
  The reader of \<open>YYYY-MM-DDTHH:MM:SS[.ffffff]\<close> followed by the offset of UTC.
\<close>

definition read_fraction :: "string \<Rightarrow> nat option" where
  "read_fraction s =
     (if s \<in> {''+00:00'', ''Z''} then Some 0
      else if take 1 s = ''.'' \<and> drop 7 s \<in> {''+00:00'', ''Z''} then Some (decimal (take 6 (drop 1 s)))
      else None)"

definition read_iso :: "string \<Rightarrow> pydatetime option" where
  "read_iso s =
     (let num = (\<lambda>i k. decimal (take k (drop i s)));
          days = ordinal (num 0 4) (num 5 2) (num 8 2);
          seconds = 3600 * num 11 2 + 60 * num 14 2 + num 17 2
      in case read_fraction (drop 19 s) of
           None \<Rightarrow> None
         | Some f \<Rightarrow> Some (Aware (int (86400000000 * days + 1000000 * seconds + f) - EPOCH_US)))"

definition clock_text :: "nat \<Rightarrow> nat \<Rightarrow> nat \<Rightarrow> nat \<Rightarrow> string \<Rightarrow> string" where
  "clock_text y m d s tail =
     pad 4 y @ ''-'' @ pad 2 m @ ''-'' @ pad 2 d @ ''T'' @ pad 2 (s div 3600) @ '':'' @ pad 2 (s div 60 mod 60)
     @ '':'' @ pad 2 (s mod 60) @ tail"

lemma read_clock:
  assumes "civil days = (y, m, d)" "days \<le> 3652058" "s < 86400" "read_fraction tail = Some f"
  shows "read_iso (clock_text y m d s tail) = Some (Aware (int (86400000000 * days + 1000000 * s + f) - EPOCH_US))"
proof -
  note c = civil_ordinal [OF assms(1)]
  have small: "y < 10 ^ 4" "m < 10 ^ 2" "d < 10 ^ 2" "s div 3600 < 10 ^ 2" "s div 60 mod 60 < 10 ^ 2" "s mod 60 < 10 ^ 2"
    using c assms(2,3) by auto
  have s: "3600 * (s div 3600) + 60 * (s div 60 mod 60) + s mod 60 = s"
  proof -
    have "s = 60 * (s div 60) + s mod 60" "s div 60 = 60 * (s div 3600) + s div 60 mod 60"
      by (simp_all add: div_mult2_eq [of s 60 60, simplified])
    then show ?thesis by linarith
  qed
  have "drop 19 (clock_text y m d s tail) = tail" by (simp add: clock_text_def)
  moreover have "take 4 (clock_text y m d s tail) = pad 4 y" "take 2 (drop 5 (clock_text y m d s tail)) = pad 2 m"
    "take 2 (drop 8 (clock_text y m d s tail)) = pad 2 d" "take 2 (drop 11 (clock_text y m d s tail)) = pad 2 (s div 3600)"
    "take 2 (drop 14 (clock_text y m d s tail)) = pad 2 (s div 60 mod 60)"
    "take 2 (drop 17 (clock_text y m d s tail)) = pad 2 (s mod 60)"
    by (simp_all add: clock_text_def)
  ultimately show ?thesis
    unfolding read_iso_def Let_def by (simp only: drop_0 decimal_pad small c(1) s assms(4) option.case)
qed

lemma instant_parts:
  assumes "datetime_range us"
  defines "t \<equiv> nat (us + EPOCH_US)"
  shows "t div 86400000000 \<le> 3652058" "t mod 86400000000 div 1000000 < 86400"
    "int (86400000000 * (t div 86400000000) + 1000000 * (t mod 86400000000 div 1000000) + t mod 1000000) - EPOCH_US = us"
proof -
  have t: "int t = us + EPOCH_US" "t \<le> 315537897599999999"
    using assms(1) by (auto simp: t_def datetime_range_def EPOCH_US_def)
  then show "t div 86400000000 \<le> 3652058" "t mod 86400000000 div 1000000 < 86400" by auto
  have "t mod 86400000000 = 1000000 * (t mod 86400000000 div 1000000) + t mod 1000000"
    using mult_div_mod_eq [of 1000000 "t mod 86400000000"] by (simp add: mod_mod_cancel)
  with mult_div_mod_eq [of 86400000000 t] have "86400000000 * (t div 86400000000) + 1000000 * (t mod 86400000000 div 1000000) + t mod 1000000 = t"
    by linarith
  then show "int (86400000000 * (t div 86400000000) + 1000000 * (t mod 86400000000 div 1000000) + t mod 1000000) - EPOCH_US = us"
    using t(1) by (simp only:)
qed

lemma fraction_tails:
  "read_fraction ''+00:00'' = Some 0"
  "n < 1000000 \<Longrightarrow> read_fraction (''.'' @ pad 6 n @ ''+00:00'') = Some n"
  "n < 1000000 \<Longrightarrow> read_fraction (''.'' @ pad 6 n @ ''Z'') = Some n"
  using decimal_pad [of _ 6] by (simp_all add: read_fraction_def)

lemma read_isoformat:
  assumes "datetime_range us"
  shows "read_iso (isoformat us) = Some (Aware us)"
proof -
  let ?t = "nat (us + EPOCH_US)"
  obtain y m d where ymd: "civil (?t div 86400000000) = (y, m, d)" by (cases "civil (?t div 86400000000)")
  let ?tail = "(if ?t mod 1000000 = 0 then [] else ''.'' @ pad 6 (?t mod 1000000)) @ ''+00:00''"
  have "read_fraction ?tail = Some (?t mod 1000000)" using fraction_tails(1) fraction_tails(2) [of "?t mod 1000000"] by auto
  note read_clock [OF ymd instant_parts(1,2) [OF assms] this]
  moreover have "isoformat us = clock_text y m d (?t mod 86400000000 div 1000000) ?tail"
    unfolding isoformat_def clock_text_def Let_def ymd by simp
  ultimately show ?thesis unfolding instant_parts(3) [OF assms] by (simp only:)
qed

lemma read_stamp:
  assumes "datetime_range us"
  shows "read_iso (stamp us) = Some (Aware us)"
proof -
  let ?t = "nat (us + EPOCH_US)"
  obtain y m d where ymd: "civil (?t div 86400000000) = (y, m, d)" by (cases "civil (?t div 86400000000)")
  have "read_fraction (''.'' @ pad 6 (?t mod 1000000) @ ''Z'') = Some (?t mod 1000000)" by (rule fraction_tails(3)) simp
  note read_clock [OF ymd instant_parts(1,2) [OF assms] this]
  moreover have "stamp us = clock_text y m d (?t mod 86400000000 div 1000000) (''.'' @ pad 6 (?t mod 1000000) @ ''Z'')"
    unfolding stamp_def clock_text_def Let_def ymd by simp
  ultimately show ?thesis unfolding instant_parts(3) [OF assms] by (simp only:)
qed

end
