(* ===== verification/Middleware.thy ===== *)
theory Middleware
  imports Limiter Config
begin

text \<open>
  The ASGI layer of \<open>api.py\<close> that every request passes before it is parsed: the global rate limit, the
  header checks, the bounded body, the bounded nesting of brackets, the security headers added to every response,
  and the fixed reply to an exception.  A byte is a \<open>char\<close>.  The client is the list of messages that
  \<open>receive\<close> will return; where it ends the server waits.  The application behind the layer and the rendering of a
  JSON response are arguments.
\<close>

subsection \<open>Messages\<close>

text \<open>A message of type \<open>http.request\<close> may lack its \<open>body\<close> and its \<open>more_body\<close>.\<close>

datatype message = Chunk "string option" "bool option" | Disconnect

fun chunk_body :: "string option \<Rightarrow> string" where
  "chunk_body None = []"
| "chunk_body (Some b) = b"

fun chunk_more :: "bool option \<Rightarrow> bool" where
  "chunk_more None = False"
| "chunk_more (Some b) = b"

type_synonym headers = "(string \<times> string) list"

datatype sent = Start nat headers | Payload string bool

record scope =
  sc_type :: string
  sc_method :: string
  sc_path :: string
  sc_headers :: headers

text \<open>What the application sends, and whether it then raises.\<close>

type_synonym application = "scope \<Rightarrow> message list \<Rightarrow> sent list \<times> bool"

text \<open>
  \<open>Returned\<close>, waiting for the client, a stream aborted with the fixed error \<open>response_failed\<close>, or, outside
  HTTP, the exception of the application itself.
\<close>

datatype ending = Returned | Waiting | Response_Failed | Propagated

text \<open>\<open>dict(scope["headers"])\<close>: the last of equal names counts.\<close>

definition header_or :: "headers \<Rightarrow> string \<Rightarrow> string \<Rightarrow> string" where
  "header_or hs name d = (case map_of (rev hs) name of None \<Rightarrow> d | Some v \<Rightarrow> v)"

definition BRAND_PATHS :: "string list" where
  "BRAND_PATHS = [''/assets/reliamesh-mark.png'', ''/favicon-32.png'', ''/favicon.ico'', ''/apple-touch-icon.png'']"

definition security_headers :: "string \<Rightarrow> headers" where
  "security_headers request_id =
     [(''x-request-id'', request_id),
      (''x-content-type-options'', ''nosniff''),
      (''referrer-policy'', ''no-referrer''),
      (''cache-control'', ''no-store''),
      (''content-security-policy'',
         ''default-src '' @ [CHR 0x27] @ ''none'' @ [CHR 0x27] @ ''; img-src '' @ [CHR 0x27] @ ''self'' @ [CHR 0x27]
         @ ''; style-src '' @ [CHR 0x27] @ ''unsafe-inline'' @ [CHR 0x27] @ ''; frame-ancestors ''
         @ [CHR 0x27] @ ''none'' @ [CHR 0x27]),
      (''strict-transport-security'', ''max-age=31536000'')]"

fun safe_send :: "string \<Rightarrow> sent \<Rightarrow> sent" where
  "safe_send request_id (Start status hs) = Start status (hs @ security_headers request_id)"
| "safe_send request_id (Payload body cont) = Payload body cont"

definition is_start :: "sent \<Rightarrow> bool" where
  "is_start m = (case m of Start status hs \<Rightarrow> True | Payload body cont \<Rightarrow> False)"

text \<open>\<open>JSONResponse({"error": code}, status_code=status)\<close>; \<open>render\<close> gives its headers and body.\<close>

definition reject :: "(json \<Rightarrow> headers \<times> string) \<Rightarrow> string \<Rightarrow> nat \<Rightarrow> string \<Rightarrow> sent list" where
  "reject render request_id status error_code =
     (let (hs, body) = render (JObj [(''error'', JStr error_code)]);
          retry = (if status = 429 then [(''retry-after'', ''60'')] else [])
      in map (safe_send request_id) [Start status (hs @ retry), Payload body False])"

subsection \<open>The checks\<close>

definition exempt :: "scope \<Rightarrow> bool" where
  "exempt sc \<longleftrightarrow> sc_path sc \<in> {''/health'', ''/''} \<or>
     (sc_method sc \<in> {''GET'', ''HEAD''} \<and> sc_path sc \<in> set BRAND_PATHS)"

definition header_check :: "scope \<Rightarrow> (nat \<times> string) option" where
  "header_check sc =
     (if header_or (sc_headers sc) ''content-encoding'' ''identity'' \<noteq> ''identity''
      then Some (415, ''unsupported_encoding'')
      else if sc_method sc \<in> {''POST'', ''PUT'', ''PATCH''} \<and>
              takeWhile (\<lambda>c. c \<noteq> CHR '';'') (header_or (sc_headers sc) ''content-type'' []) \<noteq> ''application/json''
      then Some (415, ''application_json_required'')
      else None)"

text \<open>The loop around \<open>receive\<close>.\<close>

datatype buffered = Too_Large | Gone | Awaiting | Complete string "message list"

fun read_body :: "int \<Rightarrow> string \<Rightarrow> message list \<Rightarrow> buffered" where
  "read_body cap body [] = Awaiting"
| "read_body cap body (Disconnect # ms) = Gone"
| "read_body cap body (Chunk b cont # ms) =
     (let chunk = chunk_body b
      in if cap < int (length body + length chunk) then Too_Large
         else if chunk_more cont then read_body cap (body @ chunk) ms
         else Complete (body @ chunk) ms)"

text \<open>The scan of the bytes outside string literals; \<open>False\<close> when the depth exceeds twelve.\<close>

definition MAX_DEPTH :: int where "MAX_DEPTH = 12"

definition depth_step :: "char \<Rightarrow> int" where
  "depth_step c = (if code c = 91 \<or> code c = 123 then 1 else 0) - (if code c = 93 \<or> code c = 125 then 1 else 0)"

fun shallow :: "int \<Rightarrow> bool \<Rightarrow> bool \<Rightarrow> string \<Rightarrow> bool" where
  "shallow depth quoted escaped [] = True"
| "shallow depth quoted escaped (c # cs) =
     (if escaped then shallow depth quoted False cs
      else if quoted \<and> code c = 92 then shallow depth quoted True cs
      else if code c = 34 then shallow depth (\<not> quoted) False cs
      else if \<not> quoted then
        (if MAX_DEPTH < depth + depth_step c then False else shallow (depth + depth_step c) False False cs)
      else shallow depth quoted False cs)"

subsection \<open>The layer\<close>

definition forward :: "(json \<Rightarrow> headers \<times> string) \<Rightarrow> application \<Rightarrow> string \<Rightarrow> scope \<Rightarrow> string \<Rightarrow> message list \<Rightarrow> sent list \<times> ending" where
  "forward render app request_id sc body ms =
     (let (out, raised) = app sc (Chunk (Some body) (Some False) # ms);
          replies = map (safe_send request_id) out
      in if \<not> raised then (replies, Returned)
         else if list_ex is_start out then (replies, Response_Failed)
         else (replies @ reject render request_id 503 ''temporarily_unavailable'', Returned))"

definition new_middleware :: "settings \<Rightarrow> limiter" where
  "new_middleware cfg = new_limiter (nat (cf_global_requests_per_second cfg)) 1 4096"

definition safety_middleware ::
    "(json \<Rightarrow> headers \<times> string) \<Rightarrow> application \<Rightarrow> settings \<Rightarrow> string \<Rightarrow> pyfloat \<Rightarrow> scope \<Rightarrow> message list \<Rightarrow> limiter \<Rightarrow>
     (sent list \<times> ending) \<times> limiter" where
  "safety_middleware render app cfg request_id clock sc ms l =
     (if sc_type sc \<noteq> ''http'' then
        (let (out, raised) = app sc ms in ((out, if raised then Propagated else Returned), l))
      else
        let (l', admitted) = (if exempt sc then (l, True) else allow l ''all'' clock) in
        if \<not> admitted then ((reject render request_id 429 ''rate_limited'', Returned), l')
        else case header_check sc of
          Some (status, error_code) \<Rightarrow> ((reject render request_id status error_code, Returned), l')
        | None \<Rightarrow>
            (case read_body (cf_max_body_bytes cfg) [] ms of
               Too_Large \<Rightarrow> ((reject render request_id 413 ''payload_too_large'', Returned), l')
             | Gone \<Rightarrow> (([], Returned), l')
             | Awaiting \<Rightarrow> (([], Waiting), l')
             | Complete body rest \<Rightarrow>
                 if \<not> shallow 0 False False body
                 then ((reject render request_id 422 ''json_too_deep'', Returned), l')
                 else (forward render app request_id sc body rest, l')))"

end
