(* ===== verification/Nesting.thy ===== *)
theory Nesting
  imports Middleware
begin

text \<open>
  The bracket scan of the middleware against the encoder: on the text of a JSON value the scan balanced
  exactly the nesting of the value, whatever its strings contain.
\<close>

fun nesting :: "json \<Rightarrow> nat" where
  "nesting (JArr vs) = Suc (fold max (map nesting vs) 0)"
| "nesting (JObj ms) = Suc (fold max (map (\<lambda>p. nesting (snd p)) ms) 0)"
| "nesting _ = 0"

text \<open>The scan with its final state; \<open>None\<close> where it rejects.\<close>

fun scan :: "int \<Rightarrow> bool \<Rightarrow> bool \<Rightarrow> string \<Rightarrow> (int \<times> bool \<times> bool) option" where
  "scan depth quoted escaped [] = Some (depth, quoted, escaped)"
| "scan depth quoted escaped (c # cs) =
     (if escaped then scan depth quoted False cs
      else if quoted \<and> code c = 92 then scan depth quoted True cs
      else if code c = 34 then scan depth (\<not> quoted) False cs
      else if \<not> quoted then
        (if MAX_DEPTH < depth + depth_step c then None else scan (depth + depth_step c) False False cs)
      else scan depth quoted False cs)"

lemma shallow_scan: "shallow d q e cs \<longleftrightarrow> scan d q e cs \<noteq> None"
  by (induction d q e cs rule: shallow.induct) simp_all

lemma scan_append:
  "scan d q e (xs @ ys) = Option.bind (scan d q e xs) (\<lambda>(d', q', e'). scan d' q' e' ys)"
  by (induction d q e xs rule: scan.induct) simp_all

definition plain_char :: "char \<Rightarrow> bool" where
  "plain_char c \<longleftrightarrow> code c \<notin> {34, 91, 93, 123, 125}"

lemma scan_plain: "list_all plain_char cs \<Longrightarrow> d \<le> MAX_DEPTH \<Longrightarrow> scan d False False cs = Some (d, False, False)"
  by (induction cs) (auto simp: plain_char_def depth_step_def)

lemma digit_char_plain: "n < 16 \<Longrightarrow> plain_char (digit_char n) \<and> code (digit_char n) \<noteq> 92"
proof -
  assume "n < 16"
  then have "n \<in> set [0..<16]" by simp
  moreover have "\<forall>n \<in> set [0..<16]. plain_char (digit_char n) \<and> code (digit_char n) \<noteq> 92" by code_simp
  ultimately show ?thesis by blast
qed

lemma show_nat_plain: "list_all plain_char (show_nat n)"
  by (induction n rule: show_nat.induct) (subst show_nat.simps, simp add: digit_char_plain)

lemma show_int_plain: "list_all plain_char (show_int i)"
  by (simp add: show_int_def show_nat_plain) (simp add: plain_char_def code_def)

subsection \<open>Strings\<close>

lemma code_inj: "code c = code c' \<longleftrightarrow> c = c'"
  by (simp add: code_def)

lemma escape_char_scan: "scan d True False (escape_char c) = Some (d, True, False)"
proof -
  have q: "code c = 34 \<longleftrightarrow> c = CHR 0x22" and b: "code c = 92 \<longleftrightarrow> c = CHR 0x5C"
    using code_inj [of c "CHR 0x22"] code_inj [of c "CHR 0x5C"] by (simp_all add: code_def)
  have "code c < 256" by (simp add: code_def)
  then have "code c div 16 < 16" "code c mod 16 < 16" by auto
  note digits = digit_char_plain [OF this(1)] digit_char_plain [OF this(2)]
  have "code (CHR 0x5C) = 92" "code (CHR 0x22) = 34" "code (CHR ''0'') = 48" by (simp_all add: code_def)
  with q b digits show ?thesis
    by (simp add: escape_char_def plain_char_def)
qed

lemma escaped_scan: "scan d True False (concat (map escape_char s)) = Some (d, True, False)"
  by (induction s) (simp_all add: scan_append escape_char_scan)

lemma dump_string_scan: "scan d False False (dump_string s) = Some (d, False, False)"
  by (simp add: dump_string_def scan_append escaped_scan code_def)

subsection \<open>Values\<close>

text \<open>\<open>balanced n s\<close>: the text \<open>s\<close> is balanced and \<open>n\<close> brackets deep.\<close>

definition balanced :: "nat \<Rightarrow> string \<Rightarrow> bool" where
  "balanced n s \<longleftrightarrow> (\<forall>d. d \<le> MAX_DEPTH \<longrightarrow>
     scan d False False s = (if d + int n \<le> MAX_DEPTH then Some (d, False, False) else None))"

lemma balanced_plain: "list_all plain_char s \<Longrightarrow> balanced 0 s"
  by (simp add: balanced_def scan_plain)

lemma balanced_string: "balanced 0 (dump_string s)"
  by (simp add: balanced_def dump_string_scan)

lemma balanced_append: "balanced n s \<Longrightarrow> balanced m t \<Longrightarrow> balanced (max n m) (s @ t)"
  by (auto simp: balanced_def scan_append)

lemma balanced_bracket:
  assumes "balanced n s" and "code a \<in> {91, 123}" and "code b \<in> {93, 125}"
  shows "balanced (Suc n) (a # s @ [b])"
  using assms by (auto simp: balanced_def scan_append depth_step_def)

lemma fold_max_0: "fold max ns m = max m (fold max ns (0::nat))"
  by (induction ns arbitrary: m) (simp, metis fold_simps(2) max.assoc max.commute max_0L)

lemma balanced_join: "list_all2 balanced ns ss \<Longrightarrow> balanced (fold max ns 0) (join ss)"
proof (induction ss arbitrary: ns rule: join.induct)
  case 1
  then show ?case by (simp add: balanced_plain)
next
  case (2 s)
  then show ?case by (auto simp: list_all2_Cons2)
next
  case (3 s t ss)
  then obtain n ms where ns: "ns = n # ms" "balanced n s" "list_all2 balanced ms (t # ss)"
    by (auto simp: list_all2_Cons2)
  have comma: "balanced 0 [CHR '','']" by (simp add: balanced_plain plain_char_def code_def)
  have "fold max ns 0 = max n (max 0 (fold max ms 0))"
    using fold_max_0 [of ms n] by (simp add: ns(1))
  moreover have "balanced (fold max ms 0) (join (t # ss))" by (rule "3.IH" [OF ns(3)])
  ultimately show ?case using balanced_append [OF ns(2) balanced_append [OF comma]] by simp
qed

definition float_plain :: "runtime \<Rightarrow> bool" where
  "float_plain R \<longleftrightarrow> (\<forall>x. list_all plain_char (float_repr R x))"

lemma dumps_balanced: "float_plain R \<Longrightarrow> balanced (nesting v) (dumps R v)"
proof (induction R v rule: dumps.induct)
  case (6 R vs)
  then have "list_all2 balanced (map nesting vs) (map (dumps R) vs)"
    by (simp add: list_all2_map1 list_all2_map2 list_all2_same)
  from balanced_bracket [OF balanced_join [OF this], of "CHR ''[''" "CHR '']''"] show ?case
    by (simp add: code_def)
next
  case (7 R ms)
  have "balanced (nesting (snd p)) (dump_string (fst p) @ CHR '':'' # dumps R (snd p))" if "p \<in> set ms" for p
  proof -
    have colon: "balanced 0 [CHR '':'']" by (simp add: balanced_plain plain_char_def code_def)
    have "balanced (nesting (snd p)) (dumps R (snd p))" using 7 that by (cases p) auto
    from balanced_append [OF balanced_string balanced_append [OF colon this]] show ?thesis by simp
  qed
  then have "list_all2 balanced (map (\<lambda>p. nesting (snd p)) ms) (map (\<lambda>(k, v). dump_string k @ CHR '':'' # dumps R v) ms)"
    by (simp add: list_all2_map1 list_all2_map2 list_all2_same split_def)
  from balanced_bracket [OF balanced_join [OF this], of "CHR ''{''" "CHR ''}''"] show ?case
    by (simp add: code_def)
qed (simp_all add: balanced_plain balanced_string show_int_plain float_plain_def plain_char_def code_def)

lemma shallow_dumps:
  assumes "float_plain R"
  shows "shallow 0 False False (dumps R v) \<longleftrightarrow> nesting v \<le> 12"
proof -
  have "scan 0 False False (dumps R v) = (if int (nesting v) \<le> 12 then Some (0, False, False) else None)"
    using dumps_balanced [OF assms, of v] by (simp add: balanced_def MAX_DEPTH_def)
  then show ?thesis by (cases "nesting v \<le> 12") (auto simp: shallow_scan)
qed

end
