(* ===== verification/Sdk_Client.thy ===== *)
theory Sdk_Client
  imports Sdk_Events
begin

text \<open>
  The delivery side of the Python SDK, \<open>reliamesh_sdk/client.py\<close>: the bounded queue, \<open>emit\<close>,
  the retrying request, the batching of \<open>flush\<close>, and \<open>observe\<close>.  The server is a step function on a
  state of its own that answers one HTTP exchange; \<open>json.loads\<close> is an argument.  A client is used by one
  thread at a time.
\<close>

datatype sdk_error = SDK_Error string | Delivery_Error string | Index_Error

text \<open>
  One exchange: an \<open>HTTPError\<close> with its status, any other transport error, or a response body.
\<close>

datatype response = Status nat | Broken | Reply string

record client =
  cl_queue :: "members list"
  cl_capacity :: nat
  cl_max_retries :: nat
  cl_raises :: bool
  cl_enqueued :: nat
  cl_sent :: nat
  cl_dropped :: nat
  cl_failed_batches :: nat
  cl_retries :: nat

definition visible_ascii :: "string \<Rightarrow> bool" where
  "visible_ascii s \<longleftrightarrow> list_all (\<lambda>c. 33 \<le> code c \<and> code c \<le> 126) s"

text \<open>
  \<open>_endpoint\<close>.  \<open>urlsplit\<close> and \<open>ipaddress.ip_address(...).is_loopback\<close> are arguments; \<open>None\<close> is a
  \<open>ValueError\<close> of theirs.
\<close>

record url_parts =
  up_scheme :: string
  up_hostname :: "string option"
  up_port :: "nat option"
  up_username :: "string option"
  up_password :: "string option"
  up_query :: string
  up_fragment :: string

definition endpoint_ok :: "(string \<Rightarrow> bool option) \<Rightarrow> string \<Rightarrow> url_parts \<Rightarrow> bool" where
  "endpoint_ok loopback value u =
     (case up_hostname u of
        None \<Rightarrow> False
      | Some hostname \<Rightarrow>
          hostname \<noteq> [] \<and> up_username u = None \<and> up_password u = None \<and> up_query u = [] \<and> up_fragment u = [] \<and>
          CHR 0x5C \<notin> set value \<and> \<not> list_ex (\<lambda>c. code c \<le> 32) value \<and>
          (case up_port u of None \<Rightarrow> True | Some port \<Rightarrow> 1 \<le> port \<and> port \<le> 65535) \<and>
          (let local = (case loopback hostname of Some b \<Rightarrow> b | None \<Rightarrow> hostname = ''localhost'')
           in up_scheme u = ''https'' \<or> (up_scheme u = ''http'' \<and> local)))"

definition sdk_endpoint :: "(string \<Rightarrow> url_parts option) \<Rightarrow> (string \<Rightarrow> bool option) \<Rightarrow> string \<Rightarrow> string option" where
  "sdk_endpoint urlsplit loopback value =
     (case urlsplit value of
        None \<Rightarrow> None
      | Some u \<Rightarrow> if endpoint_ok loopback value u then Some (rev (dropWhile (\<lambda>c. c = CHR ''/'') (rev value))) else None)"

text \<open>The checks of \<open>Client.__init__\<close> after the endpoint's; \<open>None\<close> is its \<open>ValueError\<close>.\<close>

definition new_client :: "json \<Rightarrow> json \<Rightarrow> json \<Rightarrow> json \<Rightarrow> json \<Rightarrow> client option" where
  "new_client api_key timeout max_retries capacity failure_mode =
     (if \<not> (case api_key of JStr s \<Rightarrow> 1 \<le> length s \<and> length s \<le> 512 \<and> visible_ascii s | _ \<Rightarrow> False) then None
      else if \<not> (case timeout of JInt i \<Rightarrow> 0 < i \<and> i \<le> 30 | JFloat x \<Rightarrow> 0 < x \<and> x \<le> 30 | _ \<Rightarrow> False) then None
      else case (max_retries, capacity, failure_mode) of
        (JInt r, JInt n, JStr m) \<Rightarrow>
          if \<not> (0 \<le> r \<and> r \<le> 3) \<or> \<not> (1 \<le> n \<and> n \<le> 10000) \<or> m \<notin> {''drop'', ''raise''} then None
          else Some \<lparr>cl_queue = [], cl_capacity = nat n, cl_max_retries = nat r, cl_raises = (m = ''raise''),
                     cl_enqueued = 0, cl_sent = 0, cl_dropped = 0, cl_failed_batches = 0, cl_retries = 0\<rparr>
      | _ \<Rightarrow> None)"

subsection \<open>Emitting\<close>

definition drop_events :: "nat \<Rightarrow> client \<Rightarrow> client" where
  "drop_events n c = c\<lparr>cl_dropped := cl_dropped c + n\<rparr>"

definition emit :: "runtime \<Rightarrow> json \<Rightarrow> client \<Rightarrow> (sdk_error + bool) \<times> client" where
  "emit R value c =
     (case validate_event R value of
        None \<Rightarrow> (if cl_raises c then Inl (SDK_Error ''event rejected by local validation'') else Inr False, drop_events 1 c)
      | Some validated \<Rightarrow>
          if cl_capacity c \<le> length (cl_queue c)
          then (if cl_raises c then Inl (SDK_Error ''event queue is full'') else Inr False, drop_events 1 c)
          else (Inr True, c\<lparr>cl_queue := cl_queue c @ [validated], cl_enqueued := cl_enqueued c + 1\<rparr>))"

subsection \<open>Requests\<close>

definition MAX_RESPONSE :: nat where "MAX_RESPONSE = 1048576"

definition read_reply :: "(string \<Rightarrow> json option) \<Rightarrow> string \<Rightarrow> sdk_error + json" where
  "read_reply loads body =
     (if MAX_RESPONSE < length body then Inl (Delivery_Error ''server response exceeds SDK size limit'')
      else case loads body of
        None \<Rightarrow> Inl (Delivery_Error ''request failed or returned invalid JSON'')
      | Some (JObj ms) \<Rightarrow> Inr (JObj ms)
      | Some (JArr vs) \<Rightarrow> Inr (JArr vs)
      | Some v \<Rightarrow> Inl (Delivery_Error ''server returned an invalid response''))"

text \<open>
  The loop over the attempts; \<open>left\<close> further attempts are allowed after the present one.  The number of
  retries is returned with the result.
\<close>

fun send_request ::
    "(string \<Rightarrow> json option) \<Rightarrow> ('s \<Rightarrow> string \<Rightarrow> response \<times> 's) \<Rightarrow> nat \<Rightarrow> string \<Rightarrow> 's \<Rightarrow> (sdk_error + json) \<times> nat \<times> 's" where
  "send_request loads server left payload s =
     (let (r, s') = server s payload in
      case r of
        Reply body \<Rightarrow> (read_reply loads body, 0, s')
      | Broken \<Rightarrow> (Inl (Delivery_Error ''request failed or returned invalid JSON''), 0, s')
      | Status status \<Rightarrow>
          (case left of
             Suc n \<Rightarrow>
               if status = 429 \<or> status = 503
               then (let (result, retries, s'') = send_request loads server n payload s' in (result, Suc retries, s''))
               else (Inl (Delivery_Error (''request failed with HTTP '' @ show_nat status)), 0, s')
           | 0 \<Rightarrow> (Inl (Delivery_Error (''request failed with HTTP '' @ show_nat status)), 0, s')))"

declare send_request.simps [simp del]

text \<open>\<open>summary\<close> and \<open>incidents\<close>: the same loop around a GET, whose text is its path; failures always raise.\<close>

definition sdk_fetch ::
    "(string \<Rightarrow> json option) \<Rightarrow> ('s \<Rightarrow> string \<Rightarrow> response \<times> 's) \<Rightarrow> string \<Rightarrow> client \<Rightarrow> 's \<Rightarrow> (sdk_error + json) \<times> client \<times> 's" where
  "sdk_fetch loads server path c s =
     (let (result, retries, s') = send_request loads server (cl_max_retries c) path s
      in (result, c\<lparr>cl_retries := cl_retries c + retries\<rparr>, s'))"

definition sdk_summary where
  "sdk_summary loads server c s = sdk_fetch loads server ''/v1/summary'' c s"

definition sdk_incidents where
  "sdk_incidents loads server c s = sdk_fetch loads server ''/v1/incidents'' c s"

subsection \<open>Batching\<close>

definition BATCH_EVENTS :: nat where "BATCH_EVENTS = 100"
definition BATCH_BYTES :: nat where "BATCH_BYTES = 131072"

definition event_size :: "runtime \<Rightarrow> members \<Rightarrow> nat" where
  "event_size R e = length (dumps R (JObj e))"

text \<open>
  The inner loop: it moves events from the head of the queue to the batch; \<open>None\<close> is the
  \<open>IndexError\<close> of an exhausted queue.
\<close>

fun fill :: "runtime \<Rightarrow> nat \<Rightarrow> members list \<Rightarrow> nat \<Rightarrow> members list \<Rightarrow> (members list \<times> members list) option" where
  "fill R limit batch bytes [] = (if length batch < limit then None else Some (batch, []))"
| "fill R limit batch bytes (e # queue) =
     (if \<not> length batch < limit then Some (batch, e # queue)
      else let addition = event_size R e + (if batch = [] then 0 else 1)
           in if batch \<noteq> [] \<and> BATCH_BYTES < bytes + addition then Some (batch, e # queue)
              else fill R limit (batch @ [e]) (bytes + addition) queue)"

text \<open>The length of the encoded empty batch, an object whose member \<open>events\<close> is an empty array.\<close>

definition EMPTY_BATCH_BYTES :: nat where "EMPTY_BATCH_BYTES = 13"

definition next_batch :: "runtime \<Rightarrow> nat \<Rightarrow> members list \<Rightarrow> (members list \<times> members list) option" where
  "next_batch R remaining queue = fill R (min BATCH_EVENTS remaining) [] EMPTY_BATCH_BYTES queue"

definition batch_json :: "members list \<Rightarrow> json" where
  "batch_json batch = JObj [(''events'', JArr (map JObj batch))]"

definition acknowledged :: "nat \<Rightarrow> json \<Rightarrow> bool" where
  "acknowledged n v =
     (case v of
        JObj ms \<Rightarrow>
          (case (map_of ms ''schema_version'', map_of ms ''accepted'', map_of ms ''duplicates'') of
             (Some (JStr version), Some (JInt a), Some (JInt d)) \<Rightarrow>
               version = ''1.0'' \<and> 0 \<le> a \<and> 0 \<le> d \<and> a + d = int n
           | _ \<Rightarrow> False)
      | _ \<Rightarrow> False)"

text \<open>One batch: the request, the acknowledgement and the counters.\<close>

definition deliver ::
    "runtime \<Rightarrow> (string \<Rightarrow> json option) \<Rightarrow> ('s \<Rightarrow> string \<Rightarrow> response \<times> 's) \<Rightarrow> members list \<Rightarrow> client \<Rightarrow> 's \<Rightarrow>
     (sdk_error + nat) \<times> client \<times> 's" where
  "deliver R loads server batch c s =
     (let (result, retries, s') = send_request loads server (cl_max_retries c) (dumps R (batch_json batch)) s;
          c1 = c\<lparr>cl_retries := cl_retries c + retries\<rparr>;
          lost = drop_events (length batch) (c1\<lparr>cl_failed_batches := cl_failed_batches c1 + 1\<rparr>)
      in case result of
           Inl e \<Rightarrow> (Inl e, lost, s')
         | Inr v \<Rightarrow>
             if acknowledged (length batch) v
             then (Inr (length batch), c1\<lparr>cl_sent := cl_sent c1 + length batch\<rparr>, s')
             else (Inl (Delivery_Error ''server returned an invalid ingestion acknowledgement''), lost, s'))"

lemma fill_grows: "fill R limit batch bytes queue = Some (b, q) \<Longrightarrow> length batch \<le> length b"
  by (induction R limit batch bytes queue rule: fill.induct) (auto simp: Let_def split: if_splits)

lemma next_batch_nonempty: "next_batch R remaining queue = Some (b, q) \<Longrightarrow> 0 < remaining \<Longrightarrow> b \<noteq> []"
  by (cases queue) (auto simp: next_batch_def BATCH_EVENTS_def Let_def dest: fill_grows split: if_splits)

subsection \<open>Flushing\<close>

text \<open>The outer loop over the events that were queued at entry.\<close>

function flush_loop ::
    "runtime \<Rightarrow> (string \<Rightarrow> json option) \<Rightarrow> ('s \<Rightarrow> string \<Rightarrow> response \<times> 's) \<Rightarrow> nat \<Rightarrow> nat \<Rightarrow> client \<Rightarrow> 's \<Rightarrow>
     (sdk_error + nat) \<times> client \<times> 's" where
  "flush_loop R loads server remaining sent c s =
     (if remaining = 0 then (Inr sent, c, s)
      else case next_batch R remaining (cl_queue c) of
        None \<Rightarrow> (Inl Index_Error, c, s)
      | Some (batch, queue) \<Rightarrow>
          (case deliver R loads server batch (c\<lparr>cl_queue := queue\<rparr>) s of
             (Inr n, c', s') \<Rightarrow> flush_loop R loads server (remaining - length batch) (sent + n) c' s'
           | (Inl e, c', s') \<Rightarrow>
               if cl_raises c then (Inl e, c', s')
               else flush_loop R loads server (remaining - length batch) sent c' s'))"
  by pat_completeness auto
termination
  by (relation "measure (\<lambda>(R, loads, server, remaining, sent, c, s). remaining)") (auto dest: next_batch_nonempty)

declare flush_loop.simps [simp del]

definition flush ::
    "runtime \<Rightarrow> (string \<Rightarrow> json option) \<Rightarrow> ('s \<Rightarrow> string \<Rightarrow> response \<times> 's) \<Rightarrow> client \<Rightarrow> 's \<Rightarrow> (sdk_error + nat) \<times> client \<times> 's" where
  "flush R loads server c s = flush_loop R loads server (length (cl_queue c)) 0 c s"

subsection \<open>Observing\<close>

text \<open>
  How the observed block ends; \<open>True\<close> marks a \<open>TimeoutError\<close>.  \<open>elapsed\<close> is the measured time in
  milliseconds.
\<close>

datatype block_end = Completed | Raised bool

definition observed_failure :: "string \<Rightarrow> block_end \<Rightarrow> string option" where
  "observed_failure operation b =
     (case b of
        Completed \<Rightarrow> None
      | Raised timeout \<Rightarrow>
          Some (if timeout then ''timeout''
                else case map_of [(''agent'', ''agent_error''), (''model'', ''model_error''), (''tool'', ''tool_error''),
                                  (''validation'', ''validation_failure'')] operation of
                       Some f \<Rightarrow> f
                     | None \<Rightarrow> ''unknown''))"

text \<open>The exception that leaves the block: none, the SDK's own, or the application's.\<close>

datatype observe_end = Returns | Raises_SDK sdk_error | Raises_Application

record observation =
  ob_deployment_id :: json
  ob_agent_id :: json
  ob_operation :: string
  ob_synthetic :: json
  ob_timestamp :: "pydatetime option"
  ob_event_id :: "string option"
  ob_measurements :: members

text \<open>
  \<open>timestamp\<close> and \<open>event_id\<close> reach \<open>event\<close> through \<open>**measurements\<close>; a measurement that repeats an
  explicit argument is a \<open>TypeError\<close>.
\<close>

definition observe_event ::
    "runtime \<Rightarrow> string \<Rightarrow> int \<Rightarrow> observation \<Rightarrow> pyfloat \<Rightarrow> block_end \<Rightarrow> members option" where
  "observe_event R fresh now ob elapsed b =
     (if list_ex (\<lambda>k. k \<in> {''outcome'', ''failure_type'', ''latency_ms''}) (keys (ob_measurements ob)) then None
      else sdk_event R fresh now
        \<lparr>ea_deployment_id = ob_deployment_id ob, ea_agent_id = ob_agent_id ob, ea_operation = JStr (ob_operation ob),
         ea_outcome = JStr (if b = Completed then ''success'' else ''failure''),
         ea_failure_type = map_option JStr (observed_failure (ob_operation ob) b), ea_timestamp = ob_timestamp ob,
         ea_event_id = ob_event_id ob, ea_synthetic = ob_synthetic ob,
         ea_measurements = (''latency_ms'', if 86400000 < elapsed then JInt 86400000 else JFloat elapsed) # ob_measurements ob\<rparr>)"

definition observe ::
    "runtime \<Rightarrow> string \<Rightarrow> int \<Rightarrow> observation \<Rightarrow> pyfloat \<Rightarrow> block_end \<Rightarrow> client \<Rightarrow> observe_end \<times> client" where
  "observe R fresh now ob elapsed b c =
     (let (result, c') =
        (case observe_event R fresh now ob elapsed b of
           None \<Rightarrow> (Inl (SDK_Error ''observation could not be recorded''), drop_events 1 c)
         | Some ms \<Rightarrow> emit R (JObj ms) c)
      in (case b of
            Raised timeout \<Rightarrow> Raises_Application
          | Completed \<Rightarrow>
              (case result of
                 Inr queued \<Rightarrow> Returns
               | Inl e \<Rightarrow> if cl_raises c then Raises_SDK (SDK_Error ''observation could not be recorded'') else Returns),
          c'))"

end
