(* ===== verification/Sdk_Client_Facts.thy ===== *)
theory Sdk_Client_Facts
  imports Sdk_Client Sdk_Facts Nesting
begin

text \<open>
  The delivery guarantees of the SDK: no event is lost track of, a flush empties the queue it found, batches keep the
  order and the bounds, retries follow the documented statuses only, and every request body is one that the server's
  request layer and validation accept.
\<close>

subsection \<open>Batches\<close>

definition body_size :: "runtime \<Rightarrow> members list \<Rightarrow> nat" where
  "body_size R b = EMPTY_BATCH_BYTES + sum_list (map (event_size R) b) + (length b - 1)"

lemma length_join: "length (join ss) = sum_list (map length ss) + (length ss - 1)"
  by (induction ss rule: join.induct) simp_all

lemma length_batch: "length (dumps R (batch_json b)) = body_size R b"
proof -
  have "length (dumps R (batch_json b)) = 13 + length (join (map (dumps R) (map JObj b)))"
    by (simp add: batch_json_def dump_string_def escape_char_def char_in_def code_def)
  then show ?thesis
    by (simp only: length_join body_size_def EMPTY_BATCH_BYTES_def event_size_def [abs_def] map_map comp_def length_map add.assoc)
qed

lemma body_size_snoc: "b \<noteq> [] \<Longrightarrow> body_size R (b @ [e]) = body_size R b + event_size R e + 1"
  by (cases b) (simp_all add: body_size_def)

lemma fill_spec:
  assumes "fill R limit batch bytes queue = Some (b, q)"
    and "bytes = body_size R batch" "length batch \<le> limit" "batch \<noteq> [] \<Longrightarrow> body_size R batch \<le> cap" "BATCH_BYTES \<le> cap"
    and "\<And>e. e \<in> set queue \<Longrightarrow> body_size R [e] \<le> cap"
  shows "\<exists>taken. b = batch @ taken \<and> queue = taken @ q \<and> length b \<le> limit \<and> (b \<noteq> [] \<longrightarrow> body_size R b \<le> cap)"
  using assms
proof (induction R limit batch bytes queue rule: fill.induct)
  case (2 R limit batch bytes e queue)
  show ?case
  proof (cases "\<not> length batch < limit \<or>
      batch \<noteq> [] \<and> BATCH_BYTES < bytes + (event_size R e + (if batch = [] then 0 else 1))")
    case True
    then show ?thesis using 2 by (auto simp: Let_def split: if_splits)
  next
    case False
    let ?addition = "event_size R e + (if batch = [] then 0 else 1)"
    have size: "bytes + ?addition = body_size R (batch @ [e])"
      using 2(3) by (cases "batch = []") (simp_all add: body_size_snoc, simp add: body_size_def)
    have cap: "body_size R (batch @ [e]) \<le> cap"
      using False 2(6) 2(7) [of e] size by (cases "batch = []") auto
    have "fill R limit (batch @ [e]) (bytes + ?addition) queue = Some (b, q)"
      using 2(2) False by (auto simp: Let_def)
    from 2(1) [OF _ refl _ this size _ cap 2(6)] obtain taken
      where "b = (batch @ [e]) @ taken" "queue = taken @ q" "length b \<le> limit" "b \<noteq> [] \<longrightarrow> body_size R b \<le> cap"
      using False 2(7) by auto
    then show ?thesis by auto
  qed
qed (auto split: if_splits)

lemma fill_total:
  "limit \<le> length batch + length queue \<Longrightarrow> \<exists>r. fill R limit batch bytes queue = Some r"
  by (induction R limit batch bytes queue rule: fill.induct) (auto simp: Let_def)

lemma next_batch_total: "remaining \<le> length queue \<Longrightarrow> \<exists>b q. next_batch R remaining queue = Some (b, q)"
  using fill_total [of "min BATCH_EVENTS remaining" "[]" queue] by (simp add: next_batch_def)

lemma next_batch_spec:
  assumes "next_batch R remaining queue = Some (b, q)"
    and "\<And>e. e \<in> set queue \<Longrightarrow> body_size R [e] \<le> cap" "BATCH_BYTES \<le> cap"
  shows "queue = b @ q" "length b \<le> BATCH_EVENTS" "length b \<le> remaining" "b \<noteq> [] \<Longrightarrow> body_size R b \<le> cap"
proof -
  have "EMPTY_BATCH_BYTES = body_size R []" by (simp add: body_size_def)
  with fill_spec [of R "min BATCH_EVENTS remaining" "[]" EMPTY_BATCH_BYTES queue b q cap] assms
  have "b @ q = queue \<and> length b \<le> min BATCH_EVENTS remaining \<and> (b \<noteq> [] \<longrightarrow> body_size R b \<le> cap)"
    unfolding next_batch_def by auto
  then show "queue = b @ q" "length b \<le> BATCH_EVENTS" "length b \<le> remaining" "b \<noteq> [] \<Longrightarrow> body_size R b \<le> cap"
    by auto
qed

lemma next_batch_split:
  assumes "next_batch R remaining queue = Some (b, q)"
  shows "queue = b @ q" "length b \<le> BATCH_EVENTS" "length b \<le> remaining"
proof -
  define cap where "cap = Max (insert BATCH_BYTES ((\<lambda>e. body_size R [e]) ` set queue))"
  have "body_size R [e] \<le> cap" if "e \<in> set queue" for e using that by (simp add: cap_def)
  moreover have "BATCH_BYTES \<le> cap" by (simp add: cap_def)
  ultimately show "queue = b @ q" "length b \<le> BATCH_EVENTS" "length b \<le> remaining"
    using next_batch_spec [OF assms] by blast+
qed

subsection \<open>Accounting\<close>

definition accounted :: "client \<Rightarrow> nat" where
  "accounted c = cl_sent c + cl_dropped c + length (cl_queue c)"

lemma emit_accounted: "accounted (snd (emit R v c)) = accounted c + 1"
  by (auto simp: emit_def accounted_def drop_events_def split: option.split)

lemma observe_accounted: "accounted (snd (observe R fresh now ob elapsed b c)) = accounted c + 1"
proof -
  have "accounted (drop_events 1 c) = accounted c + 1" by (simp add: accounted_def drop_events_def)
  then show ?thesis by (auto simp: observe_def Let_def split_def emit_accounted split: option.split)
qed

lemma deliver_effect:
  assumes "deliver R loads server batch c s = (r, c', s')"
  shows "cl_queue c' = cl_queue c" "cl_raises c' = cl_raises c" "cl_capacity c' = cl_capacity c"
    "cl_enqueued c' = cl_enqueued c" "accounted c' = accounted c + length batch"
    "cl_sent c' = cl_sent c + (if isl r then 0 else length batch)" "\<And>n. r = Inr n \<Longrightarrow> n = length batch"
    "r \<noteq> Inl Index_Error"
proof -
  have "fst (send_request loads server n p s) \<noteq> Inl Index_Error" for n p
  proof (induction n arbitrary: s)
    case 0
    show ?case by (auto simp: send_request.simps [of _ _ 0] Let_def split_def read_reply_def
          split: response.split option.split json.split)
  next
    case (Suc n)
    then show ?case by (auto simp: send_request.simps [of _ _ "Suc n"] Let_def split_def read_reply_def
          split: response.split option.split json.split)
  qed
  then have "r \<noteq> Inl Index_Error"
    using assms by (auto simp: deliver_def Let_def split_def split: sum.splits if_splits)
  then show "cl_queue c' = cl_queue c" "cl_raises c' = cl_raises c" "cl_capacity c' = cl_capacity c"
    "cl_enqueued c' = cl_enqueued c" "accounted c' = accounted c + length batch"
    "cl_sent c' = cl_sent c + (if isl r then 0 else length batch)" "\<And>n. r = Inr n \<Longrightarrow> n = length batch"
    "r \<noteq> Inl Index_Error"
    using assms by (auto simp: deliver_def Let_def split_def drop_events_def accounted_def split: sum.splits if_splits)
qed

lemma flush_loop_effect:
  assumes "flush_loop R loads server remaining sent c s = (r, c', s')" "remaining \<le> length (cl_queue c)"
  shows "accounted c' = accounted c \<and> cl_enqueued c' = cl_enqueued c \<and> r \<noteq> Inl Index_Error \<and>
    (\<not> cl_raises c \<longrightarrow> \<not> isl r) \<and> (\<exists>n. cl_queue c' = drop n (cl_queue c)) \<and>
    (\<forall>n. r = Inr n \<longrightarrow> cl_queue c' = drop remaining (cl_queue c) \<and> n + cl_sent c = sent + cl_sent c')"
  using assms
proof (induction R loads server remaining sent c s rule: flush_loop.induct)
  case (1 R loads server remaining sent c s)
  show ?case
  proof (cases "remaining = 0")
    case True
    with 1(3) show ?thesis by (auto simp: flush_loop.simps [of _ _ _ 0] intro: exI [of _ 0])
  next
    case False
    obtain b q where bq: "next_batch R remaining (cl_queue c) = Some (b, q)"
      using next_batch_total [OF 1(4)] by blast
    note split = next_batch_split [OF bq]
    obtain r1 c1 s1 where d: "deliver R loads server b (c\<lparr>cl_queue := q\<rparr>) s = (r1, c1, s1)" by (cases rule: prod_cases3)
    note eff = deliver_effect [OF d]
    have acc: "accounted c1 = accounted c" using eff(5) split(1) by (simp add: accounted_def)
    have rest: "remaining - length b \<le> length (cl_queue c1)" using split 1(4) by (simp add: eff(1))
    have q: "drop k (cl_queue c1) = drop (length b + k) (cl_queue c)" for k by (simp add: eff(1) split(1))
    have more: "length b + (remaining - length b) = remaining" using split(3) by simp
    have unfold: "flush_loop R loads server remaining sent c s =
        (case r1 of Inr n \<Rightarrow> flush_loop R loads server (remaining - length b) (sent + n) c1 s1
         | Inl e \<Rightarrow> if cl_raises c then (Inl e, c1, s1)
                  else flush_loop R loads server (remaining - length b) sent c1 s1)"
      using False by (subst flush_loop.simps) (simp add: bq d split: sum.split)
    show ?thesis
    proof (cases r1)
      case (Inr n)
      then have "flush_loop R loads server (remaining - length b) (sent + n) c1 s1 = (r, c', s')"
        using 1(3) unfold by simp
      from 1(2) [OF False bq refl d [symmetric] Inr refl this rest] Inr show ?thesis
        using acc eff q more by (auto simp: q)
    next
      case (Inl e)
      show ?thesis
      proof (cases "cl_raises c")
        case True
        then show ?thesis using 1(3) unfold Inl acc eff split by (auto intro: exI [of _ "length b"])
      next
        case drop: False
        then have "flush_loop R loads server (remaining - length b) sent c1 s1 = (r, c', s')"
          using 1(3) unfold Inl by simp
        from 1(1) [OF False bq refl d [symmetric] Inl refl drop this rest] Inl show ?thesis
          using acc eff q more drop by auto
      qed
    qed
  qed
qed

subsection \<open>Requests\<close>

text \<open>A server that answers by any rule and records the exchanges.\<close>

definition logged ::
    "((string \<times> response) list \<Rightarrow> string \<Rightarrow> response) \<Rightarrow> (string \<times> response) list \<Rightarrow> string \<Rightarrow> response \<times> (string \<times> response) list" where
  "logged answer l p = (answer l p, l @ [(p, answer l p)])"

lemma send_request_logged:
  assumes "send_request loads (logged answer) left p l = (r, k, l')"
  shows "\<exists>rs. l' = l @ map (Pair p) rs \<and> length rs = Suc k \<and> k \<le> left \<and> set (butlast rs) \<subseteq> {Status 429, Status 503}"
  using assms
proof (induction left arbitrary: l r k l')
  case 0
  then show ?case
    by (auto simp: send_request.simps [of _ _ 0] logged_def split: response.splits intro!: exI [of _ "[_]"])
next
  case (Suc left)
  let ?x = "answer l p"
  show ?case
  proof (cases "?x \<in> {Status 429, Status 503}")
    case True
    then obtain r2 k2 l2 where rec: "send_request loads (logged answer) left p (l @ [(p, ?x)]) = (r2, k2, l2)"
      and k: "k = Suc k2" "l' = l2"
      using Suc.prems by (cases "send_request loads (logged answer) left p (l @ [(p, ?x)])")
        (auto simp: send_request.simps [of _ _ "Suc left"] logged_def [of answer l p])
    from Suc.IH [OF rec] obtain rs where rs: "l2 = (l @ [(p, ?x)]) @ map (Pair p) rs" "length rs = Suc k2" "k2 \<le> left"
      "set (butlast rs) \<subseteq> {Status 429, Status 503}" by blast
    then have "rs \<noteq> []" by auto
    with rs True k show ?thesis by (intro exI [of _ "?x # rs"]) auto
  next
    case False
    then have "k = 0 \<and> l' = l @ [(p, ?x)]"
      using Suc.prems
      by (auto simp: send_request.simps [of _ _ "Suc left"] logged_def [of answer l p] split: response.splits if_splits)
    then show ?thesis by (intro exI [of _ "[?x]"]) auto
  qed
qed

lemma deliver_logged:
  assumes "deliver R loads (logged answer) b c l = (r, c', l')"
  shows "\<exists>rs. l' = l @ map (Pair (dumps R (batch_json b))) rs"
proof -
  obtain r1 k l1 where "send_request loads (logged answer) (cl_max_retries c) (dumps R (batch_json b)) l = (r1, k, l1)"
    by (cases rule: prod_cases3)
  with send_request_logged [OF this] assms show ?thesis
    by (auto simp: deliver_def Let_def split: sum.splits if_splits)
qed

text \<open>Every recorded request of a flush is a batch of queued events within the bound.\<close>

definition batch_request :: "runtime \<Rightarrow> nat \<Rightarrow> members set \<Rightarrow> string \<Rightarrow> bool" where
  "batch_request R cap events p \<longleftrightarrow>
     (\<exists>b. p = dumps R (batch_json b) \<and> b \<noteq> [] \<and> length b \<le> BATCH_EVENTS \<and> set b \<subseteq> events \<and> length p \<le> cap)"

lemma flush_loop_logged:
  assumes "flush_loop R loads (logged answer) remaining sent c l = (r, c', l')" "remaining \<le> length (cl_queue c)"
    and "set (cl_queue c) \<subseteq> events" "\<And>e. e \<in> events \<Longrightarrow> body_size R [e] \<le> cap" "BATCH_BYTES \<le> cap"
    and "\<forall>x \<in> set l. batch_request R cap events (fst x)"
  shows "\<forall>x \<in> set l'. batch_request R cap events (fst x)"
  using assms
proof (induction R loads "logged answer" remaining sent c l rule: flush_loop.induct)
  case (1 R loads remaining sent c l)
  show ?case
  proof (cases "remaining = 0")
    case True
    with 1(3,8) show ?thesis by (simp add: flush_loop.simps [of _ _ _ 0])
  next
    case False
    obtain b q where bq: "next_batch R remaining (cl_queue c) = Some (b, q)"
      using next_batch_total [OF 1(4)] by blast
    obtain r1 c1 l1 where d: "deliver R loads (logged answer) b (c\<lparr>cl_queue := q\<rparr>) l = (r1, c1, l1)"
      by (cases rule: prod_cases3)
    have size: "body_size R [e] \<le> cap" if "e \<in> set (cl_queue c)" for e using that 1(5,6) by auto
    note spec = next_batch_spec [OF bq size 1(7)]
    have b: "b \<noteq> []" by (rule next_batch_nonempty [OF bq]) (use False in simp)
    have queue: "cl_queue c1 = q" using deliver_effect(1) [OF d] by simp
    have sub: "set (cl_queue c1) \<subseteq> events" "set b \<subseteq> events" using spec(1) 1(5) by (auto simp: queue)
    have rest: "remaining - length b \<le> length (cl_queue c1)" using spec(1,3) 1(4) by (simp add: queue)
    have "batch_request R cap events (dumps R (batch_json b))"
      unfolding batch_request_def using b spec(2,4) sub(2) by (intro exI [of _ b]) (simp add: length_batch)
    then have log1: "\<forall>x \<in> set l1. batch_request R cap events (fst x)"
      using deliver_logged [OF d] 1(8) by auto
    have unfold: "flush_loop R loads (logged answer) remaining sent c l =
        (case r1 of Inr n \<Rightarrow> flush_loop R loads (logged answer) (remaining - length b) (sent + n) c1 l1
         | Inl e \<Rightarrow> if cl_raises c then (Inl e, c1, l1)
                  else flush_loop R loads (logged answer) (remaining - length b) sent c1 l1)"
      using False by (subst flush_loop.simps) (simp add: bq d split: sum.split)
    show ?thesis
    proof (cases r1)
      case (Inr n)
      then have "flush_loop R loads (logged answer) (remaining - length b) (sent + n) c1 l1 = (r, c', l')"
        using 1(3) unfold by simp
      from 1(2) [OF False bq refl d [symmetric] Inr refl this rest sub(1) 1(6,7) log1] show ?thesis by blast
    next
      case (Inl e)
      show ?thesis
      proof (cases "cl_raises c")
        case True
        then show ?thesis using 1(3) unfold Inl log1 by simp
      next
        case drop: False
        then have "flush_loop R loads (logged answer) (remaining - length b) sent c1 l1 = (r, c', l')"
          using 1(3) unfold Inl by simp
        from 1(1) [OF False bq refl d [symmetric] Inl refl drop this rest sub(1) 1(6,7) log1] show ?thesis by blast
      qed
    qed
  qed
qed

subsection \<open>Size and shape of validated events\<close>

definition short_floats :: "runtime \<Rightarrow> bool" where
  "short_floats R \<longleftrightarrow> (\<forall>x. length (float_repr R x) \<le> 32)"

lemma length_escape: "length (escape_char c) \<le> 6"
  by (simp add: escape_char_def)

lemma length_dump_string: "length (dump_string s) \<le> 6 * length s + 2"
proof -
  have "length (concat (map escape_char s)) \<le> 6 * length s"
    by (induction s) (use length_escape in \<open>auto intro: add_mono\<close>)
  then show ?thesis by (simp add: dump_string_def)
qed

lemma length_show_nat: "n < 10 ^ Suc k \<Longrightarrow> length (show_nat n) \<le> Suc k"
proof (induction k arbitrary: n)
  case 0
  then show ?case by (subst show_nat.simps) simp
next
  case (Suc k)
  then have "length (show_nat (n div 10)) \<le> Suc k" by (intro Suc.IH) (simp add: less_mult_imp_div_less)
  then show ?case by (subst show_nat.simps) simp
qed

lemma short_string: "length s \<le> 64 \<Longrightarrow> length (dumps R (JStr s)) \<le> 400 \<and> nesting (JStr s) = 0"
  using length_dump_string [of s] by simp

lemma short_counter: "counter_json m v \<Longrightarrow> m \<le> 10 ^ 9 \<Longrightarrow> length (dumps R v) \<le> 400 \<and> nesting v = 0"
proof (cases v)
  case (JInt i)
  moreover assume "counter_json m v" "m \<le> 10 ^ 9"
  ultimately have "nat i < 10 ^ Suc 9" "0 \<le> i" by (auto simp: counter_json_def)
  with length_show_nat [OF this(1)] JInt show ?thesis by (simp add: show_int_def)
qed (simp_all add: counter_json_def)

lemma short_latency: "latency_json v \<Longrightarrow> short_floats R \<Longrightarrow> length (dumps R v) \<le> 400 \<and> nesting v = 0"
proof (cases v)
  case (JInt i)
  moreover assume "latency_json v"
  ultimately have "counter_json (10 ^ 9) v" by (simp add: latency_json_def counter_json_def)
  then show ?thesis by (rule short_counter) simp
qed (auto simp: latency_json_def short_floats_def intro: order_trans)

lemma identifier_short: "identifier_ok s \<Longrightarrow> length s \<le> 64"
  by (auto simp: identifier_ok_def split: list.splits)

lemma FIELDS_cases:
  assumes "k \<in> set FIELDS"
  obtains "k \<in> set IDENTIFIERS" | m where "(k, m) \<in> set COUNTERS"
  | "k \<in> {''schema_version'', ''event_id'', ''timestamp'', ''operation'', ''outcome'', ''failure_type'', ''latency_ms'', ''synthetic''}"
proof -
  have "set REQUIRED \<subseteq> {''schema_version'', ''event_id'', ''timestamp'', ''operation'', ''outcome''} \<union> set IDENTIFIERS"
    by (simp add: REQUIRED_def IDENTIFIERS_def)
  then show ?thesis using assms that unfolding FIELDS_def by fastforce
qed

lemma str_in_short: "str_in xs v \<Longrightarrow> \<forall>s \<in> set xs. length s \<le> 64 \<Longrightarrow> length (dumps R v) \<le> 400 \<and> nesting v = 0"
  by (cases v) (simp_all add: str_in_def short_string del: dumps.simps)

lemma name_lengths: "\<forall>s \<in> set OPERATIONS. length s \<le> 64" "\<forall>s \<in> set FAILURE_TYPES. length s \<le> 64"
  by (simp_all add: OPERATIONS_def FAILURE_TYPES_def)

lemma sdk_valid_required_fields:
  assumes "sdk_valid ms"
  shows "map_of ms ''schema_version'' = Some (JStr ''1.0'')"
    "\<exists>s. map_of ms ''event_id'' = Some (JStr s) \<and> event_id_ok s"
    "\<exists>us. map_of ms ''timestamp'' = Some (JStr (isoformat us))"
    "map_of ms ''outcome'' = Some (JStr ''success'') \<or> map_of ms ''outcome'' = Some (JStr ''failure'')"
  using assms unfolding sdk_valid_def by blast+

lemma required_short:
  assumes "sdk_valid ms" "map_of ms k = Some v" "k \<in> {''schema_version'', ''event_id'', ''timestamp'', ''outcome''}"
  shows "length (dumps R v) \<le> 400 \<and> nesting v = 0"
proof -
  consider "k = ''schema_version''" | "k = ''event_id''" | "k = ''timestamp''" | "k = ''outcome''"
    using assms(3) unfolding insert_iff empty_iff by argo
  then obtain s where "v = JStr s" "length s \<le> 64"
  proof cases
    case 1
    then have "v = JStr ''1.0''" using sdk_valid_required_fields(1) [OF assms(1)] assms(2) by simp
    then show ?thesis by (rule that) simp
  next
    case 2
    then obtain s where "v = JStr s" "length s = 36"
      using sdk_valid_required_fields(2) [OF assms(1)] assms(2) by (auto simp: event_id_ok_def)
    then show ?thesis by (intro that [of s]) simp_all
  next
    case 3
    then obtain us where "v = JStr (isoformat us)" 
      using sdk_valid_required_fields(3) [OF assms(1)] assms(2) by auto
    moreover have "length (isoformat us) \<le> 64" using isoformat_shape(1) [of us] by linarith
    ultimately show ?thesis by (rule that)
  next
    case 4
    then have "v = JStr ''success'' \<or> v = JStr ''failure''" 
      using sdk_valid_required_fields(4) [OF assms(1)] assms(2) by auto
    then show ?thesis by (elim disjE) (rule that, assumption, simp)+
  qed
  with short_string [OF this(2)] show ?thesis by simp
qed

lemma member_short:
  assumes "sdk_valid ms" "short_floats R" "map_of ms k = Some v"
  shows "length (dumps R v) \<le> 400 \<and> nesting v = 0"
proof -
  have "k \<in> set FIELDS" using assms(1,3) by (auto simp: sdk_valid_def list_all_iff dest!: map_of_SomeD)
  then show ?thesis
  proof (cases rule: FIELDS_cases)
    case 1
    then have "identifier_json v" using sdk_valid_identifier [OF assms(1) 1] assms(3) by (simp add: checked_def)
    then obtain s where "v = JStr s" "identifier_ok s" by (auto simp: identifier_json_def split: json.splits)
    then show ?thesis by (simp only: short_string identifier_short)
  next
    case (2 m)
    then have "checked ms k (counter_json m)" using assms(1) by (auto simp: sdk_valid_def list_all_iff)
    then have "counter_json m v" using assms(3) by (simp add: checked_def)
    moreover have "m \<le> 10 ^ 9" using 2 by (auto simp: COUNTERS_def)
    ultimately show ?thesis by (rule short_counter)
  next
    case 3
    have checks: "checked ms ''operation'' (str_in OPERATIONS)" "failure_checked ms" "checked ms ''latency_ms'' latency_json"
      "checked ms ''synthetic'' (\<lambda>v. json_bool v \<noteq> None)" using assms(1) by (simp_all add: sdk_valid_def)
    consider "k \<in> {''schema_version'', ''event_id'', ''timestamp'', ''outcome''}" | "k = ''operation''" | "k = ''failure_type''"
      | "k = ''latency_ms''" | "k = ''synthetic''" using 3 unfolding insert_iff empty_iff by argo
    then show ?thesis
    proof cases
      case 1
      with assms(1,3) show ?thesis by (rule required_short)
    next
      case 2
      then show ?thesis using checks(1) assms(3) by (intro str_in_short [OF _ name_lengths(1)]) (simp add: checked_def)
    next
      case 3
      then have "str_in FAILURE_TYPES v \<or> v = JNull"
        using checks(2) assms(3) by (simp add: failure_checked_def split: if_splits)
      then show ?thesis using str_in_short [OF _ name_lengths(2)] by auto
    next
      case 4
      then have "latency_json v" using checks(3) assms(3) by (simp add: checked_def)
      then show ?thesis using assms(2) by (rule short_latency)
    next
      case 5
      then show ?thesis using checks(4) assms(3) by (cases v) (simp_all add: checked_def json_bool_def)
    qed
  qed
qed

lemma name_length: "k \<in> set FIELDS \<Longrightarrow> length k \<le> 17"
proof -
  have "\<forall>k \<in> set FIELDS. length k \<le> 17"
    by (simp add: FIELDS_def REQUIRED_def IDENTIFIERS_def COUNTERS_def)
  then show "k \<in> set FIELDS \<Longrightarrow> length k \<le> 17" by blast
qed

definition queued_ok :: "members \<Rightarrow> bool" where
  "queued_ok ms \<longleftrightarrow> sdk_valid ms \<and> dict_ok ms"

lemma queued_ok_fields: "queued_ok ms \<Longrightarrow> set (keys ms) \<subseteq> set FIELDS"
proof -
  assume "queued_ok ms"
  then have "list_all (\<lambda>k. k \<in> set FIELDS) (keys ms)" unfolding queued_ok_def sdk_valid_def by blast
  then show ?thesis unfolding list_all_iff by blast
qed

lemma event_size_bound:
  assumes "queued_ok ms" "short_floats R"
  shows "event_size R ms \<le> 20000"
proof -
  let ?f = "\<lambda>p. dump_string (fst p) @ CHR '':'' # dumps R (snd p)"
  have part: "length (?f p) \<le> 505" if "p \<in> set ms" for p
  proof -
    have "map_of ms (fst p) = Some (snd p)" using that assms(1) by (simp add: queued_ok_def)
    with member_short assms have "length (dumps R (snd p)) \<le> 400" unfolding queued_ok_def by blast
    moreover have "fst p \<in> set FIELDS" using queued_ok_fields [OF assms(1)] imageI [OF that, of fst] by auto
    then have "length (dump_string (fst p)) \<le> 104" using length_dump_string [of "fst p"] name_length [of "fst p"] by linarith
    ultimately show ?thesis by simp
  qed
  have "card (set (keys ms)) \<le> length FIELDS" 
    using card_mono [OF _ queued_ok_fields [OF assms(1)]] card_length [of FIELDS] by simp
  moreover have "card (set (keys ms)) = length ms" using assms(1) distinct_card [of "keys ms"] by (simp add: queued_ok_def)
  moreover have "length FIELDS = 26" by (simp add: FIELDS_def REQUIRED_def IDENTIFIERS_def COUNTERS_def)
  ultimately have n: "length ms \<le> 26" by simp
  have "event_size R ms = 2 + (sum_list (map (\<lambda>p. length (?f p)) ms) + (length ms - 1))"
    by (simp add: event_size_def length_join split_def comp_def)
  also have "\<dots> \<le> 2 + (length ms * 505 + (length ms - 1))" using sum_list_bound [of ms "\<lambda>p. length (?f p)" 505] part by simp
  also have "\<dots> \<le> 20000" using n by simp
  finally show ?thesis .
qed

lemma single_body_size: "queued_ok ms \<Longrightarrow> short_floats R \<Longrightarrow> body_size R [ms] \<le> BATCH_BYTES"
  using event_size_bound [of ms R] by (simp add: body_size_def EMPTY_BATCH_BYTES_def BATCH_BYTES_def)

lemma fold_max_le: "fold max ns m \<le> (n::nat) \<longleftrightarrow> m \<le> n \<and> (\<forall>x \<in> set ns. x \<le> n)"
  by (induction ns arbitrary: m) auto

lemma batch_nesting:
  assumes "\<And>ms. ms \<in> set b \<Longrightarrow> queued_ok ms" "short_floats R"
  shows "nesting (batch_json b) \<le> 3"
proof -
  have "nesting (JObj ms) \<le> 1" if "ms \<in> set b" for ms
  proof -
    have "nesting (snd p) = 0" if "p \<in> set ms" for p
    proof -
      have "map_of ms (fst p) = Some (snd p)" using that assms(1) [OF \<open>ms \<in> set b\<close>] by (simp add: queued_ok_def)
      with member_short assms(1) [OF \<open>ms \<in> set b\<close>] assms(2) show ?thesis unfolding queued_ok_def by blast
    qed
    then have "fold max (map (\<lambda>p. nesting (snd p)) ms) 0 \<le> 0" unfolding fold_max_le by auto
    then show ?thesis by simp
  qed
  then show ?thesis by (simp add: batch_json_def fold_max_le)
qed

lemma batch_validates:
  assumes "\<And>ms. ms \<in> set b \<Longrightarrow> queued_ok ms" "b \<noteq> []" "length b \<le> BATCH_EVENTS" "iso_inverse R"
  shows "\<exists>es. batch_of_json R (batch_json b) = Some es"
proof -
  have "\<exists>y. event_of_json R (JObj ms) = Some y" if "ms \<in> set b" for ms
    using sdk_valid_accepted [of ms R] assms(1) [OF that] assms(4) by (auto simp: queued_ok_def)
  then have "\<exists>es. those (map (\<lambda>ms. event_of_json R (JObj ms)) b) = Some es" by (rule those_map)
  moreover have "1 \<le> length b" using assms(2) by (cases b) auto
  ultimately show ?thesis
    using assms(3) by (simp add: batch_of_json_def batch_json_def field_def comp_def BATCH_EVENTS_def)
qed

text \<open>A request body that the server's size limit, nesting limit and validation all accept.\<close>

definition acceptable :: "runtime \<Rightarrow> string \<Rightarrow> bool" where
  "acceptable R p \<longleftrightarrow> (\<exists>b es. p = dumps R (batch_json b) \<and> length p \<le> BATCH_BYTES \<and> shallow 0 False False p \<and>
     batch_of_json R (batch_json b) = Some es)"

lemma flush_acceptable:
  assumes "flush R loads (logged answer) c [] = (r, c', l)" "\<And>ms. ms \<in> set (cl_queue c) \<Longrightarrow> queued_ok ms"
    and "short_floats R" "float_plain R" "iso_inverse R" "x \<in> set l"
  shows "acceptable R (fst x)"
proof -
  have "\<forall>x \<in> set l. batch_request R BATCH_BYTES (set (cl_queue c)) (fst x)"
    by (rule flush_loop_logged [OF assms(1) [unfolded flush_def] order_refl subset_refl _ order_refl])
      (simp_all add: single_body_size assms(2,3))
  then obtain b where b: "fst x = dumps R (batch_json b)" "b \<noteq> []" "length b \<le> BATCH_EVENTS" "set b \<subseteq> set (cl_queue c)"
    "length (fst x) \<le> BATCH_BYTES" using assms(6) unfolding batch_request_def by blast
  have q: "queued_ok ms" if "ms \<in> set b" for ms using that b(4) assms(2) by blast
  obtain es where es: "batch_of_json R (batch_json b) = Some es" using batch_validates [OF q b(2,3) assms(5)] by blast
  have "nesting (batch_json b) \<le> 3" by (rule batch_nesting [OF q assms(3)])
  then have "shallow 0 False False (fst x)" by (simp add: b(1) shallow_dumps [OF assms(4)])
  with es b(1,5) show ?thesis unfolding acceptable_def by blast
qed

subsection \<open>The queue\<close>

definition client_ok :: "client \<Rightarrow> bool" where
  "client_ok c \<longleftrightarrow> length (cl_queue c) \<le> cl_capacity c \<and> list_all queued_ok (cl_queue c)"

lemma validate_event_dict: "validate_event R (JObj ms) = Some ms' \<Longrightarrow> dict_ok ms \<Longrightarrow> dict_ok ms'"
  by (auto simp: validate_event_def Let_def bind_eq_Some_conv split: if_splits)

lemma emit_ok:
  assumes "client_ok c" "\<And>ms. v = JObj ms \<Longrightarrow> dict_ok ms"
  shows "client_ok (snd (emit R v c))"
proof (cases "validate_event R v")
  case (Some ms)
  then obtain ms0 where "v = JObj ms0" by (auto simp: validate_event_def split: json.splits)
  then have "queued_ok ms" using Some validate_event_valid validate_event_dict assms(2) unfolding queued_ok_def by blast
  then show ?thesis using assms(1) Some by (simp add: emit_def client_ok_def drop_events_def)
qed (use assms(1) in \<open>simp add: emit_def client_ok_def drop_events_def\<close>)

end
