(* ===== verification/Base58.thy ===== *)
theory Base58
  imports Json
begin

text \<open>
  The text encodings of \<open>solana_attest.py\<close>: Base58 with its canonical decoding, and Base64 as Python's
  \<open>base64\<close> encodes it, with the canonical decoding on top.  A byte is a \<open>char\<close>; a rejection carries the public
  code of the \<open>AttestationError\<close>.
\<close>

definition BASE58 :: string where
  "BASE58 = ''123456789ABCDEFGHJKLMNPQRSTUVWXYZabcdefghijkmnopqrstuvwxyz''"

definition byte :: "nat \<Rightarrow> char" where
  "byte n = char_of n"

text \<open>\<open>int.from_bytes(value, "big")\<close> and \<open>number.to_bytes((number.bit_length() + 7) // 8, "big")\<close>.\<close>

definition from_bytes :: "string \<Rightarrow> nat" where
  "from_bytes bs = foldl (\<lambda>n b. 256 * n + code b) 0 bs"

fun to_bytes :: "nat \<Rightarrow> string" where
  "to_bytes n = (if n = 0 then [] else to_bytes (n div 256) @ [byte (n mod 256)])"

declare to_bytes.simps [simp del]

text \<open>\<open>len(value) - len(value.lstrip(c))\<close>.\<close>

definition leading :: "char \<Rightarrow> string \<Rightarrow> nat" where
  "leading c s = length (takeWhile (\<lambda>x. x = c) s)"

subsection \<open>Base58\<close>

fun encode_digits :: "nat \<Rightarrow> string \<Rightarrow> string" where
  "encode_digits n encoded = (if n = 0 then encoded else encode_digits (n div 58) (BASE58 ! (n mod 58) # encoded))"

declare encode_digits.simps [simp del]

definition encode58 :: "string \<Rightarrow> string" where
  "encode58 value = replicate (leading (byte 0) value) (CHR ''1'') @ encode_digits (from_bytes value) []"

text \<open>\<open>_BASE58_VALUES.get(character)\<close>.\<close>

definition digit58 :: "char \<Rightarrow> nat option" where
  "digit58 c = map_of (zip BASE58 [0..<58]) c"

fun decode_digits :: "string \<Rightarrow> nat \<Rightarrow> nat option" where
  "decode_digits [] n = Some n"
| "decode_digits (c # cs) n =
     (case digit58 c of None \<Rightarrow> None | Some d \<Rightarrow> decode_digits cs (n * 58 + d))"

definition decode58 :: "string \<Rightarrow> nat \<Rightarrow> string + string" where
  "decode58 value size_bytes =
     (if \<not> (1 \<le> length value \<and> length value \<le> (if size_bytes = 64 then 88 else 44)) then Inl ''invalid_base58''
      else case decode_digits value 0 of
        None \<Rightarrow> Inl ''invalid_base58''
      | Some n \<Rightarrow>
          (let decoded = replicate (leading (CHR ''1'') value) (byte 0) @ (if n \<noteq> 0 then to_bytes n else [])
           in if length decoded \<noteq> size_bytes \<or> encode58 decoded \<noteq> value then Inl ''invalid_base58'' else Inr decoded))"

subsection \<open>Base64\<close>

definition BASE64 :: string where
  "BASE64 = ''ABCDEFGHIJKLMNOPQRSTUVWXYZabcdefghijklmnopqrstuvwxyz0123456789+/''"

definition digit64 :: "char \<Rightarrow> nat option" where
  "digit64 c = map_of (zip BASE64 [0..<64]) c"

fun b64encode :: "string \<Rightarrow> string" where
  "b64encode (a # b # c # rest) =
     (let n = code a * 65536 + code b * 256 + code c
      in [BASE64 ! (n div 262144), BASE64 ! (n div 4096 mod 64), BASE64 ! (n div 64 mod 64), BASE64 ! (n mod 64)]
         @ b64encode rest)"
| "b64encode [a, b] =
     (let n = (code a * 256 + code b) * 4
      in [BASE64 ! (n div 4096), BASE64 ! (n div 64 mod 64), BASE64 ! (n mod 64), CHR ''='']) "
| "b64encode [a] =
     (let n = code a * 16 in [BASE64 ! (n div 64), BASE64 ! (n mod 64), CHR ''='', CHR ''=''])"
| "b64encode [] = []"

text \<open>
  \<open>b64decode(value, validate=True)\<close> on whole groups of four; other texts it may accept are not the canonical
  encoding of what it returns, and \<open>decode64\<close> refuses them either way.
\<close>

fun b64decode :: "string \<Rightarrow> string option" where
  "b64decode [] = Some []"
| "b64decode (p # q # r # s # rest) =
     (if s = CHR ''='' then
        (if rest \<noteq> [] then None
         else case (digit64 p, digit64 q, if r = CHR ''='' then Some 0 else digit64 r) of
           (Some a, Some b, Some c) \<Rightarrow>
             Some (if r = CHR ''='' then [byte ((a * 64 + b) div 16)]
                   else [byte ((a * 4096 + b * 64 + c) div 1024), byte ((a * 4096 + b * 64 + c) div 4 mod 256)])
         | _ \<Rightarrow> None)
      else case (digit64 p, digit64 q, digit64 r, digit64 s, b64decode rest) of
        (Some a, Some b, Some c, Some d, Some bs) \<Rightarrow>
          (let n = a * 262144 + b * 4096 + c * 64 + d
           in Some ([byte (n div 65536), byte (n div 256 mod 256), byte (n mod 256)] @ bs))
      | _ \<Rightarrow> None)"
| "b64decode _ = None"

definition decode64 :: "string \<Rightarrow> nat \<Rightarrow> string + string" where
  "decode64 value limit =
     (if 4 * ((limit + 2) div 3) < length value then Inl ''invalid_base64''
      else case b64decode value of
        None \<Rightarrow> Inl ''invalid_base64''
      | Some decoded \<Rightarrow>
          if limit < length decoded \<or> b64encode decoded \<noteq> value then Inl ''invalid_base64'' else Inr decoded)"

subsection \<open>Numbers and bytes\<close>

lemma code_byte [simp]: "n < 256 \<Longrightarrow> code (byte n) = n"
  by (simp add: code_def byte_def)

lemma byte_code [simp]: "byte (code c) = c"
  by (simp add: code_def byte_def)

lemma code_bound: "code c < 256"
  by (simp add: code_def)

lemma from_bytes_snoc: "from_bytes (bs @ [b]) = 256 * from_bytes bs + code b"
  by (simp add: from_bytes_def)

lemma from_bytes_bound: "from_bytes bs < 256 ^ length bs"
proof (induction bs rule: rev_induct)
  case (snoc b bs)
  then have "from_bytes bs + 1 \<le> 256 ^ length bs" by simp
  then show ?case using code_bound [of b] by (simp add: from_bytes_snoc)
qed (simp add: from_bytes_def)

lemma from_bytes_zeros: "from_bytes (replicate z (byte 0) @ bs) = from_bytes bs"
  by (induction z) (simp_all add: from_bytes_def)

lemma to_bytes_snoc: "from_bytes bs \<noteq> 0 \<Longrightarrow> to_bytes (from_bytes (bs @ [b])) = to_bytes (from_bytes bs) @ [b]"
  using code_bound [of b] by (subst to_bytes.simps) (simp add: from_bytes_snoc)

lemma to_bytes_from_bytes: "bs = [] \<or> hd bs \<noteq> byte 0 \<Longrightarrow> to_bytes (from_bytes bs) = bs \<and> (from_bytes bs = 0 \<longleftrightarrow> bs = [])"
proof (induction bs rule: rev_induct)
  case Nil
  then show ?case by (simp add: from_bytes_def to_bytes.simps)
next
  case (snoc b bs)
  show ?case
  proof (cases "bs = []")
    case True
    then have "code b \<noteq> 0" using snoc.prems by (metis append_Nil byte_code list.sel(1) snoc_eq_iff_butlast)
    then show ?thesis using code_bound [of b]
      by (simp add: True from_bytes_def to_bytes.simps [of "code b"] to_bytes.simps [of 0])
  next
    case False
    with snoc have "to_bytes (from_bytes bs) = bs" "from_bytes bs \<noteq> 0" by (simp_all add: hd_append)
    then show ?thesis using to_bytes_snoc [of bs b] by (simp add: from_bytes_snoc)
  qed
qed

subsection \<open>Base58 digits\<close>

lemma BASE58_facts: "length BASE58 = 58" "distinct BASE58" "BASE58 ! 0 = CHR ''1''"
  by code_simp+

lemma digit58_nth: "d < 58 \<Longrightarrow> digit58 (BASE58 ! d) = Some d"
  unfolding digit58_def by (subst map_of_zip_nth) (simp_all add: BASE58_facts)

lemma encode_digits_append: "encode_digits n s = encode_digits n [] @ s"
proof (induction n arbitrary: s rule: less_induct)
  case (less n)
  show ?case
  proof (cases "n = 0")
    case False
    then have "n div 58 < n" by simp
    from less.IH [OF this] less.IH [OF this, of "[BASE58 ! (n mod 58)]"] show ?thesis
      using False by (metis append.assoc append_Cons append_Nil encode_digits.simps)
  qed (simp add: encode_digits.simps)
qed

lemma encode_digits_unfold:
  "encode_digits n [] = (if n = 0 then [] else encode_digits (n div 58) [] @ [BASE58 ! (n mod 58)])"
  by (subst encode_digits.simps) (simp add: encode_digits_append [of _ "[_]"])

lemma decode_digits_append: "decode_digits (xs @ ys) n = Option.bind (decode_digits xs n) (decode_digits ys)"
  by (induction xs arbitrary: n) (simp_all split: option.split)

lemma decode_encode_digits: "decode_digits (encode_digits n []) 0 = Some n"
proof (induction n rule: less_induct)
  case (less n)
  show ?case
  proof (cases "n = 0")
    case False
    then have "decode_digits (encode_digits (n div 58) []) 0 = Some (n div 58)" by (intro less) simp
    then show ?thesis using False
      by (subst encode_digits_unfold) (simp add: decode_digits_append digit58_nth)
  qed (simp add: encode_digits_unfold)
qed

lemma decode_digits_ones: "decode_digits (replicate z (CHR ''1'') @ s) 0 = decode_digits s 0"
  using digit58_nth [of 0] by (induction z) (simp_all add: BASE58_facts)

lemma hd_encode_digits: "n \<noteq> 0 \<Longrightarrow> encode_digits n [] \<noteq> [] \<and> hd (encode_digits n []) \<noteq> CHR ''1''"
proof (induction n rule: less_induct)
  case (less n)
  show ?case
  proof (cases "n div 58 = 0")
    case True
    then have "n mod 58 = n" "n < 58" by (auto simp: div_eq_0_iff)
    moreover have "BASE58 ! n \<noteq> BASE58 ! 0"
      using less.prems \<open>n < 58\<close> BASE58_facts(1,2) by (simp add: nth_eq_iff_index_eq)
    ultimately show ?thesis using True less.prems
      by (subst (1 2) encode_digits_unfold) (simp add: BASE58_facts(3) encode_digits_unfold [of 0])
  next
    case False
    then have "encode_digits (n div 58) [] \<noteq> [] \<and> hd (encode_digits (n div 58) []) \<noteq> CHR ''1''"
      using less by simp
    then show ?thesis using less.prems by (subst (1 2) encode_digits_unfold) simp
  qed
qed

lemma leading_prefix: "s = [] \<or> hd s \<noteq> c \<Longrightarrow> leading c (replicate z c @ s) = z"
  by (induction z) (cases s, auto simp: leading_def)

lemma encode_digits_length: "n < 58 ^ k \<Longrightarrow> length (encode_digits n []) \<le> k"
proof (induction k arbitrary: n)
  case 0
  then show ?case by (simp add: encode_digits_unfold)
next
  case (Suc k)
  then have "n div 58 < 58 ^ k" by (simp add: less_mult_imp_div_less)
  from Suc.IH [OF this] show ?case by (subst encode_digits_unfold) simp
qed

lemma split_zeros: "\<exists>s. bs = replicate (leading c bs) c @ s \<and> (s = [] \<or> hd s \<noteq> c)"
proof (induction bs)
  case (Cons b bs)
  then obtain s where "bs = replicate (leading c bs) c @ s" "s = [] \<or> hd s \<noteq> c" by blast
  then show ?case by (cases "b = c") (auto simp: leading_def intro: exI [of _ "b # bs"])
qed (simp add: leading_def)

lemma encode58_length:
  assumes "length bs \<in> {32, 64}"
  shows "1 \<le> length (encode58 bs) \<and> length (encode58 bs) \<le> (if length bs = 64 then 88 else 44)"
proof -
  define k :: nat where "k = (if length bs = 64 then 88 else 44)"
  obtain s where s: "bs = replicate (leading (byte 0) bs) (byte 0) @ s" "s = [] \<or> hd s \<noteq> byte 0" using split_zeros [of bs "byte 0"] by blast
  let ?z = "leading (byte 0) bs"
  have len: "?z + length s = length bs" by (metis length_append length_replicate s(1))
  have n: "from_bytes bs = from_bytes s" by (metis from_bytes_zeros s(1))
  have powers: "(256 :: nat) ^ 32 < 58 ^ 44" "(256 :: nat) ^ 64 < 58 ^ 88" by simp_all
  have k: "(256 :: nat) ^ length bs < 58 ^ k" "length bs < k" using assms powers by (auto simp: k_def simp del: power_numeral)
  have "(256 :: nat) ^ length s * 58 ^ ?z \<le> 256 ^ length s * 256 ^ ?z" by (intro mult_left_mono power_mono) simp_all
  also have "\<dots> = 256 ^ length bs" by (simp add: len [symmetric] power_add mult.commute)
  also have "\<dots> < 58 ^ k" by (rule k(1))
  also have "(58 :: nat) ^ k = 58 ^ (k - ?z) * 58 ^ ?z" using k(2) len by (metis le_add1 le_add_diff_inverse2 less_imp_le order_trans power_add)
  finally have "(256 :: nat) ^ length s < 58 ^ (k - ?z)" by simp
  then have "length (encode_digits (from_bytes bs) []) \<le> k - ?z"
    using from_bytes_bound [of s] by (intro encode_digits_length) (simp add: n)
  moreover have "encode58 bs \<noteq> []"
  proof (cases "s = []")
    case True
    then have "?z = length bs" using len by simp
    then show ?thesis using assms by (auto simp: encode58_def)
  next
    case False
    then have "from_bytes s \<noteq> 0" using to_bytes_from_bytes [OF s(2)] by simp
    then show ?thesis using hd_encode_digits [of "from_bytes s"] by (simp add: encode58_def n)
  qed
  then have "1 \<le> length (encode58 bs)" by (cases "encode58 bs") simp_all
  ultimately show ?thesis using k len by (simp add: encode58_def k_def [symmetric])
qed

lemma decode58_encode58:
  assumes "length bs = n" "n \<in> {32, 64}"
  shows "decode58 (encode58 bs) n = Inr bs"
proof -
  obtain s where s: "bs = replicate (leading (byte 0) bs) (byte 0) @ s" "s = [] \<or> hd s \<noteq> byte 0" using split_zeros [of bs "byte 0"] by blast
  let ?z = "leading (byte 0) bs"
  have n: "from_bytes bs = from_bytes s" by (metis from_bytes_zeros s(1))
  note ts = to_bytes_from_bytes [OF s(2)]
  have "decode_digits (encode58 bs) 0 = Some (from_bytes s)"
    by (simp add: encode58_def n decode_digits_ones decode_encode_digits)
  moreover have "encode_digits (from_bytes s) [] = [] \<or> hd (encode_digits (from_bytes s) []) \<noteq> CHR ''1''"
    using hd_encode_digits by (cases "from_bytes s = 0") (simp_all add: encode_digits_unfold [of 0])
  then have "leading (CHR ''1'') (encode58 bs) = ?z" by (simp add: encode58_def n leading_prefix)
  moreover have "replicate ?z (byte 0) @ (if from_bytes s \<noteq> 0 then to_bytes (from_bytes s) else []) = bs"
    using ts s(1) by auto
  ultimately show ?thesis using encode58_length [of bs] assms by (simp add: decode58_def Let_def)
qed

lemma decode58_canonical: "decode58 s n = Inr bs \<Longrightarrow> length bs = n \<and> encode58 bs = s"
  by (auto simp: decode58_def Let_def split: if_splits option.splits)

subsection \<open>Base64 groups\<close>

lemma BASE64_facts: "length BASE64 = 64" "distinct BASE64" "CHR ''='' \<notin> set BASE64"
  by code_simp+

lemma digit64_nth: "d < 64 \<Longrightarrow> digit64 (BASE64 ! d) = Some d"
  unfolding digit64_def by (subst map_of_zip_nth) (simp_all add: BASE64_facts)

lemma BASE64_not_pad: "d < 64 \<Longrightarrow> BASE64 ! d \<noteq> CHR ''=''"
  using BASE64_facts(1,3) nth_mem by metis

lemma sextets:
  fixes n :: nat
  shows "n div 4096 * 4096 + n div 64 mod 64 * 64 + n mod 64 = n"
    "n div 262144 * 262144 + n div 4096 mod 64 * 4096 + n div 64 mod 64 * 64 + n mod 64 = n"
proof -
  have n: "n div 64 * 64 + n mod 64 = n" by simp
  have m: "n div 64 = n div 4096 * 64 + n div 64 mod 64" using div_mult_mod_eq [of "n div 64" 64] by (simp flip: div_mult2_eq)
  have k: "n div 4096 = n div 262144 * 64 + n div 4096 mod 64" using div_mult_mod_eq [of "n div 4096" 64] by (simp flip: div_mult2_eq)
  show "n div 4096 * 4096 + n div 64 mod 64 * 64 + n mod 64 = n" using n m by linarith
  show "n div 262144 * 262144 + n div 4096 mod 64 * 4096 + n div 64 mod 64 * 64 + n mod 64 = n" using n m k by linarith
qed

lemma split_byte: "r < m \<Longrightarrow> (x * m + r) div m = (x :: nat)" "r < m \<Longrightarrow> (x * m + r) mod m = r"
  by simp_all

lemma octets:
  assumes "a < 256" "b < 256" "c < (256 :: nat)"
  shows "(a * 65536 + b * 256 + c) div 65536 = a" "(a * 65536 + b * 256 + c) div 256 mod 256 = b"
    "(a * 65536 + b * 256 + c) mod 256 = c"
proof -
  show "(a * 65536 + b * 256 + c) div 65536 = a" using split_byte(1) [of "b * 256 + c" 65536 a] assms by (simp add: add.assoc)
  have "a * 65536 + b * 256 + c = (a * 256 + b) * 256 + c" by simp
  then have "(a * 65536 + b * 256 + c) div 256 = a * 256 + b" "(a * 65536 + b * 256 + c) mod 256 = c"
    using split_byte [of c 256 "a * 256 + b"] assms(3) by (simp_all only:)
  then show "(a * 65536 + b * 256 + c) div 256 mod 256 = b" "(a * 65536 + b * 256 + c) mod 256 = c"
    using split_byte(2) [of b 256 a] assms(2) by (simp_all only:)
qed

lemma b64decode_encode: "b64decode (b64encode bs) = Some bs"
proof (induction bs rule: b64encode.induct)
  case (1 a b c rest)
  define n where "n = code a * 65536 + code b * 256 + code c"
  have "n < 64 * 262144" using code_bound [of a] code_bound [of b] code_bound [of c] by (simp add: n_def)
  then have d: "n div 262144 < 64" by (simp add: less_mult_imp_div_less)
  have "n div 65536 = code a" "n div 256 mod 256 = code b" "n mod 256 = code c"
    unfolding n_def by (rule octets; rule code_bound)+
  then show ?case using 1 d
    by (simp add: Let_def BASE64_not_pad digit64_nth sextets(2) flip: n_def)
next
  case (2 a b)
  define n where "n = (code a * 256 + code b) * 4"
  have "n < 64 * 4096" using code_bound [of a] code_bound [of b] by (simp add: n_def)
  then have d: "n div 4096 < 64" by (simp add: less_mult_imp_div_less)
  have quarter: "n div 4 = code a * 256 + code b" by (simp add: n_def)
  have "n div 1024 = code a" using split_byte(1) [of "code b" 256 "code a"] code_bound [of b] quarter by (simp flip: div_mult2_eq)
  moreover have "n div 4 mod 256 = code b" using split_byte(2) [of "code b" 256 "code a"] code_bound [of b] quarter by simp
  moreover have "b64encode [a, b] = [BASE64 ! (n div 4096), BASE64 ! (n div 64 mod 64), BASE64 ! (n mod 64), CHR ''='']"
    by (simp add: Let_def n_def)
  ultimately show ?case using d by (simp add: BASE64_not_pad digit64_nth sextets(1) del: b64encode.simps)
next
  case (3 a)
  define n where "n = code a * 16"
  have "n < 64 * 64" using code_bound [of a] by (simp add: n_def)
  then have d: "n div 64 < 64" by (simp add: less_mult_imp_div_less)
  have "(n div 64 * 64 + n mod 64) div 16 = code a" by (simp only: div_mult_mod_eq) (simp add: n_def)
  then show ?case using d by (simp add: Let_def digit64_nth flip: n_def)
qed simp

lemma b64encode_length: "length (b64encode bs) = 4 * ((length bs + 2) div 3)"
proof (induction bs rule: b64encode.induct)
  case (1 a b c rest)
  have "(length (a # b # c # rest) + 2) div 3 = (length rest + 2 + 1 * 3) div 3" by simp
  also have "\<dots> = 1 + (length rest + 2) div 3" by (rule div_mult_self1) simp
  finally show ?case using 1 by (simp add: Let_def)
qed (simp_all add: Let_def)

lemma decode64_encode: "length bs \<le> limit \<Longrightarrow> decode64 (b64encode bs) limit = Inr bs"
  by (simp add: decode64_def b64encode_length b64decode_encode div_le_mono not_less)

lemma decode64_canonical: "decode64 s limit = Inr bs \<Longrightarrow> length bs \<le> limit \<and> b64encode bs = s"
  by (auto simp: decode64_def split: if_splits option.splits)

end
