(* ===== verification/Solana.thy ===== *)
theory Solana
  imports Base58 Attestation
begin

text \<open>
  The Devnet commitments of \<open>solana_attest.py\<close>: key files, the one transaction format the module builds and
  accepts, the checks on writing RPC calls, the bounded JSON-RPC exchange, and the verification of a finalized
  transaction.  Ed25519 (the package \<open>cryptography\<close>), \<open>json.loads\<close> and the HTTP transport are arguments; an
  error is the public code of the \<open>AttestationError\<close>.
\<close>

definition MEMO_PROGRAM :: string where "MEMO_PROGRAM = ''MemoSq4gqABAXKb96qnH8TysNcWxMyWCqXgDLGmfcHr''"
definition MEMO_PREFIX :: string where "MEMO_PREFIX = ''reliamesh:attest:v1:sha256:''"
definition KEY_FORMAT :: string where "KEY_FORMAT = ''reliamesh-solana-devnet-key/v1''"
definition MAX_RESPONSE_BYTES :: nat where "MAX_RESPONSE_BYTES = 131072"
definition MAX_TRANSACTION_BYTES :: nat where "MAX_TRANSACTION_BYTES = 1232"
definition MAX_FEE_LAMPORTS :: int where "MAX_FEE_LAMPORTS = 10000"

definition RPC_METHODS :: "string list" where
  "RPC_METHODS =
     [''getGenesisHash'', ''getBalance'', ''getLatestBlockhash'', ''getFeeForMessage'', ''requestAirdrop'',
      ''sendTransaction'', ''getSignatureStatuses'', ''getTransaction'', ''getBlockHeight'']"

text \<open>Ed25519: the public key of a secret, signing, and verification of a signature under a public key.\<close>

record crypto =
  public_of :: "string \<Rightarrow> string"
  sign_with :: "string \<Rightarrow> string \<Rightarrow> string"
  verifies :: "string \<Rightarrow> string \<Rightarrow> string \<Rightarrow> bool"

text \<open>A decoder applied to a JSON value; the code refuses values that are not strings.\<close>

definition on_str :: "(string \<Rightarrow> string + 'a) \<Rightarrow> string \<Rightarrow> json \<Rightarrow> string + 'a" where
  "on_str f error_code v = (case v of JStr s \<Rightarrow> f s | _ \<Rightarrow> Inl error_code)"

subsection \<open>Messages and keys\<close>

definition commitment_bytes :: "string \<Rightarrow> string + string" where
  "commitment_bytes value = (if hex64 value then Inr value else Inl ''invalid_commitment'')"

definition message :: "string \<Rightarrow> string \<Rightarrow> string \<Rightarrow> string + string" where
  "message commit signer blockhash =
     rbind (commitment_bytes commit) (\<lambda>c.
       let memo = MEMO_PREFIX @ c in
       if length signer \<noteq> 32 \<or> length blockhash \<noteq> 32 then Inl ''invalid_transaction''
       else rbind (decode58 MEMO_PROGRAM 32) (\<lambda>program.
         Inr ([byte 1, byte 0, byte 1] @ [byte 2] @ signer @ program @ blockhash
              @ [byte 1, byte 1, byte 1, byte 0] @ [byte (length memo)] @ memo)))"

definition KEY_FIELDS :: "string list" where
  "KEY_FIELDS = [''format'', ''genesis_hash'', ''public_key'', ''secret_key_base64'']"

definition member :: "(string, json) dict \<Rightarrow> string \<Rightarrow> json" where
  "member ms k = (case map_of ms k of None \<Rightarrow> JNull | Some v \<Rightarrow> v)"

text \<open>\<open>_load_key\<close>; the key object is its secret.\<close>

definition load_key :: "crypto \<Rightarrow> json \<Rightarrow> string + string" where
  "load_key C keypair =
     (case keypair of
        JObj ms \<Rightarrow>
          if set (keys ms) \<noteq> set KEY_FIELDS then Inl ''invalid_keypair''
          else if member ms ''format'' \<noteq> JStr KEY_FORMAT \<or> member ms ''genesis_hash'' \<noteq> JStr DEVNET_GENESIS
          then Inl ''invalid_keypair''
          else rbind (on_str (\<lambda>s. decode64 s 32) ''invalid_base64'' (member ms ''secret_key_base64'')) (\<lambda>secret.
            if length secret \<noteq> 32 then Inl ''invalid_keypair''
            else rbind (on_str (\<lambda>s. decode58 s 32) ''invalid_base58'' (member ms ''public_key'')) (\<lambda>public.
              if public_of C secret \<noteq> public then Inl ''keypair_public_key_mismatch'' else Inr secret))
      | _ \<Rightarrow> Inl ''invalid_keypair'')"

definition generate_keypair :: "crypto \<Rightarrow> string \<Rightarrow> json" where
  "generate_keypair C secret = JObj
     [(''format'', JStr KEY_FORMAT), (''genesis_hash'', JStr DEVNET_GENESIS),
      (''public_key'', JStr (encode58 (public_of C secret))), (''secret_key_base64'', JStr (b64encode secret))]"

definition signer_public_key :: "crypto \<Rightarrow> json \<Rightarrow> string + string" where
  "signer_public_key C keypair = rbind (load_key C keypair) (\<lambda>secret. Inr (encode58 (public_of C secret)))"

definition build_transaction :: "crypto \<Rightarrow> string \<Rightarrow> json \<Rightarrow> string \<Rightarrow> string + string \<times> string" where
  "build_transaction C commit keypair blockhash =
     rbind (load_key C keypair) (\<lambda>secret.
     rbind (decode58 blockhash 32) (\<lambda>recent.
     rbind (message commit (public_of C secret) recent) (\<lambda>msg.
       let signature = sign_with C secret msg
       in Inr (b64encode ([byte 1] @ signature @ msg), encode58 signature))))"

definition verify_wire :: "crypto \<Rightarrow> string \<Rightarrow> string \<Rightarrow> string \<Rightarrow> string \<Rightarrow> string + unit" where
  "verify_wire C encoded commit signature signer =
     rbind (decode64 encoded MAX_TRANSACTION_BYTES) (\<lambda>wire.
     rbind (decode58 signature 64) (\<lambda>expected_signature.
     rbind (decode58 signer 32) (\<lambda>signer_bytes.
       if length wire < 165 \<or> hd wire \<noteq> byte 1 \<or> take 64 (drop 1 wire) \<noteq> expected_signature
       then Inl ''transaction_signature_mismatch''
       else let msg = drop 65 wire in
         rbind (message commit signer_bytes (take 32 (drop 68 msg))) (\<lambda>expected_message.
           if msg \<noteq> expected_message then Inl ''transaction_message_mismatch''
           else if \<not> verifies C signer_bytes expected_signature msg then Inl ''transaction_signature_invalid''
           else Inr ()))))"

subsection \<open>Writing calls\<close>

definition check_airdrop :: "json list \<Rightarrow> string + unit" where
  "check_airdrop params =
     (if length params \<noteq> 2 \<and> length params \<noteq> 3 then Inl ''invalid_airdrop_request''
      else rbind (on_str (\<lambda>s. decode58 s 32) ''invalid_base58'' (params ! 0)) (\<lambda>_.
        if \<not> (case params ! 1 of JInt i \<Rightarrow> 1 \<le> i \<and> i \<le> 2000000000 | _ \<Rightarrow> False) then Inl ''invalid_airdrop_request''
        else if length params = 3 \<and> params ! 2 \<noteq> JObj [(''commitment'', JStr ''confirmed'')] \<and>
                params ! 2 \<noteq> JObj [(''commitment'', JStr ''finalized'')] then Inl ''invalid_airdrop_request''
        else Inr ()))"

definition send_config_ok :: "json \<Rightarrow> bool" where
  "send_config_ok v =
     (case v of
        JObj ms \<Rightarrow>
          list_all (\<lambda>k. k \<in> {''encoding'', ''skipPreflight'', ''preflightCommitment'', ''maxRetries''}) (keys ms) \<and>
          map_of ms ''encoding'' = Some (JStr ''base64'') \<and>
          (map_of ms ''skipPreflight'' = None \<or> map_of ms ''skipPreflight'' = Some (JBool False)) \<and>
          (map_of ms ''preflightCommitment'' = Some (JStr ''confirmed'') \<or>
           map_of ms ''preflightCommitment'' = Some (JStr ''finalized'')) \<and>
          (case map_of ms ''maxRetries'' of None \<Rightarrow> True | Some (JInt i) \<Rightarrow> 0 \<le> i \<and> i \<le> 3 | _ \<Rightarrow> False)
      | _ \<Rightarrow> False)"

definition PREFIX_SIZE :: nat where "PREFIX_SIZE = 65 + 105"

definition check_send :: "crypto \<Rightarrow> json list \<Rightarrow> string + unit" where
  "check_send C params =
     (if length params \<noteq> 2 then Inl ''invalid_send_request''
      else if \<not> send_config_ok (params ! 1) then Inl ''invalid_send_request''
      else case params ! 0 of
        JStr encoded \<Rightarrow>
          rbind (decode64 encoded MAX_TRANSACTION_BYTES) (\<lambda>wire.
            if length wire \<noteq> PREFIX_SIZE + length MEMO_PREFIX + 64 then Inl ''invalid_send_transaction''
            else
              let commit = drop (PREFIX_SIZE + length MEMO_PREFIX) wire in
              if list_ex (\<lambda>c. 128 \<le> code c) commit then Inl ''invalid_send_transaction''
              else verify_wire C encoded commit (encode58 (take 64 (drop 1 wire))) (encode58 (take 32 (drop 69 wire))))
      | _ \<Rightarrow> Inl ''invalid_base64'')"

definition is_write :: "string \<Rightarrow> bool" where
  "is_write method \<longleftrightarrow> method \<in> {''requestAirdrop'', ''sendTransaction''}"

definition validate_write :: "crypto \<Rightarrow> string \<Rightarrow> json list \<Rightarrow> string + unit" where
  "validate_write C method params =
     (if method = ''requestAirdrop'' then check_airdrop params
      else if method = ''sendTransaction'' then check_send C params
      else Inr ())"

subsection \<open>The RPC exchange\<close>

text \<open>
  What the pinned transport reports: a network error, a redirect, a response that is not a plain 200 of the pinned address, an
  encoded response, or the bytes read.
\<close>

datatype transport = Unavailable | Redirected | Not_Accepted | Encoded | Received string

type_synonym 's wire_step = "'s \<Rightarrow> string \<Rightarrow> transport \<times> 's"

text \<open>The checks of \<open>DevnetRPC.__init__\<close>.\<close>

definition DEVNET_RPC :: string where "DEVNET_RPC = ''https://api.devnet.solana.com''"

definition new_rpc :: "string \<Rightarrow> json \<Rightarrow> string + unit" where
  "new_rpc endpoint timeout =
     (if endpoint \<noteq> DEVNET_RPC then Inl ''devnet_endpoint_required''
      else if \<not> (case timeout of JInt i \<Rightarrow> 0 < i \<and> i \<le> 30 | JFloat x \<Rightarrow> 0 < x \<and> x \<le> 30 | _ \<Rightarrow> False)
      then Inl ''invalid_rpc_timeout''
      else Inr ())"

text \<open>The parts of the environment: encoder, decoder, signatures.\<close>

record rpc_env =
  rx_runtime :: runtime
  rx_loads :: "string \<Rightarrow> json option"
  rx_crypto :: crypto

definition request_body :: "rpc_env \<Rightarrow> string \<Rightarrow> json list \<Rightarrow> string" where
  "request_body X method params = dumps (rx_runtime X) (JObj
     [(''jsonrpc'', JStr ''2.0''), (''id'', JInt 1), (''method'', JStr method), (''params'', JArr params)])"

definition read_response :: "rpc_env \<Rightarrow> transport \<Rightarrow> string + json" where
  "read_response X r =
     (case r of
        Unavailable \<Rightarrow> Inl ''rpc_unavailable''
      | Redirected \<Rightarrow> Inl ''rpc_redirect_rejected''
      | Not_Accepted \<Rightarrow> Inl ''rpc_response_rejected''
      | Encoded \<Rightarrow> Inl ''rpc_encoding_rejected''
      | Received encoded \<Rightarrow>
          if MAX_RESPONSE_BYTES < length encoded then Inl ''rpc_response_too_large''
          else case rx_loads X encoded of
            Some (JObj ms) \<Rightarrow>
              if \<not> unique_members (JObj ms) then Inl ''invalid_rpc_response''
              else if map_of ms ''jsonrpc'' \<noteq> Some (JStr ''2.0'') \<or> map_of ms ''id'' \<noteq> Some (JInt 1)
              then Inl ''invalid_rpc_response''
              else if map_of ms ''error'' \<noteq> None then Inl ''rpc_request_failed''
              else (case map_of ms ''result'' of None \<Rightarrow> Inl ''invalid_rpc_response'' | Some v \<Rightarrow> Inr v)
          | _ \<Rightarrow> Inl ''invalid_rpc_response'')"

definition exchange :: "rpc_env \<Rightarrow> 's wire_step \<Rightarrow> string \<Rightarrow> json list \<Rightarrow> 's \<Rightarrow> (string + json) \<times> 's" where
  "exchange X net method params s =
     (let body = request_body X method params
      in if 8192 < length body then (Inl ''rpc_request_too_large'', s)
         else let (r, s') = net s body in (read_response X r, s'))"

definition sbind :: "('s \<Rightarrow> ('e + 'a) \<times> 's) \<Rightarrow> ('a \<Rightarrow> 's \<Rightarrow> ('e + 'b) \<times> 's) \<Rightarrow> 's \<Rightarrow> ('e + 'b) \<times> 's" where
  "sbind m f s = (case m s of (Inl e, s') \<Rightarrow> (Inl e, s') | (Inr x, s') \<Rightarrow> f x s')"

definition sfail :: "'e \<Rightarrow> 's \<Rightarrow> ('e + 'a) \<times> 's" where "sfail e s = (Inl e, s)"
definition sreturn :: "'a \<Rightarrow> 's \<Rightarrow> ('e + 'a) \<times> 's" where "sreturn x s = (Inr x, s)"
definition slift :: "'e + 'a \<Rightarrow> 's \<Rightarrow> ('e + 'a) \<times> 's" where "slift r s = (r, s)"

definition assert_devnet :: "rpc_env \<Rightarrow> 's wire_step \<Rightarrow> 's \<Rightarrow> (string + unit) \<times> 's" where
  "assert_devnet X net =
     sbind (exchange X net ''getGenesisHash'' []) (\<lambda>v.
       if v \<noteq> JStr DEVNET_GENESIS then sfail ''devnet_genesis_mismatch'' else sreturn ())"

definition call :: "rpc_env \<Rightarrow> 's wire_step \<Rightarrow> string \<Rightarrow> json list \<Rightarrow> 's \<Rightarrow> (string + json) \<times> 's" where
  "call X net method params =
     (if method \<notin> set RPC_METHODS then sfail ''rpc_method_not_allowed''
      else if 8 < length params then sfail ''invalid_rpc_parameters''
      else if is_write method then
        sbind (slift (validate_write (rx_crypto X) method params)) (\<lambda>_.
        sbind (assert_devnet X net) (\<lambda>_. exchange X net method params))
      else exchange X net method params)"

subsection \<open>Status and verification\<close>

definition integer_ok :: "int \<Rightarrow> json \<Rightarrow> bool" where
  "integer_ok maximum v = (case v of JInt i \<Rightarrow> 0 \<le> i \<and> i \<le> maximum | _ \<Rightarrow> False)"

definition INT_MAX :: int where "INT_MAX = 2 ^ 63 - 1"

definition the_int :: "json \<Rightarrow> int" where
  "the_int v = (case v of JInt i \<Rightarrow> i | _ \<Rightarrow> 0)"

text \<open>The one entry of \<open>value\<close> in a reply to \<open>getSignatureStatuses\<close>.\<close>

definition single_status :: "json \<Rightarrow> string + json" where
  "single_status v =
     (case v of
        JObj ms \<Rightarrow> (case map_of ms ''value'' of Some (JArr [x]) \<Rightarrow> Inr x | _ \<Rightarrow> Inl ''invalid_signature_status'')
      | _ \<Rightarrow> Inl ''invalid_signature_status'')"

definition status_params :: "string \<Rightarrow> json list" where
  "status_params signature = [JArr [JStr signature], JObj [(''searchTransactionHistory'', JBool True)]]"

record submission =
  sb_signature :: string
  sb_last_valid_block_height :: int
  sb_confirmation_status :: string
  sb_transaction_error :: "bool option"
  sb_current_block_height :: int
  sb_blockhash_expired :: bool
  sb_automatic_retry_allowed :: bool

text \<open>The confirmation status and error flag of a status entry; \<open>null\<close> is a missing transaction.\<close>

definition read_status :: "json \<Rightarrow> string + string \<times> bool option" where
  "read_status v =
     (case v of
        JNull \<Rightarrow> Inr (''missing'', None)
      | JObj ms \<Rightarrow>
          (case (map_of ms ''confirmationStatus'', map_of ms ''err'') of
             (Some (JStr c), Some err) \<Rightarrow>
               if c \<in> {''processed'', ''confirmed'', ''finalized''} \<and> integer_ok INT_MAX (member ms ''slot'') \<and>
                  (case err of JNull \<Rightarrow> True | JStr _ \<Rightarrow> True | JObj _ \<Rightarrow> True | _ \<Rightarrow> False)
               then Inr (c, Some (err \<noteq> JNull)) else Inl ''invalid_signature_status''
           | _ \<Rightarrow> Inl ''invalid_signature_status'')
      | _ \<Rightarrow> Inl ''invalid_signature_status'')"

definition submission_status ::
    "rpc_env \<Rightarrow> 's wire_step \<Rightarrow> string \<Rightarrow> json \<Rightarrow> 's \<Rightarrow> (string + submission) \<times> 's" where
  "submission_status X net signature last_valid =
     sbind (slift (decode58 signature 64)) (\<lambda>_.
       if \<not> integer_ok INT_MAX last_valid \<or> the_int last_valid = 0 then sfail ''invalid_last_valid_block_height''
       else
         sbind (assert_devnet X net) (\<lambda>_.
         sbind (call X net ''getSignatureStatuses'' (status_params signature)) (\<lambda>statuses.
         sbind (slift (single_status statuses)) (\<lambda>entry.
         sbind (slift (read_status entry)) (\<lambda>(confirmation, failed).
         sbind (call X net ''getBlockHeight'' [JObj [(''commitment'', JStr ''finalized'')]]) (\<lambda>height.
           if \<not> integer_ok INT_MAX height then sfail ''invalid_block_height''
           else sreturn
             \<lparr>sb_signature = signature, sb_last_valid_block_height = the_int last_valid,
              sb_confirmation_status = confirmation, sb_transaction_error = failed,
              sb_current_block_height = the_int height,
              sb_blockhash_expired = (the_int last_valid < the_int height),
              sb_automatic_retry_allowed = False\<rparr>))))))"

record verified =
  vf_slot :: int
  vf_block_time :: "int option"
  vf_fee_lamports :: int
  vf_signer :: string
  vf_signature :: string

definition transaction_params :: "string \<Rightarrow> json list" where
  "transaction_params signature =
     [JStr signature,
      JObj [(''encoding'', JStr ''base64''), (''commitment'', JStr ''finalized''),
            (''maxSupportedTransactionVersion'', JInt 0)]]"

text \<open>The members of a reply to \<open>getTransaction\<close> and of its \<open>meta\<close>, and the encoded transaction.\<close>

definition open_transaction :: "json \<Rightarrow> string + (string, json) dict \<times> (string, json) dict \<times> json" where
  "open_transaction v =
     (case v of
        JNull \<Rightarrow> Inl ''transaction_not_finalized_or_unavailable''
      | JObj ms \<Rightarrow>
          if map_of ms ''version'' \<noteq> Some (JStr ''legacy'') then Inl ''unsupported_transaction''
          else (case map_of ms ''meta'' of
            Some (JObj meta) \<Rightarrow>
              if map_of meta ''err'' \<noteq> Some JNull then Inl ''transaction_failed_or_unavailable''
              else (case map_of ms ''transaction'' of
                Some (JArr [encoded, JStr encoding]) \<Rightarrow>
                  if encoding = ''base64'' then Inr (ms, meta, encoded) else Inl ''invalid_transaction_response''
              | _ \<Rightarrow> Inl ''invalid_transaction_response'')
          | _ \<Rightarrow> Inl ''transaction_failed_or_unavailable'')
      | _ \<Rightarrow> Inl ''unsupported_transaction'')"

definition finalized_at :: "json \<Rightarrow> json \<Rightarrow> bool" where
  "finalized_at slot v =
     (case v of
        JObj ms \<Rightarrow> map_of ms ''confirmationStatus'' = Some (JStr ''finalized'') \<and> map_of ms ''err'' = Some JNull \<and>
          integer_ok INT_MAX (member ms ''slot'') \<and> member ms ''slot'' = slot
      | _ \<Rightarrow> False)"

definition verify_finalized ::
    "rpc_env \<Rightarrow> 's wire_step \<Rightarrow> string \<Rightarrow> string \<Rightarrow> string \<Rightarrow> 's \<Rightarrow> (string + verified) \<times> 's" where
  "verify_finalized X net commit signature expected_signer =
     sbind (slift (commitment_bytes commit)) (\<lambda>_.
     sbind (slift (decode58 signature 64)) (\<lambda>_.
     sbind (slift (decode58 expected_signer 32)) (\<lambda>_.
     sbind (assert_devnet X net) (\<lambda>_.
     sbind (call X net ''getTransaction'' (transaction_params signature)) (\<lambda>transaction.
     sbind (slift (open_transaction transaction)) (\<lambda>(ms, meta, encoded).
     sbind (slift (on_str (\<lambda>s. verify_wire (rx_crypto X) s commit signature expected_signer) ''invalid_base64'' encoded)) (\<lambda>_.
       let slot = member ms ''slot''; block_time = member ms ''blockTime''; fee = member meta ''fee'' in
       if \<not> integer_ok INT_MAX slot \<or> \<not> integer_ok MAX_FEE_LAMPORTS fee \<or>
          (block_time \<noteq> JNull \<and> \<not> integer_ok INT_MAX block_time) then sfail ''invalid_transaction_metadata''
       else
         sbind (call X net ''getSignatureStatuses'' (status_params signature)) (\<lambda>statuses.
         sbind (slift (single_status statuses)) (\<lambda>entry.
           if \<not> finalized_at slot entry then sfail ''transaction_not_finalized_or_unavailable''
           else sreturn
             \<lparr>vf_slot = the_int slot, vf_block_time = (if block_time = JNull then None else Some (the_int block_time)),
              vf_fee_lamports = the_int fee, vf_signer = expected_signer, vf_signature = signature\<rparr>)))))))))"

text \<open>The reply of \<open>verify_finalized\<close> as the mapping the code returns.\<close>

definition receipt_json :: "verified \<Rightarrow> json" where
  "receipt_json v = JObj
     [(''slot'', JInt (vf_slot v)),
      (''block_time'', (case vf_block_time v of None \<Rightarrow> JNull | Some t \<Rightarrow> JInt t)),
      (''fee_lamports'', JInt (vf_fee_lamports v)), (''signer'', JStr (vf_signer v)), (''signature'', JStr (vf_signature v)),
      (''genesis_hash'', JStr DEVNET_GENESIS), (''program_id'', JStr MEMO_PROGRAM),
      (''explorer_url'', JStr (''https://explorer.solana.com/tx/'' @ vf_signature v @ ''?cluster=devnet'')),
      (''verified'', JBool True)]"

end
