(* ===== verification/Solana_Facts.thy ===== *)
theory Solana_Facts
  imports Solana
begin

text \<open>
  The guarantees of the Devnet commitments: what is built verifies, an accepted transaction determines its
  commitment, signer and signature, a verified result rests on a signature over exactly the committed message, and only
  validated requests reach the network.
\<close>

lemma encode_digits_horner:
  "list_all (\<lambda>d. d < 58) ds \<Longrightarrow> ds = [] \<or> hd ds \<noteq> 0 \<Longrightarrow>
   encode_digits (foldl (\<lambda>n d. n * 58 + d) 0 ds) [] = map ((!) BASE58) ds \<and> (foldl (\<lambda>n d. n * 58 + d) 0 ds = 0 \<longleftrightarrow> ds = [])"
proof (induction ds rule: rev_induct)
  case Nil
  then show ?case by (simp add: encode_digits_unfold)
next
  case (snoc d ds)
  show ?case
  proof (cases "ds = []")
    case True
    with snoc.prems show ?thesis by (simp add: encode_digits_unfold [of d] encode_digits_unfold [of 0])
  next
    case False
    with snoc show ?thesis by (simp add: encode_digits_unfold [of "_ * 58 + d"] hd_append)
  qed
qed

subsection \<open>The Memo program\<close>

text \<open>The bytes and the Base58 digits of the Memo program.\<close>

definition memo_program :: string where
  "memo_program = map byte
     [5, 74, 83, 90, 153, 41, 33, 6, 77,
      36, 232, 113, 96, 218, 56, 124, 124, 53, 181, 221, 188, 146, 187, 129, 228, 31, 168, 64, 65, 5, 68, 141]"

definition memo_digits :: "nat list" where
  "memo_digits =
     [20, 37, 44, 46, 25, 48, 3, 39, 48, 9, 10, 9, 30, 18,
      34, 8, 5, 48, 45, 16, 7, 26, 56, 50, 21, 35, 29, 55, 20, 56, 29, 11, 48, 30, 39, 12, 19, 15, 44, 38, 35, 16, 49]"

lemma memo_number: "foldl (\<lambda>n d. n * 58 + d) 0 memo_digits = from_bytes memo_program"
  by (simp add: from_bytes_def memo_program_def memo_digits_def)

lemma memo_text: "map ((!) BASE58) memo_digits = MEMO_PROGRAM" by code_simp

lemma memo_program: "decode58 MEMO_PROGRAM 32 = Inr memo_program"
proof -
  have "list_all (\<lambda>d. d < 58) memo_digits" "hd memo_digits \<noteq> 0" by code_simp+
  with encode_digits_horner [of memo_digits] have "encode_digits (from_bytes memo_program) [] = MEMO_PROGRAM"
    by (simp add: memo_number memo_text)
  moreover have "leading (byte 0) memo_program = 0" by (simp add: leading_def memo_program_def byte_def)
  ultimately have "encode58 memo_program = MEMO_PROGRAM" by (simp add: encode58_def)
  with decode58_encode58 [of memo_program 32] show ?thesis by (simp add: memo_program_def)
qed
subsection \<open>The layout of a message\<close>

lemma hex64_length: "hex64 c \<Longrightarrow> length c = 64"
  by (simp add: hex64_def)

lemma message_layout:
  assumes "message c signer blockhash = Inr m"
  shows "hex64 c" "length signer = 32" "length blockhash = 32" "length m = 196"
    "take 32 (drop 4 m) = signer" "take 32 (drop 68 m) = blockhash" "drop 132 m = c"
proof -
  obtain program where c: "hex64 c" and l: "length signer = 32" "length blockhash = 32"
    and p: "decode58 MEMO_PROGRAM 32 = Inr program"
    and m: "m = [byte 1, byte 0, byte 1] @ [byte 2] @ signer @ program @ blockhash
        @ [byte 1, byte 1, byte 1, byte 0] @ [byte (length (MEMO_PREFIX @ c))] @ MEMO_PREFIX @ c"
    using assms by (auto simp: message_def commitment_bytes_def Let_def rbind_Inr_iff split: if_splits)
  have "length program = 32" using decode58_canonical [OF p] by simp
  moreover have "length MEMO_PREFIX = 27" by (simp add: MEMO_PREFIX_def)
  ultimately show "hex64 c" "length signer = 32" "length blockhash = 32" "length m = 196"
    "take 32 (drop 4 m) = signer" "take 32 (drop 68 m) = blockhash" "drop 132 m = c"
    using c l hex64_length [OF c] by (simp_all add: m)
qed

lemma message_total:
  assumes "hex64 c" "length signer = 32" "length blockhash = 32"
  shows "\<exists>m. message c signer blockhash = Inr m"
  using assms by (simp add: message_def commitment_bytes_def memo_program Let_def)

subsection \<open>Accepted wires\<close>

lemma verify_wire_elim:
  assumes "verify_wire C encoded c signature signer = Inr ()"
  obtains wire sig_bytes signer_bytes where
    "decode64 encoded MAX_TRANSACTION_BYTES = Inr wire" "decode58 signature 64 = Inr sig_bytes" "decode58 signer 32 = Inr signer_bytes"
    "165 \<le> length wire" "wire = [byte 1] @ sig_bytes @ drop 65 wire"
    "message c signer_bytes (take 32 (drop 68 (drop 65 wire))) = Inr (drop 65 wire)"
    "verifies C signer_bytes sig_bytes (drop 65 wire)"
proof -
  obtain wire sig_bytes signer_bytes where w: "decode64 encoded MAX_TRANSACTION_BYTES = Inr wire"
    "decode58 signature 64 = Inr sig_bytes" "decode58 signer 32 = Inr signer_bytes"
    "165 \<le> length wire" "hd wire = byte 1" "take 64 (drop 1 wire) = sig_bytes"
    "message c signer_bytes (take 32 (drop 68 (drop 65 wire))) = Inr (drop 65 wire)"
    "verifies C signer_bytes sig_bytes (drop 65 wire)"
    using assms by (auto simp: verify_wire_def Let_def rbind_Inr_iff split: if_splits)
  have "wire = [hd wire] @ drop 1 wire" using w(4) by (cases wire) auto
  moreover have "drop 1 wire = take 64 (drop 1 wire) @ drop 65 wire" by (metis add.commute append_take_drop_id drop_drop numeral_One numeral_plus_one semiring_norm(5) one_plus_numeral)
  ultimately have "wire = [byte 1] @ sig_bytes @ drop 65 wire" using w(5,6) by metis
  with w that show ?thesis by blast
qed

lemma accepted_wire_binding:
  assumes "verify_wire C encoded c signature signer = Inr ()" "verify_wire C' encoded c' signature' signer' = Inr ()"
  shows "c = c' \<and> signature = signature' \<and> signer = signer'"
proof -
  obtain w sg pk where 1: "decode64 encoded MAX_TRANSACTION_BYTES = Inr w" "decode58 signature 64 = Inr sg"
    "decode58 signer 32 = Inr pk" "w = [byte 1] @ sg @ drop 65 w" "message c pk (take 32 (drop 68 (drop 65 w))) = Inr (drop 65 w)"
    using assms(1) by (rule verify_wire_elim)
  obtain w' sg' pk' where 2: "decode64 encoded MAX_TRANSACTION_BYTES = Inr w'" "decode58 signature' 64 = Inr sg'"
    "decode58 signer' 32 = Inr pk'" "w' = [byte 1] @ sg' @ drop 65 w'" "message c' pk' (take 32 (drop 68 (drop 65 w'))) = Inr (drop 65 w')"
    using assms(2) by (rule verify_wire_elim)
  have w: "w' = w" using 1(1) 2(1) by simp
  note s = decode58_canonical [OF 1(2)] decode58_canonical [OF 2(2)] decode58_canonical [OF 1(3)] decode58_canonical [OF 2(3)]
  have "take 64 (drop 1 w) = sg" using arg_cong [OF 1(4), of "\<lambda>x. take 64 (drop 1 x)"] s(1) by simp
  moreover have "take 64 (drop 1 w) = sg'" using arg_cong [OF 2(4), of "\<lambda>x. take 64 (drop 1 x)"] s(2) by (simp add: w)
  ultimately have "sg = sg'" by simp
  moreover have "pk = pk'" "c = c'"
    using message_layout(5,7) [OF 1(5)] message_layout(5,7) [OF 2(5)] unfolding w by simp_all
  ultimately show ?thesis using s by metis
qed

subsection \<open>What is built verifies\<close>

definition signature_scheme :: "crypto \<Rightarrow> bool" where
  "signature_scheme C \<longleftrightarrow> (\<forall>secret m. length secret = 32 \<longrightarrow>
     length (public_of C secret) = 32 \<and> length (sign_with C secret m) = 64 \<and>
     verifies C (public_of C secret) (sign_with C secret m) m)"

lemma load_key_elim:
  assumes "load_key C keypair = Inr secret"
  shows "length secret = 32"
  using assms by (auto simp: load_key_def rbind_Inr_iff split: json.splits if_splits)

lemma generated_key_loads:
  assumes "signature_scheme C" "length secret = 32"
  shows "load_key C (generate_keypair C secret) = Inr secret"
proof -
  have "length (public_of C secret) = 32" using assms by (simp add: signature_scheme_def)
  then have "decode58 (encode58 (public_of C secret)) 32 = Inr (public_of C secret)"
    by (intro decode58_encode58) simp_all
  moreover have "decode64 (b64encode secret) 32 = Inr secret" by (rule decode64_encode) (simp add: assms(2))
  ultimately show ?thesis
    using assms(2) by (simp add: load_key_def generate_keypair_def KEY_FIELDS_def member_def on_str_def insert_commute)
qed

lemma built_transaction_verifies:
  assumes "build_transaction C c keypair blockhash = Inr (encoded, signature)" "signature_scheme C"
  shows "\<exists>signer. signer_public_key C keypair = Inr signer \<and> verify_wire C encoded c signature signer = Inr ()"
proof -
  obtain secret recent m where k: "load_key C keypair = Inr secret" and r: "decode58 blockhash 32 = Inr recent"
    and m: "message c (public_of C secret) recent = Inr m"
    and e: "encoded = b64encode ([byte 1] @ sign_with C secret m @ m)" "signature = encode58 (sign_with C secret m)"
    using assms(1) by (auto simp: build_transaction_def Let_def rbind_Inr_iff)
  note layout = message_layout [OF m]
  have s: "length (public_of C secret) = 32" "length (sign_with C secret m) = 64"
    "verifies C (public_of C secret) (sign_with C secret m) m"
    using assms(2) load_key_elim [OF k] by (simp_all add: signature_scheme_def)
  have "decode64 encoded MAX_TRANSACTION_BYTES = Inr ([byte 1] @ sign_with C secret m @ m)"
    unfolding e(1) by (rule decode64_encode) (simp add: s layout(4) MAX_TRANSACTION_BYTES_def)
  moreover have "decode58 signature 64 = Inr (sign_with C secret m)" unfolding e(2) by (rule decode58_encode58) (simp_all add: s)
  moreover have "decode58 (encode58 (public_of C secret)) 32 = Inr (public_of C secret)"
    by (rule decode58_encode58) (simp_all add: s)
  moreover have "drop 65 ([byte 1] @ sign_with C secret m @ m) = m" by (simp add: s)
  ultimately have "verify_wire C encoded c signature (encode58 (public_of C secret)) = Inr ()"
    using s m by (simp add: verify_wire_def layout(4,6))
  then show ?thesis by (simp add: signer_public_key_def k)
qed

lemma hex_ascii: "list_all is_hex c \<Longrightarrow> \<not> list_ex (\<lambda>x. 128 \<le> code x) c"
  by (induction c) (auto simp: is_hex_def is_digit_def char_in_def code_def)

text \<open>A generated key signs any commitment, and the result is a transaction that the module itself agrees to send.\<close>

definition send_config :: json where
  "send_config = JObj [(''encoding'', JStr ''base64''), (''preflightCommitment'', JStr ''confirmed'')]"

lemma built_transaction_sends:
  assumes "signature_scheme C" "length secret = 32" "hex64 c" "decode58 blockhash 32 = Inr recent"
  defines "signer \<equiv> encode58 (public_of C secret)"
  shows "\<exists>encoded signature. build_transaction C c (generate_keypair C secret) blockhash = Inr (encoded, signature) \<and>
    verify_wire C encoded c signature signer = Inr () \<and> check_send C [JStr encoded, send_config] = Inr ()"
proof -
  have public: "length (public_of C secret) = 32" using assms(1,2) by (simp add: signature_scheme_def)
  obtain m where m: "message c (public_of C secret) recent = Inr m"
    using message_total [OF assms(3) public] decode58_canonical [OF assms(4)] by blast
  let ?sig = "sign_with C secret m"
  define wire where "wire = [byte 1] @ ?sig @ m"
  have sig: "length ?sig = 64" using assms(1,2) by (simp add: signature_scheme_def)
  note layout = message_layout [OF m]
  have built: "build_transaction C c (generate_keypair C secret) blockhash = Inr (b64encode wire, encode58 ?sig)"
    using assms(4) m by (simp add: build_transaction_def Let_def wire_def generated_key_loads [OF assms(1,2)])
  have ok: "verify_wire C (b64encode wire) c (encode58 ?sig) signer = Inr ()"
    using built_transaction_verifies [OF built assms(1)]
    by (auto simp: signer_public_key_def generated_key_loads [OF assms(1,2)] signer_def)
  have decoded: "decode64 (b64encode wire) MAX_TRANSACTION_BYTES = Inr wire"
    by (rule decode64_encode) (simp add: wire_def sig layout(4) MAX_TRANSACTION_BYTES_def)
  have parts: "take 64 (drop 1 wire) = ?sig" "take 32 (drop 69 wire) = public_of C secret"
    "drop (PREFIX_SIZE + length MEMO_PREFIX) wire = c" "length wire = PREFIX_SIZE + length MEMO_PREFIX + 64"
    using layout(4,5,7) sig by (simp_all add: wire_def PREFIX_SIZE_def MEMO_PREFIX_def)
  have "check_send C [JStr (b64encode wire), send_config] = Inr ()"
    using ok assms(3) hex_ascii [of c] unfolding check_send_def
    by (simp add: decoded parts parts(1) [unfolded One_nat_def] Let_def send_config_def send_config_ok_def hex64_def signer_def)
  with built ok show ?thesis by blast
qed

subsection \<open>Verification\<close>

lemma sbind_Inr: "sbind m f s = (Inr y, s'') \<longleftrightarrow> (\<exists>x s'. m s = (Inr x, s') \<and> f x s' = (Inr y, s''))"
  by (cases "m s"; cases "fst (m s)") (auto simp: sbind_def)

lemma slift_Inr: "slift r s = (Inr x, s') \<longleftrightarrow> r = Inr x \<and> s' = s"
  by (auto simp: slift_def)

definition signed_commitment :: "crypto \<Rightarrow> string \<Rightarrow> string \<Rightarrow> string \<Rightarrow> bool" where
  "signed_commitment C c signature signer \<longleftrightarrow>
     (\<exists>public sig_bytes blockhash m. decode58 signer 32 = Inr public \<and> decode58 signature 64 = Inr sig_bytes \<and>
        message c public blockhash = Inr m \<and> verifies C public sig_bytes m)"

lemma verify_wire_signed: "verify_wire C encoded c signature signer = Inr () \<Longrightarrow> signed_commitment C c signature signer"
  by (elim verify_wire_elim) (auto simp: signed_commitment_def)

lemma verified_sound:
  assumes "verify_finalized X net c signature signer s = (Inr v, s')"
  shows "signed_commitment (rx_crypto X) c signature signer \<and> vf_signer v = signer \<and> vf_signature v = signature \<and>
    0 \<le> vf_slot v \<and> 0 \<le> vf_fee_lamports v \<and> vf_fee_lamports v \<le> MAX_FEE_LAMPORTS"
proof -
  obtain ms meta encoded where w: "on_str (\<lambda>s. verify_wire (rx_crypto X) s c signature signer) ''invalid_base64'' encoded = Inr ()"
    and ok: "integer_ok INT_MAX (member ms ''slot'')" "integer_ok MAX_FEE_LAMPORTS (member meta ''fee'')"
    and v: "vf_signer v = signer" "vf_signature v = signature" "vf_slot v = the_int (member ms ''slot'')"
      "vf_fee_lamports v = the_int (member meta ''fee'')"
    using assms by (auto simp: verify_finalized_def sbind_Inr slift_Inr Let_def sfail_def sreturn_def split: if_splits prod.splits)
  obtain e where "verify_wire (rx_crypto X) e c signature signer = Inr ()"
    using w by (auto simp: on_str_def split: json.splits)
  from verify_wire_signed [OF this] ok v show ?thesis
    by (auto simp: integer_ok_def the_int_def split: json.splits)
qed

subsection \<open>What reaches the network\<close>

text \<open>\<open>f\<close> only appends to the log, and only entries with \<open>P\<close>.\<close>

definition sends :: "('s \<Rightarrow> 'e list) \<Rightarrow> ('e \<Rightarrow> bool) \<Rightarrow> ('s \<Rightarrow> 'a \<times> 's) \<Rightarrow> bool" where
  "sends hist P f \<longleftrightarrow> (\<forall>s. \<exists>added. hist (snd (f s)) = hist s @ added \<and> list_all P added)"

lemma sends_weaken: "sends hist P f \<Longrightarrow> (\<And>e. P e \<Longrightarrow> Q e) \<Longrightarrow> sends hist Q f"
  by (fastforce simp: sends_def list_all_iff)

lemma sends_pure: "sends hist P (slift r)" "sends hist P (sfail e)" "sends hist P (sreturn x)"
  by (simp_all add: sends_def slift_def sfail_def sreturn_def)

lemma sends_sbind:
  assumes "sends hist P m" "\<And>x. sends hist P (f x)"
  shows "sends hist P (sbind m f)"
  unfolding sends_def
proof
  fix l
  obtain x l' where m: "m l = (x, l')" by (cases "m l")
  obtain a where a: "hist l' = hist l @ a" "list_all P a" using assms(1) m unfolding sends_def by (metis snd_conv)
  show "\<exists>added. hist (snd (sbind m f l)) = hist l @ added \<and> list_all P added"
  proof (cases x)
    case (Inr y)
    obtain b where "hist (snd (f y l')) = hist l' @ b" "list_all P b" using assms(2) [of y] unfolding sends_def by blast
    with a m Inr show ?thesis by (intro exI [of _ "a @ b"]) (simp add: sbind_def)
  qed (use a m in \<open>simp add: sbind_def\<close>)
qed

lemma sends_if: "(b \<Longrightarrow> sends hist P f) \<Longrightarrow> (\<not> b \<Longrightarrow> sends hist P g) \<Longrightarrow> sends hist P (if b then f else g)"
  by simp

lemma sends_prod: "(\<And>x y. sends hist P (f x y)) \<Longrightarrow> sends hist P (case p of (x, y) \<Rightarrow> f x y)"
  by (simp add: split_def)

lemmas sends_rules = sends_pure sends_sbind sends_if sends_prod

text \<open>A request that a call may send: the genesis check, or the call itself once it is allowed.\<close>

definition genesis_request :: "rpc_env \<Rightarrow> string" where
  "genesis_request X = request_body X ''getGenesisHash'' []"

definition permitted :: "rpc_env \<Rightarrow> string \<Rightarrow> json list \<Rightarrow> string \<Rightarrow> bool" where
  "permitted X method params b \<longleftrightarrow> b = genesis_request X \<or>
     (b = request_body X method params \<and> method \<in> set RPC_METHODS \<and> validate_write (rx_crypto X) method params = Inr ())"

text \<open>Calls that only read; the status of a transaction and its verification make no other.\<close>

definition read_request :: "rpc_env \<Rightarrow> string \<Rightarrow> bool" where
  "read_request X b \<longleftrightarrow> (\<exists>method params. b = request_body X method params \<and> method \<in> set RPC_METHODS \<and> \<not> is_write method)"

lemma read_genesis: "read_request X (genesis_request X)"
  unfolding read_request_def genesis_request_def
  by (intro exI [of _ "''getGenesisHash''"] exI [of _ "[]"]) (simp add: RPC_METHODS_def is_write_def)

lemma permitted_read: "\<not> is_write method \<Longrightarrow> permitted X method params b \<Longrightarrow> read_request X b"
  by (auto simp: permitted_def read_genesis) (auto simp: read_request_def)

definition on_sent :: "(string \<Rightarrow> 'e) \<Rightarrow> (string \<Rightarrow> bool) \<Rightarrow> 'e \<Rightarrow> bool" where
  "on_sent sent P e \<longleftrightarrow> (\<exists>b. e = sent b \<and> P b)"

lemma reads:
  "\<not> is_write ''getTransaction''" "\<not> is_write ''getSignatureStatuses''" "\<not> is_write ''getBlockHeight''"
  "\<not> is_write ''getLatestBlockhash''" "\<not> is_write ''getFeeForMessage''" "\<not> is_write ''getBalance''"
  by (simp_all add: is_write_def)

text \<open>What the module asks of a network: it may answer by any rule, and its state logs every request body.\<close>

locale logged_net =
  fixes hist :: "'s \<Rightarrow> 'e list"
    and sent :: "string \<Rightarrow> 'e"
    and net :: "'s wire_step"
  assumes net_log: "hist (snd (net s b)) = hist s @ [sent b]"
begin

lemma sends_exchange: "sends hist (on_sent sent (\<lambda>b. b = request_body X method params)) (exchange X net method params)"
  unfolding sends_def
proof
  fix s
  show "\<exists>added. hist (snd (exchange X net method params s)) = hist s @ added \<and>
      list_all (on_sent sent (\<lambda>b. b = request_body X method params)) added"
    by (cases "net s (request_body X method params)")
      (use net_log [of s "request_body X method params"] in \<open>auto simp: exchange_def Let_def on_sent_def\<close>)
qed

lemma sends_assert_devnet: "sends hist (on_sent sent (\<lambda>b. b = genesis_request X)) (assert_devnet X net)"
  unfolding assert_devnet_def genesis_request_def by (intro sends_rules sends_exchange)

lemma sends_call: "sends hist (on_sent sent (permitted X method params)) (call X net method params)"
proof (cases "method \<in> set RPC_METHODS \<and> 8 \<ge> length params \<and> validate_write (rx_crypto X) method params = Inr ()")
  case True
  then have "sends hist (on_sent sent (permitted X method params)) (exchange X net method params)"
    by (intro sends_weaken [OF sends_exchange]) (auto simp: permitted_def on_sent_def)
  moreover have "sends hist (on_sent sent (permitted X method params)) (assert_devnet X net)"
    by (rule sends_weaken [OF sends_assert_devnet]) (auto simp: permitted_def on_sent_def)
  ultimately show ?thesis unfolding call_def by (intro sends_rules)
next
  case False
  show ?thesis
  proof (cases "method \<in> set RPC_METHODS \<and> 8 \<ge> length params")
    case True
    then obtain e where e: "validate_write (rx_crypto X) method params = Inl e"
      using False by (cases "validate_write (rx_crypto X) method params") auto
    then have "is_write method" by (auto simp: validate_write_def is_write_def split: if_splits)
    with True show ?thesis by (simp add: call_def sends_def e sbind_def slift_def)
  qed (simp add: call_def sends_pure, force simp: call_def sends_pure)
qed

lemma sends_read_call: "\<not> is_write method \<Longrightarrow> sends hist (on_sent sent (read_request X)) (call X net method params)"
  by (rule sends_weaken [OF sends_call]) (auto simp: on_sent_def dest: permitted_read)

lemma sends_read_genesis: "sends hist (on_sent sent (read_request X)) (assert_devnet X net)"
  by (rule sends_weaken [OF sends_assert_devnet]) (auto simp: on_sent_def read_genesis)

lemma verification_reads: "sends hist (on_sent sent (read_request X)) (verify_finalized X net c signature signer)"
  unfolding verify_finalized_def Let_def by (intro sends_rules sends_read_call sends_read_genesis reads)

lemma submission_reads: "sends hist (on_sent sent (read_request X)) (submission_status X net signature last_valid)"
  unfolding submission_status_def by (intro sends_rules sends_read_call sends_read_genesis reads)

end

text \<open>The network whose state is the list of bodies sent to it.\<close>

definition recorded :: "(string list \<Rightarrow> string \<Rightarrow> transport) \<Rightarrow> string list wire_step" where
  "recorded answer l body = (answer l body, l @ [body])"

interpretation recorded_net: logged_net "\<lambda>l. l" "\<lambda>b. b" "recorded answer" for answer
  by unfold_locales (simp add: recorded_def)

lemma on_sent_id [simp]: "on_sent (\<lambda>b. b) P = P"
  by (auto simp: on_sent_def)

end
