(* ===== verification/Demo_Edge.thy ===== *)
theory Demo_Edge
  imports Demo_Service Iso Nesting Sdk_Client_Facts Solana_Facts
begin

text \<open>
  Concrete values for the witnesses at the edge of the service: a runtime whose reader of timestamps inverts the
  printer and whose floats are short and plain, a client with two queued events, and a signature scheme.
\<close>

subsection \<open>Runtime\<close>

definition edge_runtime :: runtime where
  "edge_runtime = \<lparr>sha256_hex = (\<lambda>s. s), float_repr = (\<lambda>x. take 24 (show_int \<lfloor>x\<rfloor>)), dump_instant = isoformat,
     fromisoformat = read_iso\<rparr>"

lemma edge_iso: "iso_inverse edge_runtime"
  by (simp add: iso_inverse_def edge_runtime_def read_isoformat)

lemma edge_stamp: "datetime_range us \<Longrightarrow> stamp_ok edge_runtime (stamp us)"
  by (simp add: stamp_ok_def edge_runtime_def read_stamp)

lemma edge_floats: "float_plain edge_runtime" "short_floats edge_runtime"
proof -
  have "list_all plain_char (take 24 (show_int i))" for i
    using show_int_plain [of i] in_set_takeD by (fastforce simp: list_all_iff)
  then show "float_plain edge_runtime" by (simp add: float_plain_def edge_runtime_def)
qed (simp add: short_floats_def edge_runtime_def min_le_iff_disj)

subsection \<open>Events and a client\<close>

definition edge_event :: members where
  "edge_event =
     [(''schema_version'', JStr ''1.0''), (''event_id'', JStr ''00000000-0000-4000-8000-000000000001''),
      (''timestamp'', JStr (isoformat 1000000000000000)), (''deployment_id'', JStr ''d''), (''agent_id'', JStr ''a''),
      (''operation'', JStr ''tool''), (''outcome'', JStr ''failure''), (''synthetic'', JBool False),
      (''failure_type'', JStr ''timeout''), (''latency_ms'', JInt 12)]"

lemma edge_event_valid: "sdk_valid edge_event"
proof -
  have us: "datetime_range 1000000000000000" by (simp add: datetime_range_def)
  have id: "event_id_ok ''00000000-0000-4000-8000-000000000001''" by code_simp
  have names: "identifier_ok ''d''" "identifier_ok ''a''" by code_simp+
  show ?thesis
    unfolding sdk_valid_def using us id names
    by (simp add: edge_event_def FIELDS_def REQUIRED_def IDENTIFIERS_def COUNTERS_def checked_def identifier_json_def
        str_in_def OPERATIONS_def FAILURE_TYPES_def failure_checked_def counter_json_def latency_json_def json_bool_def)
      blast
qed

lemma edge_event_dict: "dict_ok edge_event"
  by (simp add: edge_event_def)

lemma edge_validated: "validate_event edge_runtime (JObj edge_event) = Some edge_event"
  by (rule sdk_valid_fixed [OF edge_event_valid edge_iso])

definition edge_client :: client where
  "edge_client = \<lparr>cl_queue = [], cl_capacity = 1000, cl_max_retries = 2, cl_raises = False,
     cl_enqueued = 0, cl_sent = 0, cl_dropped = 0, cl_failed_batches = 0, cl_retries = 0\<rparr>"

lemma edge_new_client:
  "new_client (JStr ''k'') (JInt 2) (JInt 2) (JInt 1000) (JStr ''drop'') = Some edge_client"
  by (simp add: new_client_def edge_client_def visible_ascii_def code_def)

subsection \<open>Signatures\<close>

text \<open>A stand-in for Ed25519 whose signatures are the key and a prefix of the message.\<close>

definition edge_crypto :: crypto where
  "edge_crypto =
     \<lparr>public_of = (\<lambda>secret. secret), sign_with = (\<lambda>secret m. secret @ take 32 (m @ replicate 32 (byte 0))),
      verifies = (\<lambda>public signature m. signature = public @ take 32 (m @ replicate 32 (byte 0)))\<rparr>"

lemma edge_scheme: "signature_scheme edge_crypto"
  by (auto simp: signature_scheme_def edge_crypto_def min_def)

definition edge_secret :: string where "edge_secret = replicate 32 (byte 7)"
definition edge_blockhash :: string where "edge_blockhash = encode58 (replicate 32 (byte 9))"

lemma edge_key: "length edge_secret = 32" "decode58 edge_blockhash 32 = Inr (replicate 32 (byte 9))"
  by (simp_all add: edge_secret_def edge_blockhash_def decode58_encode58)

lemma edge_commitment: "hex64 (replicate 64 (CHR ''a''))"
  by (simp add: hex64_def list_all_iff is_hex_def char_in_def code_def)

end
