(* ===== verification/Projection.thy ===== *)
theory Projection
  imports Attestation
begin

text \<open>
  \<open>report_from_summary\<close> as it runs on a decoded JSON document, which may be any file that the operator names, and its
  agreement with the projection of a summary as a value.  Every exception of the projection ends the command in the same
  way, so they are one outcome.
\<close>

subsection \<open>Python on decoded JSON\<close>

text \<open>Subscripting with a string: a mapping that lacks the key and a value that is no mapping raise.\<close>

definition item :: "json \<Rightarrow> string \<Rightarrow> json option" where
  "item v k = (case v of JObj ms \<Rightarrow> map_of ms k | _ \<Rightarrow> None)"

text \<open>What iterating over a value yields.\<close>

definition iterated :: "json \<Rightarrow> json list option" where
  "iterated v =
     (case v of
        JArr vs \<Rightarrow> Some vs
      | JObj ms \<Rightarrow> Some (map (\<lambda>p. JStr (fst p)) ms)
      | JStr s \<Rightarrow> Some (map (\<lambda>c. JStr [c]) s)
      | _ \<Rightarrow> None)"

text \<open>An element of a set: numbers and truth values are compared as numbers, lists and mappings cannot be hashed.\<close>

datatype hashed = Nothing | Number rat | Words string

definition hashed_of :: "json \<Rightarrow> hashed option" where
  "hashed_of v =
     (case v of
        JNull \<Rightarrow> Some Nothing
      | JBool b \<Rightarrow> Some (Number (of_bool b))
      | JInt i \<Rightarrow> Some (Number (of_int i))
      | JFloat x \<Rightarrow> Some (Number x)
      | JStr s \<Rightarrow> Some (Words s)
      | _ \<Rightarrow> None)"

text \<open>A filtering comprehension and a loop whose body may raise.\<close>

fun kept :: "('a \<Rightarrow> bool option) \<Rightarrow> 'a list \<Rightarrow> 'a list option" where
  "kept f [] = Some []"
| "kept f (x # xs) = do { b \<leftarrow> f x; ys \<leftarrow> kept f xs; Some (if b then x # ys else ys) }"

fun each :: "('a \<Rightarrow> 'b option) \<Rightarrow> 'a list \<Rightarrow> 'b list option" where
  "each f [] = Some []"
| "each f (x # xs) = do { y \<leftarrow> f x; ys \<leftarrow> each f xs; Some (y # ys) }"

text \<open>
  \<open>sum\<close> over values that should be integers: truth values count as numbers, other values raise, and so does the strict
  validation of a sum that became a float.
\<close>

definition addend :: "json \<Rightarrow> int option" where
  "addend v = (case v of JInt i \<Rightarrow> Some i | JBool b \<Rightarrow> Some (of_bool b) | _ \<Rightarrow> None)"

definition summed :: "json list \<Rightarrow> string \<Rightarrow> string \<Rightarrow> int option" where
  "summed streams window k =
     do { xs \<leftarrow> each (\<lambda>s. do { w \<leftarrow> item s window; v \<leftarrow> item w k; addend v }) streams; Some (sum_list xs) }"

definition counted :: "json list \<Rightarrow> string \<Rightarrow> int option" where
  "counted incidents name =
     do { xs \<leftarrow> each (\<lambda>i. do { v \<leftarrow> item i ''status''; Some (of_bool (v = JStr name)) }) incidents; Some (sum_list xs) }"

subsection \<open>The projection\<close>

definition project_json :: "runtime \<Rightarrow> json \<Rightarrow> bool \<Rightarrow> string \<Rightarrow> pydatetime \<Rightarrow> window_report option" where
  "project_json R summary synthetic version generated_at =
     (if item summary ''schema_version'' \<noteq> Some (JStr ''1.0'') then None
      else do {
        all_streams \<leftarrow> item summary ''streams'';
        all_streams \<leftarrow> iterated all_streams;
        streams \<leftarrow> kept (\<lambda>s. do { d \<leftarrow> item s ''dimensions''; v \<leftarrow> item d ''synthetic''; Some (v = JBool synthetic) }) all_streams;
        selected \<leftarrow> each (\<lambda>s. do { v \<leftarrow> item s ''stream_id''; hashed_of v }) streams;
        all_incidents \<leftarrow> item summary ''incidents'';
        all_incidents \<leftarrow> iterated all_incidents;
        incidents \<leftarrow> kept (\<lambda>i. do { v \<leftarrow> item i ''synthetic'';
            if v \<noteq> JBool synthetic then Some False
            else do { s \<leftarrow> item i ''stream_id''; h \<leftarrow> hashed_of s; Some (h \<in> set selected) } }) all_incidents;
        us \<leftarrow> (case generated_at of Naive \<Rightarrow> None | Aware us \<Rightarrow> Some us);
        bs \<leftarrow> summed streams ''baseline'' ''count'';
        bf \<leftarrow> summed streams ''baseline'' ''failures'';
        cs \<leftarrow> summed streams ''current'' ''count'';
        cf \<leftarrow> summed streams ''current'' ''failures'';
        opened \<leftarrow> counted incidents ''open'';
        resolved \<leftarrow> counted incidents ''resolved'';
        expired \<leftarrow> counted incidents ''expired'';
        check_report R
          \<lparr>wr_server_version = version, wr_generated_at = stamp us, wr_synthetic = synthetic,
           wr_stream_count = int (length streams), wr_baseline_samples = bs, wr_baseline_failures = bf,
           wr_current_samples = cs, wr_current_failures = cf, wr_open_incidents = opened,
           wr_resolved_incidents = resolved, wr_expired_incidents = expired\<rparr>
      })"

subsection \<open>Documents that show a summary\<close>

text \<open>The members of the summary document that the projection reads.\<close>

definition status_name :: "status \<Rightarrow> string" where
  "status_name s = (case s of Open \<Rightarrow> ''open'' | Resolved \<Rightarrow> ''resolved'' | Expired \<Rightarrow> ''expired'')"

definition shows_window :: "stats \<Rightarrow> json \<Rightarrow> bool" where
  "shows_window w v \<longleftrightarrow> item v ''count'' = Some (JInt (int (st_count w))) \<and> item v ''failures'' = Some (JInt (st_failures w))"

definition shows_stream :: "stream_view \<Rightarrow> json \<Rightarrow> bool" where
  "shows_stream s v \<longleftrightarrow> item v ''stream_id'' = Some (JStr (sv_stream_id s)) \<and>
     (\<exists>d. item v ''dimensions'' = Some d \<and> item d ''synthetic'' = Some (JBool (dm_synthetic (sv_dimensions s)))) \<and>
     (\<exists>w. item v ''baseline'' = Some w \<and> shows_window (sv_baseline s) w) \<and>
     (\<exists>w. item v ''current'' = Some w \<and> shows_window (sv_current s) w)"

definition shows_incident :: "incident \<Rightarrow> json \<Rightarrow> bool" where
  "shows_incident i v \<longleftrightarrow> item v ''stream_id'' = Some (JStr (in_stream_id i)) \<and>
     item v ''synthetic'' = Some (JBool (in_synthetic i)) \<and> item v ''status'' = Some (JStr (status_name (in_status i)))"

definition shows_summary :: "summary \<Rightarrow> json \<Rightarrow> bool" where
  "shows_summary y v \<longleftrightarrow> item v ''schema_version'' = Some (JStr ''1.0'') \<and>
     (\<exists>vs. item v ''streams'' = Some (JArr vs) \<and> list_all2 shows_stream (sy_streams y) vs) \<and>
     (\<exists>vs. item v ''incidents'' = Some (JArr vs) \<and> list_all2 shows_incident (sy_incidents y) vs)"

subsection \<open>Agreement\<close>

lemma kept_agrees:
  assumes "list_all2 P xs vs" "\<And>x v. P x v \<Longrightarrow> f v = Some (g x)"
  shows "\<exists>ws. kept f vs = Some ws \<and> list_all2 P (filter g xs) ws"
  using assms(1)
proof (induction xs vs rule: list_all2_induct)
  case (Cons x xs v vs)
  then obtain ws where "kept f vs = Some ws" "list_all2 P (filter g xs) ws" by blast
  with assms(2) [OF Cons.hyps(1)] Cons.hyps(1) show ?case by simp
qed simp

lemma each_agrees:
  assumes "list_all2 P xs vs" "\<And>x v. P x v \<Longrightarrow> f v = Some (g x)"
  shows "each f vs = Some (map g xs)"
  using assms(1) by (induction xs vs rule: list_all2_induct) (simp_all add: assms(2))

lemma status_name_eq [simp]: "status_name a = status_name b \<longleftrightarrow> a = b"
  by (cases a; cases b) (simp_all add: status_name_def)

lemma int_counts: "(\<Sum>x \<leftarrow> xs. int (f x)) = int (sum_list (map f xs))"
  by (induction xs) simp_all

lemma summed_stream:
  assumes "list_all2 shows_stream ss vs"
    and "\<And>s v. shows_stream s v \<Longrightarrow> \<exists>w x. item v window = Some w \<and> item w k = Some x \<and> addend x = Some (g s)"
  shows "summed vs window k = Some (sum_list (map g ss))"
proof -
  have "each (\<lambda>s. do { w \<leftarrow> item s window; v \<leftarrow> item w k; addend v }) vs = Some (map g ss)"
    by (rule each_agrees [OF assms(1)]) (use assms(2) in fastforce)
  then show ?thesis by (simp add: summed_def)
qed

lemma summed_agrees:
  assumes "list_all2 shows_stream ss vs"
  shows "summed vs ''baseline'' ''count'' = Some (int (sum_list (map (\<lambda>s. st_count (sv_baseline s)) ss)))"
    "summed vs ''baseline'' ''failures'' = Some (sum_list (map (\<lambda>s. st_failures (sv_baseline s)) ss))"
    "summed vs ''current'' ''count'' = Some (int (sum_list (map (\<lambda>s. st_count (sv_current s)) ss)))"
    "summed vs ''current'' ''failures'' = Some (sum_list (map (\<lambda>s. st_failures (sv_current s)) ss))"
  unfolding int_counts [symmetric]
  by (rule summed_stream [OF assms]; auto simp: shows_stream_def shows_window_def addend_def)+

lemma counted_agrees:
  assumes "list_all2 shows_incident is vs"
  shows "counted vs (status_name st) = Some (with_status st is)"
proof -
  have "each (\<lambda>i. do { v \<leftarrow> item i ''status''; Some (of_bool (v = JStr (status_name st)) :: int) }) vs =
      Some (map (\<lambda>i. of_bool (in_status i = st)) is)"
    by (intro each_agrees [OF assms]) (auto simp: shows_incident_def)
  moreover have "sum_list (map (\<lambda>i. of_bool (in_status i = st)) is) = with_status st is"
    by (induction "is") (simp_all add: with_status_def)
  ultimately show ?thesis by (simp add: counted_def)
qed

lemma project_json_agrees:
  assumes "shows_summary y v"
  shows "project_json R v synthetic version now = report_from_summary R y synthetic version now"
proof -
  obtain vs us where head: "item v ''schema_version'' = Some (JStr ''1.0'')"
    and vs: "item v ''streams'' = Some (JArr vs)" "list_all2 shows_stream (sy_streams y) vs"
    and us: "item v ''incidents'' = Some (JArr us)" "list_all2 shows_incident (sy_incidents y) us"
    using assms by (auto simp: shows_summary_def)
  let ?chosen = "\<lambda>s. do { d \<leftarrow> item s ''dimensions''; v \<leftarrow> item d ''synthetic''; Some (v = JBool synthetic) }"
  have "\<exists>ws. kept ?chosen vs = Some ws \<and> list_all2 shows_stream (chosen_streams synthetic y) ws"
    unfolding chosen_streams_def by (rule kept_agrees [OF vs(2)]) (auto simp: shows_stream_def)
  then obtain ws where ws: "kept ?chosen vs = Some ws" "list_all2 shows_stream (chosen_streams synthetic y) ws" by blast
  let ?selected = "map (\<lambda>s. Words (sv_stream_id s)) (chosen_streams synthetic y)"
  have selected: "each (\<lambda>s. do { v \<leftarrow> item s ''stream_id''; hashed_of v }) ws = Some ?selected"
    by (rule each_agrees [OF ws(2)]) (simp add: shows_stream_def hashed_of_def)
  let ?kept = "\<lambda>i. do { v \<leftarrow> item i ''synthetic'';
      if v \<noteq> JBool synthetic then Some False
      else do { s \<leftarrow> item i ''stream_id''; h \<leftarrow> hashed_of s; Some (h \<in> set ?selected) } }"
  have "\<exists>zs. kept ?kept us = Some zs \<and> list_all2 shows_incident (chosen_incidents synthetic y) zs"
    unfolding chosen_incidents_def by (rule kept_agrees [OF us(2)]) (auto simp: shows_incident_def hashed_of_def)
  then obtain zs where zs: "kept ?kept us = Some zs" "list_all2 shows_incident (chosen_incidents synthetic y) zs" by blast
  note counts = counted_agrees [OF zs(2), of Open] counted_agrees [OF zs(2), of Resolved] counted_agrees [OF zs(2), of Expired]
  show ?thesis
    using list_all2_lengthD [OF ws(2)]
    by (cases now) (simp_all add: project_json_def head vs(1) us(1) iterated_def ws(1) selected zs(1) report_from_summary_def Let_def
        summed_agrees [OF ws(2)] counts [unfolded status_name_def, simplified])
qed


subsection \<open>Such a document\<close>

definition window_document :: "stats \<Rightarrow> json" where
  "window_document w = JObj [(''count'', JInt (int (st_count w))), (''failures'', JInt (st_failures w))]"

definition stream_document :: "stream_view \<Rightarrow> json" where
  "stream_document s = JObj
     [(''stream_id'', JStr (sv_stream_id s)), (''dimensions'', JObj [(''synthetic'', JBool (dm_synthetic (sv_dimensions s)))]),
      (''baseline'', window_document (sv_baseline s)), (''current'', window_document (sv_current s))]"

definition incident_document :: "incident \<Rightarrow> json" where
  "incident_document i = JObj
     [(''stream_id'', JStr (in_stream_id i)), (''synthetic'', JBool (in_synthetic i)), (''status'', JStr (status_name (in_status i)))]"

definition summary_document :: "summary \<Rightarrow> json" where
  "summary_document y = JObj
     [(''schema_version'', JStr ''1.0''), (''streams'', JArr (map stream_document (sy_streams y))),
      (''incidents'', JArr (map incident_document (sy_incidents y)))]"

lemma summary_document_shows: "shows_summary y (summary_document y)"
  by (simp add: shows_summary_def summary_document_def item_def list_all2_map2 list_all2_same stream_document_def
      shows_stream_def window_document_def shows_window_def incident_document_def shows_incident_def)

end
