(* ===== verification/Anchor.thy ===== *)
theory Anchor
  imports Demo_Edge Projection
begin

text \<open>
  The properties of the opt-in reports and of the Devnet commitments built on them.
\<close>

section \<open>Reports\<close>

text \<open>
  C29.  A report can always be made from the summary of a well-formed state, through any JSON document that shows this
  summary: it passes every constraint of the report model, survives its JSON form, and its counts are those of the
  selected streams and incidents.
\<close>

theorem report_of_state:
  assumes "tenant_inv state" "summarize R state now = Inr v" "version_ok version" "stamp_ok R (stamp us)"
    and "shows_summary v document"
  shows "\<exists>r. project_json R document synthetic version (Aware us) = Some r \<and>
    report_of_json R (report_json r) = Some r \<and> wr_stream_count r = int (length (chosen_streams synthetic v)) \<and>
    wr_current_failures r = sum_list (map (\<lambda>s. st_failures (sv_current s)) (chosen_streams synthetic v)) \<and>
    wr_open_incidents r + wr_resolved_incidents r + wr_expired_incidents r = int (length (chosen_incidents synthetic v))"
proof -
  obtain r where r: "report_from_summary R v synthetic version (Aware us) = Some r"
    and counts: "wr_stream_count r = int (length (chosen_streams synthetic v))"
      "wr_current_failures r = sum_list (map (\<lambda>s. st_failures (sv_current s)) (chosen_streams synthetic v))"
      "wr_open_incidents r + wr_resolved_incidents r + wr_expired_incidents r = int (length (chosen_incidents synthetic v))"
    using report_total [OF assms(1-4)] by blast
  from r have "check_report R r = Some r"
    by (auto simp: report_from_summary_def Let_def check_report_def split: if_splits)
  with r counts show ?thesis unfolding project_json_agrees [OF assms(5)] using report_roundtrip by blast
qed

theorem report_of_state_witness:
  "\<exists>v r. summarize edge_runtime (Some demo_open) demo_now = Inr v \<and>
    project_json edge_runtime (summary_document v) False ''0.2.0'' (Aware 1000000000000000) = Some r \<and>
    report_of_json edge_runtime (report_json r) = Some r"
proof -
  have inv: "tenant_inv (Some demo_open)" by (simp add: tenant_inv_def demo_open_inv)
  obtain v where v: "summarize edge_runtime (Some demo_open) demo_now = Inr v"
    using summarize_total [OF inv demo_times(2)] by blast
  have "version_ok ''0.2.0''" by code_simp
  moreover have "stamp_ok edge_runtime (stamp 1000000000000000)" by (rule edge_stamp) (simp add: datetime_range_def)
  ultimately show ?thesis using report_of_state [OF inv v _ _ summary_document_shows] v by blast
qed

section \<open>Commitments\<close>

definition edge_signer :: string where "edge_signer = encode58 (public_of edge_crypto edge_secret)"

lemma edge_transaction:
  obtains encoded signature where
    "build_transaction edge_crypto (replicate 64 (CHR ''a'')) (generate_keypair edge_crypto edge_secret) edge_blockhash =
      Inr (encoded, signature)"
    "verify_wire edge_crypto encoded (replicate 64 (CHR ''a'')) signature edge_signer = Inr ()"
  using built_transaction_sends [OF edge_scheme edge_key(1) edge_commitment edge_key(2)] that
  unfolding edge_signer_def by blast

text \<open>An endpoint that has finalized one transaction.\<close>

definition edge_reply :: "json \<Rightarrow> json" where
  "edge_reply v = JObj [(''jsonrpc'', JStr ''2.0''), (''id'', JInt 1), (''result'', v)]"

definition edge_env :: "string \<Rightarrow> rpc_env" where
  "edge_env encoded = \<lparr>rx_runtime = edge_runtime, rx_loads = map_of
     [(''g'', edge_reply (JStr DEVNET_GENESIS)),
      (''t'', edge_reply (JObj
        [(''version'', JStr ''legacy''), (''slot'', JInt 5), (''meta'', JObj [(''err'', JNull), (''fee'', JInt 5000)]),
         (''transaction'', JArr [JStr encoded, JStr ''base64''])])),
      (''s'', edge_reply (JObj [(''value'', JArr [JObj
        [(''confirmationStatus'', JStr ''finalized''), (''err'', JNull), (''slot'', JInt 5)]])]))], rx_crypto = edge_crypto\<rparr>"

definition edge_net :: "nat wire_step" where
  "edge_net n body = (Received (if n = 0 then ''g'' else if n = 1 then ''t'' else ''s''), Suc n)"

lemma edge_responses:
  "read_response (edge_env e) (Received ''g'') = Inr (JStr DEVNET_GENESIS)"
  "read_response (edge_env e) (Received ''t'') = Inr (JObj
        [(''version'', JStr ''legacy''), (''slot'', JInt 5), (''meta'', JObj [(''err'', JNull), (''fee'', JInt 5000)]),
         (''transaction'', JArr [JStr e, JStr ''base64''])])"
  "read_response (edge_env e) (Received ''s'') = Inr (JObj [(''value'', JArr [JObj
        [(''confirmationStatus'', JStr ''finalized''), (''err'', JNull), (''slot'', JInt 5)]])])"
  by (simp_all add: read_response_def edge_env_def edge_reply_def MAX_RESPONSE_BYTES_def)

lemma edge_exchange:
  "length (request_body (edge_env e) method params) \<le> 8192 \<Longrightarrow> exchange (edge_env e) edge_net method params n =
    (read_response (edge_env e) (Received (if n = 0 then ''g'' else if n = 1 then ''t'' else ''s'')), Suc n)"
  by (simp add: exchange_def edge_net_def)

lemma edge_bodies:
  assumes "length signature \<le> 88"
  shows "length (request_body (edge_env e) ''getGenesisHash'' []) \<le> 8192"
    "length (request_body (edge_env e) ''getTransaction'' (transaction_params signature)) \<le> 8192"
    "length (request_body (edge_env e) ''getSignatureStatuses'' (status_params signature)) \<le> 8192"
  using assms length_dump_string [of signature] length_dump_string [of "''jsonrpc''"] length_dump_string [of "''2.0''"] length_dump_string [of "''id''"]
    length_dump_string [of "''method''"] length_dump_string [of "''params''"] length_dump_string [of "''getGenesisHash''"]
    length_dump_string [of "''getTransaction''"] length_dump_string [of "''getSignatureStatuses''"]
    length_dump_string [of "''encoding''"] length_dump_string [of "''base64''"] length_dump_string [of "''commitment''"]
    length_dump_string [of "''finalized''"] length_dump_string [of "''maxSupportedTransactionVersion''"]
    length_dump_string [of "''searchTransactionHistory''"]
  by (simp_all add: request_body_def transaction_params_def status_params_def show_int_def show_nat.simps)

lemma edge_verified:
  assumes "verify_wire edge_crypto encoded (replicate 64 (CHR ''a'')) signature edge_signer = Inr ()"
  shows "verify_finalized (edge_env encoded) edge_net (replicate 64 (CHR ''a'')) signature edge_signer 0 =
    (Inr \<lparr>vf_slot = 5, vf_block_time = None, vf_fee_lamports = 5000, vf_signer = edge_signer, vf_signature = signature\<rparr>, 3)"
proof -
  obtain sig_bytes signer_bytes where d: "decode58 signature 64 = Inr sig_bytes" "decode58 edge_signer 32 = Inr signer_bytes"
    using assms by (rule verify_wire_elim)
  then have "length signature \<le> 88" by (auto simp: decode58_def split: if_splits)
  note bodies = edge_bodies [OF this]
  have c: "commitment_bytes (replicate 64 (CHR ''a'')) = Inr (replicate 64 (CHR ''a''))"
    by (simp add: commitment_bytes_def edge_commitment)
  have g: "assert_devnet (edge_env encoded) edge_net 0 = (Inr (), 1)"
    by (simp add: assert_devnet_def sbind_def edge_exchange [OF bodies(1)] edge_responses sreturn_def)
  have t: "call (edge_env encoded) edge_net ''getTransaction'' (transaction_params signature) 1 =
      (read_response (edge_env encoded) (Received ''t''), 2)"
    by (simp add: call_def RPC_METHODS_def is_write_def transaction_params_def
        edge_exchange [OF bodies(2), unfolded transaction_params_def])
  have s: "call (edge_env encoded) edge_net ''getSignatureStatuses'' (status_params signature) 2 =
      (read_response (edge_env encoded) (Received ''s''), 3)"
    by (simp add: call_def RPC_METHODS_def is_write_def status_params_def
        edge_exchange [OF bodies(3), unfolded status_params_def])
  have w: "verify_wire (rx_crypto (edge_env encoded)) encoded (replicate 64 (CHR ''a'')) signature edge_signer = Inr ()"
    using assms by (simp add: edge_env_def)
  show ?thesis
    unfolding verify_finalized_def Let_def
    by (simp only: sbind_def slift_def c d g t s edge_responses prod.case sum.case)
      (simp add: open_transaction_def member_def on_str_def w integer_ok_def INT_MAX_def MAX_FEE_LAMPORTS_def the_int_def
        s edge_responses single_status_def finalized_at_def sbind_def slift_def sreturn_def)
qed

text \<open>
  C30.  A generated key, a commitment and a recent blockhash always give a transaction, and that transaction passes the
  module's own verification for the same commitment, signature and signer as well as its check before sending.
\<close>

theorem built_transaction_accepted:
  assumes "signature_scheme C" "length secret = 32" "hex64 c" "decode58 blockhash 32 = Inr recent"
  shows "\<exists>encoded signature. build_transaction C c (generate_keypair C secret) blockhash = Inr (encoded, signature) \<and>
    verify_wire C encoded c signature (encode58 (public_of C secret)) = Inr () \<and>
    check_send C [JStr encoded, send_config] = Inr ()"
  by (rule built_transaction_sends [OF assms])

theorem built_transaction_accepted_witness:
  "\<exists>encoded signature. build_transaction edge_crypto (replicate 64 (CHR ''a'')) (generate_keypair edge_crypto edge_secret)
      edge_blockhash = Inr (encoded, signature) \<and>
    verify_wire edge_crypto encoded (replicate 64 (CHR ''a'')) signature (encode58 (public_of edge_crypto edge_secret)) = Inr () \<and>
    check_send edge_crypto [JStr encoded, send_config] = Inr ()"
  by (rule built_transaction_accepted [OF edge_scheme edge_key(1) edge_commitment edge_key(2)])

text \<open>
  An accepted transaction binds: once an encoded transaction is accepted for a commitment, a signature and a signer,
  no verification under any signature scheme accepts it for another.
\<close>

theorem transaction_binding:
  assumes "verify_wire C encoded c signature signer = Inr ()"
  shows "verify_wire C' encoded c' signature' signer' = Inr () \<longrightarrow> c' = c \<and> signature' = signature \<and> signer' = signer"
  using accepted_wire_binding [OF assms] by blast

theorem transaction_binding_witness:
  "\<exists>encoded signature. build_transaction edge_crypto (replicate 64 (CHR ''a'')) (generate_keypair edge_crypto edge_secret)
      edge_blockhash = Inr (encoded, signature) \<and>
    verify_wire edge_crypto encoded (replicate 64 (CHR ''b'')) signature edge_signer \<noteq> Inr ()"
proof -
  obtain encoded signature where built: "build_transaction edge_crypto (replicate 64 (CHR ''a'')) (generate_keypair edge_crypto edge_secret)
      edge_blockhash = Inr (encoded, signature)"
    and ok: "verify_wire edge_crypto encoded (replicate 64 (CHR ''a'')) signature edge_signer = Inr ()"
    by (rule edge_transaction)
  have "replicate 64 (CHR ''b'') \<noteq> replicate 64 (CHR ''a'')" by simp
  then have "verify_wire edge_crypto encoded (replicate 64 (CHR ''b'')) signature edge_signer \<noteq> Inr ()"
    using transaction_binding [OF ok, of edge_crypto "replicate 64 (CHR ''b'')"] by blast
  with built show ?thesis by blast
qed

text \<open>
  Whatever the endpoint answered: a verification that succeeds rests on a signature of the expected signer over
  the message of exactly this commitment, and reports that signer, that signature and a fee within the bound.
\<close>

theorem verification_sound:
  assumes "verify_finalized X net c signature signer s = (Inr v, s')"
  shows "signed_commitment (rx_crypto X) c signature signer \<and> vf_signer v = signer \<and> vf_signature v = signature \<and>
    0 \<le> vf_slot v \<and> 0 \<le> vf_fee_lamports v \<and> vf_fee_lamports v \<le> MAX_FEE_LAMPORTS"
  by (rule verified_sound [OF assms])

theorem verification_sound_witness:
  "\<exists>signature (v :: verified). signed_commitment edge_crypto (replicate 64 (CHR ''a'')) signature edge_signer \<and> vf_signer v = edge_signer \<and>
    vf_slot v = 5 \<and> vf_fee_lamports v \<le> MAX_FEE_LAMPORTS"
proof -
  obtain encoded signature where
    ok: "verify_wire edge_crypto encoded (replicate 64 (CHR ''a'')) signature edge_signer = Inr ()"
    by (rule edge_transaction)
  define v where "v = \<lparr>vf_slot = 5, vf_block_time = None, vf_fee_lamports = 5000, vf_signer = edge_signer, vf_signature = signature\<rparr>"
  have "rx_crypto (edge_env encoded) = edge_crypto" "vf_slot v = 5" by (simp_all add: edge_env_def v_def)
  with verification_sound [OF edge_verified [OF ok, folded v_def]] show ?thesis
    by (intro exI [of _ signature] exI [of _ v]) simp
qed

text \<open>
  What reaches the network, whatever it answers: a call sends nothing but the genesis check and its own request,
  and that only when the method is known and its parameters pass the checks for writes; the status of a submission and
  the verification of a transaction only ever send reading requests, so neither can submit anything.
\<close>

theorem network_discipline:
  "sends (\<lambda>l. l) (permitted X method params) (call X (recorded answer) method params) \<and>
   sends (\<lambda>l. l) (read_request X) (verify_finalized X (recorded answer) c signature signer) \<and>
   sends (\<lambda>l. l) (read_request X) (submission_status X (recorded answer) signature last_valid)"
  using recorded_net.sends_call recorded_net.verification_reads recorded_net.submission_reads unfolding on_sent_id by blast

end
