(* ===== verification/Publish.thy ===== *)
theory Publish
  imports Solana
begin

text \<open>
  Publication of a commitment, \<open>publish\<close> of \<open>attest_cli.py\<close>, with \<open>write_private\<close> of \<open>cli.py\<close>.  A machine is its
  files and a log of what it did: the request bodies that left it and the files it created.  Ed25519, the
  answers of the network, the outcome of a write, the text of \<open>json.dump\<close> and the readings of the monotonic clock
  are arguments.
\<close>

subsection \<open>Files\<close>

text \<open>A path is its parent and its last component.\<close>

type_synonym path = "string \<times> string"

datatype happening =
    Sent string
  | Created path string
  | Removed path

record machine =
  mc_files :: "path \<Rightarrow> string option"
  mc_log :: "happening list"

text \<open>What the operating system does with a write: it may refuse to create the file, or fail after some characters.\<close>

datatype disk_outcome = Refuses | Breaks nat | Writes

type_synonym disk = "happening list \<Rightarrow> path \<Rightarrow> disk_outcome"

definition create_file :: "path \<Rightarrow> string \<Rightarrow> machine \<Rightarrow> machine" where
  "create_file p text m = m\<lparr>mc_files := (mc_files m)(p \<mapsto> text), mc_log := mc_log m @ [Created p text]\<rparr>"

text \<open>\<open>os.open\<close> with \<open>O_CREAT | O_EXCL\<close>, then the document and a newline.\<close>

definition write_private :: "(json \<Rightarrow> string) \<Rightarrow> disk \<Rightarrow> path \<Rightarrow> json \<Rightarrow> machine \<Rightarrow> (string + unit) \<times> machine" where
  "write_private render disk p data m =
     (let text = render data @ [CHR 0x0A]
      in case disk (mc_log m) p of
           Refuses \<Rightarrow> (Inl ''OSError'', m)
         | Breaks n \<Rightarrow>
             if mc_files m p \<noteq> None then (Inl ''FileExistsError'', m)
             else (Inl ''OSError'', create_file p (take n text) m)
         | Writes \<Rightarrow>
             if mc_files m p \<noteq> None then (Inl ''FileExistsError'', m)
             else (Inr (), create_file p text m))"

definition file_exists :: "path \<Rightarrow> machine \<Rightarrow> bool" where
  "file_exists p m \<longleftrightarrow> mc_files m p \<noteq> None"

text \<open>\<open>output.with_name(output.name + ".pending.json")\<close>.\<close>

definition pending_path :: "path \<Rightarrow> string + path" where
  "pending_path p = (if snd p = [] then Inl ''ValueError'' else Inr (fst p, snd p @ ''.pending.json''))"

subsection \<open>Submission\<close>

definition finalized_config :: json where
  "finalized_config = JObj [(''commitment'', JStr ''finalized'')]"

text \<open>The member \<open>value\<close> of a reply, if the reply is an object.\<close>

definition reply_value :: "json \<Rightarrow> json option" where
  "reply_value v = (case v of JObj ms \<Rightarrow> map_of ms ''value'' | _ \<Rightarrow> None)"

definition read_block :: "json \<Rightarrow> string + int \<times> string" where
  "read_block v =
     (case reply_value v of
        Some (JObj block) \<Rightarrow>
          (case (map_of block ''lastValidBlockHeight'', map_of block ''blockhash'') of
             (Some (JInt height), Some (JStr blockhash)) \<Rightarrow>
               if 0 \<le> height \<and> height < 2 ^ 63 then Inr (height, blockhash) else Inl ''invalid blockhash metadata''
           | _ \<Rightarrow> Inl ''invalid blockhash metadata'')
      | _ \<Rightarrow> Inl ''invalid blockhash response'')"

definition read_fee :: "json \<Rightarrow> string + int" where
  "read_fee v =
     (case reply_value v of
        Some (JInt fee) \<Rightarrow>
          if 0 < fee \<and> fee \<le> 10000 then Inr fee else Inl ''fee exceeds Devnet publication limit or blockhash expired''
      | _ \<Rightarrow> Inl ''fee exceeds Devnet publication limit or blockhash expired'')"

definition check_balance :: "int \<Rightarrow> json \<Rightarrow> string + unit" where
  "check_balance fee v =
     (case reply_value v of
        Some (JInt balance) \<Rightarrow> require_that (fee \<le> balance) ''insufficient free Devnet funds''
      | _ \<Rightarrow> Inl ''insufficient free Devnet funds'')"

definition pending_record :: "string \<Rightarrow> string \<Rightarrow> string \<Rightarrow> int \<Rightarrow> json" where
  "pending_record digest signer signature height = JObj
     [(''status'', JStr ''pending''), (''commitment_sha256'', JStr digest), (''signer'', JStr signer),
      (''signature'', JStr signature), (''last_valid_block_height'', JInt height)]"

definition publish_config :: json where
  "publish_config = JObj
     [(''encoding'', JStr ''base64''), (''skipPreflight'', JBool False), (''preflightCommitment'', JStr ''finalized''),
      (''maxRetries'', JInt 0)]"

text \<open>\<open>base64.b64encode(base64.b64decode(transaction)[65:])\<close>.\<close>

definition message_text :: "string \<Rightarrow> string + string" where
  "message_text transaction =
     (case b64decode transaction of None \<Rightarrow> Inl ''binascii.Error'' | Some wire \<Rightarrow> Inr (b64encode (drop 65 wire)))"

text \<open>The signer of the bundle, a fresh output, and a transaction that the payer can afford.\<close>

definition claim_output :: "rpc_env \<Rightarrow> commitment_bundle \<Rightarrow> json \<Rightarrow> path \<Rightarrow> machine \<Rightarrow> (string + string \<times> path) \<times> machine" where
  "claim_output X bundle keypair output =
     sbind (slift (signer_public_key (rx_crypto X) keypair)) (\<lambda>signer.
       if signer \<noteq> bn_expected_signer bundle then sfail ''signer does not match commitment''
       else sbind (slift (pending_path output)) (\<lambda>pending m.
         if file_exists output m \<or> file_exists pending m
         then (Inl ''receipt already exists; verify its signature instead of resubmitting'', m)
         else (Inr (signer, pending), m)))"

definition quote_transaction ::
    "rpc_env \<Rightarrow> machine wire_step \<Rightarrow> string \<Rightarrow> json \<Rightarrow> string \<Rightarrow> machine \<Rightarrow> (string + string \<times> string \<times> int) \<times> machine" where
  "quote_transaction X net digest keypair signer =
     sbind (assert_devnet X net) (\<lambda>_.
     sbind (call X net ''getLatestBlockhash'' [finalized_config]) (\<lambda>block_response.
     sbind (slift (read_block block_response)) (\<lambda>(height, blockhash).
     sbind (slift (build_transaction (rx_crypto X) digest keypair blockhash)) (\<lambda>(transaction, signature).
     sbind (slift (message_text transaction)) (\<lambda>text.
     sbind (call X net ''getFeeForMessage'' [JStr text, finalized_config]) (\<lambda>fee_response.
     sbind (slift (read_fee fee_response)) (\<lambda>fee.
     sbind (call X net ''getBalance'' [JStr signer, finalized_config]) (\<lambda>balance_response.
     sbind (slift (check_balance fee balance_response)) (\<lambda>_.
       sreturn (transaction, signature, height))))))))))"

definition submit ::
    "rpc_env \<Rightarrow> (json \<Rightarrow> string) \<Rightarrow> disk \<Rightarrow> machine wire_step \<Rightarrow> commitment_bundle \<Rightarrow> json \<Rightarrow> path \<Rightarrow> machine \<Rightarrow>
     (string + string \<times> string \<times> string) \<times> machine" where
  "submit X render disk net bundle keypair output =
     sbind (claim_output X bundle keypair output) (\<lambda>(signer, pending).
     let digest = commitment (rx_runtime X) bundle in
     sbind (quote_transaction X net digest keypair signer) (\<lambda>(transaction, signature, height).
     sbind (write_private render disk pending (pending_record digest signer signature height)) (\<lambda>_.
     sbind (call X net ''sendTransaction'' [JStr transaction, publish_config]) (\<lambda>sent.
       if sent \<noteq> JStr signature then sfail ''RPC returned a different transaction signature''
       else sreturn (digest, signature, signer)))))"

subsection \<open>Waiting for finality\<close>

definition status_entry :: "json \<Rightarrow> string + json" where
  "status_entry v =
     (case reply_value v of Some (JArr [x]) \<Rightarrow> Inr x | _ \<Rightarrow> Inl ''invalid signature status response'')"

text \<open>Whether the entry is final; a reported error raises.\<close>

definition status_final :: "json \<Rightarrow> string + bool" where
  "status_final v =
     (case v of
        JNull \<Rightarrow> Inr False
      | JObj ms \<Rightarrow>
          (case map_of ms ''err'' of
             None \<Rightarrow> Inl ''invalid signature status''
           | Some err \<Rightarrow>
               if err \<noteq> JNull then Inl ''Devnet transaction failed; see pending signature''
               else Inr (map_of ms ''confirmationStatus'' = Some (JStr ''finalized'')))
      | _ \<Rightarrow> Inl ''invalid signature status'')"

definition with_commitment :: "string \<Rightarrow> json \<Rightarrow> json" where
  "with_commitment digest v =
     (case v of JObj ms \<Rightarrow> JObj (ms @ [(''commitment_sha256'', JStr digest)]) | _ \<Rightarrow> v)"

definition poll_once ::
    "rpc_env \<Rightarrow> (json \<Rightarrow> string) \<Rightarrow> disk \<Rightarrow> machine wire_step \<Rightarrow> path \<Rightarrow> string \<Rightarrow> string \<Rightarrow> string \<Rightarrow> machine \<Rightarrow>
     (string + json option) \<times> machine" where
  "poll_once X render disk net output digest signature signer =
     sbind (call X net ''getSignatureStatuses'' (status_params signature)) (\<lambda>response.
     sbind (slift (status_entry response)) (\<lambda>entry.
     sbind (slift (status_final entry)) (\<lambda>final.
       if \<not> final then sreturn None
       else
         sbind (verify_finalized X net digest signature signer) (\<lambda>v.
         let receipt = with_commitment digest (receipt_json v) in
         sbind (write_private render disk output receipt) (\<lambda>_. sreturn (Some receipt))))))"

text \<open>
  The loop.  \<open>clock k\<close> is the \<open>k\<close>-th reading of \<open>time.monotonic\<close>; the loop has no bound of its own, so it is given
  fuel, and running out of it is an outcome of its own.
\<close>

datatype publish_error = Raised string | Out_of_fuel

definition raising :: "('s \<Rightarrow> (string + 'a) \<times> 's) \<Rightarrow> 's \<Rightarrow> (publish_error + 'a) \<times> 's" where
  "raising f s = (let (r, s') = f s in (map_sum Raised id r, s'))"

fun poll ::
    "rpc_env \<Rightarrow> (json \<Rightarrow> string) \<Rightarrow> disk \<Rightarrow> machine wire_step \<Rightarrow> (nat \<Rightarrow> real) \<Rightarrow> real \<Rightarrow> path \<Rightarrow> string \<Rightarrow> string \<Rightarrow> string \<Rightarrow>
     nat \<Rightarrow> nat \<Rightarrow> machine \<Rightarrow> (publish_error + json) \<times> machine" where
  "poll X render disk net clock deadline output digest signature signer 0 k m = (Inl Out_of_fuel, m)"
| "poll X render disk net clock deadline output digest signature signer (Suc fuel) k m =
     (if clock k < deadline then
        sbind (raising (poll_once X render disk net output digest signature signer)) (\<lambda>r.
          case r of
            Some receipt \<Rightarrow> sreturn receipt
          | None \<Rightarrow> poll X render disk net clock deadline output digest signature signer fuel (Suc k)) m
      else (Inl (Raised ''finalization pending; verify the saved signature later''), m))"

definition publish ::
    "rpc_env \<Rightarrow> (json \<Rightarrow> string) \<Rightarrow> disk \<Rightarrow> machine wire_step \<Rightarrow> (nat \<Rightarrow> real) \<Rightarrow> real \<Rightarrow> nat \<Rightarrow> commitment_bundle \<Rightarrow> json \<Rightarrow> path \<Rightarrow>
     machine \<Rightarrow> (publish_error + json) \<times> machine" where
  "publish X render disk net clock wait_seconds fuel bundle keypair output =
     sbind (raising (submit X render disk net bundle keypair output)) (\<lambda>(digest, signature, signer).
       poll X render disk net clock (clock 0 + wait_seconds) output digest signature signer fuel 1)"

end
