(* ===== verification/Publish_Facts.thy ===== *)
theory Publish_Facts
  imports Publish Solana_Facts
begin

text \<open>
  What a publication does on a machine, whatever the network and the disk answer: its transaction is submitted at
  most once for an output path, and only after its record has been saved; a receipt rests on a verified
  signature; and the waiting loop ends.
\<close>

subsection \<open>Requests\<close>

definition is_send :: "rpc_env \<Rightarrow> happening \<Rightarrow> bool" where
  "is_send X e \<longleftrightarrow> (\<exists>params. e = Sent (request_body X ''sendTransaction'' params))"

lemma request_body_shape:
  "\<exists>rest. request_body X meth params =
     (CHR ''{'' # dump_string ''jsonrpc'' @ CHR '':'' # dump_string ''2.0'' @ CHR '','' # dump_string ''id'' @ CHR '':'' # show_int 1
       @ CHR '','' # dump_string ''method'' @ [CHR '':'']) @ CHR 0x22 # concat (map escape_char meth) @ rest"
  by (simp add: request_body_def dump_string_def [of meth])

lemma send_initial: "concat (map escape_char ''sendTransaction'') = ''sendTransaction''"
  by code_simp

lemma reading_method: "meth \<in> set RPC_METHODS \<Longrightarrow> \<not> is_write meth \<Longrightarrow> hd meth = CHR ''g'' \<and> meth \<noteq> []"
  unfolding RPC_METHODS_def is_write_def by (simp, elim disjE, simp_all)

lemma read_initial:
  assumes "meth \<in> set RPC_METHODS" "\<not> is_write meth"
  shows "\<exists>rest. concat (map escape_char meth) = CHR ''g'' # rest"
proof -
  have g: "escape_char (CHR ''g'') = ''g''" by code_simp
  from reading_method [OF assms] obtain rest where "meth = CHR ''g'' # rest" by (cases meth) simp_all
  then show ?thesis by (simp only: list.map concat.simps g append_Cons append_Nil) blast
qed

lemma read_not_send:
  assumes "read_request X b"
  shows "\<not> is_send X (Sent b)"
proof
  assume "is_send X (Sent b)"
  then obtain params where s: "b = request_body X ''sendTransaction'' params" by (auto simp: is_send_def)
  obtain meth params' where r: "b = request_body X meth params'" and m: "meth \<in> set RPC_METHODS" "\<not> is_write meth"
    using assms by (auto simp: read_request_def)
  obtain g where g: "concat (map escape_char meth) = CHR ''g'' # g" using read_initial [OF m] by blast
  show False
    using request_body_shape [of X "''sendTransaction''" params] request_body_shape [of X meth params']
    unfolding s [symmetric] r [symmetric] g send_initial by auto
qed

subsection \<open>The machine as a logged network\<close>

definition wire :: "(happening list \<Rightarrow> string \<Rightarrow> transport) \<Rightarrow> machine wire_step" where
  "wire answer m body = (answer (mc_log m) body, m\<lparr>mc_log := mc_log m @ [Sent body]\<rparr>)"

interpretation machine_net: logged_net mc_log Sent "wire answer" for answer
  by unfold_locales (simp add: wire_def)

definition silent :: "rpc_env \<Rightarrow> happening \<Rightarrow> bool" where
  "silent X e \<longleftrightarrow> \<not> is_send X e"

lemma silent_read: "on_sent Sent (read_request X) e \<Longrightarrow> silent X e"
  by (auto simp: on_sent_def silent_def read_not_send)

lemma silent_call: "\<not> is_write meth \<Longrightarrow> sends mc_log (silent X) (call X (wire answer) meth params)"
  by (rule sends_weaken [OF machine_net.sends_read_call]) (simp_all add: silent_read)

lemma silent_genesis: "sends mc_log (silent X) (assert_devnet X (wire answer))"
  by (rule sends_weaken [OF machine_net.sends_read_genesis]) (simp add: silent_read)

lemma silent_verify: "sends mc_log (silent X) (verify_finalized X (wire answer) c signature signer)"
  by (rule sends_weaken [OF machine_net.verification_reads]) (simp add: silent_read)

lemma silent_quote: "sends mc_log (silent X) (quote_transaction X (wire answer) digest keypair signer)"
  unfolding quote_transaction_def by (intro sends_rules silent_call silent_genesis reads)

lemma silent_write: "sends mc_log (silent X) (write_private render disk p data)"
  by (auto simp: sends_def write_private_def create_file_def silent_def is_send_def Let_def split: disk_outcome.split)

lemma silent_poll_once: "sends mc_log (silent X) (poll_once X render disk (wire answer) output digest signature signer)"
  unfolding poll_once_def Let_def by (intro sends_rules silent_call silent_verify silent_write reads)

lemma sends_raising: "sends hist P f \<Longrightarrow> sends hist P (raising f)"
  by (auto simp: sends_def raising_def split: prod.split) (metis snd_conv)

lemma silent_poll:
  "sends mc_log (silent X) (poll X render disk (wire answer) clock deadline output digest signature signer fuel k)"
proof (induction fuel arbitrary: k)
  case 0
  show ?case by (simp add: sends_def)
next
  case (Suc fuel)
  show ?case
  proof (cases "clock k < deadline")
    case True
    have "sends mc_log (silent X) (case r of Some receipt \<Rightarrow> sreturn receipt
        | None \<Rightarrow> poll X render disk (wire answer) clock deadline output digest signature signer fuel (Suc k))" for r :: "json option"
      by (cases r) (simp_all add: sends_pure Suc)
    then have "sends mc_log (silent X) (sbind (raising (poll_once X render disk (wire answer) output digest signature signer)) (\<lambda>r.
        case r of Some receipt \<Rightarrow> sreturn receipt
        | None \<Rightarrow> poll X render disk (wire answer) clock deadline output digest signature signer fuel (Suc k)))"
      by (intro sends_sbind sends_raising silent_poll_once)
    with True show ?thesis by (simp add: sends_def)
  qed (simp add: sends_def)
qed

text \<open>A writing call sends its own request at most once.\<close>

lemma call_write_once:
  assumes "is_write meth"
  shows "\<exists>added. mc_log (snd (call X (wire answer) meth params m)) = mc_log m @ added \<and>
    length (filter (is_send X) added) \<le> 1"
proof -
  have g: "\<not> is_send X (Sent (request_body X ''getGenesisHash'' []))"
    using read_not_send [OF read_genesis [of X]] by (simp add: genesis_request_def)
  have ex: "\<exists>added. mc_log (snd (exchange X (wire answer) mt ps s)) = mc_log s @ added \<and> (added = [] \<or> added = [Sent (request_body X mt ps)])"
    for mt ps s by (simp add: exchange_def wire_def Let_def)
  have gen: "\<exists>added. mc_log (snd (assert_devnet X (wire answer) s)) = mc_log s @ added \<and> filter (is_send X) added = []" for s
    using ex [of "''getGenesisHash''" "[]" s] g
    by (cases "exchange X (wire answer) ''getGenesisHash'' [] s"; cases "fst (exchange X (wire answer) ''getGenesisHash'' [] s)")
      (auto simp: assert_devnet_def sbind_def sfail_def sreturn_def)
  show ?thesis
  proof (cases "meth \<notin> set RPC_METHODS \<or> 8 < length params")
    case True
    then show ?thesis by (auto simp: call_def sfail_def)
  next
    case False
    show ?thesis
    proof (cases "validate_write (rx_crypto X) meth params")
      case (Inl e)
      with False assms show ?thesis by (simp add: call_def sbind_def slift_def)
    next
      case (Inr u)
      obtain r s where a: "assert_devnet X (wire answer) m = (r, s)" by (cases "assert_devnet X (wire answer) m")
      then obtain added where l: "mc_log s = mc_log m @ added" "filter (is_send X) added = []" using gen [of m] by auto
      show ?thesis
      proof (cases r)
        case (Inl e)
        with False assms Inr a l show ?thesis by (simp add: call_def sbind_def slift_def)
      next
        case (Inr v)
        obtain more' where "mc_log (snd (exchange X (wire answer) meth params s)) = mc_log s @ more'" "length more' \<le> 1"
          using ex [of meth params s] by auto
        moreover from this(2) have "length (filter (is_send X) more') \<le> 1" by (rule order_trans [OF length_filter_le])
        ultimately have "length (filter (is_send X) (added @ more')) \<le> 1" using l(2) by simp
        moreover have "call X (wire answer) meth params m = exchange X (wire answer) meth params s"
          using False assms Inr \<open>validate_write _ _ _ = Inr u\<close> a by (simp add: call_def sbind_def slift_def)
        ultimately show ?thesis using l(1) \<open>mc_log (snd (exchange X (wire answer) meth params s)) = mc_log s @ more'\<close>
          by (intro exI [of _ "added @ more'"]) simp
      qed
    qed
  qed
qed

subsection \<open>Files only grow\<close>

definition tame :: "('s \<Rightarrow> 's \<Rightarrow> bool) \<Rightarrow> ('s \<Rightarrow> 'a \<times> 's) \<Rightarrow> bool" where
  "tame R f \<longleftrightarrow> (\<forall>s. R s (snd (f s)))"

text \<open>A preorder on states that every exchange with the network respects.\<close>

locale tame_net =
  fixes R :: "'s \<Rightarrow> 's \<Rightarrow> bool"
    and net :: "'s wire_step"
  assumes R_refl: "R s s"
    and R_trans: "R s s' \<Longrightarrow> R s' s'' \<Longrightarrow> R s s''"
    and R_net: "R s (snd (net s b))"
begin

lemma tame_pure: "tame R (slift r)" "tame R (sfail e)" "tame R (sreturn x)"
  by (simp_all add: tame_def slift_def sfail_def sreturn_def R_refl)

lemma tame_sbind:
  assumes "tame R m" "\<And>x. tame R (f x)"
  shows "tame R (sbind m f)"
  unfolding tame_def
proof
  fix s
  obtain x s' where m: "m s = (x, s')" by (cases "m s")
  then have "R s s'" using assms(1) unfolding tame_def by (metis snd_conv)
  moreover have "R s' (snd (f y s'))" for y using assms(2) [of y] unfolding tame_def by blast
  ultimately show "R s (snd (sbind m f s))" using m R_trans by (cases x) (auto simp: sbind_def)
qed

lemma tame_if: "(b \<Longrightarrow> tame R f) \<Longrightarrow> (\<not> b \<Longrightarrow> tame R g) \<Longrightarrow> tame R (if b then f else g)"
  by simp

lemma tame_prod: "(\<And>x y. tame R (f x y)) \<Longrightarrow> tame R (case p of (x, y) \<Rightarrow> f x y)"
  by (simp add: split_def)

lemmas tame_rules = tame_pure tame_sbind tame_if tame_prod

lemma tame_exchange: "tame R (exchange X net meth params)"
  unfolding tame_def
proof
  fix s
  show "R s (snd (exchange X net meth params s))"
    using R_net [of s "request_body X meth params"] R_refl
    by (cases "net s (request_body X meth params)") (auto simp: exchange_def Let_def)
qed

lemma tame_assert_devnet: "tame R (assert_devnet X net)"
  unfolding assert_devnet_def by (intro tame_rules tame_exchange)

lemma tame_call: "tame R (call X net meth params)"
  unfolding call_def by (intro tame_rules tame_exchange tame_assert_devnet)

lemma tame_verify: "tame R (verify_finalized X net c signature signer)"
  unfolding verify_finalized_def Let_def by (intro tame_rules tame_call tame_assert_devnet)

end

definition files_kept :: "machine \<Rightarrow> machine \<Rightarrow> bool" where
  "files_kept m m' \<longleftrightarrow> mc_files m \<subseteq>\<^sub>m mc_files m'"

interpretation machine_files: tame_net files_kept "wire answer" for answer
  by unfold_locales (auto simp: files_kept_def wire_def intro: map_le_trans)

lemma kept_write: "tame files_kept (write_private render disk p data)"
  by (auto simp: tame_def files_kept_def write_private_def create_file_def Let_def map_le_def dom_def split: disk_outcome.split)

lemma kept_quote: "tame files_kept (quote_transaction X (wire answer) digest keypair signer)"
  unfolding quote_transaction_def
  by (intro machine_files.tame_rules machine_files.tame_call machine_files.tame_assert_devnet)

lemma kept_raising: "tame R f \<Longrightarrow> tame R (raising f)"
  by (auto simp: tame_def raising_def split: prod.split) (metis snd_conv)

lemma kept_poll_once: "tame files_kept (poll_once X render disk (wire answer) output digest signature signer)"
  unfolding poll_once_def Let_def
  by (intro machine_files.tame_rules machine_files.tame_call machine_files.tame_verify kept_write)

lemma kept_poll:
  "tame files_kept (poll X render disk (wire answer) clock deadline output digest signature signer fuel k)"
proof (induction fuel arbitrary: k)
  case 0
  show ?case by (simp add: tame_def machine_files.R_refl)
next
  case (Suc fuel)
  show ?case
  proof (cases "clock k < deadline")
    case True
    have "tame files_kept (case r of Some receipt \<Rightarrow> sreturn receipt
        | None \<Rightarrow> poll X render disk (wire answer) clock deadline output digest signature signer fuel (Suc k))" for r :: "json option"
      by (cases r) (simp_all add: machine_files.tame_pure Suc)
    then have "tame files_kept (sbind (raising (poll_once X render disk (wire answer) output digest signature signer)) (\<lambda>r.
        case r of Some receipt \<Rightarrow> sreturn receipt
        | None \<Rightarrow> poll X render disk (wire answer) clock deadline output digest signature signer fuel (Suc k)))"
      by (intro machine_files.tame_sbind kept_raising kept_poll_once)
    with True show ?thesis by (simp add: tame_def)
  qed (simp add: tame_def machine_files.R_refl)
qed

subsection \<open>One submission for an output path\<close>

text \<open>At most one submission, and before it the creation of the pending record.\<close>

definition announced :: "rpc_env \<Rightarrow> path \<Rightarrow> happening list \<Rightarrow> bool" where
  "announced X pending es \<longleftrightarrow> length (filter (is_send X) es) \<le> 1 \<and>
     (\<forall>a e b. es = a @ e # b \<and> is_send X e \<longrightarrow> (\<exists>text. Created pending text \<in> set a))"

lemma announced_silent: "list_all (silent X) es \<Longrightarrow> announced X pending es"
  by (auto simp: announced_def silent_def list_all_iff)

lemma announced_extend:
  assumes "announced X pending es" "list_all (silent X) fs"
  shows "announced X pending (es @ fs)"
proof -
  have none: "\<And>e. e \<in> set fs \<Longrightarrow> \<not> is_send X e" using assms(2) by (simp add: silent_def list_all_iff)
  have "\<exists>text. Created pending text \<in> set a" if s: "es @ fs = a @ e # b" "is_send X e" for a e b
  proof (cases "length a < length es")
    case True
    then have "es = a @ e # take (length es - length a - 1) b"
      using arg_cong [OF s(1), of "take (length es)"] by (simp add: take_Cons' split: if_splits)
    with assms(1) s(2) show ?thesis unfolding announced_def by blast
  next
    case False
    then have "fs = drop (length es) a @ e # b" using arg_cong [OF s(1), of "drop (length es)"] by simp
    then have "e \<in> set fs" by simp
    with none s(2) show ?thesis by blast
  qed
  moreover have "filter (is_send X) (es @ fs) = filter (is_send X) es" using none by (simp add: filter_empty_conv)
  ultimately show ?thesis using assms(1) unfolding announced_def by simp
qed

lemma announced_start:
  assumes "list_all (silent X) es" "Created pending text \<in> set es" "length (filter (is_send X) fs) \<le> 1"
  shows "announced X pending (es @ fs)"
proof -
  have none: "\<And>e. e \<in> set es \<Longrightarrow> \<not> is_send X e" using assms(1) by (simp add: silent_def list_all_iff)
  have "\<exists>text. Created pending text \<in> set a" if s: "es @ fs = a @ e # b" "is_send X e" for a e b
  proof (cases "length a < length es")
    case True
    then have "es = a @ e # take (length es - length a - 1) b"
      using arg_cong [OF s(1), of "take (length es)"] by (simp add: take_Cons' split: if_splits)
    then have "e \<in> set es" by (metis in_set_conv_decomp)
    with none s(2) show ?thesis by blast
  next
    case False
    then have "es = take (length es) a" using arg_cong [OF s(1), of "take (length es)"] by simp
    then have "set es \<subseteq> set a" by (metis set_take_subset)
    with assms(2) show ?thesis by blast
  qed
  moreover have "filter (is_send X) es = []" using none by (simp add: filter_empty_conv)
  ultimately show ?thesis using assms(3) unfolding announced_def by simp
qed

lemma snd_sbind:
  "m s = (r, s') \<Longrightarrow> snd (sbind m f s) = (case r of Inl e \<Rightarrow> s' | Inr x \<Rightarrow> snd (f x s'))"
  by (cases r) (simp_all add: sbind_def)

lemma claim_output_state: "snd (claim_output X bundle keypair output m) = m"
  by (auto simp: claim_output_def sbind_def slift_def sfail_def split: sum.split)

lemma claim_output_Inr:
  assumes "claim_output X bundle keypair output m = (Inr (signer, pending), m')"
  shows "m' = m \<and> signer_public_key (rx_crypto X) keypair = Inr signer \<and> signer = bn_expected_signer bundle \<and>
    pending_path output = Inr pending \<and> mc_files m output = None \<and> mc_files m pending = None"
  using assms by (auto simp: claim_output_def sbind_Inr slift_Inr sfail_def file_exists_def split: if_splits)

lemma write_private_Inr:
  "write_private render disk p data m = (Inr u, m') \<longleftrightarrow>
     disk (mc_log m) p = Writes \<and> mc_files m p = None \<and> m' = create_file p (render data @ [CHR 0x0A]) m"
  by (auto simp: write_private_def Let_def split: disk_outcome.splits if_splits)

lemma kept_content: "files_kept m m' \<Longrightarrow> mc_files m p = Some text \<Longrightarrow> mc_files m' p = Some text"
  unfolding files_kept_def map_le_def by (metis domI)

definition safe_machine :: "rpc_env \<Rightarrow> path \<Rightarrow> machine \<Rightarrow> bool" where
  "safe_machine X pending m \<longleftrightarrow> announced X pending (mc_log m) \<and>
     (list_all (silent X) (mc_log m) \<or> mc_files m pending \<noteq> None)"

lemma safe_silent: "list_all (silent X) (mc_log m) \<Longrightarrow> safe_machine X pending m"
  by (simp add: safe_machine_def announced_silent)

lemma kept_file: "files_kept m m' \<Longrightarrow> mc_files m p \<noteq> None \<Longrightarrow> mc_files m' p \<noteq> None"
  unfolding files_kept_def map_le_def by (metis domIff)

lemma safe_extend:
  assumes "safe_machine X pending m" "sends mc_log (silent X) f" "tame files_kept f"
  shows "safe_machine X pending (snd (f m))"
proof -
  obtain es where es: "mc_log (snd (f m)) = mc_log m @ es" "list_all (silent X) es" using assms(2) by (auto simp: sends_def)
  have "files_kept m (snd (f m))" using assms(3) by (simp add: tame_def)
  from kept_file [OF this, of pending] assms(1) announced_extend [OF _ es(2)] es show ?thesis
    by (auto simp: safe_machine_def)
qed

lemma submit_safe:
  assumes quiet: "list_all (silent X) (mc_log m)" and pending: "pending_path output = Inr pending"
  shows "safe_machine X pending (snd (submit X render disk (wire answer) bundle keypair output m))"
proof -
  obtain r0 where c: "claim_output X bundle keypair output m = (r0, m)"
    using claim_output_state by (metis prod.collapse)
  note sc = snd_sbind [where m = "claim_output X bundle keypair output" and s = m, OF c]
  show ?thesis
  proof (cases r0)
    case (Inl e)
    then show ?thesis by (simp add: submit_def sc safe_silent [OF quiet])
  next
    case (Inr p)
    obtain signer where p: "p = (signer, pending)" using c Inr claim_output_Inr pending
      by (cases p) (metis sum.inject(2))
    define digest where "digest = commitment (rx_runtime X) bundle"
    obtain r1 m1 where q: "quote_transaction X (wire answer) digest keypair signer m = (r1, m1)" by (metis surj_pair)
    note sq = snd_sbind [where m = "quote_transaction X (wire answer) digest keypair signer" and s = m, OF q]
    have quiet1: "list_all (silent X) (mc_log m1)"
      using silent_quote [of X answer digest keypair signer] q quiet unfolding sends_def by (metis list_all_append snd_conv)
    show ?thesis
    proof (cases r1)
      case (Inl e)
      then show ?thesis
        by (simp add: submit_def sc Inr p Let_def digest_def [symmetric] sq safe_silent [OF quiet1])
    next
      case (Inr t)
      obtain transaction signature height where t: "t = (transaction, signature, height)" by (cases t)
      obtain r2 m2 where w: "write_private render disk pending (pending_record digest signer signature height) m1 = (r2, m2)"
        by (metis surj_pair)
      note sw = snd_sbind [where m = "write_private render disk pending (pending_record digest signer signature height)" and s = m1, OF w]
      obtain r3 m3 where call: "call X (wire answer) ''sendTransaction'' [JStr transaction, publish_config] m2 = (r3, m3)"
        by (metis surj_pair)
      note sd = snd_sbind [where m = "call X (wire answer) ''sendTransaction'' [JStr transaction, publish_config]" and s = m2, OF call]
      have step: "snd (submit X render disk (wire answer) bundle keypair output m) = (case r2 of Inl e \<Rightarrow> m2 | Inr u \<Rightarrow> m3)"
        by (simp add: submit_def sc \<open>r0 = Inr p\<close> p Let_def digest_def [symmetric] sq Inr t sw sd
            sfail_def sreturn_def split: sum.split)
      show ?thesis
      proof (cases r2)
        case (Inl e)
        have "list_all (silent X) (mc_log m2)"
          using silent_write [of X render disk pending] w quiet1 unfolding sends_def by (metis list_all_append snd_conv)
        then show ?thesis by (simp add: step Inl safe_silent)
      next
        case (Inr u)
        have m2: "m2 = create_file pending (render (pending_record digest signer signature height) @ [CHR 0x0A]) m1"
          using w Inr by (simp add: write_private_Inr)
        have send: "is_write ''sendTransaction''" by (simp add: is_write_def)
        obtain added where added: "mc_log m3 = mc_log m2 @ added" "length (filter (is_send X) added) \<le> 1"
          using call_write_once [OF send, of X answer "[JStr transaction, publish_config]" m2] call by auto
        have "announced X pending (mc_log m2 @ added)"
        proof (rule announced_start [OF _ _ added(2)])
          show "list_all (silent X) (mc_log m2)" using quiet1 by (simp add: m2 create_file_def silent_def is_send_def)
          show "Created pending (render (pending_record digest signer signature height) @ [CHR 0x0A]) \<in> set (mc_log m2)"
            by (simp add: m2 create_file_def)
        qed
        moreover have "mc_files m2 pending \<noteq> None" by (simp add: m2 create_file_def)
        moreover have "files_kept m2 m3" using machine_files.tame_call call unfolding tame_def by (metis snd_conv)
        ultimately have "safe_machine X pending m3" using kept_file added(1) by (simp add: safe_machine_def)
        then show ?thesis by (simp add: step Inr)
      qed
    qed
  qed
qed

lemma raising_pair: "raising f m = (map_sum Raised id (fst (f m)), snd (f m))"
  by (simp add: raising_def split: prod.split)

lemma publish_state:
  "snd (publish X render disk net clock wait fuel bundle keypair output m) =
     (case submit X render disk net bundle keypair output m of
        (Inl e, m') \<Rightarrow> m'
      | (Inr (digest, signature, signer), m') \<Rightarrow>
          snd (poll X render disk net clock (clock 0 + wait) output digest signature signer fuel 1 m'))"
  by (simp add: publish_def sbind_def raising_pair split: prod.split sum.split)

lemma publish_safe:
  assumes "list_all (silent X) (mc_log m)" "pending_path output = Inr pending"
  shows "safe_machine X pending (snd (publish X render disk (wire answer) clock wait fuel bundle keypair output m))"
proof -
  obtain r m' where s: "submit X render disk (wire answer) bundle keypair output m = (r, m')" by (metis surj_pair)
  then have safe: "safe_machine X pending m'" using submit_safe [OF assms, of render disk answer "bundle" keypair] by simp
  show ?thesis
  proof (cases r)
    case (Inr t)
    obtain digest signature signer where t: "t = (digest, signature, signer)" by (cases t)
    show ?thesis using safe_extend [OF safe silent_poll kept_poll] by (simp add: publish_state s Inr t)
  qed (simp add: publish_state s safe)
qed

text \<open>An output whose record exists is never published to again, and an output without a name never is.\<close>

lemma claim_refused:
  assumes "case pending_path output of Inl e \<Rightarrow> True | Inr pending \<Rightarrow> mc_files m pending \<noteq> None"
  shows "\<exists>e. claim_output X bundle keypair output m = (Inl e, m)"
  using assms by (auto simp: claim_output_def sbind_def slift_def sfail_def file_exists_def split: sum.splits)

lemma publish_refused:
  assumes "case pending_path output of Inl e \<Rightarrow> True | Inr pending \<Rightarrow> mc_files m pending \<noteq> None"
  shows "snd (publish X render disk net clock wait fuel bundle keypair output m) = m"
proof -
  obtain e where "claim_output X bundle keypair output m = (Inl e, m)" using claim_refused [OF assms] by blast
  then have "submit X render disk net bundle keypair output m = (Inl e, m)" by (simp add: submit_def sbind_def)
  then show ?thesis by (simp add: publish_state)
qed

text \<open>One invocation of the command, with everything around it.\<close>

record attempt =
  at_answer :: "happening list \<Rightarrow> string \<Rightarrow> transport"
  at_disk :: disk
  at_clock :: "nat \<Rightarrow> real"
  at_wait :: real
  at_fuel :: nat
  at_bundle :: commitment_bundle
  at_keypair :: json

definition run_attempt ::
    "rpc_env \<Rightarrow> (json \<Rightarrow> string) \<Rightarrow> path \<Rightarrow> attempt \<Rightarrow> machine \<Rightarrow> (publish_error + json) \<times> machine" where
  "run_attempt X render output a =
     publish X render (at_disk a) (wire (at_answer a)) (at_clock a) (at_wait a) (at_fuel a) (at_bundle a) (at_keypair a) output"

lemma attempts_safe:
  assumes "pending_path output = Inr pending" "safe_machine X pending m"
  shows "safe_machine X pending (fold (\<lambda>a m. snd (run_attempt X render output a m)) attempts m)"
  using assms(2)
proof (induction attempts arbitrary: m)
  case (Cons a attempts)
  have "safe_machine X pending (snd (run_attempt X render output a m))"
  proof (cases "mc_files m pending = None")
    case True
    then have "list_all (silent X) (mc_log m)" using Cons.prems by (simp add: safe_machine_def)
    then show ?thesis unfolding run_attempt_def by (rule publish_safe [OF _ assms(1)])
  next
    case False
    then show ?thesis using publish_refused [of m "output"] Cons.prems assms(1) by (simp add: run_attempt_def)
  qed
  then show ?case using Cons.IH by simp
qed simp

lemma attempts_unnamed:
  "pending_path output = Inl e \<Longrightarrow> fold (\<lambda>a m. snd (run_attempt X render output a m)) attempts m = m"
  by (induction attempts arbitrary: m) (simp_all add: run_attempt_def publish_refused)

subsection \<open>Receipts\<close>

lemma raising_Inr: "raising f m = (Inr x, m') \<longleftrightarrow> f m = (Inr x, m')"
  by (cases "f m"; cases "fst (f m)") (auto simp: raising_def)

lemma poll_receipt:
  assumes "poll X render disk (wire answer) clock deadline output digest signature signer fuel k m = (Inr receipt, m')"
  shows "\<exists>v m1 m2. verify_finalized X (wire answer) digest signature signer m1 = (Inr v, m2) \<and>
    receipt = with_commitment digest (receipt_json v) \<and> mc_files m' output = Some (render receipt @ [CHR 0x0A])"
  using assms
proof (induction fuel arbitrary: k m)
  case (Suc fuel)
  obtain r m1 where once: "poll_once X render disk (wire answer) output digest signature signer m = (Inr r, m1)"
    and rest: "(case r of Some receipt \<Rightarrow> sreturn receipt
        | None \<Rightarrow> poll X render disk (wire answer) clock deadline output digest signature signer fuel (Suc k)) m1 = (Inr receipt, m')"
    using Suc.prems by (auto simp: sbind_Inr raising_Inr split: if_splits)
  show ?case
  proof (cases r)
    case None
    then show ?thesis using Suc.IH rest by simp
  next
    case (Some x)
    then have x: "x = receipt" "m1 = m'" using rest by (simp_all add: sreturn_def)
    from once Some x obtain v s2 s3 where "verify_finalized X (wire answer) digest signature signer s2 = (Inr v, s3)"
      "receipt = with_commitment digest (receipt_json v)" "write_private render disk output receipt s3 = (Inr (), m')"
      by (auto simp: poll_once_def sbind_Inr slift_Inr sreturn_def Let_def split: if_splits)
    then show ?thesis by (auto simp: write_private_Inr create_file_def)
  qed
qed simp

lemma submit_Inr:
  assumes "submit X render disk (wire answer) bundle keypair output m = (Inr (digest, signature, signer), m')"
  shows "digest = commitment (rx_runtime X) bundle \<and> signer = bn_expected_signer bundle \<and> mc_files m output = None \<and>
    (\<exists>pending height. pending_path output = Inr pending \<and> mc_files m pending = None \<and>
      mc_files m' pending = Some (render (pending_record digest signer signature height) @ [CHR 0x0A]))"
proof -
  obtain pending m0 m1 m2 transaction height where
    c: "claim_output X bundle keypair output m = (Inr (signer, pending), m0)" and d: "digest = commitment (rx_runtime X) bundle"
    and w: "write_private render disk pending (pending_record digest signer signature height) m1 = (Inr (), m2)"
    and s: "call X (wire answer) ''sendTransaction'' [JStr transaction, publish_config] m2 = (Inr (JStr signature), m')"
    using assms by (auto simp: submit_def sbind_Inr Let_def sfail_def sreturn_def split: if_splits)
  have "files_kept m2 m'" using machine_files.tame_call s unfolding tame_def by (metis snd_conv)
  moreover have "mc_files m2 pending = Some (render (pending_record digest signer signature height) @ [CHR 0x0A])"
    using w by (simp add: write_private_Inr create_file_def)
  ultimately have "mc_files m' pending = Some (render (pending_record digest signer signature height) @ [CHR 0x0A])"
    by (rule kept_content)
  with d claim_output_Inr [OF c] show ?thesis by auto
qed

lemma publish_receipt:
  assumes "publish X render disk (wire answer) clock wait fuel bundle keypair output m = (Inr receipt, m')"
  shows "\<exists>v pending height. receipt = with_commitment (commitment (rx_runtime X) bundle) (receipt_json v) \<and>
    signed_commitment (rx_crypto X) (commitment (rx_runtime X) bundle) (vf_signature v) (bn_expected_signer bundle) \<and>
    vf_signer v = bn_expected_signer bundle \<and> mc_files m output = None \<and>
    mc_files m' output = Some (render receipt @ [CHR 0x0A]) \<and>
    pending_path output = Inr pending \<and> mc_files m pending = None \<and>
    mc_files m' pending = Some (render (pending_record (commitment (rx_runtime X) bundle) (bn_expected_signer bundle)
      (vf_signature v) height) @ [CHR 0x0A])"
proof -
  obtain digest signature signer m1 where s: "submit X render disk (wire answer) bundle keypair output m = (Inr (digest, signature, signer), m1)"
    and p: "poll X render disk (wire answer) clock (clock 0 + wait) output digest signature signer fuel 1 m1 = (Inr receipt, m')"
    using assms by (auto simp: publish_def sbind_Inr raising_Inr)
  obtain v s1 s2 where v: "verify_finalized X (wire answer) digest signature signer s1 = (Inr v, s2)"
    "receipt = with_commitment digest (receipt_json v)" "mc_files m' output = Some (render receipt @ [CHR 0x0A])"
    using poll_receipt [OF p] by blast
  obtain pending height where d: "digest = commitment (rx_runtime X) bundle" "signer = bn_expected_signer bundle" "mc_files m output = None"
    and e: "pending_path output = Inr pending" "mc_files m pending = None"
    "mc_files m1 pending = Some (render (pending_record digest signer signature height) @ [CHR 0x0A])"
    using submit_Inr [OF s] by blast
  have "files_kept m1 m'" using kept_poll p unfolding tame_def by (metis snd_conv)
  from kept_content [OF this e(3)] show ?thesis using verified_sound [OF v(1)] v(2,3) d e by auto
qed

subsection \<open>The loop ends\<close>

lemma raised_not_fuel [simp]: "map_sum Raised f r \<noteq> Inl Out_of_fuel"
  by (cases r) simp_all

text \<open>\<open>time.sleep(1.5)\<close> lets at least that much pass between two readings.\<close>

definition sleeps :: "(nat \<Rightarrow> real) \<Rightarrow> bool" where
  "sleeps clock \<longleftrightarrow> clock 0 \<le> clock 1 \<and> (\<forall>k \<ge> 1. clock k + 3 / 2 \<le> clock (Suc k))"

lemma sleeps_progress: "sleeps clock \<Longrightarrow> 1 \<le> k \<Longrightarrow> clock 1 + 3 / 2 * (real k - 1) \<le> clock k"
proof (induction k)
  case (Suc k)
  show ?case
  proof (cases "k = 0")
    case False
    then have "clock k + 3 / 2 \<le> clock (Suc k)" using Suc.prems by (simp add: sleeps_def)
    with Suc False show ?thesis by (simp add: field_simps)
  qed simp
qed simp

lemma poll_ends:
  assumes "sleeps clock" "deadline \<le> clock 1 + 3 / 2 * (real (k + fuel) - 2)" "1 \<le> k" "0 < fuel"
  shows "fst (poll X render disk net clock deadline output digest signature signer fuel k m) \<noteq> Inl Out_of_fuel"
  using assms(2-)
proof (induction fuel arbitrary: k m)
  case (Suc fuel)
  show ?case
  proof (cases "clock k < deadline")
    case True
    then have fuel: "0 < fuel" using sleeps_progress [OF assms(1) Suc.prems(2)] Suc.prems(1) by (cases fuel) auto
    have IH: "fst (poll X render disk net clock deadline output digest signature signer fuel (Suc k) m') \<noteq> Inl Out_of_fuel" for m'
      using Suc.IH [of "Suc k"] Suc.prems fuel by simp
    show ?thesis
      using True IH by (auto simp: sbind_def raising_def sreturn_def split: prod.split sum.split option.split)
  qed simp
qed simp

lemma publish_ends:
  assumes "sleeps clock" "wait \<le> 3 / 2 * (real fuel - 1)" "0 < fuel"
  shows "fst (publish X render disk net clock wait fuel bundle keypair output m) \<noteq> Inl Out_of_fuel"
proof -
  have "clock 0 \<le> clock 1" using assms(1) by (simp add: sleeps_def)
  then have "clock 0 + wait \<le> clock 1 + 3 / 2 * (real (1 + fuel) - 2)" using assms(2) by (simp add: field_simps)
  from poll_ends [OF assms(1) this _ assms(3)] show ?thesis
    by (auto simp: publish_def sbind_def raising_def split: prod.split sum.split)
qed

end
