(* ===== verification/Json_Inject.thy ===== *)
theory Json_Inject
  imports Attestation "HOL-Library.Multiset"
begin

text \<open>
  The compact JSON text determines the value: no two values without floats have the same encoding, even when more
  text follows.  The canonical bytes of a commitment bundle therefore determine the bundle, and two bundles with one
  commitment are a collision of SHA-256.
\<close>

subsection \<open>Strings\<close>

definition nibble :: "char \<Rightarrow> nat" where
  "nibble c = (if is_digit c then code c - 48 else code c - 87)"

text \<open>The character at the head of an escaped text.\<close>

definition unescape :: "string \<Rightarrow> char \<times> string" where
  "unescape s =
     (if hd s \<noteq> CHR 0x5C then (hd s, tl s)
      else let k = hd (tl s); rest = tl (tl s) in
        if k = CHR 0x22 \<or> k = CHR 0x5C then (k, rest)
        else if k = CHR ''n'' then (CHR 0x0A, rest)
        else if k = CHR ''r'' then (CHR 0x0D, rest)
        else if k = CHR ''t'' then (CHR 0x09, rest)
        else if k = CHR ''f'' then (CHR 0x0C, rest)
        else if k = CHR ''b'' then (CHR 0x08, rest)
        else (char_of (nibble (rest ! 2) * 16 + nibble (rest ! 3)), drop 4 rest))"

lemma nibble_digit: "d < 16 \<Longrightarrow> nibble (digit_char d) = d"
proof -
  have "\<forall>d \<in> set [0..<16]. nibble (digit_char d) = d" by code_simp
  then show "d < 16 \<Longrightarrow> nibble (digit_char d) = d" by simp
qed

lemma unescape_escape: "unescape (escape_char c @ x) = (c, x)"
proof -
  have "code c div 16 < 16" by (simp add: code_def less_mult_imp_div_less)
  then have n: "nibble (digit_char (code c div 16)) * 16 + nibble (digit_char (code c mod 16)) = code c"
    by (simp add: nibble_digit)
  have "char_of (code c) = c" by (simp add: code_def)
  with n show ?thesis
    by (simp add: escape_char_def unescape_def Let_def numeral_2_eq_2 numeral_3_eq_3)
qed

lemma escape_head: "escape_char c \<noteq> []" "hd (escape_char c) \<noteq> CHR 0x22"
  by (simp_all add: escape_char_def)

lemma escape_inject: "escape_char c @ x = escape_char c' @ y \<Longrightarrow> c = c' \<and> x = y"
  by (metis unescape_escape prod.inject)

lemma escapes_inject:
  "concat (map escape_char s) @ CHR 0x22 # x = concat (map escape_char s') @ CHR 0x22 # y \<Longrightarrow> s = s' \<and> x = y"
proof (induction s arbitrary: s')
  case Nil
  show ?case
  proof (cases s')
    case (Cons c t)
    then have "hd (escape_char c @ concat (map escape_char t) @ CHR 0x22 # y) = CHR 0x22" using Nil by (metis append.assoc concat.simps(2) list.map(2) list.sel(1) append_Nil concat.simps(1) list.map(1))
    then show ?thesis using escape_head [of c] by (simp add: hd_append)
  qed (use Nil in simp)
next
  case (Cons c s)
  show ?case
  proof (cases s')
    case Nil
    then have "hd (escape_char c @ concat (map escape_char s) @ CHR 0x22 # x) = CHR 0x22" using Cons.prems by (metis append.assoc concat.simps(2) list.map(2) list.sel(1) append_Nil concat.simps(1) list.map(1))
    then show ?thesis using escape_head [of c] by (simp add: hd_append)
  next
    case (Cons c' t)
    then have "escape_char c @ (concat (map escape_char s) @ CHR 0x22 # x) = escape_char c' @ (concat (map escape_char t) @ CHR 0x22 # y)"
      using Cons.prems by simp
    from escape_inject [OF this] Cons.IH Cons show ?thesis by blast
  qed
qed

lemma dump_string_inject: "dump_string s @ x = dump_string s' @ y \<Longrightarrow> s = s' \<and> x = y"
  using escapes_inject [of s x s' y] by (simp add: dump_string_def)

subsection \<open>Numbers\<close>

lemma digit_char_digit: "d < 10 \<Longrightarrow> is_digit (digit_char d) \<and> digit_char d \<noteq> CHR ''-''"
proof -
  have "\<forall>d \<in> set [0..<10]. is_digit (digit_char d) \<and> digit_char d \<noteq> CHR ''-''" by code_simp
  then show "d < 10 \<Longrightarrow> is_digit (digit_char d) \<and> digit_char d \<noteq> CHR ''-''" by simp
qed

lemma show_nat_digits': "show_nat n \<noteq> [] \<and> list_all is_digit (show_nat n)"
proof (induction n rule: show_nat.induct)
  case (1 n)
  then show ?case using digit_char_digit [of n] digit_char_digit [of "n mod 10"]
    by (cases "n < 10") (simp_all add: show_nat.simps [of n])
qed

definition read_nat :: "string \<Rightarrow> nat" where
  "read_nat s = foldl (\<lambda>n c. n * 10 + (code c - 48)) 0 s"

lemma digit_char_value: "d < 10 \<Longrightarrow> code (digit_char d) - 48 = d"
proof -
  have "\<forall>d \<in> set [0..<10]. code (digit_char d) - 48 = d" by code_simp
  then show "d < 10 \<Longrightarrow> code (digit_char d) - 48 = d" by simp
qed

lemma read_show_nat: "read_nat (show_nat n) = n"
proof (induction n rule: show_nat.induct)
  case (1 n)
  show ?case
  proof (cases "n < 10")
    case False
    then have "read_nat (show_nat n) = read_nat (show_nat (n div 10)) * 10 + (code (digit_char (n mod 10)) - 48)"
      by (simp add: show_nat.simps [of n] read_nat_def)
    with 1 False digit_char_value [of "n mod 10"] show ?thesis by simp
  qed (simp add: show_nat.simps [of n] read_nat_def digit_char_value)
qed

text \<open>What follows a value inside a text.\<close>

definition ends_value :: "string \<Rightarrow> bool" where
  "ends_value s \<longleftrightarrow> s = [] \<or> hd s \<in> {CHR '','', CHR '']'', CHR 0x7D}"

lemma ends_no_digit: "ends_value x \<Longrightarrow> x = [] \<or> \<not> is_digit (hd x)"
  by (auto simp: ends_value_def is_digit_def char_in_def code_def)

lemma show_nat_inject:
  assumes "show_nat n @ x = show_nat m @ y" "ends_value x" "ends_value y"
  shows "n = m \<and> x = y"
proof -
  have "takeWhile is_digit (show_nat k @ z) = show_nat k" if "ends_value z" for k z
    using show_nat_digits' [of k] ends_no_digit [OF that]
    by (subst takeWhile_append2) (auto simp: list_all_iff takeWhile_eq_Nil_iff)
  then have "show_nat n = show_nat m" using assms by metis
  then have "n = m" using read_show_nat by metis
  with assms(1) show ?thesis by simp
qed

lemma hd_show_nat: "hd (show_nat n @ x) \<noteq> CHR ''-'' \<and> is_digit (hd (show_nat n @ x))"
proof -
  have "is_digit (hd (show_nat n))" using show_nat_digits' [of n] by (cases "show_nat n") auto
  moreover have "\<not> is_digit (CHR ''-'')" by code_simp
  ultimately show ?thesis using show_nat_digits' [of n] by (auto simp: hd_append)
qed

lemma show_int_inject:
  assumes "show_int i @ x = show_int j @ y" "ends_value x" "ends_value y"
  shows "i = j \<and> x = y"
proof (cases "i < 0"; cases "j < 0")
  assume ij: "i < 0" "j < 0"
  then have "show_nat (nat (- i)) @ x = show_nat (nat (- j)) @ y" using assms(1) by (simp add: show_int_def)
  from show_nat_inject [OF this assms(2,3)] ij show ?thesis by auto
next
  assume ij: "i < 0" "\<not> j < 0"
  then have "CHR ''-'' # show_nat (nat (- i)) @ x = show_nat (nat j) @ y" using assms(1) by (simp add: show_int_def)
  then have "hd (show_nat (nat j) @ y) = CHR ''-''" by (metis list.sel(1))
  then show ?thesis using hd_show_nat by blast
next
  assume ij: "\<not> i < 0" "j < 0"
  then have "CHR ''-'' # show_nat (nat (- j)) @ y = show_nat (nat i) @ x" using assms(1) by (simp add: show_int_def)
  then have "hd (show_nat (nat i) @ x) = CHR ''-''" by (metis list.sel(1))
  then show ?thesis using hd_show_nat by blast
next
  assume ij: "\<not> i < 0" "\<not> j < 0"
  then have "show_nat (nat i) @ x = show_nat (nat j) @ y" using assms(1) by (simp add: show_int_def)
  from show_nat_inject [OF this assms(2,3)] ij show ?thesis by auto
qed

subsection \<open>Values\<close>

fun no_floats :: "json \<Rightarrow> bool" where
  "no_floats (JFloat x) = False"
| "no_floats (JArr vs) = list_all no_floats vs"
| "no_floats (JObj ms) = list_all (\<lambda>p. no_floats (snd p)) ms"
| "no_floats _ = True"

definition kind :: "char \<Rightarrow> nat" where
  "kind c = (if c = CHR ''n'' then 0 else if c = CHR ''t'' \<or> c = CHR ''f'' then 1 else if is_digit c \<or> c = CHR ''-'' then 2
     else if c = CHR 0x22 then 3 else if c = CHR ''['' then 4 else if c = CHR 0x7B then 5 else 6)"

fun kind_of :: "json \<Rightarrow> nat" where
  "kind_of JNull = 0"
| "kind_of (JBool b) = 1"
| "kind_of (JInt i) = 2"
| "kind_of (JFloat x) = 6"
| "kind_of (JStr s) = 3"
| "kind_of (JArr vs) = 4"
| "kind_of (JObj ms) = 5"

lemma kind_digit: "is_digit c \<Longrightarrow> kind c = 2"
  by (auto simp: kind_def is_digit_def char_in_def code_def)

lemma kinds: "kind (CHR ''n'') = 0" "kind (CHR ''t'') = 1" "kind (CHR ''f'') = 1" "kind (CHR ''-'') = 2" "kind (CHR 0x22) = 3"
  "kind (CHR ''['') = 4" "kind (CHR 0x7B) = 5" "kind (CHR '']'') = 6" "kind (CHR 0x7D) = 6"
  by code_simp+

lemma dumps_kind: "no_floats v \<Longrightarrow> dumps R v \<noteq> [] \<and> kind (hd (dumps R v)) = kind_of v"
proof (cases v)
  case (JInt i)
  have "show_int i \<noteq> [] \<and> kind (hd (show_int i)) = 2"
    using show_nat_digits' [of "nat i"] hd_show_nat [of "nat i" "[]"] by (simp add: show_int_def kinds kind_digit)
  with JInt show ?thesis by simp
qed (simp_all add: kinds dump_string_def)

lemma kind_append:
  assumes "no_floats v" "no_floats v'" "dumps R v @ x = dumps R v' @ y"
  shows "kind_of v = kind_of v'"
proof -
  have "hd (dumps R v) = hd (dumps R v')"
    using assms(3) dumps_kind [OF assms(1), of R] dumps_kind [OF assms(2), of R] by (metis hd_append2)
  then show ?thesis using dumps_kind [OF assms(1), of R] dumps_kind [OF assms(2), of R] by simp
qed

text \<open>A sequence of texts separated by commas and closed by a bracket.\<close>

definition more_items :: "string list \<Rightarrow> string" where
  "more_items ss = (if ss = [] then [] else CHR '','' # join ss)"

lemma join_Cons: "join (s # ss) = s @ more_items ss"
  by (cases ss) (simp_all add: more_items_def)

lemma more_items_end: "close \<in> {CHR '']'', CHR 0x7D} \<Longrightarrow> ends_value (more_items ss @ close # x)"
  by (auto simp: more_items_def ends_value_def)

lemma items_inject:
  assumes step: "\<And>a b x y. a \<in> set as \<Longrightarrow> b \<in> set bs \<Longrightarrow> ends_value x \<Longrightarrow> ends_value y \<Longrightarrow> f a @ x = f b @ y \<Longrightarrow> a = b \<and> x = y"
    and head: "\<And>a. a \<in> set as \<union> set bs \<Longrightarrow> f a \<noteq> [] \<and> hd (f a) \<noteq> close"
    and close: "close \<in> {CHR '']'', CHR 0x7D}"
    and eq: "join (map f as) @ close # x = join (map f bs) @ close # y"
  shows "as = bs \<and> x = y"
  using step head eq
proof (induction as arbitrary: bs)
  case Nil
  show ?case
  proof (cases bs)
    case (Cons b bs')
    then have "hd (f b @ more_items (map f bs') @ close # y) = close" using Nil.prems(3) by (metis append.assoc append_Nil join.simps(1) join_Cons list.map list.sel(1))
    then show ?thesis using Nil.prems(2) [of b] Cons by simp
  qed (use Nil in simp)
next
  case (Cons a as)
  show ?case
  proof (cases bs)
    case Nil
    then have "hd (f a @ more_items (map f as) @ close # x) = close" using Cons.prems(3) by (metis append.assoc append_Nil join.simps(1) join_Cons list.map list.sel(1))
    then show ?thesis using Cons.prems(2) [of a] by simp
  next
    case b: (Cons b bs')
    have "f a @ (more_items (map f as) @ close # x) = f b @ (more_items (map f bs') @ close # y)"
      using Cons.prems(3) b by (simp add: join_Cons)
    then have ab: "a = b" and rest: "more_items (map f as) @ close # x = more_items (map f bs') @ close # y"
      using Cons.prems(1) [of a b] b more_items_end [OF close] by auto
    have "as = bs' \<and> x = y"
    proof (cases "as = [] \<or> bs' = []")
      case True
      with rest close show ?thesis by (auto simp: more_items_def split: if_splits)
    next
      case False
      then have "join (map f as) @ close # x = join (map f bs') @ close # y" using rest by (simp add: more_items_def)
      with Cons.IH [of bs'] Cons.prems(1,2) b show ?thesis by (metis UnE UnI1 UnI2 list.set_intros(2))
    qed
    with ab b show ?thesis by simp
  qed
qed

lemma dumps_inject:
  assumes "no_floats v" "no_floats v'" "ends_value x" "ends_value y" "dumps R v @ x = dumps R v' @ y"
  shows "v = v' \<and> x = y"
  using assms
proof (induction v arbitrary: v' x y)
  case JNull
  then have "kind_of v' = 0" using kind_append [of JNull v'] by simp
  with JNull show ?case by (cases v') simp_all
next
  case (JBool b)
  then have "kind_of v' = 1" using kind_append [of "JBool b" v'] by simp
  with JBool show ?case by (cases v') (auto split: if_splits)
next
  case (JInt i)
  then have "kind_of v' = 2" using kind_append [of "JInt i" v'] by simp
  then obtain j where v': "v' = JInt j" by (cases v') auto
  have "show_int i @ x = show_int j @ y" using JInt.prems(5) v' by simp
  from show_int_inject [OF this JInt.prems(3,4)] v' show ?case by simp
next
  case (JStr s)
  then have "kind_of v' = 3" using kind_append [of "JStr s" v'] by simp
  then obtain t where v': "v' = JStr t" by (cases v') auto
  have "dump_string s @ x = dump_string t @ y" using JStr.prems(5) v' by simp
  from dump_string_inject [OF this] v' show ?case by simp
next
  case (JArr vs)
  then have "kind_of v' = 4" using kind_append [of "JArr vs" v'] by simp
  then obtain vs' where v': "v' = JArr vs'" by (cases v') auto
  have eq: "join (map (dumps R) vs) @ CHR '']'' # x = join (map (dumps R) vs') @ CHR '']'' # y"
    using JArr.prems(5) v' by simp
  have ok: "\<And>u. u \<in> set vs \<union> set vs' \<Longrightarrow> no_floats u" using JArr.prems(1,2) v' by (auto simp: list_all_iff)
  have "vs = vs' \<and> x = y"
  proof (rule items_inject [OF _ _ _ eq])
    show "a = b \<and> x = y" if "a \<in> set vs" "b \<in> set vs'" "ends_value x" "ends_value y" "dumps R a @ x = dumps R b @ y" for a b x y
      using JArr.IH [OF that(1) _ _ that(3-5)] ok that(1,2) by blast
    show "dumps R a \<noteq> [] \<and> hd (dumps R a) \<noteq> CHR '']''" if "a \<in> set vs \<union> set vs'" for a
      using dumps_kind [OF ok [OF that], of R] kinds(8) ok [OF that] by (cases a) auto
  qed simp
  with v' show ?case by simp
next
  case (JObj ms)
  then have "kind_of v' = 5" using kind_append [of "JObj ms" v'] by simp
  then obtain ms' where v': "v' = JObj ms'" by (cases v') auto
  let ?f = "\<lambda>(k, v). dump_string k @ CHR '':'' # dumps R v"
  have eq: "join (map ?f ms) @ CHR 0x7D # x = join (map ?f ms') @ CHR 0x7D # y"
    using JObj.prems(5) v' by simp
  have ok: "\<And>p. p \<in> set ms \<union> set ms' \<Longrightarrow> no_floats (snd p)" using JObj.prems(1,2) v' by (auto simp: list_all_iff)
  have "ms = ms' \<and> x = y"
  proof (rule items_inject [OF _ _ _ eq])
    show "a = b \<and> x = y" if "a \<in> set ms" "b \<in> set ms'" "ends_value x" "ends_value y" "?f a @ x = ?f b @ y" for a b x y
    proof -
      obtain k u k' u' where ab: "a = (k, u)" "b = (k', u')" by (cases a, cases b)
      then have "dump_string k @ (CHR '':'' # dumps R u @ x) = dump_string k' @ (CHR '':'' # dumps R u' @ y)" using that(5) by simp
      from dump_string_inject [OF this] have k: "k = k'" "dumps R u @ x = dumps R u' @ y" by simp_all
      have "u \<in> Basic_BNFs.snds a" by (simp add: ab Basic_BNFs.snds.simps)
      from JObj.IH [OF that(1) this _ _ that(3,4) k(2)] ok [of a] ok [of b] that(1,2) k(1) ab show ?thesis by auto
    qed
    show "?f a \<noteq> [] \<and> hd (?f a) \<noteq> CHR 0x7D" if "a \<in> set ms \<union> set ms'" for a
      by (cases a) (simp add: dump_string_def)
  qed simp
  with v' show ?case by simp
qed simp

subsection \<open>Bundles\<close>

lemma sorted_lookup:
  assumes "dict_ok ms"
  shows "map_of (sort_key fst (map (\<lambda>(k, v). (k, f v)) ms)) k = map_option f (map_of ms k)"
proof -
  let ?xs = "map (\<lambda>(k, v). (k, f v)) ms"
  have fst: "map fst ?xs = keys ms" by (simp add: case_prod_unfold comp_def)
  have "mset (map fst (sort_key fst ?xs)) = image_mset fst (mset ?xs)" by (simp only: mset_map mset_sort)
  also have "\<dots> = mset (keys ms)" using arg_cong [OF fst, of mset] by (simp only: mset_map)
  finally have "mset (map fst (sort_key fst ?xs)) = mset (keys ms)" .
  then have "distinct (map fst (sort_key fst ?xs))" using assms mset_eq_imp_distinct_iff by blast
  moreover have "set (sort_key fst ?xs) = set ?xs" by simp
  ultimately have "map_of (sort_key fst ?xs) = map_of ?xs"
    using assms fst by (intro map_of_inject_set [THEN iffD2]) (simp_all add: case_prod_unfold comp_def)
  then show ?thesis by (simp add: map_of_map)
qed

lemma sort_members_eq:
  assumes "sort_members (JObj ms) = sort_members (JObj ms')" "dict_ok ms" "dict_ok ms'"
  shows "map_option sort_members (map_of ms k) = map_option sort_members (map_of ms' k)"
proof -
  have "sort_key fst (map (\<lambda>(k, v). (k, sort_members v)) ms) = sort_key fst (map (\<lambda>(k, v). (k, sort_members v)) ms')"
    using assms(1) by simp
  from arg_cong [OF this, of "\<lambda>xs. map_of xs k"] show ?thesis by (simp only: sorted_lookup assms(2,3))
qed

lemma sort_members_no_floats: "no_floats v \<Longrightarrow> no_floats (sort_members v)"
proof (induction v)
  case (JObj ms)
  have "no_floats (sort_members u)" if "(k, u) \<in> set ms" for k u
  proof -
    have "u \<in> Basic_BNFs.snds (k, u)" by (simp add: Basic_BNFs.snds.simps)
    from JObj.IH [OF that this] JObj.prems that show ?thesis by (force simp: list_all_iff)
  qed
  then show ?case by (auto simp: list_all_iff)
qed (auto simp: list_all_iff)

lemma sort_members_field:
  assumes "sort_members (JObj ms) = sort_members (JObj ms')" "dict_ok ms" "dict_ok ms'"
    and "map_of ms k = Some v" "map_of ms' k = Some v'"
  shows "sort_members v = sort_members v'"
  using sort_members_eq [OF assms(1-3), of k] assms(4,5) by simp

lemma report_json_inject:
  assumes "sort_members (report_json r) = sort_members (report_json r')"
  shows "r = r'"
proof -
  note f = sort_members_field [OF assms [unfolded report_json_def]]
  have str: "a = b" if "sort_members (JStr a) = sort_members (JStr b)" for a b using that by simp
  have num: "a = b" if "sort_members (JInt a) = sort_members (JInt b)" for a b using that by simp
  have bool: "a = b" if "sort_members (JBool a) = sort_members (JBool b)" for a b using that by simp
  have "wr_server_version r = wr_server_version r'" by (rule str, rule f [where k = "''server_version''"]) simp_all
  moreover have "wr_generated_at r = wr_generated_at r'" by (rule str, rule f [where k = "''generated_at''"]) simp_all
  moreover have "wr_synthetic r = wr_synthetic r'" by (rule bool, rule f [where k = "''synthetic''"]) simp_all
  moreover have "wr_stream_count r = wr_stream_count r'" by (rule num, rule f [where k = "''stream_count''"]) simp_all
  moreover have "wr_baseline_samples r = wr_baseline_samples r'" by (rule num, rule f [where k = "''baseline_samples''"]) simp_all
  moreover have "wr_baseline_failures r = wr_baseline_failures r'" by (rule num, rule f [where k = "''baseline_failures''"]) simp_all
  moreover have "wr_current_samples r = wr_current_samples r'" by (rule num, rule f [where k = "''current_samples''"]) simp_all
  moreover have "wr_current_failures r = wr_current_failures r'" by (rule num, rule f [where k = "''current_failures''"]) simp_all
  moreover have "wr_open_incidents r = wr_open_incidents r'" by (rule num, rule f [where k = "''open_incidents''"]) simp_all
  moreover have "wr_resolved_incidents r = wr_resolved_incidents r'" by (rule num, rule f [where k = "''resolved_incidents''"]) simp_all
  moreover have "wr_expired_incidents r = wr_expired_incidents r'" by (rule num, rule f [where k = "''expired_incidents''"]) simp_all
  ultimately show ?thesis by simp
qed

lemma bundle_json_inject:
  assumes "sort_members (bundle_json b) = sort_members (bundle_json b')"
  shows "b = b'"
proof -
  note f = sort_members_field [OF assms [unfolded bundle_json_def]]
  have str: "x = y" if "sort_members (JStr x) = sort_members (JStr y)" for x y using that by simp
  have "bn_report b = bn_report b'" by (rule report_json_inject, rule f [where k = "''report''"]) simp_all
  moreover have "bn_expected_signer b = bn_expected_signer b'" by (rule str, rule f [where k = "''expected_signer''"]) simp_all
  moreover have "bn_salt_hex b = bn_salt_hex b'" by (rule str, rule f [where k = "''salt_hex''"]) simp_all
  ultimately show ?thesis by simp
qed

lemma canonical_bytes_inject:
  assumes "canonical_bytes R b = canonical_bytes R b'"
  shows "b = b'"
proof -
  have nf: "no_floats (sort_members (bundle_json c))" for c
    by (rule sort_members_no_floats) (simp add: bundle_json_def report_json_def)
  have "sort_members (bundle_json b) = sort_members (bundle_json b') \<and> ([] :: string) = []"
    by (rule dumps_inject [OF nf nf]) (use assms in \<open>simp_all add: canonical_bytes_def ends_value_def\<close>)
  then show ?thesis using bundle_json_inject by blast
qed

definition committed_text :: "runtime \<Rightarrow> commitment_bundle \<Rightarrow> string" where
  "committed_text R b = ''ReliaMesh Devnet commitment v1'' @ [CHR 0x00] @ canonical_bytes R b"

lemma commitment_collision:
  assumes "commitment R b = commitment R b'" "b \<noteq> b'"
  shows "committed_text R b \<noteq> committed_text R b' \<and> sha256_hex R (committed_text R b) = sha256_hex R (committed_text R b')"
  using assms canonical_bytes_inject [of R b b'] by (auto simp: commitment_def committed_text_def)

end
