(* ===== verification/Demo_Publish.thy ===== *)
theory Demo_Publish
  imports Anchor Publish_Facts Json_Inject
begin

text \<open>
  A complete publication on concrete values: a machine with no files, a key and a bundle of that key's signer, and an
  endpoint that answers the ten requests of a successful run.
\<close>

definition hashed_runtime :: runtime where
  "hashed_runtime = edge_runtime\<lparr>sha256_hex := (\<lambda>_. replicate 64 (CHR ''a''))\<rparr>"

definition edge_bundle :: "nat \<Rightarrow> commitment_bundle" where
  "edge_bundle n = \<lparr>bn_expected_signer = edge_signer, bn_salt_hex = replicate 64 (CHR ''0''), bn_report =
     \<lparr>wr_server_version = ''0.2.0'', wr_generated_at = stamp 0, wr_synthetic = True, wr_stream_count = 1, wr_baseline_samples = int n,
      wr_baseline_failures = 0, wr_current_samples = 0, wr_current_failures = 0, wr_open_incidents = 0,
      wr_resolved_incidents = 0, wr_expired_incidents = 0\<rparr>\<rparr>"

definition edge_digest :: string where "edge_digest = replicate 64 (CHR ''a'')"

lemma edge_digest: "commitment hashed_runtime b = edge_digest"
  by (simp add: commitment_def hashed_runtime_def edge_digest_def)

definition edge_keypair :: json where "edge_keypair = generate_keypair edge_crypto edge_secret"

text \<open>The replies, one per letter, and the endpoint that gives them in the order of the requests.\<close>

definition publish_env :: "string \<Rightarrow> string \<Rightarrow> rpc_env" where
  "publish_env encoded signature = \<lparr>rx_runtime = hashed_runtime, rx_loads = map_of
     [(''B'', bundle_json (edge_bundle 7)), (''g'', edge_reply (JStr DEVNET_GENESIS)),
      (''b'', edge_reply (JObj [(''value'', JObj [(''lastValidBlockHeight'', JInt 9), (''blockhash'', JStr edge_blockhash)])])),
      (''f'', edge_reply (JObj [(''value'', JInt 5000)])),
      (''m'', edge_reply (JObj [(''value'', JInt 7000)])),
      (''x'', edge_reply (JStr signature)),
      (''s'', edge_reply (JObj [(''value'', JArr [JObj
        [(''confirmationStatus'', JStr ''finalized''), (''err'', JNull), (''slot'', JInt 5)]])])),
      (''t'', edge_reply (JObj
        [(''version'', JStr ''legacy''), (''slot'', JInt 5), (''meta'', JObj [(''err'', JNull), (''fee'', JInt 5000)]),
         (''transaction'', JArr [JStr encoded, JStr ''base64''])]))], rx_crypto = edge_crypto\<rparr>"

definition requests :: "happening list \<Rightarrow> nat" where
  "requests es = length (filter (\<lambda>e. case e of Sent b \<Rightarrow> True | _ \<Rightarrow> False) es)"

definition script :: string where "script = ''gbfmgxsgts''"

definition scripted :: "happening list \<Rightarrow> string \<Rightarrow> transport" where
  "scripted es body = (if requests es < length script then Received [script ! requests es] else Unavailable)"

lemma publish_env_parts [simp]:
  "rx_crypto (publish_env e g) = edge_crypto" "rx_runtime (publish_env e g) = hashed_runtime"
  by (simp_all add: publish_env_def)

lemma publish_replies:
  "read_response (publish_env e g) (Received ''g'') = Inr (JStr DEVNET_GENESIS)"
  "read_response (publish_env e g) (Received ''b'') =
     Inr (JObj [(''value'', JObj [(''lastValidBlockHeight'', JInt 9), (''blockhash'', JStr edge_blockhash)])])"
  "read_response (publish_env e g) (Received ''f'') = Inr (JObj [(''value'', JInt 5000)])"
  "read_response (publish_env e g) (Received ''m'') = Inr (JObj [(''value'', JInt 7000)])"
  "read_response (publish_env e g) (Received ''x'') = Inr (JStr g)"
  "read_response (publish_env e g) (Received ''s'') = Inr (JObj [(''value'', JArr [JObj
        [(''confirmationStatus'', JStr ''finalized''), (''err'', JNull), (''slot'', JInt 5)]])])"
  "read_response (publish_env e g) (Received ''t'') = Inr (JObj
        [(''version'', JStr ''legacy''), (''slot'', JInt 5), (''meta'', JObj [(''err'', JNull), (''fee'', JInt 5000)]),
         (''transaction'', JArr [JStr e, JStr ''base64''])])"
  by (simp_all add: read_response_def publish_env_def edge_reply_def MAX_RESPONSE_BYTES_def)

text \<open>One request that the endpoint answers, as the machine sees it.\<close>

definition answered :: "rpc_env \<Rightarrow> json \<Rightarrow> nat \<Rightarrow> machine \<Rightarrow> (string + json) \<times> machine \<Rightarrow> bool" where
  "answered X v k m p \<longleftrightarrow> (\<exists>m'. p = (Inr v, m') \<and> requests (mc_log m') = k \<and> mc_files m' = mc_files m)"

lemma answered_exchange:
  assumes "length (request_body X meth params) \<le> 8192" "requests (mc_log m) < 10"
    and "read_response X (Received [script ! requests (mc_log m)]) = Inr v"
  shows "answered X v (Suc (requests (mc_log m))) m (exchange X (wire scripted) meth params m)"
  using assms by (auto simp: answered_def exchange_def wire_def scripted_def script_def requests_def)

lemma answered_call:
  assumes "meth \<in> set RPC_METHODS" "\<not> is_write meth" "length params \<le> 8"
    and "length (request_body X meth params) \<le> 8192" "requests (mc_log m) < 10"
    and "read_response X (Received [script ! requests (mc_log m)]) = Inr v"
  shows "answered X v (Suc (requests (mc_log m))) m (call X (wire scripted) meth params m)"
  using answered_exchange [OF assms(4-6)] assms(1-3) by (simp add: call_def)

lemma body_bound:
  "length (request_body X meth params) \<le> 200 + 6 * length meth + length (dumps (rx_runtime X) (JArr params))"
  using length_dump_string [of meth] length_dump_string [of "''jsonrpc''"] length_dump_string [of "''2.0''"]
    length_dump_string [of "''id''"] length_dump_string [of "''method''"] length_dump_string [of "''params''"]
  by (simp add: request_body_def show_int_def show_nat.simps)

lemma genesis_answered:
  assumes "requests (mc_log m) \<in> {0, 4, 7}"
  shows "\<exists>m'. assert_devnet (publish_env e g) (wire scripted) m = (Inr (), m') \<and>
    requests (mc_log m') = Suc (requests (mc_log m)) \<and> mc_files m' = mc_files m"
proof -
  have "length (request_body (publish_env e g) ''getGenesisHash'' []) \<le> 8192"
    by (rule order_trans [OF body_bound]) simp
  moreover have "read_response (publish_env e g) (Received [script ! requests (mc_log m)]) = Inr (JStr DEVNET_GENESIS)"
    using assms by (auto simp: script_def publish_replies)
  ultimately have "answered (publish_env e g) (JStr DEVNET_GENESIS) (Suc (requests (mc_log m))) m
      (exchange (publish_env e g) (wire scripted) ''getGenesisHash'' [] m)"
    using assms by (intro answered_exchange) auto
  then show ?thesis by (auto simp: answered_def assert_devnet_def sbind_def sreturn_def)
qed


subsection \<open>The parts of a run\<close>

text \<open>The transaction of the run.\<close>

definition edge_sent :: "string \<Rightarrow> string \<Rightarrow> bool" where
  "edge_sent encoded signature \<longleftrightarrow>
     build_transaction edge_crypto edge_digest edge_keypair edge_blockhash = Inr (encoded, signature) \<and>
     verify_wire edge_crypto encoded edge_digest signature edge_signer = Inr () \<and>
     check_send edge_crypto [JStr encoded, publish_config] = Inr ()"

lemma send_config_swap:
  assumes "check_send C [JStr encoded, config] = Inr ()" "send_config_ok config'"
  shows "check_send C [JStr encoded, config'] = Inr ()"
  using assms by (simp add: check_send_def split: if_splits)

lemma edge_sent_exists: "\<exists>encoded signature. edge_sent encoded signature"
proof -
  obtain encoded signature where "build_transaction edge_crypto edge_digest edge_keypair edge_blockhash = Inr (encoded, signature)"
    "verify_wire edge_crypto encoded edge_digest signature edge_signer = Inr ()"
    "check_send edge_crypto [JStr encoded, send_config] = Inr ()"
    using built_transaction_sends [OF edge_scheme edge_key(1) edge_commitment edge_key(2)]
    unfolding edge_signer_def edge_digest_def edge_keypair_def by blast
  moreover have "send_config_ok publish_config" by (simp add: send_config_ok_def publish_config_def)
  ultimately show ?thesis unfolding edge_sent_def using send_config_swap by blast
qed

lemma edge_sent_sizes:
  assumes "edge_sent encoded signature"
  shows "length encoded = 348" "length signature \<le> 88" "length edge_signer \<le> 44"
    "\<exists>quoted. message_text encoded = Inr quoted \<and> length quoted = 264"
proof -
  obtain w sg pk where w: "decode64 encoded MAX_TRANSACTION_BYTES = Inr w" "decode58 signature 64 = Inr sg"
    "decode58 edge_signer 32 = Inr pk" "w = [byte 1] @ sg @ drop 65 w"
    "message edge_digest pk (take 32 (drop 68 (drop 65 w))) = Inr (drop 65 w)"
    using assms unfolding edge_sent_def by (elim conjE verify_wire_elim)
  have m: "length (drop 65 w) = 196" by (rule message_layout(4) [OF w(5)])
  moreover have "length sg = 64" using decode58_canonical [OF w(2)] by simp
  ultimately have "length w = 261" by simp
  moreover have e: "encoded = b64encode w" using decode64_canonical [OF w(1)] by simp
  ultimately show "length encoded = 348" by (simp add: b64encode_length)
  show "length signature \<le> 88" "length edge_signer \<le> 44" using w(2,3) by (auto simp: decode58_def split: if_splits)
  show "\<exists>quoted. message_text encoded = Inr quoted \<and> length quoted = 264"
    using m by (simp add: message_text_def e b64decode_encode b64encode_length)
qed

lemma quote_answered:
  assumes "edge_sent encoded signature" "requests (mc_log m) = 0"
  shows "\<exists>m'. quote_transaction (publish_env encoded signature) (wire scripted) edge_digest edge_keypair edge_signer m =
      (Inr (encoded, signature, 9), m') \<and> requests (mc_log m') = 4 \<and> mc_files m' = mc_files m"
proof -
  let ?X = "publish_env encoded signature"
  note sizes = edge_sent_sizes [OF assms(1)]
  obtain quoted where quoted: "message_text encoded = Inr quoted" "length quoted = 264" using sizes(4) by blast
  have config: "length (dumps hashed_runtime finalized_config) \<le> 200"
    using length_dump_string [of "''commitment''"] length_dump_string [of "''finalized''"] by (simp add: finalized_config_def)
  have bodies: "length (request_body ?X ''getLatestBlockhash'' [finalized_config]) \<le> 8192"
    "length (request_body ?X ''getFeeForMessage'' [JStr quoted, finalized_config]) \<le> 8192"
    "length (request_body ?X ''getBalance'' [JStr edge_signer, finalized_config]) \<le> 8192"
    by (rule order_trans [OF body_bound];
        use config length_dump_string [of quoted] length_dump_string [of edge_signer] quoted(2) sizes(3) in simp)+
  obtain m1 where g: "assert_devnet ?X (wire scripted) m = (Inr (), m1)" "requests (mc_log m1) = 1" "mc_files m1 = mc_files m"
    using genesis_answered [of m encoded signature] assms(2) by auto
  have b: "answered ?X (JObj [(''value'', JObj [(''lastValidBlockHeight'', JInt 9), (''blockhash'', JStr edge_blockhash)])]) 2 m1
      (call ?X (wire scripted) ''getLatestBlockhash'' [finalized_config] m1)"
    using answered_call [of "''getLatestBlockhash''" "[finalized_config]" ?X m1] g(2) bodies(1)
    by (simp add: RPC_METHODS_def is_write_def script_def publish_replies numeral_2_eq_2)
  have f: "answered ?X (JObj [(''value'', JInt 5000)]) 3 m2
      (call ?X (wire scripted) ''getFeeForMessage'' [JStr quoted, finalized_config] m2)" if "requests (mc_log m2) = 2" for m2
    using answered_call [of "''getFeeForMessage''" "[JStr quoted, finalized_config]" ?X m2] that bodies(2)
    by (simp add: RPC_METHODS_def is_write_def script_def publish_replies)
  have l: "answered ?X (JObj [(''value'', JInt 7000)]) 4 m3
      (call ?X (wire scripted) ''getBalance'' [JStr edge_signer, finalized_config] m3)" if "requests (mc_log m3) = 3" for m3
    using answered_call [of "''getBalance''" "[JStr edge_signer, finalized_config]" ?X m3] that bodies(3)
    by (simp add: RPC_METHODS_def is_write_def script_def publish_replies)
  have built: "build_transaction edge_crypto edge_digest edge_keypair edge_blockhash = Inr (encoded, signature)"
    using assms(1) by (simp add: edge_sent_def)
  obtain m2 where m2: "call ?X (wire scripted) ''getLatestBlockhash'' [finalized_config] m1 =
      (Inr (JObj [(''value'', JObj [(''lastValidBlockHeight'', JInt 9), (''blockhash'', JStr edge_blockhash)])]), m2)"
    "requests (mc_log m2) = 2" "mc_files m2 = mc_files m1" using b by (auto simp: answered_def)
  obtain m3 where m3: "call ?X (wire scripted) ''getFeeForMessage'' [JStr quoted, finalized_config] m2 =
      (Inr (JObj [(''value'', JInt 5000)]), m3)" "requests (mc_log m3) = 3" "mc_files m3 = mc_files m2"
    using f [OF m2(2)] by (auto simp: answered_def)
  obtain m4 where m4: "call ?X (wire scripted) ''getBalance'' [JStr edge_signer, finalized_config] m3 =
      (Inr (JObj [(''value'', JInt 7000)]), m4)" "requests (mc_log m4) = 4" "mc_files m4 = mc_files m3"
    using l [OF m3(2)] by (auto simp: answered_def)
  have reads: "read_block (JObj [(''value'', JObj [(''lastValidBlockHeight'', JInt 9), (''blockhash'', JStr edge_blockhash)])]) =
      Inr (9, edge_blockhash)" "read_fee (JObj [(''value'', JInt 5000)]) = Inr 5000"
    "check_balance 5000 (JObj [(''value'', JInt 7000)]) = Inr ()"
    by (simp_all add: read_block_def reply_value_def read_fee_def check_balance_def)
  have "quote_transaction ?X (wire scripted) edge_digest edge_keypair edge_signer m = (Inr (encoded, signature, 9), m4)"
    unfolding quote_transaction_def
    by (simp only: sbind_def slift_def g m2 m3 m4 reads built quoted publish_env_parts prod.case sum.case sreturn_def)
  with m4 m3 m2 g show ?thesis by simp
qed


definition edge_final :: json where
  "edge_final = JObj [(''value'', JArr [JObj
     [(''confirmationStatus'', JStr ''finalized''), (''err'', JNull), (''slot'', JInt 5)]])]"

lemma status_answered:
  assumes "edge_sent encoded signature" "requests (mc_log m) \<in> {6, 9}"
  shows "\<exists>m'. call (publish_env encoded signature) (wire scripted) ''getSignatureStatuses'' (status_params signature) m =
      (Inr edge_final, m') \<and> requests (mc_log m') = Suc (requests (mc_log m)) \<and> mc_files m' = mc_files m"
proof -
  let ?X = "publish_env encoded signature"
  have "length (request_body ?X ''getSignatureStatuses'' (status_params signature)) \<le> 8192"
    by (rule order_trans [OF body_bound];
        use length_dump_string [of signature] length_dump_string [of "''searchTransactionHistory''"]
          edge_sent_sizes(2) [OF assms(1)] in \<open>simp add: status_params_def\<close>)
  moreover have "read_response ?X (Received [script ! requests (mc_log m)]) = Inr edge_final"
    using assms(2) by (auto simp: script_def publish_replies edge_final_def)
  moreover have "''getSignatureStatuses'' \<in> set RPC_METHODS" "\<not> is_write ''getSignatureStatuses''" "length (status_params signature) \<le> 8"
    by (simp_all add: RPC_METHODS_def is_write_def status_params_def)
  ultimately have "answered ?X edge_final (Suc (requests (mc_log m))) m
      (call ?X (wire scripted) ''getSignatureStatuses'' (status_params signature) m)"
    using assms(2) by (intro answered_call) auto
  then show ?thesis by (auto simp: answered_def)
qed

definition edge_receipt :: "string \<Rightarrow> verified" where
  "edge_receipt signature =
     \<lparr>vf_slot = 5, vf_block_time = None, vf_fee_lamports = 5000, vf_signer = edge_signer, vf_signature = signature\<rparr>"

lemma verify_answered:
  assumes "edge_sent encoded signature" "requests (mc_log m) = 7"
  shows "\<exists>m'. verify_finalized (publish_env encoded signature) (wire scripted) edge_digest signature edge_signer m =
      (Inr (edge_receipt signature), m') \<and> requests (mc_log m') = 10 \<and> mc_files m' = mc_files m"
proof -
  let ?X = "publish_env encoded signature"
  let ?t = "JObj [(''version'', JStr ''legacy''), (''slot'', JInt 5), (''meta'', JObj [(''err'', JNull), (''fee'', JInt 5000)]),
         (''transaction'', JArr [JStr encoded, JStr ''base64''])]"
  have w: "verify_wire edge_crypto encoded edge_digest signature edge_signer = Inr ()"
    using assms(1) by (simp add: edge_sent_def)
  obtain sg pk where d: "decode58 signature 64 = Inr sg" "decode58 edge_signer 32 = Inr pk"
    by (rule verify_wire_elim [OF w])
  have c: "commitment_bytes edge_digest = Inr edge_digest"
    by (simp add: commitment_bytes_def edge_digest_def edge_commitment)
  obtain m1 where g: "assert_devnet ?X (wire scripted) m = (Inr (), m1)" "requests (mc_log m1) = 8" "mc_files m1 = mc_files m"
    using genesis_answered [of m encoded signature] assms(2) by auto
  have "length (request_body ?X ''getTransaction'' (transaction_params signature)) \<le> 8192"
    by (rule order_trans [OF body_bound];
        use length_dump_string [of signature] length_dump_string [of "''encoding''"] length_dump_string [of "''base64''"]
          length_dump_string [of "''commitment''"] length_dump_string [of "''finalized''"]
          length_dump_string [of "''maxSupportedTransactionVersion''"] edge_sent_sizes(2) [OF assms(1)]
        in \<open>simp add: transaction_params_def show_int_def show_nat.simps\<close>)
  then have "answered ?X ?t 9 m1 (call ?X (wire scripted) ''getTransaction'' (transaction_params signature) m1)"
    using answered_call [of "''getTransaction''" "transaction_params signature" ?X m1] g(2)
    by (simp add: RPC_METHODS_def is_write_def script_def publish_replies transaction_params_def)
  then obtain m2 where t: "call ?X (wire scripted) ''getTransaction'' (transaction_params signature) m1 = (Inr ?t, m2)"
    "requests (mc_log m2) = 9" "mc_files m2 = mc_files m1" by (auto simp: answered_def)
  obtain m3 where s: "call ?X (wire scripted) ''getSignatureStatuses'' (status_params signature) m2 = (Inr edge_final, m3)"
    "requests (mc_log m3) = 10" "mc_files m3 = mc_files m2"
    using status_answered [OF assms(1), of m2] t(2) by auto
  have "verify_finalized ?X (wire scripted) edge_digest signature edge_signer m = (Inr (edge_receipt signature), m3)"
    unfolding verify_finalized_def Let_def
    by (simp only: sbind_def slift_def c d g t prod.case sum.case)
      (simp add: open_transaction_def member_def on_str_def w integer_ok_def INT_MAX_def MAX_FEE_LAMPORTS_def the_int_def
        s single_status_def finalized_at_def sbind_def slift_def sreturn_def edge_receipt_def
        edge_final_def)
  with g t s show ?thesis by simp
qed

lemma send_answered:
  assumes "edge_sent encoded signature" "requests (mc_log m) = 4"
  shows "\<exists>m'. call (publish_env encoded signature) (wire scripted) ''sendTransaction'' [JStr encoded, publish_config] m =
      (Inr (JStr signature), m') \<and> requests (mc_log m') = 6 \<and> mc_files m' = mc_files m"
proof -
  let ?X = "publish_env encoded signature"
  obtain m1 where g: "assert_devnet ?X (wire scripted) m = (Inr (), m1)" "requests (mc_log m1) = 5" "mc_files m1 = mc_files m"
    using genesis_answered [of m encoded signature] assms(2) by auto
  have "length (request_body ?X ''sendTransaction'' [JStr encoded, publish_config]) \<le> 8192"
    by (rule order_trans [OF body_bound];
        use length_dump_string [of encoded] length_dump_string [of "''encoding''"] length_dump_string [of "''base64''"]
          length_dump_string [of "''skipPreflight''"] length_dump_string [of "''preflightCommitment''"]
          length_dump_string [of "''finalized''"] length_dump_string [of "''maxRetries''"] edge_sent_sizes(1) [OF assms(1)]
        in \<open>simp add: publish_config_def show_int_def show_nat.simps\<close>)
  then have "answered ?X (JStr signature) 6 m1
      (exchange ?X (wire scripted) ''sendTransaction'' [JStr encoded, publish_config] m1)"
    using answered_exchange [of ?X "''sendTransaction''" "[JStr encoded, publish_config]" m1 "JStr signature"] g(2)
    by (simp add: script_def publish_replies)
  moreover have "check_send edge_crypto [JStr encoded, publish_config] = Inr ()" using assms(1) by (simp add: edge_sent_def)
  ultimately show ?thesis using g
    by (auto simp: call_def answered_def RPC_METHODS_def is_write_def validate_write_def sbind_def slift_def)
qed


subsection \<open>The run\<close>

definition empty_machine :: machine where "empty_machine = \<lparr>mc_files = Map.empty, mc_log = []\<rparr>"
definition edge_output :: path where "edge_output = (''/private'', ''receipt.json'')"
definition edge_pending :: path where "edge_pending = (''/private'', ''receipt.json.pending.json'')"
definition steady_clock :: "nat \<Rightarrow> real" where "steady_clock k = 2 * real k"

definition edge_publish :: "string \<Rightarrow> string \<Rightarrow> machine \<Rightarrow> (publish_error + json) \<times> machine" where
  "edge_publish encoded signature = publish (publish_env encoded signature) (dumps hashed_runtime) (\<lambda>_ _. Writes) (wire scripted)
     steady_clock 45 31 (edge_bundle 7) edge_keypair edge_output"

lemma edge_submitted:
  assumes "edge_sent encoded signature"
  shows "\<exists>m'. submit (publish_env encoded signature) (dumps hashed_runtime) (\<lambda>_ _. Writes) (wire scripted) (edge_bundle 7)
      edge_keypair edge_output empty_machine = (Inr (edge_digest, signature, edge_signer), m') \<and>
    requests (mc_log m') = 6 \<and> mc_files m' edge_output = None"
proof -
  let ?X = "publish_env encoded signature"
  have signer: "signer_public_key edge_crypto edge_keypair = Inr edge_signer"
    by (simp add: signer_public_key_def edge_keypair_def generated_key_loads [OF edge_scheme edge_key(1)] edge_signer_def)
  have c: "claim_output ?X (edge_bundle 7) edge_keypair edge_output empty_machine =
      (Inr (edge_signer, edge_pending), empty_machine)"
    by (simp add: claim_output_def sbind_def slift_def signer edge_bundle_def pending_path_def edge_output_def file_exists_def
        empty_machine_def edge_pending_def)
  obtain m1 where q: "quote_transaction ?X (wire scripted) edge_digest edge_keypair edge_signer empty_machine =
      (Inr (encoded, signature, 9), m1)" "requests (mc_log m1) = 4" "mc_files m1 = Map.empty"
    using quote_answered [OF assms, of empty_machine] by (auto simp: empty_machine_def requests_def)
  let ?pending = "pending_record edge_digest edge_signer signature 9"
  define m2 where "m2 = create_file edge_pending (dumps hashed_runtime ?pending @ [CHR 0x0A]) m1"
  have w: "write_private (dumps hashed_runtime) (\<lambda>_ _. Writes) edge_pending ?pending m1 = (Inr (), m2)"
    unfolding write_private_Inr m2_def using q(3) by simp
  have m2: "requests (mc_log m2) = 4" "mc_files m2 edge_output = None"
    using q(2,3) by (simp_all add: m2_def create_file_def requests_def edge_output_def edge_pending_def)
  obtain m3 where s: "call ?X (wire scripted) ''sendTransaction'' [JStr encoded, publish_config] m2 = (Inr (JStr signature), m3)"
    "requests (mc_log m3) = 6" "mc_files m3 = mc_files m2" using send_answered [OF assms m2(1)] by blast
  have "submit ?X (dumps hashed_runtime) (\<lambda>_ _. Writes) (wire scripted) (edge_bundle 7) edge_keypair edge_output empty_machine =
      (Inr (edge_digest, signature, edge_signer), m3)"
    unfolding submit_def Let_def
    by (simp only: sbind_def c q w s edge_digest publish_env_parts prod.case sum.case) (simp add: sreturn_def)
  with s m2 show ?thesis by simp
qed

lemma edge_polled:
  assumes "edge_sent encoded signature" "requests (mc_log m) = 6" "mc_files m edge_output = None"
  shows "\<exists>m'. poll_once (publish_env encoded signature) (dumps hashed_runtime) (\<lambda>_ _. Writes) (wire scripted) edge_output edge_digest
      signature edge_signer m = (Inr (Some (with_commitment edge_digest (receipt_json (edge_receipt signature)))), m')"
proof -
  let ?X = "publish_env encoded signature" and ?r = "with_commitment edge_digest (receipt_json (edge_receipt signature))"
  obtain m1 where s: "call ?X (wire scripted) ''getSignatureStatuses'' (status_params signature) m = (Inr edge_final, m1)"
    "requests (mc_log m1) = 7" "mc_files m1 = mc_files m" using status_answered [OF assms(1), of m] assms(2) by auto
  obtain m2 where v: "verify_finalized ?X (wire scripted) edge_digest signature edge_signer m1 = (Inr (edge_receipt signature), m2)"
    "mc_files m2 = mc_files m1" using verify_answered [OF assms(1) s(2)] by blast
  have e: "status_entry edge_final = Inr (JObj [(''confirmationStatus'', JStr ''finalized''), (''err'', JNull), (''slot'', JInt 5)])"
    "status_final (JObj [(''confirmationStatus'', JStr ''finalized''), (''err'', JNull), (''slot'', JInt 5)]) = Inr True"
    by (simp_all add: edge_final_def status_entry_def reply_value_def status_final_def)
  have w: "write_private (dumps hashed_runtime) (\<lambda>_ _. Writes) edge_output ?r m2 =
      (Inr (), create_file edge_output (dumps hashed_runtime ?r @ [CHR 0x0A]) m2)"
    unfolding write_private_Inr using s(3) v(2) assms(3) by simp
  show ?thesis unfolding poll_once_def Let_def
    by (simp only: sbind_def slift_def s v e w prod.case sum.case) (simp add: v w sreturn_def sbind_def)
qed

lemma edge_published:
  assumes "edge_sent encoded signature"
  shows "\<exists>m'. edge_publish encoded signature empty_machine =
    (Inr (with_commitment edge_digest (receipt_json (edge_receipt signature))), m')"
proof -
  obtain m1 where s: "submit (publish_env encoded signature) (dumps hashed_runtime) (\<lambda>_ _. Writes) (wire scripted) (edge_bundle 7)
      edge_keypair edge_output empty_machine = (Inr (edge_digest, signature, edge_signer), m1)"
    "requests (mc_log m1) = 6" "mc_files m1 edge_output = None" using edge_submitted [OF assms] by blast
  obtain m2 where p: "poll_once (publish_env encoded signature) (dumps hashed_runtime) (\<lambda>_ _. Writes) (wire scripted) edge_output edge_digest
      signature edge_signer m1 = (Inr (Some (with_commitment edge_digest (receipt_json (edge_receipt signature)))), m2)"
    using edge_polled [OF assms s(2,3)] by blast
  have "poll (publish_env encoded signature) (dumps hashed_runtime) (\<lambda>_ _. Writes) (wire scripted) steady_clock 45 edge_output edge_digest
      signature edge_signer (Suc n) 1 m1 = (Inr (with_commitment edge_digest (receipt_json (edge_receipt signature))), m2)" for n
    by (simp add: sbind_def raising_def p steady_clock_def sreturn_def)
  from this [of 30] show ?thesis unfolding edge_publish_def publish_def
    by (simp add: sbind_def raising_def s steady_clock_def sreturn_def)
qed

lemma steady_clock_sleeps: "sleeps steady_clock"
  by (simp add: sleeps_def steady_clock_def)

end
