(* ===== verification/Firestore.thy ===== *)
theory Firestore
  imports Store
begin

text \<open>
  The Firestore store of \<open>storage.py\<close>.  The three collections are maps from document identifiers.  The
  client library is not part of this repository: an operation is the callback that \<open>_run\<close> passes to
  \<open>firestore.transactional\<close>, a function of the documents it reads that returns its result and its buffered
  writes, and \<open>failure\<close>, the exception with which the library gives up after its five attempts, is an
  argument.  The documented contract is all that is used of it: either the writes are applied together to the
  documents that were read, or an exception is raised and nothing is written.
\<close>

subsection \<open>Documents\<close>

text \<open>\<open>None\<close> stands for key metadata that is missing or not a list.\<close>

record tenant_doc =
  td_schema_version :: int
  td_created_at :: int
  td_key_hashes :: "string list option"

record 's state_doc =
  sd_schema_version :: int
  sd_state :: 's
  sd_updated_at :: int
  sd_expires_at :: int

record 's docs =
  dc_tenants :: "string \<Rightarrow> tenant_doc option"
  dc_keys :: "string \<Rightarrow> key_info option"
  dc_states :: "string \<Rightarrow> 's state_doc option"

definition empty_docs :: "'s docs" where
  "empty_docs = \<lparr>dc_tenants = Map.empty, dc_keys = Map.empty, dc_states = Map.empty\<rparr>"

datatype 's doc_write =
    Set_Tenant string tenant_doc
  | Set_Key string key_info
  | Set_State string "'s state_doc"
  | Drop_Tenant string
  | Drop_Key string
  | Drop_State string

fun apply_write :: "'s doc_write \<Rightarrow> 's docs \<Rightarrow> 's docs" where
  "apply_write (Set_Tenant t x) d = d\<lparr>dc_tenants := (dc_tenants d)(t \<mapsto> x)\<rparr>"
| "apply_write (Set_Key h x) d = d\<lparr>dc_keys := (dc_keys d)(h \<mapsto> x)\<rparr>"
| "apply_write (Set_State t x) d = d\<lparr>dc_states := (dc_states d)(t \<mapsto> x)\<rparr>"
| "apply_write (Drop_Tenant t) d = d\<lparr>dc_tenants := (dc_tenants d)(t := None)\<rparr>"
| "apply_write (Drop_Key h) d = d\<lparr>dc_keys := (dc_keys d)(h := None)\<rparr>"
| "apply_write (Drop_State t) d = d\<lparr>dc_states := (dc_states d)(t := None)\<rparr>"

text \<open>\<open>_run\<close>.\<close>

definition run_transaction ::
    "'e store_error option \<Rightarrow> 's docs \<Rightarrow> ('s docs \<Rightarrow> 'e store_error + 'a \<times> 's doc_write list) \<Rightarrow> ('e store_error + 'a) \<times> 's docs" where
  "run_transaction failure d callback =
     (case callback d of
        Inl e \<Rightarrow> (Inl e, d)
      | Inr (x, writes) \<Rightarrow>
          (case failure of Some e \<Rightarrow> (Inl e, d) | None \<Rightarrow> (Inr x, fold apply_write writes d)))"

subsection \<open>Construction\<close>

text \<open>
  The checks of \<open>__init__\<close>: the project, the database identifier and the emulator host.  \<open>urlsplit\<close> is
  the argument \<open>hostname\<close>; an empty setting counts as absent.
\<close>

definition database_ok :: "string \<Rightarrow> bool" where
  "database_ok s \<longleftrightarrow> s = ''(default)'' \<or>
     (3 \<le> length s \<and> length s \<le> 63 \<and> is_lower (hd s) \<and> list_all (\<lambda>c. is_lower c \<or> is_digit c \<or> c = CHR ''-'') (tl s))"

definition fs_open :: "(string \<Rightarrow> string option) \<Rightarrow> string option \<Rightarrow> string \<Rightarrow> string \<Rightarrow> 'e store_error + unit" where
  "fs_open hostname emulator project database =
     (if project \<noteq> ''reliamesh'' then Inl ValueError
      else if \<not> database_ok database then Inl ValueError
      else case emulator of
        None \<Rightarrow> Inr ()
      | Some host \<Rightarrow>
          if host \<noteq> [] \<and> hostname host \<notin> {Some ''localhost'', Some ''127.0.0.1'', Some ''::1''}
          then Inl ValueError else Inr ())"

subsection \<open>Metadata, credentials and states\<close>

definition fs_metadata :: "tenant_doc option \<Rightarrow> 'e store_error + tenant_doc" where
  "fs_metadata snapshot =
     (case snapshot of
        None \<Rightarrow> Inl TenantMissing
      | Some data \<Rightarrow>
          if td_schema_version data \<noteq> SCHEMA_VERSION then Inl StorageError
          else (case td_key_hashes data of
            None \<Rightarrow> Inl StorageError
          | Some hashes \<Rightarrow> if MAX_ACTIVE_KEYS < length hashes then Inl StorageError else Inr data))"

text \<open>\<open>metadata["key_hashes"]\<close>, a list by the check above.\<close>

definition hashes_of :: "tenant_doc \<Rightarrow> string list" where
  "hashes_of data = (case td_key_hashes data of None \<Rightarrow> [] | Some hashes \<Rightarrow> hashes)"

definition fs_require_key :: "tenant_doc \<Rightarrow> string option \<Rightarrow> 'e store_error + unit" where
  "fs_require_key data expected =
     (case expected of
        None \<Rightarrow> Inr ()
      | Some h \<Rightarrow> rbind (check_digest h) (\<lambda>h. require_that (h \<in> set (hashes_of data)) TenantMissing))"

definition state_document :: "'s \<Rightarrow> int \<Rightarrow> 'e store_error + 's state_doc" where
  "state_document state now =
     rbind (add_retention now) (\<lambda>expires.
       Inr \<lparr>sd_schema_version = SCHEMA_VERSION, sd_state = state, sd_updated_at = now, sd_expires_at = expires\<rparr>)"

definition decode_state :: "'s \<Rightarrow> 's state_doc option \<Rightarrow> int \<Rightarrow> 'e store_error + 's" where
  "decode_state blank snapshot now =
     (case snapshot of
        None \<Rightarrow> Inr blank
      | Some document \<Rightarrow>
          if sd_schema_version document \<noteq> SCHEMA_VERSION then Inl StorageError
          else if sd_expires_at document \<le> now then Inr blank
          else Inr (sd_state document))"

subsection \<open>Operations\<close>

definition fs_create_tenant ::
    "'e store_error option \<Rightarrow> 's \<Rightarrow> string \<Rightarrow> string \<Rightarrow> pydatetime \<Rightarrow> 's docs \<Rightarrow> ('e store_error + unit) \<times> 's docs" where
  "fs_create_tenant failure blank tenant key_hash now d = run_transaction failure d (\<lambda>d.
     rbind (check_tenant_id tenant) (\<lambda>t. rbind (check_digest key_hash) (\<lambda>h. rbind (utc now) (\<lambda>us.
     rbind (require_that (dc_tenants d t = None) TenantExists) (\<lambda>_.
     rbind (require_that (dc_keys d h = None) KeyConflict) (\<lambda>_.
     rbind (state_document blank us) (\<lambda>document.
       Inr ((), [Set_Tenant t \<lparr>td_schema_version = SCHEMA_VERSION, td_created_at = us, td_key_hashes = Some [h]\<rparr>,
                 Set_Key h (key_record t h SCOPES us),
                 Set_State t document]))))))))"

definition fs_authenticate ::
    "'e store_error option \<Rightarrow> string \<Rightarrow> 's docs \<Rightarrow> ('e store_error + key_info option) \<times> 's docs" where
  "fs_authenticate failure key_hash d = run_transaction failure d (\<lambda>d.
     rbind (check_digest key_hash) (\<lambda>h.
       (case dc_keys d h of
          None \<Rightarrow> Inr (None, [])
        | Some key \<Rightarrow>
            if dc_tenants d (ki_tenant key) = None then Inr (None, [])
            else rbind (fs_metadata (dc_tenants d (ki_tenant key))) (\<lambda>data.
              Inr (if h \<notin> set (hashes_of data) \<or> \<not> ki_active key then None else Some key, [])))))"

definition fs_add_key ::
    "'e store_error option \<Rightarrow> string \<Rightarrow> string \<Rightarrow> string list \<Rightarrow> pydatetime \<Rightarrow> string option \<Rightarrow> 's docs \<Rightarrow>
     ('e store_error + unit) \<times> 's docs" where
  "fs_add_key failure tenant key_hash scopes now expected d = run_transaction failure d (\<lambda>d.
     rbind (check_tenant_id tenant) (\<lambda>t. rbind (check_digest key_hash) (\<lambda>h.
     rbind (check_scopes scopes) (\<lambda>sc. rbind (utc now) (\<lambda>us.
     rbind (fs_metadata (dc_tenants d t)) (\<lambda>data.
     rbind (fs_require_key data expected) (\<lambda>_.
     rbind (require_that (length (hashes_of data) < MAX_ACTIVE_KEYS) StorageLimit) (\<lambda>_.
     rbind (require_that (dc_keys d h = None \<and> \<not> list_ex (\<lambda>g. take 12 g = take 12 h) (hashes_of data)) KeyConflict) (\<lambda>_.
       Inr ((), [Set_Tenant t (data\<lparr>td_key_hashes := Some (hashes_of data @ [h])\<rparr>),
                 Set_Key h (key_record t h sc us)]))))))))))"

definition fs_revoke_key ::
    "'e store_error option \<Rightarrow> string \<Rightarrow> string \<Rightarrow> string option \<Rightarrow> 's docs \<Rightarrow> ('e store_error + bool) \<times> 's docs" where
  "fs_revoke_key failure tenant selector expected d = run_transaction failure d (\<lambda>d.
     rbind (check_tenant_id tenant) (\<lambda>t. rbind (check_selector selector) (\<lambda>sel.
       if dc_tenants d t = None \<and> expected = None then Inr (False, [])
       else rbind (fs_metadata (dc_tenants d t)) (\<lambda>data.
         rbind (fs_require_key data expected) (\<lambda>_.
           (case filter (\<lambda>g. g = sel \<or> take 12 g = sel) (hashes_of data) of
              [] \<Rightarrow> Inr (False, [])
            | h # _ \<Rightarrow> Inr (True, [Set_Tenant t (data\<lparr>td_key_hashes := Some (filter (\<lambda>g. g \<noteq> h) (hashes_of data))\<rparr>),
                                  Drop_Key h])))))))"

definition fs_list_keys ::
    "'e store_error option \<Rightarrow> string \<Rightarrow> string option \<Rightarrow> 's docs \<Rightarrow> ('e store_error + key_listing list) \<times> 's docs" where
  "fs_list_keys failure tenant expected d = run_transaction failure d (\<lambda>d.
     rbind (check_tenant_id tenant) (\<lambda>t.
       if dc_tenants d t = None \<and> expected = None then Inr ([], [])
       else rbind (fs_metadata (dc_tenants d t)) (\<lambda>data.
         rbind (fs_require_key data expected) (\<lambda>_.
           let records = List.map_filter (\<lambda>h. case dc_keys d h of
                 None \<Rightarrow> None
               | Some key \<Rightarrow> if ki_tenant key = t
                    then Some \<lparr>ki_key_id = ki_key_id key, ki_scopes = ki_scopes key, ki_active = ki_active key,
                               ki_created_at = ki_created_at key\<rparr> else None) (hashes_of data)
           in Inr (sort_key (\<lambda>k. (ki_created_at k, ki_key_id k)) records, [])))))"

definition fs_transact ::
    "'e store_error option \<Rightarrow> 's \<Rightarrow> ('s \<Rightarrow> string option) \<Rightarrow> int \<Rightarrow> string \<Rightarrow> ('s \<Rightarrow> 'e + 's \<times> 'a) \<Rightarrow> string option \<Rightarrow> 's docs \<Rightarrow>
     ('e store_error + 'a) \<times> 's docs" where
  "fs_transact failure blank encode now tenant callback expected d = run_transaction failure d (\<lambda>d.
     rbind (check_tenant_id tenant) (\<lambda>t.
     rbind (fs_metadata (dc_tenants d t)) (\<lambda>data.
     rbind (fs_require_key data expected) (\<lambda>_.
     rbind (decode_state blank (dc_states d t) now) (\<lambda>state.
       (case callback state of
          Inl e \<Rightarrow> Inl (Callback e)
        | Inr (new_state, result) \<Rightarrow>
            rbind (serialize encode new_state) (\<lambda>_.
            rbind (state_document new_state now) (\<lambda>document.
              Inr (result, [Set_State t document])))))))))"

definition fs_read_state ::
    "'e store_error option \<Rightarrow> 's \<Rightarrow> int \<Rightarrow> string \<Rightarrow> string option \<Rightarrow> 's docs \<Rightarrow> ('e store_error + 's option) \<times> 's docs" where
  "fs_read_state failure blank now tenant expected d = run_transaction failure d (\<lambda>d.
     rbind (check_tenant_id tenant) (\<lambda>t.
       if dc_tenants d t = None \<and> expected = None then Inr (None, [])
       else rbind (fs_metadata (dc_tenants d t)) (\<lambda>data.
         rbind (fs_require_key data expected) (\<lambda>_.
         rbind (decode_state blank (dc_states d t) now) (\<lambda>state.
           Inr (Some state,
                case dc_states d t of
                  None \<Rightarrow> []
                | Some document \<Rightarrow> if sd_expires_at document \<le> now then [Drop_State t] else []))))))"

definition fs_delete_tenant ::
    "'e store_error option \<Rightarrow> string \<Rightarrow> string option \<Rightarrow> 's docs \<Rightarrow> ('e store_error + bool) \<times> 's docs" where
  "fs_delete_tenant failure tenant expected d = run_transaction failure d (\<lambda>d.
     rbind (check_tenant_id tenant) (\<lambda>t.
       if dc_tenants d t = None \<and> expected = None then Inr (False, [])
       else rbind (fs_metadata (dc_tenants d t)) (\<lambda>data.
         rbind (fs_require_key data expected) (\<lambda>_.
           Inr (True, map Drop_Key (hashes_of data) @ [Drop_State t, Drop_Tenant t])))))"

end
