(* ===== verification/Firestore_Runs.thy ===== *)
theory Firestore_Runs
  imports Firestore Store_Runs
begin

text \<open>
  Runs of the Firestore store: the same calls as the SQLite store, the consistency that its documents keep among
  each other, and the second implementation of the interface \<open>tenant_store\<close>.
\<close>

subsection \<open>Calls\<close>

text \<open>The class has no purge (expired states are left to a deletion policy of the database); asking for one raises.\<close>

fun fs_call ::
    "'e store_error option \<Rightarrow> 's \<Rightarrow> ('s \<Rightarrow> string option) \<Rightarrow> ('s, 'e, 'a) store_op \<Rightarrow> 's docs \<Rightarrow>
     ('e store_error + unit) \<times> 's docs" where
  "fs_call failure blank encode (Create t h now) d = fs_create_tenant failure blank t h now d"
| "fs_call failure blank encode (Add_Key t h scopes now ex) d = fs_add_key failure t h scopes now ex d"
| "fs_call failure blank encode (Revoke t sel ex) d = outcome_of (fs_revoke_key failure t sel ex d)"
| "fs_call failure blank encode (List_Keys t ex) d = outcome_of (fs_list_keys failure t ex d)"
| "fs_call failure blank encode (Transact now t f ex) d = outcome_of (fs_transact failure blank encode now t f ex d)"
| "fs_call failure blank encode (Read_State now t ex) d = outcome_of (fs_read_state failure blank now t ex d)"
| "fs_call failure blank encode (Delete t ex) d = outcome_of (fs_delete_tenant failure t ex d)"
| "fs_call failure blank encode (Purge now) d = (Inl StorageError, d)"

text \<open>A call together with the failure of its transaction, if the library gives up.\<close>

definition fs_exec ::
    "'s \<Rightarrow> ('s \<Rightarrow> string option) \<Rightarrow> 'e store_error option \<times> ('s, 'e, 'a) store_op \<Rightarrow> 's docs \<Rightarrow> 's docs" where
  "fs_exec blank encode c d = snd (fs_call (fst c) blank encode (snd c) d)"

definition fs_holder :: "'s docs \<Rightarrow> string \<Rightarrow> string option" where
  "fs_holder d h = map_option ki_tenant (dc_keys d h)"

definition fs_view :: "'s docs \<Rightarrow> string \<Rightarrow> tenant_doc option \<times> (string \<Rightarrow> key_info option) \<times> 's state_doc option" where
  "fs_view d t =
     (dc_tenants d t,
      (\<lambda>h. case dc_keys d h of None \<Rightarrow> None | Some key \<Rightarrow> if ki_tenant key = t then Some key else None),
      dc_states d t)"

subsection \<open>Transactions\<close>

definition commits :: "'e store_error + 'a \<times> 's doc_write list \<Rightarrow> 's docs \<Rightarrow> 'a \<Rightarrow> 's docs \<Rightarrow> bool" where
  "commits m d x d' \<longleftrightarrow> (\<exists>writes. m = Inr (x, writes) \<and> d' = fold apply_write writes d)"

lemma run_transaction_iff [simp]:
  "run_transaction failure d callback = (Inr x, d') \<longleftrightarrow> failure = None \<and> commits (callback d) d x d'"
  by (auto simp: run_transaction_def commits_def split: sum.splits option.splits)

lemma commits_simps [simp]:
  "commits (Inl e) d x d' \<longleftrightarrow> False"
  "commits (Inr (y, writes)) d x d' \<longleftrightarrow> x = y \<and> d' = fold apply_write writes d"
  "commits (rbind m f) d x d' \<longleftrightarrow> (\<exists>y. m = Inr y \<and> commits (f y) d x d')"
  "commits (if b then m' else n') d x d' \<longleftrightarrow> (if b then commits m' d x d' else commits n' d x d')"
  "commits (case xs of [] \<Rightarrow> m' | h # hs \<Rightarrow> g h hs) d x d' \<longleftrightarrow>
     (case xs of [] \<Rightarrow> commits m' d x d' | h # hs \<Rightarrow> commits (g h hs) d x d')"
  by (auto simp: commits_def rbind_Inr_iff split: list.split)

lemma run_transaction_Inl [simp]:
  "run_transaction failure d callback = (Inl e, d') \<longleftrightarrow>
     d' = d \<and> (callback d = Inl e \<or> (\<exists>x. callback d = Inr x \<and> failure = Some e))"
  by (auto simp: run_transaction_def split: sum.splits option.splits)

lemmas fs_op_defs = fs_create_tenant_def fs_add_key_def fs_revoke_key_def fs_list_keys_def fs_transact_def
  fs_read_state_def fs_delete_tenant_def

lemma fs_call_rollback: "fs_call failure blank encode p d = (Inl e, d') \<Longrightarrow> d' = d"
  by (cases p) (simp_all add: fs_op_defs)

lemma fs_metadata_iff [simp]:
  "fs_metadata snapshot = Inr data \<longleftrightarrow>
     snapshot = Some data \<and> td_schema_version data = SCHEMA_VERSION \<and>
     (\<exists>hashes. td_key_hashes data = Some hashes \<and> length hashes \<le> MAX_ACTIVE_KEYS)"
  by (auto simp: fs_metadata_def split: option.splits if_splits)

lemma fs_require_key_iff [simp]:
  "fs_require_key data expected = Inr u \<longleftrightarrow> (\<forall>h. expected = Some h \<longrightarrow> digest_ok h \<and> h \<in> set (hashes_of data))"
  by (cases expected) (auto simp: fs_require_key_def rbind_Inr_iff)

lemma decode_state_iff:
  "decode_state blank snapshot now = Inr s \<longleftrightarrow>
     (\<forall>w. snapshot = Some w \<longrightarrow> sd_schema_version w = SCHEMA_VERSION) \<and>
     s = (case snapshot of None \<Rightarrow> blank | Some w \<Rightarrow> if now < sd_expires_at w then sd_state w else blank)"
  by (auto simp: decode_state_def split: option.splits)

lemma state_document_iff [simp]:
  "state_document s us = Inr w \<longleftrightarrow> datetime_range (us + RETENTION_US) \<and>
     w = \<lparr>sd_schema_version = SCHEMA_VERSION, sd_state = s, sd_updated_at = us, sd_expires_at = us + RETENTION_US\<rparr>"
  by (auto simp: state_document_def add_retention_def)

lemma fold_drop_keys:
  "fold apply_write (map Drop_Key hs) d = d\<lparr>dc_keys := (\<lambda>h. if h \<in> set hs then None else dc_keys d h)\<rparr>"
  by (induction hs arbitrary: d) (auto intro!: arg_cong [of _ _ "\<lambda>k. _\<lparr>dc_keys := k\<rparr>"])

subsection \<open>Consistency\<close>

definition tenant_doc_ok :: "'s docs \<Rightarrow> string \<Rightarrow> tenant_doc \<Rightarrow> bool" where
  "tenant_doc_ok d t data \<longleftrightarrow>
     td_schema_version data = SCHEMA_VERSION \<and> td_key_hashes data = Some (hashes_of data) \<and>
     length (hashes_of data) \<le> MAX_ACTIVE_KEYS \<and> distinct (map (take 12) (hashes_of data)) \<and>
     (\<forall>h \<in> set (hashes_of data). fs_holder d h = Some t)"

definition key_doc_ok :: "'s docs \<Rightarrow> string \<Rightarrow> key_info \<Rightarrow> bool" where
  "key_doc_ok d h key \<longleftrightarrow>
     digest_ok h \<and> ki_key_id key = take 12 h \<and> ki_active key \<and> scopes_ok (ki_scopes key) \<and>
     (\<exists>data. dc_tenants d (ki_tenant key) = Some data \<and> h \<in> set (hashes_of data))"

definition docs_ok :: "'s docs \<Rightarrow> bool" where
  "docs_ok d \<longleftrightarrow>
     (\<forall>t data. dc_tenants d t = Some data \<longrightarrow> tenant_doc_ok d t data) \<and>
     (\<forall>h key. dc_keys d h = Some key \<longrightarrow> key_doc_ok d h key) \<and>
     (\<forall>t w. dc_states d t = Some w \<longrightarrow> dc_tenants d t \<noteq> None \<and> sd_schema_version w = SCHEMA_VERSION)"

lemma docs_okI:
  assumes "\<And>t data. dc_tenants d t = Some data \<Longrightarrow> tenant_doc_ok d t data"
    and "\<And>h key. dc_keys d h = Some key \<Longrightarrow> key_doc_ok d h key"
    and "\<And>t w. dc_states d t = Some w \<Longrightarrow> dc_tenants d t \<noteq> None \<and> sd_schema_version w = SCHEMA_VERSION"
  shows "docs_ok d"
  using assms by (auto simp: docs_ok_def)

lemma docs_okD:
  assumes "docs_ok d"
  shows "\<And>t data. dc_tenants d t = Some data \<Longrightarrow> tenant_doc_ok d t data"
    "\<And>h key. dc_keys d h = Some key \<Longrightarrow> key_doc_ok d h key"
    "\<And>t w. dc_states d t = Some w \<Longrightarrow> dc_tenants d t \<noteq> None"
    "\<And>t w. dc_states d t = Some w \<Longrightarrow> sd_schema_version w = SCHEMA_VERSION"
  using assms by (auto simp: docs_ok_def)

lemma empty_docs_ok: "docs_ok empty_docs"
  by (simp add: docs_ok_def empty_docs_def)

lemma hashes_of_set [simp]: "hashes_of (data\<lparr>td_key_hashes := Some hs\<rparr>) = hs"
  by (simp add: hashes_of_def)

text \<open>The hashes of a tenant are exactly the keys that name it.\<close>

lemma hashes_holder:
  assumes "docs_ok d" "dc_tenants d t = Some data"
  shows "h \<in> set (hashes_of data) \<longleftrightarrow> fs_holder d h = Some t"
  using docs_okD(1) [OF assms] docs_okD(2) [OF assms(1), of h] assms(2)
  by (auto simp: tenant_doc_ok_def key_doc_ok_def fs_holder_def)

lemma tenant_doc_metadata: "docs_ok d \<Longrightarrow> fs_metadata (dc_tenants d t) = Inr data \<longleftrightarrow> dc_tenants d t = Some data"
  using docs_okD(1) [of d t] by (auto simp: tenant_doc_ok_def)

subsection \<open>Committed calls\<close>

text \<open>The tenant document that an operation with a credential goes on with.\<close>

definition entitled :: "'s docs \<Rightarrow> string \<Rightarrow> string option \<Rightarrow> tenant_doc \<Rightarrow> bool" where
  "entitled d t expected data \<longleftrightarrow>
     fs_metadata (dc_tenants d t) = (Inr data :: unit store_error + _) \<and>
     fs_require_key data expected = (Inr () :: unit store_error + _)"

lemma entitled_commits:
  "commits (rbind (fs_metadata (dc_tenants d t)) (\<lambda>data. rbind (fs_require_key data expected) (\<lambda>_. F data))) d x d' \<longleftrightarrow>
     (\<exists>data. entitled d t expected data \<and> commits (F data) d x d')"
  unfolding commits_simps entitled_def fs_metadata_iff fs_require_key_iff by auto

lemma entitled_ok:
  assumes "docs_ok d"
  shows "entitled d t expected data \<longleftrightarrow>
    dc_tenants d t = Some data \<and> (\<forall>g. expected = Some g \<longrightarrow> digest_ok g \<and> fs_holder d g = Some t)"
proof (cases "dc_tenants d t = Some data")
  case True
  then have "g \<in> set (hashes_of data) \<longleftrightarrow> fs_holder d g = Some t" for g using hashes_holder [OF assms] by blast
  then show ?thesis using tenant_doc_metadata [OF assms, of t data] True unfolding entitled_def fs_require_key_iff by blast
qed (simp add: entitled_def)

lemmas fs_commit = commits_simps check_iff require_that_iff state_document_iff run_transaction_iff

lemma fs_create_iff:
  "fs_create_tenant failure blank t h now d = (Inr u, d') \<longleftrightarrow> failure = None \<and> tenant_id_ok t \<and> digest_ok h \<and>
     (\<exists>us. now = Aware us \<and> dc_tenants d t = None \<and> dc_keys d h = None \<and> datetime_range (us + RETENTION_US) \<and>
       d' = \<lparr>dc_tenants = (dc_tenants d)(t \<mapsto> \<lparr>td_schema_version = SCHEMA_VERSION, td_created_at = us, td_key_hashes = Some [h]\<rparr>),
             dc_keys = (dc_keys d)(h \<mapsto> key_record t h SCOPES us),
             dc_states = (dc_states d)(t \<mapsto> \<lparr>sd_schema_version = SCHEMA_VERSION, sd_state = blank, sd_updated_at = us,
               sd_expires_at = us + RETENTION_US\<rparr>)\<rparr>)"
  unfolding fs_create_tenant_def fs_commit by (auto simp: utc_def split: pydatetime.splits)

lemma fs_add_key_iff:
  "fs_add_key failure t h scopes now ex d = (Inr u, d') \<longleftrightarrow> failure = None \<and> tenant_id_ok t \<and> digest_ok h \<and> scopes_ok scopes \<and>
     (\<exists>us data. now = Aware us \<and> entitled d t ex data \<and> length (hashes_of data) < MAX_ACTIVE_KEYS \<and> dc_keys d h = None \<and>
       (\<forall>g \<in> set (hashes_of data). take 12 g \<noteq> take 12 h) \<and>
       d' = d\<lparr>dc_tenants := (dc_tenants d)(t \<mapsto> data\<lparr>td_key_hashes := Some (hashes_of data @ [h])\<rparr>),
              dc_keys := (dc_keys d)(h \<mapsto> key_record t h (sort scopes) us)\<rparr>)"
  unfolding fs_add_key_def fs_commit entitled_def by (auto simp: utc_def list_ex_iff split: pydatetime.splits)

lemma fs_revoke_iff:
  "fs_revoke_key failure t sel ex d = (Inr b, d') \<longleftrightarrow> failure = None \<and> tenant_id_ok t \<and> key_selector_ok sel \<and>
     (if dc_tenants d t = None \<and> ex = None then \<not> b \<and> d' = d
      else \<exists>data. entitled d t ex data \<and>
        (case filter (\<lambda>g. g = sel \<or> take 12 g = sel) (hashes_of data) of
           [] \<Rightarrow> \<not> b \<and> d' = d
         | h # _ \<Rightarrow> b \<and> d' = d\<lparr>dc_tenants := (dc_tenants d)(t \<mapsto> data\<lparr>td_key_hashes := Some (filter (\<lambda>g. g \<noteq> h) (hashes_of data))\<rparr>),
                             dc_keys := (dc_keys d)(h := None)\<rparr>))"
  unfolding fs_revoke_key_def fs_commit entitled_def by (auto split: list.split)

lemma fs_list_keys_iff:
  "fs_list_keys failure t ex d = (Inr ks, d') \<Longrightarrow> failure = None \<and> tenant_id_ok t \<and>
     ((dc_tenants d t = None \<and> ex = None) \<or> (\<exists>data. entitled d t ex data)) \<and> d' = d"
  unfolding fs_list_keys_def fs_commit entitled_def by (auto simp: Let_def split: if_splits)

lemma fs_list_keys_ok:
  "failure = None \<Longrightarrow> tenant_id_ok t \<Longrightarrow> (dc_tenants d t = None \<and> ex = None) \<or> (\<exists>data. entitled d t ex data) \<Longrightarrow>
   \<exists>ks. fs_list_keys failure t ex d = (Inr ks, d)"
  unfolding fs_list_keys_def fs_commit entitled_def by (auto simp: Let_def)

lemma fs_transact_iff:
  "fs_transact failure blank encode now t f ex d = (Inr x, d') \<longleftrightarrow> failure = None \<and> tenant_id_ok t \<and>
     (\<exists>data s s' enc. entitled d t ex data \<and> decode_state blank (dc_states d t) now = (Inr s :: unit store_error + _) \<and>
       f s = Inr (s', x) \<and> encode s' = Some enc \<and> length enc < STORE_STATE_BYTES \<and> datetime_range (now + RETENTION_US) \<and>
       d' = d\<lparr>dc_states := (dc_states d)(t \<mapsto> \<lparr>sd_schema_version = SCHEMA_VERSION, sd_state = s', sd_updated_at = now,
         sd_expires_at = now + RETENTION_US\<rparr>)\<rparr>)"
proof -
  have f: "commits (case m of Inl e \<Rightarrow> Inl (Callback e) | Inr (s', y) \<Rightarrow> F s' y) d x d' \<longleftrightarrow>
      (\<exists>s' y. m = Inr (s', y) \<and> commits (F s' y) d x d')" for m and F
    by (auto split: sum.split)
  have s: "serialize encode s' = Inr enc \<longleftrightarrow> encode s' = Some enc \<and> length enc < STORE_STATE_BYTES" for s' enc
    by (auto simp: serialize_def split: option.splits)
  show ?thesis unfolding fs_transact_def fs_commit f entitled_def decode_state_iff s by auto
qed

lemma fs_read_state_iff:
  "fs_read_state failure blank now t ex d = (Inr x, d') \<longleftrightarrow> failure = None \<and> tenant_id_ok t \<and>
     (if dc_tenants d t = None \<and> ex = None then x = None \<and> d' = d
      else \<exists>data s. entitled d t ex data \<and> decode_state blank (dc_states d t) now = (Inr s :: unit store_error + _) \<and> x = Some s \<and>
        d' = (case dc_states d t of
                None \<Rightarrow> d
              | Some w \<Rightarrow> if sd_expires_at w \<le> now then d\<lparr>dc_states := (dc_states d)(t := None)\<rparr> else d))"
  unfolding fs_read_state_def fs_commit entitled_def decode_state_iff by (auto split: option.splits)

lemma fs_delete_iff:
  "fs_delete_tenant failure t ex d = (Inr b, d') \<longleftrightarrow> failure = None \<and> tenant_id_ok t \<and>
     (if dc_tenants d t = None \<and> ex = None then \<not> b \<and> d' = d
      else \<exists>data. entitled d t ex data \<and> b \<and>
        d' = \<lparr>dc_tenants = (dc_tenants d)(t := None),
              dc_keys = (\<lambda>h. if h \<in> set (hashes_of data) then None else dc_keys d h),
              dc_states = (dc_states d)(t := None)\<rparr>)"
  unfolding fs_delete_tenant_def fs_commit entitled_def by (auto simp: fold_drop_keys)

subsection \<open>Every call keeps the documents consistent\<close>

lemma create_docs_ok:
  assumes ok: "docs_ok d" and c: "fs_create_tenant failure blank t h now d = (Inr u, d')"
  shows "docs_ok d'"
proof -
  from c obtain us where new: "digest_ok h" "dc_tenants d t = None" "dc_keys d h = None"
    and d': "d' = \<lparr>dc_tenants = (dc_tenants d)(t \<mapsto> \<lparr>td_schema_version = SCHEMA_VERSION, td_created_at = us, td_key_hashes = Some [h]\<rparr>),
             dc_keys = (dc_keys d)(h \<mapsto> key_record t h SCOPES us),
             dc_states = (dc_states d)(t \<mapsto> \<lparr>sd_schema_version = SCHEMA_VERSION, sd_state = blank, sd_updated_at = us,
               sd_expires_at = us + RETENTION_US\<rparr>)\<rparr>"
    unfolding fs_create_iff by blast
  show ?thesis
  proof (rule docs_okI)
    show "tenant_doc_ok d' s data" if "dc_tenants d' s = Some data" for s data
      using that docs_okD(1) [OF ok, of s data] new
      by (auto simp: d' tenant_doc_ok_def fs_holder_def hashes_of_def key_record_def MAX_ACTIVE_KEYS_def split: if_splits)
    show "key_doc_ok d' g key" if "dc_keys d' g = Some key" for g key
      using that docs_okD(2) [OF ok, of g key] new SCOPES_ok
      by (auto simp: d' key_doc_ok_def hashes_of_def key_record_def split: if_splits)
    show "dc_tenants d' s \<noteq> None \<and> sd_schema_version w = SCHEMA_VERSION" if "dc_states d' s = Some w" for s w
      using that docs_okD(3,4) [OF ok, of s w] by (auto simp: d' split: if_splits)
  qed
qed

lemma add_key_docs_ok:
  assumes ok: "docs_ok d" and c: "fs_add_key failure t h scopes now ex d = (Inr u, d')"
  shows "docs_ok d'"
proof -
  from c obtain us data where a: "digest_ok h" "scopes_ok scopes" "entitled d t ex data"
      "length (hashes_of data) < MAX_ACTIVE_KEYS" "dc_keys d h = None" "\<forall>g \<in> set (hashes_of data). take 12 g \<noteq> take 12 h"
    and d': "d' = d\<lparr>dc_tenants := (dc_tenants d)(t \<mapsto> data\<lparr>td_key_hashes := Some (hashes_of data @ [h])\<rparr>),
              dc_keys := (dc_keys d)(h \<mapsto> key_record t h (sort scopes) us)\<rparr>"
    unfolding fs_add_key_iff by blast
  from a(3) have t: "dc_tenants d t = Some data" by (simp add: entitled_ok [OF ok])
  from a(6) have fresh: "take 12 h \<notin> take 12 ` set (hashes_of data)" by fastforce
  have "h \<notin> set (hashes_of data)" using fresh by blast
  note new = a(1-5) fresh this
  show ?thesis
  proof (rule docs_okI)
    show "tenant_doc_ok d' s data'" if "dc_tenants d' s = Some data'" for s data'
      using that docs_okD(1) [OF ok, of s data'] docs_okD(1) [OF ok t] new
      by (auto simp: d' tenant_doc_ok_def fs_holder_def key_record_def split: if_splits)
    show "key_doc_ok d' g key" if "dc_keys d' g = Some key" for g key
      using that docs_okD(2) [OF ok, of g key] a t scopes_ok_sort
      by (auto simp: d' key_doc_ok_def key_record_def split: if_splits)
    show "dc_tenants d' s \<noteq> None \<and> sd_schema_version w = SCHEMA_VERSION" if "dc_states d' s = Some w" for s w
      using that docs_okD(3,4) [OF ok, of s w] by (auto simp: d' split: if_splits)
  qed
qed

lemma revoke_docs_ok:
  assumes ok: "docs_ok d" and c: "fs_revoke_key failure t sel ex d = (Inr b, d')"
  shows "docs_ok d'"
proof (cases "d' = d")
  case False
  with c obtain data h hs where a: "entitled d t ex data" and h: "filter (\<lambda>g. g = sel \<or> take 12 g = sel) (hashes_of data) = h # hs"
    and d': "d' = d\<lparr>dc_tenants := (dc_tenants d)(t \<mapsto> data\<lparr>td_key_hashes := Some (filter (\<lambda>g. g \<noteq> h) (hashes_of data))\<rparr>),
                             dc_keys := (dc_keys d)(h := None)\<rparr>"
    unfolding fs_revoke_iff by (cases "dc_tenants d t = None \<and> ex = None") (force simp: neq_Nil_conv split: list.splits)+
  from a have t: "dc_tenants d t = Some data" by (simp add: entitled_ok [OF ok])
  have "h \<in> set (hashes_of data)" using h by (auto simp: filter_eq_Cons_iff)
  then have holder: "fs_holder d h = Some t" by (simp add: hashes_holder [OF ok t])
  show ?thesis
  proof (rule docs_okI)
    show "tenant_doc_ok d' s data'" if "dc_tenants d' s = Some data'" for s data'
    proof (cases "s = t")
      case True
      have "length (filter (\<lambda>g. g \<noteq> h) (hashes_of data)) \<le> length (hashes_of data)" by simp
      with True that docs_okD(1) [OF ok t] show ?thesis
        by (auto simp: d' tenant_doc_ok_def fs_holder_def distinct_map inj_on_def intro: order_trans simp del: length_filter_le)
    next
      case False
      with that docs_okD(1) [OF ok, of s data'] holder show ?thesis
        by (auto simp: d' tenant_doc_ok_def fs_holder_def)
    qed
    show "key_doc_ok d' g key" if "dc_keys d' g = Some key" for g key
      using that docs_okD(2) [OF ok, of g key] t
      by (auto simp: d' key_doc_ok_def split: if_splits)
    show "dc_tenants d' s \<noteq> None \<and> sd_schema_version w = SCHEMA_VERSION" if "dc_states d' s = Some w" for s w
      using that docs_okD(3,4) [OF ok, of s w] by (auto simp: d' split: if_splits)
  qed
qed (use ok in simp)

lemma states_docs_ok:
  assumes "docs_ok d" "dc_tenants d' = dc_tenants d" "dc_keys d' = dc_keys d"
    and "\<And>t w. dc_states d' t = Some w \<Longrightarrow> dc_tenants d t \<noteq> None \<and> sd_schema_version w = SCHEMA_VERSION"
  shows "docs_ok d'"
  using assms by (auto simp: docs_ok_def tenant_doc_ok_def key_doc_ok_def fs_holder_def)

lemma delete_docs_ok:
  assumes ok: "docs_ok d" and c: "fs_delete_tenant failure t ex d = (Inr b, d')"
  shows "docs_ok d'"
proof (cases "d' = d")
  case False
  with c obtain data where a: "entitled d t ex data"
    and d': "d' = \<lparr>dc_tenants = (dc_tenants d)(t := None),
              dc_keys = (\<lambda>h. if h \<in> set (hashes_of data) then None else dc_keys d h), dc_states = (dc_states d)(t := None)\<rparr>"
    unfolding fs_delete_iff by (auto split: if_splits)
  from a have t: "dc_tenants d t = Some data" by (simp add: entitled_ok [OF ok])
  show ?thesis
  proof (rule docs_okI)
    show "tenant_doc_ok d' s data'" if "dc_tenants d' s = Some data'" for s data'
      using that docs_okD(1) [OF ok, of s data'] hashes_holder [OF ok t]
      by (auto simp: d' tenant_doc_ok_def fs_holder_def split: if_splits)
    show "key_doc_ok d' g key" if "dc_keys d' g = Some key" for g key
      using that docs_okD(2) [OF ok, of g key] hashes_holder [OF ok t, of g]
      by (auto simp: d' key_doc_ok_def fs_holder_def split: if_splits)
    show "dc_tenants d' s \<noteq> None \<and> sd_schema_version w = SCHEMA_VERSION" if "dc_states d' s = Some w" for s w
      using that docs_okD(3,4) [OF ok, of s w] by (auto simp: d' split: if_splits)
  qed
qed (use ok in simp)

lemma outcome_Inr [simp]: "outcome_of r = (Inr u, d') \<longleftrightarrow> (\<exists>x. r = (Inr x, d'))"
  by (cases r; cases "fst r") (auto simp: outcome_of_def)

lemma fs_call_ok:
  assumes ok: "docs_ok d" and c: "fs_call failure blank encode p d = (Inr u, d')"
  shows "docs_ok d'"
proof (cases p)
  case (Create t h now)
  with ok c show ?thesis by (auto intro: create_docs_ok)
next
  case (Add_Key t h scopes now ex)
  with ok c show ?thesis by (auto intro: add_key_docs_ok)
next
  case (Revoke t sel ex)
  with ok c show ?thesis by (auto intro: revoke_docs_ok)
next
  case (List_Keys t ex)
  with ok c show ?thesis by (auto dest: fs_list_keys_iff)
next
  case (Transact now t f ex)
  with c obtain x where "fs_transact failure blank encode now t f ex d = (Inr x, d')" by auto
  then show ?thesis unfolding fs_transact_iff
    using docs_okD(3,4) [OF ok] entitled_ok [OF ok] by (auto intro!: states_docs_ok [OF ok] split: if_splits)
next
  case (Read_State now t ex)
  with c obtain x where "fs_read_state failure blank now t ex d = (Inr x, d')" by auto
  then show ?thesis unfolding fs_read_state_iff
    using docs_okD(3,4) [OF ok] ok by (auto intro!: states_docs_ok [OF ok] split: if_splits option.splits)
next
  case (Delete t ex)
  with ok c show ?thesis by (auto intro: delete_docs_ok)
qed (use c in simp)

lemma fs_exec_cases:
  obtains (failed) "fs_exec blank encode (failure, p) d = d"
  | (committed) "fs_call failure blank encode p d = (Inr (), fs_exec blank encode (failure, p) d)"
proof (cases "fs_call failure blank encode p d")
  case (Pair r d')
  then show thesis
    using fs_call_rollback [of failure blank encode p d] failed committed by (cases r) (auto simp: fs_exec_def)
qed

lemma fs_exec_ok: "docs_ok d \<Longrightarrow> docs_ok (fs_exec blank encode (failure, p) d)"
  by (cases rule: fs_exec_cases [of blank encode failure p d]) (auto dest: fs_call_ok)

subsection \<open>The laws of the interface\<close>

text \<open>What a committed call may change: the documents of its tenant, and keys that are its tenant's before or after.\<close>

definition touches_only :: "string \<Rightarrow> string option \<Rightarrow> 's docs \<Rightarrow> 's docs \<Rightarrow> bool" where
  "touches_only t new d d' \<longleftrightarrow>
     (\<forall>s. s \<noteq> t \<longrightarrow> dc_tenants d' s = dc_tenants d s \<and> dc_states d' s = dc_states d s) \<and>
     (\<forall>h. dc_keys d' h = dc_keys d h \<or> (dc_keys d' h = None \<and> fs_holder d h = Some t) \<or>
          (new = Some h \<and> dc_keys d h = None \<and> fs_holder d' h = Some t))"

lemma touches_same: "touches_only t new d d"
  by (simp add: touches_only_def)

lemma revoke_touches:
  assumes ok: "docs_ok d" and c: "fs_revoke_key failure t sel ex d = (Inr b, d')"
  shows "touches_only t new d d'"
proof (cases "d' = d")
  case False
  with c obtain data h hs where a: "entitled d t ex data" and h: "filter (\<lambda>g. g = sel \<or> take 12 g = sel) (hashes_of data) = h # hs"
    and d': "d' = d\<lparr>dc_tenants := (dc_tenants d)(t \<mapsto> data\<lparr>td_key_hashes := Some (filter (\<lambda>g. g \<noteq> h) (hashes_of data))\<rparr>),
                             dc_keys := (dc_keys d)(h := None)\<rparr>"
    unfolding fs_revoke_iff by (cases "dc_tenants d t = None \<and> ex = None") (force simp: neq_Nil_conv split: list.splits)+
  from a have t: "dc_tenants d t = Some data" by (simp add: entitled_ok [OF ok])
  have "h \<in> set (hashes_of data)" using h by (auto simp: filter_eq_Cons_iff)
  then show ?thesis by (simp add: d' touches_only_def hashes_holder [OF ok t])
qed (simp add: touches_same)

lemma delete_touches:
  assumes ok: "docs_ok d" and c: "fs_delete_tenant failure t ex d = (Inr b, d')"
  shows "touches_only t new d d'"
proof (cases "d' = d")
  case False
  with c obtain data where "dc_tenants d t = Some data"
    and "d' = \<lparr>dc_tenants = (dc_tenants d)(t := None),
              dc_keys = (\<lambda>h. if h \<in> set (hashes_of data) then None else dc_keys d h), dc_states = (dc_states d)(t := None)\<rparr>"
    unfolding fs_delete_iff entitled_ok [OF ok] by (auto split: if_splits)
  then show ?thesis using hashes_holder [OF ok] by (auto simp: touches_only_def)
qed (simp add: touches_same)

lemma fs_call_touches:
  assumes ok: "docs_ok d" and c: "fs_call failure blank encode p d = (Inr u, d')"
  shows "\<exists>t. op_tenant p = Some t \<and> touches_only t (op_registers p) d d'"
proof (cases p)
  case (Create t h now)
  with c show ?thesis by (auto simp: fs_create_iff touches_only_def fs_holder_def key_record_def split: if_splits)
next
  case (Add_Key t h scopes now ex)
  with c show ?thesis by (auto simp: fs_add_key_iff touches_only_def fs_holder_def key_record_def split: if_splits)
next
  case (Revoke t sel ex)
  with ok c show ?thesis by (auto intro: revoke_touches)
next
  case (List_Keys t ex)
  with c show ?thesis by (auto dest: fs_list_keys_iff intro: touches_same)
next
  case (Transact now t f ex)
  with c obtain x where "fs_transact failure blank encode now t f ex d = (Inr x, d')" by auto
  then show ?thesis unfolding fs_transact_iff Transact by (auto simp: touches_only_def)
next
  case (Read_State now t ex)
  with c obtain x where "fs_read_state failure blank now t ex d = (Inr x, d')" by auto
  then show ?thesis unfolding fs_read_state_iff Read_State by (auto simp: touches_only_def split: if_splits option.splits)
next
  case (Delete t ex)
  with ok c show ?thesis by (auto intro: delete_touches)
qed (use c in simp)

lemma fs_exec_holder:
  assumes "docs_ok d" "fs_holder d h = None" "op_registers p \<noteq> Some h"
  shows "fs_holder (fs_exec blank encode (failure, p) d) h = None"
proof (cases rule: fs_exec_cases [of blank encode failure p d])
  case committed
  from fs_call_touches [OF assms(1) this] assms(2,3) show ?thesis
    unfolding touches_only_def fs_holder_def by (auto dest!: spec [of _ h])
qed (simp add: assms)

lemma touches_view:
  assumes "touches_only t' new d d'" "t' \<noteq> t"
  shows "fs_view d' t = fs_view d t"
proof -
  have key: "dc_keys d' h = dc_keys d h \<or> (dc_keys d' h = None \<and> fs_holder d h = Some t') \<or>
      (dc_keys d h = None \<and> fs_holder d' h = Some t')" for h
    using assms(1) unfolding touches_only_def by blast
  have "(case dc_keys d' h of None \<Rightarrow> None | Some key \<Rightarrow> if ki_tenant key = t then Some key else None) =
        (case dc_keys d h of None \<Rightarrow> None | Some key \<Rightarrow> if ki_tenant key = t then Some key else None)" for h
    using key [of h] assms(2) by (auto simp: fs_holder_def)
  with assms show ?thesis by (simp add: fs_view_def touches_only_def)
qed

lemma fs_exec_view:
  assumes "docs_ok d" "op_tenant p = Some t'" "t' \<noteq> t"
  shows "fs_view (fs_exec blank encode (failure, p) d) t = fs_view d t"
proof (cases rule: fs_exec_cases [of blank encode failure p d])
  case committed
  from fs_call_touches [OF assms(1) this] assms(2,3) show ?thesis by (auto intro: touches_view)
qed simp

interpretation firestore: tenant_store docs_ok "fs_exec blank encode" fs_holder fs_view
    "\<lambda>c. op_tenant (snd c)" "\<lambda>c. op_registers (snd c)"
  for blank :: 's and encode
  by unfold_locales (auto intro: fs_exec_ok fs_exec_holder fs_exec_view)

end
