(* ===== verification/Firestore_Spec.thy ===== *)
theory Firestore_Spec
  imports Firestore_Runs Store_Spec
begin

text \<open>
  One contract for both stores.  \<open>spec_call\<close> says, of the abstract store, whether a call is accepted and with
  which exception it is refused; \<open>spec_op\<close> of \<open>Store_Spec\<close> is its effect.  The SQLite tables and the Firestore
  documents both implement it, so the two stores cannot be told apart by their outcomes.
\<close>

subsection \<open>The contract\<close>

definition fs_spec_of :: "'s docs \<Rightarrow> 's spec" where
  "fs_spec_of d =
     \<lparr>sp_tenants = {t. dc_tenants d t \<noteq> None},
      sp_keys = (\<lambda>h. map_option (\<lambda>k. (ki_tenant k, ki_scopes k)) (dc_keys d h)),
      sp_state = (\<lambda>t. map_option (\<lambda>w. (sd_state w, sd_expires_at w)) (dc_states d t))\<rparr>"

definition spec_keys :: "'s spec \<Rightarrow> string \<Rightarrow> string set" where
  "spec_keys sp t = {h. \<exists>sc. sp_keys sp h = Some (t, sc)}"

definition spec_live :: "'s spec \<Rightarrow> string \<Rightarrow> string option \<Rightarrow> 'e store_error + unit" where
  "spec_live sp t expected =
     (case expected of None \<Rightarrow> Inr () | Some h \<Rightarrow> require_that (h \<in> spec_keys sp t) TenantMissing)"

fun spec_call :: "'s \<Rightarrow> ('s \<Rightarrow> string option) \<Rightarrow> ('s, 'e, 'a) store_op \<Rightarrow> 's spec \<Rightarrow> 'e store_error + unit" where
  "spec_call blank encode (Create t h now) sp =
     rbind (check_tenant_id t) (\<lambda>_. rbind (check_digest h) (\<lambda>_. rbind (utc now) (\<lambda>us.
     rbind (require_that (t \<notin> sp_tenants sp) TenantExists) (\<lambda>_.
     rbind (require_that (sp_keys sp h = None) KeyConflict) (\<lambda>_.
     rbind (add_retention us) (\<lambda>_. Inr ()))))))"
| "spec_call blank encode (Add_Key t h scopes now ex) sp =
     rbind (check_tenant_id t) (\<lambda>_. rbind (check_digest h) (\<lambda>_. rbind (check_scopes scopes) (\<lambda>_. rbind (utc now) (\<lambda>_.
     rbind (require_that (t \<in> sp_tenants sp) TenantMissing) (\<lambda>_.
     rbind (spec_live sp t ex) (\<lambda>_.
     rbind (require_that (card (spec_keys sp t) < MAX_ACTIVE_KEYS) StorageLimit) (\<lambda>_.
       require_that (sp_keys sp h = None \<and> take 12 h \<notin> take 12 ` spec_keys sp t) KeyConflict)))))))"
| "spec_call blank encode (Revoke t sel ex) sp =
     rbind (check_tenant_id t) (\<lambda>_. rbind (check_selector sel) (\<lambda>_. spec_live sp t ex))"
| "spec_call blank encode (List_Keys t ex) sp = rbind (check_tenant_id t) (\<lambda>_. spec_live sp t ex)"
| "spec_call blank encode (Transact now t f ex) sp =
     rbind (check_tenant_id t) (\<lambda>_.
     rbind (require_that (t \<in> sp_tenants sp) TenantMissing) (\<lambda>_.
     rbind (spec_live sp t ex) (\<lambda>_.
       (case f (spec_state blank now sp t) of
          Inl e \<Rightarrow> Inl (Callback e)
        | Inr (s, x) \<Rightarrow> rbind (serialize encode s) (\<lambda>_. rbind (add_retention now) (\<lambda>_. Inr ()))))))"
| "spec_call blank encode (Read_State now t ex) sp = rbind (check_tenant_id t) (\<lambda>_. spec_live sp t ex)"
| "spec_call blank encode (Delete t ex) sp = rbind (check_tenant_id t) (\<lambda>_. spec_live sp t ex)"
| "spec_call blank encode (Purge now) sp = Inr ()"

text \<open>The credential that the service passes is a digest.\<close>

definition op_digest_ok :: "('s, 'e, 'a) store_op \<Rightarrow> bool" where
  "op_digest_ok p \<longleftrightarrow> (\<forall>g. op_expects p = Some g \<longrightarrow> digest_ok g)"

subsection \<open>The SQLite store\<close>

lemma sum_fst_iff: "fst r = Inr x \<longleftrightarrow> (\<exists>d. r = (Inr x, d))"
  by (cases r) auto

lemma fst_transaction: "fst (transaction db body) = rbind (body db) (\<lambda>r. Inr (fst r))"
  by (auto simp: transaction_def rbind_def split: sum.split)

lemma fst_outcome: "fst (outcome_of r) = rbind (fst r) (\<lambda>_. Inr ())"
  by (cases "fst r") (auto simp: outcome_of_def rbind_def)

lemma rbind_assoc: "rbind (rbind m f) g = rbind m (\<lambda>x. rbind (f x) g)"
  by (cases m) (auto simp: rbind_def)

lemma rbind_if: "rbind (if b then m else n) f = (if b then rbind m f else rbind n f)"
  by simp

lemma spec_keys_sqlite:
  "db_ok db \<Longrightarrow> spec_keys (spec_of db) t = kr_hash ` set (tenant_keys db t)"
  by (auto simp: spec_keys_def tenant_keys_def find_key_Some)

lemma holds_key_spec:
  "db_ok db \<Longrightarrow> list_ex (\<lambda>k. kr_tenant k = t \<and> kr_hash k = h) (db_keys db) \<longleftrightarrow> h \<in> spec_keys (spec_of db) t"
  by (auto simp: spec_keys_sqlite tenant_keys_def list_ex_iff)

lemma require_key_spec:
  assumes "db_ok db" "\<forall>g. ex = Some g \<longrightarrow> digest_ok g"
  shows "require_key db t ex = (spec_live (spec_of db) t ex :: 'e store_error + unit)"
  using assms(2) by (cases ex) (simp_all add: require_key_def spec_live_def check_digest_def holds_key_spec [OF assms(1)])

lemma card_spec_keys: "db_ok db \<Longrightarrow> card (spec_keys (spec_of db) t) = length (tenant_keys db t)"
proof -
  assume ok: "db_ok db"
  then have "distinct (map kr_hash (tenant_keys db t))"
    using db_ok_distinct(1) [OF ok] by (auto simp: tenant_keys_def distinct_map inj_on_def)
  then have "card (set (map kr_hash (tenant_keys db t))) = length (tenant_keys db t)" by (simp only: distinct_card length_map)
  then show ?thesis by (simp add: spec_keys_sqlite [OF ok])
qed

lemma create_spec:
  fixes blank :: 's and db :: "'s db"
  assumes ok: "db_ok db"
  shows "fst (create_tenant blank t h now db) =
    (spec_call blank encode (Create t h now :: ('s, 'e, 'a) store_op) (spec_of db) :: 'e store_error + unit)"
proof -
  have ins: "rbind (insert_key \<lparr>kr_hash = h, kr_tenant = t, kr_key_id = i, kr_scopes = sc, kr_created_at = us\<rparr>
        (db\<lparr>db_tenants := ts\<rparr>)) F = (F (db\<lparr>db_tenants := ts, db_keys := db_keys db @
        [\<lparr>kr_hash = h, kr_tenant = t, kr_key_id = i, kr_scopes = sc, kr_created_at = us\<rparr>]\<rparr>) :: 'e store_error + 'x)"
    if "t \<notin> tr_tenant_id ` set (db_tenants db)" "find_key db h = None" "t \<in> tr_tenant_id ` set ts" for i sc us ts F
  proof -
    have "\<forall>k \<in> set (db_keys db). kr_tenant k \<noteq> t" using ok that(1) by (auto simp: db_ok_def has_tenant_def)
    with that(2,3) show ?thesis by (auto simp: insert_key_def find_key_def has_tenant_def list_ex_iff)
  qed
  have "find_state db t = None" if "\<not> has_tenant db t"
    using that ok by (auto simp: find_state_None db_ok_def)
  then show ?thesis
    by (auto simp: create_tenant_def fst_transaction rbind_assoc check_tenant_id_def check_digest_def utc_def add_retention_def
        require_that_def insert_tenant_def has_tenant_def ins insert_state_def find_state_def split: pydatetime.splits)
qed

lemma add_key_spec:
  fixes blank :: 's and db :: "'s db"
  assumes ok: "db_ok db" and ex: "\<forall>g. ex = Some g \<longrightarrow> digest_ok g"
  shows "fst (add_key t h scopes now ex db) =
    (spec_call blank encode (Add_Key t h scopes now ex :: ('s, 'e, 'a) store_op) (spec_of db) :: 'e store_error + unit)"
proof -
  have "(find_key db h \<noteq> None \<or> list_ex (\<lambda>k. kr_tenant k = t \<and> kr_key_id k = take 12 h) (db_keys db)) \<longleftrightarrow>
        \<not> (find_key db h = None \<and> take 12 h \<notin> take 12 ` spec_keys (spec_of db) t)"
    using key_row_id [OF ok] by (force simp: spec_keys_sqlite [OF ok] tenant_keys_def list_ex_iff image_image)
  then have ins: "has_tenant db t \<Longrightarrow>
      insert_key \<lparr>kr_hash = h, kr_tenant = t, kr_key_id = take 12 h, kr_scopes = sc, kr_created_at = us\<rparr> db =
       (if find_key db h = None \<and> take 12 h \<notin> take 12 ` spec_keys (spec_of db) t
        then Inr (db\<lparr>db_keys := db_keys db @
          [\<lparr>kr_hash = h, kr_tenant = t, kr_key_id = take 12 h, kr_scopes = sc, kr_created_at = us\<rparr>]\<rparr>)
        else (Inl IntegrityError :: 'e store_error + _))" for sc us
    unfolding insert_key_def by auto
  show ?thesis
    by (auto simp: add_key_def fst_transaction rbind_assoc check_tenant_id_def check_digest_def check_scopes_def utc_def
        require_that_def require_tenant_def require_key_spec [OF ok ex] card_spec_keys [OF ok] ins
        split: pydatetime.splits intro!: arg_cong [of _ _ "rbind _"])
qed

lemma transact_spec:
  fixes blank :: 's and db :: "'s db"
  assumes ok: "db_ok db" and ex: "\<forall>g. ex = Some g \<longrightarrow> digest_ok g"
  shows "rbind (fst (transact blank encode now t f ex db)) (\<lambda>_. Inr ()) =
    (spec_call blank encode (Transact now t f ex :: ('s, 'e, 'a) store_op) (spec_of db) :: 'e store_error + unit)"
  by (auto simp: transact_def fst_transaction rbind_assoc check_tenant_id_def require_that_def require_tenant_def
      require_key_spec [OF ok ex] current_state_spec serialize_def add_retention_def upsert_state_def
      split: sum.split option.split intro!: arg_cong [of _ _ "rbind _"])

lemma call_op_spec:
  fixes p :: "('s, 'e, 'a) store_op"
  assumes ok: "db_ok db" and p: "op_tenant p \<noteq> None" "op_digest_ok p"
  shows "fst (call_op blank encode plan p db) = spec_call blank encode p (spec_of db)"
proof (cases p)
  case (Create t h now)
  with ok show ?thesis using create_spec by simp
next
  case (Add_Key t h scopes now ex)
  with p have "\<forall>g. ex = Some g \<longrightarrow> digest_ok g" by (simp add: op_digest_ok_def)
  with Add_Key ok show ?thesis using add_key_spec by simp
next
  case (Revoke t sel ex)
  with p have ex: "\<forall>g. ex = Some g \<longrightarrow> digest_ok g" by (simp add: op_digest_ok_def)
  show ?thesis unfolding Revoke
    by (auto simp: fst_outcome revoke_key_def fst_transaction rbind_assoc require_key_spec [OF ok ex] Let_def
        check_tenant_id_def check_selector_def rbind_def split: sum.split)
next
  case (List_Keys t ex)
  with p have ex: "\<forall>g. ex = Some g \<longrightarrow> digest_ok g" by (simp add: op_digest_ok_def)
  show ?thesis unfolding List_Keys
    by (auto simp: fst_outcome list_keys_def fst_transaction rbind_assoc require_key_spec [OF ok ex] Let_def
        check_tenant_id_def rbind_def split: sum.split)
next
  case (Transact now t f ex)
  with p have ex: "\<forall>g. ex = Some g \<longrightarrow> digest_ok g" by (simp add: op_digest_ok_def)
  show ?thesis unfolding Transact using transact_spec [OF ok ex] by (simp add: fst_outcome)
next
  case (Read_State now t ex)
  with p have ex: "\<forall>g. ex = Some g \<longrightarrow> digest_ok g" by (simp add: op_digest_ok_def)
  show ?thesis unfolding Read_State
    by (auto simp: fst_outcome read_state_def fst_transaction rbind_assoc require_key_spec [OF ok ex]
        check_tenant_id_def rbind_def split: sum.split option.split)
next
  case (Delete t ex)
  with p have ex: "\<forall>g. ex = Some g \<longrightarrow> digest_ok g" by (simp add: op_digest_ok_def)
  show ?thesis unfolding Delete
    by (auto simp: fst_outcome delete_tenant_def fst_transaction rbind_assoc require_key_spec [OF ok ex]
        check_tenant_id_def rbind_def split: sum.split)
qed (use p in simp)

subsection \<open>The Firestore store\<close>

lemma fs_spec_of_simps [simp]:
  "sp_tenants (fs_spec_of d) = {t. dc_tenants d t \<noteq> None}"
  "sp_keys (fs_spec_of d) h = map_option (\<lambda>k. (ki_tenant k, ki_scopes k)) (dc_keys d h)"
  "sp_state (fs_spec_of d) t = map_option (\<lambda>w. (sd_state w, sd_expires_at w)) (dc_states d t)"
  by (simp_all add: fs_spec_of_def)

lemma fst_run: "fst (run_transaction None d callback) = rbind (callback d) (\<lambda>r. Inr (fst r))"
  by (auto simp: run_transaction_def rbind_def split: sum.split)

lemma spec_keys_docs: "docs_ok d \<Longrightarrow> dc_tenants d t = Some data \<Longrightarrow> spec_keys (fs_spec_of d) t = set (hashes_of data)"
  using hashes_holder [of d t data] by (auto simp: spec_keys_def fs_holder_def)

lemma spec_keys_none: "docs_ok d \<Longrightarrow> dc_tenants d t = None \<Longrightarrow> spec_keys (fs_spec_of d) t = {}"
  using docs_okD(2) [of d] by (fastforce simp: spec_keys_def key_doc_ok_def)

lemma card_docs: "docs_ok d \<Longrightarrow> dc_tenants d t = Some data \<Longrightarrow> card (set (hashes_of data)) = length (hashes_of data)"
  using docs_okD(1) [of d t data]
  by (auto simp: tenant_doc_ok_def distinct_map intro: distinct_card)

lemma metadata_docs: "docs_ok d \<Longrightarrow> dc_tenants d t = Some data \<Longrightarrow> fs_metadata (Some data) = Inr data"
  using docs_okD(1) [of d t data] by (simp add: tenant_doc_ok_def)

lemma require_docs:
  assumes "docs_ok d" "dc_tenants d t = Some data" "\<forall>g. ex = Some g \<longrightarrow> digest_ok g"
  shows "fs_require_key data ex = (spec_live (fs_spec_of d) t ex :: 'e store_error + unit)"
  using assms(3) by (cases ex)
    (simp_all add: fs_require_key_def spec_live_def check_digest_def spec_keys_docs [OF assms(1,2)])

lemma metadata_none [simp]: "fs_metadata None = Inl TenantMissing"
  by (simp add: fs_metadata_def)

lemma live_none:
  "docs_ok d \<Longrightarrow> dc_tenants d t = None \<Longrightarrow>
   spec_live (fs_spec_of d) t ex = (if ex = None then Inr () else Inl TenantMissing)"
  by (cases ex) (simp_all add: spec_live_def spec_keys_none)

lemma decode_docs:
  assumes "docs_ok d"
  shows "decode_state blank (dc_states d t) now = Inr (spec_state blank now (fs_spec_of d) t)"
  using docs_okD(4) [OF assms, of t] by (auto simp: decode_state_iff spec_state_def split: option.splits)

lemma fs_call_spec:
  fixes p :: "('s, 'e, 'a) store_op"
  assumes ok: "docs_ok d" and p: "op_tenant p \<noteq> None" "op_digest_ok p"
  shows "fst (fs_call None blank encode p d) = spec_call blank encode p (fs_spec_of d)"
proof -
  note checks = check_tenant_id_def check_digest_def check_scopes_def check_selector_def require_that_def
  show ?thesis
  proof (cases p)
    case (Create t h now)
    then show ?thesis
      by (auto simp: fs_create_tenant_def fst_run rbind_assoc checks state_document_def add_retention_def utc_def
          split: pydatetime.splits)
  next
    case (Add_Key t h scopes now ex)
    with p have ex: "\<forall>g. ex = Some g \<longrightarrow> digest_ok g" by (simp add: op_digest_ok_def)
    show ?thesis unfolding Add_Key
      by (cases "dc_tenants d t")
        (auto simp: fs_add_key_def fst_run rbind_assoc metadata_docs [OF ok, of t] require_docs [OF ok _ ex, of t] checks utc_def card_docs [OF ok]
          spec_keys_docs [OF ok] list_ex_iff image_iff split: pydatetime.splits intro!: arg_cong [of _ _ "rbind _"])
  next
    case (Revoke t sel ex)
    with p have ex: "\<forall>g. ex = Some g \<longrightarrow> digest_ok g" by (simp add: op_digest_ok_def)
    show ?thesis unfolding Revoke
      by (cases "dc_tenants d t"; cases "spec_live (fs_spec_of d) t ex :: 'e store_error + unit")
        (auto simp: fst_outcome fs_revoke_key_def fst_run rbind_assoc metadata_docs [OF ok, of t] require_docs [OF ok _ ex, of t] live_none [OF ok] checks split: list.split)
  next
    case (List_Keys t ex)
    with p have ex: "\<forall>g. ex = Some g \<longrightarrow> digest_ok g" by (simp add: op_digest_ok_def)
    show ?thesis unfolding List_Keys
      by (cases "dc_tenants d t"; cases "spec_live (fs_spec_of d) t ex :: 'e store_error + unit")
        (auto simp: fst_outcome fs_list_keys_def fst_run rbind_assoc metadata_docs [OF ok, of t] require_docs [OF ok _ ex, of t] live_none [OF ok] checks Let_def)
  next
    case (Transact now t f ex)
    with p have ex: "\<forall>g. ex = Some g \<longrightarrow> digest_ok g" by (simp add: op_digest_ok_def)
    show ?thesis unfolding Transact
      by (cases "dc_tenants d t")
        (auto simp: fst_outcome fs_transact_def fst_run rbind_assoc metadata_docs [OF ok, of t] require_docs [OF ok _ ex, of t] decode_docs [OF ok] checks
          serialize_def state_document_def add_retention_def
          split: sum.split option.split intro!: arg_cong [of _ _ "rbind _"])
  next
    case (Read_State now t ex)
    with p have ex: "\<forall>g. ex = Some g \<longrightarrow> digest_ok g" by (simp add: op_digest_ok_def)
    show ?thesis unfolding Read_State
      by (cases "dc_tenants d t"; cases "spec_live (fs_spec_of d) t ex :: 'e store_error + unit")
        (auto simp: fst_outcome fs_read_state_def fst_run rbind_assoc metadata_docs [OF ok, of t] require_docs [OF ok _ ex, of t] live_none [OF ok] decode_docs [OF ok] checks)
  next
    case (Delete t ex)
    with p have ex: "\<forall>g. ex = Some g \<longrightarrow> digest_ok g" by (simp add: op_digest_ok_def)
    show ?thesis unfolding Delete
      by (cases "dc_tenants d t"; cases "spec_live (fs_spec_of d) t ex :: 'e store_error + unit")
        (auto simp: fst_outcome fs_delete_tenant_def fst_run rbind_assoc metadata_docs [OF ok, of t] require_docs [OF ok _ ex, of t] live_none [OF ok] checks)
  qed (use p in simp)
qed

lemma fs_revoke_refines:
  fixes blank :: 's and d :: "'s docs"
  assumes ok: "docs_ok d" and c: "fs_revoke_key failure t sel ex d = (Inr b, d')"
  shows "fs_spec_of d' = spec_op blank (Revoke t sel ex :: ('s, 'e, 'a) store_op) (fs_spec_of d)"
proof -
  let ?hit = "\<lambda>h. fs_holder d h = Some t \<and> (h = sel \<or> take 12 h = sel)"
  have "(\<forall>h. dc_keys d' h = (if ?hit h then None else dc_keys d h)) \<and> (\<forall>s. (dc_tenants d' s = None) = (dc_tenants d s = None)) \<and>
      dc_states d' = dc_states d"
  proof (cases "dc_tenants d t = None \<and> ex = None")
    case True
    then have "fs_holder d h \<noteq> Some t" for h using docs_okD(2) [OF ok, of h] by (auto simp: fs_holder_def key_doc_ok_def)
    with True c show ?thesis by (auto simp: fs_revoke_iff)
  next
    case False
    with c obtain data where a: "entitled d t ex data" and d': "case filter (\<lambda>g. g = sel \<or> take 12 g = sel) (hashes_of data) of
           [] \<Rightarrow> \<not> b \<and> d' = d
         | h # _ \<Rightarrow> b \<and> d' = d\<lparr>dc_tenants := (dc_tenants d)(t \<mapsto> data\<lparr>td_key_hashes := Some (filter (\<lambda>g. g \<noteq> h) (hashes_of data))\<rparr>),
                             dc_keys := (dc_keys d)(h := None)\<rparr>"
      unfolding fs_revoke_iff by auto
    then have t: "dc_tenants d t = Some data" by (simp add: entitled_ok [OF ok])
    have hit: "?hit h \<longleftrightarrow> h \<in> set (filter (\<lambda>g. g = sel \<or> take 12 g = sel) (hashes_of data))" for h
      using hashes_holder [OF ok t] by auto
    show ?thesis
    proof (cases "filter (\<lambda>g. g = sel \<or> take 12 g = sel) (hashes_of data)")
      case Nil
      with d' hit show ?thesis by auto
    next
      case (Cons h hs)
      then have h: "?hit h" using hit [of h] by simp
      have sel: "take 12 g = take 12 sel" if "?hit g" for g using that by auto
      have inj: "inj_on (take 12) {g. fs_holder d g = Some t}"
        using docs_okD(1) [OF ok t] hashes_holder [OF ok t] by (auto simp: tenant_doc_ok_def distinct_map inj_on_def)
      have same: "g = h" if g: "?hit g" for g
      proof (rule inj_onD [OF inj])
        show "take 12 g = take 12 h" using sel [OF g] sel [OF h] by simp
      qed (use g h in auto)
      have only: "?hit g \<longleftrightarrow> g = h" for g
        by (rule iffI [OF same]) (use h in simp_all)
      from Cons d' have "d' = d\<lparr>dc_tenants := (dc_tenants d)(t \<mapsto> data\<lparr>td_key_hashes := Some (filter (\<lambda>g. g \<noteq> h) (hashes_of data))\<rparr>),
          dc_keys := (dc_keys d)(h := None)\<rparr>" by simp
      then show ?thesis by (simp add: only t)
    qed
  qed
  then have eq: "\<And>h. dc_keys d' h = (if ?hit h then None else dc_keys d h)"
      "\<And>s. (dc_tenants d' s = None) = (dc_tenants d s = None)" "dc_states d' = dc_states d"
    by auto
  show ?thesis
  proof (rule spec_eqI)
    show "sp_keys (fs_spec_of d') h = sp_keys (spec_op blank (Revoke t sel ex) (fs_spec_of d)) h" for h
      by (cases "dc_keys d h") (simp_all add: eq(1) fs_holder_def)
  qed (simp_all add: eq(2,3))
qed

lemma fs_delete_refines:
  fixes blank :: 's and d :: "'s docs"
  assumes ok: "docs_ok d" and c: "fs_delete_tenant failure t ex d = (Inr b, d')"
  shows "fs_spec_of d' = spec_op blank (Delete t ex :: ('s, 'e, 'a) store_op) (fs_spec_of d)"
proof (cases "dc_tenants d t = None \<and> ex = None")
  case True
  then have "fs_holder d h \<noteq> Some t" for h using docs_okD(2) [OF ok, of h] by (auto simp: fs_holder_def key_doc_ok_def)
  moreover have "dc_states d t = None" using docs_okD(3) [OF ok, of t] True by (cases "dc_states d t") auto
  ultimately show ?thesis using True c
    by (intro spec_eqI) (auto simp: fs_delete_iff fs_holder_def split: option.splits)
next
  case False
  with c obtain data where t: "dc_tenants d t = Some data" and d': "d' = \<lparr>dc_tenants = (dc_tenants d)(t := None),
              dc_keys = (\<lambda>h. if h \<in> set (hashes_of data) then None else dc_keys d h), dc_states = (dc_states d)(t := None)\<rparr>"
    unfolding fs_delete_iff entitled_ok [OF ok] by auto
  show ?thesis using hashes_holder [OF ok t]
    by (intro spec_eqI) (auto simp: d' fs_holder_def split: option.splits)
qed

lemma fs_call_refines:
  fixes p :: "('s, 'e, 'a) store_op"
  assumes ok: "docs_ok d" and c: "fs_call failure blank encode p d = (Inr u, d')"
  shows "fs_spec_of d' = spec_op blank p (fs_spec_of d)"
proof (cases p)
  case (Create t h now)
  with c show ?thesis by (auto simp: fs_create_iff key_record_def intro!: spec_eqI split: if_splits)
next
  case (Add_Key t h scopes now ex)
  with c show ?thesis by (auto simp: fs_add_key_iff key_record_def entitled_ok [OF ok] intro!: spec_eqI split: if_splits)
next
  case (Revoke t sel ex)
  with c obtain b where "fs_revoke_key failure t sel ex d = (Inr b, d')" by auto
  then show ?thesis unfolding Revoke by (rule fs_revoke_refines [OF ok])
next
  case (List_Keys t ex)
  with c show ?thesis by (auto dest: fs_list_keys_iff)
next
  case (Transact now t f ex)
  with c obtain x where "fs_transact failure blank encode now t f ex d = (Inr x, d')" by auto
  then show ?thesis unfolding Transact fs_transact_iff decode_docs [OF ok]
    by (auto intro!: spec_eqI)
next
  case (Read_State now t ex)
  with c obtain x where "fs_read_state failure blank now t ex d = (Inr x, d')" by auto
  then show ?thesis unfolding Read_State fs_read_state_iff
    by (auto simp: entitled_ok [OF ok] intro!: spec_eqI split: if_splits option.splits)
next
  case (Delete t ex)
  with c obtain b where "fs_delete_tenant failure t ex d = (Inr b, d')" by auto
  then show ?thesis unfolding Delete by (rule fs_delete_refines [OF ok])
qed (use c in simp)

subsection \<open>The two stores side by side\<close>

text \<open>A sequence of calls: the outcome of each, and the store it leaves.\<close>

fun replay :: "('op \<Rightarrow> 'd \<Rightarrow> 'r \<times> 'd) \<Rightarrow> 'op list \<Rightarrow> 'd \<Rightarrow> 'r list \<times> 'd" where
  "replay call [] d = ([], d)"
| "replay call (p # ps) d = (let (r, d1) = call p d; (rs, d2) = replay call ps d1 in (r # rs, d2))"

lemma call_op_step:
  assumes "db_ok db" "op_tenant p \<noteq> None" "op_digest_ok p" "call_op blank encode plan p db = (r, db')"
  shows "db_ok db'" "r = spec_call blank encode p (spec_of db)"
    "spec_of db' = (if isl r then spec_of db else spec_op blank p (spec_of db))"
proof -
  show "r = spec_call blank encode p (spec_of db)"
    using call_op_spec [OF assms(1-3), of blank encode plan] unfolding assms(4) by simp
  have "db_ok db' \<and> spec_of db' = (if isl r then spec_of db else spec_op blank p (spec_of db))"
  proof (cases r)
    case (Inl e)
    with assms(4) have "call_op blank encode plan p db = (Inl e, db')" by simp
    then have "db' = db" by (rule call_op_rollback)
    with Inl assms(1) show ?thesis by simp
  next
    case (Inr u)
    with assms(4) have c: "call_op blank encode plan p db = (Inr u, db')" by simp
    show ?thesis using call_op_ok [OF assms(1) c] call_op_refines [OF assms(1) c assms(2)] Inr by simp
  qed
  then show "db_ok db'" "spec_of db' = (if isl r then spec_of db else spec_op blank p (spec_of db))" by simp_all
qed

lemma fs_call_step:
  assumes "docs_ok d" "op_tenant p \<noteq> None" "op_digest_ok p" "fs_call None blank encode p d = (r, d')"
  shows "docs_ok d'" "r = spec_call blank encode p (fs_spec_of d)"
    "fs_spec_of d' = (if isl r then fs_spec_of d else spec_op blank p (fs_spec_of d))"
proof -
  show "r = spec_call blank encode p (fs_spec_of d)"
    using fs_call_spec [OF assms(1-3), of blank encode] unfolding assms(4) by simp
  have "docs_ok d' \<and> fs_spec_of d' = (if isl r then fs_spec_of d else spec_op blank p (fs_spec_of d))"
  proof (cases r)
    case (Inl e)
    with assms(4) have "fs_call None blank encode p d = (Inl e, d')" by simp
    then have "d' = d" by (rule fs_call_rollback)
    with Inl assms(1) show ?thesis by simp
  next
    case (Inr u)
    with assms(4) have c: "fs_call None blank encode p d = (Inr u, d')" by simp
    show ?thesis using fs_call_ok [OF assms(1) c] fs_call_refines [OF assms(1) c] Inr by simp
  qed
  then show "docs_ok d'" "fs_spec_of d' = (if isl r then fs_spec_of d else spec_op blank p (fs_spec_of d))" by simp_all
qed

lemma replay_agree:
  assumes "db_ok db" "docs_ok d" "spec_of db = fs_spec_of d" "\<forall>p \<in> set ps. op_tenant p \<noteq> None \<and> op_digest_ok p"
    and "replay (call_op blank encode plan) ps db = (rs, db')" "replay (fs_call None blank encode) ps d = (rs', d')"
  shows "rs = rs' \<and> spec_of db' = fs_spec_of d'"
  using assms
proof (induction ps arbitrary: db d rs rs')
  case (Cons p ps)
  obtain r db1 r' d1 where c: "call_op blank encode plan p db = (r, db1)" "fs_call None blank encode p d = (r', d1)"
    by (metis surj_pair)
  from Cons.prems have p: "op_tenant p \<noteq> None" "op_digest_ok p" by auto
  note a = call_op_step [OF Cons.prems(1) p c(1)] and b = fs_call_step [OF Cons.prems(2) p c(2)]
  have "r = r'" "spec_of db1 = fs_spec_of d1" using a(2,3) b(2,3) Cons.prems(3) by auto
  moreover from Cons.prems(5,6) c obtain qs qs' where
    "replay (call_op blank encode plan) ps db1 = (qs, db')" "rs = r # qs"
    "replay (fs_call None blank encode) ps d1 = (qs', d')" "rs' = r' # qs'"
    by (auto split: prod.splits)
  ultimately show ?case using Cons.IH [OF a(1) b(1)] Cons.prems(4) by auto
qed simp

lemma empty_spec: "spec_of empty_db = fs_spec_of empty_docs"
  by (simp add: spec_of_def fs_spec_of_def empty_db_def empty_docs_def has_tenant_def find_key_def find_state_def)

text \<open>The values: a callback and a reader get the same state.\<close>

lemma transact_value:
  assumes "db_ok db" "docs_ok d" "spec_of db = fs_spec_of d" "\<forall>g. ex = Some g \<longrightarrow> digest_ok g"
  shows "fst (transact blank encode now t f ex db) = fst (fs_transact None blank encode now t f ex d)"
proof -
  have has: "has_tenant db t \<longleftrightarrow> dc_tenants d t \<noteq> None" using arg_cong [OF assms(3), of sp_tenants] by auto
  show ?thesis
    by (cases "dc_tenants d t")
      (auto simp: transact_def fst_transaction fs_transact_def fst_run rbind_assoc check_tenant_id_def require_that_def
        require_tenant_def require_key_spec [OF assms(1,4)] current_state_spec metadata_docs [OF assms(2), of t]
        require_docs [OF assms(2) _ assms(4), of t] decode_docs [OF assms(2)] assms(3) has serialize_def
        state_document_def add_retention_def upsert_state_def split: sum.split option.split intro!: arg_cong [of _ _ "rbind _"])
qed

definition key_face :: "key_info \<Rightarrow> string \<times> string \<times> string list \<times> bool" where
  "key_face k = (ki_tenant k, ki_key_id k, ki_scopes k, ki_active k)"

lemma authenticate_value:
  fixes db :: "'s db" and d :: "'s docs"
  assumes ok: "db_ok db" "docs_ok d" and same: "spec_of db = fs_spec_of d"
  shows "map_sum id (map_option key_face) (authenticate h db) =
    map_sum id (map_option key_face) (fst (fs_authenticate None h d) :: 'e store_error + _)"
proof (cases "digest_ok h")
  case True
  have keys: "map_option (\<lambda>k. (kr_tenant k, kr_scopes k)) (find_key db h) =
      map_option (\<lambda>k. (ki_tenant k, ki_scopes k)) (dc_keys d h)"
    using arg_cong [OF same, of "\<lambda>sp. sp_keys sp h"] by simp
  show ?thesis
  proof (cases "dc_keys d h")
    case None
    with keys True show ?thesis
      by (simp add: authenticate_def fs_authenticate_def fst_run check_digest_def)
  next
    case (Some key)
    then obtain k where k: "find_key db h = Some k" "kr_tenant k = ki_tenant key" "kr_scopes k = ki_scopes key"
      using keys by (cases "find_key db h") auto
    then have "k \<in> set (db_keys db)" using find_key_Some [OF ok(1)] by simp
    then have has: "has_tenant db (ki_tenant key)" using ok(1) k(2) by (auto simp: db_ok_def)
    from docs_okD(2) [OF ok(2) Some] obtain data where data: "dc_tenants d (ki_tenant key) = Some data"
      "h \<in> set (hashes_of data)" "ki_key_id key = take 12 h" "ki_active key"
      by (auto simp: key_doc_ok_def)
    show ?thesis
      by (simp add: authenticate_def fs_authenticate_def fst_run check_digest_def True Some k has data
          metadata_docs [OF ok(2) data(1)] key_record_def key_face_def)
  qed
qed (simp add: authenticate_def fs_authenticate_def fst_run check_digest_def)

end
