(* ===== verification/Operator.thy ===== *)
theory Operator
  imports Publish Api_Flows Firestore_Runs
begin

text \<open>
  The operator's command line, \<open>cli.py\<close>: credentials that are written once to a private file, provisioning and
  deletion of tenants, purging and backups.  The store is a record of the operations that the commands call, so that
  the same commands run on SQLite and on Firestore; parsing of the arguments and the server process are left out.
\<close>

datatype cli_error =
    Usage string \<comment> \<open>\<open>parser.error\<close>\<close>
  | Bad_Settings config_error
  | Store_Failed "update_error store_error"
  | System_Failed string

subsection \<open>Private files\<close>

definition remove_file :: "path \<Rightarrow> machine \<Rightarrow> machine" where
  "remove_file p m = m\<lparr>mc_files := (mc_files m)(p := None), mc_log := mc_log m @ [Removed p]\<rparr>"

text \<open>
  \<open>backup_sqlite\<close>.  \<open>source\<close> is what opening the database read-only gives: its schema version and its
  consistent copy, or an exception.  A copy that breaks off removes the output that this call created.
\<close>

definition backup_sqlite :: "(int \<times> string) option \<Rightarrow> disk \<Rightarrow> path \<Rightarrow> machine \<Rightarrow> (string + unit) \<times> machine" where
  "backup_sqlite source disk p m =
     (case source of
        None \<Rightarrow> (Inl ''OperationalError'', m)
      | Some (version, content) \<Rightarrow>
          if version \<noteq> SCHEMA_VERSION then (Inl ''ValueError'', m)
          else (case disk (mc_log m) p of
            Refuses \<Rightarrow> (Inl ''OSError'', m)
          | Breaks n \<Rightarrow>
              if mc_files m p \<noteq> None then (Inl ''FileExistsError'', m)
              else (Inl ''OSError'', remove_file p (create_file p (take n content) m))
          | Writes \<Rightarrow>
              if mc_files m p \<noteq> None then (Inl ''FileExistsError'', m)
              else (Inr (), create_file p content m)))"

subsection \<open>Tenants\<close>

record 'd store_ops =
  so_create :: "string \<Rightarrow> string \<Rightarrow> pydatetime \<Rightarrow> 'd \<Rightarrow> (update_error store_error + unit) \<times> 'd"
  so_delete :: "string \<Rightarrow> 'd \<Rightarrow> (update_error store_error + bool) \<times> 'd"
  so_purge :: "int \<Rightarrow> 'd \<Rightarrow> (update_error store_error + nat) \<times> 'd"

definition tenant_name_char :: "char \<Rightarrow> bool" where
  "tenant_name_char c \<longleftrightarrow> is_lower c \<or> is_digit c \<or> c = CHR ''_'' \<or> c = CHR ''-''"

definition tenant_name_ok :: "string \<Rightarrow> bool" where
  "tenant_name_ok s \<longleftrightarrow> 3 \<le> length s \<and> length s \<le> 64 \<and> (is_lower (hd s) \<or> is_digit (hd s)) \<and> list_all tenant_name_char (tl s)"

definition credentials_json :: "string \<Rightarrow> string \<Rightarrow> json" where
  "credentials_json tenant key = JObj
     [(''tenant_id'', JStr tenant), (''key'', JStr key),
      (''scopes'', JArr [JStr ''ingest'', JStr ''read'', JStr ''manage''])]"

text \<open>\<open>tenant create\<close>: a credential that cannot be written takes the tenant with it.\<close>

definition cli_create_tenant ::
    "runtime \<Rightarrow> (json \<Rightarrow> string) \<Rightarrow> disk \<Rightarrow> 'd store_ops \<Rightarrow> string \<Rightarrow> int \<Rightarrow> string \<Rightarrow> path \<Rightarrow> machine \<times> 'd \<Rightarrow>
     (cli_error + json) \<times> machine \<times> 'd" where
  "cli_create_tenant R render disk ops token now tenant output s =
     (let (m, d) = s; key = new_key token in
      if file_exists output m then (Inl (Usage ''Output file exists; choose a new private credential path''), m, d)
      else case so_create ops tenant (digest_key R key) (Aware now) d of
        (Inl e, d1) \<Rightarrow> (Inl (Store_Failed e), m, d1)
      | (Inr _, d1) \<Rightarrow>
          (case write_private render disk output (credentials_json tenant key) m of
             (Inr _, m1) \<Rightarrow> (Inr (JStr ''Tenant created; credential written to private output file.''), m1, d1)
           | (Inl e, m1) \<Rightarrow>
               (case so_delete ops tenant d1 of
                  (Inl e', d2) \<Rightarrow> (Inl (Store_Failed e'), m1, d2)
                | (Inr _, d2) \<Rightarrow> (Inl (System_Failed e), m1, d2))))"

definition cli_delete_tenant ::
    "'d store_ops \<Rightarrow> string \<Rightarrow> string \<Rightarrow> machine \<times> 'd \<Rightarrow> (cli_error + json) \<times> machine \<times> 'd" where
  "cli_delete_tenant ops tenant confirm s =
     (let (m, d) = s in
      if confirm \<noteq> tenant then (Inl (Usage ''--confirm must exactly match the tenant ID''), m, d)
      else case so_delete ops tenant d of
        (Inl e, d1) \<Rightarrow> (Inl (Store_Failed e), m, d1)
      | (Inr deleted, d1) \<Rightarrow> (Inr (JObj [(''deleted'', JBool deleted)]), m, d1))"

subsection \<open>The commands\<close>

datatype cli_command =
    Admin_Key path
  | Backup path
  | Purge_States
  | Create_Tenant string path
  | Delete_Tenant string string

text \<open>
  \<open>main\<close> without \<open>serve\<close>.  \<open>tokens\<close> is the random part of a new key and \<open>now\<close> the clock; \<open>sources\<close> opens
  the database file for a backup.
\<close>

definition cli_main ::
    "runtime \<Rightarrow> (json \<Rightarrow> string) \<Rightarrow> disk \<Rightarrow> (string \<Rightarrow> (int \<times> string) option) \<Rightarrow> (string \<Rightarrow> string option) \<Rightarrow> 'd store_ops \<Rightarrow>
     string \<Rightarrow> int \<Rightarrow> cli_command \<Rightarrow> machine \<times> 'd \<Rightarrow> (cli_error + json) \<times> machine \<times> 'd" where
  "cli_main R render disk sources env ops token now command s =
     (case from_env env of
        Inl e \<Rightarrow> (Inl (Bad_Settings e), s)
      | Inr cfg \<Rightarrow>
          (let (m, d) = s in
           case command of
             Admin_Key output \<Rightarrow>
               (let key = new_key token in
                case write_private render disk output (JObj [(''key'', JStr key), (''sha256'', JStr (digest_key R key))]) m of
                  (Inl e, m1) \<Rightarrow> (Inl (System_Failed e), m1, d)
                | (Inr _, m1) \<Rightarrow>
                    (Inr (JStr ''Administrator credential written. Set RM_ADMIN_HASH to its sha256 value.''), m1, d))
           | Backup output \<Rightarrow>
               if cf_store cfg \<noteq> ''sqlite'' then (Inl (Usage ''Use managed Firestore backup/PITR for the cloud backend''), m, d)
               else (case backup_sqlite (sources (cf_sqlite_path cfg)) disk output m of
                  (Inl e, m1) \<Rightarrow> (Inl (System_Failed e), m1, d)
                | (Inr _, m1) \<Rightarrow> (Inr (JStr ''Consistent private SQLite backup created.''), m1, d))
           | Purge_States \<Rightarrow>
               if cf_store cfg \<noteq> ''sqlite''
               then (Inl (Usage ''purge supports SQLite only; cloud state expiry uses Firestore TTL''), m, d)
               else (case so_purge ops now d of
                  (Inl e, d1) \<Rightarrow> (Inl (Store_Failed e), m, d1)
                | (Inr n, d1) \<Rightarrow> (Inr (JObj [(''purged'', JInt (int n))]), m, d1))
           | Create_Tenant tenant output \<Rightarrow>
               if \<not> tenant_name_ok tenant
               then (Inl (Usage ''Tenant ID must be 3..64 lowercase letters, digits, underscores or hyphens''), m, d)
               else cli_create_tenant R render disk ops token now tenant output (m, d)
           | Delete_Tenant tenant confirm \<Rightarrow>
               if \<not> tenant_name_ok tenant
               then (Inl (Usage ''Tenant ID must be 3..64 lowercase letters, digits, underscores or hyphens''), m, d)
               else cli_delete_tenant ops tenant confirm (m, d)))"

text \<open>The operations that \<open>make_store\<close> selects.\<close>

definition sqlite_ops :: "'s \<Rightarrow> ('s state_row list \<Rightarrow> 's state_row list) \<Rightarrow> 's db store_ops" where
  "sqlite_ops blank plan =
     \<lparr>so_create = create_tenant blank, so_delete = (\<lambda>t. delete_tenant t None), so_purge = purge_expired plan\<rparr>"

definition firestore_ops :: "'s \<Rightarrow> 's docs store_ops" where
  "firestore_ops blank =
     \<lparr>so_create = fs_create_tenant None blank, so_delete = (\<lambda>t. fs_delete_tenant None t None),
      so_purge = (\<lambda>now d. (Inl StorageError, d))\<rparr>"

subsection \<open>Provisioning on any store\<close>

text \<open>What the commands rely on: a failed creation changes nothing, and deleting a tenant just created undoes its creation.\<close>

locale tenant_admin =
  fixes ok :: "'d \<Rightarrow> bool"
    and ops :: "'d store_ops"
  assumes create_fails: "so_create ops t h now d = (Inl e, d') \<Longrightarrow> d' = d"
    and delete_undoes: "ok d \<Longrightarrow> so_create ops t h now d = (Inr u, d') \<Longrightarrow> \<exists>b. so_delete ops t d' = (Inr b, d)"
begin

lemma create_all_or_nothing:
  assumes "ok d" "cli_create_tenant R render disk ops token now tenant output (m, d) = (r, m', d')"
  shows "case r of
      Inl e \<Rightarrow> d' = d
    | Inr printed \<Rightarrow>
        (\<exists>u. so_create ops tenant (digest_key R (new_key token)) (Aware now) d = (Inr u, d')) \<and>
        mc_files m output = None \<and>
        mc_files m' output = Some (render (credentials_json tenant (new_key token)) @ [CHR 0x0A])"
proof (cases "file_exists output m")
  case True
  with assms(2) show ?thesis by (auto simp: cli_create_tenant_def)
next
  case False
  let ?h = "digest_key R (new_key token)" and ?data = "credentials_json tenant (new_key token)"
  obtain c d1 where c: "so_create ops tenant ?h (Aware now) d = (c, d1)" by fastforce
  obtain w m1 where w: "write_private render disk output ?data m = (w, m1)" by fastforce
  show ?thesis
  proof (cases c)
    case (Inl e)
    then have "d1 = d" using c create_fails by simp
    with assms(2) False c Inl show ?thesis by (auto simp: cli_create_tenant_def Let_def)
  next
    case (Inr u)
    from delete_undoes [OF assms(1)] c Inr obtain b where b: "so_delete ops tenant d1 = (Inr b, d)" by blast
    show ?thesis
    proof (cases w)
      case (Inl e)
      with assms(2) False c Inr w b show ?thesis by (auto simp: cli_create_tenant_def Let_def)
    next
      case (Inr u')
      with w have "mc_files m output = None" "mc_files m1 output = Some (render ?data @ [CHR 0x0A])"
        by (auto simp: write_private_def create_file_def Let_def split: disk_outcome.splits if_splits)
      moreover have "r = Inr (JStr ''Tenant created; credential written to private output file.'')" "m' = m1" "d' = d1"
        using assms(2) False c \<open>c = Inr u\<close> w Inr by (auto simp: cli_create_tenant_def Let_def)
      ultimately show ?thesis using c \<open>c = Inr u\<close> by simp
    qed
  qed
qed

end

lemma sqlite_delete_undoes:
  fixes db db1 :: "'s db"
  assumes ok: "db_ok db" and c: "create_tenant blank t h now db = ((Inr u :: 'e store_error + unit), db1)"
  shows "\<exists>b. delete_tenant t None db1 = (Inr b :: 'e store_error + bool, db)"
  using c
proof (rule create_tenant_elim)
  fix us
  assume t: "tenant_id_ok t" "\<not> has_tenant db t"
    and db1: "db1 = \<lparr>db_tenants = db_tenants db @ [tenant_at t us], db_keys = db_keys db @ [key_at t h SCOPES us],
           db_states = db_states db @ [state_at t blank us]\<rparr>"
  have "\<forall>r \<in> set (db_tenants db). tr_tenant_id r \<noteq> t" "\<forall>k \<in> set (db_keys db). kr_tenant k \<noteq> t"
    "\<forall>w \<in> set (db_states db). sw_tenant w \<noteq> t" using t(2) ok by (auto simp: has_tenant_def db_ok_def)
  then have "remove_tenant t db1 = db" by (simp add: remove_tenant_def db1)
  then show ?thesis using t(1) by (simp add: delete_tenant_def transaction_def require_key_def check_tenant_id_def)
qed

lemma firestore_delete_undoes:
  fixes d d1 :: "'s docs"
  assumes ok: "docs_ok d" and c: "fs_create_tenant None blank t h now d = ((Inr u :: 'e store_error + unit), d1)"
  shows "\<exists>b. fs_delete_tenant None t None d1 = (Inr b :: 'e store_error + bool, d)"
proof -
  have d1: "docs_ok d1" by (rule create_docs_ok [OF ok c])
  from c obtain us where t: "tenant_id_ok t" "dc_tenants d t = None" "dc_keys d h = None"
    and e: "d1 = \<lparr>dc_tenants = (dc_tenants d)(t \<mapsto> \<lparr>td_schema_version = SCHEMA_VERSION, td_created_at = us, td_key_hashes = Some [h]\<rparr>),
             dc_keys = (dc_keys d)(h \<mapsto> key_record t h SCOPES us),
             dc_states = (dc_states d)(t \<mapsto> \<lparr>sd_schema_version = SCHEMA_VERSION, sd_state = blank, sd_updated_at = us,
               sd_expires_at = us + RETENTION_US\<rparr>)\<rparr>"
    unfolding fs_create_iff by blast
  have "dc_states d t = None" using docs_okD(3) [OF ok, of t] t(2) by (cases "dc_states d t") auto
  moreover have "(\<lambda>g. if g = h then None else if g = h then Some (key_record t h SCOPES us) else dc_keys d g) = dc_keys d"
    using t(3) by auto
  ultimately have "fs_delete_tenant None t None d1 = (Inr True, d)"
    unfolding fs_delete_iff entitled_ok [OF d1] using t
    by (auto simp: e hashes_of_def fun_upd_def intro!: docs.equality)
  then show ?thesis by blast
qed

interpretation sqlite_admin: tenant_admin db_ok "sqlite_ops blank plan" for blank :: 's and plan
proof unfold_locales
  fix t h now d e d'
  assume "so_create (sqlite_ops blank plan) t h now d = (Inl e, d')"
  then show "d' = d" by (simp add: sqlite_ops_def create_tenant_def)
next
  fix d t h now u d'
  assume "db_ok d" "so_create (sqlite_ops blank plan) t h now d = (Inr u, d')"
  then show "\<exists>b. so_delete (sqlite_ops blank plan) t d' = (Inr b, d)"
    by (simp add: sqlite_ops_def sqlite_delete_undoes)
qed

interpretation firestore_admin: tenant_admin docs_ok "firestore_ops blank" for blank :: 's
proof unfold_locales
  fix t h now d e d'
  assume "so_create (firestore_ops blank) t h now d = (Inl e, d')"
  then show "d' = d" by (simp add: firestore_ops_def fs_create_tenant_def)
next
  fix d t h now u d'
  assume "docs_ok d" "so_create (firestore_ops blank) t h now d = (Inr u, d')"
  then show "\<exists>b. so_delete (firestore_ops blank) t d' = (Inr b, d)"
    by (simp add: firestore_ops_def firestore_delete_undoes)
qed

end
