(* ===== verification/Attest_Cli.thy ===== *)
theory Attest_Cli
  imports Publish_Facts Projection
begin

text \<open>
  The commands of \<open>attest_cli.py\<close> around the publication: key generation, the report of a summary file, preparation of a
  bundle, verification and the status of a pending submission, over the files of a machine.  The parsing of the arguments is
  left out.
\<close>

subsection \<open>Bundles in files\<close>

definition BUNDLE_FIELDS :: "string list" where
  "BUNDLE_FIELDS = [''schema_version'', ''network'', ''genesis_hash'', ''expected_signer'', ''salt_hex'', ''report'']"

text \<open>\<open>CommitmentBundle.model_validate\<close>.\<close>

definition bundle_of_json :: "runtime \<Rightarrow> json \<Rightarrow> commitment_bundle option" where
  "bundle_of_json R v =
     (case v of
        JObj ms \<Rightarrow>
          if \<not> list_all (\<lambda>k. k \<in> set BUNDLE_FIELDS) (keys ms) then None
          else do {
            field_default ms ''schema_version'' ''reliamesh-devnet-commitment/v1''
              (str_where (\<lambda>s. s = ''reliamesh-devnet-commitment/v1''));
            field_default ms ''network'' ''solana-devnet'' (str_where (\<lambda>s. s = ''solana-devnet''));
            field_default ms ''genesis_hash'' DEVNET_GENESIS (str_where (\<lambda>s. s = DEVNET_GENESIS));
            signer \<leftarrow> field ms ''expected_signer'' (str_where signer_ok);
            salt \<leftarrow> field ms ''salt_hex'' (str_where hex64);
            report \<leftarrow> field ms ''report'' (report_of_json R);
            Some \<lparr>bn_expected_signer = signer, bn_salt_hex = salt, bn_report = report\<rparr>
          }
      | _ \<Rightarrow> None)"

text \<open>\<open>read_document(path)\<close>: a missing file, an oversized or malformed document raise.\<close>

definition load_file :: "rpc_env \<Rightarrow> nat \<Rightarrow> machine \<Rightarrow> path \<Rightarrow> string + json" where
  "load_file X max_bytes m p =
     (case mc_files m p of
        None \<Rightarrow> Inl ''OSError''
      | Some content \<Rightarrow>
          (case read_document (rx_loads X) max_bytes content of None \<Rightarrow> Inl ''ValueError'' | Some v \<Rightarrow> Inr v))"

definition load_bundle :: "rpc_env \<Rightarrow> machine \<Rightarrow> path \<Rightarrow> string + commitment_bundle" where
  "load_bundle X m p = rbind (load_file X MAX_DOCUMENT_BYTES m p) (\<lambda>v.
     case bundle_of_json (rx_runtime X) v of None \<Rightarrow> Inl ''ValueError'' | Some b \<Rightarrow> Inr b)"

subsection \<open>Commands\<close>

datatype attest_arguments =
    Keygen path
  | Report path bool path
  | Prepare path string path
  | Publish_Bundle path path path
  | Verify_Bundle path string string
  | Submission_Status path

definition submission_json :: "submission \<Rightarrow> json" where
  "submission_json b = JObj
     [(''signature'', JStr (sb_signature b)), (''confirmation_status'', JStr (sb_confirmation_status b)),
      (''transaction_error'', (case sb_transaction_error b of None \<Rightarrow> JNull | Some e \<Rightarrow> JBool e)),
      (''current_block_height'', JInt (sb_current_block_height b)),
      (''last_valid_block_height'', JInt (sb_last_valid_block_height b)),
      (''blockhash_expired'', JBool (sb_blockhash_expired b)),
      (''automatic_retry_allowed'', JBool (sb_automatic_retry_allowed b))]"

text \<open>\<open>pending["signature"]\<close> and \<open>pending["last_valid_block_height"]\<close>; the value of the former may be no string.\<close>

definition pending_status :: "rpc_env \<Rightarrow> machine wire_step \<Rightarrow> json \<Rightarrow> machine \<Rightarrow> (string + submission) \<times> machine" where
  "pending_status X net v =
     (case v of
        JObj ms \<Rightarrow>
          (case (map_of ms ''signature'', map_of ms ''last_valid_block_height'') of
             (Some (JStr signature), Some height) \<Rightarrow> submission_status X net signature height
           | (Some _, Some height) \<Rightarrow> sfail ''invalid_base58''
           | _ \<Rightarrow> sfail ''KeyError'')
      | _ \<Rightarrow> sfail ''TypeError'')"

text \<open>
  The bodies of the commands: what is printed, or the exception.  \<open>secret\<close> and \<open>salt\<close> are the random values of a key and a
  bundle, \<open>now\<close> the clock.
\<close>

definition SUMMARY_BYTES :: nat where "SUMMARY_BYTES = 900000"
definition SERVER_VERSION :: string where "SERVER_VERSION = ''0.2.0''"

definition attest_command ::
    "rpc_env \<Rightarrow> (json \<Rightarrow> string) \<Rightarrow> disk \<Rightarrow> machine wire_step \<Rightarrow> (nat \<Rightarrow> real) \<Rightarrow> nat \<Rightarrow> string \<Rightarrow> string \<Rightarrow> int \<Rightarrow> attest_arguments \<Rightarrow>
     machine \<Rightarrow> (publish_error + json) \<times> machine" where
  "attest_command X render disk net clock fuel secret salt now command m =
     (case command of
        Keygen output \<Rightarrow>
          (let keypair = generate_keypair (rx_crypto X) secret in
           raising (sbind (write_private render disk output keypair) (\<lambda>_.
             sreturn (JObj [(''public_key'', JStr (encode58 (public_of (rx_crypto X) secret))), (''network'', JStr ''solana-devnet'')]))) m)
      | Report summary synthetic output \<Rightarrow>
          raising (sbind (slift (load_file X SUMMARY_BYTES m summary)) (\<lambda>v.
            case project_json (rx_runtime X) v synthetic SERVER_VERSION (Aware now) of
              None \<Rightarrow> sfail ''ValueError''
            | Some r \<Rightarrow> sbind (write_private render disk output (report_json r)) (\<lambda>_.
                sreturn (JStr ''Content-minimized report written; no publication performed.'')))) m
      | Prepare report signer output \<Rightarrow>
          raising (sbind (slift (load_file X MAX_DOCUMENT_BYTES m report)) (\<lambda>v.
            case prepare (rx_runtime X) salt v signer of
              None \<Rightarrow> sfail ''ValueError''
            | Some b \<Rightarrow> sbind (write_private render disk output (bundle_json b)) (\<lambda>_.
                sreturn (JObj [(''commitment_sha256'', JStr (commitment (rx_runtime X) b))])))) m
      | Publish_Bundle bundle_file keypair_file output \<Rightarrow>
          (case load_bundle X m bundle_file of
             Inl e \<Rightarrow> (Inl (Raised e), m)
           | Inr b \<Rightarrow>
               (case load_file X MAX_DOCUMENT_BYTES m keypair_file of
                  Inl e \<Rightarrow> (Inl (Raised e), m)
                | Inr keypair \<Rightarrow> publish X render disk net clock 45 fuel b keypair output m))
      | Verify_Bundle bundle_file signature signer \<Rightarrow>
          raising (sbind (slift (load_bundle X m bundle_file)) (\<lambda>b.
            if signer \<noteq> bn_expected_signer b then sfail ''trusted signer differs from bundle''
            else sbind (verify_finalized X net (commitment (rx_runtime X) b) signature signer) (\<lambda>v.
              sreturn (receipt_json v)))) m
      | Submission_Status pending \<Rightarrow>
          raising (sbind (slift (load_file X MAX_DOCUMENT_BYTES m pending)) (\<lambda>v.
            sbind (pending_status X net v) (\<lambda>b. sreturn (submission_json b)))) m)"

text \<open>\<open>main\<close>: every exception of a command gives the exit code 1 and one fixed message.\<close>

definition attest_main ::
    "rpc_env \<Rightarrow> (json \<Rightarrow> string) \<Rightarrow> disk \<Rightarrow> machine wire_step \<Rightarrow> (nat \<Rightarrow> real) \<Rightarrow> nat \<Rightarrow> string \<Rightarrow> string \<Rightarrow> int \<Rightarrow> attest_arguments \<Rightarrow>
     machine \<Rightarrow> (int \<times> json option) option \<times> machine" where
  "attest_main X render disk net clock fuel secret salt now command m =
     (let (r, m') = attest_command X render disk net clock fuel secret salt now command m
      in (case r of Inl Out_of_fuel \<Rightarrow> None | Inl (Raised e) \<Rightarrow> Some (1, None) | Inr printed \<Rightarrow> Some (0, Some printed), m'))"

subsection \<open>Facts\<close>

lemma report_of_json_checked:
  assumes "report_of_json R v = Some r"
  shows "check_report R r = Some r"
proof -
  from assms obtain r' where "check_report R r' = Some r"
    by (auto simp: report_of_json_def bind_eq_Some_conv split: json.splits if_splits)
  then show ?thesis by (auto simp: check_report_def split: if_splits)
qed

lemma bundle_roundtrip:
  assumes "prepare R salt v signer = Some b"
  shows "bundle_of_json R (bundle_json b) = Some b"
proof -
  obtain r where r: "report_of_json R v = Some r" and ok: "signer_ok signer" "hex64 salt"
    and b: "b = \<lparr>bn_expected_signer = signer, bn_salt_hex = salt, bn_report = r\<rparr>"
    using assms by (auto simp: prepare_def split: option.splits if_splits)
  have "report_of_json R (report_json r) = Some r" by (rule report_roundtrip [OF report_of_json_checked [OF r]])
  with ok show ?thesis
    by (simp add: b bundle_json_def bundle_of_json_def BUNDLE_FIELDS_def field_default_def field_def str_where_def)
qed

end
