(* ===== verification/Licenses.thy ===== *)
theory Licenses
  imports Attestation
begin

text \<open>
  The licence inventory of \<open>scripts/check_licenses.py\<close>: the closure of the installed runtime dependencies, the
  licence evidence of a distribution, and the policy on licence expressions.  The package \<open>packaging\<close>
  (requirements, markers, names, SPDX expressions), the installed distributions and SHA-256 are arguments.
\<close>

subsection \<open>Requirements and distributions\<close>

record requirement =
  rq_name :: string
  rq_url :: "string option"
  rq_extras :: "string list"
  rq_specifier :: string
  rq_marker :: "string option"

record distribution =
  di_version :: string
  di_requires :: "string list" \<comment> \<open>\<open>requires or []\<close>\<close>
  di_license_expression :: "string option"
  di_license :: "string option"
  di_classifiers :: "string list"
  di_files :: "(string \<times> string) list" \<comment> \<open>the path and the bytes of every file, \<open>files or []\<close>\<close>

text \<open>\<open>marker_holds\<close> evaluates a marker in the default environment with the given extra.\<close>

record packaging =
  parse_requirement :: "string \<Rightarrow> requirement option"
  canonicalize_name :: "string \<Rightarrow> string"
  specifier_contains :: "string \<Rightarrow> string \<Rightarrow> bool"
  marker_holds :: "string \<Rightarrow> string \<Rightarrow> bool"
  canonical_license :: "string \<Rightarrow> string option"
  sha256_bytes :: "string \<Rightarrow> string"

datatype policy_error =
    Direct_URL
  | Not_Installed string
  | Unsatisfied requirement
  | Review_Failed string
  | No_Evidence string
  | Invalid_Expression string
  | Exception_Found string
  | Unapproved string "string set"

text \<open>\<open>InvalidRequirement\<close> is not a \<open>PolicyError\<close>; nothing catches it.\<close>

datatype script_error = Policy policy_error | Invalid_Requirement

definition read_requirement :: "packaging \<Rightarrow> string \<Rightarrow> script_error + requirement" where
  "read_requirement P value = (case parse_requirement P value of None \<Rightarrow> Inl Invalid_Requirement | Some r \<Rightarrow> Inr r)"

fun read_requirements :: "packaging \<Rightarrow> string list \<Rightarrow> script_error + requirement list" where
  "read_requirements P [] = Inr []"
| "read_requirements P (v # vs) =
     rbind (read_requirement P v) (\<lambda>r. rbind (read_requirements P vs) (\<lambda>rs. Inr (r # rs)))"

subsection \<open>The closure of the runtime dependencies\<close>

text \<open>The state of the loop: the queue, the extras a name was visited with, and the distributions found.\<close>

record closure_state =
  cs_pending :: "requirement list"
  cs_visited :: "string \<Rightarrow> string set option"
  cs_distributions :: "(string, distribution) dict"

definition visited_extras :: "closure_state \<Rightarrow> string \<Rightarrow> string set" where
  "visited_extras s name = (case cs_visited s name of None \<Rightarrow> {} | Some extras \<Rightarrow> extras)"

definition applies :: "packaging \<Rightarrow> string set \<Rightarrow> requirement \<Rightarrow> bool" where
  "applies P extras dependency =
     (case rq_marker dependency of None \<Rightarrow> True | Some marker \<Rightarrow> \<exists>extra \<in> insert [] extras. marker_holds P marker extra)"

text \<open>One iteration, on the requirement \<open>r\<close> taken from the left of the queue.\<close>

definition resolve_step ::
    "packaging \<Rightarrow> (string \<Rightarrow> distribution option) \<Rightarrow> requirement \<Rightarrow> closure_state \<Rightarrow> script_error + closure_state" where
  "resolve_step P lookup r s =
     (if rq_url r \<noteq> None \<and> rq_url r \<noteq> Some [] then Inl (Policy Direct_URL)
      else
        let name = canonicalize_name P (rq_name r) in
        case lookup (rq_name r) of
          None \<Rightarrow> Inl (Policy (Not_Installed name))
        | Some distribution \<Rightarrow>
            if \<not> specifier_contains P (rq_specifier r) (di_version distribution) then Inl (Policy (Unsatisfied r))
            else if cs_visited s name \<noteq> None \<and> set (rq_extras r) \<subseteq> visited_extras s name then Inr s
            else
              let extras = set (rq_extras r) \<union> visited_extras s name in
              rbind (read_requirements P (di_requires distribution)) (\<lambda>dependencies.
                Inr (s\<lparr>cs_visited := (cs_visited s)(name \<mapsto> extras),
                       cs_distributions := AList.update name distribution (cs_distributions s),
                       cs_pending := cs_pending s @ filter (applies P extras) dependencies\<rparr>)))"

text \<open>The loop has no bound of its own: \<open>None\<close> stands for a run that does not end.\<close>

partial_function (option) resolve ::
    "packaging \<Rightarrow> (string \<Rightarrow> distribution option) \<Rightarrow> closure_state \<Rightarrow> (script_error + (string, distribution) dict) option" where
  "resolve P lookup s =
     (case cs_pending s of
        [] \<Rightarrow> Some (Inr (cs_distributions s))
      | r # rest \<Rightarrow>
          (case resolve_step P lookup r (s\<lparr>cs_pending := rest\<rparr>) of
             Inl e \<Rightarrow> Some (Inl e)
           | Inr s' \<Rightarrow> resolve P lookup s'))"

definition runtime_distributions ::
    "packaging \<Rightarrow> (string \<Rightarrow> distribution option) \<Rightarrow> string list \<Rightarrow> (script_error + (string, distribution) dict) option" where
  "runtime_distributions P lookup roots =
     (case read_requirements P roots of
        Inl e \<Rightarrow> Some (Inl e)
      | Inr pending \<Rightarrow> resolve P lookup \<lparr>cs_pending = pending, cs_visited = Map.empty, cs_distributions = []\<rparr>)"

subsection \<open>Licence evidence\<close>

definition ALLOWED :: "string list" where
  "ALLOWED =
     [''Apache-2.0'', ''MIT'', ''MIT-0'', ''BSD-2-Clause'', ''BSD-3-Clause'', ''ISC'', ''PSF-2.0'', ''0BSD'', ''Unlicense'']"

definition ALIASES :: "(string, string) dict" where
  "ALIASES =
     [(''Apache 2.0'', ''Apache-2.0''), (''Apache License, Version 2.0'', ''Apache-2.0''),
      (''Apache Software License'', ''Apache-2.0''), (''MIT License'', ''MIT''),
      (''3-Clause BSD License'', ''BSD-3-Clause''), (''2-Clause BSD License'', ''BSD-2-Clause'')]"

definition CLASSIFIERS :: "(string, string) dict" where
  "CLASSIFIERS =
     [(''License :: OSI Approved :: Apache Software License'', ''Apache-2.0''),
      (''License :: OSI Approved :: MIT License'', ''MIT''),
      (''License :: OSI Approved :: ISC License (ISCL)'', ''ISC''),
      (''License :: OSI Approved :: Python Software Foundation License'', ''PSF-2.0'')]"

definition FILE_REVIEWS :: "(string \<times> string, string \<times> string \<times> string) dict" where
  "FILE_REVIEWS =
     [((''pyasn1-modules'', ''0.4.2''),
       (''BSD-2-Clause'', ''LICENSE.txt'', ''2aad5fc00f705c4a1addb83eed10a6a75d286a3779f0cf8519d87e62bc4735fd''))]"

definition PACKAGE_ALLOWANCES :: "(string \<times> string, string list) dict" where
  "PACKAGE_ALLOWANCES = [((''certifi'', ''2026.7.22''), [''MPL-2.0''])]"

definition file_name :: "string \<Rightarrow> string" where
  "file_name path = last (split_on (CHR ''/'') path)"

definition starts_with :: "string \<Rightarrow> string \<Rightarrow> bool" where
  "starts_with prefix s \<longleftrightarrow> take (length prefix) s = prefix"

definition license_expression :: "packaging \<Rightarrow> string \<Rightarrow> distribution \<Rightarrow> policy_error + string \<times> string" where
  "license_expression P name d =
     (case di_license_expression d of
        Some (c # cs) \<Rightarrow> Inr (c # cs, ''License-Expression'')
      | _ \<Rightarrow>
          (case map_of FILE_REVIEWS (name, di_version d) of
             Some (expression, filename, expected) \<Rightarrow>
               if list_ex (\<lambda>(path, bytes). file_name path = filename \<and> sha256_bytes P bytes = expected) (di_files d)
               then Inr (expression, ''reviewed license-file SHA-256'') else Inl (Review_Failed name)
           | None \<Rightarrow>
               let legacy = strip (case di_license d of None \<Rightarrow> [] | Some s \<Rightarrow> s) in
               if legacy \<noteq> [] \<and> legacy \<noteq> ''UNKNOWN'' then
                 Inr (case map_of ALIASES legacy of None \<Rightarrow> legacy | Some e \<Rightarrow> e, ''License'')
               else
                 let classifiers = filter (starts_with ''License ::'') (di_classifiers d);
                     specific = filter (\<lambda>v. v \<noteq> ''License :: OSI Approved'') classifiers in
                 case specific of
                   [v] \<Rightarrow> (case map_of CLASSIFIERS v of
                             None \<Rightarrow> Inl (No_Evidence name) | Some e \<Rightarrow> Inr (e, ''unambiguous license classifier''))
                 | _ \<Rightarrow> Inl (No_Evidence name)))"

subsection \<open>The policy\<close>

text \<open>\<open>re.findall(r"[^\s()]+", s)\<close>: the maximal runs of characters that are no white space and no parenthesis.\<close>

definition separator :: "char \<Rightarrow> bool" where
  "separator c \<longleftrightarrow> is_space c \<or> c = CHR ''('' \<or> c = CHR '')''"

fun words_from :: "string \<Rightarrow> string \<Rightarrow> string list" where
  "words_from w [] = (if w = [] then [] else [w])"
| "words_from w (c # cs) =
     (if separator c then (if w = [] then words_from [] cs else w # words_from [] cs) else words_from (w @ [c]) cs)"

definition expression_tokens :: "string \<Rightarrow> string list" where
  "expression_tokens s = words_from [] s"

definition allowed_identifiers :: "string \<Rightarrow> string \<Rightarrow> string set" where
  "allowed_identifiers name version =
     set ALLOWED \<union> set (case map_of PACKAGE_ALLOWANCES (name, version) of None \<Rightarrow> [] | Some ids \<Rightarrow> ids)"

definition approved_expression :: "packaging \<Rightarrow> string \<Rightarrow> string \<Rightarrow> string \<Rightarrow> policy_error + string" where
  "approved_expression P expression name version =
     (case canonical_license P expression of
        None \<Rightarrow> Inl (Invalid_Expression name)
      | Some normalized \<Rightarrow>
          let tokens = expression_tokens normalized in
          if ''WITH'' \<in> set tokens then Inl (Exception_Found name)
          else
            let identifiers = set tokens - {''AND'', ''OR''}; allowed = allowed_identifiers name version in
            if identifiers = {} \<or> \<not> identifiers \<subseteq> allowed then Inl (Unapproved name (identifiers - allowed))
            else Inr normalized)"

subsection \<open>The inventory\<close>

record license_record =
  lr_name :: string
  lr_version :: string
  lr_expression :: string
  lr_evidence :: string

record inventory_report =
  ir_roots :: "string list"
  ir_packages :: "license_record list"
  ir_errors :: "policy_error list"

definition check_package :: "packaging \<Rightarrow> string \<Rightarrow> distribution \<Rightarrow> policy_error + license_record" where
  "check_package P name d =
     rbind (license_expression P name d) (\<lambda>(expression, source).
     rbind (approved_expression P expression name (di_version d)) (\<lambda>normalized.
       Inr \<lparr>lr_name = name, lr_version = di_version d, lr_expression = normalized, lr_evidence = source\<rparr>))"

definition passed_records :: "('e + 'a) list \<Rightarrow> 'a list" where
  "passed_records rs = List.map_filter (\<lambda>r. case r of Inl e \<Rightarrow> None | Inr x \<Rightarrow> Some x) rs"

definition policy_failures :: "('e + 'a) list \<Rightarrow> 'e list" where
  "policy_failures rs = List.map_filter (\<lambda>r. case r of Inl e \<Rightarrow> Some e | Inr x \<Rightarrow> None) rs"

text \<open>\<open>sorted\<close> compares names first; names are distinct.\<close>

definition inventory ::
    "packaging \<Rightarrow> (string \<Rightarrow> distribution option) \<Rightarrow> string list \<Rightarrow> (script_error + inventory_report) option" where
  "inventory P lookup roots =
     (case runtime_distributions P lookup roots of
        None \<Rightarrow> None
      | Some (Inl e) \<Rightarrow> Some (Inl e)
      | Some (Inr distributions) \<Rightarrow>
          let checked = map (\<lambda>(name, d). check_package P name d) (sort_key fst distributions)
          in Some (Inr \<lparr>ir_roots = roots, ir_packages = passed_records checked, ir_errors = policy_failures checked\<rparr>))"

definition DEFAULT_ROOTS :: "string list" where
  "DEFAULT_ROOTS = [''reliamesh-server[gcp,attest]'', ''reliamesh-sdk'']"

text \<open>\<open>main\<close>: the report and the exit code; \<open>Inl\<close> is an exception that ends the script.\<close>

definition check_licenses ::
    "packaging \<Rightarrow> (string \<Rightarrow> distribution option) \<Rightarrow> string list \<Rightarrow> (script_error + inventory_report \<times> int) option" where
  "check_licenses P lookup given =
     (let roots = if given = [] then DEFAULT_ROOTS else given;
          finish = (\<lambda>report. Some (Inr (report, if ir_errors report = [] then 0 else 1)))
      in case inventory P lookup roots of
           None \<Rightarrow> None
         | Some (Inl (Policy e)) \<Rightarrow> finish \<lparr>ir_roots = roots, ir_packages = [], ir_errors = [e]\<rparr>
         | Some (Inl Invalid_Requirement) \<Rightarrow> Some (Inl Invalid_Requirement)
         | Some (Inr report) \<Rightarrow> finish report)"

end
