(* ===== verification/Licenses_Facts.thy ===== *)
theory Licenses_Facts
  imports Licenses
begin

text \<open>
  The inventory is complete and fails closed: the loop ends, what it finds are exactly the distributions that the roots
  need, and the exit code 0 is given only when every one of them has an approved licence.
\<close>

subsection \<open>What the roots need\<close>

text \<open>A name is needed with an extra; the empty extra stands for the distribution itself.\<close>

definition wants :: "packaging \<Rightarrow> string \<Rightarrow> requirement \<Rightarrow> bool" where
  "wants P e dependency \<longleftrightarrow>
     (case rq_marker dependency of None \<Rightarrow> True | Some marker \<Rightarrow> marker_holds P marker [] \<or> marker_holds P marker e)"

inductive needed :: "packaging \<Rightarrow> (string \<Rightarrow> distribution option) \<Rightarrow> string list \<Rightarrow> string \<Rightarrow> string \<Rightarrow> bool"
  for P lookup roots where
  root: "v \<in> set roots \<Longrightarrow> parse_requirement P v = Some r \<Longrightarrow> e \<in> insert [] (set (rq_extras r)) \<Longrightarrow>
    needed P lookup roots (canonicalize_name P (rq_name r)) e"
| dependency: "needed P lookup roots (canonicalize_name P raw) e \<Longrightarrow> lookup raw = Some d \<Longrightarrow> v \<in> set (di_requires d) \<Longrightarrow>
    parse_requirement P v = Some r \<Longrightarrow> wants P e r \<Longrightarrow> e' \<in> insert [] (set (rq_extras r)) \<Longrightarrow>
    needed P lookup roots (canonicalize_name P (rq_name r)) e'"

text \<open>\<open>importlib.metadata\<close> finds a distribution under every spelling of its name.\<close>

definition lookup_by_name :: "packaging \<Rightarrow> (string \<Rightarrow> distribution option) \<Rightarrow> bool" where
  "lookup_by_name P lookup \<longleftrightarrow>
     (\<forall>a b. canonicalize_name P a = canonicalize_name P b \<longrightarrow> lookup a = lookup b)"

lemma applies_iff: "applies P extras r \<longleftrightarrow> (\<exists>e \<in> insert [] extras. wants P e r)"
  by (auto simp: applies_def wants_def split: option.splits)

lemma read_requirements_Inr:
  "read_requirements P vs = Inr rs \<Longrightarrow> list_all2 (\<lambda>v r. parse_requirement P v = Some r) vs rs"
  by (induction vs arbitrary: rs) (auto simp: rbind_Inr_iff read_requirement_def split: option.splits)

lemma read_requirements_set:
  assumes "read_requirements P vs = Inr rs"
  shows "r \<in> set rs \<longleftrightarrow> (\<exists>v \<in> set vs. parse_requirement P v = Some r)"
    "v \<in> set vs \<Longrightarrow> \<exists>r. parse_requirement P v = Some r"
  using read_requirements_Inr [OF assms] by (induction vs rs rule: list_all2_induct) auto

subsection \<open>The invariant of the loop\<close>

definition met :: "packaging \<Rightarrow> (string \<Rightarrow> distribution option) \<Rightarrow> closure_state \<Rightarrow> requirement \<Rightarrow> bool" where
  "met P lookup s r \<longleftrightarrow>
     (\<exists>d. lookup (rq_name r) = Some d \<and> specifier_contains P (rq_specifier r) (di_version d)) \<and>
     cs_visited s (canonicalize_name P (rq_name r)) \<noteq> None \<and>
     set (rq_extras r) \<subseteq> visited_extras s (canonicalize_name P (rq_name r))"

definition served :: "packaging \<Rightarrow> (string \<Rightarrow> distribution option) \<Rightarrow> closure_state \<Rightarrow> requirement \<Rightarrow> bool" where
  "served P lookup s r \<longleftrightarrow> r \<in> set (cs_pending s) \<or> met P lookup s r"

definition expanded :: "packaging \<Rightarrow> (string \<Rightarrow> distribution option) \<Rightarrow> closure_state \<Rightarrow> bool" where
  "expanded P lookup s \<longleftrightarrow>
     (\<forall>n extras. cs_visited s n = Some extras \<longrightarrow>
        (\<exists>raw d. canonicalize_name P raw = n \<and> lookup raw = Some d \<and> map_of (cs_distributions s) n = Some d \<and>
           (\<forall>v \<in> set (di_requires d). \<forall>r. parse_requirement P v = Some r \<and> applies P extras r \<longrightarrow> served P lookup s r)))"

definition justified :: "packaging \<Rightarrow> (string \<Rightarrow> distribution option) \<Rightarrow> string list \<Rightarrow> closure_state \<Rightarrow> bool" where
  "justified P lookup roots s \<longleftrightarrow>
     (\<forall>r \<in> set (cs_pending s). \<forall>e \<in> insert [] (set (rq_extras r)). needed P lookup roots (canonicalize_name P (rq_name r)) e) \<and>
     (\<forall>n extras. cs_visited s n = Some extras \<longrightarrow> (\<forall>e \<in> insert [] extras. needed P lookup roots n e))"

definition loop_inv :: "packaging \<Rightarrow> (string \<Rightarrow> distribution option) \<Rightarrow> string list \<Rightarrow> closure_state \<Rightarrow> bool" where
  "loop_inv P lookup roots s \<longleftrightarrow>
     expanded P lookup s \<and> justified P lookup roots s \<and> dict_ok (cs_distributions s) \<and>
     set (keys (cs_distributions s)) = dom (cs_visited s) \<and>
     (\<forall>v \<in> set roots. \<exists>r. parse_requirement P v = Some r \<and> served P lookup s r)"

lemma loop_invD: "loop_inv P lookup roots s \<Longrightarrow> expanded P lookup s"
  by (simp add: loop_inv_def)

lemma step_elim:
  assumes "resolve_step P lookup r s = Inr s'"
  obtains (skip) d where "lookup (rq_name r) = Some d" "specifier_contains P (rq_specifier r) (di_version d)"
      "cs_visited s (canonicalize_name P (rq_name r)) \<noteq> None"
      "set (rq_extras r) \<subseteq> visited_extras s (canonicalize_name P (rq_name r))" "s' = s"
  | (visit) d extras deps where "lookup (rq_name r) = Some d" "specifier_contains P (rq_specifier r) (di_version d)"
      "\<not> (cs_visited s (canonicalize_name P (rq_name r)) \<noteq> None \<and>
          set (rq_extras r) \<subseteq> visited_extras s (canonicalize_name P (rq_name r)))"
      "extras = set (rq_extras r) \<union> visited_extras s (canonicalize_name P (rq_name r))"
      "read_requirements P (di_requires d) = Inr deps"
      "s' = s\<lparr>cs_visited := (cs_visited s)(canonicalize_name P (rq_name r) \<mapsto> extras),
              cs_distributions := AList.update (canonicalize_name P (rq_name r)) d (cs_distributions s),
              cs_pending := cs_pending s @ filter (applies P extras) deps\<rparr>"
  using assms by (auto simp: resolve_step_def Let_def rbind_Inr_iff split: if_splits option.splits)

lemma initial_inv:
  assumes "read_requirements P roots = Inr pending"
  shows "loop_inv P lookup roots \<lparr>cs_pending = pending, cs_visited = Map.empty, cs_distributions = []\<rparr>"
  using read_requirements_set [OF assms]
  by (fastforce simp: loop_inv_def expanded_def justified_def served_def intro: needed.root)

definition grows :: "closure_state \<Rightarrow> closure_state \<Rightarrow> bool" where
  "grows s s' \<longleftrightarrow> (\<forall>n. cs_visited s n \<noteq> None \<longrightarrow> cs_visited s' n \<noteq> None \<and> visited_extras s n \<subseteq> visited_extras s' n)"

lemma met_mono: "met P lookup s x \<Longrightarrow> grows s s' \<Longrightarrow> met P lookup s' x"
  unfolding met_def grows_def by blast

lemma served_mono:
  assumes "grows s s'" "cs_pending s = r # rest" "set rest \<subseteq> set (cs_pending s')" "met P lookup s' r" "served P lookup s x"
  shows "served P lookup s' x"
  using assms(2-5) met_mono [OF _ assms(1)] by (auto simp: served_def)

lemma expandedE:
  assumes "expanded P lookup s" "cs_visited s n = Some extras"
  obtains raw d where "canonicalize_name P raw = n" "lookup raw = Some d" "map_of (cs_distributions s) n = Some d"
    "\<And>v r. v \<in> set (di_requires d) \<Longrightarrow> parse_requirement P v = Some r \<Longrightarrow> applies P extras r \<Longrightarrow> served P lookup s r"
  using assms unfolding expanded_def by blast

lemma skip_inv:
  assumes inv: "loop_inv P lookup roots s" and p: "cs_pending s = r # rest"
    and met: "met P lookup (s\<lparr>cs_pending := rest\<rparr>) r"
  shows "loop_inv P lookup roots (s\<lparr>cs_pending := rest\<rparr>)"
proof -
  let ?s = "s\<lparr>cs_pending := rest\<rparr>"
  have ve: "visited_extras ?s = visited_extras s" by (simp add: fun_eq_iff visited_extras_def)
  have served: "served P lookup s x \<Longrightarrow> served P lookup ?s x" for x
    by (rule served_mono [OF _ p _ met]) (simp_all add: grows_def ve)
  have "expanded P lookup ?s"
    unfolding expanded_def
  proof (intro allI impI)
    fix n extras
    assume "cs_visited ?s n = Some extras"
    then have "cs_visited s n = Some extras" by simp
    with inv have "expanded P lookup s" "cs_visited s n = Some extras" by (simp_all add: loop_inv_def)
    then show "\<exists>raw d. canonicalize_name P raw = n \<and> lookup raw = Some d \<and> map_of (cs_distributions ?s) n = Some d \<and>
        (\<forall>v \<in> set (di_requires d). \<forall>r. parse_requirement P v = Some r \<and> applies P extras r \<longrightarrow> served P lookup ?s r)"
      by (rule expandedE) (use served in auto)
  qed
  moreover have "justified P lookup roots ?s" using inv p by (auto simp: loop_inv_def justified_def)
  ultimately show ?thesis using inv served by (auto simp: loop_inv_def)
qed

lemma visit_inv:
  assumes inv: "loop_inv P lookup roots s" and p: "cs_pending s = r # rest"
    and d: "lookup (rq_name r) = Some d" "specifier_contains P (rq_specifier r) (di_version d)"
    and deps: "read_requirements P (di_requires d) = Inr deps"
    and name: "name = canonicalize_name P (rq_name r)" and extras: "extras = set (rq_extras r) \<union> visited_extras s name"
    and s': "s' = s\<lparr>cs_visited := (cs_visited s)(name \<mapsto> extras), cs_distributions := AList.update name d (cs_distributions s),
              cs_pending := rest @ filter (applies P extras) deps\<rparr>"
  shows "loop_inv P lookup roots s'"
proof -
  have ve: "visited_extras s' n = (if n = name then extras else visited_extras s n)" for n
    by (simp add: visited_extras_def s')
  have grows: "grows s s'" unfolding grows_def ve by (auto simp: s' extras)
  have met: "met P lookup s' r" using d unfolding met_def name [symmetric] ve by (simp add: s' extras)
  have served: "served P lookup s x \<Longrightarrow> served P lookup s' x" for x
    by (rule served_mono [OF grows p _ met]) (simp_all add: s')
  have just: "needed P lookup roots name e" if "e \<in> insert [] extras" for e
  proof -
    have "needed P lookup roots name e" if "e \<in> insert [] (set (rq_extras r))" for e
      using inv p that unfolding loop_inv_def justified_def by (auto simp: name)
    moreover have "needed P lookup roots name e" if "e \<in> visited_extras s name" for e
      using inv that unfolding loop_inv_def justified_def visited_extras_def by (auto split: option.splits)
    ultimately show ?thesis using that by (auto simp: extras)
  qed
  have "expanded P lookup s'"
    unfolding expanded_def
  proof (intro allI impI)
    fix n x
    assume n: "cs_visited s' n = Some x"
    show "\<exists>raw d. canonicalize_name P raw = n \<and> lookup raw = Some d \<and> map_of (cs_distributions s') n = Some d \<and>
        (\<forall>v \<in> set (di_requires d). \<forall>r. parse_requirement P v = Some r \<and> applies P x r \<longrightarrow> served P lookup s' r)"
    proof (cases "n = name")
      case True
      then have x: "x = extras" using n by (simp add: s')
      have "served P lookup s' q" if "v \<in> set (di_requires d)" "parse_requirement P v = Some q" "applies P x q" for v q
        using read_requirements_set(1) [OF deps] that by (auto simp: served_def s' x)
      then show ?thesis using True d by (intro exI [of _ "rq_name r"] exI [of _ d]) (auto simp: name s')
    next
      case False
      then have "cs_visited s n = Some x" using n by (simp add: s')
      with inv have "expanded P lookup s" "cs_visited s n = Some x" by (simp_all add: loop_inv_def)
      then show ?thesis by (rule expandedE) (use False served in \<open>auto simp: s'\<close>)
    qed
  qed
  moreover have "justified P lookup roots s'"
    unfolding justified_def
  proof (intro conjI ballI allI impI)
    fix q e
    assume q: "q \<in> set (cs_pending s')" and e: "e \<in> insert [] (set (rq_extras q))"
    show "needed P lookup roots (canonicalize_name P (rq_name q)) e"
    proof (cases "q \<in> set rest")
      case True
      with inv p e show ?thesis unfolding loop_inv_def justified_def by auto
    next
      case False
      then have "q \<in> set deps" "applies P extras q" using q by (auto simp: s')
      then obtain v x where v: "v \<in> set (di_requires d)" "parse_requirement P v = Some q" "x \<in> insert [] extras" "wants P x q"
        using read_requirements_set(1) [OF deps] by (auto simp: applies_iff)
      show ?thesis by (rule needed.dependency [OF just [OF v(3), unfolded name] d(1) v(1,2,4) e])
    qed
  next
    fix n x e
    assume "cs_visited s' n = Some x" "e \<in> insert [] x"
    then show "needed P lookup roots n e"
      using inv just by (cases "n = name") (auto simp: s' loop_inv_def justified_def)
  qed
  ultimately show ?thesis using inv served by (auto simp: loop_inv_def s')
qed

lemma step_inv:
  assumes inv: "loop_inv P lookup roots s" and p: "cs_pending s = r # rest"
    and step: "resolve_step P lookup r (s\<lparr>cs_pending := rest\<rparr>) = Inr s'"
  shows "loop_inv P lookup roots s'"
  using step
proof (cases rule: step_elim)
  case (skip d)
  then have "met P lookup (s\<lparr>cs_pending := rest\<rparr>) r" by (simp add: met_def)
  with skip inv p show ?thesis using skip_inv by blast
next
  case (visit d extras deps)
  have "visited_extras (s\<lparr>cs_pending := rest\<rparr>) = visited_extras s" by (simp add: fun_eq_iff visited_extras_def)
  with visit show ?thesis by (intro visit_inv [OF inv p visit(1,2,5) refl]) simp_all
qed

definition resolved :: "string list \<Rightarrow> (packaging \<times> (string \<Rightarrow> distribution option)) \<times> closure_state \<Rightarrow>
    script_error + (string, distribution) dict \<Rightarrow> bool" where
  "resolved roots p y = (case p of ((P, lookup), s) \<Rightarrow>
     \<forall>ds. y = Inr ds \<longrightarrow> loop_inv P lookup roots s \<longrightarrow>
       (\<exists>s'. loop_inv P lookup roots s' \<and> cs_pending s' = [] \<and> cs_distributions s' = ds))"

lemma resolve_inv:
  assumes "resolve P lookup s = Some (Inr ds)" "loop_inv P lookup roots s"
  shows "\<exists>s'. loop_inv P lookup roots s' \<and> cs_pending s' = [] \<and> cs_distributions s' = ds"
proof -
  have "resolved roots ((P, lookup), s) (Inr ds)"
    using assms(1)
  proof (rule resolve.raw_induct [rotated])
    fix resolve' P lookup s y
    assume IH: "\<And>P lookup s y. resolve' P lookup s = Some y \<Longrightarrow> resolved roots ((P, lookup), s) y"
      and body: "(case cs_pending s of [] \<Rightarrow> Some (Inr (cs_distributions s))
        | r # rest \<Rightarrow> (case resolve_step P lookup r (s\<lparr>cs_pending := rest\<rparr>) of
            Inl e \<Rightarrow> Some (Inl e) | Inr s' \<Rightarrow> resolve' P lookup s')) = Some y"
    show "resolved roots ((P, lookup), s) y"
    proof (cases "cs_pending s")
      case Nil
      with body show ?thesis by (auto simp: resolved_def)
    next
      case (Cons r rest)
      show ?thesis
      proof (cases "resolve_step P lookup r (s\<lparr>cs_pending := rest\<rparr>)")
        case (Inl e)
        with body Cons show ?thesis by (auto simp: resolved_def)
      next
        case (Inr s')
        with body Cons have "resolve' P lookup s' = Some y" by simp
        from IH [OF this] step_inv [OF _ Cons Inr] show ?thesis by (auto simp: resolved_def)
      qed
    qed
  qed
  with assms(2) show ?thesis by (simp add: resolved_def)
qed

subsection \<open>Completeness\<close>

lemma final_met:
  "loop_inv P lookup roots s \<Longrightarrow> cs_pending s = [] \<Longrightarrow> served P lookup s r \<Longrightarrow> met P lookup s r"
  by (simp add: served_def)

lemma needed_visited:
  assumes inv: "loop_inv P lookup roots s" and fin: "cs_pending s = []" and names: "lookup_by_name P lookup"
    and n: "needed P lookup roots n e"
  shows "cs_visited s n \<noteq> None \<and> e \<in> insert [] (visited_extras s n)"
  using n
proof induction
  case (root v r e)
  then obtain r' where r': "parse_requirement P v = Some r'" "served P lookup s r'" using inv unfolding loop_inv_def by blast
  with root have "served P lookup s r" by simp
  from final_met [OF inv fin this] root(3) show ?case by (auto simp: met_def)
next
  case (dependency raw e d v r e')
  then obtain extras where x: "cs_visited s (canonicalize_name P raw) = Some extras" by auto
  with dependency have e: "e \<in> insert [] extras" by (simp add: visited_extras_def)
  obtain raw' d' where d': "canonicalize_name P raw' = canonicalize_name P raw" "lookup raw' = Some d'"
    "\<And>v r. v \<in> set (di_requires d') \<Longrightarrow> parse_requirement P v = Some r \<Longrightarrow> applies P extras r \<Longrightarrow> served P lookup s r"
    by (rule expandedE [OF loop_invD [OF inv] x]) (rule that)
  have "d' = d" using names d'(1,2) dependency(2) unfolding lookup_by_name_def by (metis option.inject)
  moreover have "applies P extras r" using e dependency(5) by (auto simp: applies_iff)
  ultimately have "served P lookup s r" using d'(3) dependency(3,4) by blast
  from final_met [OF inv fin this] dependency(6) show ?case by (auto simp: met_def)
qed

definition installed :: "packaging \<Rightarrow> (string \<Rightarrow> distribution option) \<Rightarrow> string \<Rightarrow> distribution \<Rightarrow> bool" where
  "installed P lookup n d \<longleftrightarrow> (\<exists>raw. canonicalize_name P raw = n \<and> lookup raw = Some d)"

lemma closure_exact:
  assumes "runtime_distributions P lookup roots = Some (Inr ds)" "lookup_by_name P lookup"
  shows "dict_ok ds \<and> (\<forall>n. n \<in> set (keys ds) \<longleftrightarrow> needed P lookup roots n []) \<and>
    (\<forall>n d. map_of ds n = Some d \<longrightarrow> installed P lookup n d)"
proof -
  obtain pending where p: "read_requirements P roots = Inr pending"
    and r: "resolve P lookup \<lparr>cs_pending = pending, cs_visited = Map.empty, cs_distributions = []\<rparr> = Some (Inr ds)"
    using assms(1) by (auto simp: runtime_distributions_def split: sum.splits)
  obtain s where inv: "loop_inv P lookup roots s" and s: "cs_pending s = []" "cs_distributions s = ds"
    using resolve_inv [OF r initial_inv [OF p]] by blast
  have dom: "n \<in> set (keys ds) \<longleftrightarrow> cs_visited s n \<noteq> None" for n
  proof -
    have "set (keys (cs_distributions s)) = dom (cs_visited s)" using inv by (simp add: loop_inv_def)
    then show ?thesis using s(2) by (metis domIff)
  qed
  have "n \<in> set (keys ds) \<longleftrightarrow> needed P lookup roots n []" for n
    using needed_visited [OF inv s(1) assms(2), of n "[]"] inv dom [of n]
    unfolding loop_inv_def justified_def by blast
  moreover have "installed P lookup n d" if "map_of ds n = Some d" for n d
  proof -
    have "n \<in> set (keys ds)" using map_of_SomeD [OF that] by force
    then obtain x where "cs_visited s n = Some x" using dom by auto
    with inv have "expanded P lookup s" "cs_visited s n = Some x" by (simp_all add: loop_inv_def)
    then show ?thesis by (rule expandedE) (use that s(2) in \<open>auto simp: installed_def\<close>)
  qed
  ultimately show ?thesis using inv s(2) unfolding loop_inv_def by auto
qed

subsection \<open>The loop ends\<close>

definition all_requirements :: "packaging \<Rightarrow> (string \<Rightarrow> distribution option) \<Rightarrow> string list \<Rightarrow> requirement set" where
  "all_requirements P lookup roots =
     (\<Union>v \<in> set roots \<union> (\<Union>d \<in> ran lookup. set (di_requires d)). set_option (parse_requirement P v))"

lemma all_requirements_finite: "finite (ran lookup) \<Longrightarrow> finite (all_requirements P lookup roots)"
  by (simp add: all_requirements_def)

definition bounded_by :: "packaging \<Rightarrow> requirement set \<Rightarrow> closure_state \<Rightarrow> bool" where
  "bounded_by P A s \<longleftrightarrow> set (cs_pending s) \<subseteq> A \<and> dom (cs_visited s) \<subseteq> canonicalize_name P ` rq_name ` A \<and>
     (\<forall>n. visited_extras s n \<subseteq> (\<Union>r \<in> A. set (rq_extras r)))"

definition visits :: "closure_state \<Rightarrow> (string \<times> string option) set" where
  "visits s = {(n, e). n \<in> dom (cs_visited s) \<and> (\<forall>x. e = Some x \<longrightarrow> x \<in> visited_extras s n)}"

definition possible :: "packaging \<Rightarrow> requirement set \<Rightarrow> (string \<times> string option) set" where
  "possible P A = (canonicalize_name P ` rq_name ` A) \<times> insert None (Some ` (\<Union>r \<in> A. set (rq_extras r)))"

lemma visits_possible:
  assumes "bounded_by P A s"
  shows "visits s \<subseteq> possible P A"
proof clarify
  fix n e
  assume "(n, e) \<in> visits s"
  then have n: "n \<in> dom (cs_visited s)" and e: "\<forall>x. e = Some x \<longrightarrow> x \<in> visited_extras s n" by (auto simp: visits_def)
  have "n \<in> canonicalize_name P ` rq_name ` A" using assms n by (auto simp: bounded_by_def)
  moreover have "e \<in> insert None (Some ` (\<Union>r \<in> A. set (rq_extras r)))"
  proof (cases e)
    case (Some x)
    then have "x \<in> (\<Union>r \<in> A. set (rq_extras r))" using assms e unfolding bounded_by_def by blast
    then show ?thesis unfolding Some by (intro insertI2 imageI)
  qed simp
  ultimately show "(n, e) \<in> possible P A" by (simp add: possible_def)
qed

lemma resolve_total:
  fixes P lookup
  assumes fin: "finite A" and closed: "\<And>d v r. d \<in> ran lookup \<Longrightarrow> v \<in> set (di_requires d) \<Longrightarrow> parse_requirement P v = Some r \<Longrightarrow> r \<in> A"
  shows "bounded_by P A s \<Longrightarrow> \<exists>y. resolve P lookup s = Some y"
proof (induction s rule: wf_induct [OF wf_inv_image [OF wf_lex_prod [OF wf_less_than wf_less_than],
      where f = "\<lambda>s. (card (possible P A - visits s), length (cs_pending s))"]])
  case (1 s)
  show ?case
  proof (cases "cs_pending s")
    case Nil
    then show ?thesis by (simp add: resolve.simps)
  next
    case (Cons r rest)
    let ?s = "s\<lparr>cs_pending := rest\<rparr>"
    have ve: "visited_extras ?s = visited_extras s" by (simp add: fun_eq_iff visited_extras_def)
    have r: "r \<in> A" "set rest \<subseteq> A" using 1(2) Cons by (auto simp: bounded_by_def)
    show ?thesis
    proof (cases "resolve_step P lookup r ?s")
      case (Inl e)
      then show ?thesis by (subst resolve.simps) (simp add: Cons)
    next
      case (Inr s')
      have "bounded_by P A s' \<and> (card (possible P A - visits s') < card (possible P A - visits s) \<or>
          visits s' = visits s \<and> length (cs_pending s') < length (cs_pending s))"
        using Inr
      proof (cases rule: step_elim)
        case (skip d)
        have "visits s' = visits s" using skip(5) ve by (auto simp: visits_def)
        moreover have "bounded_by P A s'" using 1(2) r(2) unfolding skip(5) bounded_by_def ve by simp
        moreover have "length (cs_pending s') < length (cs_pending s)" using skip(5) Cons by simp
        ultimately show ?thesis by blast
      next
        case (visit d extras deps)
        let ?n = "canonicalize_name P (rq_name r)"
        have ve': "visited_extras s' n = (if n = ?n then extras else visited_extras s n)" for n
          using visit(6) by (simp add: visited_extras_def)
        have dom': "dom (cs_visited s') = insert ?n (dom (cs_visited s))" using visit(6) by simp
        have ex: "extras = set (rq_extras r) \<union> visited_extras s ?n" using visit(4) ve by simp
        have "d \<in> ran lookup" using visit(1) by (auto simp: ran_def)
        then have deps: "set deps \<subseteq> A" using closed read_requirements_set(1) [OF visit(5)] by blast
        have pend: "set (cs_pending s') \<subseteq> A" using visit(6) deps r(2) by auto
        have w': "bounded_by P A s'" using 1(2) r(1) pend unfolding bounded_by_def dom' ve' ex by auto
        have sub: "visits s \<subseteq> visits s'" unfolding visits_def dom' ve' ex by auto
        have "\<exists>p \<in> visits s'. p \<notin> visits s"
        proof (cases "?n \<in> dom (cs_visited s)")
          case True
          then obtain x where "x \<in> set (rq_extras r)" "x \<notin> visited_extras s ?n" using visit(3) ve by auto
          then have "(?n, Some x) \<in> visits s'" "(?n, Some x) \<notin> visits s" unfolding visits_def dom' ve' ex by auto
          then show ?thesis by blast
        next
          case False
          then have "(?n, None) \<in> visits s'" "(?n, None) \<notin> visits s" unfolding visits_def dom' by auto
          then show ?thesis by blast
        qed
        then have "possible P A - visits s' \<subset> possible P A - visits s" using sub visits_possible [OF w'] by blast
        then have "card (possible P A - visits s') < card (possible P A - visits s)"
          using fin by (intro psubset_card_mono) (simp_all add: possible_def)
        with w' show ?thesis by blast
      qed
      then obtain y where "resolve P lookup s' = Some y" using 1(1) [rule_format, of s'] by auto
      then show ?thesis by (subst resolve.simps) (simp add: Cons Inr)
    qed
  qed
qed

lemma runtime_distributions_total:
  assumes "finite (ran lookup)"
  shows "\<exists>y. runtime_distributions P lookup roots = Some y"
proof (cases "read_requirements P roots")
  case (Inr pending)
  have "\<exists>y. resolve P lookup \<lparr>cs_pending = pending, cs_visited = Map.empty, cs_distributions = []\<rparr> = Some y"
  proof (rule resolve_total [OF all_requirements_finite [OF assms, of P roots]])
    show "bounded_by P (all_requirements P lookup roots) \<lparr>cs_pending = pending, cs_visited = Map.empty, cs_distributions = []\<rparr>"
      using read_requirements_set(1) [OF Inr] by (fastforce simp: bounded_by_def visited_extras_def all_requirements_def)
  qed (auto simp: all_requirements_def)
  with Inr show ?thesis by (simp add: runtime_distributions_def)
qed (simp add: runtime_distributions_def)

subsection \<open>The policy\<close>

text \<open>An expression of approved identifiers, joined by \<open>AND\<close> and \<open>OR\<close> only.\<close>

definition approved_license :: "packaging \<Rightarrow> string \<Rightarrow> string \<Rightarrow> string \<Rightarrow> bool" where
  "approved_license P name version expression \<longleftrightarrow>
     (\<exists>normalized. canonical_license P expression = Some normalized \<and>
        set (expression_tokens normalized) \<subseteq> {''AND'', ''OR''} \<union> allowed_identifiers name version \<and>
        \<not> set (expression_tokens normalized) \<subseteq> {''AND'', ''OR''})"

lemma WITH_not_allowed: "''WITH'' \<notin> allowed_identifiers name version"
  by (simp add: allowed_identifiers_def ALLOWED_def PACKAGE_ALLOWANCES_def split: option.split)

lemma approved_expression_iff:
  "(\<exists>n. approved_expression P expression name version = Inr n) \<longleftrightarrow> approved_license P name version expression"
proof -
  have "''WITH'' \<notin> {''AND'', ''OR''} \<union> allowed_identifiers name version" using WITH_not_allowed by simp
  then show ?thesis
    by (auto simp: approved_expression_def approved_license_def Let_def split: option.split)
qed

lemma policy_failures_Nil: "policy_failures rs = [] \<longleftrightarrow> (\<forall>r \<in> set rs. \<exists>x. r = Inr x)"
  unfolding policy_failures_def by (induction rs) (auto simp: List.map_filter_simps split: sum.split)

lemma check_package_Inr:
  "check_package P name d = Inr r \<Longrightarrow>
   \<exists>expression source. license_expression P name d = Inr (expression, source) \<and> approved_license P name (di_version d) expression"
  using approved_expression_iff by (auto simp: check_package_def rbind_Inr_iff) blast

lemma inventory_clean:
  assumes "inventory P lookup roots = Some (Inr report)" "ir_errors report = []" "lookup_by_name P lookup"
    and "needed P lookup roots n e" "installed P lookup n d"
  shows "\<exists>expression source. license_expression P n d = Inr (expression, source) \<and> approved_license P n (di_version d) expression"
proof -
  obtain ds where ds: "runtime_distributions P lookup roots = Some (Inr ds)"
    and errors: "policy_failures (map (\<lambda>(name, d). check_package P name d) (sort_key fst ds)) = []"
    using assms(1,2) by (auto simp: inventory_def Let_def split: option.splits sum.splits)
  have "needed P lookup roots n []" using assms(4)
  proof cases
    case (root v r)
    then show ?thesis using needed.root by blast
  next
    case (dependency raw e d v r)
    then show ?thesis using needed.dependency by blast
  qed
  then obtain d' where d': "map_of ds n = Some d'"
    using closure_exact [OF ds assms(3)] by (metis map_of_eq_None_iff list.set_map not_None_eq)
  then have "installed P lookup n d'" using closure_exact [OF ds assms(3)] by blast
  then have "d' = d" using assms(3,5) unfolding installed_def lookup_by_name_def by (metis option.inject)
  moreover have "(n, d') \<in> set ds" using d' by (rule map_of_SomeD)
  ultimately obtain r where "check_package P n d = Inr r" using errors unfolding policy_failures_Nil by force
  then show ?thesis by (rule check_package_Inr)
qed

end
