(* ===== verification/Agent.thy ===== *)
theory Agent
  imports Sdk_Client Solana_Facts
begin

text \<open>
  The read-only readiness agent \<open>examples/solana_rpc_agent.py\<close>: its own JSON-RPC client with a deadline and a
  bounded body, the readiness checks, and the classified event that it hands to the SDK.  \<open>json.loads\<close>,
  \<open>json.dumps\<close> and the HTTPS connection are arguments.
\<close>

subsection \<open>Replies\<close>

text \<open>\<open>ReadinessFailure\<close> with its failure type and reason; \<open>ValueError\<close>; an error of the SDK.\<close>

datatype agent_error = Readiness string string | Value_Error | Telemetry sdk_error

definition malformed :: agent_error where
  "malformed = Readiness ''malformed_output'' ''invalid_rpc_response''"

definition rpc_result :: "(string \<Rightarrow> json option) \<Rightarrow> string \<Rightarrow> agent_error + json" where
  "rpc_result loads body =
     (case loads body of
        Some (JObj ms) \<Rightarrow>
          if \<not> unique_members (JObj ms) then Inl malformed
          else if map_of ms ''jsonrpc'' \<noteq> Some (JStr ''2.0'') \<or> map_of ms ''id'' \<noteq> Some (JInt 1) then Inl malformed
          else if set (keys ms) = {''jsonrpc'', ''id'', ''error''} \<and>
                  (case map_of ms ''error'' of Some (JObj e) \<Rightarrow> True | _ \<Rightarrow> False)
          then Inl (Readiness ''tool_error'' ''rpc_error'')
          else if set (keys ms) \<noteq> {''jsonrpc'', ''id'', ''result''} then Inl malformed
          else Inr (member ms ''result'')
      | _ \<Rightarrow> Inl malformed)"

subsection \<open>The connection\<close>

definition AGENT_RESPONSE_BYTES :: nat where "AGENT_RESPONSE_BYTES = 16384"
definition RPC_TIMEOUT :: real where "RPC_TIMEOUT = 3"

definition METHODS :: "string list" where
  "METHODS = [''getGenesisHash'', ''getSlot'', ''getLatestBlockhash'', ''getBlockHeight'']"

text \<open>What one \<open>read1\<close> returns: at most the bytes asked for, none at the end of the body, or an exception.\<close>

datatype chunk = Piece string | Read_Timeout | Read_Failed

datatype handshake = Open_Timeout | Open_Failed | Opened nat "string option" \<comment> \<open>status and \<open>Content-Encoding\<close>\<close>

record connection =
  cn_opening :: handshake
  cn_clock :: "nat \<Rightarrow> real" \<comment> \<open>the readings of \<open>time.monotonic\<close>\<close>
  cn_read :: "nat \<Rightarrow> nat \<Rightarrow> chunk" \<comment> \<open>the \<open>k\<close>-th \<open>read1(n)\<close>\<close>

definition timed_out :: agent_error where "timed_out = Readiness ''timeout'' ''rpc_timeout''"
definition transport_failed :: agent_error where "transport_failed = Readiness ''tool_error'' ''rpc_transport_error''"

function read_body_until :: "connection \<Rightarrow> real \<Rightarrow> nat \<Rightarrow> string \<Rightarrow> agent_error + string" where
  "read_body_until c deadline k body =
     (if deadline \<le> cn_clock c k then Inl timed_out
      else case cn_read c k (min 4096 (AGENT_RESPONSE_BYTES + 1 - length body)) of
        Read_Timeout \<Rightarrow> Inl timed_out
      | Read_Failed \<Rightarrow> Inl transport_failed
      | Piece piece \<Rightarrow>
          if piece = [] then Inr body
          else if AGENT_RESPONSE_BYTES < length (body @ piece) then Inl malformed
          else read_body_until c deadline (Suc k) (body @ piece))"
  by pat_completeness auto
termination
  by (relation "measure (\<lambda>(c, deadline, k, body). AGENT_RESPONSE_BYTES + 1 - length body)") (auto simp: neq_Nil_conv)

declare read_body_until.simps [simp del]

definition read_exchange :: "(string \<Rightarrow> json option) \<Rightarrow> connection \<Rightarrow> agent_error + json" where
  "read_exchange loads c =
     (case cn_opening c of
        Open_Timeout \<Rightarrow> Inl timed_out
      | Open_Failed \<Rightarrow> Inl transport_failed
      | Opened status encoding \<Rightarrow>
          if status \<noteq> 200 then Inl (Readiness ''tool_error'' ''http_error'')
          else if encoding \<noteq> None \<and> encoding \<noteq> Some ''identity'' then Inl malformed
          else rbind (read_body_until c (cn_clock c 0 + RPC_TIMEOUT) 1 []) (rpc_result loads))"

record agent_env =
  ag_runtime :: runtime
  ag_loads :: "string \<Rightarrow> json option"
  ag_render :: "json \<Rightarrow> string"

type_synonym 's rpc = "string \<Rightarrow> json option \<Rightarrow> 's \<Rightarrow> (agent_error + json) \<times> 's"

definition rpc_payload :: "string \<Rightarrow> json option \<Rightarrow> json" where
  "rpc_payload method config = JObj
     ([(''jsonrpc'', JStr ''2.0''), (''id'', JInt 1), (''method'', JStr method)]
      @ (case config of None \<Rightarrow> [] | Some v \<Rightarrow> [(''params'', JArr [v])]))"

definition devnet_call :: "agent_env \<Rightarrow> ('s \<Rightarrow> string \<Rightarrow> connection \<times> 's) \<Rightarrow> 's rpc" where
  "devnet_call G net method config s =
     (if method \<notin> set METHODS then (Inl Value_Error, s)
      else let (c, s') = net s (ag_render G (rpc_payload method config)) in (read_exchange (ag_loads G) c, s'))"

text \<open>\<open>FixtureRPC\<close>; the failing reply is parsed like one from the network.\<close>

definition fixture_error :: string where
  "fixture_error =
     [CHR 0x7B] @ dump_string ''jsonrpc'' @ '':'' @ dump_string ''2.0'' @ '','' @ dump_string ''id'' @ '':1,''
     @ dump_string ''error'' @ '':'' @ [CHR 0x7B] @ dump_string ''code'' @ '':-32005'' @ [CHR 0x7D, CHR 0x7D]"

definition fixture_call :: "agent_env \<Rightarrow> bool \<Rightarrow> 's rpc" where
  "fixture_call G failing method config s =
     (if method = ''getGenesisHash'' then Inr (JStr DEVNET_GENESIS)
      else if method = ''getSlot'' then Inr (JInt 1000)
      else if method = ''getLatestBlockhash'' then
        (if failing then rpc_result (ag_loads G) fixture_error
         else Inr (JObj [(''context'', JObj [(''slot'', JInt 1001)]),
                         (''value'', JObj [(''blockhash'', JStr ''11111111111111111111111111111111''),
                                           (''lastValidBlockHeight'', JInt 1200)])]))
      else if method = ''getBlockHeight'' then Inr (JInt 1100)
      else Inl Value_Error, s)"

subsection \<open>Checks\<close>

definition u64 :: "json \<Rightarrow> agent_error + int" where
  "u64 v = (case v of JInt i \<Rightarrow> if 0 \<le> i \<and> i < 2 ^ 64 then Inr i else Inl malformed | _ \<Rightarrow> Inl malformed)"

fun bit_length :: "nat \<Rightarrow> nat" where
  "bit_length n = (if n = 0 then 0 else Suc (bit_length (n div 2)))"

declare bit_length.simps [simp del]

definition hash32 :: "json \<Rightarrow> agent_error + unit" where
  "hash32 v =
     (case v of
        JStr s \<Rightarrow>
          if \<not> (32 \<le> length s \<and> length s \<le> 44) then Inl malformed
          else (case decode_digits s 0 of
            None \<Rightarrow> Inl malformed
          | Some number \<Rightarrow> require_that ((bit_length number + 7) div 8 + leading (CHR ''1'') s = 32) malformed)
      | _ \<Rightarrow> Inl malformed)"

definition MIN_REMAINING_BLOCKS :: int where "MIN_REMAINING_BLOCKS = 20"

definition object_member :: "json \<Rightarrow> string \<Rightarrow> (string, json) dict option" where
  "object_member v k = (case v of JObj ms \<Rightarrow> (case map_of ms k of Some (JObj x) \<Rightarrow> Some x | _ \<Rightarrow> None) | _ \<Rightarrow> None)"

text \<open>The context slot and the last valid height of a reply to \<open>getLatestBlockhash\<close>.\<close>

definition read_latest :: "json \<Rightarrow> agent_error + int \<times> int" where
  "read_latest latest =
     (case (object_member latest ''context'', object_member latest ''value'') of
        (Some context, Some value) \<Rightarrow>
          rbind (u64 (member context ''slot'')) (\<lambda>context_slot.
          rbind (hash32 (member value ''blockhash'')) (\<lambda>_.
          rbind (u64 (member value ''lastValidBlockHeight'')) (\<lambda>last_valid.
            Inr (context_slot, last_valid))))
      | _ \<Rightarrow> Inl malformed)"

definition confirmed_at :: "int \<Rightarrow> json" where
  "confirmed_at slot = JObj [(''commitment'', JStr ''confirmed''), (''minContextSlot'', JInt slot)]"

definition check_rpc :: "'s rpc \<Rightarrow> 's \<Rightarrow> (agent_error + unit) \<times> 's" where
  "check_rpc rpc =
     sbind (rpc ''getGenesisHash'' None) (\<lambda>genesis.
     sbind (slift (hash32 genesis)) (\<lambda>_.
       if genesis \<noteq> JStr DEVNET_GENESIS then sfail (Readiness ''validation_failure'' ''wrong_cluster'')
       else
         sbind (rpc ''getSlot'' (Some (JObj [(''commitment'', JStr ''confirmed'')]))) (\<lambda>slot_reply.
         sbind (slift (u64 slot_reply)) (\<lambda>slot.
         sbind (rpc ''getLatestBlockhash'' (Some (confirmed_at slot))) (\<lambda>latest.
         sbind (slift (read_latest latest)) (\<lambda>(context_slot, last_valid).
           if context_slot < slot then sfail (Readiness ''validation_failure'' ''stale_context'')
           else
             sbind (rpc ''getBlockHeight'' (Some (confirmed_at context_slot))) (\<lambda>height_reply.
             sbind (slift (u64 height_reply)) (\<lambda>height.
               if last_valid - height < MIN_REMAINING_BLOCKS
               then sfail (Readiness ''validation_failure'' ''blockhash_expiring'') else sreturn ()))))))))"

subsection \<open>The readiness decision\<close>

definition AGENT_ID :: string where "AGENT_ID = ''solana-devnet-planner''"
definition TOOL :: string where "TOOL = ''solana-rpc-readiness''"
definition TOOL_VERSION :: string where "TOOL_VERSION = ''1.0.0''"
definition SDK_VERSION :: string where "SDK_VERSION = ''0.2.0''"

record readiness =
  rd_continue :: bool \<comment> \<open>\<open>decision\<close> and \<open>outcome\<close>\<close>
  rd_failure_type :: "string option"
  rd_reason :: string
  rd_synthetic :: bool

text \<open>One observation: the deployment, the agent version, the measured time, a fresh event id and the present time.\<close>

record observed =
  os_deployment_id :: string
  os_agent_version :: string
  os_synthetic :: bool
  os_elapsed_ms :: pyfloat
  os_event_id :: string
  os_now :: int

definition measured_latency :: "observed \<Rightarrow> json" where
  "measured_latency ob =
     (if os_synthetic ob then JFloat 1
      else if 86400000 < os_elapsed_ms ob then JInt 86400000 else JFloat (os_elapsed_ms ob))"

definition readiness_event :: "runtime \<Rightarrow> observed \<Rightarrow> string option \<Rightarrow> members option" where
  "readiness_event R ob failure_type = sdk_event R (os_event_id ob) (os_now ob)
     \<lparr>ea_deployment_id = JStr (os_deployment_id ob), ea_agent_id = JStr AGENT_ID, ea_operation = JStr ''tool'',
      ea_outcome = JStr (if failure_type = None then ''success'' else ''failure''),
      ea_failure_type = map_option JStr failure_type, ea_timestamp = None, ea_event_id = None,
      ea_synthetic = JBool (os_synthetic ob),
      ea_measurements =
        [(''provider'', JStr ''solana-devnet''), (''tool'', JStr TOOL), (''tool_version'', JStr TOOL_VERSION),
         (''agent_version'', JStr (os_agent_version ob)), (''sdk'', JStr ''reliamesh-python''),
         (''sdk_version'', JStr SDK_VERSION), (''retry_count'', JInt 0), (''latency_ms'', measured_latency ob)]\<rparr>"

definition readiness_of :: "bool \<Rightarrow> agent_error option \<Rightarrow> readiness" where
  "readiness_of synthetic failure =
     (case failure of
        Some (Readiness failure_type reason) \<Rightarrow>
          \<lparr>rd_continue = False, rd_failure_type = Some failure_type, rd_reason = reason, rd_synthetic = synthetic\<rparr>
      | _ \<Rightarrow> \<lparr>rd_continue = True, rd_failure_type = None, rd_reason = ''readiness_checks_passed'', rd_synthetic = synthetic\<rparr>)"

text \<open>\<open>check_readiness\<close>; without a client nothing is emitted.\<close>

definition check_readiness ::
    "runtime \<Rightarrow> 's rpc \<Rightarrow> observed \<Rightarrow> client option \<Rightarrow> 's \<Rightarrow> (agent_error + readiness) \<times> client option \<times> 's" where
  "check_readiness R rpc ob client s =
     (let (r, s') = check_rpc rpc s;
          answer = readiness_of (os_synthetic ob) (case r of Inl e \<Rightarrow> Some e | Inr _ \<Rightarrow> None)
      in case r of
           Inl Value_Error \<Rightarrow> (Inl Value_Error, client, s')
         | Inl (Telemetry e) \<Rightarrow> (Inl (Telemetry e), client, s')
         | _ \<Rightarrow>
             (case client of
                None \<Rightarrow> (Inr answer, None, s')
              | Some c \<Rightarrow>
                  (case readiness_event R ob (rd_failure_type answer) of
                     None \<Rightarrow> (Inl Value_Error, Some c, s')
                   | Some ms \<Rightarrow>
                       (case emit R (JObj ms) c of
                          (Inl e, c') \<Rightarrow> (Inl (Telemetry e), Some c', s')
                        | (Inr queued, c') \<Rightarrow> (Inr answer, Some c', s')))))"

end
