(* ===== verification/Agent_Facts.thy ===== *)
theory Agent_Facts
  imports Agent Sdk_Client_Facts
begin

text \<open>
  The agent's own Base58 check agrees with the decoder of the attestation module; a readiness decision rests on the four replies;
  every failure carries one of the fixed classifications; and what it reports is always an acceptable event.
\<close>

subsection \<open>Two Base58 checks\<close>

lemma bit_length_le: "bit_length n \<le> k \<longleftrightarrow> n < 2 ^ k"
proof (induction k arbitrary: n)
  case 0
  show ?case by (simp add: bit_length.simps [of n])
next
  case (Suc k)
  show ?case
  proof (cases "n = 0")
    case False
    then have "bit_length n \<le> Suc k \<longleftrightarrow> n div 2 < 2 ^ k" by (subst bit_length.simps) (simp add: Suc)
    also have "\<dots> \<longleftrightarrow> n < 2 ^ Suc k" by (simp add: div_less_iff_less_mult mult.commute)
    finally show ?thesis .
  qed (simp add: bit_length.simps [of 0])
qed

lemma to_bytes_unfold: "n \<noteq> 0 \<Longrightarrow> to_bytes n = to_bytes (n div 256) @ [byte (n mod 256)]"
  by (subst to_bytes.simps) simp

lemma to_bytes_0 [simp]: "to_bytes 0 = []"
  by (simp add: to_bytes.simps)

lemma to_bytes_le: "length (to_bytes n) \<le> k \<longleftrightarrow> n < 256 ^ k"
proof (induction k arbitrary: n)
  case 0
  show ?case by (cases "n = 0") (simp_all add: to_bytes_unfold)
next
  case (Suc k)
  show ?case
  proof (cases "n = 0")
    case False
    then have "length (to_bytes n) \<le> Suc k \<longleftrightarrow> n div 256 < 256 ^ k" by (simp add: to_bytes_unfold Suc)
    also have "\<dots> \<longleftrightarrow> n < 256 ^ Suc k" by (simp add: div_less_iff_less_mult mult.commute)
    finally show ?thesis .
  qed simp
qed

lemma to_bytes_bits: "length (to_bytes n) = (bit_length n + 7) div 8"
proof -
  have "length (to_bytes n) \<le> k \<longleftrightarrow> (bit_length n + 7) div 8 \<le> k" for k
  proof -
    have "(bit_length n + 7) div 8 \<le> k \<longleftrightarrow> bit_length n \<le> 8 * k" by linarith
    also have "\<dots> \<longleftrightarrow> n < 2 ^ (8 * k)" by (rule bit_length_le)
    also have "(2 :: nat) ^ (8 * k) = 256 ^ k" by (simp add: power_mult)
    finally show ?thesis by (simp add: to_bytes_le)
  qed
  then show ?thesis by (meson le_antisym order_refl)
qed

lemma from_bytes_to_bytes: "from_bytes (to_bytes n) = n"
proof (induction n rule: less_induct)
  case (less n)
  show ?case
  proof (cases "n = 0")
    case False
    then have "n div 256 < n" by simp
    from less [OF this] show ?thesis using False
      by (simp add: to_bytes_unfold from_bytes_snoc)
  qed (simp add: from_bytes_def)
qed

lemma hd_to_bytes: "n \<noteq> 0 \<Longrightarrow> to_bytes n \<noteq> [] \<and> hd (to_bytes n) \<noteq> byte 0"
proof (induction n rule: less_induct)
  case (less n)
  show ?case
  proof (cases "n div 256 = 0")
    case True
    then have n: "n < 256" by (simp add: div_eq_0_iff)
    then have "byte n \<noteq> byte 0" using less.prems by (metis code_byte zero_less_numeral)
    with True n less.prems show ?thesis by (simp add: to_bytes_unfold)
  next
    case False
    then have "to_bytes (n div 256) \<noteq> [] \<and> hd (to_bytes (n div 256)) \<noteq> byte 0" using less by simp
    then show ?thesis using less.prems by (simp add: to_bytes_unfold [OF less.prems])
  qed
qed

lemma digit58_Some: "digit58 c = Some d \<Longrightarrow> d < 58 \<and> BASE58 ! d = c"
  unfolding digit58_def by (drule map_of_SomeD) (auto simp: set_zip BASE58_facts(1))

lemma decode_digits_horner:
  "decode_digits s m = Some n \<Longrightarrow> \<exists>ds. s = map ((!) BASE58) ds \<and> list_all (\<lambda>d. d < 58) ds \<and> n = foldl (\<lambda>n d. n * 58 + d) m ds"
proof (induction s arbitrary: m)
  case (Cons c cs)
  then obtain d where d: "digit58 c = Some d" "decode_digits cs (m * 58 + d) = Some n" by (auto split: option.splits)
  obtain ds where "cs = map ((!) BASE58) ds" "list_all (\<lambda>d. d < 58) ds" "n = foldl (\<lambda>n d. n * 58 + d) (m * 58 + d) ds"
    using Cons.IH [OF d(2)] by blast
  then show ?case using digit58_Some [OF d(1)] by (intro exI [of _ "d # ds"]) simp
qed simp

lemma decoded_parts:
  "leading (byte 0) (replicate z (byte 0) @ to_bytes n) = z" "from_bytes (replicate z (byte 0) @ to_bytes n) = n"
proof -
  have "to_bytes n = [] \<or> hd (to_bytes n) \<noteq> byte 0" using hd_to_bytes [of n] by (cases "n = 0") simp_all
  then show "leading (byte 0) (replicate z (byte 0) @ to_bytes n) = z" by (rule leading_prefix)
  show "from_bytes (replicate z (byte 0) @ to_bytes n) = n" by (simp add: from_bytes_zeros from_bytes_to_bytes)
qed

lemma decoded_canonical:
  assumes "decode_digits s 0 = Some n"
  shows "encode58 (replicate (leading (CHR ''1'') s) (byte 0) @ to_bytes n) = s"
proof -
  let ?z = "leading (CHR ''1'') s"
  obtain t where t: "s = replicate ?z (CHR ''1'') @ t" "t = [] \<or> hd t \<noteq> CHR ''1''" using split_zeros [of s "CHR ''1''"] by blast
  then have "decode_digits t 0 = Some n" using assms decode_digits_ones by metis
  then obtain ds where ds: "t = map ((!) BASE58) ds" "list_all (\<lambda>d. d < 58) ds" "n = foldl (\<lambda>n d. n * 58 + d) 0 ds"
    using decode_digits_horner by blast
  have "ds = [] \<or> hd ds \<noteq> 0" using t(2) ds(1) BASE58_facts(3) by (cases ds) (auto intro: gr0I)
  from encode_digits_horner [OF ds(2) this] have e: "encode_digits n [] = t" by (simp add: ds)
  show ?thesis unfolding encode58_def decoded_parts e using t(1) by simp
qed

lemma encode_digits_covers: "n < 58 ^ length (encode_digits n [])"
proof (induction n rule: less_induct)
  case (less n)
  show ?case
  proof (cases "n = 0")
    case False
    then have "n div 58 < 58 ^ length (encode_digits (n div 58) [])" by (intro less) simp
    then have "n < 58 ^ length (encode_digits (n div 58) []) * 58" by (simp add: div_less_iff_less_mult)
    with False show ?thesis by (subst encode_digits_unfold) (simp add: mult.commute)
  qed (simp add: encode_digits_unfold)
qed

lemma to_bytes_encode_digits: "length (to_bytes n) \<le> length (encode_digits n [])"
  unfolding to_bytes_le by (rule order.strict_trans2 [OF encode_digits_covers]) (simp add: power_mono)

lemma hash32_iff: "hash32 v = Inr () \<longleftrightarrow> (\<exists>s bs. v = JStr s \<and> decode58 s 32 = Inr bs)"
proof (cases v)
  case (JStr s)
  show ?thesis
  proof (cases "decode_digits s 0")
    case None
    then show ?thesis by (simp add: JStr hash32_def decode58_def)
  next
    case (Some n)
    let ?bs = "replicate (leading (CHR ''1'') s) (byte 0) @ to_bytes n"
    have len: "length ?bs = (bit_length n + 7) div 8 + leading (CHR ''1'') s" by (simp add: to_bytes_bits)
    have short: "32 \<le> length s" if "length ?bs = 32"
    proof -
      have s: "encode58 ?bs = s" by (rule decoded_canonical [OF Some])
      from arg_cong [OF s, of length] have "length s = leading (CHR ''1'') s + length (encode_digits n [])"
        unfolding encode58_def decoded_parts by simp
      with that to_bytes_encode_digits [of n] show ?thesis by simp
    qed
    show ?thesis
      using decoded_canonical [OF Some] short len
      by (auto simp: JStr hash32_def decode58_def Some Let_def)
  qed
qed (simp_all add: hash32_def)

subsection \<open>Classified failures\<close>

definition CLASSIFICATIONS :: "(string \<times> string) list" where
  "CLASSIFICATIONS =
     [(''malformed_output'', ''invalid_rpc_response''), (''tool_error'', ''rpc_error''), (''tool_error'', ''http_error''),
      (''tool_error'', ''rpc_transport_error''), (''timeout'', ''rpc_timeout''), (''validation_failure'', ''wrong_cluster''),
      (''validation_failure'', ''stale_context''), (''validation_failure'', ''blockhash_expiring'')]"

definition classified :: "agent_error \<Rightarrow> bool" where
  "classified e \<longleftrightarrow> (\<exists>f r. e = Readiness f r \<and> (f, r) \<in> set CLASSIFICATIONS)"

lemma classified_simps [simp]:
  "classified malformed" "classified timed_out" "classified transport_failed" "classified (Readiness ''tool_error'' ''rpc_error'')"
  "classified (Readiness ''tool_error'' ''http_error'')" "classified (Readiness ''validation_failure'' ''wrong_cluster'')"
  "classified (Readiness ''validation_failure'' ''stale_context'')" "classified (Readiness ''validation_failure'' ''blockhash_expiring'')"
  by (simp_all add: classified_def malformed_def timed_out_def transport_failed_def CLASSIFICATIONS_def)

lemma rpc_result_classified: "rpc_result loads body = Inl e \<Longrightarrow> classified e"
  unfolding rpc_result_def by (cases "loads body"; cases "the (loads body)") (simp_all split: if_split_asm, metis classified_simps(4))

lemma read_body_classified: "read_body_until c deadline k body = Inl e \<Longrightarrow> classified e"
proof (induction c deadline k body rule: read_body_until.induct)
  case (1 c deadline k body)
  from 1(2) have "(if deadline \<le> cn_clock c k then Inl timed_out
      else case cn_read c k (min 4096 (AGENT_RESPONSE_BYTES + 1 - length body)) of
        Read_Timeout \<Rightarrow> Inl timed_out
      | Read_Failed \<Rightarrow> Inl transport_failed
      | Piece piece \<Rightarrow>
          if piece = [] then Inr body
          else if AGENT_RESPONSE_BYTES < length (body @ piece) then Inl malformed
          else read_body_until c deadline (Suc k) (body @ piece)) = Inl e"
    by (simp only: read_body_until.simps [of c deadline k body])
  then show ?case using 1(1) by (auto split: chunk.splits if_splits)
qed

lemma read_body_bounded: "read_body_until c deadline k body = Inr b \<Longrightarrow> length body \<le> AGENT_RESPONSE_BYTES \<Longrightarrow> length b \<le> AGENT_RESPONSE_BYTES"
proof (induction c deadline k body rule: read_body_until.induct)
  case (1 c deadline k body)
  from 1(2) have "(if deadline \<le> cn_clock c k then Inl timed_out
      else case cn_read c k (min 4096 (AGENT_RESPONSE_BYTES + 1 - length body)) of
        Read_Timeout \<Rightarrow> Inl timed_out
      | Read_Failed \<Rightarrow> Inl transport_failed
      | Piece piece \<Rightarrow>
          if piece = [] then Inr body
          else if AGENT_RESPONSE_BYTES < length (body @ piece) then Inl malformed
          else read_body_until c deadline (Suc k) (body @ piece)) = Inr b"
    by (simp only: read_body_until.simps [of c deadline k body])
  then show ?case using 1(1,3) by (auto split: chunk.splits if_splits)
qed

lemma read_exchange_classified: "read_exchange loads c = Inl e \<Longrightarrow> classified e"
  by (auto simp: read_exchange_def rbind_Inl_iff dest: read_body_classified rpc_result_classified split: handshake.splits if_splits)

text \<open>A computation all of whose exceptions are classified.\<close>

definition fails_classified :: "('s \<Rightarrow> (agent_error + 'a) \<times> 's) \<Rightarrow> bool" where
  "fails_classified m \<longleftrightarrow> (\<forall>s e s'. m s = (Inl e, s') \<longrightarrow> classified e)"

lemma fails_classified_rules:
  "fails_classified (sreturn x)"
  "classified e \<Longrightarrow> fails_classified (sfail e)"
  "(\<And>e. r = Inl e \<Longrightarrow> classified e) \<Longrightarrow> fails_classified (slift r)"
  "(b \<Longrightarrow> fails_classified f) \<Longrightarrow> (\<not> b \<Longrightarrow> fails_classified g) \<Longrightarrow> fails_classified (if b then f else g)"
  "(\<And>x y. fails_classified (h x y)) \<Longrightarrow> fails_classified (case p of (x, y) \<Rightarrow> h x y)"
  by (auto simp: fails_classified_def sreturn_def sfail_def slift_def split: prod.split)

lemma fails_classified_sbind:
  assumes "fails_classified m" "\<And>x. fails_classified (f x)"
  shows "fails_classified (sbind m f)"
  unfolding fails_classified_def
proof (intro allI impI)
  fix s e s''
  assume e: "sbind m f s = (Inl e, s'')"
  obtain r s' where m: "m s = (r, s')" by (cases "m s")
  show "classified e"
  proof (cases r)
    case (Inl e')
    with e m assms(1) show ?thesis by (auto simp: sbind_def fails_classified_def)
  next
    case (Inr x)
    with e m have "f x s' = (Inl e, s'')" by (simp add: sbind_def)
    with assms(2) show ?thesis unfolding fails_classified_def by blast
  qed
qed

lemma value_classified:
  "u64 v = Inl e \<Longrightarrow> classified e" "hash32 v = Inl e \<Longrightarrow> classified e" "read_latest v = Inl e \<Longrightarrow> classified e"
proof -
  show u: "u64 v = Inl e \<Longrightarrow> classified e" for v :: json and e by (auto simp: u64_def split: json.splits if_splits)
  show h: "hash32 v = Inl e \<Longrightarrow> classified e" for v :: json and e by (auto simp: hash32_def split: json.splits if_splits option.splits)
  show "read_latest v = Inl e \<Longrightarrow> classified e" by (auto simp: read_latest_def rbind_Inl_iff dest: u h split: option.splits)
qed

lemma check_classified:
  assumes "\<And>method config. method \<in> set METHODS \<Longrightarrow> fails_classified (rpc method config)"
  shows "fails_classified (check_rpc rpc)"
proof -
  have m: "''getGenesisHash'' \<in> set METHODS" "''getSlot'' \<in> set METHODS" "''getLatestBlockhash'' \<in> set METHODS"
    "''getBlockHeight'' \<in> set METHODS" by (simp_all add: METHODS_def)
  show ?thesis
    unfolding check_rpc_def
    by (intro fails_classified_sbind fails_classified_rules assms m classified_simps value_classified)
qed

lemma devnet_classified: "method \<in> set METHODS \<Longrightarrow> fails_classified (devnet_call G net method config)"
  by (auto simp: fails_classified_def devnet_call_def dest: read_exchange_classified split: prod.splits)

lemma fixture_classified: "method \<in> set METHODS \<Longrightarrow> fails_classified (fixture_call G failing method config)"
  by (auto simp: fails_classified_def fixture_call_def METHODS_def dest: rpc_result_classified split: if_splits)

subsection \<open>The decision\<close>

definition answer_of :: "bool \<Rightarrow> agent_error + unit \<Rightarrow> readiness" where
  "answer_of synthetic r = readiness_of synthetic (case r of Inl e \<Rightarrow> Some e | Inr _ \<Rightarrow> None)"

lemma check_readiness_silent:
  assumes "\<And>method config. method \<in> set METHODS \<Longrightarrow> fails_classified (rpc method config)"
  shows "check_readiness R rpc ob None s = (Inr (answer_of (os_synthetic ob) (fst (check_rpc rpc s))), None, snd (check_rpc rpc s))"
proof -
  have c: "fails_classified (check_rpc rpc)" by (rule check_classified) (rule assms)
  obtain r s' where e: "check_rpc rpc s = (r, s')" by (cases "check_rpc rpc s")
  show ?thesis
  proof (cases r)
    case (Inl x)
    with e c have "classified x" unfolding fails_classified_def by blast
    with e Inl show ?thesis by (auto simp: check_readiness_def answer_of_def classified_def Let_def)
  qed (simp add: e check_readiness_def answer_of_def Let_def)
qed

lemma answer_classified:
  assumes "case r of Inl e \<Rightarrow> classified e | Inr _ \<Rightarrow> True"
  shows "case rd_failure_type (answer_of b r) of
      None \<Rightarrow> rd_continue (answer_of b r) \<and> r = Inr ()
    | Some f \<Rightarrow> \<not> rd_continue (answer_of b r) \<and> (f, rd_reason (answer_of b r)) \<in> set CLASSIFICATIONS"
  using assms by (cases r) (auto simp: answer_of_def readiness_of_def classified_def)

text \<open>What a passed check has seen.\<close>

lemma check_rpc_passed:
  assumes "check_rpc rpc s = (Inr (), s')"
  shows "\<exists>s1 s2 s3 slot latest context_slot last_valid height.
    rpc ''getGenesisHash'' None s = (Inr (JStr DEVNET_GENESIS), s1) \<and>
    rpc ''getSlot'' (Some (JObj [(''commitment'', JStr ''confirmed'')])) s1 = (Inr (JInt slot), s2) \<and>
    rpc ''getLatestBlockhash'' (Some (confirmed_at slot)) s2 = (Inr latest, s3) \<and>
    read_latest latest = Inr (context_slot, last_valid) \<and> slot \<le> context_slot \<and>
    rpc ''getBlockHeight'' (Some (confirmed_at context_slot)) s3 = (Inr (JInt height), s') \<and>
    height + MIN_REMAINING_BLOCKS \<le> last_valid"
proof -
  have u: "u64 v = Inr i \<longleftrightarrow> v = JInt i \<and> 0 \<le> i \<and> i < 2 ^ 64" for v i by (cases v) (auto simp: u64_def)
  show ?thesis
    using assms unfolding check_rpc_def sbind_Inr slift_Inr u
    by (auto simp: sbind_Inr slift_Inr u sfail_def sreturn_def split: if_splits)
qed

lemma read_latest_Inr:
  assumes "read_latest latest = Inr (context_slot, last_valid)"
  shows "\<exists>value s bs. object_member latest ''value'' = Some value \<and> member value ''blockhash'' = JStr s \<and> decode58 s 32 = Inr bs \<and>
    member value ''lastValidBlockHeight'' = JInt last_valid"
proof -
  have u: "u64 v = Inr i \<longleftrightarrow> v = JInt i \<and> 0 \<le> i \<and> i < 2 ^ 64" for v i by (cases v) (auto simp: u64_def)
  show ?thesis using assms by (auto simp: read_latest_def rbind_Inr_iff u hash32_iff split: option.splits)
qed

subsection \<open>The reported event\<close>

text \<open>What the agent's surroundings provide: identifiers in the protocol's format, a UUID, the clocks.\<close>

definition observation_ok :: "observed \<Rightarrow> bool" where
  "observation_ok ob \<longleftrightarrow> identifier_ok (os_deployment_id ob) \<and> identifier_ok (os_agent_version ob) \<and>
     event_id_ok (os_event_id ob) \<and> datetime_range (os_now ob) \<and> 0 \<le> os_elapsed_ms ob"

definition readiness_members :: "observed \<Rightarrow> string option \<Rightarrow> members" where
  "readiness_members ob failure =
     [(''schema_version'', JStr ''1.0''), (''event_id'', JStr (os_event_id ob)), (''timestamp'', JStr (isoformat (os_now ob))),
      (''deployment_id'', JStr (os_deployment_id ob)), (''agent_id'', JStr AGENT_ID), (''operation'', JStr ''tool''),
      (''outcome'', JStr (if failure = None then ''success'' else ''failure'')), (''synthetic'', JBool (os_synthetic ob))]
     @ (case failure of None \<Rightarrow> [] | Some f \<Rightarrow> [(''failure_type'', JStr f)])
     @ [(''provider'', JStr ''solana-devnet''), (''tool'', JStr TOOL), (''tool_version'', JStr TOOL_VERSION),
        (''agent_version'', JStr (os_agent_version ob)), (''sdk'', JStr ''reliamesh-python''),
        (''sdk_version'', JStr SDK_VERSION), (''retry_count'', JInt 0), (''latency_ms'', measured_latency ob)]"

lemma fixed_identifiers:
  "identifier_ok AGENT_ID" "identifier_ok TOOL" "identifier_ok TOOL_VERSION" "identifier_ok SDK_VERSION"
  "identifier_ok ''solana-devnet''" "identifier_ok ''reliamesh-python''"
  by code_simp+

lemma measured_latency_ok: "0 \<le> os_elapsed_ms ob \<Longrightarrow> latency_json (measured_latency ob)"
  by (simp add: measured_latency_def latency_json_def)

lemma readiness_members_valid:
  assumes "observation_ok ob" "\<forall>f. failure = Some f \<longrightarrow> f \<in> set FAILURE_TYPES"
  shows "sdk_valid (readiness_members ob failure)"
proof -
  have fixed: "measured_latency ob \<noteq> JNull" by (simp add: measured_latency_def)
  show ?thesis
  proof (cases failure)
    case None
    then show ?thesis
      using assms(1) measured_latency_ok [of ob] fixed_identifiers unfolding sdk_valid_def observation_ok_def
      by (simp add: readiness_members_def FIELDS_def REQUIRED_def IDENTIFIERS_def COUNTERS_def checked_def identifier_json_def
          str_in_def OPERATIONS_def failure_checked_def counter_json_def json_bool_def) blast
  next
    case (Some f)
    then show ?thesis
      using assms measured_latency_ok [of ob] fixed_identifiers unfolding sdk_valid_def observation_ok_def
      by (simp add: readiness_members_def FIELDS_def REQUIRED_def IDENTIFIERS_def COUNTERS_def checked_def identifier_json_def
          str_in_def OPERATIONS_def failure_checked_def counter_json_def json_bool_def) blast
  qed
qed

lemma readiness_event_total:
  assumes "observation_ok ob" "\<forall>f. failure = Some f \<longrightarrow> f \<in> set FAILURE_TYPES" "iso_inverse R"
  shows "readiness_event R ob failure = Some (readiness_members ob failure)"
proof -
  have "validate_event R (JObj (readiness_members ob failure)) = Some (readiness_members ob failure)"
    by (rule sdk_valid_fixed [OF readiness_members_valid [OF assms(1,2)] assms(3)])
  then show ?thesis
    by (cases failure) (simp_all add: readiness_event_def sdk_event_def event_members_def chosen_id_def Let_def readiness_members_def)
qed

lemma classification_types: "(f, r) \<in> set CLASSIFICATIONS \<Longrightarrow> f \<in> set FAILURE_TYPES"
  by (auto simp: CLASSIFICATIONS_def FAILURE_TYPES_def)

lemma check_readiness_reports:
  assumes rpc: "\<And>method config. method \<in> set METHODS \<Longrightarrow> fails_classified (rpc method config)"
    and ob: "observation_ok ob" and iso: "iso_inverse R" and room: "length (cl_queue c) < cl_capacity c"
  shows "check_readiness R rpc ob (Some c) s =
    (Inr (answer_of (os_synthetic ob) (fst (check_rpc rpc s))),
     Some (c\<lparr>cl_queue := cl_queue c @ [readiness_members ob (rd_failure_type (answer_of (os_synthetic ob) (fst (check_rpc rpc s))))],
            cl_enqueued := cl_enqueued c + 1\<rparr>),
     snd (check_rpc rpc s))"
proof -
  have c: "fails_classified (check_rpc rpc)" by (rule check_classified) (rule rpc)
  obtain r s' where e: "check_rpc rpc s = (r, s')" by (cases "check_rpc rpc s")
  let ?f = "rd_failure_type (answer_of (os_synthetic ob) r)"
  have r: "case r of Inl e \<Rightarrow> classified e | Inr _ \<Rightarrow> True" using c e unfolding fails_classified_def by (cases r) auto
  have f: "\<forall>f. ?f = Some f \<longrightarrow> f \<in> set FAILURE_TYPES"
    using answer_classified [OF r, of "os_synthetic ob"] classification_types by (auto split: option.splits)
  have ev: "readiness_event R ob ?f = Some (readiness_members ob ?f)" by (rule readiness_event_total [OF ob f iso])
  have "validate_event R (JObj (readiness_members ob ?f)) = Some (readiness_members ob ?f)"
    by (rule sdk_valid_fixed [OF readiness_members_valid [OF ob f] iso])
  then have em: "emit R (JObj (readiness_members ob ?f)) c =
      (Inr True, c\<lparr>cl_queue := cl_queue c @ [readiness_members ob ?f], cl_enqueued := cl_enqueued c + 1\<rparr>)"
    using room by (simp add: emit_def)
  show ?thesis
  proof (cases r)
    case (Inl x)
    then obtain a b where x: "x = Readiness a b" using r by (auto simp: classified_def)
    show ?thesis using ev em by (simp add: check_readiness_def e Inl x Let_def answer_of_def)
  next
    case (Inr u)
    show ?thesis using ev em by (simp add: check_readiness_def e Inr Let_def answer_of_def)
  qed
qed

end
