(* ===== verification/Operations.thy ===== *)
theory Operations
  imports Demo_Publish Firestore_Spec Operator Attest_Cli Licenses_Facts Agent_Facts
begin

text \<open>
  The properties of what surrounds the service: its two stores, the operator's tools that publish and provision, the
  licence gate of the release and the readiness agent.
\<close>

section \<open>The two stores\<close>















section \<open>Provisioning\<close>










section \<open>Publication\<close>




text \<open>
  C32.  Publication ends, and a receipt is never claimed without evidence: with a clock on which every round of the wait
  takes the 1.5 seconds it sleeps, 31 rounds are enough for the 45 seconds; and a receipt rests on a verified signature of
  the bundle's signer over exactly the commitment of the bundle, and is written to the output file, next to the pending file
  with the same signature.
\<close>

theorem publication_outcome:
  assumes "publish X render disk (wire answer) clock wait fuel bundle keypair output m = (r, m')"
    and "sleeps clock" "wait \<le> 3 / 2 * (real fuel - 1)" "0 < fuel"
  shows "r \<noteq> Inl Out_of_fuel \<and>
    (\<forall>receipt. r = Inr receipt \<longrightarrow> (\<exists>v pending height.
      receipt = with_commitment (commitment (rx_runtime X) bundle) (receipt_json v) \<and>
      signed_commitment (rx_crypto X) (commitment (rx_runtime X) bundle) (vf_signature v) (bn_expected_signer bundle) \<and>
      mc_files m output = None \<and> mc_files m' output = Some (render receipt @ [CHR 0x0A]) \<and>
      pending_path output = Inr pending \<and> mc_files m pending = None \<and>
      mc_files m' pending = Some (render (pending_record (commitment (rx_runtime X) bundle) (bn_expected_signer bundle)
        (vf_signature v) height) @ [CHR 0x0A])))"
proof
  show "r \<noteq> Inl Out_of_fuel" using publish_ends [OF assms(2-4)] assms(1) by (metis fst_conv)
  show "\<forall>receipt. r = Inr receipt \<longrightarrow> (\<exists>v pending height.
      receipt = with_commitment (commitment (rx_runtime X) bundle) (receipt_json v) \<and>
      signed_commitment (rx_crypto X) (commitment (rx_runtime X) bundle) (vf_signature v) (bn_expected_signer bundle) \<and>
      mc_files m output = None \<and> mc_files m' output = Some (render receipt @ [CHR 0x0A]) \<and>
      pending_path output = Inr pending \<and> mc_files m pending = None \<and>
      mc_files m' pending = Some (render (pending_record (commitment (rx_runtime X) bundle) (bn_expected_signer bundle)
        (vf_signature v) height) @ [CHR 0x0A]))"
    using publish_receipt assms(1) by blast
qed

theorem publication_outcome_witness:
  "\<exists>encoded signature receipt m' v. edge_publish encoded signature empty_machine = (Inr receipt, m') \<and>
    receipt = with_commitment edge_digest (receipt_json v) \<and>
    signed_commitment edge_crypto edge_digest (vf_signature v) edge_signer \<and>
    mc_files m' edge_output = Some (dumps hashed_runtime receipt @ [CHR 0x0A])"
proof -
  obtain encoded signature where sent: "edge_sent encoded signature" using edge_sent_exists by blast
  obtain receipt m' where run: "edge_publish encoded signature empty_machine = (Inr receipt, m')"
    using edge_published [OF sent] by blast
  note outcome = publication_outcome [OF run [unfolded edge_publish_def] steady_clock_sleeps]
  have "bn_expected_signer (edge_bundle 7) = edge_signer" by (simp add: edge_bundle_def)
  with outcome run show ?thesis by (simp add: edge_digest) blast
qed


text \<open>
  C37.  The \<open>verify\<close> command tells the truth: when it exits with 0, the file holds a valid bundle, the signer that the operator
  trusts is the bundle's, and that signer signed exactly this bundle's commitment; it prints the verified transaction, overwrites
  and removes no file, and sends nothing that could submit a transaction.
\<close>

theorem verify_command_sound:
  assumes "attest_main X render disk (wire answer) clock fuel secret salt now (Verify_Bundle file signature signer) m =
      (Some (0, printed), m')"
  shows "\<exists>b v added. load_bundle X m file = Inr b \<and> signer = bn_expected_signer b \<and>
    signed_commitment (rx_crypto X) (commitment (rx_runtime X) b) signature signer \<and>
    printed = Some (receipt_json v) \<and> vf_signature v = signature \<and> vf_signer v = signer \<and>
    mc_files m \<subseteq>\<^sub>m mc_files m' \<and> mc_log m' = mc_log m @ added \<and> list_all (silent X) added"
proof -
  obtain b v where b: "load_bundle X m file = Inr b" "signer = bn_expected_signer b"
    and v: "verify_finalized X (wire answer) (commitment (rx_runtime X) b) signature signer m = (Inr v, m')"
    and p: "printed = Some (receipt_json v)"
    using assms
    by (auto simp: attest_main_def attest_command_def raising_pair sbind_def slift_def sfail_def sreturn_def Let_def
        split: sum.splits prod.splits if_splits publish_error.splits)
  have "files_kept m m'" using machine_files.tame_verify v unfolding tame_def by (metis snd_conv)
  moreover obtain added where "mc_log m' = mc_log m @ added" "list_all (silent X) added"
    using silent_verify [of X] v unfolding sends_def by (metis snd_conv)
  ultimately show ?thesis using b p verified_sound [OF v] unfolding files_kept_def by blast
qed

definition verify_machine :: machine where
  "verify_machine = \<lparr>mc_files = [edge_output \<mapsto> ''B''], mc_log = replicate 7 (Sent [])\<rparr>"

definition signer_digits :: "nat list" where
  "signer_digits =
     [27, 25, 4, 0, 6, 15, 4, 8, 5, 4, 33, 56, 36, 43, 32, 3, 5, 16, 25, 2, 7, 23, 19, 41, 6, 27, 23, 41, 25, 46, 42, 52, 49, 38, 34, 23, 38, 18, 11, 13, 19, 14, 55]"

lemma edge_signer_ok: "signer_ok edge_signer"
proof -
  let ?bs = "replicate 32 (byte 7)"
  have "?bs = map byte [7, 7, 7, 7, 7, 7, 7, 7, 7, 7, 7, 7, 7, 7, 7, 7, 7, 7, 7, 7, 7, 7, 7, 7, 7, 7, 7, 7, 7, 7, 7, 7]"
    by (simp add: numeral_eq_Suc)
  then have "foldl (\<lambda>n d. n * 58 + d) 0 signer_digits = from_bytes ?bs"
    by (simp only:) (simp add: from_bytes_def signer_digits_def)
  moreover have "list_all (\<lambda>d. d < 58) signer_digits" "hd signer_digits \<noteq> 0" by code_simp+
  ultimately have "encode_digits (from_bytes ?bs) [] = map ((!) BASE58) signer_digits"
    using encode_digits_horner [of signer_digits] by simp
  moreover have "leading (byte 0) ?bs = 0" by (simp add: leading_def byte_def)
  ultimately have "edge_signer = map ((!) BASE58) signer_digits"
    by (simp add: edge_signer_def edge_crypto_def edge_secret_def encode58_def)
  moreover have "signer_ok (map ((!) BASE58) signer_digits)" by code_simp
  ultimately show ?thesis by simp
qed

lemma edge_bundle_loads: "load_bundle (publish_env encoded signature) verify_machine edge_output = Inr (edge_bundle 7)"
proof -
  have "stamp_ok hashed_runtime (stamp 0)"
    by (simp add: stamp_ok_def hashed_runtime_def edge_runtime_def read_stamp datetime_range_def)
  moreover have "version_ok ''0.2.0''" by code_simp
  ultimately have "check_report hashed_runtime (bn_report (edge_bundle 7)) = Some (bn_report (edge_bundle 7))"
    by (simp add: check_report_def edge_bundle_def count_ok_def counts_consistent_def)
  then have r: "report_of_json hashed_runtime (report_json (bn_report (edge_bundle 7))) = Some (bn_report (edge_bundle 7))"
    by (rule report_roundtrip)
  moreover have "signer_ok edge_signer" by (rule edge_signer_ok)
  moreover have "hex64 (replicate 64 (CHR ''0''))"
    by (simp add: hex64_def list_all_iff is_hex_def is_digit_def char_in_def code_def)
  ultimately have "prepare hashed_runtime (replicate 64 (CHR ''0'')) (report_json (bn_report (edge_bundle 7))) edge_signer =
      Some (edge_bundle 7)"
    using r by (simp add: prepare_def edge_bundle_def)
  then have "bundle_of_json hashed_runtime (bundle_json (edge_bundle 7)) = Some (edge_bundle 7)" by (rule bundle_roundtrip)
  moreover have "unique_members (bundle_json (edge_bundle 7))"
    by (simp add: bundle_json_def report_json_def)
  ultimately show ?thesis
    by (simp add: load_bundle_def load_file_def read_document_def verify_machine_def publish_env_def bundle_json_def
        MAX_DOCUMENT_BYTES_def)
qed


theorem verify_command_sound_witness:
  "\<exists>encoded signature printed m'. attest_main (publish_env encoded signature) (dumps hashed_runtime) (\<lambda>_ _. Writes) (wire scripted)
      steady_clock 31 [] [] 0 (Verify_Bundle edge_output signature edge_signer) verify_machine = (Some (0, printed), m') \<and>
    signed_commitment edge_crypto edge_digest signature edge_signer"
proof -
  obtain encoded signature where sent: "edge_sent encoded signature" using edge_sent_exists by blast
  let ?X = "publish_env encoded signature"
  have "requests (mc_log verify_machine) = 7" by (simp add: verify_machine_def requests_def)
  then obtain m' where v: "verify_finalized ?X (wire scripted) edge_digest signature edge_signer verify_machine =
      (Inr (edge_receipt signature), m')" using verify_answered [OF sent] by blast
  have signer: "bn_expected_signer (edge_bundle 7) = edge_signer" by (simp add: edge_bundle_def)
  have run: "attest_main ?X (dumps hashed_runtime) (\<lambda>_ _. Writes) (wire scripted) steady_clock 31 [] [] 0
      (Verify_Bundle edge_output signature edge_signer) verify_machine =
      (Some (0, Some (receipt_json (edge_receipt signature))), m')"
    by (simp add: attest_main_def attest_command_def raising_pair sbind_def slift_def edge_bundle_loads signer edge_digest v sreturn_def)
  obtain b where "load_bundle ?X verify_machine edge_output = Inr b"
    "signed_commitment (rx_crypto ?X) (commitment (rx_runtime ?X) b) signature edge_signer"
    using verify_command_sound [OF run] by blast
  with run show ?thesis by (auto simp: edge_digest)
qed

text \<open>
  C38.  A transaction binds the whole report: if one encoded transaction is accepted for two bundles, under whatever signature
  schemes, then signature and signer agree and the bundles are the same - down to the salt and every count of the report - or
  their canonical texts are an explicit collision of SHA-256.
\<close>

theorem report_binding:
  assumes "verify_wire C encoded (commitment R b) signature signer = Inr ()"
    and "verify_wire C' encoded (commitment R b') signature' signer' = Inr ()"
  shows "signature' = signature \<and> signer' = signer \<and>
    (b' = b \<or> committed_text R b \<noteq> committed_text R b' \<and> sha256_hex R (committed_text R b) = sha256_hex R (committed_text R b'))"
  using accepted_wire_binding [OF assms] commitment_collision [of R b b'] by auto

theorem report_binding_witness:
  "edge_bundle 8 = edge_bundle 7 \<or> committed_text hashed_runtime (edge_bundle 7) \<noteq> committed_text hashed_runtime (edge_bundle 8) \<and>
    sha256_hex hashed_runtime (committed_text hashed_runtime (edge_bundle 7)) =
    sha256_hex hashed_runtime (committed_text hashed_runtime (edge_bundle 8))"
proof -
  obtain encoded signature where "edge_sent encoded signature" using edge_sent_exists by blast
  then have ok: "verify_wire edge_crypto encoded (commitment hashed_runtime b) signature edge_signer = Inr ()" for b
    by (simp add: edge_sent_def edge_digest)
  from report_binding [OF ok [of "edge_bundle 7"] ok [of "edge_bundle 8"]] show ?thesis by blast
qed

section \<open>The licence gate\<close>

lemma inventory_names:
  assumes "inventory P lookup roots = Some (Inr report)" "ir_errors report = []" "lookup_by_name P lookup"
  shows "lr_name ` set (ir_packages report) = {n. needed P lookup roots n []}"
proof -
  obtain ds where ds: "runtime_distributions P lookup roots = Some (Inr ds)"
    and report: "ir_packages report = passed_records (map (\<lambda>(name, d). check_package P name d) (sort_key fst ds))"
      "ir_errors report = policy_failures (map (\<lambda>(name, d). check_package P name d) (sort_key fst ds))"
    using assms(1) by (auto simp: inventory_def Let_def split: option.splits sum.splits)
  have all: "\<exists>r. check_package P n d = Inr r" if "(n, d) \<in> set ds" for n d
    using assms(2) that unfolding report policy_failures_Nil by force
  have named: "lr_name r = n" if "check_package P n d = Inr r" for n d r
    using that by (auto simp: check_package_def rbind_Inr_iff)
  have "lr_name ` set (ir_packages report) = fst ` set ds"
  proof (intro equalityI subsetI)
    fix x
    assume "x \<in> lr_name ` set (ir_packages report)"
    then obtain n d r where "(n, d) \<in> set ds" "check_package P n d = Inr r" "x = lr_name r"
      by (auto simp: report passed_records_def List.map_filter_def split: sum.splits)
    then show "x \<in> fst ` set ds" using named by force
  next
    fix x
    assume "x \<in> fst ` set ds"
    then obtain d where d: "(x, d) \<in> set ds" by auto
    with all obtain r where r: "check_package P x d = Inr r" by blast
    then have "r \<in> set (ir_packages report)"
      using d by (force simp: report passed_records_def List.map_filter_def split: sum.splits)
    with named [OF r] show "x \<in> lr_name ` set (ir_packages report)" by force
  qed
  moreover have "n \<in> set (keys ds) \<longleftrightarrow> needed P lookup roots n []" for n
    using closure_exact [OF ds assms(3)] by blast
  ultimately show ?thesis by auto
qed

text \<open>
  C39.  The licence gate fails closed: with finitely many installed distributions the script always ends, however the
  dependencies and their extras refer back to each other; it exits with 0 exactly when it lists no error; and then the
  inventory consists of exactly the distributions that the roots need, and every one of them carries licence evidence
  whose identifiers are all allowed.
\<close>

theorem license_gate:
  assumes "finite (ran lookup)" "lookup_by_name P lookup"
  shows "let roots = if given = [] then DEFAULT_ROOTS else given in \<exists>y. check_licenses P lookup given = Some y \<and>
    (\<forall>report code. y = Inr (report, code) \<longrightarrow> (code = 0 \<longleftrightarrow> ir_errors report = []) \<and>
      (code = 0 \<longrightarrow> lr_name ` set (ir_packages report) = {n. needed P lookup roots n []} \<and>
        (\<forall>n d. needed P lookup roots n [] \<and> installed P lookup n d \<longrightarrow>
          (\<exists>expression source. license_expression P n d = Inr (expression, source) \<and>
            approved_license P n (di_version d) expression))))"
proof -
  define roots where "roots = (if given = [] then DEFAULT_ROOTS else given)"
  obtain q where q: "runtime_distributions P lookup roots = Some q"
    using runtime_distributions_total [OF assms(1)] by blast
  obtain z where z: "inventory P lookup roots = Some z"
    by (cases q) (simp_all add: inventory_def Let_def q)
  have "check_licenses P lookup given \<noteq> None"
    using z by (auto simp: check_licenses_def Let_def roots_def split: sum.splits script_error.splits)
  then obtain y where y: "check_licenses P lookup given = Some y" by blast
  show ?thesis unfolding Let_def roots_def [symmetric]
  proof (rule exI [of _ y], intro conjI allI impI)
    show "check_licenses P lookup given = Some y" by (rule y)
  next
    fix report code
    assume e: "y = Inr (report, code)"
    then show "code = 0 \<longleftrightarrow> ir_errors report = []" using y z unfolding roots_def
      by (auto simp: check_licenses_def Let_def split: sum.splits script_error.splits if_splits)
    assume "code = 0"
    then have i: "inventory P lookup roots = Some (Inr report)" "ir_errors report = []"
      using e y z unfolding roots_def
      by (auto simp: check_licenses_def Let_def split: sum.splits script_error.splits if_splits)
    show "lr_name ` set (ir_packages report) = {n. needed P lookup roots n []}" by (rule inventory_names [OF i assms(2)])
    fix n d
    assume "needed P lookup roots n [] \<and> installed P lookup n d"
    then show "\<exists>expression source. license_expression P n d = Inr (expression, source) \<and>
        approved_license P n (di_version d) expression"
      using inventory_clean [OF i assms(2)] by blast
  qed
qed


definition toy_packaging :: packaging where
  "toy_packaging =
     \<lparr>parse_requirement = map_of
        [(''a[x]'', \<lparr>rq_name = ''a'', rq_url = None, rq_extras = [''x''], rq_specifier = [], rq_marker = None\<rparr>),
         (''b'', \<lparr>rq_name = ''b'', rq_url = None, rq_extras = [], rq_specifier = [], rq_marker = Some ''x''\<rparr>)],
      canonicalize_name = (\<lambda>n. n), specifier_contains = (\<lambda>_ _. True), marker_holds = (=), canonical_license = Some,
      sha256_bytes = (\<lambda>b. b)\<rparr>"

definition toy_distribution :: "string list \<Rightarrow> string \<Rightarrow> distribution" where
  "toy_distribution requires expression =
     \<lparr>di_version = ''1'', di_requires = requires, di_license_expression = Some expression, di_license = None,
      di_classifiers = [], di_files = []\<rparr>"

text \<open>Two distributions that need each other.\<close>

definition toy_installed :: "string \<Rightarrow> distribution option" where
  "toy_installed = map_of [(''a'', toy_distribution [''b''] ''MIT''), (''b'', toy_distribution [''a[x]''] ''MIT OR ISC'')]"

lemma toy_inventory:
  "\<exists>report. check_licenses toy_packaging toy_installed [''a[x]''] = Some (Inr (report, 0))"
proof -
  have "runtime_distributions toy_packaging toy_installed [''a[x]''] =
      Some (Inr [(''a'', toy_distribution [''b''] ''MIT''), (''b'', toy_distribution [''a[x]''] ''MIT OR ISC'')])"
    by (simp add: runtime_distributions_def read_requirement_def toy_packaging_def resolve.simps resolve_step_def
        toy_installed_def toy_distribution_def visited_extras_def applies_def Let_def)
  moreover have allowed: "{''MIT'', ''ISC''} \<subseteq> allowed_identifiers n v" for n v
    by (simp add: allowed_identifiers_def ALLOWED_def)
  have words: "expression_tokens ''MIT'' = [''MIT'']" "expression_tokens ''MIT OR ISC'' = [''MIT'', ''OR'', ''ISC'']"
    by code_simp+
  have "{''MIT'', ''OR'', ''ISC''} - {''AND'', ''OR''} = {''MIT'', ''ISC''}" by auto
  then have "approved_expression toy_packaging ''MIT'' n ''1'' = Inr ''MIT''"
    "approved_expression toy_packaging ''MIT OR ISC'' n ''1'' = Inr ''MIT OR ISC''" for n
    using allowed [of n "''1''"] by (simp_all add: approved_expression_def toy_packaging_def words Let_def)
  ultimately have "inventory toy_packaging toy_installed [''a[x]''] = Some (Inr
      \<lparr>ir_roots = [''a[x]''],
       ir_packages = [\<lparr>lr_name = ''a'', lr_version = ''1'', lr_expression = ''MIT'', lr_evidence = ''License-Expression''\<rparr>,
                      \<lparr>lr_name = ''b'', lr_version = ''1'', lr_expression = ''MIT OR ISC'', lr_evidence = ''License-Expression''\<rparr>],
       ir_errors = []\<rparr>)"
    by (simp add: inventory_def Let_def check_package_def license_expression_def toy_distribution_def passed_records_def policy_failures_def
        List.map_filter_def sort_key_def)
  then show ?thesis by (simp add: check_licenses_def)
qed

theorem license_gate_witness:
  "\<exists>report. check_licenses toy_packaging toy_installed [''a[x]''] = Some (Inr (report, 0)) \<and>
    lr_name ` set (ir_packages report) = {n. needed toy_packaging toy_installed [''a[x]''] n []}"
proof -
  obtain report where r: "check_licenses toy_packaging toy_installed [''a[x]''] = Some (Inr (report, 0))"
    using toy_inventory by blast
  have "finite (ran toy_installed)" by (simp add: toy_installed_def finite_range_updI)
  moreover have "lookup_by_name toy_packaging toy_installed" by (simp add: lookup_by_name_def toy_packaging_def)
  ultimately show ?thesis using license_gate [of toy_installed toy_packaging "[''a[x]'']"] r by (auto simp: Let_def)
qed


section \<open>The readiness agent\<close>

lemma devnet_decision:
  assumes "check_rpc (devnet_call G net) s = (r, s')"
  shows "case rd_failure_type (answer_of b r) of
      None \<Rightarrow> rd_continue (answer_of b r) \<and> r = Inr ()
    | Some f \<Rightarrow> \<not> rd_continue (answer_of b r) \<and> (f, rd_reason (answer_of b r)) \<in> set CLASSIFICATIONS"
proof (rule answer_classified)
  have "fails_classified (check_rpc (devnet_call G net))" by (rule check_classified) (rule devnet_classified)
  then show "case r of Inl e \<Rightarrow> classified e | Inr _ \<Rightarrow> True"
    using assms by (auto simp: fails_classified_def split: sum.splits)
qed


text \<open>
  Every decision is reported truthfully: with room in the queue of the SDK client, exactly one event is queued, the
  server's validation accepts it, and it records a success exactly when the agent continues and otherwise the failure type of
  the decision.
\<close>

theorem readiness_reported:
  assumes "observation_ok ob" "iso_inverse R" "length (cl_queue c) < cl_capacity c"
  shows "\<exists>answer ms e s'. check_readiness R (devnet_call G net) ob (Some c) s =
      (Inr answer, Some (c\<lparr>cl_queue := cl_queue c @ [ms], cl_enqueued := cl_enqueued c + 1\<rparr>), s') \<and>
    check_readiness R (devnet_call G net) ob None s = (Inr answer, None, s') \<and>
    event_of_json R (JObj ms) = Some e \<and> ev_event_id e = os_event_id ob \<and>
    map_of ms ''outcome'' = Some (JStr (if rd_continue answer then ''success'' else ''failure'')) \<and>
    map_of ms ''failure_type'' = map_option JStr (rd_failure_type answer)"
proof -
  obtain r s' where r: "check_rpc (devnet_call G net) s = (r, s')" by fastforce
  let ?answer = "answer_of (os_synthetic ob) r"
  let ?ms = "readiness_members ob (rd_failure_type ?answer)"
  note decision = devnet_decision [OF r, of "os_synthetic ob"]
  have types: "\<forall>f. rd_failure_type ?answer = Some f \<longrightarrow> f \<in> set FAILURE_TYPES"
    using decision classification_types by (auto split: option.splits)
  have runs: "check_readiness R (devnet_call G net) ob (Some c) s =
      (Inr ?answer, Some (c\<lparr>cl_queue := cl_queue c @ [?ms], cl_enqueued := cl_enqueued c + 1\<rparr>), s')"
    "check_readiness R (devnet_call G net) ob None s = (Inr ?answer, None, s')"
    using check_readiness_reports [where rpc = "devnet_call G net" and s = s, OF devnet_classified assms]
      check_readiness_silent [where rpc = "devnet_call G net" and s = s and R = R and ob = ob, OF devnet_classified] r by simp_all
  obtain e where e: "event_of_json R (JObj ?ms) = Some e" "map_of ?ms ''event_id'' = Some (JStr (ev_event_id e))"
    using sdk_valid_accepted [OF readiness_members_valid [OF assms(1) types] assms(2)] by blast
  then have "ev_event_id e = os_event_id ob" by (simp add: readiness_members_def)
  moreover have "map_of ?ms ''outcome'' = Some (JStr (if rd_continue ?answer then ''success'' else ''failure''))"
    "map_of ?ms ''failure_type'' = map_option JStr (rd_failure_type ?answer)"
    using decision by (cases "rd_failure_type ?answer"; simp add: readiness_members_def)+
  ultimately show ?thesis using runs e(1) by blast
qed

definition demo_observed :: observed where
  "demo_observed = \<lparr>os_deployment_id = ''d'', os_agent_version = ''1.0'', os_synthetic = False, os_elapsed_ms = 12,
     os_event_id = ''00000000-0000-4000-8000-000000000001'', os_now = 1000000000000000\<rparr>"

definition silent_agent :: agent_env where
  "silent_agent = \<lparr>ag_runtime = edge_runtime, ag_loads = (\<lambda>_. None), ag_render = dumps edge_runtime\<rparr>"

definition slow_net :: "nat \<Rightarrow> string \<Rightarrow> connection \<times> nat" where
  "slow_net n body = (\<lparr>cn_opening = Opened 200 None, cn_clock = (\<lambda>k. 4 * real k), cn_read = (\<lambda>_ _. Piece ''x'')\<rparr>, Suc n)"

theorem readiness_reported_witness:
  "\<exists>ms e. check_readiness edge_runtime (devnet_call silent_agent slow_net) demo_observed (Some edge_client) 0 =
      (Inr \<lparr>rd_continue = False, rd_failure_type = Some ''timeout'', rd_reason = ''rpc_timeout'', rd_synthetic = False\<rparr>,
       Some (edge_client\<lparr>cl_queue := [ms], cl_enqueued := 1\<rparr>), 1) \<and>
    event_of_json edge_runtime (JObj ms) = Some e \<and> map_of ms ''failure_type'' = Some (JStr ''timeout'')"
proof -
  have "event_id_ok ''00000000-0000-4000-8000-000000000001''" "identifier_ok ''d''" "identifier_ok ''1.0''" by code_simp+
  then have ob: "observation_ok demo_observed" by (simp add: observation_ok_def demo_observed_def datetime_range_def)
  have room: "length (cl_queue edge_client) < cl_capacity edge_client" by (simp add: edge_client_def)
  have "check_rpc (devnet_call silent_agent slow_net) 0 = (Inl timed_out, 1)"
    by (simp add: check_rpc_def sbind_def devnet_call_def METHODS_def slow_net_def read_exchange_def read_body_until.simps
        RPC_TIMEOUT_def)
  then have quiet: "check_readiness edge_runtime (devnet_call silent_agent slow_net) demo_observed None 0 =
      (Inr \<lparr>rd_continue = False, rd_failure_type = Some ''timeout'', rd_reason = ''rpc_timeout'', rd_synthetic = False\<rparr>, None, 1)"
    by (simp add: check_readiness_def Let_def readiness_of_def timed_out_def demo_observed_def)
  show ?thesis
    using readiness_reported [OF ob edge_iso room, where G = silent_agent and net = slow_net and s = 0]
    unfolding quiet by (auto simp: edge_client_def)
qed

end
