(* ===== verification/Middleware_Facts.thy ===== *)
theory Middleware_Facts
  imports Nesting
begin

text \<open>
  What the request layer guarantees: the loop around \<open>receive\<close> returns the concatenation of the chunks or stops
  within the bound, the application only ever sees a request that passed every check, and nothing but marked
  responses and fixed replies leaves the layer.
\<close>

subsection \<open>Buffering\<close>

fun message_body :: "message \<Rightarrow> string" where
  "message_body (Chunk b cont) = chunk_body b"
| "message_body Disconnect = []"

lemma read_body_complete:
  "read_body cap acc ms = Complete body rest \<Longrightarrow>
   \<exists>pre. ms = pre @ rest \<and> body = acc @ concat (map message_body pre) \<and> Disconnect \<notin> set pre \<and> int (length body) \<le> cap"
proof (induction cap acc ms rule: read_body.induct)
  case (3 cap acc b cont ms)
  let ?chunk = "chunk_body b"
  have fits: "int (length acc + length ?chunk) \<le> cap"
    using 3(2) by (auto simp: Let_def split: if_splits)
  show ?case
  proof (cases "chunk_more cont")
    case True
    then obtain pre where "ms = pre @ rest" "body = (acc @ ?chunk) @ concat (map message_body pre)"
        "Disconnect \<notin> set pre" "int (length body) \<le> cap"
      using 3 fits by auto
    then show ?thesis by (intro exI [of _ "Chunk b cont # pre"]) auto
  next
    case False
    then show ?thesis using 3(2) fits by (intro exI [of _ "[Chunk b cont]"]) auto
  qed
qed simp_all

lemma read_body_chunks:
  assumes "int (length acc + length (concat bs) + length b) \<le> cap"
  shows "read_body cap acc (map (\<lambda>b. Chunk (Some b) (Some True)) bs @ Chunk (Some b) cont # rest) =
    (if chunk_more cont then read_body cap (acc @ concat bs @ b) rest else Complete (acc @ concat bs @ b) rest)"
  using assms by (induction bs arbitrary: acc) simp_all

lemma read_body_too_large:
  assumes "cap < int (length acc + length (concat (map message_body pre)))" "int (length acc) \<le> cap"
    and "list_all (\<lambda>m. case m of Disconnect \<Rightarrow> False | Chunk b cont \<Rightarrow> chunk_more cont) (butlast pre)"
    and "Disconnect \<notin> set pre"
  shows "read_body cap acc (pre @ rest) = Too_Large"
  using assms
proof (induction pre arbitrary: acc)
  case (Cons m pre)
  then obtain b cont where "m = Chunk b cont" by (cases m) auto
  with Cons show ?case by (cases pre) (auto simp: Let_def)
qed simp

subsection \<open>What leaves the layer\<close>

definition marked :: "string \<Rightarrow> sent \<Rightarrow> bool" where
  "marked request_id m =
     (case m of Start status hs \<Rightarrow> (\<exists>hs'. hs = hs' @ security_headers request_id) | Payload body cont \<Rightarrow> True)"

lemma marked_safe_send: "marked request_id (safe_send request_id m)"
  by (cases m) (auto simp: marked_def)

lemma marked_reject: "list_all (marked request_id) (reject render request_id status error_code)"
  by (auto simp: reject_def Let_def split_def marked_def)

lemma marked_map: "list_all (marked request_id) (map (safe_send request_id) ms)"
  by (simp add: list_all_iff marked_safe_send)

lemma forward_marked: "list_all (marked request_id) (fst (forward render app request_id sc body ms))"
  by (auto simp: forward_def Let_def split_def marked_map marked_reject)

lemma forward_ending: "snd (forward render app request_id sc body ms) \<in> {Returned, Response_Failed}"
  by (auto simp: forward_def Let_def split_def)

subsection \<open>The gate\<close>

definition REJECTIONS :: "(nat \<times> string) set" where
  "REJECTIONS = {(429, ''rate_limited''), (415, ''unsupported_encoding''), (415, ''application_json_required''),
     (413, ''payload_too_large''), (422, ''json_too_deep'')}"

lemma header_check_codes: "header_check sc = Some r \<Longrightarrow> r \<in> REJECTIONS"
  by (auto simp: header_check_def REJECTIONS_def split: if_splits)

definition passes :: "settings \<Rightarrow> scope \<Rightarrow> message list \<Rightarrow> string \<Rightarrow> message list \<Rightarrow> bool" where
  "passes cfg sc ms body rest \<longleftrightarrow> header_check sc = None \<and>
     read_body (cf_max_body_bytes cfg) [] ms = Complete body rest \<and> shallow 0 False False body"

definition gate_admits :: "scope \<Rightarrow> pyfloat \<Rightarrow> limiter \<Rightarrow> bool" where
  "gate_admits sc clock l \<longleftrightarrow> exempt sc \<or> snd (allow l ''all'' clock)"

lemma middleware_http:
  assumes "sc_type sc = ''http''"
  shows "fst (safety_middleware render app cfg request_id clock sc ms l) =
    (if \<not> gate_admits sc clock l then (reject render request_id 429 ''rate_limited'', Returned)
     else case header_check sc of
       Some (status, error_code) \<Rightarrow> (reject render request_id status error_code, Returned)
     | None \<Rightarrow>
         (case read_body (cf_max_body_bytes cfg) [] ms of
            Too_Large \<Rightarrow> (reject render request_id 413 ''payload_too_large'', Returned)
          | Gone \<Rightarrow> ([], Returned)
          | Awaiting \<Rightarrow> ([], Waiting)
          | Complete body rest \<Rightarrow>
              if \<not> shallow 0 False False body then (reject render request_id 422 ''json_too_deep'', Returned)
              else forward render app request_id sc body rest))"
  using assms
  by (auto simp: safety_middleware_def gate_admits_def split_def Let_def split: option.split buffered.split)

lemma middleware_forwards:
  assumes "sc_type sc = ''http''" "gate_admits sc clock l" "passes cfg sc ms body rest"
  shows "fst (safety_middleware render app cfg request_id clock sc ms l) = forward render app request_id sc body rest"
  using assms by (simp add: middleware_http passes_def)

text \<open>How the layer ends a request without the application: silently, still waiting, or with a fixed reply.\<close>

definition refused :: "(json \<Rightarrow> headers \<times> string) \<Rightarrow> string \<Rightarrow> sent list \<times> ending \<Rightarrow> bool" where
  "refused render request_id r \<longleftrightarrow> r = ([], Returned) \<or> r = ([], Waiting) \<or>
     (\<exists>(status, error_code) \<in> REJECTIONS. r = (reject render request_id status error_code, Returned))"

lemma refused_reject:
  "(status, error_code) \<in> REJECTIONS \<Longrightarrow> refused render request_id (reject render request_id status error_code, Returned)"
  by (auto simp: refused_def)

lemma fixed_rejections:
  "(429, ''rate_limited'') \<in> REJECTIONS" "(413, ''payload_too_large'') \<in> REJECTIONS" "(422, ''json_too_deep'') \<in> REJECTIONS"
  by (simp_all add: REJECTIONS_def)

lemma middleware_stops:
  assumes "sc_type sc = ''http''" "\<not> (gate_admits sc clock l \<and> (\<exists>body rest. passes cfg sc ms body rest))"
  shows "refused render request_id (fst (safety_middleware render app cfg request_id clock sc ms l))"
proof (cases "gate_admits sc clock l \<and> header_check sc = None")
  case False
  then show ?thesis
    unfolding middleware_http [OF assms(1)]
    by (auto simp: fixed_rejections refused_reject dest: header_check_codes split: option.split)
next
  case True
  have deep: "\<not> shallow 0 False False body" if "read_body (cf_max_body_bytes cfg) [] ms = Complete body rest" for body rest
    using assms(2) True that by (auto simp: passes_def)
  show ?thesis
    unfolding middleware_http [OF assms(1)] using True deep
    by (cases "read_body (cf_max_body_bytes cfg) [] ms") (simp_all add: refused_reject fixed_rejections, simp_all add: refused_def)
qed

lemma middleware_marked:
  assumes "sc_type sc = ''http''"
  shows "list_all (marked request_id) (fst (fst (safety_middleware render app cfg request_id clock sc ms l)))"
    and "snd (fst (safety_middleware render app cfg request_id clock sc ms l)) \<noteq> Propagated"
proof -
  let ?r = "fst (safety_middleware render app cfg request_id clock sc ms l)"
  have "list_all (marked request_id) (fst ?r) \<and> snd ?r \<noteq> Propagated"
  proof (cases "gate_admits sc clock l \<and> (\<exists>body rest. passes cfg sc ms body rest)")
    case True
    then obtain body rest where "passes cfg sc ms body rest" "gate_admits sc clock l" by blast
    from middleware_forwards [OF assms this(2,1)] show ?thesis
      using forward_marked forward_ending by (metis ending.distinct(5,11) insertE singletonD)
  next
    case False
    from middleware_stops [OF assms this, of render request_id app] show ?thesis by (auto simp: refused_def marked_reject)
  qed
  then show "list_all (marked request_id) (fst ?r)" and "snd ?r \<noteq> Propagated" by simp_all
qed

subsection \<open>Well-formed requests get through\<close>

definition json_post :: "scope \<Rightarrow> bool" where
  "json_post sc \<longleftrightarrow> sc_type sc = ''http'' \<and> sc_method sc = ''POST'' \<and>
     header_or (sc_headers sc) ''content-type'' [] = ''application/json'' \<and>
     header_or (sc_headers sc) ''content-encoding'' ''identity'' = ''identity''"

lemma json_post_check: "json_post sc \<Longrightarrow> header_check sc = None"
  by (simp add: json_post_def header_check_def)

lemma json_post_forwarded:
  assumes "json_post sc" "gate_admits sc clock l" "float_plain R" "nesting v \<le> 12"
    and "concat bs @ b = dumps R v" "int (length (dumps R v)) \<le> cf_max_body_bytes cfg" "\<not> chunk_more cont"
  shows "fst (safety_middleware render app cfg request_id clock sc
      (map (\<lambda>b. Chunk (Some b) (Some True)) bs @ Chunk (Some b) cont # rest) l) =
    forward render app request_id sc (dumps R v) rest"
proof (rule middleware_forwards [OF _ assms(2)])
  show "sc_type sc = ''http''" using assms(1) by (simp add: json_post_def)
  have "length (concat bs) + length b = length (dumps R v)" using assms(5) by (metis length_append)
  with read_body_chunks [of "[]" bs b "cf_max_body_bytes cfg" cont rest] assms(5-7)
  have "read_body (cf_max_body_bytes cfg) [] (map (\<lambda>b. Chunk (Some b) (Some True)) bs @ Chunk (Some b) cont # rest) =
      Complete (dumps R v) rest"
    by simp
  then show "passes cfg sc (map (\<lambda>b. Chunk (Some b) (Some True)) bs @ Chunk (Some b) cont # rest) (dumps R v) rest"
    using json_post_check [OF assms(1)] shallow_dumps [OF assms(3), of v] assms(4) by (simp add: passes_def)
qed

end
