(* ===== verification/Edge.thy ===== *)
theory Edge
  imports Demo_Edge Middleware_Facts
begin

text \<open>
  The properties of the edge: the request layer in front of the service and the Python SDK that feeds it.
\<close>

section \<open>The request layer\<close>

definition edge_scope :: scope where
  "edge_scope = \<lparr>sc_type = ''http'', sc_method = ''POST'', sc_path = ''/v1/events'',
     sc_headers = [(''content-type'', ''application/json'')]\<rparr>"

lemma edge_scope_ok: "sc_type edge_scope = ''http''" "json_post edge_scope" "header_check edge_scope = None"
  by (simp_all add: edge_scope_def json_post_def header_or_def header_check_def)

definition edge_limiter :: limiter where "edge_limiter = new_limiter 60 1 4096"
definition edge_render :: "json \<Rightarrow> headers \<times> string" where "edge_render v = ([], [])"
definition edge_app :: application where "edge_app sc ms = ([Start 200 []], True)"
definition edge_post :: "message list" where "edge_post = [Chunk (Some ''{}'') None]"

lemma edge_gate: "gate_admits edge_scope 0 edge_limiter"
  by (simp add: gate_admits_def allow_def edge_limiter_def new_limiter_def bucket_at_def Let_def)

definition emit_all :: "runtime \<Rightarrow> json list \<Rightarrow> client \<Rightarrow> client" where
  "emit_all R vs c = fold (\<lambda>v c. snd (emit R v c)) vs c"

lemma emit_all_ok:
  "client_ok c \<Longrightarrow> (\<And>ms. JObj ms \<in> set vs \<Longrightarrow> dict_ok ms) \<Longrightarrow> client_ok (emit_all R vs c)"
proof (induction vs arbitrary: c)
  case (Cons v vs)
  have "client_ok (snd (emit R v c))" by (rule emit_ok [OF Cons.prems(1)]) (use Cons.prems(2) in auto)
  from Cons.IH [OF this] Cons.prems(2) show ?case by (simp add: emit_all_def)
qed (simp add: emit_all_def)

lemma new_client_ok: "new_client api_key timeout retries capacity mode = Some c \<Longrightarrow> client_ok c"
  by (auto simp: new_client_def client_ok_def split: json.splits if_splits)

definition queued_client :: client where
  "queued_client = edge_client\<lparr>cl_queue := [edge_event], cl_enqueued := 1\<rparr>"

lemma emitted: "emit_all edge_runtime [JObj edge_event] edge_client = queued_client"
  by (simp add: emit_all_def emit_def edge_validated queued_client_def edge_client_def)



text \<open>
  Whatever the application does, every response of an HTTP request that leaves the layer starts with the request
  identifier and the security headers appended, and no exception of the application ever propagates.
\<close>

theorem responses_marked:
  assumes "sc_type sc = ''http''"
  shows "list_all (marked request_id) (fst (fst (safety_middleware render app cfg request_id clock sc ms l))) \<and>
    snd (fst (safety_middleware render app cfg request_id clock sc ms l)) \<noteq> Propagated"
  using middleware_marked [OF assms] by blast

theorem responses_marked_witness:
  "list_all (marked ''id'')
      (fst (fst (safety_middleware edge_render edge_app demo_settings ''id'' 0 edge_scope edge_post edge_limiter))) \<and>
    snd (fst (safety_middleware edge_render edge_app demo_settings ''id'' 0 edge_scope edge_post edge_limiter)) \<noteq> Propagated"
  by (rule responses_marked [OF edge_scope_ok(1)])

text \<open>
  A JSON request within the documented limits always gets through, however the transport cuts it into chunks: a
  value of nesting at most twelve whose text fits the cap reaches the application as exactly that text.  The scan of the
  raw bytes is therefore exact on JSON: brackets inside strings, escaped quotes and backslashes never mislead it.
\<close>

theorem request_forwarded:
  assumes "json_post sc" "gate_admits sc clock l" "float_plain R"
    and "nesting v \<le> 12" "int (length (dumps R v)) \<le> cf_max_body_bytes cfg" "concat bs @ b = dumps R v"
  shows "fst (safety_middleware render app cfg request_id clock sc
      (map (\<lambda>b. Chunk (Some b) (Some True)) bs @ [Chunk (Some b) (Some False)]) l) =
    forward render app request_id sc (dumps R v) []"
  by (rule json_post_forwarded [OF assms(1-4,6,5)]) simp

theorem request_forwarded_witness:
  "fst (safety_middleware edge_render edge_app demo_settings ''id'' 0 edge_scope
      (map (\<lambda>b. Chunk (Some b) (Some True)) [''{''] @ [Chunk (Some ''}'') (Some False)]) edge_limiter) =
    forward edge_render edge_app ''id'' edge_scope (dumps edge_runtime (JObj [])) []"
  by (rule request_forwarded [OF edge_scope_ok(2) edge_gate edge_floats(1)])
    (simp_all add: demo_settings_def default_settings_def)

section \<open>The Python SDK\<close>

text \<open>
  The two validators agree: an event that the SDK has validated is a fixed point of that validation, and the
  server's strict validation accepts it with the same identifier and the same instant.
\<close>

theorem sdk_event_accepted:
  assumes "validate_event R v = Some ms" "iso_inverse R"
  shows "validate_event R (JObj ms) = Some ms \<and>
    (\<exists>e. event_of_json R (JObj ms) = Some e \<and> map_of ms ''event_id'' = Some (JStr (ev_event_id e)) \<and>
       map_of ms ''timestamp'' = Some (JStr (isoformat (ev_timestamp e))))"
  using sdk_valid_fixed [OF validate_event_valid [OF assms(1)] assms(2)] validate_event_accepted [OF assms] by blast

theorem sdk_event_accepted_witness:
  "validate_event edge_runtime (JObj edge_event) = Some edge_event \<and>
    (\<exists>e. event_of_json edge_runtime (JObj edge_event) = Some e \<and> map_of edge_event ''event_id'' = Some (JStr (ev_event_id e)) \<and>
       map_of edge_event ''timestamp'' = Some (JStr (isoformat (ev_timestamp e))))"
  by (rule sdk_event_accepted [OF edge_validated edge_iso])



text \<open>
  Retries are bounded and identical: one request is sent at most once more than the retry limit, always with the
  same bytes, again only after a 429 or a 503, and the retry counter is exactly the number of repetitions.
\<close>

theorem retry_discipline:
  assumes "send_request loads (logged answer) left p l = (r, k, l')"
  shows "\<exists>rs. l' = l @ map (Pair p) rs \<and> length rs = Suc k \<and> k \<le> left \<and> set (butlast rs) \<subseteq> {Status 429, Status 503}"
  by (rule send_request_logged [OF assms])

theorem retry_discipline_witness:
  "\<exists>rs. replicate 3 (''x'', Status 503) = [] @ map (Pair ''x'') rs \<and> length rs = Suc 2 \<and> (2::nat) \<le> 2 \<and>
    set (butlast rs) \<subseteq> {Status 429, Status 503}"
proof -
  have "send_request (\<lambda>_. None) (logged (\<lambda>l p. Status 503)) 2 ''x'' [] =
      (Inl (Delivery_Error (''request failed with HTTP '' @ show_nat 503)), 2, replicate 3 (''x'', Status 503))"
    by (simp add: send_request.simps logged_def numeral_eq_Suc)
  then show ?thesis by (rule retry_discipline)
qed

text \<open>
  C28.  What the client sends, the server takes: for any client, any sequence of emitted values and any behaviour of
  the server, every request body of a flush fits the server's size limit, passes the nesting scan, and holds a batch
  that the server's validation accepts.
\<close>

theorem flush_requests_acceptable:
  assumes "new_client api_key timeout retries capacity mode = Some c0" "\<And>ms. JObj ms \<in> set vs \<Longrightarrow> dict_ok ms"
    and "flush R loads (logged answer) (emit_all R vs c0) [] = (r, c', l)"
    and "short_floats R" "float_plain R" "iso_inverse R" "x \<in> set l"
  shows "acceptable R (fst x)"
proof -
  have "client_ok (emit_all R vs c0)" by (rule emit_all_ok [OF new_client_ok [OF assms(1)] assms(2)])
  then have "\<And>ms. ms \<in> set (cl_queue (emit_all R vs c0)) \<Longrightarrow> queued_ok ms" by (simp add: client_ok_def list_all_iff)
  from flush_acceptable [OF assms(3) this assms(4-7)] show ?thesis .
qed

theorem flush_requests_acceptable_witness:
  "acceptable edge_runtime (fst (dumps edge_runtime (batch_json [edge_event]), Broken))"
proof (rule flush_requests_acceptable [OF edge_new_client _ _ edge_floats(2,1) edge_iso])
  show "dict_ok ms" if "JObj ms \<in> set [JObj edge_event]" for ms using that edge_event_dict by simp
  show "flush edge_runtime (\<lambda>_. None) (logged (\<lambda>l p. Broken)) (emit_all edge_runtime [JObj edge_event] edge_client) [] =
      (Inr 0, edge_client\<lparr>cl_enqueued := 1, cl_dropped := 1, cl_failed_batches := 1\<rparr>,
       [(dumps edge_runtime (batch_json [edge_event]), Broken)])"
    unfolding emitted
    by (simp add: flush_def flush_loop.simps next_batch_def BATCH_EVENTS_def queued_client_def edge_client_def
        deliver_def drop_events_def send_request.simps logged_def Let_def)
qed simp

end
