(* ===== verification/Gateway.thy ===== *)
theory Gateway
  imports Api_Flows Middleware_Facts Sdk_Client_Facts "HOL-Library.Sublist"
begin

text \<open>
  The composition of the program's parts on the way of an event: the SDK's request passes the request layer, the endpoint
  parses it, the handler runs one transaction of detection on the store, and the reply goes back to the SDK.  The transport
  may cut a body into chunks, break off, and lose replies.
\<close>

subsection \<open>The endpoint\<close>

text \<open>
  The surroundings of the service.  \<open>we_loads\<close> is \<open>json.loads\<close>, \<open>we_render\<close> is \<open>JSONResponse\<close>; clocks and identifiers are
  those of the \<open>k\<close>-th request, \<open>we_cut\<close> is what its body becomes on the way, and \<open>we_lost\<close> says whether its reply is lost.
\<close>

record wire_env =
  we_runtime :: runtime
  we_loads :: "string \<Rightarrow> json option"
  we_size :: "det_state \<Rightarrow> nat"
  we_encode :: "tenant_state \<Rightarrow> string option"
  we_settings :: settings
  we_render :: "json \<Rightarrow> headers \<times> string"
  we_clock :: "nat \<Rightarrow> pyfloat"
  we_now :: "nat \<Rightarrow> int"
  we_request_id :: "nat \<Rightarrow> string"
  we_cut :: "nat \<Rightarrow> string \<Rightarrow> message list"
  we_lost :: "nat \<Rightarrow> bool"

record http_reply =
  hr_status :: nat
  hr_headers :: headers
  hr_json :: json

text \<open>The handlers of exceptions; \<open>None\<close> is an exception that leaves the application.\<close>

definition error_reply :: "api_error \<Rightarrow> http_reply option" where
  "error_reply e =
     (if e = unavailable then None
      else case e of HTTP status public_code \<Rightarrow>
        Some \<lparr>hr_status = status,
              hr_headers = (if public_code = ''rate_limited'' then [(''retry-after'', ''60'')]
                            else if public_code = ''daily_event_quota'' then [(''retry-after'', ''3600'')] else []),
              hr_json = JObj [(''error'', JStr public_code)]\<rparr>)"

definition invalid_request :: http_reply where
  "invalid_request =
     \<lparr>hr_status = 422, hr_headers = [],
      hr_json = JObj [(''error'', JStr ''invalid_request''), (''schema'', JStr ''/openapi.json'')]\<rparr>"

definition ingest_receipt :: "metrics \<Rightarrow> json" where
  "ingest_receipt m = JObj
     [(''schema_version'', JStr ''1.0''), (''accepted'', JInt (int (mt_accepted m))), (''duplicates'', JInt (int (mt_duplicates m)))]"

text \<open>
  \<open>POST /v1/events\<close>.  The framework rejects a body that is no JSON at once, and one that is no batch of events after the
  dependencies of the endpoint were resolved.
\<close>

definition ingest_endpoint :: "wire_env \<Rightarrow> nat \<Rightarrow> string option \<Rightarrow> string \<Rightarrow> service \<Rightarrow> http_reply option \<times> service" where
  "ingest_endpoint X k header body svc =
     (case we_loads X body of
        None \<Rightarrow> (Some invalid_request, svc)
      | Some v \<Rightarrow>
          (case batch_of_json (we_runtime X) v of
             None \<Rightarrow>
               (case require (we_runtime X) ''ingest'' header (we_clock X k) svc of
                  (Inl e, svc1) \<Rightarrow> (error_reply e, svc1)
                | (Inr p, svc1) \<Rightarrow> (Some invalid_request, svc1))
           | Some es \<Rightarrow>
               (case ingest_handler (we_runtime X) (we_size X) (we_encode X) (we_settings X) header es (we_clock X k) (we_now X k) svc of
                  (Inl e, svc1) \<Rightarrow> (error_reply e, svc1)
                | (Inr m, svc1) \<Rightarrow> (Some \<lparr>hr_status = 200, hr_headers = [], hr_json = ingest_receipt m\<rparr>, svc1))))"

text \<open>The endpoint as the application behind the request layer, which hands over the whole body in one message.\<close>

definition authorization :: "scope \<Rightarrow> string option" where
  "authorization sc = map_of (sc_headers sc) ''authorization''"

definition events_application :: "wire_env \<Rightarrow> nat \<Rightarrow> service \<Rightarrow> application" where
  "events_application X k svc sc ms =
     (case ms of
        Chunk (Some body) cont # rest \<Rightarrow>
          (case fst (ingest_endpoint X k (authorization sc) body svc) of
             None \<Rightarrow> ([], True)
           | Some r \<Rightarrow>
               (let (hs, text1) = we_render X (hr_json r)
                in ([Start (hr_status r) (hs @ hr_headers r), Payload text1 False], False)))
      | _ \<Rightarrow> ([], True))"

subsection \<open>One exchange\<close>

text \<open>The body that passes the request layer.\<close>

definition arrival :: "settings \<Rightarrow> pyfloat \<Rightarrow> scope \<Rightarrow> message list \<Rightarrow> limiter \<Rightarrow> string option" where
  "arrival cfg clock sc ms l =
     (if \<not> gate_admits sc clock l \<or> header_check sc \<noteq> None then None
      else case read_body (cf_max_body_bytes cfg) [] ms of
        Complete body rest \<Rightarrow> if shallow 0 False False body then Some body else None
      | _ \<Rightarrow> None)"

text \<open>What the SDK sends, and what it makes of the messages that come back.\<close>

definition sdk_scope :: "string \<Rightarrow> scope" where
  "sdk_scope key =
     \<lparr>sc_type = ''http'', sc_method = ''POST'', sc_path = ''/v1/events'',
      sc_headers = [(''authorization'', ''Bearer '' @ key), (''accept'', ''application/json''),
        (''user-agent'', ''reliamesh-sdk/0.1.0''), (''content-type'', ''application/json'')]\<rparr>"

definition response_of_sent :: "sent list \<Rightarrow> response" where
  "response_of_sent out =
     (case out of
        Start status hs # Payload body cont # rest \<Rightarrow> if 200 \<le> status \<and> status < 300 then Reply body else Status status
      | _ \<Rightarrow> Broken)"

record gateway =
  gw_service :: service
  gw_limiter :: limiter
  gw_turn :: nat

definition gateway_step :: "wire_env \<Rightarrow> string \<Rightarrow> gateway \<Rightarrow> string \<Rightarrow> response \<times> gateway" where
  "gateway_step X key g payload =
     (let k = gw_turn g; sc = sdk_scope key; ms = we_cut X k payload;
          (r, l) = safety_middleware (we_render X) (events_application X k (gw_service g)) (we_settings X) (we_request_id X k)
                     (we_clock X k) sc ms (gw_limiter g);
          svc = (case arrival (we_settings X) (we_clock X k) sc ms (gw_limiter g) of
                   None \<Rightarrow> gw_service g
                 | Some body \<Rightarrow> snd (ingest_endpoint X k (authorization sc) body (gw_service g)))
      in (if we_lost X k then Broken else response_of_sent (fst r),
          \<lparr>gw_service = svc, gw_limiter = l, gw_turn = k + 1\<rparr>))"

subsection \<open>What the tenant's state has counted\<close>

definition counted_events :: "tenant_state \<Rightarrow> int" where
  "counted_events state = ds_accepted (base_state state) + ds_duplicates (base_state state)"

definition recorded_in :: "string \<Rightarrow> tenant_db \<Rightarrow> int" where
  "recorded_in t db = (case sp_state (spec_of db) t of None \<Rightarrow> 0 | Some (state, expires) \<Rightarrow> counted_events state)"

definition recorded_events :: "string \<Rightarrow> gateway \<Rightarrow> int" where
  "recorded_events t g = recorded_in t (svc_db (gw_service g))"

text \<open>
  The key belongs to the tenant, if to any; the state of the tenant does not expire on the way, and neither does one that is
  written on the way; what arrives completely is what was sent.  On an unhindered way no reply is lost, and the client reads
  the receipts.
\<close>

definition unexpired :: "wire_env \<Rightarrow> string \<Rightarrow> tenant_db \<Rightarrow> bool" where
  "unexpired X t db \<longleftrightarrow> (\<forall>state expires. sp_state (spec_of db) t = Some (state, expires) \<longrightarrow> state \<noteq> None \<longrightarrow> (\<forall>j. we_now X j < expires))"

definition wired :: "wire_env \<Rightarrow> string \<Rightarrow> string \<Rightarrow> gateway \<Rightarrow> bool" where
  "wired X key t g \<longleftrightarrow>
     db_ok (svc_db (gw_service g)) \<and>
     key_holder (svc_db (gw_service g)) (digest_key (we_runtime X) key) \<in> {None, Some t} \<and>
     unexpired X t (svc_db (gw_service g))"

definition timely :: "wire_env \<Rightarrow> bool" where
  "timely X \<longleftrightarrow> (\<forall>j k. we_now X j < we_now X k + RETENTION_US)"

definition faithful_cut :: "wire_env \<Rightarrow> bool" where
  "faithful_cut X \<longleftrightarrow> (\<forall>k p body rest. read_body (cf_max_body_bytes (we_settings X)) [] (we_cut X k p) = Complete body rest \<longrightarrow> body = p)"

definition unhindered :: "wire_env \<Rightarrow> (string \<Rightarrow> json option) \<Rightarrow> bool" where
  "unhindered X loads \<longleftrightarrow> (\<forall>k. \<not> we_lost X k) \<and>
     (\<forall>m. mt_accepted m + mt_duplicates m \<le> 100 \<longrightarrow> read_reply loads (snd (we_render X (ingest_receipt m))) = Inr (ingest_receipt m))"

definition undisturbed :: "string \<Rightarrow> gateway \<Rightarrow> gateway \<Rightarrow> bool" where
  "undisturbed t g g' \<longleftrightarrow>
     (let sp = spec_of (svc_db (gw_service g)); sp' = spec_of (svc_db (gw_service g'))
      in sp_tenants sp' = sp_tenants sp \<and> sp_keys sp' = sp_keys sp \<and> (\<forall>t'. t' \<noteq> t \<longrightarrow> sp_state sp' t' = sp_state sp t'))"

subsection \<open>The effect of an exchange\<close>

definition success :: "nat \<Rightarrow> bool" where
  "success status \<longleftrightarrow> 200 \<le> status \<and> status < 300"

lemma store_reply_status: "store_reply e = HTTP status public_code \<Longrightarrow> \<not> success status"
  by (cases e rule: store_reply.cases) (auto simp: success_def unavailable_def elim: detection_reply.elims)

lemma require_status: "require R scope header clock svc = (Inl (HTTP status public_code), svc1) \<Longrightarrow> \<not> success status"
  by (auto simp: require_def bearer_def Let_def authenticate_def rbind_Inl_iff dest: store_reply_status
      split: sum.splits option.splits if_splits prod.splits) (simp_all add: success_def)

lemma ingest_status: "ingest_handler R size_of encode cfg header es clock now svc = (Inl (HTTP status public_code), svc1) \<Longrightarrow> \<not> success status"
  by (auto simp: ingest_handler_def with_principal_def store_result_def map_sum_def split: sum.splits prod.splits
      dest: require_status store_reply_status)

lemma ingest_db_ok:
  assumes "ingest_handler R size_of encode cfg header es clock now svc = (r, svc')" "db_ok (svc_db svc)"
  shows "db_ok (svc_db svc')"
  using assms(1) unfolding ingest_handler_def
proof (cases rule: with_principal_cases)
  case (admitted p svc1 db)
  from bound_step_ok [OF transact_step(1) [OF admitted(3)] assms(2)] admitted(4) show ?thesis by simp
qed (simp add: assms(2))

lemma batch_of_json_length: "batch_of_json R (batch_json b) = Some es \<Longrightarrow> length es = length b"
  by (auto simp: batch_of_json_def batch_json_def field_def those_Some split: if_splits option.splits dest!: arg_cong [of _ _ length])

lemma batch_of_json_bound: "batch_of_json R (batch_json b) = Some es \<Longrightarrow> length b \<le> 100"
  by (auto simp: batch_of_json_def batch_json_def field_def split: if_splits)

lemma key_holder_spec: "key_holder db h = map_option fst (sp_keys (spec_of db) h)"
  by (cases "find_key db h") (simp_all add: key_holder_def)

lemma ingest_counts:
  assumes i: "ingest_handler R (we_size X) (we_encode X) cfg (Some (''Bearer '' @ key)) es clock (we_now X k) svc = (Inr m, svc')"
    and ok: "db_ok (svc_db svc)" "key_holder (svc_db svc) (digest_key R key) \<in> {None, Some t}" "unexpired X t (svc_db svc)" "timely X"
  shows "recorded_in t (svc_db svc') = recorded_in t (svc_db svc) + int (length es) \<and>
    mt_accepted m + mt_duplicates m = length es \<and> unexpired X t (svc_db svc') \<and>
    sp_tenants (spec_of (svc_db svc')) = sp_tenants (spec_of (svc_db svc)) \<and> sp_keys (spec_of (svc_db svc')) = sp_keys (spec_of (svc_db svc)) \<and>
    (\<forall>t'. t' \<noteq> t \<longrightarrow> sp_state (spec_of (svc_db svc')) t' = sp_state (spec_of (svc_db svc)) t')"
  using i
proof (rule ingest_elim)
  fix p svc1
  let ?db = "svc_db svc" and ?now = "we_now X k"
  assume req: "require R ''ingest'' (Some (''Bearer '' @ key)) clock svc = (Inr p, svc1)"
    and tr: "transact None (we_encode X) ?now (pr_tenant p) (ingest_update R (we_size X) cfg es ?now) (Some (pr_key_hash p)) ?db =
      (Inr m :: update_error store_error + metrics, svc_db svc')"
  have "pr_key_hash p = digest_key R key" by (rule require_elim [OF req]) (simp, drule sym, simp)
  with require_holder(1) [OF req ok(1)] ok(2) have t: "pr_tenant p = t" by auto
  obtain state' where f: "ingest_update R (we_size X) cfg es ?now (spec_state None ?now (spec_of ?db) t) = Inr (state', m)"
    by (rule transact_elim [OF tr]) (simp add: t current_state_spec)
  obtain st where pe: "process_events R (we_size X) (spec_state None ?now (spec_of ?db) t) es (Aware ?now) = Inr (st, m)"
    and state': "state' = Some (st\<lparr>ds_usage := Some (day_of ?now, used_today ?now (spec_state None ?now (spec_of ?db) t) + int (mt_accepted m))\<rparr>)"
    by (rule ingest_update_elim [OF f]) blast
  have "counted_events (spec_state None ?now (spec_of ?db) t) = recorded_in t ?db"
    using ok(3) by (auto simp: recorded_in_def spec_state_def unexpired_def counted_events_def base_state_def empty_state_def split: option.splits)
  moreover have "counted_events state' = counted_events (spec_state None ?now (spec_of ?db) t) + int (length es)"
    using process_events_counts [OF pe] by (simp add: counted_events_def state' base_state_def)
  moreover have sp: "spec_of (svc_db svc') = (spec_of ?db)\<lparr>sp_state := (sp_state (spec_of ?db))(t \<mapsto> (state', ?now + RETENTION_US))\<rparr>"
    using transact_refines [OF tr] by (simp add: t f)
  moreover have "unexpired X t (svc_db svc')" using ok(4) by (auto simp: unexpired_def sp timely_def)
  ultimately show ?thesis using process_events_counts(1) [OF pe] by (simp add: recorded_in_def)
qed

text \<open>An exchange in which the service recorded \<open>n\<close> events of the tenant and did nothing else.\<close>

definition exchanged :: "wire_env \<Rightarrow> string \<Rightarrow> string \<Rightarrow> gateway \<Rightarrow> gateway \<Rightarrow> int \<Rightarrow> bool" where
  "exchanged X key t g g' n \<longleftrightarrow> wired X key t g' \<and> undisturbed t g g' \<and> recorded_events t g' = recorded_events t g + n"

lemma exchanged_same: "wired X key t g \<Longrightarrow> svc_db (gw_service g') = svc_db (gw_service g) \<Longrightarrow> exchanged X key t g g' 0"
  by (simp add: exchanged_def wired_def undisturbed_def recorded_events_def)

lemma exchanged_trans: "exchanged X key t g g1 m \<Longrightarrow> exchanged X key t g1 g2 n \<Longrightarrow> exchanged X key t g g2 (m + n)"
  by (simp add: exchanged_def undisturbed_def Let_def)

lemma error_reply_status: "error_reply (HTTP status public_code) = Some x \<Longrightarrow> hr_status x = status"
  by (auto simp: error_reply_def split: if_splits)

lemma endpoint_effect:
  assumes e: "ingest_endpoint X k (Some (''Bearer '' @ key)) p (gw_service g) = (r, svc')"
    and g: "wired X key t g" "timely X" "we_loads X p = Some (batch_json b)" "gw_service g' = svc'"
  shows "exchanged X key t g g' 0 \<and> (\<forall>x. r = Some x \<longrightarrow> \<not> success (hr_status x)) \<or>
    exchanged X key t g g' (int (length b)) \<and> (\<exists>x m. r = Some x \<and> hr_status x = 200 \<and> hr_json x = ingest_receipt m \<and>
      mt_accepted m + mt_duplicates m = length b \<and> length b \<le> 100)"
proof (cases "batch_of_json (we_runtime X) (batch_json b)")
  case None
  obtain q svc1 where q: "require (we_runtime X) ''ingest'' (Some (''Bearer '' @ key)) (we_clock X k) (gw_service g) = (q, svc1)" by fastforce
  show ?thesis
  proof (cases q)
    case (Inl x)
    obtain status public_code where x: "x = HTTP status public_code" by (cases x)
    have "svc1 = gw_service g" using require_error q Inl by blast
    with e g None q Inl require_status [OF q [unfolded Inl x]] show ?thesis
      by (auto simp: ingest_endpoint_def x dest: error_reply_status intro!: exchanged_same)
  next
    case (Inr pr)
    have "svc_db svc1 = svc_db (gw_service g)" by (rule require_elim [OF q [unfolded Inr]])
    with e g None q Inr show ?thesis
      by (auto simp: ingest_endpoint_def invalid_request_def success_def intro!: exchanged_same)
  qed
next
  case (Some es)
  obtain q svc1 where q: "ingest_handler (we_runtime X) (we_size X) (we_encode X) (we_settings X) (Some (''Bearer '' @ key)) es (we_clock X k)
      (we_now X k) (gw_service g) = (q, svc1)" by fastforce
  have svc: "svc1 = svc'" using e g(3) Some q by (auto simp: ingest_endpoint_def split: sum.splits)
  show ?thesis
  proof (cases q)
    case (Inl x)
    obtain status public_code where x: "x = HTTP status public_code" by (cases x)
    have "svc_db svc1 = svc_db (gw_service g)" by (rule ingest_rollback [OF q [unfolded Inl]])
    with e g Some q Inl ingest_status [OF q [unfolded Inl x]] show ?thesis
      by (auto simp: ingest_endpoint_def x dest: error_reply_status intro!: exchanged_same)
  next
    case (Inr m)
    have "db_ok (svc_db svc')" using ingest_db_ok [OF q] g(1) by (simp add: wired_def svc)
    with ingest_counts [OF q [unfolded Inr], of t] g batch_of_json_length [OF Some]
    have "exchanged X key t g g' (int (length b)) \<and> mt_accepted m + mt_duplicates m = length b"
      by (simp add: exchanged_def wired_def undisturbed_def recorded_events_def svc key_holder_spec Let_def)
    with e g(3) Some q Inr batch_of_json_bound [OF Some] show ?thesis by (auto simp: ingest_endpoint_def)
  qed
qed

lemma reject_response: "(status, public_code) \<in> REJECTIONS \<Longrightarrow> response_of_sent (reject render request_id status public_code) = Status status"
  by (auto simp: REJECTIONS_def reject_def response_of_sent_def split: prod.split)

lemma silent_response: "response_of_sent [] = Broken"
  by (simp add: response_of_sent_def)

lemma refused_response: "refused render request_id r \<Longrightarrow> response_of_sent (fst r) \<noteq> Reply body"
  by (auto simp: refused_def silent_response reject_response)

lemma arrival_Some: "arrival cfg clock sc ms l = Some body \<longleftrightarrow> gate_admits sc clock l \<and> (\<exists>rest. passes cfg sc ms body rest)"
  by (cases "header_check sc") (auto simp: arrival_def passes_def split: buffered.split)

definition receipt_read :: "(string \<Rightarrow> json option) \<Rightarrow> string \<Rightarrow> nat \<Rightarrow> bool" where
  "receipt_read loads body n \<longleftrightarrow> (\<exists>v. read_reply loads body = Inr v \<and> acknowledged n v)"

lemma receipt_acknowledged: "mt_accepted m + mt_duplicates m = n \<Longrightarrow> acknowledged n (ingest_receipt m)"
  by (simp add: acknowledged_def ingest_receipt_def)

lemma gateway_step_effect:
  assumes step: "gateway_step X key g p = (a, g')"
    and g: "wired X key t g" "timely X" "faithful_cut X" "we_loads X p = Some (batch_json b)"
  shows "exchanged X key t g g' 0 \<and> (\<forall>body. a \<noteq> Reply body) \<or>
    exchanged X key t g g' (int (length b)) \<and> (\<forall>st. a \<noteq> Status st) \<and>
    (\<forall>loads. unhindered X loads \<longrightarrow> (\<exists>body. a = Reply body \<and> receipt_read loads body (length b)))"
proof -
  let ?k = "gw_turn g" and ?sc = "sdk_scope key" and ?l = "gw_limiter g"
  let ?ms = "we_cut X ?k p" and ?app = "events_application X ?k (gw_service g)"
  let ?out = "fst (safety_middleware (we_render X) ?app (we_settings X) (we_request_id X ?k) (we_clock X ?k) ?sc ?ms ?l)"
  have http: "sc_type ?sc = ''http''" by (simp add: sdk_scope_def)
  have a: "a = (if we_lost X ?k then Broken else response_of_sent (fst ?out))"
    using step by (simp add: gateway_step_def Let_def split_def)
  show ?thesis
  proof (cases "arrival (we_settings X) (we_clock X ?k) ?sc ?ms ?l")
    case None
    then have "\<not> (gate_admits ?sc (we_clock X ?k) ?l \<and> (\<exists>body rest. passes (we_settings X) ?sc ?ms body rest))"
      using arrival_Some [of "we_settings X" "we_clock X ?k" ?sc ?ms ?l] by auto
    from middleware_stops [OF http this] have "refused (we_render X) (we_request_id X ?k) ?out" .
    then have "\<forall>body. a \<noteq> Reply body" using refused_response by (auto simp: a)
    moreover have "gw_service g' = gw_service g" using step None by (auto simp: gateway_step_def Let_def split_def)
    ultimately show ?thesis using exchanged_same [OF g(1)] by simp
  next
    case (Some body)
    then obtain rest where adm: "gate_admits ?sc (we_clock X ?k) ?l" and pass: "passes (we_settings X) ?sc ?ms body rest"
      by (auto simp: arrival_Some)
    have body: "body = p" using pass g(3) unfolding passes_def faithful_cut_def by blast
    have auth: "authorization ?sc = Some (''Bearer '' @ key)" by (simp add: authorization_def sdk_scope_def)
    obtain r svc' where e: "ingest_endpoint X ?k (authorization ?sc) p (gw_service g) = (r, svc')" by fastforce
    have svc: "gw_service g' = svc'" using step Some e by (auto simp: gateway_step_def Let_def split_def body)
    have app: "?app ?sc (Chunk (Some p) (Some False) # rest) =
        (case r of None \<Rightarrow> ([], True)
         | Some x \<Rightarrow> (let (hs, text1) = we_render X (hr_json x) in ([Start (hr_status x) (hs @ hr_headers x), Payload text1 False], False)))"
      by (simp only: events_application_def list.case message.case option.case e fst_conv)
    have out: "fst ?out = fst (forward (we_render X) ?app (we_request_id X ?k) ?sc p rest)"
      using middleware_forwards [OF http adm pass] by (simp add: body)
    have sent: "(\<exists>st. response_of_sent (fst ?out) = Status st \<and> (\<forall>x. r = Some x \<longrightarrow> \<not> success (hr_status x))) \<or>
        (\<exists>x. r = Some x \<and> success (hr_status x) \<and> response_of_sent (fst ?out) = Reply (snd (we_render X (hr_json x))))"
      unfolding out forward_def app
      by (cases r) (auto simp: response_of_sent_def reject_def success_def split_def Let_def)
    from endpoint_effect [OF e [unfolded auth] g(1,2,4) svc] show ?thesis
    proof (elim disjE conjE exE)
      fix x m assume x: "exchanged X key t g g' (int (length b))" "r = Some x" "hr_status x = 200" "hr_json x = ingest_receipt m"
        and m: "mt_accepted m + mt_duplicates m = length b" "length b \<le> 100"
      have "a = (if we_lost X ?k then Broken else Reply (snd (we_render X (ingest_receipt m))))"
        using sent x by (simp add: a success_def)
      then show ?thesis using x(1) m receipt_acknowledged [OF m(1)] by (auto simp: unhindered_def receipt_read_def)
    qed (use sent in \<open>auto simp: a\<close>)
  qed
qed

subsection \<open>A request with its retries, a batch, a flush\<close>

lemma send_request_effect:
  assumes "send_request loads (gateway_step X key) left p g = (result, retries, g')"
    and "wired X key t g" "timely X" "faithful_cut X" "we_loads X p = Some (batch_json b)"
  shows "exchanged X key t g g' 0 \<and> isl result \<or>
    exchanged X key t g g' (int (length b)) \<and> (unhindered X loads \<longrightarrow> (\<exists>v. result = Inr v \<and> acknowledged (length b) v))"
  using assms
proof (induction left arbitrary: g retries)
  case 0
  obtain a g1 where step: "gateway_step X key g p = (a, g1)" by fastforce
  from gateway_step_effect [OF step 0(2-5)] 0(1) show ?case
    by (cases a) (auto simp: send_request.simps step receipt_read_def)
next
  case (Suc n)
  obtain a g1 where step: "gateway_step X key g p = (a, g1)" by fastforce
  note one = gateway_step_effect [OF step Suc.prems(2-5)]
  show ?case
  proof (cases "\<exists>st. a = Status st \<and> (st = 429 \<or> st = 503)")
    case True
    then have same: "exchanged X key t g g1 0" using one by auto
    obtain r1 where more: "send_request loads (gateway_step X key) n p g1 = (result, r1, g')"
      using Suc.prems(1) True by (auto simp: send_request.simps [of _ _ "Suc n"] step split: prod.splits)
    have "wired X key t g1" using same by (simp add: exchanged_def)
    from Suc.IH [OF more this Suc.prems(3-5)] show ?thesis
      using exchanged_trans [OF same, of g' 0] exchanged_trans [OF same, of g' "int (length b)"] by auto
  next
    case False
    with one Suc.prems(1) show ?thesis by (cases a) (auto simp: send_request.simps [of _ _ "Suc n"] step receipt_read_def split: if_splits)
  qed
qed

text \<open>
  The bounds: what the client counts as sent was recorded, and what was recorded the client counts as sent or dropped.  On an
  unhindered way exactly what was recorded counts as sent.
\<close>

definition between :: "bool \<Rightarrow> client \<Rightarrow> client \<Rightarrow> int \<Rightarrow> bool" where
  "between exact c c' n \<longleftrightarrow> (exact \<longrightarrow> n = int (cl_sent c') - int (cl_sent c)) \<and> int (cl_sent c') - int (cl_sent c) \<le> n \<and>
     n \<le> int (cl_sent c') - int (cl_sent c) + (int (cl_dropped c') - int (cl_dropped c))"

lemma between_refl: "between exact c c 0"
  by (simp add: between_def)

lemma between_trans: "between exact c c1 m \<Longrightarrow> between exact c1 c2 n \<Longrightarrow> between exact c c2 (m + n)"
  by (simp add: between_def)

lemma deliver_counts:
  assumes d: "deliver R loads (gateway_step X key) b c g = (r, c', g')"
    and g: "wired X key t g" "timely X" "faithful_cut X" "we_loads X (dumps R (batch_json b)) = Some (batch_json b)"
  shows "\<exists>n. exchanged X key t g g' n \<and> between (unhindered X loads) c c' n"
proof -
  obtain result retries g1 where s: "send_request loads (gateway_step X key) (cl_max_retries c) (dumps R (batch_json b)) g = (result, retries, g1)"
    by (cases rule: prod_cases3)
  have g1: "g' = g1" using d s by (auto simp: deliver_def Let_def split: sum.splits if_splits)
  show ?thesis
  proof (cases "exchanged X key t g g1 (int (length b)) \<and>
      (unhindered X loads \<longrightarrow> (\<exists>v. result = Inr v \<and> acknowledged (length b) v))")
    case True
    then show ?thesis using d s
      by (intro exI [of _ "int (length b)"]) (auto simp: deliver_def Let_def between_def drop_events_def split: sum.splits if_splits)
  next
    case False
    with send_request_effect [OF s g] have "exchanged X key t g g1 0" "isl result" by blast+
    then show ?thesis using d s
      by (intro exI [of _ 0]) (auto simp: deliver_def Let_def between_def drop_events_def split: sum.splits if_splits)
  qed
qed

text \<open>The service reads the batches of a client's queue.\<close>

definition reads_batches :: "wire_env \<Rightarrow> runtime \<Rightarrow> members list \<Rightarrow> bool" where
  "reads_batches X R queue \<longleftrightarrow> (\<forall>b. sublist b queue \<longrightarrow> we_loads X (dumps R (batch_json b)) = Some (batch_json b))"

lemma reads_batches_split: "reads_batches X R (b @ q) \<Longrightarrow> we_loads X (dumps R (batch_json b)) = Some (batch_json b) \<and> reads_batches X R q"
  by (auto simp: reads_batches_def sublist_append)

lemma flush_loop_counts:
  assumes "flush_loop R loads (gateway_step X key) remaining sent c g = (r, c', g')"
    and "wired X key t g" "timely X" "faithful_cut X" "reads_batches X R (cl_queue c)"
  shows "\<exists>n. exchanged X key t g g' n \<and> between (unhindered X loads) c c' n"
  using assms
proof (induction R loads "gateway_step X key" remaining sent c g rule: flush_loop.induct)
  case (1 R loads remaining sent c g)
  have none: "\<exists>n. exchanged X key t g g n \<and> between (unhindered X loads) c c n" using exchanged_same [OF 1(4) refl] between_refl by blast
  show ?case
  proof (cases "remaining = 0 \<or> next_batch R remaining (cl_queue c) = None")
    case True
    then have "c' = c \<and> g' = g"
      using 1(3) by (cases "remaining = 0") (simp_all add: flush_loop.simps [of _ _ _ remaining] flush_loop.simps [of _ _ _ 0])
    with none show ?thesis by simp
  next
    case False
    then obtain b q where bq: "next_batch R remaining (cl_queue c) = Some (b, q)" and pos: "remaining \<noteq> 0" by auto
    obtain r1 c1 g1 where d: "deliver R loads (gateway_step X key) b (c\<lparr>cl_queue := q\<rparr>) g = (r1, c1, g1)" by (cases rule: prod_cases3)
    have reads: "we_loads X (dumps R (batch_json b)) = Some (batch_json b)" "reads_batches X R q"
      using 1(7) next_batch_split(1) [OF bq] reads_batches_split [of X R b q] by simp_all
    obtain m where m: "exchanged X key t g g1 m" "between (unhindered X loads) c c1 m"
      using deliver_counts [OF d 1(4-6) reads(1)] by (auto simp: between_def)
    have w: "wired X key t g1" using m(1) by (simp add: exchanged_def)
    have queue: "reads_batches X R (cl_queue c1)" using reads(2) deliver_effect(1) [OF d] by simp
    have unfold: "flush_loop R loads (gateway_step X key) remaining sent c g =
        (case r1 of Inr n \<Rightarrow> flush_loop R loads (gateway_step X key) (remaining - length b) (sent + n) c1 g1
         | Inl e \<Rightarrow> if cl_raises c then (Inl e, c1, g1)
                  else flush_loop R loads (gateway_step X key) (remaining - length b) sent c1 g1)"
      using pos by (subst flush_loop.simps) (simp add: bq d split: sum.split)
    have finish: "\<exists>n. exchanged X key t g g' n \<and> between (unhindered X loads) c c' n" if "\<exists>n. exchanged X key t g1 g' n \<and> between (unhindered X loads) c1 c' n"
      using that exchanged_trans [OF m(1)] between_trans [OF m(2)] by blast
    show ?thesis
    proof (cases r1)
      case (Inr n)
      then have "flush_loop R loads (gateway_step X key) (remaining - length b) (sent + n) c1 g1 = (r, c', g')" using 1(3) unfold by simp
      from 1(2) [OF pos bq refl d [symmetric] Inr refl this w 1(5,6) queue] finish show ?thesis by blast
    next
      case (Inl e)
      show ?thesis
      proof (cases "cl_raises c")
        case True
        then show ?thesis using 1(3) unfold Inl m by auto
      next
        case drop: False
        then have "flush_loop R loads (gateway_step X key) (remaining - length b) sent c1 g1 = (r, c', g')" using 1(3) unfold Inl by simp
        from 1(1) [OF pos bq refl d [symmetric] Inl refl drop this w 1(5,6) queue] finish show ?thesis by blast
      qed
    qed
  qed
qed

end
