(* ===== verification/Delivery.thy ===== *)
theory Delivery
  imports Gateway Demo_Edge
begin

text \<open>
  The property of the whole way of an event, from the queue of the Python SDK to the state of its tenant, and a run of it.
\<close>

subsection \<open>A client, a transport and a service\<close>

definition report_event :: members where
  "report_event = (case model_dump service_runtime demo_event of JObj ms \<Rightarrow> ms | _ \<Rightarrow> [])"

definition reporting_client :: client where
  "reporting_client = edge_client\<lparr>cl_queue := [report_event], cl_enqueued := 1\<rparr>"

text \<open>The service reads the two batches there can be, and writes a receipt in unary.\<close>

definition document :: "members list \<Rightarrow> string" where
  "document b = dumps service_runtime (batch_json b)"

definition unary_receipt :: "json \<Rightarrow> headers \<times> string" where
  "unary_receipt v =
     (case v of
        JObj [version, (a, JInt i), (d, JInt j)] \<Rightarrow> ([], replicate (nat i) (CHR ''a'') @ replicate (nat j) (CHR ''d''))
      | _ \<Rightarrow> ([], []))"

definition read_unary :: "string \<Rightarrow> json option" where
  "read_unary s = Some (ingest_receipt \<lparr>mt_accepted = count_list s (CHR ''a''), mt_duplicates = count_list s (CHR ''d'')\<rparr>)"

definition report_wire :: wire_env where
  "report_wire =
     \<lparr>we_runtime = service_runtime,
      we_loads = (\<lambda>s. if s = document [report_event] then Some (batch_json [report_event])
                      else if s = document [] then Some (batch_json []) else None),
      we_size = (\<lambda>_. 0), we_encode = (\<lambda>_. Some []), we_settings = demo_settings, we_render = unary_receipt,
      we_clock = (\<lambda>_. 0), we_now = (\<lambda>_. 1000000000000000), we_request_id = (\<lambda>_. ''id''),
      we_cut = (\<lambda>k p. [Chunk (Some p) (Some False)]), we_lost = (\<lambda>_. False)\<rparr>"

definition report_gateway :: gateway where
  "report_gateway = \<lparr>gw_service = demo_service, gw_limiter = new_limiter 60 1 4096, gw_turn = 0\<rparr>"

lemma report_event_dump: "JObj report_event = model_dump service_runtime demo_event"
  by (simp add: report_event_def model_dump_def split: json.split)

lemma report_batch: "batch_of_json service_runtime (batch_json [report_event]) = Some [demo_event]"
proof -
  have "event_of_json service_runtime (JObj report_event) = Some demo_event"
    unfolding report_event_dump by (rule event_roundtrip_dump [OF demo_event_ok]) (use demo_iso in \<open>simp add: service_runtime_def aware_timestamp_def demo_runtime_def\<close>)
  then show ?thesis by (simp add: batch_of_json_def batch_json_def field_def)
qed

lemma count_replicate: "count_list (replicate n x) y = (if x = y then n else 0)"
  by (induction n) auto

lemma report_unhindered: "unhindered report_wire read_unary"
  by (simp add: unhindered_def report_wire_def read_unary_def unary_receipt_def read_reply_def MAX_RESPONSE_def ingest_receipt_def
      count_replicate)

lemma report_reads: "reads_batches report_wire service_runtime (cl_queue reporting_client)"
proof -
  have "document [] \<noteq> document [report_event]" by (simp add: document_def batch_json_def dumps.simps)
  then show ?thesis
    by (auto simp: reads_batches_def reporting_client_def report_wire_def document_def sublist_Cons_right prefix_Cons)
qed

lemma report_wired: "wired report_wire (new_key token0) ''acme'' report_gateway"
proof -
  have "unexpired report_wire ''acme'' demo_db" by (simp add: unexpired_def demo_db_def find_state_def state_at_def)
  then show ?thesis
    using demo_holder(1) demo_digests(1) by (simp add: wired_def report_gateway_def demo_service_def demo_db_ok report_wire_def)
qed

lemma report_surroundings: "timely report_wire" "faithful_cut report_wire"
  by (simp_all add: timely_def faithful_cut_def report_wire_def RETENTION_US_def Let_def)

lemma report_plain: "float_plain service_runtime"
  using show_int_plain by (simp add: float_plain_def service_runtime_def demo_runtime_def)

lemma report_arrives: "arrival demo_settings 0 (sdk_scope (new_key token0)) [Chunk (Some (document [report_event])) (Some False)] (new_limiter 60 1 4096) =
   Some (document [report_event])"
proof -
  have "shallow 0 False False (document [report_event])"
    unfolding document_def shallow_dumps [OF report_plain] by (simp add: VERSION_FIELDS_def json_opt_def batch_json_def report_event_def model_dump_def demo_event_def)
  moreover have "int (length (document [report_event])) \<le> cf_max_body_bytes demo_settings"
    by (simp add: document_def batch_json_def report_event_def model_dump_def demo_event_def demo_settings_def default_settings_def
        VERSION_FIELDS_def json_opt_def service_runtime_def demo_runtime_def dump_string_def escape_char_def char_in_def code_def)
  ultimately show ?thesis
    by (simp add: arrival_def header_check_def header_or_def sdk_scope_def gate_admits_def allow_def new_limiter_def bucket_at_def)
qed

lemma report_step: "\<exists>g'. gateway_step report_wire (new_key token0) report_gateway (document [report_event]) = (Reply ''a'', g')"
proof -
  let ?X = report_wire and ?sc = "sdk_scope (new_key token0)" and ?p = "document [report_event]"
  let ?app = "events_application ?X 0 demo_service"
  have header: "authorization ?sc = demo_header" by (simp add: authorization_def sdk_scope_def demo_header_def key_header_def)
  obtain rest where "gate_admits ?sc 0 (new_limiter 60 1 4096)" "passes demo_settings ?sc [Chunk (Some ?p) (Some False)] ?p rest"
    using report_arrives arrival_Some by blast
  moreover from this have "rest = []" by (auto simp: passes_def Let_def split: if_splits)
  moreover have "sc_type ?sc = ''http''" by (simp add: sdk_scope_def)
  moreover have "fst (ingest_endpoint ?X 0 demo_header ?p demo_service) =
      Some \<lparr>hr_status = 200, hr_headers = [], hr_json = ingest_receipt \<lparr>mt_accepted = 1, mt_duplicates = 0\<rparr>\<rparr>"
    by (simp add: ingest_endpoint_def report_wire_def report_batch demo_ingest)
  then have "fst (forward unary_receipt ?app ''id'' ?sc ?p []) = map (safe_send ''id'') [Start 200 [], Payload ''a'' False]"
    by (simp add: forward_def events_application_def header report_wire_def unary_receipt_def ingest_receipt_def)
  ultimately have "response_of_sent (fst (fst (safety_middleware unary_receipt ?app demo_settings ''id'' 0 ?sc
      [Chunk (Some ?p) (Some False)] (new_limiter 60 1 4096)))) = Reply ''a''"
    using middleware_forwards [of ?sc 0 "new_limiter 60 1 4096" demo_settings _ ?p rest unary_receipt ?app "''id''"]
    by (simp add: response_of_sent_def)
  then show ?thesis by (simp add: gateway_step_def Let_def split_def report_gateway_def report_wire_def)
qed

lemma report_run: "\<exists>r c' g'. flush service_runtime read_unary (gateway_step report_wire (new_key token0)) reporting_client report_gateway = (r, c', g') \<and>
    cl_sent c' = 1 \<and> cl_dropped c' = 0"
proof -
  obtain g' where step: "gateway_step report_wire (new_key token0) report_gateway (document [report_event]) = (Reply ''a'', g')"
    using report_step by blast
  have batch: "next_batch service_runtime (Suc 0) [report_event] = Some ([report_event], [])"
    by (simp add: next_batch_def BATCH_EVENTS_def)
  have "send_request read_unary (gateway_step report_wire (new_key token0)) k (document [report_event]) report_gateway =
      (Inr (ingest_receipt \<lparr>mt_accepted = 1, mt_duplicates = 0\<rparr>), 0, g')" for k
    by (subst send_request.simps) (simp add: step read_reply_def read_unary_def MAX_RESPONSE_def ingest_receipt_def)
  then have "deliver service_runtime read_unary (gateway_step report_wire (new_key token0)) [report_event] (reporting_client\<lparr>cl_queue := []\<rparr>)
      report_gateway = (Inr 1, reporting_client\<lparr>cl_queue := [], cl_sent := 1\<rparr>, g')"
    by (simp add: deliver_def document_def [symmetric] receipt_acknowledged reporting_client_def edge_client_def)
  then show ?thesis
    by (simp add: flush_def reporting_client_def flush_loop.simps [of _ _ _ "Suc 0"] flush_loop.simps [of _ _ _ 0] batch edge_client_def)
qed

subsection \<open>The property\<close>

text \<open>
  C26.  Delivery is accounted for from end to end: whatever the transport does - chunks, broken requests, lost replies - and
  whatever the service refuses, a flush changes the store in the state of the key's tenant only; the events which that
  state has newly counted, as accepted or as duplicates, are at least those the client counts as sent and at most those it
  counts as sent or dropped, and exactly those it counts as sent when no reply is lost and every receipt is readable.
\<close>

theorem delivery_accounted:
  assumes "flush R loads (gateway_step X key) c g = (r, c', g')"
    and "wired X key t g" "timely X" "faithful_cut X" "reads_batches X R (cl_queue c)"
  shows "int (cl_sent c') - int (cl_sent c) \<le> recorded_events t g' - recorded_events t g \<and>
    recorded_events t g' - recorded_events t g \<le> int (cl_sent c') - int (cl_sent c) + (int (cl_dropped c') - int (cl_dropped c)) \<and>
    (unhindered X loads \<longrightarrow> recorded_events t g' - recorded_events t g = int (cl_sent c') - int (cl_sent c)) \<and>
    undisturbed t g g' \<and> wired X key t g'"
proof -
  obtain n where "exchanged X key t g g' n" "between (unhindered X loads) c c' n"
    using flush_loop_counts assms unfolding flush_def by metis
  then show ?thesis by (simp add: exchanged_def between_def)
qed

theorem delivery_accounted_witness:
  "\<exists>r c' g'. flush service_runtime read_unary (gateway_step report_wire (new_key token0)) reporting_client report_gateway = (r, c', g') \<and>
    recorded_events ''acme'' g' - recorded_events ''acme'' report_gateway = 1 \<and> undisturbed ''acme'' report_gateway g'"
proof -
  obtain r c' g' where run: "flush service_runtime read_unary (gateway_step report_wire (new_key token0)) reporting_client report_gateway =
      (r, c', g')" and "cl_sent c' = 1" "cl_dropped c' = 0"
    using report_run by blast
  with delivery_accounted [OF run report_wired report_surroundings report_reads] report_unhindered show ?thesis
    by (simp add: reporting_client_def edge_client_def)
qed

end
