(* ===== verification/Pyaccess.thy ===== *)
theory Pyaccess
  imports Projection Sdk_Client "HOL-Library.Sublist"
begin

text \<open>
  How the example and verification scripts look into a decoded JSON document: Python's subscripts, \<open>get\<close>, \<open>in\<close>, \<open>len\<close>,
  iteration, truth and equality, each with the exception it raises on a value of another type.  The scripts tell these
  exceptions apart by their classes.
\<close>

subsection \<open>Exceptions\<close>

datatype pyerror =
    PyValueError | PyKeyError | PyTypeError | PyAttributeError | PyIndexError | PyRuntimeError | PyStopIteration
  | PyAssertionError | PyOSError | PySDK sdk_error

definition needs :: "bool \<Rightarrow> pyerror \<Rightarrow> pyerror + unit" where
  "needs condition e = require_that condition e"

subsection \<open>Subscripts\<close>

text \<open>\<open>v[k]\<close> with a string, \<open>v.get(k)\<close> and \<open>v[0]\<close>; the keys of a decoded mapping are strings.\<close>

definition subscript :: "json \<Rightarrow> string \<Rightarrow> pyerror + json" where
  "subscript v k =
     (case v of
        JObj ms \<Rightarrow> (case map_of ms k of Some x \<Rightarrow> Inr x | None \<Rightarrow> Inl PyKeyError)
      | _ \<Rightarrow> Inl PyTypeError)"

definition got :: "json \<Rightarrow> string \<Rightarrow> pyerror + json" where
  "got v k =
     (case v of
        JObj ms \<Rightarrow> Inr (case map_of ms k of Some x \<Rightarrow> x | None \<Rightarrow> JNull)
      | _ \<Rightarrow> Inl PyAttributeError)"

definition head_item :: "json \<Rightarrow> pyerror + json" where
  "head_item v =
     (case v of
        JArr vs \<Rightarrow> (case vs of [] \<Rightarrow> Inl PyIndexError | x # xs \<Rightarrow> Inr x)
      | JStr s \<Rightarrow> (case s of [] \<Rightarrow> Inl PyIndexError | c # cs \<Rightarrow> Inr (JStr [c]))
      | JObj ms \<Rightarrow> Inl PyKeyError
      | _ \<Rightarrow> Inl PyTypeError)"

subsection \<open>Collections\<close>

definition iterate :: "json \<Rightarrow> pyerror + json list" where
  "iterate v = (case iterated v of Some vs \<Rightarrow> Inr vs | None \<Rightarrow> Inl PyTypeError)"

definition py_len :: "json \<Rightarrow> pyerror + nat" where
  "py_len v = rbind (iterate v) (\<lambda>vs. Inr (length vs))"

text \<open>\<open>k in v\<close> for a string: an element of a list, a key of a mapping, a part of a string.\<close>

definition contains :: "string \<Rightarrow> json \<Rightarrow> pyerror + bool" where
  "contains k v =
     (case v of
        JArr vs \<Rightarrow> Inr (JStr k \<in> set vs)
      | JObj ms \<Rightarrow> Inr (k \<in> set (keys ms))
      | JStr s \<Rightarrow> Inr (sublist k s)
      | _ \<Rightarrow> Inl PyTypeError)"

text \<open>\<open>v in {...}\<close> for a set of strings: lists and mappings cannot be hashed.\<close>

definition among :: "json \<Rightarrow> string list \<Rightarrow> pyerror + bool" where
  "among v names =
     (case hashed_of v of None \<Rightarrow> Inl PyTypeError | Some h \<Rightarrow> Inr (h \<in> set (map Words names)))"

text \<open>Truth values, of an optional string too, and the comparison with an integer; \<open>True\<close> counts as one.\<close>

definition truthy :: "json \<Rightarrow> bool" where
  "truthy v =
     (case v of
        JNull \<Rightarrow> False
      | JBool b \<Rightarrow> b
      | JInt i \<Rightarrow> i \<noteq> 0
      | JFloat x \<Rightarrow> x \<noteq> 0
      | JStr s \<Rightarrow> s \<noteq> []
      | JArr vs \<Rightarrow> vs \<noteq> []
      | JObj ms \<Rightarrow> ms \<noteq> [])"

definition present_str :: "string option \<Rightarrow> bool" where
  "present_str x \<longleftrightarrow> x \<noteq> None \<and> x \<noteq> Some []"

definition equals_int :: "json \<Rightarrow> int \<Rightarrow> bool" where
  "equals_int v n \<longleftrightarrow> hashed_of v = Some (Number (of_int n))"

lemma zip_smaller: "(x, y) \<in> set (zip xs ys) \<Longrightarrow> size x \<le> size_list size xs"
  by (rule size_list_estimation' [of x]) (auto dest: set_zip_leftD)

lemma member_smaller: "(k, x) \<in> set ms \<Longrightarrow> size x \<le> size_list (size_prod (\<lambda>_. 0) size) ms"
  by (rule size_list_estimation' [of "(k, x)"]) auto

text \<open>\<open>==\<close> on decoded values: mappings are equal when they hold equal values under the same keys.\<close>

function py_eq :: "json \<Rightarrow> json \<Rightarrow> bool" where
  "py_eq v w =
     (case (v, w) of
        (JArr xs, JArr ys) \<Rightarrow> length xs = length ys \<and> list_all (\<lambda>(x, y). py_eq x y) (zip xs ys)
      | (JObj ms, JObj ns) \<Rightarrow>
          length ms = length ns \<and>
          list_all (\<lambda>(k, x). case map_of ns k of None \<Rightarrow> False | Some y \<Rightarrow> py_eq x y) ms
      | _ \<Rightarrow> hashed_of v = hashed_of w \<and> hashed_of v \<noteq> None)"
  by pat_completeness auto
termination
  by (relation "measure (\<lambda>(v, w). size v)") (auto simp: less_Suc_eq_le zip_smaller member_smaller)

declare py_eq.simps [simp del]

text \<open>\<open>sorted(v)\<close>: the elements must be comparable with each other.  Elements that are lists themselves are not modelled.\<close>

fun word_of :: "json \<Rightarrow> string option" where
  "word_of (JStr s) = Some s"
| "word_of _ = None"

fun number_of :: "json \<Rightarrow> rat option" where
  "number_of (JInt i) = Some (of_int i)"
| "number_of (JBool b) = Some (of_bool b)"
| "number_of (JFloat x) = Some x"
| "number_of _ = None"

definition py_sorted :: "json \<Rightarrow> pyerror + json list" where
  "py_sorted v = rbind (iterate v) (\<lambda>vs.
     if list_all (\<lambda>x. word_of x \<noteq> None) vs then Inr (sort_key (\<lambda>x. the (word_of x)) vs)
     else if list_all (\<lambda>x. number_of x \<noteq> None) vs then Inr (sort_key (\<lambda>x. the (number_of x)) vs)
     else if length vs \<le> 1 then Inr vs
     else Inl PyTypeError)"

subsection \<open>Comprehensions\<close>

text \<open>A filtering comprehension, a loop that builds a list, and \<open>next\<close> of a filtering generator.\<close>

fun rfilter :: "('a \<Rightarrow> 'e + bool) \<Rightarrow> 'a list \<Rightarrow> 'e + 'a list" where
  "rfilter f [] = Inr []"
| "rfilter f (x # xs) = rbind (f x) (\<lambda>b. rbind (rfilter f xs) (\<lambda>ys. Inr (if b then x # ys else ys)))"

fun rmap :: "('a \<Rightarrow> 'e + 'b) \<Rightarrow> 'a list \<Rightarrow> 'e + 'b list" where
  "rmap f [] = Inr []"
| "rmap f (x # xs) = rbind (f x) (\<lambda>y. rbind (rmap f xs) (\<lambda>ys. Inr (y # ys)))"

fun rnext :: "('a \<Rightarrow> pyerror + bool) \<Rightarrow> 'a list \<Rightarrow> pyerror + 'a" where
  "rnext f [] = Inl PyStopIteration"
| "rnext f (x # xs) = rbind (f x) (\<lambda>b. if b then Inr x else rnext f xs)"

subsection \<open>Facts\<close>

lemma needs_simps [simp, result_simps]:
  "needs b e = Inr u \<longleftrightarrow> b" "needs True e = Inr ()" "needs False e = Inl e" "needs b e = Inl e' \<longleftrightarrow> \<not> b \<and> e' = e"
  by (auto simp: needs_def)

lemma subscript_Inr: "subscript v k = Inr x \<longleftrightarrow> item v k = Some x"
  by (auto simp: subscript_def item_def split: json.splits option.splits)

lemma iterate_Inr: "iterate v = Inr vs \<longleftrightarrow> iterated v = Some vs"
  by (auto simp: iterate_def split: option.splits)

lemma got_item: "got v k = Inr x \<Longrightarrow> x \<noteq> JNull \<Longrightarrow> item v k = Some x"
  by (auto simp: got_def item_def split: json.splits option.splits)

lemma rfilter_Inr:
  "rfilter f xs = Inr ys \<Longrightarrow> set ys \<subseteq> set xs \<and> (\<forall>y \<in> set ys. f y = Inr True) \<and> length ys \<le> length xs"
  by (induction xs arbitrary: ys) (fastforce simp: rbind_Inr_iff split: if_splits)+

lemma rmap_Inr: "rmap f xs = Inr ys \<longleftrightarrow> list_all2 (\<lambda>x y. f x = Inr y) xs ys"
  by (induction xs arbitrary: ys) (auto simp: rbind_Inr_iff list_all2_Cons1)

lemma rnext_Inr: "rnext f xs = Inr x \<Longrightarrow> x \<in> set xs \<and> f x = Inr True"
  by (induction xs) (auto simp: rbind_Inr_iff split: if_splits)

end
