(* ===== verification/Remote.thy ===== *)
theory Remote
  imports Pyaccess Agent
begin

text \<open>
  The session of a script that drives a deployed service: the service itself, of which nothing is known, the record of
  the calls made to it, and the SDK client of the script.  The example scripts and the deployment check run in such a
  session; a Hoare logic with exceptional postconditions carries the proofs about them.
\<close>

subsection \<open>Calls\<close>

text \<open>
  An HTTP request with its credential, its body and the confirmation header; its outcome is an \<open>HTTPError\<close>, an exception
  of the transport, or a successful status with the response body.
\<close>

record http_call =
  ca_verb :: string
  ca_url :: string
  ca_key :: "string option"
  ca_body :: "string option"
  ca_confirm :: "json option"

datatype http_outcome = Refused nat | Fails pyerror | Answered nat string

type_synonym traffic = "(http_call \<times> http_outcome) list"
type_synonym 's remote = "'s \<Rightarrow> http_call \<Rightarrow> http_outcome \<times> 's"
type_synonym 's world = "'s \<times> traffic"

definition ask :: "'s remote \<Rightarrow> http_call \<Rightarrow> 's world \<Rightarrow> http_outcome \<times> 's world" where
  "ask service c w = (let (o1, s') = service (fst w) c in (o1, s', snd w @ [(c, o1)]))"

text \<open>What the SDK makes of an outcome.\<close>

definition response_of :: "http_outcome \<Rightarrow> response" where
  "response_of a = (case a of Refused status \<Rightarrow> Status status | Fails e \<Rightarrow> Broken | Answered status body \<Rightarrow> Reply body)"

text \<open>What a script takes from its environment besides the service.\<close>

record script_env =
  se_agent :: agent_env
  se_loads :: "string \<Rightarrow> json option" \<comment> \<open>\<open>json.loads\<close>\<close>
  se_indented :: "json \<Rightarrow> string" \<comment> \<open>\<open>json.dumps(indent=2)\<close>\<close>
  se_uuid :: "nat \<Rightarrow> string" \<comment> \<open>the successive values of \<open>str(uuid4())\<close>\<close>
  se_hex :: "nat \<Rightarrow> string" \<comment> \<open>the successive values of \<open>uuid4().hex\<close>\<close>
  se_now :: "nat \<Rightarrow> int"
  se_elapsed_ms :: pyfloat
  se_urlsplit :: "string \<Rightarrow> url_parts option"
  se_urlpath :: "string \<Rightarrow> string" \<comment> \<open>the path component of \<open>urlsplit\<close>\<close>
  se_loopback :: "string \<Rightarrow> bool option"

abbreviation se_runtime :: "script_env \<Rightarrow> runtime" where
  "se_runtime E \<equiv> ag_runtime (se_agent E)"

abbreviation se_render :: "script_env \<Rightarrow> json \<Rightarrow> string" where
  "se_render E \<equiv> ag_render (se_agent E)"

record 's session =
  ss_world :: "'s world"
  ss_client :: "client option"
  ss_drawn :: nat
  ss_tenants :: "json list"

text \<open>The start of a script.\<close>

definition start_session :: "'s \<Rightarrow> client option \<Rightarrow> 's session" where
  "start_session s0 c = \<lparr>ss_world = (s0, []), ss_client = c, ss_drawn = 0, ss_tenants = []\<rparr>"

type_synonym ('s, 'a) procedure = "'s session \<Rightarrow> (pyerror + 'a) \<times> 's session"

subsection \<open>The SDK in a session\<close>

definition post_call :: "string \<Rightarrow> string \<Rightarrow> string \<Rightarrow> http_call" where
  "post_call base key payload =
     \<lparr>ca_verb = ''POST'', ca_url = base @ ''/v1/events'', ca_key = Some key, ca_body = Some payload, ca_confirm = None\<rparr>"

definition get_call :: "string \<Rightarrow> string \<Rightarrow> string \<Rightarrow> http_call" where
  "get_call base key path = \<lparr>ca_verb = ''GET'', ca_url = base @ path, ca_key = Some key, ca_body = None, ca_confirm = None\<rparr>"

definition sdk_post :: "'s remote \<Rightarrow> string \<Rightarrow> string \<Rightarrow> 's world \<Rightarrow> string \<Rightarrow> response \<times> 's world" where
  "sdk_post service base key w payload = apfst response_of (ask service (post_call base key payload) w)"

definition sdk_get :: "'s remote \<Rightarrow> string \<Rightarrow> string \<Rightarrow> 's world \<Rightarrow> string \<Rightarrow> response \<times> 's world" where
  "sdk_get service base key w path = apfst response_of (ask service (get_call base key path) w)"

text \<open>\<open>client.flush()\<close>, \<open>client.summary()\<close>, \<open>client.incidents()\<close> and \<open>client.emit(value)\<close>.\<close>

definition client_flush :: "script_env \<Rightarrow> 's remote \<Rightarrow> string \<Rightarrow> string \<Rightarrow> ('s, nat) procedure" where
  "client_flush E service base key s =
     (case ss_client s of
        None \<Rightarrow> (Inl PyAttributeError, s)
      | Some c \<Rightarrow>
          (let (r, c', w') = flush (se_runtime E) (se_loads E) (sdk_post service base key) c (ss_world s)
           in (map_sum PySDK id r, s\<lparr>ss_client := Some c', ss_world := w'\<rparr>)))"

definition client_get ::
    "((string \<Rightarrow> json option) \<Rightarrow> ('s world \<Rightarrow> string \<Rightarrow> response \<times> 's world) \<Rightarrow> client \<Rightarrow> 's world \<Rightarrow>
      (sdk_error + json) \<times> client \<times> 's world) \<Rightarrow> script_env \<Rightarrow> 's remote \<Rightarrow> string \<Rightarrow> string \<Rightarrow> ('s, json) procedure" where
  "client_get fetch E service base key s =
     (case ss_client s of
        None \<Rightarrow> (Inl PyAttributeError, s)
      | Some c \<Rightarrow>
          (let (r, c', w') = fetch (se_loads E) (sdk_get service base key) c (ss_world s)
           in (map_sum PySDK id r, s\<lparr>ss_client := Some c', ss_world := w'\<rparr>)))"

definition client_summary :: "script_env \<Rightarrow> 's remote \<Rightarrow> string \<Rightarrow> string \<Rightarrow> ('s, json) procedure" where
  "client_summary = client_get sdk_summary"

definition client_incidents :: "script_env \<Rightarrow> 's remote \<Rightarrow> string \<Rightarrow> string \<Rightarrow> ('s, json) procedure" where
  "client_incidents = client_get sdk_incidents"

definition client_emit :: "script_env \<Rightarrow> members option \<Rightarrow> ('s, unit) procedure" where
  "client_emit E value s =
     (case (value, ss_client s) of
        (None, _) \<Rightarrow> (Inl PyValueError, s)
      | (Some ms, None) \<Rightarrow> (Inl PyAttributeError, s)
      | (Some ms, Some c) \<Rightarrow>
          (let (r, c') = emit (se_runtime E) (JObj ms) c
           in (map_sum PySDK (\<lambda>_. ()) r, s\<lparr>ss_client := Some c', ss_drawn := ss_drawn s + 1\<rparr>)))"

text \<open>\<open>client.emit(event(...))\<close>, with the next identifier and the clock.\<close>

definition emit_event :: "script_env \<Rightarrow> event_args \<Rightarrow> ('s, unit) procedure" where
  "emit_event E a s = client_emit E (sdk_event (se_runtime E) (se_uuid E (ss_drawn s)) (se_now E (ss_drawn s)) a) s"

text \<open>\<open>Client(endpoint=..., api_key=..., timeout=..., max_retries=..., queue_capacity=..., failure_mode="raise")\<close>.\<close>

definition make_client :: "script_env \<Rightarrow> string \<Rightarrow> json \<Rightarrow> int \<Rightarrow> int \<Rightarrow> int \<Rightarrow> pyerror + string \<times> string \<times> client" where
  "make_client E endpoint api_key timeout retries capacity =
     (case sdk_endpoint (se_urlsplit E) (se_loopback E) endpoint of
        None \<Rightarrow> Inl PyValueError
      | Some base \<Rightarrow>
          (case (api_key, new_client api_key (JInt timeout) (JInt retries) (JInt capacity) (JStr ''raise'')) of
             (JStr key, Some c) \<Rightarrow> Inr (base, key, c)
           | _ \<Rightarrow> Inl PyValueError))"

text \<open>\<open>client.counters\<close>.\<close>

definition counters :: "client \<Rightarrow> (string, nat) dict" where
  "counters c =
     [(''enqueued'', cl_enqueued c), (''sent'', cl_sent c), (''dropped'', cl_dropped c), (''failed_batches'', cl_failed_batches c),
      (''retries'', cl_retries c), (''queued'', length (cl_queue c))]"

text \<open>\<open>for _ in range(n)\<close>, and \<open>try ... finally ...\<close>, whose second exception replaces the first.\<close>

fun repeated :: "nat \<Rightarrow> ('s, unit) procedure \<Rightarrow> ('s, unit) procedure" where
  "repeated 0 m = sreturn ()"
| "repeated (Suc n) m = sbind m (\<lambda>_. repeated n m)"

definition finally_do :: "('s, 'a) procedure \<Rightarrow> ('s, unit) procedure \<Rightarrow> ('s, 'a) procedure" where
  "finally_do m cleanup s =
     (let (r, s1) = m s; (q, s2) = cleanup s1 in (case q of Inl e \<Rightarrow> Inl e | Inr _ \<Rightarrow> r, s2))"

end
