(* ===== verification/Deployment.thy ===== *)
theory Deployment
  imports Remote
begin

text \<open>
  \<open>scripts/verify_deployment.py\<close>: two disposable tenants are provisioned on a deployed service, a regression, its recovery,
  deduplication, the schema, the scopes and a revocation are exercised, and the tenants are deleted in the \<open>finally\<close> block.
\<close>

subsection \<open>Requests\<close>

text \<open>The checks of the endpoint; \<open>ValueError\<close> otherwise.\<close>

definition trusted_endpoint :: "script_env \<Rightarrow> string \<Rightarrow> pyerror + unit" where
  "trusted_endpoint E endpoint =
     (case se_urlsplit E endpoint of
        None \<Rightarrow> Inl PyValueError
      | Some u \<Rightarrow> needs (up_scheme u = ''https'' \<and> present_str (up_hostname u) \<and> \<not> present_str (up_username u) \<and>
            \<not> present_str (up_password u) \<and> up_query u = [] \<and> up_fragment u = [] \<and> se_urlpath E endpoint \<in> {[], ''/''}) PyValueError)"

text \<open>The credential of a request: none for a false value, and a \<open>TypeError\<close> for a value that is no string.\<close>

definition bearer_of :: "json \<Rightarrow> pyerror + string option" where
  "bearer_of key = (if \<not> truthy key then Inr None else case key of JStr k \<Rightarrow> Inr (Some k) | _ \<Rightarrow> Inl PyTypeError)"

text \<open>\<open>request(method, path, key, body, extra)\<close>: the status with the decoded body of a success, \<open>None\<close> for an \<open>HTTPError\<close>.\<close>

definition raw_request ::
    "script_env \<Rightarrow> 's remote \<Rightarrow> string \<Rightarrow> string \<Rightarrow> string \<Rightarrow> json \<Rightarrow> json option \<Rightarrow> json option \<Rightarrow> ('s, nat \<times> json) procedure" where
  "raw_request E service endpoint verb path key body confirm =
     sbind (slift (bearer_of key)) (\<lambda>credential s.
       let (a, w) = ask service
             \<lparr>ca_verb = verb, ca_url = endpoint @ path, ca_key = credential, ca_body = map_option (se_render E) body,
              ca_confirm = confirm\<rparr> (ss_world s)
       in (case a of
             Refused status \<Rightarrow> Inr (status, JNull)
           | Fails e \<Rightarrow> Inl e
           | Answered status text1 \<Rightarrow> (case se_loads E text1 of None \<Rightarrow> Inl PyValueError | Some v \<Rightarrow> Inr (status, v)),
           s\<lparr>ss_world := w\<rparr>))"

text \<open>\<open>assert request(...)[0] == status\<close>.\<close>

definition expect_status ::
    "script_env \<Rightarrow> 's remote \<Rightarrow> string \<Rightarrow> string \<Rightarrow> string \<Rightarrow> json \<Rightarrow> json option \<Rightarrow> json option \<Rightarrow> nat \<Rightarrow> ('s, json) procedure" where
  "expect_status E service endpoint verb path key body confirm status =
     sbind (raw_request E service endpoint verb path key body confirm) (\<lambda>(st, v).
       if st = status then sreturn v else sfail PyAssertionError)"

subsection \<open>Provisioning and cleanup\<close>

definition provision_one :: "script_env \<Rightarrow> 's remote \<Rightarrow> string \<Rightarrow> json \<Rightarrow> nat \<Rightarrow> ('s, unit) procedure" where
  "provision_one E service endpoint admin k =
     sbind (expect_status E service endpoint ''POST'' ''/v1/admin/tenants'' admin
         (Some (JObj [(''tenant_id'', JStr (''verification-'' @ take 16 (se_hex E k)))])) None 201) (\<lambda>credentials s.
       (Inr (), s\<lparr>ss_tenants := ss_tenants s @ [credentials]\<rparr>))"

definition cleanup_one :: "script_env \<Rightarrow> 's remote \<Rightarrow> string \<Rightarrow> json \<Rightarrow> ('s, unit) procedure" where
  "cleanup_one E service endpoint tenant =
     sbind (slift (subscript tenant ''key'')) (\<lambda>key.
     sbind (slift (subscript tenant ''tenant_id'')) (\<lambda>tenant_id.
     sbind (expect_status E service endpoint ''DELETE'' ''/v1/tenant'' key None (Some tenant_id) 200) (\<lambda>_.
     sbind (expect_status E service endpoint ''GET'' ''/v1/summary'' key None None 401) (\<lambda>_. sreturn ()))))"

fun cleanup_each :: "script_env \<Rightarrow> 's remote \<Rightarrow> string \<Rightarrow> json list \<Rightarrow> ('s, unit) procedure" where
  "cleanup_each E service endpoint [] = sreturn ()"
| "cleanup_each E service endpoint (t # ts) =
     sbind (cleanup_one E service endpoint t) (\<lambda>_. cleanup_each E service endpoint ts)"

definition cleanup :: "script_env \<Rightarrow> 's remote \<Rightarrow> string \<Rightarrow> ('s, unit) procedure" where
  "cleanup E service endpoint s = cleanup_each E service endpoint (ss_tenants s) s"

subsection \<open>The checks\<close>

definition check_event :: "string \<Rightarrow> event_args" where
  "check_event result =
     \<lparr>ea_deployment_id = JStr ''synthetic-production-check'', ea_agent_id = JStr ''synthetic-agent'', ea_operation = JStr ''validation'',
      ea_outcome = JStr result, ea_failure_type = (if result = ''failure'' then Some (JStr ''malformed_output'') else None),
      ea_timestamp = None, ea_event_id = None, ea_synthetic = JBool True,
      ea_measurements =
        [(''provider'', JStr ''synthetic-provider''), (''model'', JStr ''synthetic-model''),
         (''model_version'', JStr (if result = ''failure'' then ''bad-v2'' else ''good-v1'')), (''latency_ms'', JInt 100),
         (''input_tokens'', JInt 20), (''output_tokens'', JInt 10)]\<rparr>"

definition sample_event :: event_args where
  "sample_event = (check_event ''success'')\<lparr>ea_measurements := []\<rparr>"

definition check_emit :: "script_env \<Rightarrow> 's remote \<Rightarrow> string \<Rightarrow> string \<Rightarrow> nat \<Rightarrow> string \<Rightarrow> ('s, unit) procedure" where
  "check_emit E service base key events result =
     sbind (repeated events (emit_event E (check_event result))) (\<lambda>_.
     sbind (client_flush E service base key) (\<lambda>n. slift (needs (n = events) PyAssertionError)))"

text \<open>The incidents after the failures: exactly one, open, synthetic, with the expected signal.\<close>

definition check_opened :: "json \<Rightarrow> pyerror + json" where
  "check_opened reply =
     rbind (subscript reply ''incidents'') (\<lambda>incidents.
     rbind (py_len incidents) (\<lambda>n.
     rbind (needs (n = 1) PyAssertionError) (\<lambda>_.
     rbind (head_item incidents) (\<lambda>i.
     rbind (subscript i ''status'') (\<lambda>st.
     rbind (needs (st = JStr ''open'') PyAssertionError) (\<lambda>_.
     rbind (subscript i ''synthetic'') (\<lambda>synthetic.
     rbind (needs (truthy synthetic) PyAssertionError) (\<lambda>_.
     rbind (rbind (subscript i ''signals'') (contains ''failure_rate_regression'')) (\<lambda>regression.
     rbind (needs regression PyAssertionError) (\<lambda>_. Inr i))))))))))"

definition check_resolved :: "json \<Rightarrow> json \<Rightarrow> pyerror + unit" where
  "check_resolved opened reply =
     rbind (rbind (subscript reply ''incidents'') head_item) (\<lambda>i.
     rbind (subscript i ''incident_id'') (\<lambda>v.
     rbind (subscript opened ''incident_id'') (\<lambda>w.
     rbind (needs (py_eq v w) PyAssertionError) (\<lambda>_.
     rbind (subscript i ''status'') (\<lambda>st. needs (st = JStr ''resolved'') PyAssertionError)))))"

definition member_is :: "json \<Rightarrow> string \<Rightarrow> int \<Rightarrow> pyerror + unit" where
  "member_is v k n = rbind (subscript v k) (\<lambda>x. needs (equals_int x n) PyAssertionError)"

text \<open>\<open>second.summary()["totals"]["accepted"] == 0\<close> with the client of the other tenant.\<close>

definition check_isolation :: "script_env \<Rightarrow> 's remote \<Rightarrow> string \<times> string \<times> client \<Rightarrow> ('s, unit) procedure" where
  "check_isolation E service second s =
     (let (base, key, c) = second; (r, c', w) = sdk_summary (se_loads E) (sdk_get service base key) c (ss_world s)
      in (rbind (map_sum PySDK id r) (\<lambda>v. rbind (subscript v ''totals'') (\<lambda>t. member_is t ''accepted'' 0)), s\<lparr>ss_world := w\<rparr>))"

definition events_body :: "members \<Rightarrow> json" where
  "events_body sample = JObj [(''events'', JArr [JObj sample])]"

definition concat_path :: "string \<Rightarrow> json \<Rightarrow> pyerror + string" where
  "concat_path path v = (case v of JStr s \<Rightarrow> Inr (path @ s) | _ \<Rightarrow> Inl PyTypeError)"

text \<open>The phases with the SDK: \<open>opened\<close> is the incident of the failures.\<close>

definition check_detection :: "script_env \<Rightarrow> 's remote \<Rightarrow> string \<Rightarrow> string \<Rightarrow> string \<times> string \<times> client \<Rightarrow> ('s, unit) procedure" where
  "check_detection E service base key second =
     sbind (check_emit E service base key 50 ''success'') (\<lambda>_.
     sbind (check_emit E service base key 50 ''failure'') (\<lambda>_.
     sbind (client_incidents E service base key) (\<lambda>reply.
     sbind (slift (check_opened reply)) (\<lambda>opened.
     sbind (check_isolation E service second) (\<lambda>_.
     sbind (check_emit E service base key 100 ''success'') (\<lambda>_.
     sbind (client_incidents E service base key) (\<lambda>reply. slift (check_resolved opened reply))))))))"

text \<open>The phases with single requests; \<open>issued\<close> is the reply that grants a key for ingestion only.\<close>

definition check_granted :: "script_env \<Rightarrow> 's remote \<Rightarrow> string \<Rightarrow> json \<Rightarrow> members \<Rightarrow> json \<Rightarrow> ('s, unit) procedure" where
  "check_granted E service endpoint key sample issued =
     sbind (slift (subscript issued ''key'')) (\<lambda>granted.
     sbind (expect_status E service endpoint ''GET'' ''/v1/summary'' granted None None 403) (\<lambda>_.
     sbind (slift (rbind (subscript issued ''key_id'') (concat_path ''/v1/keys/''))) (\<lambda>path.
     sbind (expect_status E service endpoint ''DELETE'' path key None None 200) (\<lambda>_.
     sbind (expect_status E service endpoint ''POST'' ''/v1/events'' granted (Some (events_body sample)) None 401) (\<lambda>_.
     sbind (expect_status E service endpoint ''GET'' ''/ready'' key None None 200) (\<lambda>_.
     sbind (raw_request E service endpoint ''GET'' ''/v1/network'' key None None) (\<lambda>(st, v).
       slift (rbind (subscript v ''status'') (\<lambda>x. needs (x = JStr ''disabled'') PyAssertionError)))))))))"

definition check_requests :: "script_env \<Rightarrow> 's remote \<Rightarrow> string \<Rightarrow> json \<Rightarrow> members \<Rightarrow> ('s, unit) procedure" where
  "check_requests E service endpoint key sample =
     (let post = (\<lambda>body. expect_status E service endpoint ''POST'' ''/v1/events'' key (Some body) None) in
      sbind (post (events_body sample) 200) (\<lambda>ack.
      sbind (slift (member_is ack ''accepted'' 1)) (\<lambda>_.
      sbind (post (events_body sample) 200) (\<lambda>ack.
      sbind (slift (member_is ack ''duplicates'' 1)) (\<lambda>_.
      sbind (post (events_body (AList.update ''prompt'' (JStr ''synthetic-disallowed-content'') sample)) 422) (\<lambda>_.
      sbind (expect_status E service endpoint ''GET'' ''/v1/summary'' JNull None None 401) (\<lambda>_.
      sbind (expect_status E service endpoint ''POST'' ''/v1/keys'' key (Some (JObj [(''scopes'', JArr [JStr ''ingest''])])) None 201)
        (check_granted E service endpoint key sample))))))))"

definition check_evidence :: "script_env \<Rightarrow> string \<Rightarrow> json" where
  "check_evidence E endpoint = JObj
     [(''verified_at'', JStr (isoformat (se_now E 0))), (''endpoint'', JStr endpoint), (''synthetic'', JBool True),
      (''accepted'', JInt 201), (''duplicate_replay'', JStr ''deduplicated''), (''regression'', JStr ''detected''),
      (''recovery'', JStr ''resolved''), (''tenant_isolation'', JStr ''passed''), (''privacy_schema'', JStr ''passed''),
      (''scope_enforcement'', JStr ''passed''), (''revocation'', JStr ''passed''), (''storage_readiness'', JStr ''passed''),
      (''network_intelligence'', JStr ''disabled'')]"

text \<open>The body of the \<open>try\<close> block, and \<open>verify\<close>; \<open>admin\<close> is the decoded file of the administrator.\<close>

definition tenant_key :: "nat \<Rightarrow> ('s, json) procedure" where
  "tenant_key i s = (if i < length (ss_tenants s) then subscript (ss_tenants s ! i) ''key'' else Inl PyIndexError, s)"

definition verify_sample :: "script_env \<Rightarrow> 's remote \<Rightarrow> string \<Rightarrow> json \<Rightarrow> ('s, json) procedure" where
  "verify_sample E service endpoint key s =
     (case sdk_event (se_runtime E) (se_uuid E (ss_drawn s)) (se_now E (ss_drawn s)) sample_event of
        None \<Rightarrow> (Inl PyValueError, s)
      | Some sample \<Rightarrow> sbind (check_requests E service endpoint key sample) (\<lambda>_. sreturn (check_evidence E endpoint)) s)"

definition verify_detection :: "script_env \<Rightarrow> 's remote \<Rightarrow> string \<times> string \<times> client \<Rightarrow> string \<times> string \<times> client \<Rightarrow> ('s, unit) procedure" where
  "verify_detection E service client second s =
     (let (base, key, c) = client in check_detection E service base key second (s\<lparr>ss_client := Some c\<rparr>))"

definition verify_checks :: "script_env \<Rightarrow> 's remote \<Rightarrow> string \<Rightarrow> ('s, json) procedure" where
  "verify_checks E service endpoint =
     sbind (tenant_key 0) (\<lambda>key.
     sbind (slift (make_client E endpoint key 15 2 1000)) (\<lambda>client.
     sbind (tenant_key 1) (\<lambda>other.
     sbind (slift (make_client E endpoint other 15 2 1000)) (\<lambda>second.
     sbind (verify_detection E service client second) (\<lambda>_. verify_sample E service endpoint key)))))"

definition verify_body :: "script_env \<Rightarrow> 's remote \<Rightarrow> string \<Rightarrow> json \<Rightarrow> ('s, json) procedure" where
  "verify_body E service endpoint admin =
     sbind (provision_one E service endpoint admin 0) (\<lambda>_.
     sbind (provision_one E service endpoint admin 1) (\<lambda>_. verify_checks E service endpoint))"

definition verify_deployment ::
    "script_env \<Rightarrow> 's remote \<Rightarrow> string \<Rightarrow> pyerror + json \<Rightarrow> 's \<Rightarrow> (pyerror + json) \<times> traffic" where
  "verify_deployment E service endpoint admin_file s0 =
     (case rbind (trusted_endpoint E endpoint) (\<lambda>_. rbind admin_file (\<lambda>v. subscript v ''key'')) of
        Inl e \<Rightarrow> (Inl e, [])
      | Inr admin \<Rightarrow>
          (let (r, s) = finally_do (verify_body E service endpoint admin) (cleanup E service endpoint)
                 (start_session s0 None)
           in (r, snd (ss_world s))))"

end
