(* ===== verification/Fixture.thy ===== *)
theory Fixture
  imports Remote Publish
begin

text \<open>
  The synthetic run of \<open>examples/solana_rpc_agent.py\<close>: 200 readiness checks in three phases, the evidence it demands of the
  service, the summaries it selects for a report, and the command line with its live mode.
\<close>

subsection \<open>Evidence\<close>

definition checked_count :: "int \<Rightarrow> json \<Rightarrow> pyerror + int" where
  "checked_count maximum v =
     (case v of JInt i \<Rightarrow> if 0 \<le> i \<and> i \<le> maximum then Inr i else Inl PyValueError | _ \<Rightarrow> Inl PyValueError)"

definition TOTAL_MAXIMUM :: int where "TOTAL_MAXIMUM = 1000000000"

definition checked_identifier :: "json \<Rightarrow> pyerror + string" where
  "checked_identifier v = (case v of JStr s \<Rightarrow> if hex64 s then Inr s else Inl PyValueError | _ \<Rightarrow> Inl PyValueError)"

text \<open>\<open>v == dimensions\<close>: mappings are equal when they have the same keys with equal values.\<close>

definition fixture_dimensions :: "string \<Rightarrow> json \<Rightarrow> bool" where
  "fixture_dimensions deployment v =
     (case v of
        JObj ms \<Rightarrow>
          set (keys ms) = {''deployment_id'', ''agent_id'', ''operation'', ''synthetic''} \<and>
          map_of ms ''deployment_id'' = Some (JStr deployment) \<and> map_of ms ''agent_id'' = Some (JStr AGENT_ID) \<and>
          map_of ms ''operation'' = Some (JStr ''tool'') \<and>
          (case map_of ms ''synthetic'' of Some b \<Rightarrow> equals_int b 1 | None \<Rightarrow> False)
      | _ \<Rightarrow> False)"

record selected_incident =
  si_incident_id :: string
  si_status :: string
  si_recovered :: bool
  si_regression :: bool

record selection =
  sn_stream_id :: string
  sn_deployment_id :: string
  sn_baseline :: "int \<times> int" \<comment> \<open>\<open>count\<close> and \<open>failures\<close>\<close>
  sn_current :: "int \<times> int"
  sn_incidents :: "selected_incident list"

definition selected_window :: "json \<Rightarrow> string \<Rightarrow> pyerror + int \<times> int" where
  "selected_window source window =
     rbind (rbind (subscript source window) (\<lambda>w. subscript w ''count'')) (\<lambda>v.
     rbind (checked_count 50 v) (\<lambda>count.
     rbind (rbind (subscript source window) (\<lambda>w. subscript w ''failures'')) (\<lambda>v.
     rbind (checked_count 50 v) (\<lambda>failures.
     rbind (needs (failures \<le> count) PyValueError) (\<lambda>_. Inr (count, failures))))))"

text \<open>An incident of the selected stream, or \<open>None\<close> for one that is passed over.\<close>

definition selected_one :: "string \<Rightarrow> json \<Rightarrow> pyerror + selected_incident option" where
  "selected_one stream_id incident =
     rbind (got incident ''stream_id'') (\<lambda>s.
       if s \<noteq> JStr stream_id then Inr None
       else rbind (got incident ''synthetic'') (\<lambda>b.
         if b \<noteq> JBool True then Inr None
         else
           rbind (subscript incident ''status'') (\<lambda>status.
           rbind (among status [''open'', ''resolved'', ''expired'']) (\<lambda>known.
           rbind (needs known PyValueError) (\<lambda>_.
           rbind (subscript incident ''incident_id'') (\<lambda>v.
           rbind (checked_identifier v) (\<lambda>incident_id.
           rbind (got incident ''resolution'') (\<lambda>resolution.
           rbind (subscript incident ''signals'') (\<lambda>signals.
           rbind (contains ''failure_rate_regression'' signals) (\<lambda>regression.
             Inr (Some
               \<lparr>si_incident_id = incident_id, si_status = (case status of JStr n \<Rightarrow> n | _ \<Rightarrow> []),
                si_recovered = (resolution = JStr ''recovered''), si_regression = regression\<rparr>)))))))))))"

definition selected_summary :: "string \<Rightarrow> json \<Rightarrow> pyerror + selection" where
  "selected_summary deployment summary =
     rbind (needs (item summary ''schema_version'' = Some (JStr ''1.0'')) PyValueError) (\<lambda>_.
     rbind (subscript summary ''streams'') (\<lambda>streams.
     rbind (iterate streams) (\<lambda>streams.
     rbind (rfilter (\<lambda>s. rbind (got s ''dimensions'') (\<lambda>d. Inr (fixture_dimensions deployment d))) streams) (\<lambda>matches.
       case matches of
         [source] \<Rightarrow>
           rbind (subscript source ''stream_id'') (\<lambda>v.
           rbind (checked_identifier v) (\<lambda>stream_id.
           rbind (selected_window source ''baseline'') (\<lambda>baseline.
           rbind (selected_window source ''current'') (\<lambda>current.
           rbind (subscript summary ''incidents'') (\<lambda>incidents.
           rbind (iterate incidents) (\<lambda>incidents.
           rbind (rmap (selected_one stream_id) incidents) (\<lambda>selected.
             Inr \<lparr>sn_stream_id = stream_id, sn_deployment_id = deployment, sn_baseline = baseline, sn_current = current,
                  sn_incidents = List.map_filter id selected\<rparr>)))))))
       | _ \<Rightarrow> Inl PyValueError))))"

text \<open>The selected summary as the mapping that the run returns, which \<open>report_from_summary\<close> accepts.\<close>

definition window_json :: "int \<times> int \<Rightarrow> json" where
  "window_json w = JObj [(''count'', JInt (fst w)), (''failures'', JInt (snd w))]"

definition selection_json :: "selection \<Rightarrow> json" where
  "selection_json sn = JObj
     [(''schema_version'', JStr ''1.0''),
      (''streams'', JArr [JObj
         [(''stream_id'', JStr (sn_stream_id sn)),
          (''dimensions'', JObj [(''deployment_id'', JStr (sn_deployment_id sn)), (''agent_id'', JStr AGENT_ID),
             (''operation'', JStr ''tool''), (''synthetic'', JBool True)]),
          (''baseline'', window_json (sn_baseline sn)), (''current'', window_json (sn_current sn))]]),
      (''incidents'', JArr (map (\<lambda>i. JObj
         [(''incident_id'', JStr (si_incident_id i)), (''stream_id'', JStr (sn_stream_id sn)), (''synthetic'', JBool True),
          (''status'', JStr (si_status i)), (''recovered'', JBool (si_recovered i)), (''regression'', JBool (si_regression i))])
         (sn_incidents sn)))]"

subsection \<open>The run\<close>

definition fixture_observed :: "script_env \<Rightarrow> string \<Rightarrow> bool \<Rightarrow> nat \<Rightarrow> observed" where
  "fixture_observed E deployment failing k =
     \<lparr>os_deployment_id = deployment, os_agent_version = (if failing then ''fixture-error-v2'' else ''fixture-healthy-v1''),
      os_synthetic = True, os_elapsed_ms = 0, os_event_id = se_uuid E k, os_now = se_now E k\<rparr>"

definition py_error :: "agent_error \<Rightarrow> pyerror" where
  "py_error e = (case e of Telemetry x \<Rightarrow> PySDK x | _ \<Rightarrow> PyValueError)"

text \<open>One check on the fixture; \<open>rd_continue\<close> is the outcome.\<close>

definition fixture_check :: "script_env \<Rightarrow> string \<Rightarrow> bool \<Rightarrow> ('s, bool) procedure" where
  "fixture_check E deployment failing s =
     (let (r, client', u) = check_readiness (se_runtime E) (fixture_call (se_agent E) failing)
            (fixture_observed E deployment failing (ss_drawn s)) (ss_client s) ()
      in (map_sum py_error rd_continue r, s\<lparr>ss_client := client', ss_drawn := ss_drawn s + 1\<rparr>))"

text \<open>\<open>result["ready"]\<close> and \<open>result["deferred"]\<close> over so many checks.\<close>

fun fixture_checks :: "script_env \<Rightarrow> string \<Rightarrow> bool \<Rightarrow> nat \<Rightarrow> nat \<times> nat \<Rightarrow> ('s, nat \<times> nat) procedure" where
  "fixture_checks E deployment failing 0 tally = sreturn tally"
| "fixture_checks E deployment failing (Suc n) tally =
     sbind (fixture_check E deployment failing) (\<lambda>continue.
       fixture_checks E deployment failing n
         (if continue then (fst tally + 1, snd tally) else (fst tally, snd tally + 1)))"

text \<open>What is done only with a client; \<open>None\<close> without one.\<close>

definition with_client :: "('s, 'a) procedure \<Rightarrow> ('s, 'a option) procedure" where
  "with_client m s =
     (if ss_client s = None then (Inr None, s) else let (r, s') = m s in (map_sum id Some r, s'))"

definition fixture_phase ::
    "script_env \<Rightarrow> 's remote \<Rightarrow> string \<Rightarrow> string \<Rightarrow> string \<Rightarrow> bool \<Rightarrow> nat \<Rightarrow> nat \<times> nat \<Rightarrow> ('s, nat \<times> nat) procedure" where
  "fixture_phase E service base key deployment failing checks tally =
     sbind (fixture_checks E deployment failing checks tally) (\<lambda>tally.
     sbind (with_client (sbind (client_flush E service base key) (\<lambda>n. slift (needs (n = checks) PyValueError)))) (\<lambda>_.
       sreturn tally))"

text \<open>\<open>before\<close>: a fresh client, and the totals of the tenant.\<close>

definition totals :: "json \<Rightarrow> pyerror + int \<times> int" where
  "totals v =
     rbind (subscript v ''accepted'') (\<lambda>a. rbind (checked_count TOTAL_MAXIMUM a) (\<lambda>accepted.
     rbind (subscript v ''duplicates'') (\<lambda>d. rbind (checked_count TOTAL_MAXIMUM d) (\<lambda>duplicates.
       Inr (accepted, duplicates)))))"

definition fixture_before :: "script_env \<Rightarrow> 's remote \<Rightarrow> string \<Rightarrow> string \<Rightarrow> ('s, int \<times> int) procedure" where
  "fixture_before E service base key =
     sbind (\<lambda>s. (needs (case ss_client s of None \<Rightarrow> False | Some c \<Rightarrow> list_all (\<lambda>p. snd p = 0) (counters c)) PyValueError, s)) (\<lambda>_.
     sbind (client_summary E service base key) (\<lambda>summary.
       slift (rbind (subscript summary ''totals'') totals)))"

definition fixture_summary :: "script_env \<Rightarrow> 's remote \<Rightarrow> string \<Rightarrow> string \<Rightarrow> string \<Rightarrow> ('s, json \<times> selection) procedure" where
  "fixture_summary E service base key deployment =
     sbind (client_summary E service base key) (\<lambda>summary.
     sbind (slift (selected_summary deployment summary)) (\<lambda>sn. sreturn (summary, sn)))"

definition opened_incidents :: "selection \<Rightarrow> selected_incident list" where
  "opened_incidents sn = filter (\<lambda>i. si_status i = ''open'' \<and> si_regression i) (sn_incidents sn)"

definition closed_incidents :: "selected_incident \<Rightarrow> selection \<Rightarrow> selected_incident list" where
  "closed_incidents i0 sn =
     filter (\<lambda>i. si_incident_id i = si_incident_id i0 \<and> si_status i = ''resolved'' \<and> si_recovered i) (sn_incidents sn)"

text \<open>The middle and the end of the run with a client.\<close>

definition fixture_regression ::
    "script_env \<Rightarrow> 's remote \<Rightarrow> string \<Rightarrow> string \<Rightarrow> string \<Rightarrow> ('s, selection \<times> selected_incident) procedure" where
  "fixture_regression E service base key deployment =
     sbind (fixture_summary E service base key deployment) (\<lambda>(summary, sn).
       case opened_incidents sn of [i] \<Rightarrow> sreturn (sn, i) | _ \<Rightarrow> sfail PyValueError)"

record run_evidence =
  ev_accepted_total :: int
  ev_duplicates_total :: int
  ev_sent :: nat
  ev_dropped :: nat
  ev_queued :: nat

definition fixture_evidence :: "json \<Rightarrow> int \<times> int \<Rightarrow> selected_incident \<Rightarrow> selection \<Rightarrow> client \<Rightarrow> pyerror + run_evidence" where
  "fixture_evidence summary before i0 sn c =
     rbind (rbind (subscript summary ''totals'') (\<lambda>t. rbind (subscript t ''accepted'') (checked_count TOTAL_MAXIMUM))) (\<lambda>a.
     rbind (rbind (subscript summary ''totals'') (\<lambda>t. rbind (subscript t ''duplicates'') (checked_count TOTAL_MAXIMUM))) (\<lambda>d.
       let accepted = a - fst before; duplicates = d - snd before in
       rbind (needs (length (closed_incidents i0 sn) = 1 \<and> accepted = 200 \<and> duplicates = 0 \<and> cl_sent c = 200 \<and>
           cl_dropped c = 0 \<and> cl_queue c = []) PyValueError) (\<lambda>_.
         Inr \<lparr>ev_accepted_total = accepted, ev_duplicates_total = duplicates, ev_sent = cl_sent c, ev_dropped = cl_dropped c,
              ev_queued = length (cl_queue c)\<rparr>)))"

definition fixture_recovery ::
    "script_env \<Rightarrow> 's remote \<Rightarrow> string \<Rightarrow> string \<Rightarrow> string \<Rightarrow> int \<times> int \<Rightarrow> selected_incident \<Rightarrow>
     ('s, selection \<times> run_evidence) procedure" where
  "fixture_recovery E service base key deployment before i0 =
     sbind (fixture_summary E service base key deployment) (\<lambda>(summary, sn) s.
       case ss_client s of
         None \<Rightarrow> (Inl PyAttributeError, s)
       | Some c \<Rightarrow> (rbind (fixture_evidence summary before i0 sn c) (\<lambda>e. Inr (sn, e)), s))"

record fixture_result =
  fx_deployment_id :: string
  fx_ready :: nat
  fx_deferred :: nat
  fx_regression :: "selection option"
  fx_recovery :: "selection option"
  fx_evidence :: "run_evidence option"

text \<open>\<open>run_fixture\<close>; \<open>collection_enabled\<close> is whether there is evidence.\<close>

definition run_fixture :: "script_env \<Rightarrow> 's remote \<Rightarrow> string \<Rightarrow> string \<Rightarrow> ('s, fixture_result) procedure" where
  "run_fixture E service base key =
     (let deployment = ''solana-fixture-'' @ se_hex E 0 in
      sbind (with_client (fixture_before E service base key)) (\<lambda>before.
      sbind (fixture_phase E service base key deployment False 50 (0, 0)) (\<lambda>tally.
      sbind (fixture_phase E service base key deployment True 50 tally) (\<lambda>tally.
      sbind (with_client (fixture_regression E service base key deployment)) (\<lambda>middle.
      sbind (fixture_phase E service base key deployment False 100 tally) (\<lambda>tally.
        case (before, middle) of
          (Some before, Some (regression, opened)) \<Rightarrow>
            sbind (fixture_recovery E service base key deployment before opened) (\<lambda>(recovery, ev).
              sreturn \<lparr>fx_deployment_id = deployment, fx_ready = fst tally, fx_deferred = snd tally,
                       fx_regression = Some regression, fx_recovery = Some recovery, fx_evidence = Some ev\<rparr>)
        | _ \<Rightarrow>
            sreturn \<lparr>fx_deployment_id = deployment, fx_ready = fst tally, fx_deferred = snd tally,
                     fx_regression = None, fx_recovery = None, fx_evidence = None\<rparr>))))))"

subsection \<open>The command line\<close>

definition evidence_json :: "run_evidence \<Rightarrow> json" where
  "evidence_json e = JObj
     [(''accepted'', JInt (ev_accepted_total e)), (''duplicates'', JInt (ev_duplicates_total e)), (''sent'', JInt (int (ev_sent e))),
      (''dropped'', JInt (int (ev_dropped e))), (''queued'', JInt (int (ev_queued e))),
      (''incident_opened'', JBool True), (''incident_recovered'', JBool True)]"

text \<open>What is printed, without the summaries, and what is written to a file.\<close>

definition fixture_header :: "fixture_result \<Rightarrow> members" where
  "fixture_header r =
     [(''synthetic'', JBool True), (''deployment_id'', JStr (fx_deployment_id r)), (''checks'', JInt 200),
      (''ready'', JInt (int (fx_ready r))), (''deferred'', JInt (int (fx_deferred r))),
      (''collection_enabled'', JBool (fx_evidence r \<noteq> None))]"

definition fixture_printed :: "fixture_result \<Rightarrow> json" where
  "fixture_printed r = JObj (fixture_header r @ [(''evidence'', json_opt evidence_json (fx_evidence r))])"

definition fixture_json :: "fixture_result \<Rightarrow> json" where
  "fixture_json r = JObj (fixture_header r @
     [(''regression_summary'', json_opt selection_json (fx_regression r)),
      (''recovery_summary'', json_opt selection_json (fx_recovery r)), (''evidence'', json_opt evidence_json (fx_evidence r))])"

definition readiness_printed :: "bool \<Rightarrow> readiness \<Rightarrow> json" where
  "readiness_printed collecting a = JObj
     [(''decision'', JStr (if rd_continue a then ''continue_planning'' else ''defer'')),
      (''outcome'', JStr (if rd_continue a then ''success'' else ''failure'')),
      (''failure_type'', json_opt JStr (rd_failure_type a)), (''reason'', JStr (rd_reason a)),
      (''synthetic'', JBool (rd_synthetic a)), (''collection_enabled'', JBool collecting)]"

text \<open>\<open>key\<close> is the environment variable \<open>RELIAMESH_API_KEY\<close>.\<close>

record agent_options =
  ao_live :: bool
  ao_endpoint :: "string option"
  ao_key :: "string option"
  ao_output :: "path option"

text \<open>
  How the command ends: a usage error of \<open>argparse\<close>, an exit code with what was printed on the standard output, or an
  exception that no handler takes.
\<close>

datatype agent_end = Usage | Exits nat "json option" | Escapes pyerror

definition handled :: "pyerror \<Rightarrow> bool" where
  "handled e =
     (case e of
        PySDK x \<Rightarrow> x \<noteq> Index_Error
      | _ \<Rightarrow> e \<in> {PyValueError, PyOSError, PyKeyError, PyTypeError})"

definition agent_client :: "script_env \<Rightarrow> agent_options \<Rightarrow> pyerror + (string \<times> string \<times> client) option" where
  "agent_client E a =
     (if present_str (ao_endpoint a)
      then rbind (make_client E (the (ao_endpoint a)) (JStr (the (ao_key a))) 3 1 100) (\<lambda>x. Inr (Some x))
      else Inr None)"

definition live_check ::
    "script_env \<Rightarrow> ('n \<Rightarrow> string \<Rightarrow> connection \<times> 'n) \<Rightarrow> 's remote \<Rightarrow> string \<Rightarrow> string \<Rightarrow> 'n \<Rightarrow> ('s, readiness) procedure" where
  "live_check E net service base key n s =
     (let (r, client', n') = check_readiness (se_runtime E) (devnet_call (se_agent E) net)
            \<lparr>os_deployment_id = ''solana-live-'' @ se_hex E 0, os_agent_version = ''planner-v1'', os_synthetic = False,
             os_elapsed_ms = se_elapsed_ms E, os_event_id = se_uuid E 0, os_now = se_now E 0\<rparr> (ss_client s) n
      in sbind (slift (map_sum py_error id r)) (\<lambda>a.
         sbind (with_client (sbind (client_flush E service base key) (\<lambda>sent. slift (needs (sent = 1) PyValueError)))) (\<lambda>_.
           sreturn a)) (s\<lparr>ss_client := client'\<rparr>))"

definition agent_body ::
    "script_env \<Rightarrow> ('n \<Rightarrow> string \<Rightarrow> connection \<times> 'n) \<Rightarrow> 's remote \<Rightarrow> disk \<Rightarrow> agent_options \<Rightarrow> machine \<Rightarrow> 'n \<Rightarrow> 's \<Rightarrow>
     (pyerror + nat \<times> json) \<times> machine \<times> 's session" where
  "agent_body E net service disk a m n s0 =
     (case agent_client E a of
        Inl e \<Rightarrow> (Inl e, m, start_session s0 None)
      | Inr opened \<Rightarrow>
          (let (base, key) = (case opened of None \<Rightarrow> ([], []) | Some (b, k, c) \<Rightarrow> (b, k));
               s = start_session s0 (map_option (snd \<circ> snd) opened) in
           if ao_live a then
             (case live_check E net service base key n s of
                (Inl e, s') \<Rightarrow> (Inl e, m, s')
              | (Inr r, s') \<Rightarrow> (Inr (if rd_continue r then 0 else 2, readiness_printed (opened \<noteq> None) r), m, s'))
           else
             (case run_fixture E service base key s of
                (Inl e, s') \<Rightarrow> (Inl e, m, s')
              | (Inr r, s') \<Rightarrow>
                  (case ao_output a of
                     None \<Rightarrow> (Inr (0, fixture_printed r), m, s')
                   | Some p \<Rightarrow>
                       (case write_private (se_indented E) disk p (fixture_json r) m of
                          (Inl e, m') \<Rightarrow> (Inl PyOSError, m', s')
                        | (Inr u, m') \<Rightarrow> (Inr (0, fixture_printed r), m', s'))))))"

text \<open>\<open>main\<close>.\<close>

definition agent_main ::
    "script_env \<Rightarrow> ('n \<Rightarrow> string \<Rightarrow> connection \<times> 'n) \<Rightarrow> 's remote \<Rightarrow> disk \<Rightarrow> agent_options \<Rightarrow> machine \<Rightarrow> 'n \<Rightarrow> 's \<Rightarrow>
     agent_end \<times> machine \<times> traffic" where
  "agent_main E net service disk a m n s0 =
     (if ao_live a \<and> ao_output a \<noteq> None then (Usage, m, [])
      else if present_str (ao_endpoint a) \<and> \<not> present_str (ao_key a) then (Usage, m, [])
      else let (r, m', s) = agent_body E net service disk a m n s0
           in (case r of Inr (status, printed) \<Rightarrow> Exits status (Some printed)
                       | Inl e \<Rightarrow> if handled e then Exits 1 None else Escapes e,
               m', snd (ss_world s)))"

end
