(* ===== verification/Fixture_Facts.thy ===== *)
theory Fixture_Facts
  imports Fixture Agent_Facts
begin

text \<open>
  The synthetic run of the agent: the outcome of every check, what the evidence certifies, and the reports that can be made
  of the selected summaries.
\<close>

subsection \<open>The fixture\<close>

text \<open>\<open>json.loads\<close> on the failing reply of the fixture.\<close>

definition reads_error :: "agent_env \<Rightarrow> bool" where
  "reads_error G \<longleftrightarrow> ag_loads G fixture_error =
     Some (JObj [(''jsonrpc'', JStr ''2.0''), (''id'', JInt 1), (''error'', JObj [(''code'', JInt (-32005))])])"

lemma bit_length_exact: "n < 2 ^ k \<Longrightarrow> 2 ^ (k - 1) \<le> n \<Longrightarrow> 0 < k \<Longrightarrow> bit_length n = k"
proof -
  assume n: "n < 2 ^ k" "2 ^ (k - 1) \<le> n" "0 < k"
  have "bit_length n \<le> k" using bit_length_le n(1) by blast
  moreover have "\<not> bit_length n \<le> k - 1" using bit_length_le n(2) by (simp add: not_less)
  ultimately show ?thesis using n(3) by simp
qed

lemma decode_digits_values:
  "list_all (\<lambda>d. d < 58) ds \<Longrightarrow> decode_digits (map (nth BASE58) ds) n = Some (foldl (\<lambda>n d. n * 58 + d) n ds)"
  by (induction ds arbitrary: n) (simp_all add: digit58_nth)

lemma genesis_number:
  "decode_digits DEVNET_GENESIS 0 = Some 93335209849747544227389463784928800391497578035603325159660475710651140670379"
proof -
  let ?ds = "[13, 51, 29, 26, 24, 9, 10, 32, 33, 31, 48, 5, 41, 20, 38, 37, 31, 18, 46, 52, 24, 52, 0, 5, 5, 28, 27, 1, 55, 48, 33, 0, 54, 35, 33, 29, 46, 55, 22, 43, 49, 32, 10, 15] :: nat list"
  have "DEVNET_GENESIS = map (nth BASE58) ?ds" by (simp add: DEVNET_GENESIS_def BASE58_def)
  moreover have "list_all (\<lambda>d. d < 58) ?ds" by simp
  then have "decode_digits (map (nth BASE58) ?ds) 0 = Some (foldl (\<lambda>n d. n * 58 + d) 0 ?ds)" by (rule decode_digits_values)
  moreover have "foldl (\<lambda>n d. n * 58 + d) 0 ?ds = 93335209849747544227389463784928800391497578035603325159660475710651140670379"
    by simp
  ultimately show ?thesis by argo
qed

lemma fixture_hashes:
  "hash32 (JStr DEVNET_GENESIS) = Inr ()" "hash32 (JStr ''11111111111111111111111111111111'') = Inr ()"
proof -
  note genesis_number
  moreover have "bit_length 93335209849747544227389463784928800391497578035603325159660475710651140670379 = 256"
    by (rule bit_length_exact) simp_all
  moreover have "leading (CHR ''1'') DEVNET_GENESIS = 0" "length DEVNET_GENESIS = 44" by (simp_all add: DEVNET_GENESIS_def leading_def)
  ultimately show "hash32 (JStr DEVNET_GENESIS) = Inr ()" by (simp add: hash32_def)
  have ones: "''11111111111111111111111111111111'' = replicate 32 (CHR ''1'') @ []" by (simp add: numeral_eq_Suc)
  have "decode_digits ''11111111111111111111111111111111'' 0 = Some 0" unfolding ones by (simp only: decode_digits_ones decode_digits.simps)
  moreover have "leading (CHR ''1'') ''11111111111111111111111111111111'' = 32" by (simp add: leading_def)
  ultimately show "hash32 (JStr ''11111111111111111111111111111111'') = Inr ()" by (simp add: hash32_def bit_length.simps [of 0])
qed

lemma fixture_rpc_healthy: "check_rpc (fixture_call G False) () = (Inr (), ())"
  by (simp add: check_rpc_def sbind_def slift_def sfail_def sreturn_def fixture_call_def fixture_hashes u64_def read_latest_def
      object_member_def member_def MIN_REMAINING_BLOCKS_def)

lemma fixture_rpc_failing:
  assumes "reads_error G"
  shows "check_rpc (fixture_call G True) () = (Inl (Readiness ''tool_error'' ''rpc_error''), ())"
  using assms
  by (simp add: check_rpc_def sbind_def slift_def sfail_def sreturn_def fixture_call_def fixture_hashes u64_def rpc_result_def
      reads_error_def)

lemma check_readiness_continue:
  assumes "check_readiness R rpc ob client s = (Inr a, client', s')"
  shows "rd_continue a = (\<not> isl (fst (check_rpc rpc s))) \<and> (client' = None \<longleftrightarrow> client = None)"
proof -
  obtain r s1 where r: "check_rpc rpc s = (r, s1)" by fastforce
  show ?thesis
  proof (cases r)
    case (Inl e)
    then obtain f x where "e = Readiness f x" using assms by (cases e) (simp_all add: check_readiness_def r Let_def)
    with assms Inl show ?thesis
      by (auto simp: check_readiness_def r Let_def readiness_of_def split: option.splits prod.splits sum.splits)
  next
    case (Inr u)
    with assms show ?thesis
      by (auto simp: check_readiness_def r Let_def readiness_of_def split: option.splits prod.splits sum.splits)
  qed
qed

lemma fixture_check_outcome:
  assumes "reads_error (se_agent E)" "fixture_check E deployment failing s = (Inr b, s')"
  shows "b = (\<not> failing) \<and> ss_world s' = ss_world s \<and> (ss_client s' = None \<longleftrightarrow> ss_client s = None)"
proof -
  obtain r client' u where c: "check_readiness (se_runtime E) (fixture_call (se_agent E) failing)
      (fixture_observed E deployment failing (ss_drawn s)) (ss_client s) () = (r, client', u)" by (cases rule: prod_cases3)
  with assms(2) obtain a where "r = Inr a" "b = rd_continue a" "s' = s\<lparr>ss_client := client', ss_drawn := ss_drawn s + 1\<rparr>"
    by (cases r) (auto simp: fixture_check_def)
  moreover have "isl (fst (check_rpc (fixture_call (se_agent E) failing) ())) = failing"
    by (cases failing) (simp_all add: fixture_rpc_healthy fixture_rpc_failing [OF assms(1)])
  ultimately show ?thesis using check_readiness_continue [OF c [unfolded \<open>r = Inr a\<close>]] by simp
qed

lemma fixture_checks_outcome:
  assumes "reads_error (se_agent E)" "fixture_checks E deployment failing n tally s = (Inr tally', s')"
  shows "tally' = (if failing then (fst tally, snd tally + n) else (fst tally + n, snd tally)) \<and>
    ss_world s' = ss_world s \<and> (ss_client s' = None \<longleftrightarrow> ss_client s = None)"
  using assms(2)
proof (induction n arbitrary: tally s)
  case (Suc n)
  then obtain b s1 where 1: "fixture_check E deployment failing s = (Inr b, s1)"
    and 2: "fixture_checks E deployment failing n (if b then (fst tally + 1, snd tally) else (fst tally, snd tally + 1)) s1 = (Inr tally', s')"
    by (auto simp: sbind_def split: prod.splits sum.splits)
  from fixture_check_outcome [OF assms(1) 1] Suc.IH [OF 2] show ?case by (cases failing) simp_all
qed (simp add: sreturn_def)

lemma fixture_check_silent:
  assumes "reads_error (se_agent E)" "ss_client s = None"
  shows "fixture_check E deployment failing s = (Inr (\<not> failing), s\<lparr>ss_drawn := ss_drawn s + 1\<rparr>)"
  using assms(2) fixture_rpc_healthy [of "se_agent E"] fixture_rpc_failing [OF assms(1)]
  by (cases failing) (simp_all add: fixture_check_def check_readiness_def readiness_of_def Let_def)

subsection \<open>Selected summaries\<close>

definition selection_ok :: "selection \<Rightarrow> bool" where
  "selection_ok sn \<longleftrightarrow> hex64 (sn_stream_id sn) \<and>
     0 \<le> snd (sn_baseline sn) \<and> snd (sn_baseline sn) \<le> fst (sn_baseline sn) \<and> fst (sn_baseline sn) \<le> 50 \<and>
     0 \<le> snd (sn_current sn) \<and> snd (sn_current sn) \<le> fst (sn_current sn) \<and> fst (sn_current sn) \<le> 50 \<and>
     (\<forall>i \<in> set (sn_incidents sn). hex64 (si_incident_id i) \<and> si_status i \<in> {''open'', ''resolved'', ''expired''})"

lemma checked_count_Inr: "checked_count m v = Inr i \<longleftrightarrow> v = JInt i \<and> 0 \<le> i \<and> i \<le> m"
  by (auto simp: checked_count_def split: json.splits)

lemma checked_identifier_Inr: "checked_identifier v = Inr x \<longleftrightarrow> v = JStr x \<and> hex64 x"
  by (auto simp: checked_identifier_def split: json.splits)

lemma selected_window_Inr: "selected_window source window = Inr w \<Longrightarrow> 0 \<le> snd w \<and> snd w \<le> fst w \<and> fst w \<le> 50"
  by (auto simp: selected_window_def rbind_Inr_iff checked_count_Inr)

lemma among_Inr: "among v names = Inr True \<Longrightarrow> \<exists>x \<in> set names. v = JStr x"
  by (cases v) (auto simp: among_def hashed_of_def)

lemma selected_one_Inr:
  "selected_one stream_id v = Inr (Some i) \<Longrightarrow> hex64 (si_incident_id i) \<and> si_status i \<in> {''open'', ''resolved'', ''expired''}"
  by (auto simp: selected_one_def rbind_Inr_iff checked_identifier_Inr split: if_splits dest!: among_Inr)

lemma selected_summary_ok:
  assumes "selected_summary deployment summary = Inr sn"
  shows "selection_ok sn" "sn_deployment_id sn = deployment"
proof -
  obtain matches where chosen: "(case matches of
         [source] \<Rightarrow>
           rbind (subscript source ''stream_id'') (\<lambda>v.
           rbind (checked_identifier v) (\<lambda>stream_id.
           rbind (selected_window source ''baseline'') (\<lambda>baseline.
           rbind (selected_window source ''current'') (\<lambda>current.
           rbind (subscript summary ''incidents'') (\<lambda>incidents.
           rbind (iterate incidents) (\<lambda>incidents.
           rbind (rmap (selected_one stream_id) incidents) (\<lambda>selected.
             Inr \<lparr>sn_stream_id = stream_id, sn_deployment_id = deployment, sn_baseline = baseline, sn_current = current,
                  sn_incidents = List.map_filter id selected\<rparr>)))))))
       | _ \<Rightarrow> Inl PyValueError) = Inr sn"
    using assms unfolding selected_summary_def rbind_Inr_iff by blast
  then obtain source where "matches = [source]" by (auto split: list.splits)
  with chosen obtain v stream_id b c incidents selected where parts: "checked_identifier v = Inr stream_id"
    "selected_window source ''baseline'' = Inr b" "selected_window source ''current'' = Inr c"
    "rmap (selected_one stream_id) incidents = Inr selected"
    and sn: "sn = \<lparr>sn_stream_id = stream_id, sn_deployment_id = deployment, sn_baseline = b, sn_current = c,
                  sn_incidents = List.map_filter id selected\<rparr>"
    by (auto simp: rbind_Inr_iff)
  note windows = selected_window_Inr [OF parts(2)] selected_window_Inr [OF parts(3)]
  have "hex64 (si_incident_id i) \<and> si_status i \<in> {''open'', ''resolved'', ''expired''}" if "Some i \<in> set selected" for i
    using parts(4) that by (auto simp: rmap_Inr list_all2_conv_all_nth in_set_conv_nth dest!: selected_one_Inr)
  with parts(1) windows show "selection_ok sn" by (auto simp: selection_ok_def sn checked_identifier_Inr List.map_filter_def)
  show "sn_deployment_id sn = deployment" by (simp add: sn)
qed

subsection \<open>Reports of a selection\<close>

definition with_name :: "string \<Rightarrow> selection \<Rightarrow> int" where
  "with_name name sn = int (length (filter (\<lambda>i. si_status i = name) (sn_incidents sn)))"

definition selection_report :: "selection \<Rightarrow> string \<Rightarrow> int \<Rightarrow> window_report" where
  "selection_report sn version us =
     \<lparr>wr_server_version = version, wr_generated_at = stamp us, wr_synthetic = True, wr_stream_count = 1,
      wr_baseline_samples = fst (sn_baseline sn), wr_baseline_failures = snd (sn_baseline sn),
      wr_current_samples = fst (sn_current sn), wr_current_failures = snd (sn_current sn),
      wr_open_incidents = with_name ''open'' sn, wr_resolved_incidents = with_name ''resolved'' sn,
      wr_expired_incidents = with_name ''expired'' sn\<rparr>"

lemma each_map: "(\<And>x. x \<in> set xs \<Longrightarrow> f (g x) = Some (h x)) \<Longrightarrow> each f (map g xs) = Some (map h xs)"
  by (induction xs) simp_all

lemma kept_map: "(\<And>x. x \<in> set xs \<Longrightarrow> f (g x) = Some True) \<Longrightarrow> kept f (map g xs) = Some (map g xs)"
  by (induction xs) simp_all

lemma sum_of_bools: "sum_list (map (\<lambda>i. of_bool (P i)) xs) = int (length (filter P xs))"
  by (induction xs) simp_all

lemma json_simps: "item (JObj ms) k = map_of ms k" "iterated (JArr vs) = Some vs" "hashed_of (JStr x) = Some (Words x)"
  by (simp_all add: item_def iterated_def hashed_of_def)

lemma three_names:
  "a \<noteq> b \<Longrightarrow> b \<noteq> c \<Longrightarrow> a \<noteq> c \<Longrightarrow>
    length (filter (\<lambda>i. f i = a) xs) + length (filter (\<lambda>i. f i = b) xs) + length (filter (\<lambda>i. f i = c) xs) \<le> length xs"
  by (induction xs) auto

lemma project_selection:
  assumes "selection_ok sn"
  shows "project_json R (selection_json sn) True version (Aware us) = check_report R (selection_report sn version us)"
proof -
  let ?i = "\<lambda>i. JObj
         [(''incident_id'', JStr (si_incident_id i)), (''stream_id'', JStr (sn_stream_id sn)), (''synthetic'', JBool True),
          (''status'', JStr (si_status i)), (''recovered'', JBool (si_recovered i)), (''regression'', JBool (si_regression i))]"
  have kept: "kept (\<lambda>i. do { v \<leftarrow> item i ''synthetic'';
            if v \<noteq> JBool True then Some False
            else do { s \<leftarrow> item i ''stream_id''; h \<leftarrow> hashed_of s; Some (h \<in> set [Words (sn_stream_id sn)]) } })
      (map ?i (sn_incidents sn)) = Some (map ?i (sn_incidents sn))"
    by (rule kept_map) (simp add: json_simps)
  have counted: "counted (map ?i (sn_incidents sn)) name = Some (with_name name sn)" for name
    unfolding counted_def by (subst each_map [where h = "\<lambda>i. of_bool (si_status i = name)"])
      (simp_all add: json_simps sum_of_bools with_name_def)
  show ?thesis
    by (simp add: project_json_def selection_json_def json_simps kept counted summed_def addend_def window_json_def
        selection_report_def)
qed

lemma selection_reported:
  assumes "selection_ok sn" "version_ok version" "stamp_ok R (stamp us)" "length (sn_incidents sn) \<le> 32"
  shows "project_json R (selection_json sn) True version (Aware us) = Some (selection_report sn version us)"
proof -
  let ?n = "\<lambda>name. length (filter (\<lambda>i. si_status i = name) (sn_incidents sn))"
  have "?n ''open'' + ?n ''resolved'' + ?n ''expired'' \<le> length (sn_incidents sn)" by (rule three_names) simp_all
  then have "?n ''open'' + ?n ''resolved'' + ?n ''expired'' \<le> 32" using assms(4) by linarith
  then show ?thesis
    using assms(1-3) unfolding project_selection [OF assms(1)]
    by (auto simp: check_report_def selection_report_def count_ok_def counts_consistent_def selection_ok_def with_name_def)
qed

subsection \<open>The run\<close>

definition tallied :: "bool \<Rightarrow> nat \<Rightarrow> nat \<times> nat \<Rightarrow> nat \<times> nat" where
  "tallied failing n tally = (if failing then (fst tally, snd tally + n) else (fst tally + n, snd tally))"

lemma fixture_checks_silent:
  "reads_error (se_agent E) \<Longrightarrow> ss_client s = None \<Longrightarrow>
    fixture_checks E deployment failing n tally s = (Inr (tallied failing n tally), s\<lparr>ss_drawn := ss_drawn s + n\<rparr>)"
  by (induction n arbitrary: tally s) (simp_all add: sreturn_def sbind_def fixture_check_silent tallied_def)

lemma fixture_phase_silent:
  "reads_error (se_agent E) \<Longrightarrow> ss_client s = None \<Longrightarrow>
    fixture_phase E service base key deployment failing n tally s = (Inr (tallied failing n tally), s\<lparr>ss_drawn := ss_drawn s + n\<rparr>)"
  by (simp add: fixture_phase_def sbind_def sreturn_def fixture_checks_silent with_client_def)

lemma run_fixture_silent:
  assumes "reads_error (se_agent E)" "ss_client s = None"
  shows "run_fixture E service base key s =
    (Inr \<lparr>fx_deployment_id = ''solana-fixture-'' @ se_hex E 0, fx_ready = 150, fx_deferred = 50, fx_regression = None,
          fx_recovery = None, fx_evidence = None\<rparr>, s\<lparr>ss_drawn := ss_drawn s + 200\<rparr>)"
  using assms
  by (simp add: run_fixture_def Let_def sbind_def sreturn_def with_client_def fixture_phase_silent tallied_def)

lemma client_flush_some: "client_flush E service base key s = (r, s') \<Longrightarrow> (ss_client s' = None) = (ss_client s = None)"
  by (auto simp: client_flush_def split: option.splits prod.splits)

lemma client_summary_some: "client_summary E service base key s = (r, s') \<Longrightarrow> (ss_client s' = None) = (ss_client s = None)"
  by (auto simp: client_summary_def client_get_def split: option.splits prod.splits)

lemma with_client_Inr:
  assumes "ss_client s = Some c"
  shows "with_client m s = (Inr x, s') \<longleftrightarrow> (\<exists>y. x = Some y \<and> m s = (Inr y, s'))"
  using assms by (cases "m s"; cases "fst (m s)") (auto simp: with_client_def)

lemma run_Inr: "sbind m f s = (Inr y, s') \<longleftrightarrow> (\<exists>x s1. m s = (Inr x, s1) \<and> f x s1 = (Inr y, s'))"
  by (auto simp: sbind_def split: prod.splits sum.splits)

lemma run_simps: "slift r s = (Inr y, s') \<longleftrightarrow> r = Inr y \<and> s' = s" "sreturn x s = (Inr y, s') \<longleftrightarrow> y = x \<and> s' = s"
  "sfail e s = (Inr y, s') \<longleftrightarrow> False"
  by (auto simp: slift_def sreturn_def sfail_def)

lemma run_single:
  "(case xs of [i] \<Rightarrow> sreturn (f i) | _ \<Rightarrow> sfail e) s = (Inr y, s') \<longleftrightarrow> (\<exists>i. xs = [i] \<and> y = f i \<and> s' = s)"
  by (auto simp: sreturn_def sfail_def split: list.splits)

lemma fixture_phase_collected:
  assumes "reads_error (se_agent E)" "fixture_phase E service base key deployment failing n tally s = (Inr tally', s')" "ss_client s \<noteq> None"
  shows "tally' = tallied failing n tally \<and> ss_client s' \<noteq> None"
proof -
  obtain t s1 x s2 where 1: "fixture_checks E deployment failing n tally s = (Inr t, s1)"
    and 2: "with_client (sbind (client_flush E service base key) (\<lambda>k. slift (needs (k = n) PyValueError))) s1 = (Inr x, s2)"
    and t: "tally' = t" "s' = s2"
    using assms(2) by (auto simp: fixture_phase_def run_Inr run_simps)
  from fixture_checks_outcome [OF assms(1) 1] assms(3) have s1: "t = tallied failing n tally" "ss_client s1 \<noteq> None"
    by (auto simp: tallied_def)
  then obtain c where "ss_client s1 = Some c" by auto
  from 2 [unfolded with_client_Inr [OF this]] have "ss_client s2 \<noteq> None"
    using s1(2) by (auto simp: run_Inr run_simps dest: client_flush_some)
  with s1 t show ?thesis by simp
qed

text \<open>What a run with a client has seen: a fresh client, one regression, its recovery, and the counts of the service and the client.\<close>

definition evidence_of :: "selection \<Rightarrow> selection \<Rightarrow> run_evidence \<Rightarrow> client \<Rightarrow> bool" where
  "evidence_of sn1 sn2 ev c \<longleftrightarrow>
     (\<exists>i. opened_incidents sn1 = [i] \<and> length (closed_incidents i sn2) = 1) \<and>
     ev_accepted_total ev = 200 \<and> ev_duplicates_total ev = 0 \<and> ev_sent ev = 200 \<and> ev_dropped ev = 0 \<and> ev_queued ev = 0 \<and>
     cl_sent c = 200 \<and> cl_dropped c = 0 \<and> cl_queue c = []"

lemma fixture_evidence_Inr:
  assumes "fixture_evidence summary before i sn c = Inr ev"
  shows "length (closed_incidents i sn) = 1 \<and> ev_accepted_total ev = 200 \<and> ev_duplicates_total ev = 0 \<and> ev_sent ev = 200 \<and>
    ev_dropped ev = 0 \<and> ev_queued ev = 0 \<and> cl_sent c = 200 \<and> cl_dropped c = 0 \<and> cl_queue c = []"
  using assms by (auto simp: fixture_evidence_def rbind_Inr_iff Let_def)

lemma run_fixture_collected:
  assumes "reads_error (se_agent E)" "run_fixture E service base key s = (Inr r, s')" "ss_client s = Some c"
  shows "fx_ready r = 150 \<and> fx_deferred r = 50 \<and> (\<forall>p \<in> set (counters c). snd p = 0) \<and>
    (\<exists>sn1 sn2 ev c'. fx_regression r = Some sn1 \<and> fx_recovery r = Some sn2 \<and> fx_evidence r = Some ev \<and> ss_client s' = Some c' \<and>
       selection_ok sn1 \<and> selection_ok sn2 \<and> evidence_of sn1 sn2 ev c')"
proof -
  let ?d = "''solana-fixture-'' @ se_hex E 0"
  obtain b s1 t1 s2 t2 s3 m s4 t3 s5 where
    before: "with_client (fixture_before E service base key) s = (Inr b, s1)"
    and p1: "fixture_phase E service base key ?d False 50 (0, 0) s1 = (Inr t1, s2)"
    and p2: "fixture_phase E service base key ?d True 50 t1 s2 = (Inr t2, s3)"
    and middle: "with_client (fixture_regression E service base key ?d) s3 = (Inr m, s4)"
    and p3: "fixture_phase E service base key ?d False 100 t2 s4 = (Inr t3, s5)"
    and rest: "(case (b, m) of
          (Some before, Some (regression, opened)) \<Rightarrow>
            sbind (fixture_recovery E service base key ?d before opened) (\<lambda>(recovery, ev).
              sreturn \<lparr>fx_deployment_id = ?d, fx_ready = fst t3, fx_deferred = snd t3,
                       fx_regression = Some regression, fx_recovery = Some recovery, fx_evidence = Some ev\<rparr>)
        | _ \<Rightarrow>
            sreturn \<lparr>fx_deployment_id = ?d, fx_ready = fst t3, fx_deferred = snd t3,
                     fx_regression = None, fx_recovery = None, fx_evidence = None\<rparr>) s5 = (Inr r, s')"
    using assms(2) unfolding run_fixture_def Let_def run_Inr by blast
  have b: "(\<forall>p \<in> set (counters c). snd p = 0) \<and> b \<noteq> None \<and> ss_client s1 \<noteq> None"
    using before [unfolded with_client_Inr [OF assms(3)]] assms(3)
    by (auto simp: fixture_before_def run_Inr run_simps list_all_iff dest: client_summary_some)
  note q1 = fixture_phase_collected [OF assms(1) p1] and q2 = fixture_phase_collected [OF assms(1) p2]
    and q3 = fixture_phase_collected [OF assms(1) p3]
  from b q1 q2 obtain c3 where c3: "ss_client s3 = Some c3" by auto
  from middle [unfolded with_client_Inr [OF c3]] obtain sn1 i where m: "m = Some (sn1, i)"
    and reg: "fixture_regression E service base key ?d s3 = (Inr (sn1, i), s4)" by (cases m) auto
  have s4: "opened_incidents sn1 = [i]" "selection_ok sn1" "ss_client s4 \<noteq> None"
    using reg c3 by (auto simp: fixture_regression_def fixture_summary_def run_Inr run_simps run_single dest!: client_summary_some
        dest: selected_summary_ok)
  from q3 s4(3) q1 q2 b have t3: "t3 = (150, 50)" "ss_client s5 \<noteq> None" by (auto simp: tallied_def)
  from rest m b obtain before where rec: "sbind (fixture_recovery E service base key ?d before i) (\<lambda>(recovery, ev).
      sreturn \<lparr>fx_deployment_id = ?d, fx_ready = fst t3, fx_deferred = snd t3,
               fx_regression = Some sn1, fx_recovery = Some recovery, fx_evidence = Some ev\<rparr>) s5 = (Inr r, s')" by auto
  from rec obtain sn2 ev c' summary where r: "r = \<lparr>fx_deployment_id = ?d, fx_ready = fst t3, fx_deferred = snd t3,
               fx_regression = Some sn1, fx_recovery = Some sn2, fx_evidence = Some ev\<rparr>"
    and sel: "selected_summary ?d summary = Inr sn2" and c': "ss_client s' = Some c'"
    and ev: "fixture_evidence summary before i sn2 c' = Inr ev"
    by (auto simp: fixture_recovery_def fixture_summary_def run_Inr run_simps rbind_Inr_iff split: option.splits)
  have "evidence_of sn1 sn2 ev c'" using fixture_evidence_Inr [OF ev] s4(1) by (simp add: evidence_of_def)
  then show ?thesis using b s4(2) selected_summary_ok(1) [OF sel] c' by (simp add: r t3)
qed

end
