(* ===== verification/Demo_Drills.thy ===== *)
theory Demo_Drills
  imports Demo_Edge Remote Deployment Fixture_Facts Json_Inject
begin

text \<open>
  Scripted services and the runs of the SDK client against them, for the witnesses about the scripts: every
  identifier and every reading of the clock is the same, so that the events of a phase are equal.
\<close>

subsection \<open>Sizes\<close>

definition unescaped :: "string \<Rightarrow> bool" where
  "unescaped s \<longleftrightarrow> list_all (\<lambda>c. length (escape_char c) = 1) s"

lemma length_unescaped: "unescaped s \<Longrightarrow> length (dump_string s) = length s + 2"
proof -
  assume "unescaped s"
  then have "length (concat (map escape_char s)) = length s" by (induction s) (simp_all add: unescaped_def)
  then show ?thesis by (simp add: dump_string_def)
qed

lemma event_size_sum:
  "event_size R ms = 2 + sum_list (map (\<lambda>p. length (dump_string (fst p)) + 1 + length (dumps R (snd p))) ms) + (length ms - 1)"
proof -
  have "length (dumps R (JObj ms)) = 2 + length (join (map (\<lambda>(k, v). dump_string k @ CHR '':'' # dumps R v) ms))" by simp
  then show ?thesis by (simp only: event_size_def length_join length_map) (simp add: comp_def case_prod_beta)
qed

subsection \<open>A flush that is acknowledged\<close>

lemma fill_all:
  "length batch + length queue = limit \<Longrightarrow> bytes + sum_list (map (\<lambda>e. event_size R e + 1) queue) \<le> BATCH_BYTES \<Longrightarrow>
    fill R limit batch bytes queue = Some (batch @ queue, [])"
  by (induction R limit batch bytes queue rule: fill.induct) (auto simp: Let_def)

lemma flush_once:
  assumes "cl_queue c = replicate n e" "0 < n" "n \<le> 100" "n * (event_size R e + 1) \<le> 130000"
    and "\<And>p. server w p = (Reply body, w' p)" "length body \<le> 100" "loads body = Some ack" "acknowledged n ack"
  shows "\<exists>p. flush R loads server c w = (Inr n, c\<lparr>cl_queue := [], cl_sent := cl_sent c + n\<rparr>, w' p)"
proof -
  have fill: "next_batch R n (replicate n e) = Some (replicate n e, [])"
    using assms(3,4) fill_all [of "[]" "replicate n e" n EMPTY_BATCH_BYTES R]
    by (simp add: next_batch_def BATCH_EVENTS_def min_def EMPTY_BATCH_BYTES_def BATCH_BYTES_def sum_list_replicate)
  have "send_request loads server k p w = (read_reply loads body, 0, w' p)" for k p
    by (subst send_request.simps) (simp add: assms(5))
  moreover have "\<exists>v. read_reply loads body = Inr v \<and> v = ack"
    using assms(6-8) by (auto simp: read_reply_def MAX_RESPONSE_def acknowledged_def split: json.splits)
  ultimately have "deliver R loads server (replicate n e) (c\<lparr>cl_queue := []\<rparr>) w =
      (Inr n, c\<lparr>cl_queue := [], cl_sent := cl_sent c + n\<rparr>, w' (dumps R (batch_json (replicate n e))))"
    using assms(8) by (auto simp: deliver_def)
  then show ?thesis
    using assms(2) unfolding flush_def assms(1) length_replicate
    by (subst flush_loop.simps) (auto simp: assms(1) fill flush_loop.simps [of _ _ _ 0])
qed

subsection \<open>Scripted services\<close>

text \<open>A service that gives prepared answers in turn: an error status, or a status with a document.\<close>

type_synonym answer = "nat \<times> json option"

definition prepared :: "answer list \<Rightarrow> nat remote" where
  "prepared answers n c =
     (case (if n < length answers then answers ! n else (500, None)) of
        (st, None) \<Rightarrow> Refused st
      | (st, Some v) \<Rightarrow> Answered st (dumps edge_runtime v),
      n + 1)"

text \<open>A reader for the documents of the service, and the environment of a script.\<close>

definition reader_of :: "answer list \<Rightarrow> string \<Rightarrow> json option" where
  "reader_of answers b = List.find (\<lambda>v. dumps edge_runtime v = b) (List.map_filter snd answers)"

abbreviation readable :: "answer list \<Rightarrow> bool" where
  "readable answers \<equiv> list_all (\<lambda>a. case snd a of None \<Rightarrow> True | Some v \<Rightarrow> no_floats v) answers"

definition drill_id :: string where "drill_id = ''00000000-0000-4000-8000-000000000001''"

definition drill_env :: "answer list \<Rightarrow> script_env" where
  "drill_env answers =
     \<lparr>se_agent =
        \<lparr>ag_runtime = edge_runtime,
         ag_loads = (\<lambda>b. if b = fixture_error
           then Some (JObj [(''jsonrpc'', JStr ''2.0''), (''id'', JInt 1), (''error'', JObj [(''code'', JInt (-32005))])])
           else None),
         ag_render = dumps edge_runtime\<rparr>,
      se_loads = reader_of answers, se_indented = dumps edge_runtime, se_uuid = (\<lambda>k. drill_id),
      se_hex = (\<lambda>k. replicate 32 (CHR ''a'')), se_now = (\<lambda>k. 1000000000000000), se_elapsed_ms = 1,
      se_urlsplit = (\<lambda>u. if u = ''https://h'' then Some \<lparr>up_scheme = ''https'', up_hostname = Some ''h'', up_port = None,
        up_username = None, up_password = None, up_query = [], up_fragment = []\<rparr> else None),
      se_urlpath = (\<lambda>u. []), se_loopback = (\<lambda>h. None)\<rparr>"

lemma reader_reads:
  assumes "(st, Some v) \<in> set answers" "readable answers"
  shows "reader_of answers (dumps edge_runtime v) = Some v"
proof -
  have docs: "no_floats w" if "w \<in> set (List.map_filter snd answers)" for w
    using that assms(2) by (auto simp: List.map_filter_def list_all_iff split: option.splits)
  have v: "v \<in> set (List.map_filter snd answers)" using assms(1) by (force simp: List.map_filter_def)
  have same: "w = v" if "w \<in> set (List.map_filter snd answers)" "dumps edge_runtime w = dumps edge_runtime v" for w
    using dumps_inject [of w v "[]" "[]" edge_runtime] docs that v by (simp add: ends_value_def)
  obtain w where w: "reader_of answers (dumps edge_runtime v) = Some w"
    using v by (cases "reader_of answers (dumps edge_runtime v)") (auto simp: reader_of_def find_None_iff)
  then have "w \<in> set (List.map_filter snd answers)" "dumps edge_runtime w = dumps edge_runtime v"
    by (auto simp: reader_of_def find_Some_iff)
  with same w show ?thesis by simp
qed

lemma drill_reads_error: "reads_error (se_agent (drill_env answers))"
  by (simp add: reads_error_def drill_env_def)

subsection \<open>Runs\<close>

text \<open>A run that returns, from a state and to a state that is described by the position of the service, the client and the tenants.\<close>

definition runs :: "('s session \<Rightarrow> bool) \<Rightarrow> ('s, 'a) procedure \<Rightarrow> 'a \<Rightarrow> ('s session \<Rightarrow> bool) \<Rightarrow> bool" where
  "runs P m x Q \<longleftrightarrow> (\<forall>s. P s \<longrightarrow> (\<exists>s'. m s = (Inr x, s') \<and> Q s'))"

definition standing :: "nat \<Rightarrow> client option \<Rightarrow> json list \<Rightarrow> nat session \<Rightarrow> bool" where
  "standing k c T s \<longleftrightarrow> fst (ss_world s) = k \<and> ss_client s = c \<and> ss_tenants s = T"

lemma runs_sbind: "runs P m x Q \<Longrightarrow> runs Q (f x) y S \<Longrightarrow> runs P (sbind m f) y S"
  by (fastforce simp: runs_def sbind_def)

lemma runs_slift: "r = Inr x \<Longrightarrow> runs P (slift r) x P"
  by (simp add: runs_def slift_def)

lemma runs_sreturn: "runs P (sreturn x) x P"
  by (simp add: runs_def sreturn_def)

lemma runs_sbind_slift: "r = Inr x \<Longrightarrow> runs P (f x) y S \<Longrightarrow> runs P (sbind (slift r) f) y S"
  by (rule runs_sbind [OF runs_slift])

text \<open>Single requests.\<close>

definition reply_of :: "answer \<Rightarrow> nat \<times> json" where
  "reply_of a = (fst a, case snd a of None \<Rightarrow> JNull | Some v \<Rightarrow> v)"

lemma ask_prepared:
  assumes "k < length answers"
  shows "ask (prepared answers) c (k, tr) =
    (case answers ! k of (st, None) \<Rightarrow> Refused st | (st, Some v) \<Rightarrow> Answered st (dumps edge_runtime v), k + 1,
     tr @ [(c, case answers ! k of (st, None) \<Rightarrow> Refused st | (st, Some v) \<Rightarrow> Answered st (dumps edge_runtime v))])"
  using assms by (simp add: ask_def prepared_def)

lemma runs_raw:
  assumes "bearer_of key = Inr cred" "k < length answers" "readable answers"
  shows "runs (standing k c T) (raw_request (drill_env answers) (prepared answers) endpoint verb path key body confirm)
    (reply_of (answers ! k)) (standing (Suc k) c T)"
proof -
  obtain st v where a: "answers ! k = (st, v)" by fastforce
  have "reader_of answers (dumps edge_runtime w) = Some w" if "v = Some w" for w
    using that nth_mem [OF assms(2)] a by (intro reader_reads [OF _ assms(3)]) auto
  then have read: "se_loads (drill_env answers) (dumps edge_runtime w) = Some w" if "v = Some w" for w
    using that by (simp add: drill_env_def)
  show ?thesis
    unfolding runs_def
  proof (intro allI impI)
    fix s :: "nat session" assume s: "standing k c T s"
    then obtain tr where w: "ss_world s = (k, tr)" by (cases "ss_world s") (simp add: standing_def)
    show "\<exists>s'. raw_request (drill_env answers) (prepared answers) endpoint verb path key body confirm s = (Inr (reply_of (answers ! k)), s') \<and>
        standing (Suc k) c T s'"
      using s read a assms(1,2)
      by (cases v) (simp_all add: raw_request_def sbind_def slift_def w ask_prepared reply_of_def standing_def)
  qed
qed

lemma runs_expect:
  assumes "bearer_of key = Inr cred" "k < length answers" "readable answers" "fst (answers ! k) = st"
  shows "runs (standing k c T) (expect_status (drill_env answers) (prepared answers) endpoint verb path key body confirm st)
    (snd (reply_of (answers ! k))) (standing (Suc k) c T)"
  unfolding expect_status_def
  by (rule runs_sbind [OF runs_raw [OF assms(1-3)]]) (use assms(4) in \<open>simp add: reply_of_def runs_sreturn\<close>)

subsection \<open>The client in a run\<close>

text \<open>A client that has delivered so many events.\<close>

definition used :: "nat \<Rightarrow> nat \<Rightarrow> nat \<Rightarrow> client" where
  "used capacity retries n =
     \<lparr>cl_queue = [], cl_capacity = capacity, cl_max_retries = retries, cl_raises = True, cl_enqueued = n, cl_sent = n,
      cl_dropped = 0, cl_failed_batches = 0, cl_retries = 0\<rparr>"

definition holding :: "members \<Rightarrow> nat \<Rightarrow> client \<Rightarrow> client" where
  "holding e n c = c\<lparr>cl_queue := replicate n e, cl_enqueued := cl_enqueued c + n\<rparr>"

definition ack :: "nat \<Rightarrow> json" where
  "ack n = JObj [(''schema_version'', JStr ''1.0''), (''accepted'', JInt (int n)), (''duplicates'', JInt 0)]"

lemma emits:
  assumes "sdk_event (se_runtime E) drill_id 1000000000000000 a = Some e" "sdk_valid e" "iso_inverse (se_runtime E)"
    and "se_uuid E = (\<lambda>k. drill_id)" "se_now E = (\<lambda>k. 1000000000000000)" "m + n \<le> capacity"
  shows "runs (standing k (Some (holding e m (used capacity r u))) T) (repeated n (emit_event E a)) ()
    (standing k (Some (holding e (m + n) (used capacity r u))) T)"
  using assms(6)
proof (induction n arbitrary: m)
  case 0
  then show ?case by (simp add: runs_sreturn)
next
  case (Suc n)
  have "validate_event (se_runtime E) (JObj e) = Some e" by (rule sdk_valid_fixed [OF assms(2,3)])
  moreover have "\<not> capacity \<le> m" using Suc.prems by simp
  ultimately have "runs (standing k (Some (holding e m (used capacity r u))) T) (emit_event E a) ()
      (standing k (Some (holding e (Suc m) (used capacity r u))) T)"
    using assms(1)
    by (auto simp: runs_def standing_def emit_event_def client_emit_def emit_def holding_def used_def assms(4,5) replicate_append_same)
  with Suc.IH [of "Suc m"] Suc.prems show ?case by (simp add: runs_sbind)
qed

lemma flushes:
  assumes "0 < n" "n \<le> 100" "n * (event_size edge_runtime e + 1) \<le> 130000"
    and "k < length answers" "readable answers" "answers ! k = (200, Some (ack n))"
    and "length (dumps edge_runtime (ack n)) \<le> 100"
  shows "runs (standing k (Some (holding e n (used capacity r u))) T) (client_flush (drill_env answers) (prepared answers) base key) n
    (standing (Suc k) (Some (used capacity r (u + n))) T)"
  unfolding runs_def
proof (intro allI impI)
  fix s :: "nat session" assume s: "standing k (Some (holding e n (used capacity r u))) T s"
  then obtain tr where w: "ss_world s = (k, tr)" by (cases "ss_world s") (simp add: standing_def)
  have env: "se_runtime (drill_env answers) = edge_runtime" "se_loads (drill_env answers) = reader_of answers" by (simp_all add: drill_env_def)
  let ?body = "dumps edge_runtime (ack n)"
  have body: "reader_of answers ?body = Some (ack n)"
    using nth_mem [OF assms(4)] assms(5,6) by (intro reader_reads) simp_all
  have "sdk_post (prepared answers) base key (k, tr) p =
      (Reply ?body, k + 1, tr @ [(post_call base key p, Answered 200 ?body)])" for p
    by (simp add: sdk_post_def ask_prepared [OF assms(4)] assms(6) response_of_def)
  then obtain p where "flush edge_runtime (reader_of answers) (sdk_post (prepared answers) base key) (holding e n (used capacity r u)) (k, tr) =
      (Inr n, (holding e n (used capacity r u))\<lparr>cl_queue := [], cl_sent := cl_sent (holding e n (used capacity r u)) + n\<rparr>,
       k + 1, tr @ [(post_call base key p, Answered 200 ?body)])"
    using flush_once [where n = n and e = e and R = edge_runtime and loads = "reader_of answers" and body = ?body and ack = "ack n" and
        c = "holding e n (used capacity r u)" and w = "(k, tr)" and server = "sdk_post (prepared answers) base key" and
        w' = "\<lambda>p. (k + 1, tr @ [(post_call base key p, Answered 200 ?body)])"] assms(1-3,7) body
    by (auto simp: holding_def used_def acknowledged_def ack_def)
  with s show "\<exists>s'. client_flush (drill_env answers) (prepared answers) base key s = (Inr n, s') \<and>
      standing (Suc k) (Some (used capacity r (u + n))) T s'"
    by (simp add: client_flush_def standing_def w env) (simp add: holding_def used_def)
qed

lemma fetches:
  assumes "k < length answers" "readable answers" "answers ! k = (200, Some v)" "length (dumps edge_runtime v) \<le> 10000"
    and "v = JObj ms"
  shows "\<exists>tr'. sdk_fetch (reader_of answers) (sdk_get (prepared answers) base key) path c (k, tr) = (Inr v, c, Suc k, tr')"
proof -
  have "reader_of answers (dumps edge_runtime v) = Some v"
    using nth_mem [OF assms(1)] assms(2,3) by (intro reader_reads) simp_all
  moreover have "sdk_get (prepared answers) base key (k, tr) path =
      (Reply (dumps edge_runtime v), Suc k, tr @ [(get_call base key path, Answered 200 (dumps edge_runtime v))])"
    by (simp add: sdk_get_def ask_prepared [OF assms(1)] assms(3) response_of_def)
  ultimately have "send_request (reader_of answers) (sdk_get (prepared answers) base key) (cl_max_retries c) path (k, tr) =
      (Inr v, 0, Suc k, tr @ [(get_call base key path, Answered 200 (dumps edge_runtime v))])"
    using assms(4) by (subst send_request.simps) (simp add: read_reply_def MAX_RESPONSE_def assms(5) del: dumps.simps)
  moreover have "c\<lparr>cl_retries := cl_retries c\<rparr> = c" by simp
  ultimately show ?thesis by (simp add: sdk_fetch_def)
qed

subsection \<open>Sizes of the events\<close>

definition members_size :: "runtime \<Rightarrow> members \<Rightarrow> nat" where
  "members_size R ms = sum_list (map (\<lambda>p. length (dump_string (fst p)) + length (dumps R (snd p)) + 2) ms)"

lemma escape_length: "length (escape_char c) \<le> 6"
  by (simp add: escape_char_def)

lemma dump_string_length: "length (dump_string s) \<le> 6 * length s + 2"
proof -
  have "length (concat (map escape_char s)) \<le> 6 * length s"
    by (induction s) (use escape_length in \<open>auto intro: add_mono\<close>)
  then show ?thesis by (simp add: dump_string_def)
qed

lemma event_size_stamped:
  "event_size R (pre @ (''timestamp'', JStr (isoformat us)) # post) \<le> members_size R pre + members_size R post + 210"
proof -
  have "length (dump_string (isoformat us)) \<le> 194" using dump_string_length [of "isoformat us"] isoformat_shape(1) [of us] by linarith
  moreover have "length (dump_string ''timestamp'') = 11" by code_simp
  moreover have "sum_list (map (\<lambda>p. length (dump_string (fst p)) + 1 + length (dumps R (snd p))) ms) + length ms = members_size R ms" for ms
    by (induction ms) (simp_all add: members_size_def)
  from this [of pre] this [of post] show ?thesis using calculation by (simp add: event_size_sum)
qed

subsection \<open>Common values\<close>

definition host :: string where "host = ''https://h''"

lemma drill_stamp: "datetime_range 1000000000000000" "event_id_ok drill_id"
  by (simp add: datetime_range_def) (simp add: drill_id_def, code_simp)

lemma acks_short: "length (dumps edge_runtime (ack 50)) \<le> 100" "length (dumps edge_runtime (ack 100)) \<le> 100"
  by code_simp+

end
