(* ===== verification/Regression.thy ===== *)
theory Regression
  imports Remote
begin

text \<open>
  \<open>examples/synthetic_regression.py\<close>: a regression and its recovery, demonstrated with labelled synthetic events against a
  running service.
\<close>

definition regression_event :: "string \<Rightarrow> string \<Rightarrow> string \<Rightarrow> event_args" where
  "regression_event deployment result version =
     \<lparr>ea_deployment_id = JStr deployment, ea_agent_id = JStr ''synthetic-agent'', ea_operation = JStr ''validation'',
      ea_outcome = JStr result, ea_failure_type = (if result = ''failure'' then Some (JStr ''malformed_output'') else None),
      ea_timestamp = None, ea_event_id = None, ea_synthetic = JBool True,
      ea_measurements =
        [(''provider'', JStr ''synthetic-provider''), (''model'', JStr ''synthetic-model''), (''model_version'', JStr version),
         (''prompt_version'', JStr ''synthetic-prompt-v1''), (''latency_ms'', JInt 100), (''input_tokens'', JInt 50),
         (''output_tokens'', JInt 20)]\<rparr>"

text \<open>\<open>send\<close>.\<close>

definition regression_send ::
    "script_env \<Rightarrow> 's remote \<Rightarrow> string \<Rightarrow> string \<Rightarrow> string \<Rightarrow> nat \<Rightarrow> string \<Rightarrow> string \<Rightarrow> ('s, unit) procedure" where
  "regression_send E service base key deployment events result version =
     sbind (repeated events (emit_event E (regression_event deployment result version))) (\<lambda>_.
     sbind (client_flush E service base key) (\<lambda>n. slift (needs (n = events) PyRuntimeError)))"

definition deployment_stream :: "string \<Rightarrow> json \<Rightarrow> pyerror + json" where
  "deployment_stream deployment summary =
     rbind (rbind (subscript summary ''streams'') iterate) (rnext (\<lambda>s.
       rbind (rbind (subscript s ''dimensions'') (\<lambda>d. subscript d ''deployment_id'')) (\<lambda>v. Inr (v = JStr deployment))))"

definition open_incidents_of :: "json \<Rightarrow> json \<Rightarrow> pyerror + json list" where
  "open_incidents_of stream incidents =
     rbind (rbind (subscript incidents ''incidents'') iterate) (rfilter (\<lambda>i.
       rbind (subscript i ''stream_id'') (\<lambda>v. rbind (subscript stream ''stream_id'') (\<lambda>w.
         if \<not> py_eq v w then Inr False
         else rbind (subscript i ''status'') (\<lambda>st. Inr (st = JStr ''open''))))))"

text \<open>The first open incident of the stream, when it is the expected one.\<close>

definition expected_incident :: "json list \<Rightarrow> pyerror + json" where
  "expected_incident opened =
     (case opened of
        [] \<Rightarrow> Inl PyRuntimeError
      | i # _ \<Rightarrow>
          rbind (rbind (subscript i ''signals'') (contains ''failure_rate_regression'')) (\<lambda>b.
            if \<not> b then Inl PyRuntimeError
            else rbind (subscript i ''synthetic'') (\<lambda>v. if truthy v then Inr i else Inl PyRuntimeError)))"

definition recovered_incident :: "json \<Rightarrow> json \<Rightarrow> pyerror + json" where
  "recovered_incident opened incidents =
     rbind (rbind (subscript incidents ''incidents'') iterate) (\<lambda>vs.
     rbind (rnext (\<lambda>i. rbind (subscript i ''incident_id'') (\<lambda>v. rbind (subscript opened ''incident_id'') (\<lambda>w. Inr (py_eq v w)))) vs)
       (\<lambda>i. rbind (subscript i ''status'') (\<lambda>st.
         if st \<noteq> JStr ''resolved'' then Inl PyRuntimeError
         else rbind (subscript i ''resolution'') (\<lambda>v. if v = JStr ''recovered'' then Inr i else Inl PyRuntimeError))))"

definition counters_json :: "client \<Rightarrow> json" where
  "counters_json c = JObj (map (\<lambda>(k, n). (k, JInt (int n))) (counters c))"

definition demonstration_result :: "string \<Rightarrow> json \<Rightarrow> client \<Rightarrow> pyerror + json" where
  "demonstration_result deployment incident c =
     rbind (subscript incident ''incident_id'') (\<lambda>i.
     rbind (subscript incident ''status'') (\<lambda>st.
     rbind (rbind (subscript incident ''signals'') py_sorted) (\<lambda>signals.
       Inr (JObj [(''synthetic'', JBool True), (''deployment_id'', JStr deployment), (''incident_id'', i), (''status'', st),
                  (''signals'', JArr signals), (''sdk_counters'', counters_json c)]))))"

text \<open>\<open>demonstrate\<close> after the client is made; \<open>credentials\<close> is the decoded file, or the exception of reading it.\<close>

definition demonstration ::
    "script_env \<Rightarrow> 's remote \<Rightarrow> string \<Rightarrow> string \<Rightarrow> string \<Rightarrow> ('s, json) procedure" where
  "demonstration E service base key deployment =
     sbind (regression_send E service base key deployment 50 ''success'' ''synthetic-v1'') (\<lambda>_.
     sbind (regression_send E service base key deployment 50 ''failure'' ''synthetic-v2'') (\<lambda>_.
     sbind (client_summary E service base key) (\<lambda>summary.
     sbind (slift (deployment_stream deployment summary)) (\<lambda>stream.
     sbind (client_incidents E service base key) (\<lambda>incidents.
     sbind (slift (rbind (open_incidents_of stream incidents) expected_incident)) (\<lambda>opened.
     sbind (regression_send E service base key deployment 100 ''success'' ''synthetic-v1'') (\<lambda>_.
     sbind (client_incidents E service base key) (\<lambda>incidents.
     sbind (slift (recovered_incident opened incidents)) (\<lambda>incident s.
       case ss_client s of
         None \<Rightarrow> (Inl PyAttributeError, s)
       | Some c \<Rightarrow> (demonstration_result deployment incident c, s))))))))))"

definition demonstrate ::
    "script_env \<Rightarrow> 's remote \<Rightarrow> string \<Rightarrow> pyerror + json \<Rightarrow> 's \<Rightarrow> (pyerror + json) \<times> traffic" where
  "demonstrate E service endpoint credentials s0 =
     (case rbind (rbind credentials (\<lambda>v. subscript v ''key'')) (\<lambda>k. make_client E endpoint k 2 2 1000) of
        Inl e \<Rightarrow> (Inl e, [])
      | Inr (base, key, c) \<Rightarrow>
          (let (r, s) = demonstration E service base key (''synthetic-'' @ take 12 (se_hex E 0)) (start_session s0 (Some c))
           in (r, snd (ss_world s))))"

end
