(* ===== verification/Script_Logic.thy ===== *)
theory Script_Logic
  imports Fixture Regression Deployment Sdk_Client_Facts
begin

text \<open>
  A Hoare logic for scripts with a postcondition for each way to end, and what the SDK client does to the world of a session:
  an invariant that survives the posts of the queued events and the gets survives every operation of the client.
\<close>

named_theorems keeps_rules \<open>invariants of scripts\<close>

subsection \<open>Triples\<close>

definition triple ::
    "('s session \<Rightarrow> bool) \<Rightarrow> ('s, 'a) procedure \<Rightarrow> ('a \<Rightarrow> 's session \<Rightarrow> bool) \<Rightarrow> (pyerror \<Rightarrow> 's session \<Rightarrow> bool) \<Rightarrow> bool" where
  "triple P m Q X \<longleftrightarrow> (\<forall>s. P s \<longrightarrow> (case m s of (Inl e, s') \<Rightarrow> X e s' | (Inr x, s') \<Rightarrow> Q x s'))"

abbreviation keeps :: "('s session \<Rightarrow> bool) \<Rightarrow> ('s, 'a) procedure \<Rightarrow> bool" where
  "keeps I m \<equiv> triple I m (\<lambda>_. I) (\<lambda>_. I)"

lemma tripleI:
  assumes "\<And>s e s'. P s \<Longrightarrow> m s = (Inl e, s') \<Longrightarrow> X e s'" "\<And>s x s'. P s \<Longrightarrow> m s = (Inr x, s') \<Longrightarrow> Q x s'"
  shows "triple P m Q X"
  using assms unfolding triple_def by (auto split: prod.split sum.split)

lemma triple_Inr: "triple P m Q X \<Longrightarrow> P s \<Longrightarrow> m s = (Inr x, s') \<Longrightarrow> Q x s'"
  by (fastforce simp: triple_def)

lemma triple_Inl: "triple P m Q X \<Longrightarrow> P s \<Longrightarrow> m s = (Inl e, s') \<Longrightarrow> X e s'"
  by (fastforce simp: triple_def)

lemma keeps_run: "keeps I m \<Longrightarrow> I s \<Longrightarrow> I (snd (m s))"
  by (cases "m s"; cases "fst (m s)") (auto dest: triple_Inl triple_Inr)

lemma keepsI: "(\<And>s. I s \<Longrightarrow> I (snd (m s))) \<Longrightarrow> keeps I m"
  by (rule tripleI) (metis snd_conv)+

lemma triple_sbind:
  assumes "triple P m Q X" "\<And>x. triple (Q x) (f x) T X"
  shows "triple P (sbind m f) T X"
  unfolding triple_def
proof (intro allI impI)
  fix s assume P: "P s"
  obtain r s1 where m: "m s = (r, s1)" by fastforce
  show "case sbind m f s of (Inl e, s') \<Rightarrow> X e s' | (Inr x, s') \<Rightarrow> T x s'"
  proof (cases r)
    case (Inl e)
    with triple_Inl [OF assms(1) P] m show ?thesis by (simp add: sbind_def)
  next
    case (Inr x)
    with triple_Inr [OF assms(1) P] m have "Q x s1" by simp
    with assms(2) [of x] show ?thesis by (simp add: triple_def sbind_def m Inr)
  qed
qed

lemma triple_conseq:
  assumes "triple P m Q X" "\<And>s. P' s \<Longrightarrow> P s" "\<And>x s. Q x s \<Longrightarrow> Q' x s" "\<And>e s. X e s \<Longrightarrow> X' e s"
  shows "triple P' m Q' X'"
  using assms unfolding triple_def by (fastforce split: prod.splits sum.splits)

lemma triple_pre: "triple P m Q X \<Longrightarrow> (\<And>s. P' s \<Longrightarrow> P s) \<Longrightarrow> triple P' m Q X"
  by (erule triple_conseq)

lemma triple_sreturn: "(\<And>s. P s \<Longrightarrow> Q x s) \<Longrightarrow> triple P (sreturn x) Q X"
  by (simp add: triple_def sreturn_def)

lemma triple_sfail: "(\<And>s. P s \<Longrightarrow> X e s) \<Longrightarrow> triple P (sfail e) Q X"
  by (simp add: triple_def sfail_def)

lemma triple_slift:
  "(\<And>x s. r = Inr x \<Longrightarrow> P s \<Longrightarrow> Q x s) \<Longrightarrow> (\<And>e s. P s \<Longrightarrow> X e s) \<Longrightarrow> triple P (slift r) Q X"
  by (cases r) (simp_all add: triple_def slift_def)

lemma keeps_basic [keeps_rules]:
  "keeps I (sreturn x)" "keeps I (sfail e)" "keeps I (slift r)"
  by (rule triple_sreturn triple_sfail triple_slift; assumption)+

lemma keeps_sbind [keeps_rules]: "keeps I m \<Longrightarrow> (\<And>x. keeps I (f x)) \<Longrightarrow> keeps I (sbind m f)"
  by (rule triple_sbind)

lemma keeps_slift_bind: "(\<And>x. r = Inr x \<Longrightarrow> keeps I (f x)) \<Longrightarrow> keeps I (sbind (slift r) f)"
  by (cases r) (simp_all add: triple_def sbind_def slift_def)

lemma keeps_if [keeps_rules]: "keeps I m \<Longrightarrow> keeps I n \<Longrightarrow> keeps I (if b then m else n)"
  by simp

lemma keeps_prod [keeps_rules]: "(\<And>x y. keeps I (f x y)) \<Longrightarrow> keeps I (case p of (x, y) \<Rightarrow> f x y)"
  by (cases p) simp

lemma keeps_option [keeps_rules]: "keeps I m \<Longrightarrow> (\<And>x. keeps I (f x)) \<Longrightarrow> keeps I (case p of None \<Rightarrow> m | Some x \<Rightarrow> f x)"
  by (cases p) simp_all

lemma keeps_list [keeps_rules]: "keeps I m \<Longrightarrow> (\<And>x xs. keeps I (f x xs)) \<Longrightarrow> keeps I (case p of [] \<Rightarrow> m | x # xs \<Rightarrow> f x xs)"
  by (cases p) simp_all

lemma keeps_reader [keeps_rules]: "keeps I (\<lambda>s. (f s, s))"
  by (simp add: triple_def split: sum.split)

lemma keeps_pure_client [keeps_rules]:
  "keeps I (\<lambda>s. case ss_client s of None \<Rightarrow> (Inl e, s) | Some c \<Rightarrow> (f c, s))"
  by (auto simp: triple_def split: sum.split option.split)

lemma keeps_repeated [keeps_rules]: "keeps I m \<Longrightarrow> keeps I (repeated n m)"
  by (induction n) (simp_all add: keeps_rules)

lemma keeps_with_client [keeps_rules]:
  assumes "keeps I m"
  shows "keeps I (with_client m)"
proof (rule tripleI)
  fix s e s' assume "I s" "with_client m s = (Inl e, s')"
  then show "I s'" using triple_Inl [OF assms] by (cases "fst (m s)") (auto simp: with_client_def split: if_splits prod.splits)
next
  fix s x s' assume "I s" "with_client m s = (Inr x, s')"
  then show "I s'" using triple_Inr [OF assms] by (cases "fst (m s)") (auto simp: with_client_def split: if_splits prod.splits)
qed

subsection \<open>What the SDK sends\<close>

lemma send_request_keeps:
  assumes "\<And>w. J w \<Longrightarrow> J (snd (server w p))"
  shows "J w \<Longrightarrow> J (snd (snd (send_request loads server left p w)))"
proof (induction left arbitrary: w)
  case 0
  with assms [of w] show ?case by (auto simp: send_request.simps split: response.split prod.split)
next
  case (Suc left)
  have again: "J b" if "send_request loads server left p w1 = (x, a, b)" "J w1" for x a b w1
    using Suc.IH [OF that(2)] that(1) by simp
  from assms [OF Suc.prems] show ?case
    by (subst send_request.simps) (auto simp: Let_def split: response.split prod.split intro: again)
qed

lemma deliver_keeps:
  assumes "\<And>w. J w \<Longrightarrow> J (snd (server w (dumps R (batch_json b))))" "J w" "deliver R loads server b c w = (r, c', w')"
  shows "J w'"
  using send_request_keeps [where J = J and server = server and p = "dumps R (batch_json b)", OF assms(1,2), of loads "cl_max_retries c"]
    assms(3)
  by (auto simp: deliver_def Let_def split: prod.splits sum.splits if_splits)

lemma flush_loop_keeps:
  assumes "flush_loop R loads server remaining sent c w = (r, c', w')" "J w" "list_all Q (cl_queue c)"
    and "\<And>b w. list_all Q b \<Longrightarrow> J w \<Longrightarrow> J (snd (server w (dumps R (batch_json b))))"
  shows "J w' \<and> list_all Q (cl_queue c')"
  using assms
proof (induction R loads server remaining sent c w rule: flush_loop.induct)
  case (1 R loads server remaining sent c w)
  show ?case
  proof (cases "remaining = 0 \<or> next_batch R remaining (cl_queue c) = None")
    case True
    then show ?thesis using "1.prems" by (subst (asm) flush_loop.simps) (auto split: if_splits)
  next
    case False
    then obtain batch queue where nb: "next_batch R remaining (cl_queue c) = Some (batch, queue)" by fastforce
    from next_batch_split(1) [OF this] "1.prems"(3) have Q: "list_all Q batch" "list_all Q queue" by simp_all
    obtain r1 c1 w1 where d: "deliver R loads server batch (c\<lparr>cl_queue := queue\<rparr>) w = (r1, c1, w1)" by (cases rule: prod_cases3)
    have J: "J w1" by (rule deliver_keeps [OF "1.prems"(4) [OF Q(1)] "1.prems"(2) d])
    have q: "list_all Q (cl_queue c1)" using deliver_effect(1) [OF d] Q(2) by simp
    have run: "flush_loop R loads server remaining sent c w =
      (case r1 of Inr n \<Rightarrow> flush_loop R loads server (remaining - length batch) (sent + n) c1 w1
         | Inl e \<Rightarrow> if cl_raises c then (Inl e, c1, w1) else flush_loop R loads server (remaining - length batch) sent c1 w1)"
      using False nb d by (subst flush_loop.simps) (simp split: sum.split)
    show ?thesis
    proof (cases r1)
      case (Inl e)
      with run "1.prems"(1) J q "1.IH"(1) [OF _ nb refl d [symmetric] Inl refl] False show ?thesis
        using "1.prems"(4) by (auto split: if_splits)
    next
      case (Inr n)
      with run "1.prems"(1) J q "1.IH"(2) [OF _ nb refl d [symmetric] Inr refl] False show ?thesis
        using "1.prems"(4) by auto
    qed
  qed
qed

subsection \<open>Clients whose traffic is safe\<close>

text \<open>The world satisfies an invariant, the tenants are known, and every queued event is of a kind.\<close>

definition session_ok :: "('s world \<Rightarrow> bool) \<Rightarrow> (members \<Rightarrow> bool) \<Rightarrow> json list \<Rightarrow> 's session \<Rightarrow> bool" where
  "session_ok J queued T s \<longleftrightarrow>
     J (ss_world s) \<and> ss_tenants s = T \<and> (\<forall>c. ss_client s = Some c \<longrightarrow> list_all queued (cl_queue c))"

text \<open>The arguments of an event that is of this kind once it is validated and queued.\<close>

definition queues :: "runtime \<Rightarrow> (members \<Rightarrow> bool) \<Rightarrow> event_args \<Rightarrow> bool" where
  "queues R queued a \<longleftrightarrow>
     (\<forall>fresh now ms ms'. sdk_event R fresh now a = Some ms \<longrightarrow> validate_event R (JObj ms) = Some ms' \<longrightarrow> queued ms')"

text \<open>The same when the tenants may change.\<close>

definition session_safe :: "('s world \<Rightarrow> bool) \<Rightarrow> (members \<Rightarrow> bool) \<Rightarrow> 's session \<Rightarrow> bool" where
  "session_safe J queued s \<longleftrightarrow> session_ok J queued (ss_tenants s) s"

lemma keeps_safe: "(\<And>T. keeps (session_ok J queued T) m) \<Longrightarrow> keeps (session_safe J queued) m"
  unfolding triple_def session_safe_def by (fastforce simp: session_ok_def split: prod.splits sum.splits)

lemma keeps_tenants [keeps_rules]: "keeps (session_safe J queued) (\<lambda>s. (Inr u, s\<lparr>ss_tenants := f s\<rparr>))"
  by (simp add: triple_def session_safe_def session_ok_def)

lemma keeps_tenant_key [keeps_rules]: "keeps I (tenant_key i)"
  unfolding tenant_key_def [abs_def] by (rule keeps_reader)

lemma keeps_finally: "keeps I m \<Longrightarrow> keeps I n \<Longrightarrow> keeps I (finally_do m n)"
  by (rule keepsI) (simp add: finally_do_def Let_def split_def keeps_run)

lemma keeps_client:
  "(\<And>s. cl_queue c = [] \<Longrightarrow> I s \<Longrightarrow> I (s\<lparr>ss_client := Some c\<rparr>)) \<Longrightarrow> cl_queue c = [] \<Longrightarrow> keeps I m \<Longrightarrow>
    keeps I (\<lambda>s. m (s\<lparr>ss_client := Some c\<rparr>))"
  unfolding triple_def by (auto split: prod.splits sum.splits)

lemma raw_request_keeps:
  assumes "\<And>cred w. bearer_of key = Inr cred \<Longrightarrow> J w \<Longrightarrow>
    J (snd (ask service \<lparr>ca_verb = verb, ca_url = endpoint @ path, ca_key = cred, ca_body = map_option (se_render E) body,
      ca_confirm = confirm\<rparr> w))"
  shows "keeps (session_ok J queued T) (raw_request E service endpoint verb path key body confirm)"
proof (rule keepsI)
  fix s :: "'a session" assume s: "session_ok J queued T s"
  show "session_ok J queued T (snd (raw_request E service endpoint verb path key body confirm s))"
  proof (cases "bearer_of key")
    case (Inr cred)
    with assms [OF Inr] s show ?thesis
      by (simp add: raw_request_def sbind_def slift_def session_ok_def Let_def split_def)
  qed (simp add: raw_request_def sbind_def slift_def s)
qed

lemma session_starts: "J (s0, []) \<Longrightarrow> (\<And>x. c = Some x \<Longrightarrow> cl_queue x = []) \<Longrightarrow> session_ok J queued [] (start_session s0 c)"
  by (auto simp: session_ok_def start_session_def)

lemma make_client_fresh: "make_client E e k t r n = Inr (base, key, c) \<Longrightarrow> cl_queue c = []"
  by (auto simp: make_client_def new_client_def split: option.splits json.splits if_splits)

lemma emit_queued:
  assumes "list_all queued (cl_queue c)" "\<And>ms'. validate_event R v = Some ms' \<Longrightarrow> queued ms'" "emit R v c = (r, c')"
  shows "list_all queued (cl_queue c')"
  using assms by (auto simp: emit_def drop_events_def split: option.splits if_splits)

locale safe_traffic =
  fixes E :: script_env and service :: "'s remote" and base :: string and key :: string
    and queued :: "members \<Rightarrow> bool" and J :: "'s world \<Rightarrow> bool"
  assumes posts: "J w \<Longrightarrow> list_all queued b \<Longrightarrow> J (snd (sdk_post service base key w (dumps (se_runtime E) (batch_json b))))"
    and gets: "J w \<Longrightarrow> J (snd (sdk_get service base key w path))"
begin

lemma flush_keeps: "keeps (session_ok J queued T) (client_flush E service base key)"
proof -
  have f: "J w' \<and> list_all queued (cl_queue c')"
    if "flush (se_runtime E) (se_loads E) (sdk_post service base key) c w = (r, c', w')" "J w" "list_all queued (cl_queue c)"
    for c w r c' w'
    by (rule flush_loop_keeps [where J = J and Q = queued, OF that(1) [unfolded flush_def] that(2,3)]) (rule posts)
  show ?thesis
    by (rule tripleI) (auto simp: client_flush_def session_ok_def split: option.splits prod.splits dest: f)
qed

lemma fetch_keeps:
  assumes "sdk_fetch loads (sdk_get service base key) path c w = (r, c', w')" "J w"
  shows "J w' \<and> cl_queue c' = cl_queue c"
proof -
  have "J (snd (snd (send_request loads (sdk_get service base key) (cl_max_retries c) path w)))"
    by (rule send_request_keeps) (rule gets assms(2); assumption)+
  with assms(1) show ?thesis by (auto simp: sdk_fetch_def split: prod.splits)
qed

lemma get_keeps:
  "keeps (session_ok J queued T) (client_summary E service base key)"
  "keeps (session_ok J queued T) (client_incidents E service base key)"
  by (rule tripleI; auto simp: client_summary_def client_incidents_def client_get_def sdk_summary_def sdk_incidents_def session_ok_def
      split: option.splits prod.splits dest: fetch_keeps)+

lemma emit_keeps:
  assumes "queues (se_runtime E) queued a"
  shows "keeps (session_ok J queued T) (emit_event E a)"
proof -
  have e: "list_all queued (cl_queue c')"
    if "emit (se_runtime E) (JObj ms) c = (r, c')" "sdk_event (se_runtime E) fresh now a = Some ms" "list_all queued (cl_queue c)"
    for ms c r c' fresh now
    by (rule emit_queued [OF that(3) _ that(1)]) (use assms that(2) in \<open>auto simp: queues_def\<close>)
  show ?thesis
    by (rule tripleI) (auto simp: emit_event_def client_emit_def session_ok_def split: option.splits prod.splits dest: e)
qed

lemmas client_keeps = flush_keeps get_keeps

end

subsection \<open>The deployment check\<close>

lemma check_isolation_safe:
  assumes "second = (base, key, c)" "safe_traffic E service base key queued J"
  shows "keeps (session_ok J queued T) (check_isolation E service second)"
  by (rule tripleI)
    (auto simp: check_isolation_def assms(1) session_ok_def sdk_summary_def split: prod.splits dest!: safe_traffic.fetch_keeps [OF assms(2)])

lemma check_detection_safe:
  assumes "second = (base', key', c)" "safe_traffic E service base' key' queued J" "safe_traffic E service base key queued J"
    and "\<And>r. queues (se_runtime E) queued (check_event r)"
  shows "keeps (session_ok J queued T) (check_detection E service base key second)"
proof -
  note client = safe_traffic.client_keeps [OF assms(3)] safe_traffic.emit_keeps [OF assms(3)]
  have "keeps (session_ok J queued T) (check_emit E service base key n r)" for n r
    unfolding check_emit_def by (intro keeps_rules client assms(4))
  then show ?thesis
    unfolding check_detection_def by (intro keeps_rules client check_isolation_safe [OF assms(1,2)])
qed

lemma verify_detection_keeps:
  assumes "make_client E endpoint v t r n = Inr client" "\<And>s c. cl_queue c = [] \<Longrightarrow> I s \<Longrightarrow> I (s\<lparr>ss_client := Some c\<rparr>)"
    and "\<And>base key c. client = (base, key, c) \<Longrightarrow> keeps I (check_detection E service base key second)"
  shows "keeps I (verify_detection E service client second)"
proof -
  obtain base key c where client: "client = (base, key, c)" by (cases client)
  show ?thesis
    unfolding verify_detection_def [abs_def] client prod.case Let_def
    by (rule keeps_client [OF assms(2) make_client_fresh assms(3) [OF client]]) (use assms(1) client in auto)
qed

lemma verify_sample_keeps:
  assumes "\<And>fresh now sample. sdk_event (se_runtime E) fresh now sample_event = Some sample \<Longrightarrow>
    keeps I (check_requests E service endpoint key sample)"
  shows "keeps I (verify_sample E service endpoint key)"
  by (rule keepsI) (auto simp: verify_sample_def split: option.split intro!: keeps_run [where I = I] keeps_sbind keeps_basic assms)

end
