(* ===== verification/Deployment_Facts.thy ===== *)
theory Deployment_Facts
  imports Script_Logic
begin

text \<open>
  The deployment check leaves nothing behind and gives nothing away: which tenants were created, which were deleted, what the
  evidence rests on, and where the credentials go.
\<close>

subsection \<open>Created and deleted tenants\<close>

definition provision_call :: "string \<Rightarrow> http_call \<Rightarrow> bool" where
  "provision_call endpoint c \<longleftrightarrow> ca_verb c = ''POST'' \<and> ca_url c = endpoint @ ''/v1/admin/tenants''"

definition status_of :: "http_outcome \<Rightarrow> nat option" where
  "status_of a = (case a of Refused st \<Rightarrow> Some st | Answered st body \<Rightarrow> Some st | Fails e \<Rightarrow> None)"

definition decoded :: "script_env \<Rightarrow> http_outcome \<Rightarrow> json option" where
  "decoded E a = (case a of Refused st \<Rightarrow> Some JNull | Answered st body \<Rightarrow> se_loads E body | Fails e \<Rightarrow> None)"

text \<open>The credentials of the tenants that the service reported as created.\<close>

definition created :: "script_env \<Rightarrow> string \<Rightarrow> traffic \<Rightarrow> json list" where
  "created E endpoint tr =
     List.map_filter (\<lambda>(c, a). if provision_call endpoint c \<and> status_of a = Some 201 then decoded E a else None) tr"

definition delete_call :: "string \<Rightarrow> string option \<Rightarrow> json \<Rightarrow> http_call" where
  "delete_call endpoint cred tenant_id =
     \<lparr>ca_verb = ''DELETE'', ca_url = endpoint @ ''/v1/tenant'', ca_key = cred, ca_body = None, ca_confirm = Some tenant_id\<rparr>"

definition summary_call :: "string \<Rightarrow> string option \<Rightarrow> http_call" where
  "summary_call endpoint cred =
     \<lparr>ca_verb = ''GET'', ca_url = endpoint @ ''/v1/summary'', ca_key = cred, ca_body = None, ca_confirm = None\<rparr>"

definition names_tenant :: "json \<Rightarrow> string option \<Rightarrow> json \<Rightarrow> bool" where
  "names_tenant t cred tenant_id \<longleftrightarrow>
     (\<exists>key. item t ''key'' = Some key \<and> item t ''tenant_id'' = Some tenant_id \<and> bearer_of key = Inr cred)"

text \<open>The deletion was confirmed, and the very next request found the key of the tenant refused.\<close>

definition deleted_in :: "string \<Rightarrow> traffic \<Rightarrow> json \<Rightarrow> bool" where
  "deleted_in endpoint tr t \<longleftrightarrow>
     (\<exists>cred tenant_id pre a b post. names_tenant t cred tenant_id \<and>
        tr = pre @ [(delete_call endpoint cred tenant_id, a), (summary_call endpoint cred, b)] @ post \<and>
        status_of a = Some 200 \<and> status_of b = Some 401)"

definition attempted_in :: "string \<Rightarrow> traffic \<Rightarrow> json \<Rightarrow> bool" where
  "attempted_in endpoint tr t \<longleftrightarrow>
     (\<forall>cred tenant_id. names_tenant t cred tenant_id \<longrightarrow> (\<exists>a. (delete_call endpoint cred tenant_id, a) \<in> set tr))"

lemma deleted_grows: "deleted_in endpoint tr t \<Longrightarrow> deleted_in endpoint (pre @ tr @ post) t"
  unfolding deleted_in_def by (metis append.assoc)

lemma attempted_grows: "attempted_in endpoint tr t \<Longrightarrow> attempted_in endpoint (pre @ tr @ post) t"
  unfolding attempted_in_def by fastforce

subsection \<open>Single requests\<close>

definition raw_call :: "script_env \<Rightarrow> string \<Rightarrow> string \<Rightarrow> string \<Rightarrow> string option \<Rightarrow> json option \<Rightarrow> json option \<Rightarrow> http_call" where
  "raw_call E endpoint verb path cred body confirm =
     \<lparr>ca_verb = verb, ca_url = endpoint @ path, ca_key = cred, ca_body = map_option (se_render E) body, ca_confirm = confirm\<rparr>"

lemma raw_request_run:
  assumes "raw_request E service endpoint verb path key body confirm s = (r, s')"
  shows "(\<exists>e. bearer_of key = Inl e \<and> r = Inl e \<and> s' = s) \<or>
    (\<exists>cred a x. bearer_of key = Inr cred \<and> s' = s\<lparr>ss_world := (x, snd (ss_world s) @ [(raw_call E endpoint verb path cred body confirm, a)])\<rparr> \<and>
      (\<forall>st v. r = Inr (st, v) \<longleftrightarrow> status_of a = Some st \<and> decoded E a = Some v))"
proof (cases "bearer_of key")
  case (Inl e)
  with assms show ?thesis by (simp add: raw_request_def sbind_def slift_def)
next
  case (Inr cred)
  let ?c = "raw_call E endpoint verb path cred body confirm"
  obtain a x where a: "service (fst (ss_world s)) ?c = (a, x)" by fastforce
  then have "ask service ?c (ss_world s) = (a, x, snd (ss_world s) @ [(?c, a)])" by (simp add: ask_def)
  with assms Inr show ?thesis
    by (auto simp: raw_request_def sbind_def slift_def raw_call_def status_of_def decoded_def
        split: http_outcome.splits option.splits intro!: exI [of _ a] exI [of _ x])
qed

lemma expect_status_run:
  assumes "expect_status E service endpoint verb path key body confirm st s = (r, s')"
  shows "(\<exists>e. bearer_of key = Inl e \<and> r = Inl e \<and> s' = s) \<or>
    (\<exists>cred a x. bearer_of key = Inr cred \<and> s' = s\<lparr>ss_world := (x, snd (ss_world s) @ [(raw_call E endpoint verb path cred body confirm, a)])\<rparr> \<and>
      (\<forall>v. r = Inr v \<longleftrightarrow> status_of a = Some st \<and> decoded E a = Some v))"
proof -
  obtain r1 s1 where run: "raw_request E service endpoint verb path key body confirm s = (r1, s1)" by fastforce
  with assms have "s' = s1" "(\<exists>e. r1 = Inl e \<and> r = Inl e) \<or>
      (\<exists>v1. r1 = Inr v1 \<and> (\<forall>v. r = Inr v \<longleftrightarrow> v1 = (st, v)))"
    by (auto simp: expect_status_def sbind_def sreturn_def sfail_def split: sum.splits prod.splits if_splits)
  note end_of = this
  from raw_request_run [OF run] show ?thesis
  proof (elim disjE exE conjE)
    fix e assume "bearer_of key = Inl e" "r1 = Inl e" "s1 = s"
    with end_of show ?thesis by auto
  next
    fix cred a x
    assume "bearer_of key = Inr cred" "s1 = s\<lparr>ss_world := (x, snd (ss_world s) @ [(raw_call E endpoint verb path cred body confirm, a)])\<rparr>"
      "\<forall>st v. r1 = Inr (st, v) \<longleftrightarrow> status_of a = Some st \<and> decoded E a = Some v"
    with end_of show ?thesis by (intro disjI2 exI [of _ cred] exI [of _ a] exI [of _ x]) auto
  qed
qed

lemma expect_status_Inr:
  assumes "expect_status E service endpoint verb path key body confirm st s = (Inr v, s')"
  obtains cred a where "bearer_of key = Inr cred" "status_of a = Some st" "decoded E a = Some v"
    "snd (ss_world s') = snd (ss_world s) @ [(raw_call E endpoint verb path cred body confirm, a)]"
    "ss_tenants s' = ss_tenants s"
proof -
  from expect_status_run [OF assms] obtain cred a x where "bearer_of key = Inr cred"
    "s' = s\<lparr>ss_world := (x, snd (ss_world s) @ [(raw_call E endpoint verb path cred body confirm, a)])\<rparr>"
    "\<forall>w. Inr v = (Inr w :: pyerror + json) \<longleftrightarrow> status_of a = Some st \<and> decoded E a = Some w" by blast
  with that [of cred a] show thesis by force
qed

subsection \<open>Cleaning up\<close>

lemma cleanup_one_run:
  assumes "cleanup_one E service endpoint t s = (r, s')"
  shows "\<exists>ext. snd (ss_world s') = snd (ss_world s) @ ext \<and>
    (case r of Inr u \<Rightarrow> deleted_in endpoint ext t | Inl e \<Rightarrow> attempted_in endpoint ext t)"
proof (cases "(subscript t ''key'', subscript t ''tenant_id'')")
  case (Pair x y)
  show ?thesis
  proof (cases "\<exists>key tenant_id. x = Inr key \<and> y = Inr tenant_id")
    case False
    with Pair assms have "s' = s" "isl r" "\<not> (\<exists>cred tenant_id. names_tenant t cred tenant_id)"
      by (auto simp: cleanup_one_def sbind_def slift_def names_tenant_def subscript_Inr [symmetric] split: sum.splits)
    then show ?thesis by (cases r) (auto simp: attempted_in_def)
  next
    case True
    then obtain key tenant_id where k: "subscript t ''key'' = Inr key" "subscript t ''tenant_id'' = Inr tenant_id"
      using Pair by auto
    then have names: "names_tenant t cred i \<longleftrightarrow> i = tenant_id \<and> bearer_of key = Inr cred" for cred i
      by (auto simp: names_tenant_def subscript_Inr)
    obtain r1 s1 where 1: "expect_status E service endpoint ''DELETE'' ''/v1/tenant'' key None (Some tenant_id) 200 s = (r1, s1)"
      by fastforce
    have run: "cleanup_one E service endpoint t s = (case r1 of Inl e \<Rightarrow> (Inl e, s1) | Inr v \<Rightarrow>
        sbind (expect_status E service endpoint ''GET'' ''/v1/summary'' key None None 401) (\<lambda>_. sreturn ()) s1)"
      by (simp add: cleanup_one_def sbind_def slift_def k 1 split: sum.split)
    show ?thesis
    proof (cases "bearer_of key")
      case (Inl e)
      with expect_status_run [OF 1] assms show ?thesis by (auto simp: run attempted_in_def names)
    next
      case (Inr cred)
      with expect_status_run [OF 1] obtain a where s1: "snd (ss_world s1) = snd (ss_world s) @ [(delete_call endpoint cred tenant_id, a)]"
        and ok: "\<And>v. r1 = Inr v \<Longrightarrow> status_of a = Some 200" by (auto simp: raw_call_def delete_call_def)
      obtain r2 s2 where 2: "expect_status E service endpoint ''GET'' ''/v1/summary'' key None None 401 s1 = (r2, s2)" by fastforce
      with expect_status_run [OF 2] Inr obtain b where s2: "snd (ss_world s2) = snd (ss_world s1) @ [(summary_call endpoint cred, b)]"
        and gone: "\<And>v. r2 = Inr v \<Longrightarrow> status_of b = Some 401" by (auto simp: raw_call_def summary_call_def)
      have attempt: "attempted_in endpoint ((delete_call endpoint cred tenant_id, a) # ext) t" for ext
        by (simp add: attempted_in_def names Inr) blast
      consider (refused) e where "r1 = Inl e" | (remains) v e where "r1 = Inr v" "r2 = Inl e" | (gone) v w where "r1 = Inr v" "r2 = Inr w"
        by (cases r1; cases r2) auto
      then show ?thesis
      proof cases
        case refused
        with assms run s1 attempt [of "[]"] show ?thesis by auto
      next
        case remains
        with assms run 2 have "r = Inl e" "s' = s2" by (auto simp: sbind_def)
        with s1 s2 attempt show ?thesis by auto
      next
        case gone
        with assms run 2 have "r = Inr ()" "s' = s2" by (auto simp: sbind_def sreturn_def)
        moreover have "deleted_in endpoint [(delete_call endpoint cred tenant_id, a), (summary_call endpoint cred, b)] t"
          using ok [OF gone(1)] \<open>\<And>v. r2 = Inr v \<Longrightarrow> status_of b = Some 401\<close> [OF gone(2)] Inr unfolding deleted_in_def names
          by (intro exI [of _ cred] exI [of _ tenant_id] exI [of _ "[]"]) auto
        ultimately show ?thesis using s1 s2 by auto
      qed
    qed
  qed
qed

text \<open>The loop goes through the tenants in order, up to the first one whose deletion is not confirmed.\<close>

definition swept :: "string \<Rightarrow> traffic \<Rightarrow> json list \<Rightarrow> bool \<Rightarrow> bool" where
  "swept endpoint tr ts finished \<longleftrightarrow>
     (\<exists>gone rest. ts = gone @ rest \<and> (\<forall>t \<in> set gone. deleted_in endpoint tr t) \<and>
        (if finished then rest = [] else rest \<noteq> [] \<and> attempted_in endpoint tr (hd rest)))"

lemma cleanup_each_run:
  assumes "cleanup_each E service endpoint ts s = (r, s')"
  shows "\<exists>ext. snd (ss_world s') = snd (ss_world s) @ ext \<and> swept endpoint ext ts (\<not> isl r)"
  using assms
proof (induction ts arbitrary: s)
  case Nil
  then show ?case by (auto simp: sreturn_def swept_def)
next
  case (Cons t ts)
  obtain r1 s1 where 1: "cleanup_one E service endpoint t s = (r1, s1)" by fastforce
  from cleanup_one_run [OF 1] obtain ext1 where ext1: "snd (ss_world s1) = snd (ss_world s) @ ext1"
    and one: "case r1 of Inr u \<Rightarrow> deleted_in endpoint ext1 t | Inl e \<Rightarrow> attempted_in endpoint ext1 t" by auto
  show ?case
  proof (cases r1)
    case (Inl e)
    with Cons.prems 1 have "r = Inl e" "s' = s1" by (simp_all add: sbind_def)
    moreover have "swept endpoint ext1 (t # ts) False"
      unfolding swept_def by (rule exI [of _ "[]"], rule exI [of _ "t # ts"]) (use one Inl in simp)
    ultimately show ?thesis using ext1 by auto
  next
    case (Inr u)
    with Cons.prems 1 have "cleanup_each E service endpoint ts s1 = (r, s')" by (simp add: sbind_def)
    from Cons.IH [OF this] obtain ext2 gone rest where ext2: "snd (ss_world s') = snd (ss_world s1) @ ext2" and ts: "ts = gone @ rest"
      and gone: "\<forall>t \<in> set gone. deleted_in endpoint ext2 t"
      and rest: "if \<not> isl r then rest = [] else rest \<noteq> [] \<and> attempted_in endpoint ext2 (hd rest)"
      unfolding swept_def by blast
    have "deleted_in endpoint (ext1 @ ext2) t" using deleted_grows [of endpoint ext1 t "[]" ext2] one Inr by simp
    moreover have "\<forall>t \<in> set gone. deleted_in endpoint (ext1 @ ext2) t"
      using deleted_grows [of endpoint ext2 _ ext1 "[]"] gone by simp
    moreover have "if \<not> isl r then rest = [] else rest \<noteq> [] \<and> attempted_in endpoint (ext1 @ ext2) (hd rest)"
      using attempted_grows [of endpoint ext2 _ ext1 "[]"] rest by (auto split: if_splits)
    ultimately show ?thesis
      using ext1 ext2 ts unfolding swept_def by (intro exI [of _ "ext1 @ ext2"] conjI exI [of _ "t # gone"] exI [of _ rest]) auto
  qed
qed

lemma swept_grows:
  assumes "swept endpoint tr ts finished"
  shows "swept endpoint (pre @ tr) ts finished"
proof -
  obtain gone rest where ts: "ts = gone @ rest" and gone: "\<forall>t \<in> set gone. deleted_in endpoint tr t"
    and rest: "if finished then rest = [] else rest \<noteq> [] \<and> attempted_in endpoint tr (hd rest)"
    using assms unfolding swept_def by blast
  have "\<forall>t \<in> set gone. deleted_in endpoint (pre @ tr) t" using gone deleted_grows [of endpoint tr _ pre "[]"] by simp
  moreover have "if finished then rest = [] else rest \<noteq> [] \<and> attempted_in endpoint (pre @ tr) (hd rest)"
    using rest attempted_grows [of endpoint tr _ pre "[]"] by (auto split: if_splits)
  ultimately show ?thesis using ts unfolding swept_def by blast
qed

subsection \<open>The tenants of a run\<close>

lemma created_append: "created E endpoint (tr @ tr') = created E endpoint tr @ created E endpoint tr'"
  by (simp add: created_def List.map_filter_def)

lemma ask_created: "\<not> provision_call endpoint c \<Longrightarrow> created E endpoint (snd (snd (ask service c w))) = created E endpoint (snd w)"
  by (simp add: ask_def split_def Let_def created_append) (simp add: created_def List.map_filter_def)

lemma other_urls:
  "x @ ''/v1/events'' \<noteq> y @ ''/v1/admin/tenants''" "endpoint @ ''/v1/keys'' \<noteq> endpoint @ ''/v1/admin/tenants''"
  by (auto dest: arg_cong [of _ _ rev])

interpretation unprovisioning: safe_traffic E service base key "\<lambda>_. True" "\<lambda>w. created E endpoint (snd w) = T"
  for E service base key endpoint T
  by unfold_locales
    (simp_all add: sdk_post_def sdk_get_def apfst_def ask_created provision_call_def post_call_def get_call_def other_urls)

abbreviation tenants_known :: "script_env \<Rightarrow> string \<Rightarrow> json list \<Rightarrow> 's session \<Rightarrow> bool" where
  "tenants_known E endpoint T \<equiv> session_ok (\<lambda>w. created E endpoint (snd w) = T) (\<lambda>_. True) T"

lemma any_queues [simp]: "queues R (\<lambda>_. True) a"
  by (simp add: queues_def)

lemma raw_known:
  assumes "verb \<noteq> ''POST'' \<or> path \<noteq> ''/v1/admin/tenants''"
  shows "keeps (tenants_known E endpoint T) (raw_request E service endpoint verb path key body confirm)"
    "keeps (tenants_known E endpoint T) (expect_status E service endpoint verb path key body confirm st)"
proof -
  show *: "keeps (tenants_known E endpoint T) (raw_request E service endpoint verb path key body confirm)"
    using assms by (intro raw_request_keeps) (simp add: ask_created provision_call_def)
  show "keeps (tenants_known E endpoint T) (expect_status E service endpoint verb path key body confirm st)"
    unfolding expect_status_def by (intro keeps_rules *)
qed

lemma check_requests_known: "keeps (tenants_known E endpoint T) (check_requests E service endpoint key sample)"
  unfolding check_requests_def check_granted_def Let_def by (intro keeps_rules raw_known; simp)

definition known_tenants :: "script_env \<Rightarrow> string \<Rightarrow> nat \<Rightarrow> 's session \<Rightarrow> bool" where
  "known_tenants E endpoint n s \<longleftrightarrow> ss_tenants s = created E endpoint (snd (ss_world s)) \<and> length (ss_tenants s) = n"

lemma known_keeps:
  fixes m :: "('s, 'a) procedure"
  assumes "\<And>T. keeps (tenants_known E endpoint T) m"
  shows "keeps (known_tenants E endpoint n) m"
proof (rule keepsI)
  fix s :: "'s session" assume k: "known_tenants E endpoint n s"
  then have "tenants_known E endpoint (ss_tenants s) s" by (simp add: known_tenants_def session_ok_def list_all_iff)
  from keeps_run [OF assms this] k show "known_tenants E endpoint n (snd (m s))" by (auto simp: known_tenants_def session_ok_def)
qed

lemma provision_known:
  "triple (known_tenants E endpoint n) (provision_one E service endpoint admin k) (\<lambda>_. known_tenants E endpoint (Suc n))
    (\<lambda>_. known_tenants E endpoint n)"
  unfolding triple_def
proof (intro allI impI)
  fix s :: "'a session" assume k: "known_tenants E endpoint n s"
  let ?body = "Some (JObj [(''tenant_id'', JStr (''verification-'' @ take 16 (se_hex E k)))])"
  obtain r s1 where run: "expect_status E service endpoint ''POST'' ''/v1/admin/tenants'' admin ?body None 201 s = (r, s1)" by fastforce
  have p: "provision_call endpoint (raw_call E endpoint ''POST'' ''/v1/admin/tenants'' cred ?body None)" for cred
    by (simp add: provision_call_def raw_call_def)
  have "ss_tenants s1 = ss_tenants s \<and>
      created E endpoint (snd (ss_world s1)) = created E endpoint (snd (ss_world s)) @ (case r of Inl e \<Rightarrow> [] | Inr v \<Rightarrow> [v])"
    using expect_status_run [OF run]
  proof (elim disjE exE conjE)
    fix cred a x
    assume s1: "s1 = s\<lparr>ss_world := (x, snd (ss_world s) @ [(raw_call E endpoint ''POST'' ''/v1/admin/tenants'' cred ?body None, a)])\<rparr>"
      and ok: "\<forall>v. r = Inr v \<longleftrightarrow> status_of a = Some 201 \<and> decoded E a = Some v"
    show ?thesis
    proof (cases r)
      case (Inl e)
      with ok have "status_of a \<noteq> Some 201 \<or> decoded E a = None" by (cases "decoded E a") auto
      with s1 Inl show ?thesis by (auto simp: created_append created_def List.map_filter_def)
    next
      case (Inr v)
      with ok have "status_of a = Some 201" "decoded E a = Some v" by blast+
      with s1 Inr p [of cred] show ?thesis by (simp add: created_append created_def List.map_filter_def)
    qed
  qed simp
  with k show "case provision_one E service endpoint admin k s of (Inl e, s') \<Rightarrow> known_tenants E endpoint n s'
      | (Inr u, s') \<Rightarrow> known_tenants E endpoint (Suc n) s'"
    unfolding provision_one_def sbind_def run by (cases r) (auto simp: known_tenants_def)
qed

definition at_most_two :: "script_env \<Rightarrow> string \<Rightarrow> 's session \<Rightarrow> bool" where
  "at_most_two E endpoint s \<longleftrightarrow> (\<exists>n \<le> 2. known_tenants E endpoint n s)"

lemma verify_body_tenants:
  "triple (known_tenants E endpoint 0) (verify_body E service endpoint admin) (\<lambda>_. known_tenants E endpoint 2)
    (\<lambda>_. at_most_two E endpoint)"
proof -
  let ?I = "known_tenants E endpoint 2"
  have phases: "keeps ?I (verify_detection E service client second)" if "make_client E endpoint key t r n = Inr client"
    for client second key t r n
  proof (rule known_keeps, rule verify_detection_keeps [OF that])
    fix T base key c
    obtain base' key' c' where second: "second = (base', key', c')" by (cases second)
    show "keeps (tenants_known E endpoint T) (check_detection E service base key second)"
      by (intro check_detection_safe [OF second] unprovisioning.safe_traffic_axioms any_queues)
  qed (simp add: session_ok_def)
  have sampled: "keeps ?I (verify_sample E service endpoint key)" for key
    by (intro verify_sample_keeps known_keeps check_requests_known)
  have rest: "keeps ?I (verify_checks E service endpoint)"
    unfolding verify_checks_def
    by (intro keeps_sbind [OF keeps_tenant_key] keeps_slift_bind keeps_sbind [OF phases] sampled)
  have second: "triple (known_tenants E endpoint 1) (sbind (provision_one E service endpoint admin 1) f) (\<lambda>_. ?I) (\<lambda>_. at_most_two E endpoint)"
    if "keeps ?I (f ())" for f :: "unit \<Rightarrow> ('a, json) procedure"
  proof (rule triple_sbind)
    show "triple (known_tenants E endpoint 1) (provision_one E service endpoint admin 1) (\<lambda>_. ?I) (\<lambda>_. at_most_two E endpoint)"
      by (rule triple_conseq [OF provision_known]) (auto simp: at_most_two_def numeral_2_eq_2)
    show "triple ?I (f u) (\<lambda>_. ?I) (\<lambda>_. at_most_two E endpoint)" for u
      by (rule triple_conseq [OF that [folded unit_eq [of u]]]) (auto simp: at_most_two_def)
  qed
  have first: "triple (known_tenants E endpoint 0) (provision_one E service endpoint admin 0) (\<lambda>_. known_tenants E endpoint 1)
      (\<lambda>_. at_most_two E endpoint)"
    by (rule triple_conseq [OF provision_known]) (auto simp: at_most_two_def)
  show ?thesis
    unfolding verify_body_def by (rule triple_sbind [OF first second [OF rest]])
qed

lemma verify_deployment_run:
  assumes "verify_deployment E service endpoint admin_file s0 = (r, tr)"
    and "rbind (trusted_endpoint E endpoint) (\<lambda>_. rbind admin_file (\<lambda>v. subscript v ''key'')) = Inr admin"
  shows "\<exists>r1 s1 q ext. verify_body E service endpoint admin (start_session s0 None) = (r1, s1) \<and>
    r = (case q of Inl e \<Rightarrow> Inl e | Inr _ \<Rightarrow> r1) \<and> tr = snd (ss_world s1) @ ext \<and> ss_tenants s1 = created E endpoint tr \<and>
    length (ss_tenants s1) \<le> 2 \<and> (\<not> isl r1 \<longrightarrow> length (ss_tenants s1) = 2) \<and>
    swept endpoint ext (ss_tenants s1) (\<not> isl (q :: pyerror + unit))"
proof -
  obtain r1 s1 where 1: "verify_body E service endpoint admin (start_session s0 None) = (r1, s1)" by fastforce
  obtain q s2 where 2: "cleanup E service endpoint s1 = (q, s2)" by fastforce
  have r: "r = (case q of Inl e \<Rightarrow> Inl e | Inr _ \<Rightarrow> r1)" "tr = snd (ss_world s2)"
    using assms 1 2 by (simp_all add: verify_deployment_def finally_do_def)
  have "known_tenants E endpoint 0 (start_session s0 None)"
    by (simp add: known_tenants_def start_session_def created_def List.map_filter_def)
  then have "if isl r1 then at_most_two E endpoint s1 else known_tenants E endpoint 2 s1"
    using triple_Inl [OF verify_body_tenants] triple_Inr [OF verify_body_tenants] 1 by (cases r1) auto
  then have s1: "ss_tenants s1 = created E endpoint (snd (ss_world s1))" "length (ss_tenants s1) \<le> 2"
    "\<not> isl r1 \<Longrightarrow> length (ss_tenants s1) = 2" by (auto simp: at_most_two_def known_tenants_def split: if_splits)
  have each: "keeps (tenants_known E endpoint T) (cleanup_each E service endpoint ts)" for T ts
    by (induction ts) (simp_all add: cleanup_one_def keeps_rules raw_known)
  have "tenants_known E endpoint (ss_tenants s1) s1" by (simp add: session_ok_def s1 list_all_iff)
  from keeps_run [OF each [where ts = "ss_tenants s1"] this] 2 have s2: "created E endpoint tr = ss_tenants s1"
    by (simp add: cleanup_def session_ok_def r)
  obtain ext where ext: "tr = snd (ss_world s1) @ ext" "swept endpoint ext (ss_tenants s1) (\<not> isl q)"
    using cleanup_each_run [OF 2 [unfolded cleanup_def]] r by auto
  show ?thesis
    by (rule exI [of _ r1], rule exI [of _ s1], rule exI [of _ q], rule exI [of _ ext], intro conjI)
      (use 1 s1 s2 r(1) ext in simp_all)
qed

lemma verify_deployment_swept:
  assumes "verify_deployment E service endpoint admin_file s0 = (r, tr)"
  shows "length (created E endpoint tr) \<le> 2 \<and> (\<not> isl r \<longrightarrow> length (created E endpoint tr) = 2) \<and>
    (\<exists>finished. swept endpoint tr (created E endpoint tr) finished \<and> (\<not> finished \<longrightarrow> isl r))"
proof (cases "rbind (trusted_endpoint E endpoint) (\<lambda>_. rbind admin_file (\<lambda>v. subscript v ''key''))")
  case (Inl e)
  with assms have "r = Inl e" "tr = []" by (simp_all add: verify_deployment_def)
  moreover have "swept endpoint [] [] True" by (auto simp: swept_def)
  ultimately show ?thesis by (auto simp: created_def List.map_filter_def)
next
  case (Inr admin)
  from verify_deployment_run [OF assms Inr] obtain r1 q ext pre where r: "r = (case q of Inl e \<Rightarrow> Inl e | Inr _ \<Rightarrow> r1)"
    and tr: "tr = pre @ ext" and two: "length (created E endpoint tr) \<le> 2" "\<not> isl r1 \<longrightarrow> length (created E endpoint tr) = 2"
    and "swept endpoint ext (created E endpoint tr) (\<not> isl (q :: pyerror + unit))" by metis
  then have "swept endpoint tr (created E endpoint tr) (\<not> isl q)" using swept_grows by metis
  with r two show ?thesis by (cases q) auto
qed

subsection \<open>What the evidence rests on\<close>

definition probes :: "script_env \<Rightarrow> string \<Rightarrow> string option \<Rightarrow> string option \<Rightarrow> string \<Rightarrow> members \<Rightarrow> http_call list" where
  "probes E endpoint cred granted path sample =
     [raw_call E endpoint ''POST'' ''/v1/events'' cred (Some (events_body sample)) None,
      raw_call E endpoint ''POST'' ''/v1/events'' cred (Some (events_body sample)) None,
      raw_call E endpoint ''POST'' ''/v1/events'' cred
        (Some (events_body (AList.update ''prompt'' (JStr ''synthetic-disallowed-content'') sample))) None,
      raw_call E endpoint ''GET'' ''/v1/summary'' None None None,
      raw_call E endpoint ''POST'' ''/v1/keys'' cred (Some (JObj [(''scopes'', JArr [JStr ''ingest''])])) None,
      raw_call E endpoint ''GET'' ''/v1/summary'' granted None None,
      raw_call E endpoint ''DELETE'' path cred None None,
      raw_call E endpoint ''POST'' ''/v1/events'' granted (Some (events_body sample)) None,
      raw_call E endpoint ''GET'' ''/ready'' cred None None,
      raw_call E endpoint ''GET'' ''/v1/network'' cred None None]"

definition shows_int :: "script_env \<Rightarrow> http_outcome \<Rightarrow> string \<Rightarrow> int \<Rightarrow> bool" where
  "shows_int E a k n \<longleftrightarrow> (\<exists>v x. decoded E a = Some v \<and> item v k = Some x \<and> equals_int x n)"

definition shows_str :: "script_env \<Rightarrow> http_outcome \<Rightarrow> string \<Rightarrow> string \<Rightarrow> bool" where
  "shows_str E a k s \<longleftrightarrow> (\<exists>v. decoded E a = Some v \<and> item v k = Some (JStr s))"

text \<open>
  The answers to the probes: the sample is accepted once and then recognised, an unknown member, a missing credential, a
  missing scope and a revoked key are refused with their statuses, and the granted key and its identifier come from the reply.
\<close>

definition probed :: "script_env \<Rightarrow> string \<Rightarrow> string option \<Rightarrow> members \<Rightarrow> traffic \<Rightarrow> bool" where
  "probed E endpoint cred sample ext \<longleftrightarrow>
     (\<exists>granted key_id g issued. map fst ext = probes E endpoint cred granted (''/v1/keys/'' @ key_id) sample \<and>
        map (\<lambda>x. status_of (snd x)) (take 9 ext) = map Some [200, 200, 422, 401, 201, 403, 200, 401, 200] \<and>
        shows_int E (snd (ext ! 0)) ''accepted'' 1 \<and> shows_int E (snd (ext ! 1)) ''duplicates'' 1 \<and>
        decoded E (snd (ext ! 4)) = Some issued \<and> item issued ''key'' = Some g \<and> bearer_of g = Inr granted \<and>
        item issued ''key_id'' = Some (JStr key_id) \<and> shows_str E (snd (ext ! 9)) ''status'' ''disabled'')"

lemma bound_Inr: "sbind m f s = (Inr y, s') \<Longrightarrow> (\<And>x s1. m s = (Inr x, s1) \<Longrightarrow> f x s1 = (Inr y, s') \<Longrightarrow> P) \<Longrightarrow> P"
  by (auto simp: sbind_def split: prod.splits sum.splits)

lemma lifted_Inr: "slift r s = (Inr y, s') \<longleftrightarrow> r = Inr y \<and> s' = s"
  by (auto simp: slift_def)

lemma raw_request_Inr:
  assumes "raw_request E service endpoint verb path key body confirm s = (Inr (st, v), s')"
  obtains cred a where "bearer_of key = Inr cred" "decoded E a = Some v"
    "snd (ss_world s') = snd (ss_world s) @ [(raw_call E endpoint verb path cred body confirm, a)]"
proof -
  from raw_request_run [OF assms] obtain cred a x where "bearer_of key = Inr cred"
    "s' = s\<lparr>ss_world := (x, snd (ss_world s) @ [(raw_call E endpoint verb path cred body confirm, a)])\<rparr>"
    "\<forall>n w. Inr (st, v) = (Inr (n, w) :: pyerror + nat \<times> json) \<longleftrightarrow> status_of a = Some n \<and> decoded E a = Some w" by blast
  with that [of cred a] show thesis by force
qed

lemma member_is_shows: "member_is v k n = Inr u \<Longrightarrow> decoded E a = Some v \<Longrightarrow> shows_int E a k n"
  by (auto simp: member_is_def shows_int_def rbind_Inr_iff subscript_Inr)

lemma concat_path_Inr: "concat_path p v = Inr q \<longleftrightarrow> (\<exists>s. v = JStr s \<and> q = p @ s)"
  by (auto simp: concat_path_def split: json.splits)

lemma check_requests_probed:
  assumes "check_requests E service endpoint key sample s = (Inr u, s')"
  shows "\<exists>cred ext. bearer_of key = Inr cred \<and> snd (ss_world s') = snd (ss_world s) @ ext \<and> probed E endpoint cred sample ext"
proof -
  have none: "bearer_of JNull = Inr None" by (simp add: bearer_of_def truthy_def)
  show ?thesis
    using assms unfolding check_requests_def check_granted_def Let_def
    apply (elim bound_Inr)
    apply (elim expect_status_Inr)
    apply (simp only: split_paired_all prod.case)
    apply (elim bound_Inr raw_request_Inr)
    apply (clarsimp simp: lifted_Inr rbind_Inr_iff subscript_Inr concat_path_Inr none)
    apply (unfold probed_def)
    apply (simp add: probes_def)
    apply (auto intro: member_is_shows simp: shows_str_def)
    done
qed

lemma check_detection_tenants:
  assumes "check_detection E service base key second s = (r, s')"
  shows "ss_tenants s' = ss_tenants s"
proof -
  obtain base' key' c where second: "second = (base', key', c)" by (cases second)
  have safe: "safe_traffic E service b k (\<lambda>_. True) (\<lambda>_. True)" for b k by unfold_locales simp_all
  have "session_ok (\<lambda>_. True) (\<lambda>_. True) (ss_tenants s) s" by (simp add: session_ok_def list_all_iff)
  from keeps_run [OF check_detection_safe [OF second safe safe any_queues] this, of base key] assms
  show ?thesis by (simp add: session_ok_def)
qed

text \<open>A successful body ends with the probes, under the key of the first tenant.\<close>

lemma verify_body_probes:
  assumes "verify_body E service endpoint admin s = (Inr v, s1)"
  shows "\<exists>key sample s0 fresh now. check_requests E service endpoint key sample s0 = (Inr (), s1) \<and> v = check_evidence E endpoint \<and>
    ss_tenants s0 \<noteq> [] \<and> item (hd (ss_tenants s0)) ''key'' = Some key \<and> sdk_event (se_runtime E) fresh now sample_event = Some sample"
  using assms unfolding verify_body_def verify_checks_def
  apply (elim bound_Inr)
  apply (auto simp: lifted_Inr tenant_key_def subscript_Inr sbind_def sreturn_def verify_detection_def verify_sample_def
      dest!: check_detection_tenants split: option.splits sum.splits prod.splits if_splits)
  apply (metis hd_conv_nth)
  done

lemma check_requests_tenants:
  assumes "check_requests E service endpoint key sample s = (r, s')"
  shows "ss_tenants s' = ss_tenants s"
proof -
  let ?I = "session_ok (\<lambda>_. True) (\<lambda>_. True) (ss_tenants s)"
  have raw: "keeps ?I (raw_request E service endpoint verb path k body confirm)" for verb path k body confirm
    by (rule raw_request_keeps) simp
  then have "keeps ?I (expect_status E service endpoint verb path k body confirm st)" for verb path k body confirm st
    unfolding expect_status_def by (intro keeps_rules)
  with raw have "keeps ?I (check_requests E service endpoint key sample)"
    unfolding check_requests_def check_granted_def Let_def by (intro keeps_rules)
  from keeps_run [OF this, of s] assms show ?thesis by (simp add: session_ok_def list_all_iff)
qed

lemma verify_deployment_probed:
  assumes "verify_deployment E service endpoint admin_file s0 = (Inr v, tr)"
  shows "v = check_evidence E endpoint \<and> (\<exists>key cred sample fresh now pre ext post.
    item (hd (created E endpoint tr)) ''key'' = Some key \<and> bearer_of key = Inr cred \<and>
    sdk_event (se_runtime E) fresh now sample_event = Some sample \<and> tr = pre @ ext @ post \<and> probed E endpoint cred sample ext)"
proof -
  obtain admin where admin: "rbind (trusted_endpoint E endpoint) (\<lambda>_. rbind admin_file (\<lambda>v. subscript v ''key'')) = Inr admin"
    using assms by (cases "rbind (trusted_endpoint E endpoint) (\<lambda>_. rbind admin_file (\<lambda>v. subscript v ''key''))")
      (simp_all add: verify_deployment_def)
  obtain r1 s1 and q :: "pyerror + unit" and post where 1: "verify_body E service endpoint admin (start_session s0 None) = (r1, s1)"
    and r: "Inr v = (case q of Inl e \<Rightarrow> Inl e | Inr _ \<Rightarrow> r1)" and tr: "tr = snd (ss_world s1) @ post"
    and tenants: "ss_tenants s1 = created E endpoint tr" using verify_deployment_run [OF assms admin] by blast
  have r1: "r1 = Inr v" using r by (simp split: sum.splits)
  obtain key sample sa fresh now where run: "check_requests E service endpoint key sample sa = (Inr (), s1)"
    and v: "v = check_evidence E endpoint" and key: "item (hd (ss_tenants sa)) ''key'' = Some key"
    and sample: "sdk_event (se_runtime E) fresh now sample_event = Some sample"
    using verify_body_probes [OF 1 [unfolded r1]] by blast
  obtain cred ext where cred: "bearer_of key = Inr cred" and ext: "snd (ss_world s1) = snd (ss_world sa) @ ext" "probed E endpoint cred sample ext"
    using check_requests_probed [OF run] by blast
  have "hd (created E endpoint tr) = hd (ss_tenants sa)" using check_requests_tenants [OF run] tenants by simp
  moreover have "tr = snd (ss_world sa) @ ext @ post" using tr ext(1) by simp
  ultimately show ?thesis using v key cred sample ext(2) by metis
qed

end
