(* ===== verification/Demo_Deployment.thy ===== *)
theory Demo_Deployment
  imports Demo_Drills Deployment_Facts
begin

text \<open>
  A complete run of the deployment check against a service that answers as a healthy deployment does.
\<close>

subsection \<open>The events of the deployment check\<close>

definition drill_event :: "event_args \<Rightarrow> members" where
  "drill_event a = event_members drill_id 1000000000000000 a @ ea_measurements a"

lemma drill_labels:
  "identifier_ok ''synthetic-production-check''" "identifier_ok ''synthetic-agent''" "identifier_ok ''synthetic-provider''"
  "identifier_ok ''synthetic-model''" "identifier_ok ''bad-v2''" "identifier_ok ''good-v1''"
  by code_simp+

lemmas validity = FIELDS_def REQUIRED_def IDENTIFIERS_def COUNTERS_def checked_def identifier_json_def str_in_def OPERATIONS_def
  FAILURE_TYPES_def failure_checked_def counter_json_def latency_json_def json_bool_def

lemma check_event_valid:
  assumes "result = ''success'' \<or> result = ''failure''"
  shows "sdk_valid (drill_event (check_event result))"
  unfolding sdk_valid_def using assms drill_stamp
  by (elim disjE) (simp add: drill_event_def event_members_def check_event_def chosen_id_def validity drill_labels drill_id_def; blast)+

lemma sample_event_valid: "sdk_valid (drill_event sample_event)"
  unfolding sdk_valid_def using drill_stamp
  by (simp add: drill_event_def event_members_def sample_event_def check_event_def chosen_id_def validity drill_labels drill_id_def) blast

lemma drill_sdk_event:
  assumes "sdk_valid (drill_event a)" "ea_timestamp a = None" "ea_event_id a = None"
    and "list_all (\<lambda>k. k \<notin> set (keys (event_members drill_id 1000000000000000 a))) (keys (ea_measurements a))"
  shows "sdk_event (se_runtime (drill_env answers)) drill_id 1000000000000000 a = Some (drill_event a)"
  using sdk_valid_fixed [OF assms(1) edge_iso] assms(2-4)
  by (auto simp: sdk_event_def drill_event_def Let_def drill_env_def list_ex_iff list_all_iff)

lemma check_event_made:
  "result = ''success'' \<or> result = ''failure'' \<Longrightarrow>
    sdk_event (se_runtime (drill_env answers)) drill_id 1000000000000000 (check_event result) = Some (drill_event (check_event result))"
  "sdk_event (se_runtime (drill_env answers)) drill_id 1000000000000000 sample_event = Some (drill_event sample_event)"
  by (rule drill_sdk_event; (rule check_event_valid sample_event_valid)?; auto simp: check_event_def sample_event_def event_members_def)+

text \<open>The members after the timestamp.\<close>

definition event_tail :: "event_args \<Rightarrow> members" where
  "event_tail a =
     [(''deployment_id'', ea_deployment_id a), (''agent_id'', ea_agent_id a), (''operation'', ea_operation a),
      (''outcome'', ea_outcome a), (''synthetic'', ea_synthetic a)]
     @ (case ea_failure_type a of None \<Rightarrow> [] | Some f \<Rightarrow> [(''failure_type'', f)]) @ ea_measurements a"

lemma drill_event_size:
  assumes "members_size edge_runtime (event_tail a) \<le> 590" "ea_event_id a = None"
  shows "event_size edge_runtime (drill_event a) \<le> 900"
proof -
  have "members_size edge_runtime [(''schema_version'', JStr ''1.0''), (''event_id'', JStr drill_id)] \<le> 100" by code_simp
  moreover have "drill_event a = [(''schema_version'', JStr ''1.0''), (''event_id'', JStr drill_id)] @
      (''timestamp'', JStr (isoformat 1000000000000000)) # event_tail a"
    by (simp add: drill_event_def event_members_def event_tail_def chosen_id_def assms(2))
  ultimately show ?thesis
    using assms(1) event_size_stamped [of edge_runtime "[(''schema_version'', JStr ''1.0''), (''event_id'', JStr drill_id)]" 1000000000000000 "event_tail a"]
    by simp
qed

lemma check_event_size:
  assumes "result = ''success'' \<or> result = ''failure''"
  shows "event_size edge_runtime (drill_event (check_event result)) \<le> 900"
proof -
  have "members_size edge_runtime (event_tail (check_event ''success'')) \<le> 590" by code_simp
  moreover have "members_size edge_runtime (event_tail (check_event ''failure'')) \<le> 590" by code_simp
  ultimately show ?thesis using assms by (intro drill_event_size) (auto simp: check_event_def)
qed

subsection \<open>A deployment check that succeeds\<close>

definition drill_tenant :: "string \<Rightarrow> json" where
  "drill_tenant k = JObj [(''tenant_id'', JStr (''verification-'' @ k)), (''key'', JStr k)]"

definition drill_incidents :: "string \<Rightarrow> json" where
  "drill_incidents status1 = JObj [(''incidents'', JArr [JObj
     [(''incident_id'', JStr ''i''), (''status'', JStr status1), (''synthetic'', JBool True),
      (''signals'', JArr [JStr ''failure_rate_regression''])]])]"

definition drill_status :: "string \<Rightarrow> json" where "drill_status x = JObj [(''status'', JStr x)]"

definition detection_answers :: "answer list" where
  "detection_answers =
     [(201, Some (drill_tenant ''key-one'')), (201, Some (drill_tenant ''key-two'')), (200, Some (ack 50)), (200, Some (ack 50)),
      (200, Some (drill_incidents ''open'')), (200, Some (JObj [(''totals'', JObj [(''accepted'', JInt 0)])])), (200, Some (ack 100)),
      (200, Some (drill_incidents ''resolved''))]"

definition probe_answers :: "answer list" where
  "probe_answers =
     [(200, Some (ack 1)), (200, Some (JObj [(''accepted'', JInt 0), (''duplicates'', JInt 1)])), (422, None), (401, None),
      (201, Some (JObj [(''key'', JStr ''key-three''), (''key_id'', JStr ''kid'')])), (403, None), (200, Some (drill_status ''revoked'')),
      (401, None), (200, Some (drill_status ''ready'')), (200, Some (drill_status ''disabled''))]"

definition deletion_answers :: "answer list" where
  "deletion_answers = [(200, Some (drill_status ''deleted'')), (401, None), (200, Some (drill_status ''deleted'')), (401, None)]"

definition healthy :: "answer list" where
  "healthy = detection_answers @ probe_answers @ deletion_answers"

lemma healthy_reads: "readable healthy" "length healthy = 22"
  by (simp_all add: healthy_def detection_answers_def probe_answers_def deletion_answers_def drill_tenant_def drill_incidents_def drill_status_def ack_def)

lemma healthy_nth:
  "healthy ! 0 = (201, Some (drill_tenant ''key-one''))"
  "healthy ! 1 = (201, Some (drill_tenant ''key-two''))"
  "healthy ! 2 = (200, Some (ack 50))"
  "healthy ! 3 = (200, Some (ack 50))"
  "healthy ! 4 = (200, Some (drill_incidents ''open''))"
  "healthy ! 5 = (200, Some (JObj [(''totals'', JObj [(''accepted'', JInt 0)])]))"
  "healthy ! 6 = (200, Some (ack 100))"
  "healthy ! 7 = (200, Some (drill_incidents ''resolved''))"
  "healthy ! 8 = (200, Some (ack 1))"
  "healthy ! 9 = (200, Some (JObj [(''accepted'', JInt 0), (''duplicates'', JInt 1)]))"
  "healthy ! 10 = (422, None)"
  "healthy ! 11 = (401, None)"
  "healthy ! 12 = (201, Some (JObj [(''key'', JStr ''key-three''), (''key_id'', JStr ''kid'')]))"
  "healthy ! 13 = (403, None)"
  "healthy ! 14 = (200, Some (drill_status ''revoked''))"
  "healthy ! 15 = (401, None)"
  "healthy ! 16 = (200, Some (drill_status ''ready''))"
  "healthy ! 17 = (200, Some (drill_status ''disabled''))"
  "healthy ! 18 = (200, Some (drill_status ''deleted''))"
  "healthy ! 19 = (401, None)"
  "healthy ! 20 = (200, Some (drill_status ''deleted''))"
  "healthy ! 21 = (401, None)"
  by (simp_all add: healthy_def detection_answers_def probe_answers_def deletion_answers_def)

lemma drill_client:
  assumes "visible_ascii k" "k \<noteq> []" "length k \<le> 512"
  shows "make_client (drill_env answers) host (JStr k) 15 2 1000 = Inr (host, k, used 1000 2 0)"
  using assms
  by (simp add: make_client_def sdk_endpoint_def drill_env_def host_def endpoint_ok_def new_client_def used_def code_def Suc_le_eq)

lemma drill_checks:
  assumes "result = ''success'' \<or> result = ''failure''" "0 < n" "n \<le> 100" "length (dumps edge_runtime (ack n)) \<le> 100"
    and "k < length answers" "readable answers" "answers ! k = (200, Some (ack n))"
  shows "runs (standing k (Some (used 1000 2 u)) T) (check_emit (drill_env answers) (prepared answers) base key n result) ()
    (standing (Suc k) (Some (used 1000 2 (u + n))) T)"
proof -
  let ?e = "drill_event (check_event result)"
  have "runs (standing k (Some (holding ?e 0 (used 1000 2 u))) T) (repeated n (emit_event (drill_env answers) (check_event result))) ()
      (standing k (Some (holding ?e (0 + n) (used 1000 2 u))) T)"
    by (rule emits) (use assms(1,3) in \<open>simp_all add: check_event_made check_event_valid, simp_all add: drill_env_def edge_iso\<close>)
  moreover have "holding ?e 0 (used 1000 2 u) = used 1000 2 u" by (simp add: holding_def used_def)
  moreover have "n * (event_size edge_runtime ?e + 1) \<le> 130000"
    using mult_le_mono [OF assms(3), of "event_size edge_runtime ?e + 1" 901] check_event_size [OF assms(1)] by simp
  ultimately show ?thesis
    unfolding check_emit_def
    using flushes [OF assms(2,3) _ assms(5-7,4)] by (auto intro!: runs_sbind [where x = n] runs_slift elim!: runs_sbind)
qed

lemma drill_isolated:
  assumes "k < length answers" "readable answers" "answers ! k = (200, Some (JObj [(''totals'', JObj [(''accepted'', JInt 0)])]))"
  shows "runs (standing k c T) (check_isolation (drill_env answers) (prepared answers) (host, key2, c2)) () (standing (Suc k) c T)"
  unfolding runs_def
proof (intro allI impI)
  fix s :: "nat session" assume s: "standing k c T s"
  then obtain tr where w: "ss_world s = (k, tr)" by (cases "ss_world s") (simp add: standing_def)
  have "length (dumps edge_runtime (JObj [(''totals'', JObj [(''accepted'', JInt 0)])])) \<le> 10000" by code_simp
  from fetches [OF assms this refl] obtain tr' where
    "sdk_summary (reader_of answers) (sdk_get (prepared answers) host key2) c2 (k, tr) = (Inr (JObj [(''totals'', JObj [(''accepted'', JInt 0)])]), c2, Suc k, tr')"
    by (metis sdk_summary_def)
  then show "\<exists>s'. check_isolation (drill_env answers) (prepared answers) (host, key2, c2) s = (Inr (), s') \<and> standing (Suc k) c T s'"
    using s by (simp add: check_isolation_def w drill_env_def standing_def member_is_def subscript_def equals_int_def hashed_of_def)
qed

lemma drill_incident_reply:
  assumes "k < length answers" "readable answers" "answers ! k = (200, Some (drill_incidents x))" "length (dumps edge_runtime (drill_incidents x)) \<le> 10000"
  shows "runs (standing k (Some c) T) (client_incidents (drill_env answers) (prepared answers) base key) (drill_incidents x) (standing (Suc k) (Some c) T)"
  unfolding runs_def
proof (intro allI impI)
  fix s :: "nat session" assume s: "standing k (Some c) T s"
  then obtain tr where w: "ss_world s = (k, tr)" by (cases "ss_world s") (simp add: standing_def)
  from fetches [OF assms drill_incidents_def] obtain tr' where
    "sdk_incidents (reader_of answers) (sdk_get (prepared answers) base key) c (k, tr) = (Inr (drill_incidents x), c, Suc k, tr')"
    by (metis sdk_incidents_def)
  then show "\<exists>s'. client_incidents (drill_env answers) (prepared answers) base key s = (Inr (drill_incidents x), s') \<and> standing (Suc k) (Some c) T s'"
    using s by (simp add: client_incidents_def client_get_def w drill_env_def standing_def)
qed

lemma drill_detection:
  "runs (standing 2 (Some (used 1000 2 0)) T)
     (check_detection (drill_env healthy) (prepared healthy) host ''key-one'' (host, ''key-two'', c2)) () (standing 8 (Some (used 1000 2 200)) T)"
proof -
  note env = healthy_reads and nth = healthy_nth
  have short: "length (dumps edge_runtime (drill_incidents ''open'')) \<le> 10000" "length (dumps edge_runtime (drill_incidents ''resolved'')) \<le> 10000"
    by code_simp+
  have good: "runs (standing 2 (Some (used 1000 2 0)) T) (check_emit (drill_env healthy) (prepared healthy) host ''key-one'' 50 ''success'') ()
      (standing 3 (Some (used 1000 2 50)) T)"
    using drill_checks [of "''success''" 50 2 healthy 0 T host "''key-one''"] env acks_short by (simp add: nth)
  have bad: "runs (standing 3 (Some (used 1000 2 50)) T) (check_emit (drill_env healthy) (prepared healthy) host ''key-one'' 50 ''failure'') ()
      (standing 4 (Some (used 1000 2 100)) T)"
    using drill_checks [of "''failure''" 50 3 healthy 50 T host "''key-one''"] env acks_short by (simp add: nth)
  have again: "runs (standing 6 (Some (used 1000 2 100)) T) (check_emit (drill_env healthy) (prepared healthy) host ''key-one'' 100 ''success'') ()
      (standing 7 (Some (used 1000 2 200)) T)"
    using drill_checks [of "''success''" 100 6 healthy 100 T host "''key-one''"] env acks_short by (simp add: nth)
  have opened: "runs (standing 4 (Some c) T) (client_incidents (drill_env healthy) (prepared healthy) host ''key-one'')
      (drill_incidents ''open'') (standing 5 (Some c) T)" for c
    using drill_incident_reply [of 4 healthy "''open''" c T] env short by (simp add: nth)
  have isolated: "runs (standing 5 c T) (check_isolation (drill_env healthy) (prepared healthy) (host, ''key-two'', c2)) () (standing 6 c T)" for c
    using drill_isolated [of 5 healthy c T "''key-two''" c2] env by (simp add: nth)
  have closed: "runs (standing 7 (Some c) T) (client_incidents (drill_env healthy) (prepared healthy) host ''key-one'')
      (drill_incidents ''resolved'') (standing 8 (Some c) T)" for c
    using drill_incident_reply [of 7 healthy "''resolved''" c T] env short by (simp add: nth)
  let ?i = "\<lambda>x. JObj [(''incident_id'', JStr ''i''), (''status'', JStr x), (''synthetic'', JBool True),
      (''signals'', JArr [JStr ''failure_rate_regression''])]"
  have 1: "check_opened (drill_incidents ''open'') = Inr (?i ''open'')"
    by (simp add: check_opened_def drill_incidents_def subscript_def py_len_def iterate_def iterated_def head_item_def truthy_def contains_def)
  have 2: "check_resolved (?i ''open'') (drill_incidents ''resolved'') = Inr ()"
    by (simp add: check_resolved_def drill_incidents_def subscript_def head_item_def py_eq.simps hashed_of_def)
  show ?thesis
    unfolding check_detection_def
    by (rule runs_sbind [OF good], rule runs_sbind [OF bad], rule runs_sbind [OF opened], rule runs_sbind_slift [OF 1],
      rule runs_sbind [OF isolated], rule runs_sbind [OF again], rule runs_sbind [OF closed], rule runs_slift [OF 2])
qed

lemma healthy_yes:
  assumes "healthy ! k = (st, Some v)" "k < 22" "bearer_of key = Inr cred"
  shows "runs (standing k c T) (expect_status (drill_env healthy) (prepared healthy) host verb path key body confirm st) v (standing (Suc k) c T)"
  using runs_expect [of key cred k healthy st] healthy_reads assms by (simp add: reply_of_def)

lemma healthy_no:
  assumes "healthy ! k = (st, None)" "k < 22" "bearer_of key = Inr cred"
  shows "runs (standing k c T) (expect_status (drill_env healthy) (prepared healthy) host verb path key body confirm st) JNull (standing (Suc k) c T)"
  using runs_expect [of key cred k healthy st] healthy_reads assms by (simp add: reply_of_def)

lemma bearer_key: "bearer_of (JStr (c # k)) = Inr (Some (c # k))" "bearer_of JNull = Inr None"
  by (simp_all add: bearer_of_def truthy_def)

lemmas healthy_step = healthy_yes [OF healthy_nth(9)] healthy_yes [OF healthy_nth(10)] healthy_no [OF healthy_nth(11)]
  healthy_no [OF healthy_nth(12)] healthy_yes [OF healthy_nth(13)] healthy_no [OF healthy_nth(14)] healthy_yes [OF healthy_nth(15)]
  healthy_no [OF healthy_nth(16)] healthy_yes [OF healthy_nth(17)]

lemma drill_granted:
  "runs (standing 13 c T) (check_granted (drill_env healthy) (prepared healthy) host (JStr ''key-one'') sample
      (JObj [(''key'', JStr ''key-three''), (''key_id'', JStr ''kid'')])) () (standing 18 c T)"
proof -
  have key: "subscript (JObj [(''key'', JStr ''key-three''), (''key_id'', JStr ''kid'')]) ''key'' = Inr (JStr ''key-three'')"
    and path: "rbind (subscript (JObj [(''key'', JStr ''key-three''), (''key_id'', JStr ''kid'')]) ''key_id'') (concat_path ''/v1/keys/'') =
      Inr ''/v1/keys/kid''"
    by (simp_all add: subscript_def concat_path_def)
  have network: "runs (standing 17 c T) (raw_request (drill_env healthy) (prepared healthy) host ''GET'' ''/v1/network'' (JStr ''key-one'') None None)
      (200, drill_status ''disabled'') (standing 18 c T)"
    using runs_raw [of "JStr ''key-one''" _ 17 healthy] healthy_reads by (simp add: bearer_key reply_of_def healthy_nth)
  have steps: "Suc 13 = 14" "Suc 14 = 15" "Suc 15 = 16" "Suc 16 = 17" by simp_all
  show ?thesis
    unfolding check_granted_def
    by (rule runs_sbind_slift [OF key], rule runs_sbind [OF healthy_step(6) [OF _ bearer_key(1)]], simp, simp only: steps,
      rule runs_sbind_slift [OF path], rule runs_sbind [OF healthy_step(7) [OF _ bearer_key(1)]], simp, simp only: steps,
      rule runs_sbind [OF healthy_step(8) [OF _ bearer_key(1)]], simp, simp only: steps,
      rule runs_sbind [OF healthy_step(9) [OF _ bearer_key(1)]], simp, simp only: steps, rule runs_sbind [OF network])
      (simp add: subscript_def drill_status_def runs_slift)
qed

lemma drill_requests:
  "runs (standing 8 c T) (check_requests (drill_env healthy) (prepared healthy) host (JStr ''key-one'') sample) () (standing 18 c T)"
proof -
  have accepted: "member_is (ack 1) ''accepted'' 1 = Inr ()"
    "member_is (JObj [(''accepted'', JInt 0), (''duplicates'', JInt 1)]) ''duplicates'' 1 = Inr ()"
    by (simp_all add: member_is_def ack_def subscript_def equals_int_def hashed_of_def)
  have steps: "Suc 8 = 9" "Suc 9 = 10" "Suc 10 = 11" "Suc 11 = 12" "Suc 12 = 13" by simp_all
  show ?thesis
    unfolding check_requests_def Let_def
    by (rule runs_sbind [OF healthy_step(1) [OF _ bearer_key(1)]], simp, simp only: steps, rule runs_sbind_slift [OF accepted(1)],
      rule runs_sbind [OF healthy_step(2) [OF _ bearer_key(1)]], simp, simp only: steps, rule runs_sbind_slift [OF accepted(2)],
      rule runs_sbind [OF healthy_step(3) [OF _ bearer_key(1)]], simp, simp only: steps,
      rule runs_sbind [OF healthy_step(4) [OF _ bearer_key(2)]], simp, simp only: steps,
      rule runs_sbind [OF healthy_step(5) [OF _ bearer_key(1)]], simp, simp only: steps, rule drill_granted)
qed

lemma drill_provision:
  assumes "k < 2" "answers ! k = (201, Some t)" "readable answers" "2 \<le> length answers"
  shows "runs (standing k c T) (provision_one (drill_env answers) (prepared answers) host (JStr ''admin'') k) () (standing (Suc k) c (T @ [t]))"
  unfolding provision_one_def
  by (rule runs_sbind [OF runs_expect [OF bearer_key(1)]])
    (use assms in \<open>auto simp: reply_of_def runs_def standing_def\<close>)

lemma drill_deletion:
  assumes "healthy ! k = (200, Some v)" "healthy ! Suc k = (401, None)" "Suc k < 22"
  shows "runs (standing k c T) (cleanup_one (drill_env healthy) (prepared healthy) host (drill_tenant (x # xs))) () (standing (Suc (Suc k)) c T)"
proof -
  have t: "subscript (drill_tenant (x # xs)) ''key'' = Inr (JStr (x # xs))"
    "subscript (drill_tenant (x # xs)) ''tenant_id'' = Inr (JStr (''verification-'' @ x # xs))"
    by (simp_all add: drill_tenant_def subscript_def)
  show ?thesis
    unfolding cleanup_one_def
    by (rule runs_sbind_slift [OF t(1)], rule runs_sbind_slift [OF t(2)], rule runs_sbind [OF healthy_yes [OF assms(1)]],
      rule Suc_lessD [OF assms(3)], rule bearer_key, rule runs_sbind [OF healthy_no [OF assms(2,3) bearer_key(1)] runs_sreturn])
qed

lemma drill_provisioned:
  "runs (standing 0 c []) (provision_one (drill_env healthy) (prepared healthy) host (JStr ''admin'') 0) () (standing 1 c [drill_tenant ''key-one''])"
  "runs (standing 1 c [drill_tenant ''key-one'']) (provision_one (drill_env healthy) (prepared healthy) host (JStr ''admin'') 1) ()
     (standing 2 c [drill_tenant ''key-one'', drill_tenant ''key-two''])"
proof -
  have steps: "Suc 0 = 1" "Suc 1 = 2" by simp_all
  have long: "2 \<le> length healthy" by (simp add: healthy_reads)
  show "runs (standing 0 c []) (provision_one (drill_env healthy) (prepared healthy) host (JStr ''admin'') 0) () (standing 1 c [drill_tenant ''key-one''])"
    using drill_provision [OF _ healthy_nth(1) healthy_reads(1) long, unfolded steps, of c "[]"] by simp
  show "runs (standing 1 c [drill_tenant ''key-one'']) (provision_one (drill_env healthy) (prepared healthy) host (JStr ''admin'') 1) ()
     (standing 2 c [drill_tenant ''key-one'', drill_tenant ''key-two''])"
    using drill_provision [OF _ healthy_nth(2) healthy_reads(1) long, unfolded steps, of c "[drill_tenant ''key-one'']"] by simp
qed

lemma drill_tenant_key:
  assumes "i < length T" "T ! i = drill_tenant k"
  shows "runs (standing n c T) (tenant_key i) (JStr k) (standing n c T)"
  using assms by (simp add: runs_def standing_def tenant_key_def drill_tenant_def subscript_def)

lemma runs_standing: "(\<And>s. standing k c T s \<Longrightarrow> \<exists>s'. m s = (Inr x, s') \<and> Q s') \<Longrightarrow> runs (standing k c T) m x Q"
  by (simp add: runs_def)

lemma drill_verified:
  "runs (standing 0 None []) (verify_body (drill_env healthy) (prepared healthy) host (JStr ''admin'')) (check_evidence (drill_env healthy) host)
     (standing 18 (Some (used 1000 2 200)) [drill_tenant ''key-one'', drill_tenant ''key-two''])"
proof -
  let ?T = "[drill_tenant ''key-one'', drill_tenant ''key-two'']"
  have keys: "visible_ascii ''key-one''" "visible_ascii ''key-two''" by code_simp+
  have c1: "make_client (drill_env healthy) host (JStr ''key-one'') 15 2 1000 = Inr (host, ''key-one'', used 1000 2 0)"
    and c2: "make_client (drill_env healthy) host (JStr ''key-two'') 15 2 1000 = Inr (host, ''key-two'', used 1000 2 0)"
    by (simp_all add: drill_client keys)
  have detection: "runs (standing 2 c ?T) (verify_detection (drill_env healthy) (prepared healthy) (host, ''key-one'', used 1000 2 0)
      (host, ''key-two'', used 1000 2 0)) () (standing 8 (Some (used 1000 2 200)) ?T)" for c
    unfolding runs_def
  proof (intro allI impI)
    fix s :: "nat session" assume "standing 2 c ?T s"
    then have "standing 2 (Some (used 1000 2 0)) ?T (s\<lparr>ss_client := Some (used 1000 2 0)\<rparr>)" by (simp add: standing_def)
    with drill_detection [of ?T "used 1000 2 0"] show "\<exists>s'. verify_detection (drill_env healthy) (prepared healthy) (host, ''key-one'', used 1000 2 0)
        (host, ''key-two'', used 1000 2 0) s = (Inr (), s') \<and> standing 8 (Some (used 1000 2 200)) ?T s'"
      by (simp add: verify_detection_def runs_def)
  qed
  have sample: "runs (standing 8 c ?T) (verify_sample (drill_env healthy) (prepared healthy) host (JStr ''key-one''))
      (check_evidence (drill_env healthy) host) (standing 18 c ?T)" for c
    unfolding runs_def
  proof (intro allI impI)
    fix s :: "nat session" assume s: "standing 8 c ?T s"
    have "se_uuid (drill_env healthy) (ss_drawn s) = drill_id" "se_now (drill_env healthy) (ss_drawn s) = 1000000000000000"
      by (simp_all add: drill_env_def)
    then have v: "verify_sample (drill_env healthy) (prepared healthy) host (JStr ''key-one'') s =
        sbind (check_requests (drill_env healthy) (prepared healthy) host (JStr ''key-one'') (drill_event sample_event))
          (\<lambda>_. sreturn (check_evidence (drill_env healthy) host)) s"
      by (simp add: verify_sample_def check_event_made(2))
    show "\<exists>s'. verify_sample (drill_env healthy) (prepared healthy) host (JStr ''key-one'') s =
        (Inr (check_evidence (drill_env healthy) host), s') \<and> standing 18 c ?T s'"
      unfolding v using s runs_sbind [OF drill_requests [of c ?T "drill_event sample_event"] runs_sreturn [of _ "check_evidence (drill_env healthy) host"]]
      by (simp add: runs_def)
  qed
  show ?thesis
    unfolding verify_body_def verify_checks_def
    by (rule runs_sbind [OF drill_provisioned(1)], rule runs_sbind [OF drill_provisioned(2)],
      rule runs_sbind [OF drill_tenant_key [where k = "''key-one''"]], simp, simp, rule runs_sbind_slift [OF c1],
      rule runs_sbind [OF drill_tenant_key [where k = "''key-two''"]], simp, simp, rule runs_sbind_slift [OF c2],
      rule runs_sbind [OF detection], rule sample)
qed

lemma drill_cleaned:
  assumes "ss_tenants s = [drill_tenant ''key-one'', drill_tenant ''key-two'']" "standing 18 c (ss_tenants s) s"
  shows "\<exists>s'. cleanup (drill_env healthy) (prepared healthy) host s = (Inr (), s')"
proof -
  note first = drill_deletion [OF healthy_nth(19), of c "ss_tenants s"] and second = drill_deletion [OF healthy_nth(21), of c "ss_tenants s"]
  have steps: "Suc 18 = 19" "Suc 19 = 20" "Suc 20 = 21" "Suc 21 = 22" by simp_all
  have "runs (standing 18 c (ss_tenants s)) (cleanup_each (drill_env healthy) (prepared healthy) host (ss_tenants s)) () (standing 22 c (ss_tenants s))"
    unfolding assms(1) cleanup_each.simps
    by (rule runs_sbind [OF first [unfolded steps assms(1), OF healthy_nth(20)]], simp,
      rule runs_sbind [OF second [unfolded steps assms(1), OF healthy_nth(22)]], simp, rule runs_sreturn)
  with assms(2) show ?thesis by (auto simp: cleanup_def runs_def)
qed

text \<open>The whole run.\<close>

definition drill_admin :: json where "drill_admin = JObj [(''key'', JStr ''admin'')]"

lemma drill_deployment:
  "\<exists>tr. verify_deployment (drill_env healthy) (prepared healthy) host (Inr drill_admin) 0 = (Inr (check_evidence (drill_env healthy) host), tr)"
proof -
  have admin: "rbind (trusted_endpoint (drill_env healthy) host) (\<lambda>_. rbind (Inr drill_admin) (\<lambda>v. subscript v ''key'')) = Inr (JStr ''admin'')"
    by (simp add: trusted_endpoint_def drill_env_def host_def present_str_def drill_admin_def subscript_def)
  have "standing 0 None [] (start_session 0 None)" by (simp add: standing_def start_session_def)
  with drill_verified obtain s1 where body: "verify_body (drill_env healthy) (prepared healthy) host (JStr ''admin'') (start_session 0 None) =
      (Inr (check_evidence (drill_env healthy) host), s1)"
    and s1: "standing 18 (Some (used 1000 2 200)) [drill_tenant ''key-one'', drill_tenant ''key-two''] s1"
    by (auto simp: runs_def)
  from s1 have "ss_tenants s1 = [drill_tenant ''key-one'', drill_tenant ''key-two'']" by (simp add: standing_def)
  with drill_cleaned [OF this, of "Some (used 1000 2 200)"] s1 obtain s2 where
    "cleanup (drill_env healthy) (prepared healthy) host s1 = (Inr (), s2)" by auto
  then show ?thesis unfolding verify_deployment_def admin by (simp add: finally_do_def body)
qed

end
