(* ===== verification/Demo_Fixture.thy ===== *)
theory Demo_Fixture
  imports Demo_Drills Fixture_Facts
begin

text \<open>
  A complete synthetic run of the agent that collects its evidence from a service that answers as a healthy one does.
\<close>

subsection \<open>A synthetic run of the agent that succeeds\<close>

definition drill_deployment_id :: string where "drill_deployment_id = ''solana-fixture-'' @ replicate 32 (CHR ''a'')"
definition drill_hex :: string where "drill_hex = replicate 64 (CHR ''b'')"

definition drill_summary :: "int \<Rightarrow> int \<Rightarrow> string \<Rightarrow> json \<Rightarrow> json" where
  "drill_summary accepted failures status1 resolution = JObj
     [(''schema_version'', JStr ''1.0''),
      (''totals'', JObj [(''accepted'', JInt accepted), (''duplicates'', JInt 1)]),
      (''streams'', JArr [JObj
         [(''stream_id'', JStr drill_hex),
          (''dimensions'', JObj [(''deployment_id'', JStr drill_deployment_id), (''agent_id'', JStr AGENT_ID),
             (''operation'', JStr ''tool''), (''synthetic'', JBool True)]),
          (''baseline'', JObj [(''count'', JInt 50), (''failures'', JInt 0)]),
          (''current'', JObj [(''count'', JInt 50), (''failures'', JInt failures)])]]),
      (''incidents'', JArr [JObj
         [(''incident_id'', JStr drill_hex), (''stream_id'', JStr drill_hex), (''synthetic'', JBool True), (''status'', JStr status1),
          (''resolution'', resolution), (''signals'', JArr [JStr ''failure_rate_regression''])]])]"

definition collecting :: "answer list" where
  "collecting =
     [(200, Some (JObj [(''totals'', JObj [(''accepted'', JInt 7), (''duplicates'', JInt 1)])])), (200, Some (ack 50)), (200, Some (ack 50)),
      (200, Some (drill_summary 107 50 ''open'' JNull)), (200, Some (ack 100)),
      (200, Some (drill_summary 207 0 ''resolved'' (JStr ''recovered'')))]"

definition drill_ob :: "bool \<Rightarrow> observed" where
  "drill_ob failing = fixture_observed (drill_env collecting) drill_deployment_id failing 0"

definition drill_report :: "bool \<Rightarrow> members" where
  "drill_report failing = readiness_members (drill_ob failing) (if failing then Some ''tool_error'' else None)"

lemma collecting_reads: "readable collecting" "length collecting = 6"
  by (simp_all add: collecting_def drill_summary_def ack_def)

lemma drill_observation: "observation_ok (drill_ob failing)"
proof -
  have "identifier_ok drill_deployment_id" "identifier_ok ''fixture-error-v2''" "identifier_ok ''fixture-healthy-v1''" by code_simp+
  with drill_stamp show ?thesis by (simp add: observation_ok_def drill_ob_def fixture_observed_def drill_env_def)
qed

lemma drill_outcome:
  "fst (check_rpc (fixture_call (se_agent (drill_env collecting)) failing) ()) = (if failing then Inl (Readiness ''tool_error'' ''rpc_error'') else Inr ())"
  by (cases failing) (simp_all add: fixture_rpc_healthy fixture_rpc_failing [OF drill_reads_error])

lemma drill_check:
  assumes "m < 100"
  shows "runs (standing k (Some (holding (drill_report failing) m (used 100 1 u))) T)
    (fixture_check (drill_env collecting) drill_deployment_id failing) (\<not> failing)
    (standing k (Some (holding (drill_report failing) (Suc m) (used 100 1 u))) T)"
proof -
  let ?c = "holding (drill_report failing) m (used 100 1 u)"
  have ob: "fixture_observed (drill_env collecting) drill_deployment_id b n = drill_ob b" for b n
    by (simp add: drill_ob_def fixture_observed_def drill_env_def)
  have "length (cl_queue ?c) < cl_capacity ?c" using assms by (simp add: holding_def used_def)
  from check_readiness_reports [where rpc = "fixture_call (se_agent (drill_env collecting)) failing" and s = "()",
      OF fixture_classified drill_observation edge_iso this, of failing, unfolded drill_outcome]
  have "check_readiness edge_runtime (fixture_call (se_agent (drill_env collecting)) failing) (drill_ob failing) (Some ?c) () =
      (Inr (answer_of True (if failing then Inl (Readiness ''tool_error'' ''rpc_error'') else Inr ())),
       Some (holding (drill_report failing) (Suc m) (used 100 1 u)), ())"
    by (cases failing)
      (simp_all add: holding_def used_def drill_report_def answer_of_def readiness_of_def replicate_append_same drill_ob_def fixture_observed_def)
  moreover have "se_runtime (drill_env collecting) = edge_runtime" by (simp add: drill_env_def)
  ultimately show ?thesis
    by (cases failing) (auto simp: runs_def standing_def fixture_check_def ob answer_of_def readiness_of_def)
qed

lemma drill_fixture_checks:
  "m + n \<le> 100 \<Longrightarrow> runs (standing k (Some (holding (drill_report failing) m (used 100 1 u))) T)
    (fixture_checks (drill_env collecting) drill_deployment_id failing n tally) (tallied failing n tally)
    (standing k (Some (holding (drill_report failing) (m + n) (used 100 1 u))) T)"
proof (induction n arbitrary: m tally)
  case (Suc n)
  have m: "m < 100" "Suc m + n \<le> 100" "Suc m + n = m + Suc n" using Suc.prems by simp_all
  have tally: "tallied failing n (if \<not> failing then (fst tally + 1, snd tally) else (fst tally, snd tally + 1)) = tallied failing (Suc n) tally"
    by (simp add: tallied_def)
  show ?case
    unfolding fixture_checks.simps
    by (rule runs_sbind [OF drill_check [OF m(1)]]) (rule Suc.IH [OF m(2), unfolded m(3), of "if \<not> failing then (fst tally + 1, snd tally) else (fst tally, snd tally + 1)", unfolded tally])
qed (simp add: tallied_def runs_sreturn)

lemma drill_report_valid: "sdk_valid (drill_report failing)"
  unfolding drill_report_def by (rule readiness_members_valid [OF drill_observation]) (auto simp: FAILURE_TYPES_def)

text \<open>The members of a report after the timestamp.\<close>

definition report_tail :: "bool \<Rightarrow> members" where
  "report_tail failing =
     [(''deployment_id'', JStr drill_deployment_id), (''agent_id'', JStr AGENT_ID), (''operation'', JStr ''tool''),
      (''outcome'', JStr (if failing then ''failure'' else ''success'')), (''synthetic'', JBool True)]
     @ (if failing then [(''failure_type'', JStr ''tool_error'')] else [])
     @ [(''provider'', JStr ''solana-devnet''), (''tool'', JStr TOOL), (''tool_version'', JStr TOOL_VERSION),
        (''agent_version'', JStr (if failing then ''fixture-error-v2'' else ''fixture-healthy-v1'')), (''sdk'', JStr ''reliamesh-python''),
        (''sdk_version'', JStr SDK_VERSION), (''retry_count'', JInt 0), (''latency_ms'', JFloat 1)]"

lemma drill_report_size: "event_size edge_runtime (drill_report failing) \<le> 1000"
proof -
  let ?head = "[(''schema_version'', JStr ''1.0''), (''event_id'', JStr drill_id)]"
  have "members_size edge_runtime ?head \<le> 100" by code_simp
  moreover have "members_size edge_runtime (report_tail True) \<le> 690" by code_simp
  moreover have "members_size edge_runtime (report_tail False) \<le> 690" by code_simp
  then have "members_size edge_runtime (report_tail failing) \<le> 690" using calculation(2) by (cases failing) simp_all
  moreover have "drill_report failing = ?head @ (''timestamp'', JStr (isoformat 1000000000000000)) # report_tail failing"
    by (simp add: drill_report_def readiness_members_def report_tail_def drill_ob_def fixture_observed_def drill_env_def measured_latency_def)
  ultimately show ?thesis
    using event_size_stamped [of edge_runtime ?head 1000000000000000 "report_tail failing"] by simp
qed

lemma drill_phase:
  assumes "0 < n" "n \<le> 100" "length (dumps edge_runtime (ack n)) \<le> 100" "k < 6" "collecting ! k = (200, Some (ack n))"
  shows "runs (standing k (Some (used 100 1 u)) T)
    (fixture_phase (drill_env collecting) (prepared collecting) host key drill_deployment_id failing n tally) (tallied failing n tally)
    (standing (Suc k) (Some (used 100 1 (u + n))) T)"
proof -
  let ?e = "drill_report failing"
  have none: "holding ?e 0 (used 100 1 u) = used 100 1 u" by (simp add: holding_def used_def)
  have "n * (event_size edge_runtime ?e + 1) \<le> 130000"
    using mult_le_mono [OF assms(2), of "event_size edge_runtime ?e + 1" 1001] drill_report_size [of failing] by simp
  from flushes [OF assms(1,2) this _ collecting_reads(1) assms(5,3), of 100 1 u T host key] assms(4)
  have "runs (standing k (Some (holding ?e n (used 100 1 u))) T) (client_flush (drill_env collecting) (prepared collecting) host key) n
      (standing (Suc k) (Some (used 100 1 (u + n))) T)"
    by (simp add: collecting_reads)
  then have "runs (standing k (Some (holding ?e n (used 100 1 u))) T)
      (sbind (client_flush (drill_env collecting) (prepared collecting) host key) (\<lambda>m. slift (needs (m = n) PyValueError))) ()
      (standing (Suc k) (Some (used 100 1 (u + n))) T)"
    by (rule runs_sbind) (rule runs_slift, simp)
  then have "runs (standing k (Some (holding ?e n (used 100 1 u))) T)
      (with_client (sbind (client_flush (drill_env collecting) (prepared collecting) host key) (\<lambda>m. slift (needs (m = n) PyValueError)))) (Some ())
      (standing (Suc k) (Some (used 100 1 (u + n))) T)"
    by (auto simp: runs_def with_client_def standing_def split_def)
  from runs_sbind [where f = "\<lambda>_. sreturn (tallied failing n tally)", OF this runs_sreturn] show ?thesis
    unfolding fixture_phase_def
    by (rule runs_sbind [OF drill_fixture_checks [of 0 n k failing u T tally, unfolded none add_0, OF assms(2)]])
qed

subsection \<open>The evidence\<close>

definition drill_selection :: "int \<Rightarrow> string \<Rightarrow> bool \<Rightarrow> selection" where
  "drill_selection failures status1 recovered1 =
     \<lparr>sn_stream_id = drill_hex, sn_deployment_id = drill_deployment_id, sn_baseline = (50, 0), sn_current = (50, failures),
      sn_incidents = [\<lparr>si_incident_id = drill_hex, si_status = status1, si_recovered = recovered1, si_regression = True\<rparr>]\<rparr>"

lemma drill_selected:
  "selected_summary drill_deployment_id (drill_summary 107 50 ''open'' JNull) = Inr (drill_selection 50 ''open'' False)"
  "selected_summary drill_deployment_id (drill_summary 207 0 ''resolved'' (JStr ''recovered'')) = Inr (drill_selection 0 ''resolved'' True)"
proof -
  have hex: "hex64 drill_hex" by code_simp
  note parts = selected_summary_def drill_summary_def item_def subscript_def iterate_def iterated_def got_def fixture_dimensions_def
    equals_int_def hashed_of_def checked_identifier_def hex selected_window_def checked_count_def selected_one_def among_def contains_def
    drill_selection_def List.map_filter_def
  show "selected_summary drill_deployment_id (drill_summary 107 50 ''open'' JNull) = Inr (drill_selection 50 ''open'' False)"
    by (simp add: parts)
  show "selected_summary drill_deployment_id (drill_summary 207 0 ''resolved'' (JStr ''recovered'')) = Inr (drill_selection 0 ''resolved'' True)"
    by (simp add: parts)
qed

lemma drill_fetch:
  assumes "k < 6" "collecting ! k = (200, Some v)" "length (dumps edge_runtime v) \<le> 10000" "v = JObj ms"
  shows "runs (standing k (Some c) T) (client_summary (drill_env collecting) (prepared collecting) host key) v (standing (Suc k) (Some c) T)"
  unfolding runs_def
proof (intro allI impI)
  fix s :: "nat session" assume s: "standing k (Some c) T s"
  then obtain tr where w: "ss_world s = (k, tr)" by (cases "ss_world s") (simp add: standing_def)
  have k: "k < length collecting" using assms(1) by (simp add: collecting_reads)
  from fetches [OF k collecting_reads(1) assms(2-4)] obtain tr' where
    "sdk_summary (reader_of collecting) (sdk_get (prepared collecting) host key) c (k, tr) = (Inr v, c, Suc k, tr')"
    by (metis sdk_summary_def)
  then show "\<exists>s'. client_summary (drill_env collecting) (prepared collecting) host key s = (Inr v, s') \<and> standing (Suc k) (Some c) T s'"
    using s by (simp add: client_summary_def client_get_def w drill_env_def standing_def)
qed

lemma collecting_nth:
  "collecting ! 0 = (200, Some (JObj [(''totals'', JObj [(''accepted'', JInt 7), (''duplicates'', JInt 1)])]))"
  "collecting ! 1 = (200, Some (ack 50))" "collecting ! 2 = (200, Some (ack 50))"
  "collecting ! 3 = (200, Some (drill_summary 107 50 ''open'' JNull))" "collecting ! 4 = (200, Some (ack 100))"
  "collecting ! 5 = (200, Some (drill_summary 207 0 ''resolved'' (JStr ''recovered'')))"
  by (simp_all add: collecting_def)

lemma collecting_short:
  "length (dumps edge_runtime (JObj [(''totals'', JObj [(''accepted'', JInt 7), (''duplicates'', JInt 1)])])) \<le> 10000"
  "length (dumps edge_runtime (drill_summary 107 50 ''open'' JNull)) \<le> 10000"
  "length (dumps edge_runtime (drill_summary 207 0 ''resolved'' (JStr ''recovered''))) \<le> 10000"
  by code_simp+

lemma runs_with_client: "runs (standing k (Some c) T) m x Q \<Longrightarrow> runs (standing k (Some c) T) (with_client m) (Some x) Q"
  by (fastforce simp: runs_def with_client_def standing_def)

lemma drill_before:
  "runs (standing 0 (Some (used 100 1 0)) T) (with_client (fixture_before (drill_env collecting) (prepared collecting) host key)) (Some (7, 1))
     (standing 1 (Some (used 100 1 0)) T)"
proof (rule runs_with_client)
  have steps: "Suc 0 = 1" by simp
  have fresh: "runs (standing 0 (Some (used 100 1 0)) T)
      (\<lambda>s. (needs (case ss_client s of None \<Rightarrow> False | Some c \<Rightarrow> list_all (\<lambda>p. snd p = 0) (counters c)) PyValueError, s)) ()
      (standing 0 (Some (used 100 1 0)) T)"
    by (auto simp: runs_def standing_def counters_def used_def)
  have found: "rbind (subscript (JObj [(''totals'', JObj [(''accepted'', JInt 7), (''duplicates'', JInt 1)])]) ''totals'') totals = Inr (7, 1)"
    by (simp add: subscript_def totals_def checked_count_def TOTAL_MAXIMUM_def)
  show "runs (standing 0 (Some (used 100 1 0)) T) (fixture_before (drill_env collecting) (prepared collecting) host key) (7, 1)
      (standing 1 (Some (used 100 1 0)) T)"
    unfolding fixture_before_def
    by (rule runs_sbind [OF fresh], rule runs_sbind [OF drill_fetch [OF _ collecting_nth(1) collecting_short(1) refl]], simp,
      simp only: steps, rule runs_slift [OF found])
qed

lemma drill_summary_step:
  assumes "k < 6" "collecting ! k = (200, Some (drill_summary a f st r))" "length (dumps edge_runtime (drill_summary a f st r)) \<le> 10000"
    "selected_summary drill_deployment_id (drill_summary a f st r) = Inr sn"
  shows "runs (standing k (Some c) T) (fixture_summary (drill_env collecting) (prepared collecting) host key drill_deployment_id)
    (drill_summary a f st r, sn) (standing (Suc k) (Some c) T)"
  unfolding fixture_summary_def
  by (rule runs_sbind [OF drill_fetch [OF assms(1-3) drill_summary_def]], rule runs_sbind_slift [OF assms(4)], rule runs_sreturn)

lemma drill_middle:
  "runs (standing 3 (Some c) T) (with_client (fixture_regression (drill_env collecting) (prepared collecting) host key drill_deployment_id))
     (Some (drill_selection 50 ''open'' False, hd (sn_incidents (drill_selection 50 ''open'' False)))) (standing 4 (Some c) T)"
proof (rule runs_with_client)
  have steps: "Suc 3 = 4" by simp
  have opened: "opened_incidents (drill_selection 50 ''open'' False) = [hd (sn_incidents (drill_selection 50 ''open'' False))]"
    by (simp add: opened_incidents_def drill_selection_def)
  show "runs (standing 3 (Some c) T) (fixture_regression (drill_env collecting) (prepared collecting) host key drill_deployment_id)
      (drill_selection 50 ''open'' False, hd (sn_incidents (drill_selection 50 ''open'' False))) (standing 4 (Some c) T)"
    unfolding fixture_regression_def
    by (rule runs_sbind [OF drill_summary_step [OF _ collecting_nth(4) collecting_short(2) drill_selected(1)]], simp,
      simp only: steps prod.case opened list.case runs_sreturn)
qed

definition drill_evidence :: run_evidence where
  "drill_evidence = \<lparr>ev_accepted_total = 200, ev_duplicates_total = 0, ev_sent = 200, ev_dropped = 0, ev_queued = 0\<rparr>"

lemma drill_recovery:
  "runs (standing 5 (Some (used 100 1 200)) T) (fixture_recovery (drill_env collecting) (prepared collecting) host key drill_deployment_id (7, 1)
       (hd (sn_incidents (drill_selection 50 ''open'' False))))
     (drill_selection 0 ''resolved'' True, drill_evidence) (standing 6 (Some (used 100 1 200)) T)"
proof -
  have steps: "Suc 5 = 6" by simp
  have found: "fixture_evidence (drill_summary 207 0 ''resolved'' (JStr ''recovered'')) (7, 1) (hd (sn_incidents (drill_selection 50 ''open'' False)))
      (drill_selection 0 ''resolved'' True) (used 100 1 200) = Inr drill_evidence"
    by (simp add: fixture_evidence_def drill_summary_def subscript_def checked_count_def TOTAL_MAXIMUM_def drill_evidence_def
        closed_incidents_def drill_selection_def used_def Let_def)
  show ?thesis
    unfolding fixture_recovery_def
    by (rule runs_sbind [OF drill_summary_step [OF _ collecting_nth(6) collecting_short(3) drill_selected(2)]], simp)
      (auto simp: steps runs_def standing_def found [unfolded One_nat_def])
qed

definition drill_result :: fixture_result where
  "drill_result =
     \<lparr>fx_deployment_id = drill_deployment_id, fx_ready = 150, fx_deferred = 50, fx_regression = Some (drill_selection 50 ''open'' False),
      fx_recovery = Some (drill_selection 0 ''resolved'' True), fx_evidence = Some drill_evidence\<rparr>"

lemma drill_fixture:
  "runs (standing 0 (Some (used 100 1 0)) T) (run_fixture (drill_env collecting) (prepared collecting) host key) drill_result
     (standing 6 (Some (used 100 1 200)) T)"
proof -
  have id: "''solana-fixture-'' @ se_hex (drill_env collecting) 0 = drill_deployment_id" by (simp add: drill_deployment_id_def drill_env_def)
  have steps: "Suc 1 = 2" "Suc 2 = 3" "Suc 4 = 5" "0 + 50 = (50 :: nat)" "50 + 50 = (100 :: nat)" "100 + 100 = (200 :: nat)" by simp_all
  note phase = drill_phase [OF _ _ acks_short(1) _ collecting_nth(2), of 0 T key False "(0, 0)", unfolded steps]
    drill_phase [OF _ _ acks_short(1) _ collecting_nth(3), of 50 T key True "tallied False 50 (0, 0)", unfolded steps]
    drill_phase [OF _ _ acks_short(2) _ collecting_nth(5), of 100 T key False "tallied True 50 (tallied False 50 (0, 0))", unfolded steps]
  show ?thesis
    unfolding run_fixture_def Let_def id
    by (rule runs_sbind [OF drill_before], rule runs_sbind [OF phase(1)], simp, simp, simp, rule runs_sbind [OF phase(2)], simp, simp, simp,
      rule runs_sbind [OF drill_middle], rule runs_sbind [OF phase(3)], simp, simp, simp)
      (simp only: option.case prod.case, rule runs_sbind [OF drill_recovery], simp add: drill_result_def tallied_def runs_sreturn)
qed

end
