(* ===== verification/Drill_Traffic.thy ===== *)
theory Drill_Traffic
  imports Script_Logic
begin

text \<open>
  What the scripts send: in the fixture mode of the agent, in the regression example and in the deployment check every event
  that leaves the machine is labelled as synthetic, on every path.
\<close>

subsection \<open>Labels survive validation\<close>

definition is_synthetic :: "members \<Rightarrow> bool" where
  "is_synthetic e \<longleftrightarrow> map_of e ''synthetic'' = Some (JBool True)"

lemma validate_event_label:
  "validate_event R (JObj ms) = Some ms' \<Longrightarrow> map_of ms' ''synthetic'' = map_of ms ''synthetic''"
  by (auto simp: validate_event_def Let_def bind_eq_Some_conv split: if_splits)

lemma sdk_event_label: "sdk_event R fresh now a = Some ms \<Longrightarrow> map_of ms ''synthetic'' = Some (ea_synthetic a)"
  by (auto simp: sdk_event_def Let_def event_members_def map_add_def split: option.splits pydatetime.splits if_splits
      dest!: validate_event_label)

lemma synthetic_queued: "ea_synthetic a = JBool True \<Longrightarrow> queues R is_synthetic a"
  by (simp add: queues_def is_synthetic_def) (metis sdk_event_label validate_event_label)

subsection \<open>Labelled traffic\<close>

definition event_post :: "http_call \<Rightarrow> bool" where
  "event_post c \<longleftrightarrow> ca_verb c = ''POST'' \<and> suffix ''/v1/events'' (ca_url c)"

text \<open>A post of events carries a batch of synthetic events, in the encoding of the SDK or of the script.\<close>

definition labelled :: "script_env \<Rightarrow> http_call \<Rightarrow> bool" where
  "labelled E c \<longleftrightarrow> (event_post c \<longrightarrow>
     (\<exists>b p. ca_body c = Some p \<and> list_all is_synthetic b \<and>
        (p = dumps (se_runtime E) (batch_json b) \<or> p = se_render E (batch_json b))))"

definition labelled_world :: "script_env \<Rightarrow> 's world \<Rightarrow> bool" where
  "labelled_world E w \<longleftrightarrow> (\<forall>x \<in> set (snd w). labelled E (fst x))"

lemma ask_labelled: "labelled E c \<Longrightarrow> labelled_world E w \<Longrightarrow> labelled_world E (snd (ask service c w))"
  by (auto simp: labelled_world_def ask_def split: prod.split)

interpretation marked_traffic: safe_traffic E service base key is_synthetic "labelled_world E"
  for E service base key
proof unfold_locales
  fix w :: "'a world" and b path
  assume J: "labelled_world E w"
  show "labelled_world E (snd (sdk_get service base key w path))"
    using J by (simp add: sdk_get_def apfst_def ask_labelled get_call_def labelled_def event_post_def)
  assume "list_all is_synthetic b"
  then have "labelled E (post_call base key (dumps (se_runtime E) (batch_json b)))"
    by (auto simp: labelled_def post_call_def)
  with J show "labelled_world E (snd (sdk_post service base key w (dumps (se_runtime E) (batch_json b))))"
    by (simp add: sdk_post_def ask_labelled)
qed

abbreviation labelled_session :: "script_env \<Rightarrow> json list \<Rightarrow> 's session \<Rightarrow> bool" where
  "labelled_session E \<equiv> session_ok (labelled_world E) is_synthetic"

lemmas marked_keeps = marked_traffic.client_keeps marked_traffic.emit_keeps [OF synthetic_queued]

subsection \<open>The regression example\<close>

lemma regression_send_keeps: "keeps (labelled_session E T) (regression_send E service base key d n r v)"
  unfolding regression_send_def by (intro keeps_rules marked_keeps) (simp add: regression_event_def)

lemma demonstration_keeps: "keeps (labelled_session E T) (demonstration E service base key d)"
  unfolding demonstration_def by (intro keeps_rules marked_keeps regression_send_keeps)

lemma demonstrate_labelled: "\<forall>x \<in> set (snd (demonstrate E service endpoint credentials s0)). labelled E (fst x)"
proof (cases "rbind (rbind credentials (\<lambda>v. subscript v ''key'')) (\<lambda>k. make_client E endpoint k 2 2 1000)")
  case (Inr x)
  obtain base key c where x: "x = (base, key, c)" by (cases x)
  with Inr have "cl_queue c = []" by (auto simp: rbind_Inr_iff dest: make_client_fresh)
  then have "labelled_session E [] (start_session s0 (Some c))" by (intro session_starts) (simp_all add: labelled_world_def)
  from keeps_run [OF demonstration_keeps [where d = "''synthetic-'' @ take 12 (se_hex E 0)" and service = service and base = base and key = key] this]
  show ?thesis by (simp add: demonstrate_def Inr x session_ok_def labelled_world_def Let_def split_def)
qed (simp add: demonstrate_def)

subsection \<open>The agent in fixture mode\<close>

lemma check_readiness_queue:
  assumes "check_readiness R rpc ob client s = (r, client', s')" "os_synthetic ob"
    and "\<And>c. client = Some c \<Longrightarrow> list_all is_synthetic (cl_queue c)"
  shows "\<forall>c. client' = Some c \<longrightarrow> list_all is_synthetic (cl_queue c)"
proof -
  have e: "list_all is_synthetic (cl_queue c')"
    if "emit R (JObj ms) c = (x, c')" "readiness_event R ob f = Some ms" "client = Some c" for c x c' ms f
    by (rule emit_queued [OF assms(3) [OF that(3)] _ that(1)])
      (use that(2) assms(2) in \<open>auto simp: readiness_event_def is_synthetic_def dest!: sdk_event_label validate_event_label\<close>)
  show ?thesis
    using assms(1,3) by (auto simp: check_readiness_def Let_def split: prod.splits sum.splits agent_error.splits option.splits dest: e)
qed

lemma fixture_check_keeps [keeps_rules]: "keeps (labelled_session E T) (fixture_check E deployment failing)"
  by (rule tripleI)
    (auto simp: fixture_check_def session_ok_def fixture_observed_def split: prod.splits dest!: check_readiness_queue)

lemma fixture_checks_keeps [keeps_rules]: "keeps (labelled_session E T) (fixture_checks E deployment failing n tally)"
  by (induction n arbitrary: tally) (simp_all add: keeps_rules)

lemma run_fixture_keeps: "keeps (labelled_session E T) (run_fixture E service base key)"
proof -
  have before: "keeps (labelled_session E T) (fixture_before E service base key)"
    unfolding fixture_before_def by (intro keeps_rules marked_keeps)
  have summary: "keeps (labelled_session E T) (fixture_summary E service base key d)" for d
    unfolding fixture_summary_def by (intro keeps_rules marked_keeps)
  have phase: "keeps (labelled_session E T) (fixture_phase E service base key d failing n tally)" for d failing n tally
    unfolding fixture_phase_def by (intro keeps_rules marked_keeps)
  have middle: "keeps (labelled_session E T) (fixture_regression E service base key d)" for d
    unfolding fixture_regression_def by (intro keeps_rules summary)
  have "keeps (labelled_session E T) (fixture_recovery E service base key d b i)" for d b i
    unfolding fixture_recovery_def by (intro keeps_rules summary)
  then show ?thesis
    unfolding run_fixture_def Let_def by (intro keeps_rules before phase middle)
qed

lemma agent_main_labelled:
  assumes "\<not> ao_live a"
  shows "\<forall>x \<in> set (snd (snd (agent_main E net service disk a m n s0))). labelled E (fst x)"
proof (cases "agent_client E a")
  case (Inr opened)
  let ?s = "start_session s0 (map_option (snd \<circ> snd) opened)"
  have start: "labelled_session E [] ?s"
    using Inr by (intro session_starts)
      (auto simp: labelled_world_def agent_client_def rbind_Inr_iff split: if_splits dest: make_client_fresh)
  then have run: "\<forall>x \<in> set (snd (ss_world (snd (run_fixture E service base key ?s)))). labelled E (fst x)" for base key
    using keeps_run [OF run_fixture_keeps [where service = service and base = base and key = key] start]
    by (simp add: session_ok_def labelled_world_def)
  then show ?thesis
    by (simp add: agent_main_def agent_body_def Inr assms Let_def split_def split: sum.split option.split)
qed (simp add: agent_main_def agent_body_def start_session_def Let_def)

subsection \<open>The deployment check\<close>

lemma other_calls_labelled:
  assumes "ca_verb c \<noteq> ''POST'' \<or> (\<exists>x. ca_url c = x @ ''/v1/admin/tenants'' \<or> ca_url c = x @ ''/v1/keys'')"
  shows "labelled E c"
  using assms by (auto simp: labelled_def event_post_def suffix_def dest: arg_cong [of _ _ rev])

abbreviation labelled_safe :: "script_env \<Rightarrow> 's session \<Rightarrow> bool" where
  "labelled_safe E \<equiv> session_safe (labelled_world E) is_synthetic"

lemma raw_labelled:
  assumes "\<And>cred. labelled E \<lparr>ca_verb = verb, ca_url = endpoint @ path, ca_key = cred, ca_body = map_option (se_render E) body, ca_confirm = confirm\<rparr>"
  shows "keeps (labelled_safe E) (raw_request E service endpoint verb path key body confirm)"
    "keeps (labelled_safe E) (expect_status E service endpoint verb path key body confirm st)"
proof -
  show *: "keeps (labelled_safe E) (raw_request E service endpoint verb path key body confirm)"
    by (intro keeps_safe raw_request_keeps ask_labelled assms)
  show "keeps (labelled_safe E) (expect_status E service endpoint verb path key body confirm st)"
    unfolding expect_status_def by (intro keeps_rules *)
qed

lemma sample_labelled:
  assumes "is_synthetic sample"
  shows "labelled E \<lparr>ca_verb = ''POST'', ca_url = x @ ''/v1/events'', ca_key = cred, ca_body = map_option (se_render E) (Some (events_body sample)),
    ca_confirm = confirm\<rparr>"
proof -
  have "events_body sample = batch_json [sample]" by (simp add: events_body_def batch_json_def)
  with assms show ?thesis by (auto simp: labelled_def intro: exI [of _ "[sample]"])
qed

lemma check_detection_keeps: "keeps (labelled_safe E) (check_detection E service base key second)"
proof -
  obtain base' key' c where second: "second = (base', key', c)" by (cases second)
  show ?thesis
    by (intro keeps_safe check_detection_safe [OF second] marked_traffic.safe_traffic_axioms synthetic_queued)
      (simp add: check_event_def)
qed

lemma check_requests_keeps:
  assumes "is_synthetic sample"
  shows "keeps (labelled_safe E) (check_requests E service endpoint key sample)"
proof -
  have prompted: "is_synthetic (AList.update ''prompt'' v sample)" for v using assms by (simp add: is_synthetic_def)
  show ?thesis
    unfolding check_requests_def check_granted_def Let_def
    by (intro keeps_rules raw_labelled sample_labelled assms prompted; rule other_calls_labelled; force)
qed

lemma provision_keeps: "keeps (labelled_safe E) (provision_one E service endpoint admin k)"
  unfolding provision_one_def
  by (intro triple_sbind [OF raw_labelled(2)] keeps_tenants other_calls_labelled) simp

lemma cleanup_keeps: "keeps (labelled_safe E) (cleanup E service endpoint)"
proof -
  have one: "keeps (labelled_safe E) (cleanup_one E service endpoint t)" for t
    unfolding cleanup_one_def by (intro keeps_rules raw_labelled other_calls_labelled) simp_all
  have "keeps (labelled_safe E) (cleanup_each E service endpoint ts)" for ts
    by (induction ts) (simp_all add: keeps_rules one)
  then show ?thesis by (intro keepsI) (simp add: cleanup_def keeps_run)
qed

lemma verify_body_keeps: "keeps (labelled_safe E) (verify_body E service endpoint admin)"
proof -
  have phases: "keeps (labelled_safe E) (verify_detection E service client second)"
    if "make_client E endpoint key t r n = Inr client" for client second key t r n
    by (rule verify_detection_keeps [OF that _ check_detection_keeps]) (simp add: session_safe_def session_ok_def)
  have "is_synthetic sample" if "sdk_event R fresh now sample_event = Some sample" for R fresh now sample
    using sdk_event_label [OF that] by (simp add: is_synthetic_def sample_event_def check_event_def)
  then have sampled: "keeps (labelled_safe E) (verify_sample E service endpoint key)" for key
    by (intro verify_sample_keeps check_requests_keeps)
  show ?thesis
    unfolding verify_body_def verify_checks_def
    by (intro keeps_sbind [OF provision_keeps] keeps_sbind [OF keeps_tenant_key] keeps_slift_bind keeps_sbind [OF phases] sampled)
qed

lemma verify_deployment_labelled:
  "\<forall>x \<in> set (snd (verify_deployment E service endpoint admin s0)). labelled E (fst x)"
proof (cases "rbind (trusted_endpoint E endpoint) (\<lambda>_. rbind admin (\<lambda>v. subscript v ''key''))")
  case (Inr k)
  have start: "labelled_safe E (start_session s0 None)"
    using session_starts [where J = "labelled_world E" and c = None]
    by (simp add: session_safe_def start_session_def labelled_world_def)
  from keeps_run [OF keeps_finally [OF verify_body_keeps cleanup_keeps] start, of service endpoint k service endpoint] show ?thesis
    by (simp add: verify_deployment_def Inr session_safe_def session_ok_def labelled_world_def Let_def split_def)
qed (simp add: verify_deployment_def)

end
