(* ===== verification/Deployment_Keys.thy ===== *)
theory Deployment_Keys
  imports Deployment_Facts
begin

text \<open>
  Where the deployment check sends its credentials: the administrator's key goes to the provisioning endpoint only, and any
  other credential was issued by the service earlier in the same run.
\<close>

definition issued_keys :: "script_env \<Rightarrow> traffic \<Rightarrow> string set" where
  "issued_keys E tr = {k. \<exists>x \<in> set tr. \<exists>v. decoded E (snd x) = Some v \<and> item v ''key'' = Some (JStr k)}"

definition may_carry :: "script_env \<Rightarrow> string \<Rightarrow> json \<Rightarrow> traffic \<Rightarrow> http_call \<Rightarrow> bool" where
  "may_carry E endpoint admin tr c \<longleftrightarrow>
     (\<forall>k. ca_key c = Some k \<longrightarrow> k \<in> issued_keys E tr \<or> (provision_call endpoint c \<and> admin = JStr k))"

definition disciplined :: "script_env \<Rightarrow> string \<Rightarrow> json \<Rightarrow> traffic \<Rightarrow> bool" where
  "disciplined E endpoint admin tr \<longleftrightarrow> (\<forall>i < length tr. may_carry E endpoint admin (take i tr) (fst (tr ! i)))"

definition keyed_world :: "script_env \<Rightarrow> string \<Rightarrow> json \<Rightarrow> string set \<Rightarrow> 's world \<Rightarrow> bool" where
  "keyed_world E endpoint admin K w \<longleftrightarrow> disciplined E endpoint admin (snd w) \<and> K \<subseteq> issued_keys E (snd w)"

lemma disciplined_snoc:
  "disciplined E endpoint admin (tr @ [x]) \<longleftrightarrow> disciplined E endpoint admin tr \<and> may_carry E endpoint admin tr (fst x)"
  by (auto simp: disciplined_def nth_append less_Suc_eq)

lemma issued_append: "issued_keys E (tr @ tr') = issued_keys E tr \<union> issued_keys E tr'"
  by (auto simp: issued_keys_def)

lemma keyed_snoc:
  "keyed_world E endpoint admin K (x, tr) \<Longrightarrow> may_carry E endpoint admin tr c \<Longrightarrow> keyed_world E endpoint admin K (y, tr @ [(c, a)])"
  by (auto simp: keyed_world_def disciplined_snoc issued_append)

lemma ask_keyed:
  assumes "keyed_world E endpoint admin K w" "may_carry E endpoint admin (snd w) c"
  shows "keyed_world E endpoint admin K (snd (ask service c w))"
  using keyed_snoc [of E endpoint admin K "fst w" "snd w" c] assms by (simp add: ask_def split_def Let_def)

lemma carries_known: "keyed_world E endpoint admin K w \<Longrightarrow> (\<And>k. ca_key c = Some k \<Longrightarrow> k \<in> K) \<Longrightarrow> may_carry E endpoint admin (snd w) c"
  by (auto simp: may_carry_def keyed_world_def)

interpretation keyed: safe_traffic E service base key "\<lambda>_. True" "keyed_world E endpoint admin (insert key K)"
  for E service base key endpoint admin K
proof unfold_locales
  fix w :: "'a world" and b path
  assume J: "keyed_world E endpoint admin (insert key K) w"
  show "keyed_world E endpoint admin (insert key K) (snd (sdk_get service base key w path))"
    unfolding sdk_get_def snd_apfst by (rule ask_keyed [OF J carries_known [OF J]]) (simp add: get_call_def)
  show "keyed_world E endpoint admin (insert key K) (snd (sdk_post service base key w (dumps (se_runtime E) (batch_json b))))"
    unfolding sdk_post_def snd_apfst by (rule ask_keyed [OF J carries_known [OF J]]) (simp add: post_call_def)
qed

lemma keyed_client: "key \<in> K \<Longrightarrow> safe_traffic E service base key (\<lambda>_. True) (keyed_world E endpoint admin K)"
  using keyed.safe_traffic_axioms [of E service base key endpoint admin K] by (simp add: insert_absorb)

text \<open>The keys that a reply and the tenants hold.\<close>

definition json_keys :: "json \<Rightarrow> string set" where
  "json_keys v = {k. item v ''key'' = Some (JStr k)}"

definition held_keys :: "json list \<Rightarrow> string set" where
  "held_keys T = (\<Union>t \<in> set T. json_keys t)"

abbreviation keyed_tenants :: "script_env \<Rightarrow> string \<Rightarrow> json \<Rightarrow> string set \<Rightarrow> json list \<Rightarrow> 's session \<Rightarrow> bool" where
  "keyed_tenants E endpoint admin K T \<equiv> session_ok (keyed_world E endpoint admin K) (\<lambda>_. True) T"

definition known_key :: "string set \<Rightarrow> json \<Rightarrow> bool" where
  "known_key K v \<longleftrightarrow> (\<forall>k. v = JStr k \<longrightarrow> k \<in> K)"

lemma bearer_known: "known_key K v \<Longrightarrow> bearer_of v = Inr (Some k) \<Longrightarrow> k \<in> K"
  by (auto simp: known_key_def bearer_of_def split: if_splits json.splits)

lemma raw_keyed:
  assumes "known_key K key"
  shows "keeps (keyed_tenants E endpoint admin K T) (raw_request E service endpoint verb path key body confirm)"
    "keeps (keyed_tenants E endpoint admin K T) (expect_status E service endpoint verb path key body confirm st)"
proof -
  show *: "keeps (keyed_tenants E endpoint admin K T) (raw_request E service endpoint verb path key body confirm)"
    by (rule raw_request_keeps, rule ask_keyed, assumption, rule carries_known, assumption)
      (use bearer_known [OF assms] in simp)
  show "keeps (keyed_tenants E endpoint admin K T) (expect_status E service endpoint verb path key body confirm st)"
    unfolding expect_status_def by (intro keeps_rules *)
qed

lemma expect_issued:
  assumes "keeps (keyed_tenants E endpoint admin K T) (expect_status E service endpoint verb path key body confirm st)"
  shows "triple (keyed_tenants E endpoint admin K T) (expect_status E service endpoint verb path key body confirm st)
    (\<lambda>v. keyed_tenants E endpoint admin (K \<union> json_keys v) T) (\<lambda>_. keyed_tenants E endpoint admin K T)"
proof (rule tripleI)
  fix s :: "'a session" and e s' assume "keyed_tenants E endpoint admin K T s"
    "expect_status E service endpoint verb path key body confirm st s = (Inl e, s')"
  then show "keyed_tenants E endpoint admin K T s'" using triple_Inl [OF assms] by blast
next
  fix s :: "'a session" and v s' assume s: "keyed_tenants E endpoint admin K T s"
    and run: "expect_status E service endpoint verb path key body confirm st s = (Inr v, s')"
  from triple_Inr [OF assms s run] have kept: "keyed_tenants E endpoint admin K T s'" .
  from expect_status_Inr [OF run] obtain cred a where "decoded E a = Some v"
    "snd (ss_world s') = snd (ss_world s) @ [(raw_call E endpoint verb path cred body confirm, a)]" by metis
  then have "json_keys v \<subseteq> issued_keys E (snd (ss_world s'))" by (auto simp: issued_append issued_keys_def json_keys_def)
  with kept show "keyed_tenants E endpoint admin (K \<union> json_keys v) T s'" by (simp add: session_ok_def keyed_world_def)
qed

lemma keyed_weaken: "keyed_tenants E endpoint admin (K \<union> K') T s \<Longrightarrow> keyed_tenants E endpoint admin K T s"
  by (simp add: session_ok_def keyed_world_def)

lemma triple_pure: "(\<phi> \<Longrightarrow> triple P m Q X) \<Longrightarrow> triple (\<lambda>s. P s \<and> \<phi>) m Q X"
  by (auto simp: triple_def)

subsection \<open>The checks\<close>

lemma check_requests_keyed:
  assumes "known_key K key"
  shows "keeps (keyed_tenants E endpoint admin K T) (check_requests E service endpoint key sample)"
proof -
  have none: "known_key K JNull" by (simp add: known_key_def)
  have granted: "triple (keyed_tenants E endpoint admin (K \<union> json_keys issued) T) (check_granted E service endpoint key sample issued)
      (\<lambda>_. keyed_tenants E endpoint admin K T) (\<lambda>_. keyed_tenants E endpoint admin K T)" for issued
  proof (rule triple_conseq)
    let ?I = "keyed_tenants E endpoint admin (K \<union> json_keys issued) T"
    have key: "known_key (K \<union> json_keys issued) key" using assms by (auto simp: known_key_def)
    show "keeps ?I (check_granted E service endpoint key sample issued)"
      unfolding check_granted_def
    proof (rule keeps_slift_bind)
      fix g assume "subscript issued ''key'' = Inr g"
      then have g: "known_key (K \<union> json_keys issued) g" by (simp add: known_key_def json_keys_def subscript_Inr)
      show "keeps ?I (sbind (expect_status E service endpoint ''GET'' ''/v1/summary'' g None None 403) (\<lambda>_.
         sbind (slift (rbind (subscript issued ''key_id'') (concat_path ''/v1/keys/''))) (\<lambda>path.
         sbind (expect_status E service endpoint ''DELETE'' path key None None 200) (\<lambda>_.
         sbind (expect_status E service endpoint ''POST'' ''/v1/events'' g (Some (events_body sample)) None 401) (\<lambda>_.
         sbind (expect_status E service endpoint ''GET'' ''/ready'' key None None 200) (\<lambda>_.
         sbind (raw_request E service endpoint ''GET'' ''/v1/network'' key None None) (\<lambda>(st, v).
           slift (rbind (subscript v ''status'') (\<lambda>x. needs (x = JStr ''disabled'') PyAssertionError)))))))))"
        by (intro keeps_rules raw_keyed key g)
    qed
  qed (auto intro: keyed_weaken)
  show ?thesis
    unfolding check_requests_def Let_def
    by (intro keeps_sbind keeps_basic raw_keyed assms none triple_sbind [OF expect_issued granted])
qed

lemma check_detection_keyed:
  assumes "key \<in> K" "second = (base', key', c)" "key' \<in> K"
  shows "keeps (keyed_tenants E endpoint admin K T) (check_detection E service base key second)"
  by (rule check_detection_safe [OF assms(2) keyed_client keyed_client any_queues]) (rule assms)+

text \<open>Everything after the provisioning, with the tenants \<open>T\<close>.\<close>

lemma tenant_key_known:
  "triple (keyed_tenants E endpoint admin (held_keys T) T) (tenant_key i)
    (\<lambda>key s. keyed_tenants E endpoint admin (held_keys T) T s \<and> known_key (held_keys T) key)
    (\<lambda>_. keyed_tenants E endpoint admin (held_keys T) T)"
  by (rule tripleI)
    (auto simp: tenant_key_def session_ok_def subscript_Inr known_key_def held_keys_def json_keys_def split: if_splits)

lemma make_client_key: "make_client E endpoint v t r n = Inr (base, k, c) \<Longrightarrow> v = JStr k"
  by (auto simp: make_client_def split: option.splits json.splits)

lemma cleanup_each_keyed:
  "\<forall>t \<in> set ts. json_keys t \<subseteq> K \<Longrightarrow> keeps (keyed_tenants E endpoint admin K T) (cleanup_each E service endpoint ts)"
proof (induction ts)
  case (Cons t ts)
  have "keeps (keyed_tenants E endpoint admin K T) (cleanup_one E service endpoint t)"
    unfolding cleanup_one_def
  proof (rule keeps_slift_bind)
    fix key assume "subscript t ''key'' = Inr key"
    then have "known_key K key" using Cons.prems by (auto simp: known_key_def json_keys_def subscript_Inr)
    then show "keeps (keyed_tenants E endpoint admin K T) (sbind (slift (subscript t ''tenant_id'')) (\<lambda>tenant_id.
       sbind (expect_status E service endpoint ''DELETE'' ''/v1/tenant'' key None (Some tenant_id) 200) (\<lambda>_.
       sbind (expect_status E service endpoint ''GET'' ''/v1/summary'' key None None 401) (\<lambda>_. sreturn ()))))"
      by (intro keeps_rules raw_keyed)
  qed
  with Cons show ?case by (simp add: keeps_rules)
qed (simp add: keeps_rules)

definition keyed_session :: "script_env \<Rightarrow> string \<Rightarrow> json \<Rightarrow> 's session \<Rightarrow> bool" where
  "keyed_session E endpoint admin s \<longleftrightarrow> keyed_tenants E endpoint admin (held_keys (ss_tenants s)) (ss_tenants s) s"

lemma keyed_session_keeps:
  assumes "\<And>T. keeps (keyed_tenants E endpoint admin (held_keys T) T) m"
  shows "keeps (keyed_session E endpoint admin) m"
  by (rule keepsI) (use keeps_run [OF assms] in \<open>fastforce simp: keyed_session_def session_ok_def\<close>)

lemma provision_keyed: "keeps (keyed_session E endpoint admin) (provision_one E service endpoint admin k)"
proof (rule keepsI)
  fix s :: "'a session"
  let ?T = "ss_tenants s" and ?body = "Some (JObj [(''tenant_id'', JStr (''verification-'' @ take 16 (se_hex E k)))])"
  let ?I = "keyed_tenants E endpoint admin (held_keys ?T) ?T"
  assume "keyed_session E endpoint admin s"
  then have s: "?I s" by (simp add: keyed_session_def)
  have carry: "may_carry E endpoint admin tr
      \<lparr>ca_verb = ''POST'', ca_url = endpoint @ ''/v1/admin/tenants'', ca_key = cred, ca_body = map_option (se_render E) ?body, ca_confirm = None\<rparr>"
    if "bearer_of admin = Inr cred" for cred tr
    using that by (auto simp: may_carry_def provision_call_def bearer_of_def split: if_splits json.splits)
  have raw: "keeps ?I (raw_request E service endpoint ''POST'' ''/v1/admin/tenants'' admin ?body None)"
    by (rule raw_request_keeps) (blast intro: ask_keyed carry)
  have "keeps ?I (expect_status E service endpoint ''POST'' ''/v1/admin/tenants'' admin ?body None 201)"
    unfolding expect_status_def by (intro keeps_rules raw)
  note issue = expect_issued [OF this]
  obtain r s1 where run: "expect_status E service endpoint ''POST'' ''/v1/admin/tenants'' admin ?body None 201 s = (r, s1)" by fastforce
  show "keyed_session E endpoint admin (snd (provision_one E service endpoint admin k s))"
  proof (cases r)
    case (Inl e)
    then have "snd (provision_one E service endpoint admin k s) = s1" unfolding provision_one_def sbind_def run by simp
    with triple_Inl [OF issue s run [unfolded Inl]] show ?thesis by (auto simp: keyed_session_def session_ok_def)
  next
    case (Inr v)
    then have "snd (provision_one E service endpoint admin k s) = s1\<lparr>ss_tenants := ss_tenants s1 @ [v]\<rparr>"
      unfolding provision_one_def sbind_def run by simp
    with triple_Inr [OF issue s run [unfolded Inr]] show ?thesis
      by (auto simp: keyed_session_def session_ok_def held_keys_def Un_commute)
  qed
qed

lemma verify_checks_keyed:
  "keeps (keyed_tenants E endpoint admin (held_keys T) T) (verify_checks E service endpoint)"
  unfolding verify_checks_def
proof (rule triple_sbind [OF tenant_key_known], rule triple_pure, rule keeps_slift_bind, rule triple_sbind [OF tenant_key_known],
    rule triple_pure, rule keeps_slift_bind)
  let ?K = "held_keys T"
  fix key other client second
  assume known: "known_key ?K key" "known_key ?K other"
    and clients: "make_client E endpoint key 15 2 1000 = Inr client" "make_client E endpoint other 15 2 1000 = Inr second"
  obtain base' key' c' where second: "second = (base', key', c')" by (cases second)
  have "keeps (keyed_tenants E endpoint admin ?K T) (check_detection E service base k second)" if "client = (base, k, c)" for base k c
    using known clients that second make_client_key [of E endpoint key] make_client_key [of E endpoint other]
    by (intro check_detection_keyed [OF _ second]) (auto simp: known_key_def)
  then have "keeps (keyed_tenants E endpoint admin ?K T) (verify_detection E service client second)"
    by (intro verify_detection_keeps [OF clients(1)]) (simp_all add: session_ok_def)
  then show "keeps (keyed_tenants E endpoint admin ?K T)
      (sbind (verify_detection E service client second) (\<lambda>_. verify_sample E service endpoint key))"
    by (intro keeps_sbind verify_sample_keeps check_requests_keyed known)
qed

lemma verify_body_keyed: "keeps (keyed_session E endpoint admin) (verify_body E service endpoint admin)"
  unfolding verify_body_def by (intro keeps_sbind [OF provision_keyed] keyed_session_keeps verify_checks_keyed)

lemma verify_deployment_disciplined:
  assumes "verify_deployment E service endpoint (Inr admin_file) s0 = (r, tr)"
  shows "disciplined E endpoint (case item admin_file ''key'' of Some k \<Rightarrow> k | None \<Rightarrow> JNull) tr"
proof (cases "rbind (trusted_endpoint E endpoint) (\<lambda>_. subscript admin_file ''key'')")
  case (Inl e)
  with assms have "tr = []" by (simp add: verify_deployment_def)
  then show ?thesis by (simp add: disciplined_def)
next
  case (Inr admin)
  then have admin: "item admin_file ''key'' = Some admin" by (auto simp: rbind_Inr_iff subscript_Inr)
  have clean: "keeps (keyed_session E endpoint admin) (cleanup E service endpoint)"
    by (rule keyed_session_keeps, rule keepsI)
      (auto simp: cleanup_def session_ok_def held_keys_def intro!: keeps_run [OF cleanup_each_keyed, unfolded session_ok_def])
  have "keyed_session E endpoint admin (start_session s0 None)"
    by (simp add: keyed_session_def session_ok_def start_session_def keyed_world_def disciplined_def held_keys_def)
  from keeps_run [OF keeps_finally [OF verify_body_keyed clean] this, of service] assms Inr show ?thesis
    by (simp add: verify_deployment_def admin keyed_session_def session_ok_def keyed_world_def split_def Let_def prod_eq_iff)
qed

end
