(* ===== verification/Drills.thy ===== *)
theory Drills
  imports Demo_Deployment Demo_Fixture Drill_Traffic Deployment_Keys
begin

text \<open>
  The properties of the scripts that drive a deployed service: the regression example, the synthetic run of the agent and the
  deployment check.
\<close>

section \<open>Concrete runs\<close>

definition drill_options :: agent_options where
  "drill_options = \<lparr>ao_live = False, ao_endpoint = Some host, ao_key = Some ''key-one'', ao_output = None\<rparr>"

definition drill_machine :: machine where "drill_machine = \<lparr>mc_files = (\<lambda>p. None), mc_log = []\<rparr>"

definition drill_net :: "unit \<Rightarrow> string \<Rightarrow> connection \<times> unit" where
  "drill_net n request = (\<lparr>cn_opening = Open_Failed, cn_clock = (\<lambda>k. 0), cn_read = (\<lambda>k l. Read_Failed)\<rparr>, n)"

text \<open>The command of the agent, run with a client against the scripted service.\<close>

lemma drill_agent:
  "\<exists>tr. agent_main (drill_env collecting) drill_net (prepared collecting) (\<lambda>_ _. Writes) drill_options drill_machine () 0 =
     (Exits 0 (Some (fixture_printed drill_result)), drill_machine, tr)"
proof -
  have "visible_ascii ''key-one''" by code_simp
  then have client: "agent_client (drill_env collecting) drill_options = Inr (Some (host, ''key-one'', used 100 1 0))"
    by (simp add: agent_client_def drill_options_def present_str_def make_client_def sdk_endpoint_def drill_env_def host_def endpoint_ok_def
        new_client_def used_def code_def)
  have "standing 0 (Some (used 100 1 0)) [] (start_session 0 (Some (used 100 1 0)))" by (simp add: standing_def start_session_def)
  with drill_fixture [of "[]" "''key-one''"] obtain s' where
    "run_fixture (drill_env collecting) (prepared collecting) host ''key-one'' (start_session 0 (Some (used 100 1 0))) = (Inr drill_result, s')"
    by (auto simp: runs_def)
  with client show ?thesis
    by (simp add: agent_main_def agent_body_def) (simp add: drill_options_def present_str_def)
qed

section \<open>Labels\<close>

text \<open>
  C34.  No script sends an event that could pass for a production event: in the regression example, in the deployment check and
  in every run of the agent that is not live, each post of events on the wire carries only events labelled as synthetic,
  whatever the service answers and however the script ends.
\<close>

theorem events_labelled:
  "(\<forall>x \<in> set (snd (demonstrate E service endpoint credentials s0)). labelled E (fst x)) \<and>
   (\<forall>x \<in> set (snd (verify_deployment E service endpoint admin_file s0)). labelled E (fst x)) \<and>
   (\<not> ao_live a \<longrightarrow> (\<forall>x \<in> set (snd (snd (agent_main E net service disk a m n s0))). labelled E (fst x)))"
  by (rule conjI [OF demonstrate_labelled conjI [OF verify_deployment_labelled impI [OF agent_main_labelled]]])

theorem events_labelled_witness:
  "\<exists>tr. agent_main (drill_env collecting) drill_net (prepared collecting) (\<lambda>_ _. Writes) drill_options drill_machine () 0 =
      (Exits 0 (Some (fixture_printed drill_result)), drill_machine, tr) \<and> (\<forall>x \<in> set tr. labelled (drill_env collecting) (fst x))"
proof -
  obtain tr where tr: "agent_main (drill_env collecting) drill_net (prepared collecting) (\<lambda>_ _. Writes) drill_options drill_machine () 0 =
      (Exits 0 (Some (fixture_printed drill_result)), drill_machine, tr)" using drill_agent by blast
  have "\<not> ao_live drill_options" by (simp add: drill_options_def)
  with events_labelled [of "drill_env collecting" "prepared collecting" host "Inr drill_admin" 0 "Inr drill_admin" drill_options drill_net "\<lambda>_ _. Writes"
      drill_machine "()"] tr
  show ?thesis by auto
qed

section \<open>The deployment check\<close>



text \<open>A deletion that is not confirmed leaves the tenants after it where they are.\<close>

lemma stranded_tenant:
  "\<exists>s'. cleanup (drill_env [(500, None)]) (prepared [(500, None)]) host
      ((start_session 0 None)\<lparr>ss_tenants := [drill_tenant ''key-one'', drill_tenant ''key-two'']\<rparr>) = (Inl PyAssertionError, s') \<and>
    map fst (snd (ss_world s')) = [delete_call host (Some ''key-one'') (JStr ''verification-key-one'')]"
  by (simp add: cleanup_def cleanup_one_def drill_tenant_def subscript_def sbind_def slift_def sfail_def expect_status_def raw_request_def bearer_of_def
      truthy_def ask_def prepared_def start_session_def delete_call_def)

text \<open>
  C35.  The evidence is what the service showed: when the check returns, it has put ten probes to the service with the key of
  the first tenant - a labelled sample that was accepted once and then recognised as a duplicate, an unknown field refused
  with 422, a request without a key refused with 401, a granted key refused with 403 beyond its scope and with 401 after its
  revocation, readiness, and the disabled network intelligence - and every answer was as the evidence says.
\<close>

theorem evidence_observed:
  assumes "verify_deployment E service endpoint admin_file s0 = (Inr v, tr)"
  shows "v = check_evidence E endpoint \<and> (\<exists>key cred sample fresh now pre ext post.
    item (hd (created E endpoint tr)) ''key'' = Some key \<and> bearer_of key = Inr cred \<and>
    sdk_event (se_runtime E) fresh now sample_event = Some sample \<and> tr = pre @ ext @ post \<and> probed E endpoint cred sample ext)"
  by (rule verify_deployment_probed [OF assms])

theorem evidence_observed_witness:
  "\<exists>tr cred sample pre ext post. verify_deployment (drill_env healthy) (prepared healthy) host (Inr drill_admin) 0 =
      (Inr (check_evidence (drill_env healthy) host), tr) \<and> tr = pre @ ext @ post \<and> probed (drill_env healthy) host cred sample ext"
proof -
  obtain tr where tr: "verify_deployment (drill_env healthy) (prepared healthy) host (Inr drill_admin) 0 =
      (Inr (check_evidence (drill_env healthy) host), tr)" using drill_deployment by blast
  from evidence_observed [OF tr] obtain key cred sample fresh now pre ext post where
    "tr = pre @ ext @ post" "probed (drill_env healthy) host cred sample ext" by blast
  with tr show ?thesis by blast
qed

text \<open>
  Credentials stay where they belong: the administrator's key is sent to the provisioning endpoint only, and every other
  key that the check sends was issued by the service earlier in the same run.
\<close>

theorem keys_confined:
  assumes "verify_deployment E service endpoint (Inr admin_file) s0 = (r, tr)"
  shows "disciplined E endpoint (case item admin_file ''key'' of Some k \<Rightarrow> k | None \<Rightarrow> JNull) tr"
  by (rule verify_deployment_disciplined [OF assms])

theorem keys_confined_witness:
  "\<exists>tr. verify_deployment (drill_env healthy) (prepared healthy) host (Inr drill_admin) 0 = (Inr (check_evidence (drill_env healthy) host), tr) \<and>
     disciplined (drill_env healthy) host (JStr ''admin'') tr"
proof -
  obtain tr where tr: "verify_deployment (drill_env healthy) (prepared healthy) host (Inr drill_admin) 0 =
      (Inr (check_evidence (drill_env healthy) host), tr)" using drill_deployment by blast
  from keys_confined [OF tr] tr show ?thesis by (auto simp: drill_admin_def item_def)
qed

section \<open>The synthetic run\<close>





end
