(* ===== verification/Spec2Isabelle.thy ===== *)
theory Spec2Isabelle
  imports Operations Edge Delivery Drills
begin

text \<open>
  ReliaMesh is a service that collects reliability events of AI agents, detects regressions per tenant, and optionally anchors
  count-only reports on the Solana test network.  This library models its Python code and proves what makes it correct.  Paths are
  relative to \<open>src/src/reliamesh\<close> unless they start with another directory of the repository.

  \<^bold>\<open>How the program works\<close>

  An agent uses the SDK (\<open>sdk/python\<close>) to validate events locally, queue them and flush them in batches.  A request passes the
  ASGI layer of \<open>api.py\<close> (global limit, header checks, bounded body, nesting scan), then a handler that authenticates the bearer
  key, checks its scope and the tenant's rate limit (\<open>security.py\<close>) and runs one transaction of the store
  (\<open>storage.py\<close>: SQLite or Firestore).  The transaction of an ingestion calls \<open>process_events\<close> of
  \<open>detection.py\<close> on the tenant's state: retention, duplicate detection, windows of samples, signals, and incidents that
  open, stay and close; \<open>summarize\<close> reads it.  Operators provision tenants and credentials with \<open>cli.py\<close>, and may
  project a summary to a report (\<open>attestation.py\<close>), commit to it and publish the commitment (\<open>attest_cli.py\<close>,
  \<open>solana_attest.py\<close>).  \<open>examples/solana_rpc_agent.py\<close> is an agent that decides on the readiness of an RPC endpoint and
  reports its decision through the SDK; \<open>examples/synthetic_regression.py\<close> demonstrates a regression and its recovery, and
  \<open>scripts/verify_deployment.py\<close> exercises a deployed service with disposable tenants; \<open>scripts/check_licenses.py\<close> gates
  a release.

  \<^bold>\<open>Theories and code\<close>

  \<^item> \<open>Prelude\<close>: dictionaries as association lists in insertion order, sums as results (\<open>rbind\<close>), character classes.
    \<open>Json\<close>: decoded JSON and the text of \<open>json.dumps\<close>.  \<open>Pyfloat\<close>: binary64 arithmetic as rationals with an
    explicit rounding; \<open>Pytext\<close>: white space, UUID and ISO 8601 text; \<open>Iso\<close>, \<open>Uuid_Facts\<close>: these texts read back.
  \<^item> \<open>Protocol\<close>, \<open>Protocol_Facts\<close>: \<open>protocol.py\<close>, the event and its strict validation \<open>event_of_json\<close>.
  \<^item> \<open>Statistics\<close>, \<open>Detection\<close>, \<open>Summary\<close>: \<open>detection.py\<close>.  A tenant's JSON state is \<open>det_state\<close>
    (\<open>None\<close> is the empty document), one record field per member; \<open>prune\<close>, \<open>ingest_event\<close>, \<open>evaluate\<close>,
    \<open>process_events\<close> and \<open>summarize\<close> are the functions of these names.  \<open>Retention\<close>, \<open>Detection_Inv\<close>,
    \<open>Ingestion_Inv\<close>, \<open>Batch\<close>, \<open>Process\<close>, \<open>Replay\<close>, \<open>Retry\<close>, \<open>Lifecycle\<close>,
    \<open>Alarms\<close> hold its invariant \<open>det_inv\<close> and what follows from it.
  \<^item> \<open>Store\<close>: \<open>SQLiteStore\<close> over three tables (\<open>db\<close>); \<open>Firestore\<close>: \<open>FirestoreStore\<close> over three
    collections (\<open>docs\<close>).  \<open>Store_Inv\<close>, \<open>Store_Runs\<close>, \<open>Firestore_Runs\<close>: integrity, and the interface
    \<open>tenant_store\<close>, a locale interpreted for both stores, from which lock-out of revoked keys and isolation of tenants
    follow once.  \<open>Store_Spec\<close>, \<open>Firestore_Spec\<close>: the abstract store of maps (\<open>spec\<close>), the effect
    \<open>spec_op\<close> and the outcome \<open>spec_call\<close> of a call, and the proof that both stores implement them.
  \<^item> \<open>Limiter\<close>: \<open>security.py\<close>.  \<open>Config\<close>: \<open>config.py\<close>.  \<open>Api\<close>: the handlers and \<open>serve\<close>, the
    dispatch of a request; \<open>Api_Inv\<close>, \<open>Api_Flows\<close>: what one request and several requests guarantee.
    \<open>Middleware\<close>, \<open>Middleware_Facts\<close>, \<open>Nesting\<close>: \<open>SafetyMiddleware\<close> and the exactness of its scan.
  \<^item> \<open>Sdk_Events\<close>, \<open>Sdk_Client\<close>, \<open>Sdk_Facts\<close>, \<open>Sdk_Client_Facts\<close>: the SDK.  The server is a step
    function on a state of its own, so that it may answer anything.
  \<^item> \<open>Gateway\<close>: the way of an event through all of these; \<open>ingest_endpoint\<close> is \<open>POST /v1/events\<close> with the handlers of
    exceptions, and \<open>gateway_step\<close> one exchange of the SDK with the service behind its request layer, over a transport that
    may cut bodies and lose replies.
  \<^item> \<open>Attestation\<close>, \<open>Projection\<close>: \<open>attestation.py\<close>, on a summary as a value and on any decoded document.
    \<open>Json_Inject\<close>: the JSON text is injective.  \<open>Base58\<close>, \<open>Solana\<close>, \<open>Solana_Facts\<close>:
    \<open>solana_attest.py\<close>; the locale \<open>logged_net\<close> derives what a call may send from a log of the network.
  \<^item> \<open>Publish\<close>, \<open>Publish_Facts\<close>: \<open>write_private\<close> of \<open>cli.py\<close> and \<open>publish\<close> of \<open>attest_cli.py\<close> on
    a \<open>machine\<close>, its files and a log of what it created, removed and sent; \<open>logged_net\<close> is interpreted on it, and
    \<open>tame_net\<close> carries what every exchange keeps of its files.  \<open>Attest_Cli\<close>: the other commands.
    \<open>Operator\<close>: \<open>cli.py\<close> over the locale \<open>tenant_admin\<close>, interpreted for both stores.
  \<^item> \<open>Agent\<close>, \<open>Agent_Facts\<close>: the readiness agent.  \<open>Licenses\<close>, \<open>Licenses_Facts\<close>: the licence gate.
  \<^item> \<open>Pyaccess\<close>: Python's access to decoded JSON with its exceptions; \<open>Remote\<close>: the session of a script, which is an
    unknown service, the record of the calls made to it and an SDK client.  \<open>Fixture\<close>: the synthetic run and the command line
    of the agent; \<open>Regression\<close>: the regression example; \<open>Deployment\<close>: the deployment check.  \<open>Script_Logic\<close>: a
    Hoare logic for scripts with a postcondition for each way to end, and the locale \<open>safe_traffic\<close>, from which it follows
    once that every operation of the client keeps an invariant of the traffic; it is interpreted for the labels of the events
    (\<open>Drill_Traffic\<close>), the tenants that were created (\<open>Deployment_Facts\<close>) and the credentials (\<open>Deployment_Keys\<close>).
    \<open>Fixture_Facts\<close>: the outcome of the synthetic run and the reports of its summaries.
  \<^item> \<open>Demo\<close>, \<open>Demo_Service\<close>, \<open>Demo_Edge\<close>, \<open>Demo_Publish\<close>, \<open>Demo_Drills\<close>, \<open>Demo_Fixture\<close>,
    \<open>Demo_Deployment\<close>: concrete tenants, services and clients, a complete publication and complete runs of the scripts, on
    which the properties are applied.  The properties are in this theory and in \<open>Edge\<close> (middleware and SDK), \<open>Delivery\<close> (from the SDK to the store),
    \<open>Anchor\<close> (reports and transactions), \<open>Operations\<close> (both stores, operator's tools, licences, readiness) and
    \<open>Drills\<close> (scripts).

  \<^bold>\<open>What the lemmas show\<close>

  Ingestion keeps the invariant, fails with public codes only, accepts nothing twice, is atomic, ignores the order of a batch
  and recognises a retry; incidents open on an outage, close on a recovery and are never rewritten; the binary64 interval is a
  proper one.  Both stores keep their integrity, isolate tenants, honour only live credentials, refine one abstract store
  (locale \<open>contract_store\<close>) and cannot be told apart.  No
  request without a live key of the right scope succeeds, quotas hold, revocation and deletion lock out at once.  What the SDK
  sends the server accepts; a flush returns and accounts for every event, and its
  account agrees with the tenant's state at the other end.  What is committed determines the whole report, what is
  built verifies, what verifies was signed; a commitment is submitted at most once per output file, also after crashes of the
  disk or the network between any two steps.  Provisioning is all or nothing; the licence gate and the readiness agent fail
  closed.  The scripts send labelled events only, whatever the service answers; the deployment check deletes what it created,
  up to a deletion that fails, keeps each credential where it belongs, and its evidence is what the service showed.

  \<^bold>\<open>Parameters and hypotheses\<close>

  Code outside the repository is an argument: SHA-256, \<open>fromisoformat\<close> and the text of a float (record \<open>runtime\<close>),
  \<open>json.loads\<close>, Ed25519 (record \<open>crypto\<close>; \<open>signature_scheme\<close> says that a signature verifies under its key), the
  HTTP transports, the disk, the clocks, random tokens, the application behind the ASGI layer, the Firestore client
  (\<open>run_transaction\<close>: all buffered writes or an exception), the package \<open>packaging\<close> and the installed distributions
  (\<open>lookup_by_name\<close>: a lookup does not depend on the spelling of a name).  \<open>iso_inverse\<close>, \<open>float_plain\<close> and
  \<open>short_floats\<close> say that ISO 8601 text reads back and that the text of a float is short and has no brackets or quotes.
  \<open>fresh_batch\<close> says that the names of incidents, which are hashes, do not collide.  Every such hypothesis is met by a concrete
  value in a witness.

  \<^bold>\<open>Loops\<close>

  Loops with a structural or numeric measure are total functions, the flush and the retries among them.  The wait of
  \<open>publish\<close> depends on a clock and runs on fuel: with rounds of at least the 1.5 seconds it sleeps, 31 rounds exhaust its 45
  seconds (\<open>publish_ends\<close>).  The closure of the licence script is a \<open>partial_function\<close> that is proved to return whenever
  finitely many distributions are installed.

  \<^bold>\<open>Not modelled\<close>

  \<open>main.py\<close> and \<open>serve\<close> construct and start the application; constant replies of the API, logging and health probes keep
  no state; parsing of command lines is argparse; the evidence file of the deployment check is plain output.  Sorting lists of
  lists (\<open>py_sorted\<close>) is left out.  The size in bytes of a serialised state is an argument (\<open>size_of\<close>, \<open>encode\<close>).  Two threads in one SDK
  client and two processes in one publication are not interleaved; store calls are atomic, as both databases promise.  Strings
  are sequences of 8-bit characters.

  \<^bold>\<open>Open ends\<close>

  The SDK's flush is composed with the service; the scripts run against an unknown service, and composing them too would show
  that the service gives the answers they expect.  The text of the stored state, and with it its size, and a name of an incident
  that recurs when an event identifier is reused after its entry was dropped, are not covered.
\<close>

section \<open>Ingestion\<close>





text \<open>
  C3.  At most once: over any history of a tenant, committed and rejected calls at nondecreasing server times, no
  pair of event identifier and timestamp is accepted twice, in spite of the bounded duplicate memory, its
  eviction and its expiry; and the stored total counts exactly the accepted events.
\<close>

theorem at_most_once:
  assumes "history R size_of state t seen"
  shows "distinct (map event_key seen) \<and> ds_accepted (base_state state) = int (length seen)"
  using history_inv [OF assms] by blast

theorem at_most_once_witness:
  "distinct (map event_key [demo_event]) \<and> ds_accepted (base_state (Some demo_state)) = int (length [demo_event])"
proof -
  have a: "accepted_by demo_runtime None [demo_event] 1000000000 = [demo_event]"
  proof -
    have "ingest_event demo_runtime 1000000000 demo_event empty_state =
        Inr (first_state demo_runtime demo_event empty_state, True)"
      using demo_in_time accept_first [of demo_runtime demo_event empty_state]
      by (simp add: ingest_event_def Let_def in_time_def cutoff_at_def empty_state_def demo_event_def demo_times
          MAX_STREAMS_def)
    then show ?thesis by (simp add: accepted_by_def prune_None)
  qed
  have "history demo_runtime (\<lambda>_. 0) (Some demo_state) 1000000000 ([] @ accepted_by demo_runtime None [demo_event] 1000000000)"
    by (rule history.commit [OF history.start [of _ _ 1000000000] demo_times(2) order_refl demo_call])
  then show ?thesis unfolding a by (intro at_most_once) simp
qed





text \<open>
  Accepting an event never removes an open incident from the history; only closed ones make room.
\<close>

theorem open_incidents_survive:
  assumes "core_inv st" "accept_event R e st = Inr st'" "x \<in> set (ds_incidents st)" "in_status x = Open"
  shows "\<exists>y \<in> set (ds_incidents st'). evolves x y"
  by (rule accept_event_evolves(2) [OF assms])

theorem open_incidents_survive_witness:
  "\<exists>y \<in> set (ds_incidents (first_state demo_runtime demo_event demo_open)). evolves demo_alarm y"
  by (rule open_incidents_survive [OF _ demo_open_accept])
    (use demo_open_inv in \<open>simp_all add: det_inv_def demo_open_def demo_alarm_def\<close>)

text \<open>
  Every event of a committed batch is either accepted or counted as a duplicate, and the stored totals advance by
  exactly the reported numbers; the daily usage record is untouched.
\<close>

theorem batch_totals:
  assumes "process_events R size_of state events now = Inr (st', m)"
  shows "mt_accepted m + mt_duplicates m = length events \<and>
    ds_accepted st' = ds_accepted (base_state state) + int (mt_accepted m) \<and>
    ds_duplicates st' = ds_duplicates (base_state state) + int (mt_duplicates m) \<and>
    ds_usage st' = ds_usage (base_state state)"
  using process_events_counts [OF assms] by blast

theorem batch_totals_witness:
  "(1::nat) + 0 = length [demo_event] \<and>
   ds_accepted demo_state = ds_accepted (base_state None) + int 1 \<and>
   ds_duplicates demo_state = ds_duplicates (base_state None) + int 0 \<and>
   ds_usage demo_state = ds_usage (base_state None)"
  using batch_totals [OF demo_call] by simp



section \<open>Retention and the read side\<close>

text \<open>
  Retention leaves nothing that is seven days old, loses nothing younger among the remembered events, the incidents
  and the streams, and is idempotent.
\<close>

theorem retention_exact:
  "(\<forall>p \<in> set (ds_dedup (prune state now)). cutoff_at now < snd (snd p)) \<and>
   (\<forall>x \<in> set (ds_incidents (prune state now)). cutoff_at now < in_opened_at x) \<and>
   (\<forall>p \<in> set (ds_streams (prune state now)). cutoff_at now < sr_last_timestamp (snd p) \<and>
      list_all (\<lambda>r. cutoff_at now < sm_ts r) (sr_baseline (snd p) @ sr_current (snd p))) \<and>
   keys (ds_dedup (prune state now)) = keys (filter (\<lambda>p. cutoff_at now < snd (snd p)) (ds_dedup (base_state state))) \<and>
   map in_id (ds_incidents (prune state now)) =
     map in_id (filter (\<lambda>x. cutoff_at now < in_opened_at x) (ds_incidents (base_state state))) \<and>
   keys (ds_streams (prune state now)) =
     keys (filter (\<lambda>p. cutoff_at now < sr_last_timestamp (snd p)) (ds_streams (base_state state))) \<and>
   prune (Some (prune state now)) now = prune state now"
  using prune_dedup_live [of _ _ _ state now] prune_incidents_live [of _ state now]
    prune_streams_live [of _ _ state now] prune_idem [of state now]
  by (auto simp: prune_kept_keys list_all_iff)

theorem retention_exact_witness:
  "keys (ds_dedup (prune (Some demo_state) 1000000000)) =
     keys (filter (\<lambda>p. cutoff_at 1000000000 < snd (snd p)) (ds_dedup demo_state)) \<and>
   prune (Some (prune (Some demo_state) 1000000000)) 1000000000 = prune (Some demo_state) 1000000000"
  using retention_exact [of "Some demo_state" 1000000000] by simp

text \<open>
  The summary of a well-formed state never raises; in particular every failed sample still finds
  the versions it was recorded with.
\<close>

theorem summary_total:
  assumes "tenant_inv state" "epoch now = Inr t"
  shows "\<exists>v. summarize R state now = Inr v"
  by (rule summarize_total [OF assms])

theorem summary_total_witness: "\<exists>v. summarize demo_runtime (Some demo_open) demo_now = Inr v"
  by (rule summary_total [OF _ demo_times(2)]) (simp add: tenant_inv_def demo_open_inv)

text \<open>
  The summary shows a stream as degraded exactly when it shows an open incident of that stream.
\<close>

theorem degraded_iff_open_incident:
  assumes "tenant_inv state" "summarize R state now = Inr v" "w \<in> set (sy_streams v)"
  shows "sv_status w = Degraded \<longleftrightarrow>
    (\<exists>x \<in> set (sy_incidents v). in_status x = Open \<and> in_stream_id x = sv_stream_id w)"
  by (rule summary_degraded [OF assms])

theorem degraded_iff_open_incident_witness:
  "\<exists>v (w :: stream_view). summarize demo_runtime (Some demo_open) demo_now = Inr v \<and>
     (sv_status w = Degraded \<longleftrightarrow>
       (\<exists>x \<in> set (sy_incidents v). in_status x = Open \<and> in_stream_id x = sv_stream_id w))"
proof -
  have inv: "tenant_inv (Some demo_open)" by (simp add: tenant_inv_def demo_open_inv)
  obtain v w where "summarize demo_runtime (Some demo_open) demo_now = Inr v" "w \<in> set (sy_streams v)"
    by (rule demo_open_summary)
  with degraded_iff_open_incident [OF inv this] show ?thesis by blast
qed

text \<open>
  The failure fingerprints of a stream are at most 16, and their counts add up to the failures of the
  current window whenever fewer than 16 are shown.
\<close>

theorem fingerprint_counts:
  assumes "tenant_inv state" "summarize R state now = Inr v" "w \<in> set (sy_streams v)"
  shows "length (sv_fingerprints w) \<le> 16 \<and>
    int (sum_list (map fp_count (sv_fingerprints w))) \<le> st_failures (sv_current w) \<and>
    (length (sv_fingerprints w) < 16 \<longrightarrow>
     int (sum_list (map fp_count (sv_fingerprints w))) = st_failures (sv_current w))"
  using summary_fingerprints [OF assms] by blast

theorem fingerprint_counts_witness:
  "\<exists>w :: stream_view. length (sv_fingerprints w) \<le> 16 \<and>
    int (sum_list (map fp_count (sv_fingerprints w))) \<le> st_failures (sv_current w) \<and>
    (length (sv_fingerprints w) < 16 \<longrightarrow>
     int (sum_list (map fp_count (sv_fingerprints w))) = st_failures (sv_current w))"
proof -
  have inv: "tenant_inv (Some demo_open)" by (simp add: tenant_inv_def demo_open_inv)
  obtain v w where "summarize demo_runtime (Some demo_open) demo_now = Inr v" "w \<in> set (sy_streams v)"
    by (rule demo_open_summary)
  with fingerprint_counts [OF inv this] show ?thesis by blast
qed

text \<open>
  The fingerprint computed for a failed event by the protocol is the one the summary computes from its
  retained sample and version metadata.
\<close>

theorem fingerprint_agreement:
  assumes "ev_outcome e = Failure" "\<And>f. ev_label e f \<noteq> Some []"
  shows "failure_fingerprint R e =
    Some (row_fingerprint R (ev_operation e) (version_metadata e) (sample_of R e))"
  by (rule row_fingerprint_event [OF assms])

theorem fingerprint_agreement_witness:
  "failure_fingerprint demo_runtime demo_event =
   Some (row_fingerprint demo_runtime Agent (version_metadata demo_event) (sample_of demo_runtime demo_event))"
  using fingerprint_agreement [of demo_event demo_runtime] by (simp add: demo_event_def)

section \<open>Signals\<close>

text \<open>
  C7.  In the binary64 arithmetic of the code the Wilson interval lies in \<open>[0, 1]\<close> and is ordered.
\<close>

theorem wilson_interval_proper:
  assumes "0 \<le> failures" "failures \<le> int n"
  shows "0 \<le> fst (wilson_interval failures n) \<and>
    fst (wilson_interval failures n) \<le> snd (wilson_interval failures n) \<and>
    snd (wilson_interval failures n) \<le> 1"
  using wilson_interval_bounds [OF assms] by blast

theorem wilson_interval_proper_witness:
  "0 \<le> fst (wilson_interval 3 50) \<and> fst (wilson_interval 3 50) \<le> snd (wilson_interval 3 50) \<and>
   snd (wilson_interval 3 50) \<le> 1"
  by (rule wilson_interval_proper) simp_all

text \<open>
  A lower bound above one half, the trigger of the high-failure alarm, is only reported when a strict majority of
  the samples failed, rounding included.
\<close>

theorem high_failure_needs_majority:
  assumes "0 \<le> failures" "0 < n" "n < 2 ^ 53" "1/2 < fst (wilson_interval failures n)"
  shows "int n < 2 * failures"
  by (rule wilson_low_majority [OF assms])

theorem high_failure_needs_majority_witness: "int 25 < 2 * 25"
  by (rule high_failure_needs_majority)
    (use wilson_all_failed(1) [of 25] in simp_all)

text \<open>
  C8.  An outage opens an incident: when the current window of an idle stream has at least 25 samples, all of them
  failures, evaluation appends an open incident of the stream whose signals include the high failure rate, and makes
  it the stream's active incident.
\<close>

theorem outage_opens_incident:
  assumes "sr_active s = None" "all_failed (sr_current s)" "25 \<le> length (sr_current s)"
  shows "\<exists>x. evaluate R incs k s e =
      Inr (make_room incs @ [x], s\<lparr>sr_active := Some (onset_id R k (ev_event_id e))\<rparr>) \<and>
    in_id x = onset_id R k (ev_event_id e) \<and> in_status x = Open \<and> in_stream_id x = k \<and>
    High_failure_rate \<in> set (keys (in_signals x))"
  by (rule outage_opens [OF assms])

theorem outage_opens_incident_witness:
  "\<exists>x. evaluate demo_runtime [] ''s'' outage_stream demo_event =
      Inr (make_room [] @ [x], outage_stream\<lparr>sr_active := Some (onset_id demo_runtime ''s'' (ev_event_id demo_event))\<rparr>) \<and>
    in_id x = onset_id demo_runtime ''s'' (ev_event_id demo_event) \<and> in_status x = Open \<and> in_stream_id x = ''s'' \<and>
    High_failure_rate \<in> set (keys (in_signals x))"
  by (rule outage_opens_incident)
    (simp_all add: outage_stream_def first_stream_def all_failed_def sample_of_def demo_event_def)

text \<open>
  C9.  Recovery closes it: when a full current window is free of failures, raises no signal, and the
  active incident is about failures only, evaluation resolves the incident, records the recovery, and adopts the window as
  the new baseline.
\<close>

theorem recovery_resolves_incident:
  assumes "sr_active s = Some i" "find (\<lambda>x. in_id x = i) incs = Some x" "set (keys (in_signals x)) \<subseteq> failure_kinds"
    and "supported (sr_baseline s) (set (keys (in_signals x)))" "\<forall>r \<in> set (sr_baseline s). sm_failed r \<in> {0, 1}"
    and "none_failed (sr_current s)" "length (sr_current s) = WINDOW"
    and "window_signals (sr_baseline s) (sr_current s) = []"
  shows "evaluate R incs k s e =
    Inr (update_first (\<lambda>x. in_id x = i)
           (\<lambda>_. recovered_at (epoch_seconds (ev_timestamp e)) (refreshed x [] (sr_current s))) incs,
         s\<lparr>sr_active := None, sr_baseline := sr_current s, sr_current := []\<rparr>)"
  by (rule recovery_resolves [OF assms])

theorem recovery_resolves_incident_witness:
  "evaluate demo_runtime [demo_alarm] ''s'' recovery_stream demo_event =
   Inr (update_first (\<lambda>x. in_id x = ''i'')
          (\<lambda>_. recovered_at (epoch_seconds (ev_timestamp demo_event)) (refreshed demo_alarm [] (sr_current recovery_stream)))
          [demo_alarm],
        recovery_stream\<lparr>sr_active := None, sr_baseline := sr_current recovery_stream, sr_current := []\<rparr>)"
  by (rule recovery_resolves_incident)
    (simp_all add: recovery_stream_facts demo_alarm_def demo_incident_def failure_kinds_def supported_def)

text \<open>
  A window without failures raises no failure signal, whatever the baseline.
\<close>

theorem healthy_window_is_quiet:
  assumes "none_failed current" "\<forall>r \<in> set baseline. sm_failed r \<in> {0, 1}"
  shows "set (keys (window_signals baseline current)) \<inter> failure_kinds = {}"
  using healthy_no_failure_signal [OF assms(1), of baseline] assms(2) by (auto simp: failure_kinds_def)

theorem healthy_window_is_quiet_witness:
  "set (keys (window_signals (sr_current outage_stream) (sr_current recovery_stream))) \<inter> failure_kinds = {}"
  by (rule healthy_window_is_quiet)
    (simp_all add: recovery_stream_facts outage_stream_def sample_of_def demo_event_def)

section \<open>Events\<close>

text \<open>
  C10.  Validation is strict: an accepted event has a canonical UUID, a representable instant, well-formed
  identifiers, numbers within their bounds, and a failure type exactly when it failed.
\<close>

theorem accepted_event_valid:
  assumes "event_of_json R v = Some e"
  shows "event_ok e"
  by (rule event_of_json_ok [OF assms])

theorem accepted_event_valid_witness: "event_ok demo_event"
  by (rule accepted_event_valid [OF demo_event_accepted])

text \<open>
  C11.  A valid event survives serialisation: the dump that is hashed for duplicate detection validates back to the
  same event, provided the ISO 8601 text of its instant reads back as that instant.
\<close>

theorem event_roundtrip:
  assumes "event_ok e" "aware_timestamp R (JStr (dump_instant R (ev_timestamp e))) = Some (ev_timestamp e)"
  shows "event_of_json R (model_dump R e) = Some e"
  by (rule event_roundtrip_dump [OF assms])

theorem event_roundtrip_witness:
  "event_of_json demo_runtime (model_dump demo_runtime demo_event) = Some demo_event"
  by (rule event_roundtrip) (simp_all add: demo_event_ok demo_iso)

section \<open>The tenant store\<close>

text \<open>
  C12.  Whatever calls are made in whatever order, the database keeps its integrity: unique tenants, digests and key
  identifiers, every key and state belongs to an existing tenant, at most 16 keys per tenant, well-formed digests
  and scopes.
\<close>

theorem store_integrity:
  "db_ok (fold (exec_op blank encode plan) (ops :: ('s, 'e, 'a) store_op list) (empty_db :: 's db))"
  by (rule sqlite.run_ok) (rule empty_db_ok)

text \<open>
  The SQLite operations implement the abstract store of maps: a committed call has exactly the effect the
  specification gives it on tenants, keys and states.
\<close>

theorem store_refinement:
  fixes p :: "('s, 'e, 'a) store_op"
  assumes "db_ok db" "call_op blank encode plan p db = (Inr u, db')" "op_tenant p \<noteq> None"
  shows "spec_of db' = spec_op blank p (spec_of db)"
  by (rule call_op_refines [OF assms])

theorem store_refinement_witness:
  "spec_of demo_db =
   spec_op None (Create ''acme'' digest0 (Aware 0) :: (tenant_state, update_error, metrics) store_op)
     (spec_of (empty_db :: tenant_db))"
  by (rule store_refinement [where encode = "\<lambda>_. None" and plan = id and u = "()"])
    (simp_all add: empty_db_ok demo_create)

text \<open>
  Lock-out: a digest that no tenant holds, for instance after its revocation, stays without authority through
  any further calls until a call registers that very digest again.
\<close>

theorem unregistered_key_stays_out:
  fixes ops :: "('s, 'e, 'a) store_op list"
  assumes "db_ok db" "key_holder db h = None" "\<forall>p \<in> set ops. op_registers p \<noteq> Some h"
  shows "key_holder (fold (exec_op blank encode plan) ops db) h = None"
  by (rule sqlite.run_lockout [OF assms])

theorem unregistered_key_stays_out_witness:
  "key_holder (fold (exec_op None (\<lambda>_. Some []) id)
     [Revoke ''acme'' digest0 None :: (tenant_state, update_error, metrics) store_op, Purge 7] demo_db) digest1 = None"
  by (rule unregistered_key_stays_out) (simp_all add: demo_db_ok demo_holder)

text \<open>
  C15.  Isolation: calls that address other tenants, in any number and order, leave every row of a tenant alone.
\<close>

theorem tenant_isolation:
  fixes ops :: "('s, 'e, 'a) store_op list"
  assumes "db_ok db" "\<forall>p \<in> set ops. \<exists>t'. op_tenant p = Some t' \<and> t' \<noteq> t"
  shows "tenant_view (fold (exec_op blank encode plan) ops db) t = tenant_view db t"
  by (rule sqlite.run_isolation [OF assms])

theorem tenant_isolation_witness:
  "tenant_view (fold (exec_op None (\<lambda>_. Some []) id)
     [Create ''other'' digest1 (Aware 1) :: (tenant_state, update_error, metrics) store_op, Delete ''other'' None] demo_db) ''acme'' =
   tenant_view demo_db ''acme''"
  by (rule tenant_isolation) (simp_all add: demo_db_ok)

text \<open>
  C16.  Credential binding: a committed call that names the credential it was authorised with was executed while that
  credential was an active key of the tenant it addresses, so a concurrent revocation or deletion cannot be
  overtaken.
\<close>

theorem committed_call_had_live_key:
  fixes p :: "('s, 'e, 'a) store_op"
  assumes "db_ok db" "call_op blank encode plan p db = (Inr u, db')"
    and "op_expects p = Some h" "op_tenant p = Some t"
  shows "key_holder db h = Some t"
  using call_op_bound [OF assms(2-4)] holds_key_holder [OF assms(1)] by blast

theorem committed_call_had_live_key_witness: "key_holder demo_db digest0 = Some ''acme''"
  by (rule committed_call_had_live_key [OF demo_db_ok, where blank = None and encode = "\<lambda>_. None" and plan = id and
        p = "Delete ''acme'' (Some digest0) :: (tenant_state, update_error, metrics) store_op" and u = "()"
        and db' = "remove_tenant ''acme'' demo_db"])
    (simp_all add: delete_tenant_def rbind_Inr_iff demo_names_ok holds_key_def demo_db_def)

text \<open>
  Committed state is read back as it was written until it expires seven days and five minutes later, and is the
  blank state from then on.
\<close>

theorem read_your_writes:
  assumes "transact blank encode now t f ex db = (Inr x, db')" "f (current_state blank now db t) = Inr (s, x)"
    and "\<And>g. ex' = Some g \<Longrightarrow> digest_ok g \<and> holds_key db t g"
  shows "fst (read_state blank now' t ex' db') =
    (Inr (Some (if now' < now + RETENTION_US then s else blank)) :: 'e store_error + 's option)"
  by (rule read_after_transact [OF assms])

theorem read_your_writes_witness:
  "fst (read_state None 1000000000000001 ''acme'' None ingested_db) =
    (Inr (Some (if 1000000000000001 < 1000000000000000 + RETENTION_US
       then Some (first_state service_runtime demo_event empty_state\<lparr>ds_accepted := 1, ds_usage := Some (11574, 1)\<rparr>)
       else None)) :: unit store_error + tenant_state option)"
  by (rule read_your_writes [OF demo_transact])
    (simp_all add: current_state_def find_state_def demo_db_def ingest_update_def used_today_def demo_service_call day_of_def
      demo_settings_def default_settings_def RETENTION_US_def)

text \<open>
  A key listing is complete: it shows every key of the tenant once, in order of creation, and never more than
  the bound.
\<close>

theorem key_listing_complete:
  assumes "db_ok db" "list_keys t ex db = (Inr ks, db')"
  shows "mset (map ki_key_id ks) = mset (map kr_key_id (tenant_keys db t)) \<and> length ks \<le> MAX_ACTIVE_KEYS \<and>
    distinct (map ki_key_id ks) \<and> sorted (map (\<lambda>k. (ki_created_at k, ki_key_id k)) ks)"
  using list_keys_complete [OF assms] by blast

theorem key_listing_complete_witness:
  "\<exists>ks :: key_listing list. mset (map ki_key_id ks) = mset (map kr_key_id (tenant_keys demo_db ''acme'')) \<and>
    length ks \<le> MAX_ACTIVE_KEYS \<and> distinct (map ki_key_id ks) \<and> sorted (map (\<lambda>k. (ki_created_at k, ki_key_id k)) ks)"
proof -
  have "\<exists>ks. list_keys ''acme'' None demo_db = (Inr ks :: unit store_error + _, demo_db)"
    by (simp add: list_keys_def rbind_Inr_iff Let_def demo_names_ok)
  then obtain ks where "list_keys ''acme'' None demo_db = (Inr ks :: unit store_error + _, demo_db)" ..
  from key_listing_complete [OF demo_db_ok this] show ?thesis by blast
qed

text \<open>
  Maintenance purges exactly the expired states, a hundred at a time: it reports the number it removed, never
  touches a live state, and leaves no expired state once at most a hundred were left.
\<close>

theorem purge_exact:
  assumes "db_ok db" "mset (plan (db_states db)) = mset (db_states db)"
    and "purge_expired plan now db = (Inr n, db')"
  shows "n = min 100 (length (filter (\<lambda>w. sw_expires_at w \<le> now) (db_states db))) \<and>
    (\<forall>w \<in> set (db_states db). now < sw_expires_at w \<longrightarrow> w \<in> set (db_states db')) \<and>
    (length (filter (\<lambda>w. sw_expires_at w \<le> now) (db_states db)) \<le> 100 \<longrightarrow>
     (\<forall>w \<in> set (db_states db'). now < sw_expires_at w))"
  using purge_expired_effect [of db plan now n db'] assms by blast

theorem purge_exact_witness:
  "(1::nat) = min 100 (length (filter (\<lambda>w. sw_expires_at w \<le> 1000000000000000) (db_states demo_db)))"
proof -
  have "purge_expired id 1000000000000000 demo_db = (Inr 1 :: unit store_error + nat, demo_db\<lparr>db_states := []\<rparr>)"
    by (simp add: purge_expired_def Let_def demo_db_def RETENTION_US_def)
  from purge_exact [OF demo_db_ok _ this] show ?thesis by simp
qed

section \<open>The service\<close>



text \<open>
  C18.  Only a live key with the required scope gets a successful reply, and every request, refused or not, keeps the
  integrity of the service.
\<close>

theorem request_authorised:
  assumes "service_ok svc" "serve R size_of encode cfg q header clock now svc = (r, svc')"
  shows "service_ok svc' \<and>
    (\<not> isl r \<longrightarrow> (\<exists>p svc1. require R (request_scope q) header clock svc = (Inr p, svc1) \<and>
       key_holder (svc_db svc) (pr_key_hash p) = Some (pr_tenant p) \<and> request_scope q \<in> set (pr_scopes p)))"
proof -
  have db: "db_ok (svc_db svc)" using assms(1) by (simp add: service_ok_def)
  have "\<exists>p svc1. require R (request_scope q) header clock svc = (Inr p, svc1) \<and>
       key_holder (svc_db svc) (pr_key_hash p) = Some (pr_tenant p) \<and> request_scope q \<in> set (pr_scopes p)"
    if nr: "\<not> isl r"
  proof -
    obtain u where "r = Inr u" using nr by (cases r) simp_all
    then obtain p svc1 where p: "require R (request_scope q) header clock svc = (Inr p, svc1)"
      using serve_authenticated assms(2) by blast
    with require_holder [OF p db] show ?thesis by blast
  qed
  with serve_ok [OF assms] show ?thesis by blast
qed

theorem request_authorised_witness:
  "service_ok (admitted_service\<lparr>svc_db := ingested_db\<rparr>) \<and>
    (\<exists>p svc1. require service_runtime ''ingest'' demo_header 0 demo_service = (Inr p, svc1) \<and>
       key_holder (svc_db demo_service) (pr_key_hash p) = Some (pr_tenant p) \<and> ''ingest'' \<in> set (pr_scopes p))"
proof -
  have "serve service_runtime (\<lambda>_. 0) (\<lambda>_. Some []) demo_settings (Ingest [demo_event]) demo_header 0 1000000000000000
      demo_service = (Inr (), admitted_service\<lparr>svc_db := ingested_db\<rparr>)"
    by (simp add: demo_ingest drop_value_def)
  from request_authorised [OF demo_service_ok this] show ?thesis by simp
qed

text \<open>
  A request never reads or writes another tenant's rows: unless it is authenticated as a tenant, that tenant's
  rows are the same before and after.
\<close>

theorem request_isolation:
  assumes "serve R size_of encode cfg q header clock now svc = (r, svc')"
    and "\<And>p svc1. require R (request_scope q) header clock svc = (Inr p, svc1) \<Longrightarrow> pr_tenant p \<noteq> t"
  shows "tenant_view (svc_db svc') t = tenant_view (svc_db svc) t"
  by (rule serve_isolation [OF assms])

theorem request_isolation_witness:
  "tenant_view (svc_db (admitted_service\<lparr>svc_db := ingested_db\<rparr>)) ''other'' = tenant_view (svc_db demo_service) ''other''"
  by (rule request_isolation [of service_runtime "\<lambda>_. 0" "\<lambda>_. Some []" demo_settings "Ingest [demo_event]" demo_header 0
        1000000000000000 _ "Inr ()"])
    (simp_all add: demo_ingest drop_value_def demo_require scope_names demo_principal_def)



text \<open>
  C20.  The daily quota: a successful ingestion stores the caller's state with today's usage raised by exactly the
  accepted events, and that usage does not exceed the configured limit.
\<close>

theorem daily_quota:
  assumes "ingest_handler R size_of encode cfg header events clock now svc = (Inr m, svc')"
    and "\<And>t. usage_ok cfg (current_state None now (svc_db svc) t)"
  shows "\<exists>p svc1 w st. require R ''ingest'' header clock svc = (Inr p, svc1) \<and>
    find_state (svc_db svc') (pr_tenant p) = Some w \<and> sw_state w = Some st \<and>
    sw_expires_at w = now + RETENTION_US \<and>
    used_today now (sw_state w) = used_today now (current_state None now (svc_db svc) (pr_tenant p)) + int (mt_accepted m) \<and>
    used_today now (sw_state w) \<le> cf_daily_events cfg \<and> mt_accepted m + mt_duplicates m = length events"
  by (rule ingested_state [OF assms])

theorem daily_quota_witness:
  "\<exists>p svc1 w st. require service_runtime ''ingest'' demo_header 0 demo_service = (Inr p, svc1) \<and>
    find_state (svc_db (admitted_service\<lparr>svc_db := ingested_db\<rparr>)) (pr_tenant p) = Some w \<and> sw_state w = Some st \<and>
    sw_expires_at w = 1000000000000000 + RETENTION_US \<and>
    used_today 1000000000000000 (sw_state w) =
      used_today 1000000000000000 (current_state None 1000000000000000 (svc_db demo_service) (pr_tenant p)) +
      int (mt_accepted \<lparr>mt_accepted = 1, mt_duplicates = 0\<rparr>) \<and>
    used_today 1000000000000000 (sw_state w) \<le> cf_daily_events demo_settings \<and>
    mt_accepted \<lparr>mt_accepted = 1, mt_duplicates = 0\<rparr> + mt_duplicates \<lparr>mt_accepted = 1, mt_duplicates = 0\<rparr> = length [demo_event]"
  by (rule daily_quota [OF demo_ingest])
    (simp add: usage_ok_def current_state_def find_state_def demo_service_def demo_db_def)

text \<open>
  Provisioning works end to end: the key returned with a new tenant authenticates as that tenant with every
  scope, as soon as the rate limit admits the request.
\<close>

theorem provisioned_key_authenticates:
  assumes "create_tenant_handler R cfg header tenant token now svc = (Inr c, svc')"
    and "db_ok (svc_db svc)" "token_ok token" "scope \<in> set SCOPES" "snd (allow (svc_limiter svc') tenant clock)"
  shows "\<exists>p svc1. require R scope (Some (key_header (cr_key c))) clock svc' = (Inr p, svc1) \<and> pr_tenant p = tenant"
  by (rule provisioned_key_works [OF assms])

theorem provisioned_key_authenticates_witness:
  "\<exists>p svc1. require service_runtime ''read''
      (Some (key_header (cr_key \<lparr>cr_tenant = ''acme'', cr_key = new_key token0, cr_scopes = [''ingest'', ''read'', ''manage'']\<rparr>)))
      0 demo_service = (Inr p, svc1) \<and> pr_tenant p = ''acme''"
proof (rule provisioned_key_authenticates [of _ demo_settings demo_header _ token0 0 "demo_service\<lparr>svc_db := empty_db\<rparr>"])
  have "admin service_runtime demo_settings demo_header = Inr ()"
    by (simp add: admin_def demo_bearer demo_settings_def digest0_def)
  then show "create_tenant_handler service_runtime demo_settings demo_header ''acme'' token0 0 (demo_service\<lparr>svc_db := empty_db\<rparr>) =
      (Inr \<lparr>cr_tenant = ''acme'', cr_key = new_key token0, cr_scopes = [''ingest'', ''read'', ''manage'']\<rparr>, demo_service)"
    by (simp add: create_tenant_handler_def demo_digests demo_create demo_service_def)
qed (simp_all add: empty_db_ok demo_names_ok scope_names demo_allow)

text \<open>
  C22.  No scope escalation: a granted key belongs to its granter's tenant and carries exactly the requested scopes, all
  of which the granter has.
\<close>

theorem granted_key_no_escalation:
  assumes "add_key_handler R header scopes token clock now svc = (Inr g, svc')" "db_ok (svc_db svc)"
  shows "\<exists>p svc1 k. require R ''manage'' header clock svc = (Inr p, svc1) \<and> set scopes \<subseteq> set (pr_scopes p) \<and>
    find_key (svc_db svc') (digest_key R (kg_key g)) = Some k \<and> kr_tenant k = pr_tenant p \<and> set (kr_scopes k) = set scopes"
  by (rule granted_key [OF assms])

theorem granted_key_no_escalation_witness:
  "\<exists>p svc1 k. require service_runtime ''manage'' demo_header 0 demo_service = (Inr p, svc1) \<and> set [''read''] \<subseteq> set (pr_scopes p) \<and>
    find_key (svc_db (admitted_service\<lparr>svc_db := granted_db\<rparr>))
      (digest_key service_runtime (kg_key \<lparr>kg_key = new_key token1, kg_key_id = take 12 digest1, kg_scopes = [''read'']\<rparr>)) = Some k \<and>
    kr_tenant k = pr_tenant p \<and> set (kr_scopes k) = set [''read'']"
  by (rule granted_key_no_escalation [OF demo_grant]) (simp add: demo_service_def demo_db_ok)

text \<open>
  C23.  Revocation takes effect at once: after a successful revocation every request with a key of that identifier is
  answered 401.
\<close>

theorem revoked_key_refused:
  assumes "revoke_key_handler R header key_id clock svc = (Inr u, svc')" "db_ok (svc_db svc)"
    and "bearer R other = Inr h" "digest_ok h" "take 12 h = key_id"
    and "require R ''manage'' header clock svc = (Inr p, svc1)" "key_holder (svc_db svc) h = Some (pr_tenant p)"
  shows "require R scope other clock' svc' = (Inl (HTTP 401 ''invalid_credentials''), svc')"
  by (rule revoked_key_locked_out [OF assms])

theorem revoked_key_refused_witness:
  "require service_runtime ''read'' demo_header 5 (admitted_service\<lparr>svc_db := demo_db\<lparr>db_keys := []\<rparr>\<rparr>) =
   (Inl (HTTP 401 ''invalid_credentials''), admitted_service\<lparr>svc_db := demo_db\<lparr>db_keys := []\<rparr>\<rparr>)"
  by (rule revoked_key_refused [OF demo_revoke _ demo_bearer _ _ demo_require [OF scope_names(3)]])
    (simp_all add: demo_service_def demo_db_ok demo_names_ok demo_principal_def demo_holder)

text \<open>
  C24.  Deletion is complete: a confirmed deletion leaves no row of the tenant, and every request with any of
  its keys is answered 401.
\<close>

theorem deleted_tenant_gone:
  assumes "delete_tenant_handler R header confirm clock svc = (Inr u, svc')" "db_ok (svc_db svc)"
    and "bearer R other = Inr h" "digest_ok h"
    and "require R ''manage'' header clock svc = (Inr p, svc1)" "key_holder (svc_db svc) h = Some (pr_tenant p)"
  shows "confirm = Some (pr_tenant p) \<and> tenant_view (svc_db svc') (pr_tenant p) = ([], [], []) \<and>
    require R scope other clock' svc' = (Inl (HTTP 401 ''invalid_credentials''), svc')"
  by (rule deleted_tenant_locked_out [OF assms])

theorem deleted_tenant_gone_witness:
  "Some ''acme'' = Some (pr_tenant demo_principal) \<and>
    tenant_view (svc_db (admitted_service\<lparr>svc_db := empty_db\<rparr>)) (pr_tenant demo_principal) = ([], [], []) \<and>
    require service_runtime ''read'' demo_header 5 (admitted_service\<lparr>svc_db := empty_db\<rparr>) =
      (Inl (HTTP 401 ''invalid_credentials''), admitted_service\<lparr>svc_db := empty_db\<rparr>)"
  by (rule deleted_tenant_gone [OF demo_delete _ demo_bearer _ demo_require [OF scope_names(3)]])
    (simp_all add: demo_service_def demo_db_ok demo_names_ok demo_principal_def demo_holder)

text \<open>
  The configuration fails closed: settings read from the environment name a known store, the one permitted cloud
  project, no administrator digest or a well-formed one, and a daily limit between 1 and 100000; a decimal limit is read
  exactly.
\<close>

theorem settings_fail_closed:
  assumes "from_env env = Inr c"
  shows "cf_store c \<in> {''sqlite'', ''firestore''} \<and> (cf_store c = ''firestore'' \<longrightarrow> cf_project c = ''reliamesh'') \<and>
    (cf_admin_hash c = [] \<or> digest_ok (cf_admin_hash c)) \<and> 1 \<le> cf_daily_events c \<and> cf_daily_events c \<le> 100000 \<and>
    (\<forall>n. env ''RM_DAILY_EVENTS'' = Some (show_nat n) \<longrightarrow> cf_daily_events c = int n)"
proof -
  have "cf_daily_events c = int n" if "env ''RM_DAILY_EVENTS'' = Some (show_nat n)" for n
    using assms that by (simp add: from_env_def getenv_def py_int_show_nat check_settings_iff)
  then show ?thesis using from_env_checked(1) [OF assms] unfolding check_settings_iff by blast
qed

theorem settings_fail_closed_witness:
  "cf_store default_settings \<in> {''sqlite'', ''firestore''} \<and>
    (cf_admin_hash default_settings = [] \<or> digest_ok (cf_admin_hash default_settings)) \<and>
    1 \<le> cf_daily_events default_settings \<and> cf_daily_events default_settings \<le> 100000"
  using settings_fail_closed [OF from_env_default] by blast

end
